(* ===== verification/Prelude.thy ===== *)
theory Prelude
  imports Main "HOL-Library.Word"
begin

text \<open>
  Shared vocabulary of the development: the result type of fallible Go
  functions, the lemma collections that carry the component proofs, the generic
  lemmas on lists and maps, and the two interface contracts used by several
  components: a self-delimiting codec on byte streams and a transition
  system with an inductive invariant.
\<close>

section \<open>Collections\<close>

named_theorems frame_simps \<open>evaluation rules of the ACP wire format\<close>
named_theorems json_simps \<open>struct encoders and decoders\<close>

section \<open>Types\<close>

type_synonym byte = "8 word"
type_synonym u64 = "64 word"

text \<open>A Go function returning (T, error): the error on the left.\<close>

type_synonym ('e, 'a) result = "'e + 'a"

definition bindR :: "('e, 'a) result \<Rightarrow> ('a \<Rightarrow> ('e, 'b) result) \<Rightarrow> ('e, 'b) result" where
  "bindR r f = (case r of Inl e \<Rightarrow> Inl e | Inr a \<Rightarrow> f a)"

lemma bindR_simps [simp]:
  "bindR (Inl e) f = Inl e" "bindR (Inr a) f = f a"
  by (simp_all add: bindR_def)

lemma bindR_eq_Inr: "bindR r f = Inr b \<longleftrightarrow> (\<exists>a. r = Inr a \<and> f a = Inr b)"
  by (cases r) auto

lemma bindR_eq_Inl: "bindR r f = Inl e \<longleftrightarrow> r = Inl e \<or> (\<exists>a. r = Inr a \<and> f a = Inl e)"
  by (cases r) auto

definition is_ok :: "('e, 'a) result \<Rightarrow> bool" where
  "is_ok r = (case r of Inl _ \<Rightarrow> False | Inr _ \<Rightarrow> True)"

lemma is_ok_simps [simp]: "\<not> is_ok (Inl e)" "is_ok (Inr a)"
  by (simp_all add: is_ok_def)

text \<open>A Go map lookup with the zero value for a missing key.\<close>

definition lookup0 :: "'a \<Rightarrow> ('k \<rightharpoonup> 'a) \<Rightarrow> 'k \<Rightarrow> 'a" where
  "lookup0 z m k = (case m k of None \<Rightarrow> z | Some v \<Rightarrow> v)"

lemma lookup0_simps [simp]:
  "m k = None \<Longrightarrow> lookup0 z m k = z"
  "m k = Some v \<Longrightarrow> lookup0 z m k = v"
  by (simp_all add: lookup0_def)

section \<open>Self-delimiting codecs\<close>

text \<open>
  A writer of values into a byte stream and a reader that consumes exactly what
  the writer produced, whatever follows.
\<close>

locale stream_codec =
  fixes enc :: "'a \<Rightarrow> 'b list"
    and dec :: "'b list \<Rightarrow> ('e, 'a \<times> 'b list) result"
    and ok :: "'a \<Rightarrow> bool"
  assumes dec_enc: "ok a \<Longrightarrow> dec (enc a @ rest) = Inr (a, rest)"
begin

lemma dec_enc_only: "ok a \<Longrightarrow> dec (enc a) = Inr (a, [])"
  using dec_enc [of a "[]"] by simp

lemma enc_inj: "ok a \<Longrightarrow> ok b \<Longrightarrow> enc a = enc b \<Longrightarrow> a = b"
  using dec_enc [of a "[]"] dec_enc [of b "[]"] by simp

text \<open>No encoding is a proper prefix of another: streams split uniquely.\<close>

lemma enc_prefix_free:
  assumes "ok a" "ok b" "enc a @ r = enc b @ s"
  shows "a = b \<and> r = s"
proof -
  have "dec (enc a @ r) = Inr (a, r)" by (rule dec_enc [OF assms(1)])
  moreover have "dec (enc a @ r) = Inr (b, s)"
    unfolding assms(3) by (rule dec_enc [OF assms(2)])
  ultimately show ?thesis by (metis Inr_inject prod.inject)
qed

lemma enc_concat_inj:
  assumes "\<forall>a\<in>set as. ok a \<and> enc a \<noteq> []" "\<forall>b\<in>set bs. ok b \<and> enc b \<noteq> []"
    and "concat (map enc as) = concat (map enc bs)"
  shows "as = bs"
  using assms
proof (induction as arbitrary: bs)
  case Nil
  then show ?case by (cases bs) auto
next
  case (Cons a as)
  from Cons.prems(1) have "enc a \<noteq> []" by simp
  have "bs \<noteq> []"
  proof
    assume "bs = []"
    with Cons.prems(3) have "enc a = []" by (simp only: list.map concat.simps append_is_Nil_conv)
    with \<open>enc a \<noteq> []\<close> show False ..
  qed
  then obtain b bs' where bs: "bs = b # bs'" by (cases bs) auto
  have ok: "ok a" "ok b" using Cons.prems(1,2) by (simp_all add: bs)
  from Cons.prems(3) have "enc a @ concat (map enc as) = enc b @ concat (map enc bs')"
    by (simp only: bs list.map concat.simps)
  from enc_prefix_free [OF ok this]
  have ab: "a = b" and rest: "concat (map enc as) = concat (map enc bs')" by simp_all
  have "\<forall>a\<in>set as. ok a \<and> enc a \<noteq> []" "\<forall>b\<in>set bs'. ok b \<and> enc b \<noteq> []"
    using Cons.prems(1,2) by (simp_all add: bs)
  from Cons.IH [OF this rest] have "as = bs'" .
  with ab bs show ?case by simp
qed

end

section \<open>Transition systems\<close>

text \<open>
  A component whose operations are steps on its state. The client proves that the
  initial state satisfies the invariant and that every step keeps it.
\<close>

locale transition_system =
  fixes init :: "'s \<Rightarrow> bool"
    and step :: "'s \<Rightarrow> 'l \<Rightarrow> 's \<Rightarrow> bool"
    and inv :: "'s \<Rightarrow> bool"
  assumes init_inv: "init s \<Longrightarrow> inv s"
    and step_inv: "inv s \<Longrightarrow> step s l s' \<Longrightarrow> inv s'"
begin

inductive path :: "'s \<Rightarrow> 'l list \<Rightarrow> 's \<Rightarrow> bool" where
  path_nil: "path s [] s"
| path_cons: "step s l s' \<Longrightarrow> path s' ls s'' \<Longrightarrow> path s (l # ls) s''"

lemma path_inv: "path s ls s' \<Longrightarrow> inv s \<Longrightarrow> inv s'"
  by (induction rule: path.induct) (auto intro: step_inv)

lemma reach_inv: "init s \<Longrightarrow> path s ls s' \<Longrightarrow> inv s'"
  using path_inv init_inv by blast

lemma path_append: "path s ls s' \<Longrightarrow> path s' ms s'' \<Longrightarrow> path s (ls @ ms) s''"
  by (induction rule: path.induct) (auto intro: path.intros)

end

text \<open>A deterministic component: operations are functions folded over a trace.\<close>

definition run_ops :: "('s \<Rightarrow> 'o \<Rightarrow> 's) \<Rightarrow> 's \<Rightarrow> 'o list \<Rightarrow> 's" where
  "run_ops f s os = foldl f s os"

lemma run_ops_simps [simp]:
  "run_ops f s [] = s"
  "run_ops f s (x # xs) = run_ops f (f s x) xs"
  "run_ops f s (xs @ ys) = run_ops f (run_ops f s xs) ys"
  by (simp_all add: run_ops_def)

lemma run_ops_invariant:
  assumes "P s" "\<And>s x. P s \<Longrightarrow> P (f s x)"
  shows "P (run_ops f s xs)"
  using assms(1) by (induction xs arbitrary: s) (auto intro: assms(2))

section \<open>Lists\<close>

lemma sorted_wrt_map_iff:
  "sorted_wrt P (map f xs) \<longleftrightarrow> sorted_wrt (\<lambda>x y. P (f x) (f y)) xs"
  by (simp add: sorted_wrt_map)

lemma take_drop_split: "n \<le> length xs \<Longrightarrow> length (take n xs) = n \<and> take n xs @ drop n xs = xs"
  by simp

end
