(* ===== verification/AcpFrame.thy ===== *)
theory AcpFrame
  imports Prelude
begin

text \<open>
  The ACP v1 wire format: pkg/acp/frame.go (frame structure and constants) and
  pkg/acp/codec.go (WriteFrame, ReadFrame, readUvarint). A reader is the list of
  the bytes that arrive before end of file; a writer is a state with its Write
  operation.
\<close>

unbundle bit_operations_syntax

section \<open>Frames\<close>

definition Magic :: byte where "Magic = 0xAC"
definition Version :: byte where "Version = 0x01"

type_synonym FrameType = byte

definition FrameHello :: FrameType where "FrameHello = 0x01"
definition FrameHelloAck :: FrameType where "FrameHelloAck = 0x02"
definition FrameRun :: FrameType where "FrameRun = 0x10"
definition FrameEvent :: FrameType where "FrameEvent = 0x20"
definition FramePing :: FrameType where "FramePing = 0x30"
definition FramePong :: FrameType where "FramePong = 0x31"
definition FrameResume :: FrameType where "FrameResume = 0x40"
definition FrameClose :: FrameType where "FrameClose = 0x50"
definition FrameError :: FrameType where "FrameError = 0xF0"

lemmas frame_consts = Magic_def Version_def FrameHello_def FrameHelloAck_def FrameRun_def
  FrameEvent_def FramePing_def FramePong_def FrameResume_def FrameClose_def FrameError_def

definition FrameType_String :: "FrameType \<Rightarrow> string" where
  "FrameType_String t =
     (if t = FrameHello then ''HELLO''
      else if t = FrameHelloAck then ''HELLO_ACK''
      else if t = FrameRun then ''RUN''
      else if t = FrameEvent then ''EVENT''
      else if t = FramePing then ''PING''
      else if t = FramePong then ''PONG''
      else if t = FrameResume then ''RESUME''
      else if t = FrameClose then ''CLOSE''
      else if t = FrameError then ''ERROR''
      else ''UNKNOWN'')"

type_synonym Flags = byte

definition FlagEndStream :: Flags where "FlagEndStream = 0x01"
definition FlagReserved :: Flags where "FlagReserved = 0x02"

definition Flags_Has :: "Flags \<Rightarrow> Flags \<Rightarrow> bool" where
  "Flags_Has f other = (f AND other = other)"

definition MaxPayloadSize :: nat where "MaxPayloadSize = 16 * 1024 * 1024"
definition HeaderFixedSize :: nat where "HeaderFixedSize = 12"
definition MaxVarintLen64 :: nat where "MaxVarintLen64 = 10"

record Frame =
  Frame_Type :: FrameType
  Frame_Flags :: Flags
  Frame_Seq :: u64
  Frame_Payload :: "byte list"

section \<open>Errors\<close>

datatype acp_error =
    EOF
  | UnexpectedEOF
  | ErrBadMagic byte
  | ErrBadVersion byte
  | ErrPayloadTooLong
  | LenTooLong u64
  | UvarintOverflow
  | UvarintTooLong
  | ReadLen acp_error
  | ReadPayload acp_error
  | WriteFailed

section \<open>encoding/binary and io\<close>

text \<open>binary.BigEndian.PutUint64 and Uint64.\<close>

definition PutUint64 :: "u64 \<Rightarrow> byte list" where
  "PutUint64 x = map (\<lambda>i. ucast (drop_bit (8 * i) x)) [7, 6, 5, 4, 3, 2, 1, 0]"

definition Uint64 :: "byte list \<Rightarrow> u64" where
  "Uint64 bs = foldl (\<lambda>acc b. push_bit 8 acc OR ucast b) 0 bs"

text \<open>binary.PutUvarint: seven bits at a time, least significant first.\<close>

function PutUvarint :: "u64 \<Rightarrow> byte list" where
  "PutUvarint x =
     (if x < 0x80 then [ucast x]
      else (ucast x OR 0x80) # PutUvarint (drop_bit 7 x))"
  by auto
termination
proof (relation "measure unat")
  fix x :: u64
  assume "\<not> x < 0x80"
  then have "0x80 \<le> unat x"
    by (simp add: word_less_nat_alt)
  then show "(drop_bit 7 x, x) \<in> measure unat"
    by (simp add: drop_bit_eq_div unat_div)
qed simp

declare PutUvarint.simps [simp del]

text \<open>io.ReadFull for n bytes: EOF when nothing is left, ErrUnexpectedEOF when the
  stream stops in the middle.\<close>

definition ReadFull :: "nat \<Rightarrow> byte list \<Rightarrow> (acp_error, byte list \<times> byte list) result" where
  "ReadFull n r =
     (if n \<le> length r then Inr (take n r, drop n r)
      else if r = [] then Inl EOF else Inl UnexpectedEOF)"

section \<open>The codec\<close>

fun readUvarint_loop :: "nat \<Rightarrow> u64 \<Rightarrow> nat \<Rightarrow> byte list \<Rightarrow> (acp_error, u64 \<times> byte list) result" where
  "readUvarint_loop i x s [] =
     (if i < MaxVarintLen64 then Inl EOF else Inl UvarintTooLong)"
| "readUvarint_loop i x s (b # r) =
     (if i < MaxVarintLen64 then
        (if b < 0x80 then
           (if i = MaxVarintLen64 - 1 \<and> b > 1 then Inl UvarintOverflow
            else Inr (x OR push_bit s (ucast b), r))
         else readUvarint_loop (i + 1) (x OR push_bit s (ucast (b AND 0x7f))) (s + 7) r)
      else Inl UvarintTooLong)"

definition readUvarint :: "byte list \<Rightarrow> (acp_error, u64 \<times> byte list) result" where
  "readUvarint r = readUvarint_loop 0 0 0 r"

text \<open>The buffer WriteFrame builds: header, length, payload.\<close>

definition frame_bytes :: "Frame \<Rightarrow> byte list" where
  "frame_bytes f =
     [Magic, Version, Frame_Type f, Frame_Flags f] @ PutUint64 (Frame_Seq f) @
     PutUvarint (word_of_nat (length (Frame_Payload f))) @ Frame_Payload f"

definition WriteFrame ::
    "('w \<Rightarrow> byte list \<Rightarrow> acp_error option \<times> 'w) \<Rightarrow> 'w \<Rightarrow> Frame \<Rightarrow> acp_error option \<times> 'w" where
  "WriteFrame write w f =
     (if length (Frame_Payload f) > MaxPayloadSize then (Some ErrPayloadTooLong, w)
      else write w (frame_bytes f))"

definition ReadFrame :: "byte list \<Rightarrow> (acp_error, Frame \<times> byte list) result" where
  "ReadFrame r =
     bindR (ReadFull HeaderFixedSize r) (\<lambda>(head, r1).
       if head ! 0 \<noteq> Magic then Inl (ErrBadMagic (head ! 0))
       else if head ! 1 \<noteq> Version then Inl (ErrBadVersion (head ! 1))
       else
         (let f = \<lparr> Frame_Type = head ! 2, Frame_Flags = head ! 3,
                    Frame_Seq = Uint64 (take 8 (drop 4 head)), Frame_Payload = [] \<rparr>
          in case readUvarint r1 of
               Inl e \<Rightarrow> Inl (ReadLen e)
             | Inr (len, r2) \<Rightarrow>
                 if unat len > MaxPayloadSize then Inl (LenTooLong len)
                 else if len > 0 then
                   (case ReadFull (unat len) r2 of
                      Inl e \<Rightarrow> Inl (ReadPayload e)
                    | Inr (p, r3) \<Rightarrow> Inr (f\<lparr> Frame_Payload := p \<rparr>, r3))
                 else Inr (f, r2)))"

section \<open>Integers on the wire\<close>

lemma length_PutUint64 [simp]: "length (PutUint64 x) = 8"
  by (simp add: PutUint64_def)

lemma foldl_be:
  "foldl (\<lambda>acc b. push_bit 8 acc OR ucast b) (a :: u64)
     (map (\<lambda>i. ucast (drop_bit (8 * i) x) :: byte) (rev [0..<k]))
   = push_bit (8 * k) a OR take_bit (8 * k) x"
proof (induction k arbitrary: a)
  case (Suc k)
  have *: "push_bit (8 * k) (push_bit 8 a OR ucast (ucast (drop_bit (8 * k) x) :: byte)) OR
      take_bit (8 * k) x = push_bit (8 * Suc k) a OR take_bit (8 * Suc k) x"
  proof (rule bit_word_eqI)
    fix n
    show "bit (push_bit (8 * k) (push_bit 8 a OR ucast (ucast (drop_bit (8 * k) x) :: byte)) OR
        take_bit (8 * k) x) n = bit (push_bit (8 * Suc k) a OR take_bit (8 * Suc k) x) n"
      by (cases "8 + 8 * k \<le> n"; cases "8 * k \<le> n")
        (auto simp: bit_simps algebra_simps dest: bit_imp_le_length)
  qed
  show ?case using * by (simp add: Suc.IH add.commute)
qed simp

lemma Uint64_PutUint64 [simp]: "Uint64 (PutUint64 x) = x"
proof -
  have "[7, 6, 5, 4, 3, 2, 1, 0] = rev [0..<8::nat]" by (simp add: upt_rec)
  then have "Uint64 (PutUint64 x) = push_bit (8 * 8) 0 OR take_bit (8 * 8) x"
    unfolding Uint64_def PutUint64_def by (simp only: foldl_be)
  also have "\<dots> = x" by (rule bit_word_eqI) (simp add: bit_simps)
  finally show ?thesis .
qed

lemma bit_127: "bit (127 :: int) n \<longleftrightarrow> n < 7"
  using bit_mask_iff [where ?'a = int, of 7 n] by (simp add: mask_eq_exp_minus_1 possible_bit_def)

lemma bit_128: "bit (128 :: int) n \<longleftrightarrow> n = 7"
  using bit_exp_iff [where ?'a = int, of 7 n] by (simp add: possible_bit_def)

lemma or_push_bit_split:
  fixes x n :: u64
  shows "x OR push_bit s n = (x OR push_bit s (n AND 0x7f)) OR push_bit (s + 7) (drop_bit 7 n)"
proof (rule bit_word_eqI)
  fix k assume "k < LENGTH(64)"
  show "bit (x OR push_bit s n) k =
    bit ((x OR push_bit s (n AND 0x7f)) OR push_bit (s + 7) (drop_bit 7 n)) k"
    by (cases "s + 7 \<le> k") (auto simp: bit_simps bit_127 dest: bit_imp_le_length)
qed

lemma less_0x80_ucast:
  fixes n :: u64
  assumes "n < 0x80"
  shows "(ucast n :: byte) < 0x80" "ucast (ucast n :: byte) = n" "unat (ucast n :: byte) = unat n"
proof -
  have "unat n < 128" using assms by (simp add: word_less_nat_alt)
  then show u: "unat (ucast n :: byte) = unat n" by (simp add: unsigned_ucast_eq take_bit_eq_mod)
  with \<open>unat n < 128\<close> show "(ucast n :: byte) < 0x80" by (simp add: word_less_nat_alt)
  show "ucast (ucast n :: byte) = n"
    using u by (simp add: word_unat_eq_iff unsigned_ucast_eq take_bit_eq_mod unat_mod)
qed

lemma bit7_le: "(b :: byte) < 0x80 \<longleftrightarrow> \<not> bit b 7"
proof -
  have "bit b 7 \<longleftrightarrow> bit (unat b) 7" by (simp add: bit_unsigned_iff)
  then have "bit b 7 \<longleftrightarrow> odd (unat b div 128)" by (simp add: bit_iff_odd)
  moreover have "unat b < 256" using unsigned_less [of b, where ?'a = nat] by simp
  moreover have "unat b div 128 = (if unat b < 128 then 0 else 1)"
    using calculation(2) by (auto intro: div_nat_eqI)
  ultimately show ?thesis by (simp add: word_less_nat_alt split: if_splits)
qed

lemma or_0x80_not_less: "\<not> (b OR 0x80 :: byte) < 0x80"
  by (simp add: bit7_le bit_simps bit_128)

lemma cont_byte_value:
  fixes n :: u64
  shows "ucast ((ucast n OR 0x80 :: byte) AND 0x7f) = n AND 0x7f" 
  by (rule bit_word_eqI) (auto simp: bit_simps bit_127 bit_128)

lemma readUvarint_loop_PutUvarint:
  assumes "i \<le> 9" "unat n < 2 ^ (64 - 7 * i)"
  shows "readUvarint_loop i x (7 * i) (PutUvarint n @ r) = Inr (x OR push_bit (7 * i) n, r)"
  using assms
proof (induction n arbitrary: i x rule: PutUvarint.induct)
  case (1 n)
  show ?case
  proof (cases "n < 0x80")
    case True
    have "PutUvarint n = [ucast n]" using True by (simp add: PutUvarint.simps)
    moreover have "\<not> (i = 9 \<and> (ucast n :: byte) > 1)"
      using 1(3) less_0x80_ucast(3) [OF True] by (auto simp: word_less_nat_alt)
    ultimately show ?thesis
      using 1(2) less_0x80_ucast(1,2) [OF True] by (auto simp: MaxVarintLen64_def)
  next
    case False
    then have ge: "128 \<le> unat n" by (simp add: word_less_nat_alt)
    have "PutUvarint n = (ucast n OR 0x80) # PutUvarint (drop_bit 7 n)"
      using False by (simp add: PutUvarint.simps [of n])
    moreover have i: "i < 9"
    proof (rule ccontr)
      assume "\<not> i < 9"
      with 1(2) have "i = 9" by simp
      with 1(3) ge show False by simp
    qed
    moreover have "unat (drop_bit 7 n) < 2 ^ (64 - 7 * (i + 1))"
    proof -
      have "(2::nat) ^ (64 - 7 * i) = 2 ^ (64 - 7 * (i + 1)) * 128"
        using i power_add [of "2::nat" "64 - 7 * (i + 1)" 7] by simp
      then show ?thesis using 1(3)
        by (simp add: drop_bit_eq_div unat_div less_mult_imp_div_less)
    qed
    moreover have "readUvarint_loop (i + 1) (x OR push_bit (7 * i) (n AND 0x7f)) (7 * (i + 1))
        (PutUvarint (drop_bit 7 n) @ r)
      = Inr ((x OR push_bit (7 * i) (n AND 0x7f)) OR push_bit (7 * (i + 1)) (drop_bit 7 n), r)"
      by (rule 1(1) [OF False]) (use i calculation(3) in simp_all)
    moreover have "7 * (i + 1) = 7 * i + 7" by simp
    ultimately show ?thesis
      by (simp add: MaxVarintLen64_def or_0x80_not_less cont_byte_value
          or_push_bit_split [of x "7 * i" n] add.commute [of 7 "7 * i"])
  qed
qed

lemma readUvarint_PutUvarint: "readUvarint (PutUvarint n @ r) = Inr (n, r)"
  using readUvarint_loop_PutUvarint [of 0 n 0 r] unsigned_less [of n, where ?'a = nat]
  by (simp add: readUvarint_def)

interpretation uvarint: stream_codec PutUvarint readUvarint "\<lambda>_. True"
  by unfold_locales (simp add: readUvarint_PutUvarint)

text \<open>The number an uvarint denotes, as a natural number of any size.\<close>

fun uvarint_value :: "byte list \<Rightarrow> nat" where
  "uvarint_value [] = 0"
| "uvarint_value (b # bs) = unat b mod 128 + 128 * uvarint_value bs"

lemma unat_or_push_bit:
  fixes x y :: u64
  assumes "unat x < 2 ^ s" "unat x + 2 ^ s * unat y < 2 ^ 64"
  shows "unat (x OR push_bit s y) = unat x + 2 ^ s * unat y"
proof -
  have "take_bit 64 (push_bit s (unat y)) = push_bit s (unat y)"
    using assms(2) by (simp add: take_bit_nat_eq_self_iff push_bit_eq_mult mult.commute)
  then have p: "unat (push_bit s y) = push_bit s (unat y)"
    by (simp add: unsigned_push_bit_eq)
  have "unat x AND push_bit s (unat y) = 0"
  proof (rule bit_eqI)
    fix n
    have "take_bit s (unat x) = unat x" using assms(1) by (simp add: take_bit_nat_eq_self_iff)
    then have "bit (unat x) n \<Longrightarrow> n < s" by (metis bit_take_bit_iff)
    then show "bit (unat x AND push_bit s (unat y)) n = bit 0 n"
      by (auto simp: bit_simps)
  qed
  then show ?thesis
    unfolding unsigned_or_eq p
    by (simp only: disjunctive_add_eq_or [symmetric] push_bit_eq_mult mult.commute)
qed

lemma varint_digit_bound:
  fixes x d i :: nat
  assumes "x < 2 ^ (7 * i)" "d < 128"
  shows "x + 2 ^ (7 * i) * d < 2 ^ (7 * (i + 1))"
proof -
  have "x + 2 ^ (7 * i) * d < 2 ^ (7 * i) * (1 + d)" using assms(1) by simp
  also have "\<dots> \<le> 2 ^ (7 * i) * 128" using assms(2) by (intro mult_le_mono2) simp
  also have "\<dots> = 2 ^ (7 * (i + 1))" by (simp add: power_add)
  finally show ?thesis .
qed

lemma varint_step_bound:
  fixes x d i :: nat
  assumes "x < 2 ^ (7 * i)" "d < 128" "i \<le> 9" "i = 9 \<Longrightarrow> d \<le> 1"
  shows "x + 2 ^ (7 * i) * d < 2 ^ 64"
proof (cases "i = 9")
  case True
  then have "d \<le> 1" "x < 2 ^ 63" using assms by simp_all
  then have "2 ^ 63 * d \<le> (2::nat) ^ 63 * 1" by (intro mult_le_mono2)
  then show ?thesis using \<open>x < 2 ^ 63\<close> True by simp
next
  case False
  have "x + 2 ^ (7 * i) * d < 2 ^ (7 * (i + 1))" by (rule varint_digit_bound [OF assms(1,2)])
  also have "\<dots> \<le> 2 ^ 64" using assms(3) False by (intro power_increasing) auto
  finally show ?thesis .
qed

lemma readUvarint_loop_exact:
  assumes "readUvarint_loop i x (7 * i) r = Inr (v, rest)" "unat x < 2 ^ (7 * i)" "i \<le> 10"
  shows "\<exists>p. r = p @ rest \<and> 1 \<le> length p \<and> i + length p \<le> 10 \<and> last p < 0x80
    \<and> (\<forall>b\<in>set (butlast p). \<not> b < 0x80)
    \<and> unat v = unat x + 2 ^ (7 * i) * uvarint_value p"
  using assms
proof (induction r arbitrary: i x)
  case Nil
  then show ?case by (simp split: if_splits)
next
  case (Cons b r)
  from Cons.prems have i: "i < 10" by (auto simp: MaxVarintLen64_def split: if_splits)
  show ?case
  proof (cases "b < 0x80")
    case True
    with Cons.prems i have v: "v = x OR push_bit (7 * i) (ucast b)" "rest = r"
      and b1: "i = 9 \<Longrightarrow> unat b \<le> 1"
      by (auto simp: MaxVarintLen64_def word_less_nat_alt split: if_splits)
    have b: "unat b < 128" using True by (simp add: word_less_nat_alt)
    have ub: "unat (ucast b :: u64) = unat b"
      using b by (simp add: unsigned_ucast_eq take_bit_nat_eq_self_iff)
    have "unat x + 2 ^ (7 * i) * unat b < 2 ^ 64"
      using varint_step_bound [OF Cons.prems(2), of "unat b"] b b1 i by auto
    then have "unat v = unat x + 2 ^ (7 * i) * unat b"
      unfolding v(1) using unat_or_push_bit Cons.prems(2) ub by simp
    then show ?thesis using b True i v(2)
      by (intro exI [of _ "[b]"]) simp
  next
    case False
    let ?x = "x OR push_bit (7 * i) (ucast (b AND 0x7f))"
    have "readUvarint_loop (i + 1) ?x (7 * (i + 1)) r = Inr (v, rest)"
      using Cons.prems(1) False i by (simp add: MaxVarintLen64_def add.commute [of 7 "7 * i"])
    moreover have "i < 9 \<or> i = 9" using i by auto
    ultimately have i9: "i < 9" by (cases r) (auto simp: MaxVarintLen64_def)
    have d: "unat (ucast (b AND 0x7f) :: u64) = unat b mod 128"
    proof -
      have "b AND 0x7f = take_bit 7 b" by (simp add: take_bit_eq_mask mask_eq_exp_minus_1)
      moreover have "unat (take_bit 7 b) = unat b mod 128"
        by (simp add: unsigned_take_bit_eq take_bit_eq_mod unat_mod)
      ultimately have "unat (b AND 0x7f) = unat b mod 128" by simp
      moreover have "unat b mod 128 < 128" by simp
      ultimately show ?thesis by (simp add: unsigned_ucast_eq take_bit_nat_eq_self_iff)
    qed
    have x: "unat ?x = unat x + 2 ^ (7 * i) * (unat b mod 128)"
      using unat_or_push_bit [OF Cons.prems(2), of "ucast (b AND 0x7f)"]
        varint_step_bound [OF Cons.prems(2), of "unat b mod 128"] i9 d by simp
    then have "unat ?x < 2 ^ (7 * (i + 1))"
      using varint_digit_bound [OF Cons.prems(2), of "unat b mod 128"] by simp
    from Cons.IH [OF \<open>readUvarint_loop (i + 1) ?x (7 * (i + 1)) r = Inr (v, rest)\<close> this] i9
    obtain p where "r = p @ rest" "1 \<le> length p" "i + 1 + length p \<le> 10" "last p < 0x80"
      "\<forall>b\<in>set (butlast p). \<not> b < 0x80"
      "unat v = unat ?x + 2 ^ (7 * (i + 1)) * uvarint_value p" by auto
    then show ?thesis using False x
      by (intro exI [of _ "b # p"]) (auto simp: algebra_simps power_add)
  qed
qed

lemma readUvarint_exact:
  assumes "readUvarint r = Inr (v, rest)"
  shows "\<exists>p. r = p @ rest \<and> 1 \<le> length p \<and> length p \<le> MaxVarintLen64 \<and> last p < 0x80
    \<and> (\<forall>b\<in>set (butlast p). \<not> b < 0x80) \<and> unat v = uvarint_value p"
  using readUvarint_loop_exact [of 0 0 r v rest] assms
  by (simp add: readUvarint_def MaxVarintLen64_def)

section \<open>Reading a stream that stops early\<close>

text \<open>io.EOF or io.ErrUnexpectedEOF, possibly wrapped by ReadFrame.\<close>

fun eof_error :: "acp_error \<Rightarrow> bool" where
  "eof_error EOF = True"
| "eof_error UnexpectedEOF = True"
| "eof_error (ReadLen e) = eof_error e"
| "eof_error (ReadPayload e) = eof_error e"
| "eof_error _ = False"

lemma ReadFull_extend:
  "ReadFull n r = Inr (a, b) \<Longrightarrow> ReadFull n (r @ s) = Inr (a, b @ s)"
  by (auto simp: ReadFull_def split: if_splits)

lemma ReadFull_error: "ReadFull n r = Inl e \<Longrightarrow> eof_error e"
  by (auto simp: ReadFull_def split: if_splits)

lemma readUvarint_loop_extend:
  "readUvarint_loop i x k r = Inr (v, b) \<Longrightarrow> readUvarint_loop i x k (r @ s) = Inr (v, b @ s)"
  by (induction i x k r rule: readUvarint_loop.induct) (auto split: if_splits)

lemma readUvarint_loop_error_extend:
  "readUvarint_loop i x k r = Inl e \<Longrightarrow> \<not> eof_error e \<Longrightarrow> readUvarint_loop i x k (r @ s) = Inl e"
proof (induction i x k r rule: readUvarint_loop.induct)
  case (1 i x k)
  then show ?case by (cases s) (auto split: if_splits)
next
  case (2 i x k b r)
  then show ?case by (auto split: if_splits)
qed

lemma ReadFrame_extend:
  assumes "ReadFrame r = Inr (f, rest)"
  shows "ReadFrame (r @ s) = Inr (f, rest @ s)"
proof -
  from assms obtain h r1 len r2 where
      h: "ReadFull HeaderFixedSize r = Inr (h, r1)" "h ! 0 = Magic" "h ! 1 = Version"
    and u: "readUvarint r1 = Inr (len, r2)" "unat len \<le> MaxPayloadSize"
    by (auto simp: ReadFrame_def bindR_eq_Inr Let_def split: if_splits sum.splits prod.splits)
  have h': "ReadFull HeaderFixedSize (r @ s) = Inr (h, r1 @ s)" by (rule ReadFull_extend [OF h(1)])
  have u': "readUvarint (r1 @ s) = Inr (len, r2 @ s)"
    using u(1) unfolding readUvarint_def by (rule readUvarint_loop_extend)
  show ?thesis
    using assms h u
    by (auto simp: ReadFrame_def h' u' Let_def split: if_splits sum.splits prod.splits
        dest: ReadFull_extend [of _ _ _ _ s])
qed

lemma ReadFrame_error_extend:
  assumes "ReadFrame r = Inl e" "\<not> eof_error e"
  shows "ReadFrame (r @ s) = Inl e"
proof -
  from assms obtain h r1 where h: "ReadFull HeaderFixedSize r = Inr (h, r1)"
    by (cases "ReadFull HeaderFixedSize r") (auto simp: ReadFrame_def dest: ReadFull_error)
  have h': "ReadFull HeaderFixedSize (r @ s) = Inr (h, r1 @ s)" by (rule ReadFull_extend [OF h])
  show ?thesis
  proof (cases "readUvarint r1")
    case (Inl e')
    then have "\<not> eof_error e' \<Longrightarrow> readUvarint (r1 @ s) = Inl e'"
      by (simp add: readUvarint_def readUvarint_loop_error_extend)
    with Inl show ?thesis using assms
      by (auto simp: ReadFrame_def h h' Let_def split: if_splits)
  next
    case (Inr p)
    obtain len r2 where p: "p = (len, r2)" by (cases p)
    have "readUvarint (r1 @ s) = Inr (len, r2 @ s)"
      using Inr unfolding readUvarint_def p by (rule readUvarint_loop_extend)
    then show ?thesis using assms Inr p
      by (auto simp: ReadFrame_def h h' Let_def split: if_splits sum.splits dest: ReadFull_error)
  qed
qed

section \<open>Frames\<close>

lemma ReadFull_append [frame_simps]: "length p = n \<Longrightarrow> ReadFull n (p @ r) = Inr (p, r)"
  by (simp add: ReadFull_def)

lemma header_read:
  "ReadFull HeaderFixedSize (frame_bytes f @ r) =
     Inr ([Magic, Version, Frame_Type f, Frame_Flags f] @ PutUint64 (Frame_Seq f),
          PutUvarint (word_of_nat (length (Frame_Payload f))) @ Frame_Payload f @ r)"
proof -
  have "frame_bytes f @ r = ([Magic, Version, Frame_Type f, Frame_Flags f] @ PutUint64 (Frame_Seq f)) @
      (PutUvarint (word_of_nat (length (Frame_Payload f))) @ Frame_Payload f @ r)"
    by (simp add: frame_bytes_def)
  then show ?thesis by (simp only:) (rule ReadFull_append, simp add: HeaderFixedSize_def)
qed

lemma payload_len:
  assumes "n \<le> MaxPayloadSize"
  shows "unat (word_of_nat n :: u64) = n"
  using assms by (simp add: MaxPayloadSize_def unsigned_of_nat take_bit_nat_eq_self_iff)

lemma ReadFrame_frame_bytes:
  assumes "length (Frame_Payload f) \<le> MaxPayloadSize"
  shows "ReadFrame (frame_bytes f @ r) = Inr (f, r)"
proof -
  have len0: "(word_of_nat (length (Frame_Payload f)) :: u64) > 0 \<longleftrightarrow> Frame_Payload f \<noteq> []"
    using payload_len [OF assms] by (auto simp: word_less_nat_alt)
  show ?thesis
    using assms len0
    by (cases f) (auto simp: ReadFrame_def header_read readUvarint_PutUvarint payload_len
      Let_def ReadFull_append)
qed

interpretation frame: stream_codec frame_bytes ReadFrame
    "\<lambda>f. length (Frame_Payload f) \<le> MaxPayloadSize"
  by unfold_locales (rule ReadFrame_frame_bytes)

lemma frame_bytes_nonempty [simp]: "frame_bytes f \<noteq> []"
  by (simp add: frame_bytes_def)

text \<open>A byte buffer as the io.Writer.\<close>

definition buffer_write :: "byte list \<Rightarrow> byte list \<Rightarrow> acp_error option \<times> byte list" where
  "buffer_write w bs = (None, w @ bs)"

text \<open>C21: A frame whose payload is at most 16 MiB is written without error, and a
  reader of the written bytes, whatever follows them in the stream, gets back
  exactly that frame and stops exactly behind it.\<close>

theorem WriteFrame_ReadFrame_roundtrip:
  assumes "length (Frame_Payload f) \<le> MaxPayloadSize"
  shows "\<exists>bs. WriteFrame buffer_write w f = (None, w @ bs) \<and> ReadFrame (bs @ rest) = Inr (f, rest)"
  using frame.dec_enc [OF assms, of rest] assms
  by (intro exI [of _ "frame_bytes f"]) (simp add: WriteFrame_def buffer_write_def)

definition ping_frame :: Frame where
  "ping_frame = \<lparr> Frame_Type = FramePing, Frame_Flags = FlagEndStream, Frame_Seq = 258,
     Frame_Payload = [1, 2, 3] \<rparr>"

theorem WriteFrame_ReadFrame_roundtrip_witness:
  "\<exists>bs. WriteFrame buffer_write [9] ping_frame = (None, [9] @ bs) \<and>
     ReadFrame (bs @ [7]) = Inr (ping_frame, [7])"
  by (rule WriteFrame_ReadFrame_roundtrip) (simp add: ping_frame_def MaxPayloadSize_def)

text \<open>Reading is total on corrupt input and never accepts a damaged frame:
  an oversized frame is refused by the writer with nothing written, and every proper prefix of a
  written frame is an end-of-file error, whatever its length.\<close>

theorem ReadFrame_truncated:
  "(length (Frame_Payload f) > MaxPayloadSize \<longrightarrow> WriteFrame write w f = (Some ErrPayloadTooLong, w)) \<and>
   (length (Frame_Payload f) \<le> MaxPayloadSize \<longrightarrow> frame_bytes f = p @ s \<longrightarrow> s \<noteq> [] \<longrightarrow>
     (\<exists>e. ReadFrame p = Inl e \<and> eof_error e))"
proof (intro conjI impI)
  assume "length (Frame_Payload f) > MaxPayloadSize"
  then show "WriteFrame write w f = (Some ErrPayloadTooLong, w)" by (simp add: WriteFrame_def)
next
  assume len: "length (Frame_Payload f) \<le> MaxPayloadSize" and ps: "frame_bytes f = p @ s" "s \<noteq> []"
  have full: "ReadFrame (p @ s) = Inr (f, [])"
    using frame.dec_enc_only [OF len] ps(1) by simp
  show "\<exists>e. ReadFrame p = Inl e \<and> eof_error e"
  proof (cases "ReadFrame p")
    case (Inl e)
    with full ReadFrame_error_extend [OF Inl, of s] show ?thesis by auto
  next
    case (Inr q)
    then obtain g r where "ReadFrame p = Inr (g, r)" by (cases q) auto
    from ReadFrame_extend [OF this, of s] full ps(2) show ?thesis by simp
  qed
qed

theorem ReadFrame_truncated_witness:
  "\<exists>e. ReadFrame (take 14 (frame_bytes ping_frame)) = Inl e \<and> eof_error e"
proof -
  have "length (Frame_Payload ping_frame) \<le> MaxPayloadSize"
    by (simp add: ping_frame_def MaxPayloadSize_def)
  moreover have "frame_bytes ping_frame = take 14 (frame_bytes ping_frame) @ drop 14 (frame_bytes ping_frame)"
    by simp
  moreover have "drop 14 (frame_bytes ping_frame) \<noteq> []"
    by (simp add: frame_bytes_def ping_frame_def PutUvarint.simps [of 3])
  ultimately show ?thesis
    using ReadFrame_truncated [of ping_frame "\<lambda>w bs. (None, w)" "()"
        "take 14 (frame_bytes ping_frame)" "drop 14 (frame_bytes ping_frame)"] by blast
qed

text \<open>Whatever ReadFrame accepts really was a frame: the consumed bytes are the twelve
  header bytes with the right magic and version, a length of at most ten bytes whose
  value is read exactly (no bit is lost in the 64-bit shifts), and a payload of
  exactly that many bytes, at most 16 MiB.\<close>

theorem ReadFrame_sound:
  assumes "ReadFrame r = Inr (f, rest)"
  shows "\<exists>h p. r = h @ p @ Frame_Payload f @ rest \<and> length h = HeaderFixedSize \<and>
     h ! 0 = Magic \<and> h ! 1 = Version \<and> h ! 2 = Frame_Type f \<and> h ! 3 = Frame_Flags f \<and>
     Uint64 (take 8 (drop 4 h)) = Frame_Seq f \<and>
     1 \<le> length p \<and> length p \<le> MaxVarintLen64 \<and>
     uvarint_value p = length (Frame_Payload f) \<and> length (Frame_Payload f) \<le> MaxPayloadSize"
proof -
  from assms obtain h r1 len r2 where
      h: "ReadFull HeaderFixedSize r = Inr (h, r1)" "h ! 0 = Magic" "h ! 1 = Version"
    and u: "readUvarint r1 = Inr (len, r2)" "unat len \<le> MaxPayloadSize"
    by (auto simp: ReadFrame_def bindR_eq_Inr Let_def split: if_splits sum.splits prod.splits)
  obtain p where p: "r1 = p @ r2" "1 \<le> length p" "length p \<le> MaxVarintLen64" "unat len = uvarint_value p"
    using readUvarint_exact [OF u(1)] by blast
  have r: "r = h @ r1" "length h = HeaderFixedSize"
    using h(1) by (auto simp: ReadFull_def split: if_splits)
  have pay: "r2 = Frame_Payload f @ rest \<and> length (Frame_Payload f) = unat len"
    using assms h u
    by (auto simp: ReadFrame_def ReadFull_def word_gt_0 Let_def split: if_splits)
  have flds: "h ! 2 = Frame_Type f" "h ! 3 = Frame_Flags f" "Uint64 (take 8 (drop 4 h)) = Frame_Seq f"
    using assms h u by (auto simp: ReadFrame_def Let_def split: if_splits sum.splits)
  show ?thesis
    using r p pay flds h u(2) by (intro exI [of _ h] exI [of _ p]) simp
qed

theorem ReadFrame_sound_witness:
  "\<exists>h p. frame_bytes ping_frame @ [7] = h @ p @ Frame_Payload ping_frame @ [7] \<and> length h = HeaderFixedSize \<and>
     h ! 0 = Magic \<and> h ! 1 = Version \<and> h ! 2 = Frame_Type ping_frame \<and> h ! 3 = Frame_Flags ping_frame \<and>
     Uint64 (take 8 (drop 4 h)) = Frame_Seq ping_frame \<and>
     1 \<le> length p \<and> length p \<le> MaxVarintLen64 \<and>
     uvarint_value p = length (Frame_Payload ping_frame) \<and> length (Frame_Payload ping_frame) \<le> MaxPayloadSize"
  by (rule ReadFrame_sound, rule frame.dec_enc) (simp add: ping_frame_def MaxPayloadSize_def)

end
