(* ===== verification/GoStrings.thy ===== *)
theory GoStrings
  imports Prelude "HOL-Library.Sublist"
begin

text \<open>
  Go strings: byte strings (one char per byte), decoded as UTF-8 the way the language
  and the packages strings, unicode/utf8 and strconv do it. An invalid byte is the
  rune U+FFFD of width one. Classification of runes above ASCII that the code needs
  only through unicode tables is passed as a parameter where it is used.
\<close>

section \<open>Bytes and runes\<close>

definition ord :: "char \<Rightarrow> nat" where "ord c = of_char c"
definition chr :: "nat \<Rightarrow> char" where "chr n = char_of n"

lemma ord_less [simp]: "ord c < 256"
  by (simp add: ord_def)

lemma ord_chr [simp]: "n < 256 \<Longrightarrow> ord (chr n) = n"
  by (simp add: ord_def chr_def of_char_of)

lemma chr_ord [simp]: "chr (ord c) = c"
  by (simp add: ord_def chr_def)

lemma ord_eq_iff: "ord c = ord d \<longleftrightarrow> c = d"
  by (simp add: ord_def)

definition RuneError :: nat where "RuneError = 0xFFFD"

definition cont :: "nat \<Rightarrow> bool" where "cont b \<longleftrightarrow> 0x80 \<le> b \<and> b \<le> 0xBF"

text \<open>utf8.DecodeRuneInString: the rune and its width, RuneError and width 1 for an
  invalid encoding, width 0 for the empty string.\<close>

definition second_ok :: "nat \<Rightarrow> nat \<Rightarrow> bool" where
  "second_ok a b =
     (if a = 0xE0 then 0xA0 \<le> b \<and> b \<le> 0xBF
      else if a = 0xED then 0x80 \<le> b \<and> b \<le> 0x9F
      else if a = 0xF0 then 0x90 \<le> b \<and> b \<le> 0xBF
      else if a = 0xF4 then 0x80 \<le> b \<and> b \<le> 0x8F
      else cont b)"

definition DecodeRune :: "string \<Rightarrow> nat \<times> nat" where
  "DecodeRune s = (case s of
      [] \<Rightarrow> (RuneError, 0)
    | a0 # r \<Rightarrow> let a = ord a0 in
        if a < 0x80 then (a, 1)
        else if 0xC2 \<le> a \<and> a \<le> 0xDF then
          (case r of b # _ \<Rightarrow> if cont (ord b) then ((a - 0xC0) * 64 + (ord b - 0x80), 2) else (RuneError, 1)
                   | [] \<Rightarrow> (RuneError, 1))
        else if 0xE0 \<le> a \<and> a \<le> 0xEF then
          (case r of b # c # _ \<Rightarrow>
               if second_ok a (ord b) \<and> cont (ord c)
               then ((a - 0xE0) * 4096 + (ord b - 0x80) * 64 + (ord c - 0x80), 3) else (RuneError, 1)
             | _ \<Rightarrow> (RuneError, 1))
        else if 0xF0 \<le> a \<and> a \<le> 0xF4 then
          (case r of b # c # d # _ \<Rightarrow>
               if second_ok a (ord b) \<and> cont (ord c) \<and> cont (ord d)
               then ((a - 0xF0) * 262144 + (ord b - 0x80) * 4096 + (ord c - 0x80) * 64 + (ord d - 0x80), 4)
               else (RuneError, 1)
             | _ \<Rightarrow> (RuneError, 1))
        else (RuneError, 1))"

definition rune_width :: "string \<Rightarrow> nat" where "rune_width s = snd (DecodeRune s)"

lemma rune_width_bounds: "s \<noteq> [] \<Longrightarrow> 1 \<le> rune_width s \<and> rune_width s \<le> length s"
  by (cases s) (auto simp: rune_width_def DecodeRune_def Let_def split: list.splits)

text \<open>utf8.AppendRune: surrogates and values above U+10FFFF encode as U+FFFD.\<close>

definition EncodeRune :: "nat \<Rightarrow> string" where
  "EncodeRune r0 =
     (let r = (if r0 > 0x10FFFF \<or> (0xD800 \<le> r0 \<and> r0 \<le> 0xDFFF) then RuneError else r0) in
      if r < 0x80 then [chr r]
      else if r < 0x800 then [chr (0xC0 + r div 64), chr (0x80 + r mod 64)]
      else if r < 0x10000 then
        [chr (0xE0 + r div 4096), chr (0x80 + r div 64 mod 64), chr (0x80 + r mod 64)]
      else [chr (0xF0 + r div 262144), chr (0x80 + r div 4096 mod 64),
            chr (0x80 + r div 64 mod 64), chr (0x80 + r mod 64)])"

text \<open>The runes of a string with the bytes each came from: for _, r := range s.\<close>

function segs :: "string \<Rightarrow> (nat \<times> string) list" where
  "segs s = (if s = [] then []
     else (fst (DecodeRune s), take (rune_width s) s) # segs (drop (rune_width s) s))"
  by auto
termination
proof (relation "measure length")
  fix s :: string
  assume "s \<noteq> []"
  then show "(drop (rune_width s) s, s) \<in> measure length"
    using rune_width_bounds [of s] by (cases s) simp_all
qed simp

declare segs.simps [simp del]

lemma segs_Nil [simp]: "segs [] = []"
  by (simp add: segs.simps)

lemma segs_Cons: "s \<noteq> [] \<Longrightarrow>
    segs s = (fst (DecodeRune s), take (rune_width s) s) # segs (drop (rune_width s) s)"
  by (simp add: segs.simps [of s])

lemma concat_segs [simp]: "concat (map snd (segs s)) = s"
proof (induction s rule: segs.induct)
  case (1 s)
  then show ?case by (cases "s = []") (simp_all add: segs_Cons)
qed

text \<open>[]rune(s) and string(runes).\<close>

definition runes :: "string \<Rightarrow> nat list" where "runes s = map fst (segs s)"
definition of_runes :: "nat list \<Rightarrow> string" where "of_runes rs = concat (map EncodeRune rs)"

text \<open>utf8.ValidString: no segment is a decoding error.\<close>

definition ValidString :: "string \<Rightarrow> bool" where
  "ValidString s = (\<forall>(r, b) \<in> set (segs s). \<not> (r = RuneError \<and> length b = 1))"

section \<open>Encoding and decoding one rune\<close>

lemma div64: "(q::nat) < 64 \<Longrightarrow> (p * 64 + q) div 64 = p"
  by (simp add: div_mult_self3)

lemma mod64: "(q::nat) < 64 \<Longrightarrow> (p * 64 + q) mod 64 = q"
  by simp

lemma base64_3:
  fixes x y z :: nat
  assumes "y < 64" "z < 64"
  defines "r \<equiv> x * 4096 + y * 64 + z"
  shows "r div 4096 = x" "r div 64 mod 64 = y" "r mod 64 = z" "r div 64 = x * 64 + y"
proof -
  have r: "r = (x * 64 + y) * 64 + z" by (simp add: r_def)
  show d: "r div 64 = x * 64 + y" unfolding r by (rule div64 [OF assms(2)])
  show "r mod 64 = z" unfolding r by (rule mod64 [OF assms(2)])
  show "r div 64 mod 64 = y" unfolding d by (rule mod64 [OF assms(1)])
  have "r div 4096 = r div 64 div 64" by (simp flip: div_mult2_eq)
  then show "r div 4096 = x" unfolding d using div64 [OF assms(1)] by simp
qed

lemma base64_4:
  fixes x y z w :: nat
  assumes "y < 64" "z < 64" "w < 64"
  defines "r \<equiv> x * 262144 + y * 4096 + z * 64 + w"
  shows "r div 262144 = x" "r div 4096 mod 64 = y" "r div 64 mod 64 = z" "r mod 64 = w"
proof -
  have r: "r = (x * 4096 + y * 64 + z) * 64 + w" by (simp add: r_def)
  have d: "r div 64 = x * 4096 + y * 64 + z" unfolding r by (rule div64 [OF assms(3)])
  note b = base64_3 [OF assms(1,2), of x]
  show "r mod 64 = w" unfolding r by (rule mod64 [OF assms(3)])
  show "r div 64 mod 64 = z" unfolding d by (rule b(3))
  have "r div 4096 = r div 64 div 64" by (simp flip: div_mult2_eq)
  then show "r div 4096 mod 64 = y" unfolding d using b(2) by simp
  have "r div 262144 = r div 64 div 4096" by (simp flip: div_mult2_eq)
  then show "r div 262144 = x" unfolding d using b(1) by simp
qed

lemma contE:
  assumes "cont b" obtains y where "b = 0x80 + y" "y < 64"
  using assms by (auto simp: cont_def intro: that [of "b - 0x80"])

lemma second_ok_cont: "second_ok a b \<Longrightarrow> cont b"
  by (auto simp: second_ok_def cont_def split: if_splits)

lemma EncodeRune_2:
  assumes "0xC2 \<le> a" "a \<le> 0xDF" "cont b"
  shows "EncodeRune ((a - 0xC0) * 64 + (b - 0x80)) = [chr a, chr b]"
proof -
  obtain y where y: "b = 0x80 + y" "y < 64" using assms(3) by (rule contE)
  obtain x where x: "a = 0xC0 + x" "2 \<le> x" "x < 32" using assms(1,2)
    by (intro that [of "a - 0xC0"]) simp_all
  have "2 * 64 \<le> x * 64" "x * 64 \<le> 31 * 64" using x by simp_all
  then have "0x80 \<le> x * 64 + y" "x * 64 + y < 0x800" using y(2) by linarith+
  then show ?thesis
    using y x div64 [OF y(2), of x] mod64 [OF y(2), of x] by (simp add: EncodeRune_def Let_def)
qed

lemma EncodeRune_3:
  assumes "0xE0 \<le> a" "a \<le> 0xEF" "second_ok a b" "cont c"
  shows "EncodeRune ((a - 0xE0) * 4096 + (b - 0x80) * 64 + (c - 0x80)) = [chr a, chr b, chr c]"
proof -
  obtain y where y: "b = 0x80 + y" "y < 64" using second_ok_cont [OF assms(3)] by (rule contE)
  obtain z where z: "c = 0x80 + z" "z < 64" using assms(4) by (rule contE)
  obtain x where x: "a = 0xE0 + x" "x < 16" using assms(1,2)
    by (intro that [of "a - 0xE0"]) simp_all
  have lo: "x = 0 \<Longrightarrow> 32 \<le> y" and ed: "x = 13 \<Longrightarrow> y < 32"
    using assms(3) x y by (auto simp: second_ok_def)
  have 1: "0x800 \<le> x * 4096 + y * 64 + z" using lo by (cases "x = 0") auto
  have 2: "x * 4096 + y * 64 + z < 0x10000" using x y z by simp
  have 3: "\<not> (0xD800 \<le> x * 4096 + y * 64 + z \<and> x * 4096 + y * 64 + z \<le> 0xDFFF)"
  proof (cases "x = 13")
    case True
    then show ?thesis using ed y z by auto
  next
    case False
    then have "x \<le> 12 \<or> 14 \<le> x" by auto
    then show ?thesis using y z by auto
  qed
  note b = base64_3 [OF y(2) z(2), of x]
  have 4: "\<not> (x * 4096 + y * 64 + z > 0x10FFFF \<or>
      (0xD800 \<le> x * 4096 + y * 64 + z \<and> x * 4096 + y * 64 + z \<le> 0xDFFF))" using 2 3 by linarith
  have "EncodeRune (x * 4096 + y * 64 + z) = [chr a, chr b, chr c]"
    unfolding EncodeRune_def Let_def if_not_P [OF 4]
    using 1 2 b(1-3) x(1) y(1) z(1) by simp
  then show ?thesis using x(1) y(1) z(1) by simp
qed

lemma EncodeRune_4:
  assumes "0xF0 \<le> a" "a \<le> 0xF4" "second_ok a b" "cont c" "cont d"
  shows "EncodeRune ((a - 0xF0) * 262144 + (b - 0x80) * 4096 + (c - 0x80) * 64 + (d - 0x80)) =
    [chr a, chr b, chr c, chr d]"
proof -
  obtain y where y: "b = 0x80 + y" "y < 64" using second_ok_cont [OF assms(3)] by (rule contE)
  obtain z where z: "c = 0x80 + z" "z < 64" using assms(4) by (rule contE)
  obtain w where w: "d = 0x80 + w" "w < 64" using assms(5) by (rule contE)
  obtain x where x: "a = 0xF0 + x" "x < 5" using assms(1,2)
    by (intro that [of "a - 0xF0"]) simp_all
  have lo: "x = 0 \<Longrightarrow> 16 \<le> y" and hi: "x = 4 \<Longrightarrow> y < 16"
    using assms(3) x y by (auto simp: second_ok_def)
  let ?r = "x * 262144 + y * 4096 + z * 64 + w"
  have 1: "0x10000 \<le> ?r" using lo by (cases "x = 0") auto
  have 2: "?r \<le> 0x10FFFF"
  proof (cases "x = 4")
    case True
    then show ?thesis using hi z w by simp
  next
    case False
    then have "x \<le> 3" using x by simp
    then show ?thesis using y z w by simp
  qed
  note b = base64_4 [OF y(2) z(2) w(2), of x]
  show ?thesis
    using 1 2 b x(1) y(1) z(1) w(1) by (simp add: EncodeRune_def Let_def)
qed

lemma DecodeRune_elim:
  assumes "DecodeRune s = (r, w)" "s \<noteq> []" "\<not> (r = RuneError \<and> w = 1)"
  obtains
    (one) a t where "s = a # t" "ord a < 0x80" "r = ord a" "w = 1"
  | (two) a b t where "s = a # b # t" "0xC2 \<le> ord a" "ord a \<le> 0xDF" "cont (ord b)"
      "r = (ord a - 0xC0) * 64 + (ord b - 0x80)" "w = 2"
  | (three) a b c t where "s = a # b # c # t" "0xE0 \<le> ord a" "ord a \<le> 0xEF"
      "second_ok (ord a) (ord b)" "cont (ord c)"
      "r = (ord a - 0xE0) * 4096 + (ord b - 0x80) * 64 + (ord c - 0x80)" "w = 3"
  | (four) a b c d t where "s = a # b # c # d # t" "0xF0 \<le> ord a" "ord a \<le> 0xF4"
      "second_ok (ord a) (ord b)" "cont (ord c)" "cont (ord d)"
      "r = (ord a - 0xF0) * 262144 + (ord b - 0x80) * 4096 + (ord c - 0x80) * 64 + (ord d - 0x80)" "w = 4"
proof -
  obtain a t where s: "s = a # t" using assms(2) by (cases s) auto
  have err: "(RuneError, 1) \<noteq> (r, w)" using assms(3) by auto
  note D = assms(1) [unfolded s DecodeRune_def Let_def list.case]
  consider "ord a < 0x80" | "\<not> ord a < 0x80" "0xC2 \<le> ord a \<and> ord a \<le> 0xDF"
    | "0xE0 \<le> ord a \<and> ord a \<le> 0xEF" | "0xF0 \<le> ord a \<and> ord a \<le> 0xF4"
    | "\<not> ord a < 0x80" "\<not> (0xC2 \<le> ord a \<and> ord a \<le> 0xDF)" "\<not> (0xE0 \<le> ord a \<and> ord a \<le> 0xEF)"
      "\<not> (0xF0 \<le> ord a \<and> ord a \<le> 0xF4)" by blast
  then show thesis
  proof cases
    case 1
    with D show thesis by (intro one [of a t]) (simp_all add: s)
  next
    case 2
    then have "(case t of b # _ \<Rightarrow> if cont (ord b) then ((ord a - 0xC0) * 64 + (ord b - 0x80), 2)
        else (RuneError, 1) | [] \<Rightarrow> (RuneError, 1)) = (r, w)" using D by (simp only: simp_thms if_True if_False)
    with err 2 show thesis
      by (cases t) (auto simp only: s list.case if_split_eq1 prod.inject split: if_splits intro: two)
  next
    case 3
    then have "\<not> ord a < 0x80" "\<not> (0xC2 \<le> ord a \<and> ord a \<le> 0xDF)" by simp_all
    with 3 D err show thesis
      by (auto simp only: s simp_thms if_True if_False prod.inject split: if_splits list.splits intro: three)
  next
    case 4
    then have "\<not> ord a < 0x80" "\<not> (0xC2 \<le> ord a \<and> ord a \<le> 0xDF)" "\<not> (0xE0 \<le> ord a \<and> ord a \<le> 0xEF)"
      by simp_all
    with 4 D err show thesis
      by (auto simp only: s simp_thms if_True if_False prod.inject split: if_splits list.splits intro: four)
  next
    case 5
    with D err show thesis by (simp only: if_False) 
  qed
qed

text \<open>Re-encoding a decoded rune gives its bytes back, and the bytes that follow a
  complete encoding do not matter.\<close>

lemma DecodeRune_cases:
  assumes "DecodeRune s = (r, w)" "s \<noteq> []" "\<not> (r = RuneError \<and> w = 1)"
  shows "EncodeRune r = take w s \<and> DecodeRune (take w s @ t) = (r, w) \<and> (0x80 \<le> r \<longrightarrow> (\<forall>c\<in>set (take w s). 0x80 \<le> ord c))"
  using assms
proof (cases rule: DecodeRune_elim)
  case (one a t')
  then show ?thesis by (simp add: EncodeRune_def DecodeRune_def)
next
  case (two a b t')
  have "EncodeRune r = [a, b]" unfolding two(5) EncodeRune_2 [OF two(2-4)] by simp
  moreover have "DecodeRune (a # b # t) = (r, w)"
    using two by (simp add: DecodeRune_def Let_def)
  ultimately show ?thesis using two(1,2,4,6) by (simp add: numeral_2_eq_2 cont_def)
next
  case (three a b c t')
  have "EncodeRune r = [a, b, c]" unfolding three(6) EncodeRune_3 [OF three(2-5)] by simp
  moreover have "DecodeRune (a # b # c # t) = (r, w)"
    using three by (simp add: DecodeRune_def Let_def)
  ultimately show ?thesis
    using three(1,2,5,7) second_ok_cont [OF three(4)] by (simp add: numeral_3_eq_3 cont_def)
next
  case (four a b c d t')
  have "EncodeRune r = [a, b, c, d]" unfolding four(7) EncodeRune_4 [OF four(2-6)] by simp
  moreover have "DecodeRune (a # b # c # d # t) = (r, w)"
    using four by (simp add: DecodeRune_def Let_def)
  ultimately show ?thesis
    using four(1,2,5,6,8) second_ok_cont [OF four(4)] by (simp add: numeral_eq_Suc cont_def)
qed

lemma chr_bounds: "n < 256 \<Longrightarrow> ord (chr n) = n" by simp

text \<open>Decoding an encoded rune gives the rune back; values that are not Unicode scalars
  were replaced by U+FFFD.\<close>

definition scalar :: "nat \<Rightarrow> bool" where
  "scalar r = (r \<le> 0x10FFFF \<and> \<not> (0xD800 \<le> r \<and> r \<le> 0xDFFF))"

lemma EncodeRune_not_scalar: "\<not> scalar r \<Longrightarrow> EncodeRune r = EncodeRune RuneError"
  by (auto simp: EncodeRune_def scalar_def Let_def RuneError_def)

lemma cont_mod64: "cont (0x80 + n mod 64)"
proof -
  have "n mod 64 < 64" by simp
  then show ?thesis unfolding cont_def by linarith
qed

lemma DecodeRune_EncodeRune:
  assumes "scalar r"
  shows "DecodeRune (EncodeRune r @ X) = (r, length (EncodeRune r))"
proof -
  have nr: "\<not> (r > 0x10FFFF \<or> (0xD800 \<le> r \<and> r \<le> 0xDFFF))" using assms by (auto simp: scalar_def)
  have d2: "r div 64 * 64 + r mod 64 = r" by (rule div_mult_mod_eq)
  have d3: "r div 4096 * 64 + r div 64 mod 64 = r div 64"
    using div_mult_mod_eq [of "r div 64" 64] by (simp flip: div_mult2_eq)
  have d4: "r div 262144 * 64 + r div 4096 mod 64 = r div 4096"
    using div_mult_mod_eq [of "r div 4096" 64] by (simp flip: div_mult2_eq)
  have m: "r mod 64 < 64" "r div 64 mod 64 < 64" "r div 4096 mod 64 < 64" by simp_all
  consider "r < 0x80" | "0x80 \<le> r" "r < 0x800" | "0x800 \<le> r" "r < 0x10000" | "0x10000 \<le> r" by linarith
  then show ?thesis
  proof cases
    case 1
    then show ?thesis by (simp add: EncodeRune_def DecodeRune_def)
  next
    case 2
    have e: "EncodeRune r = [chr (0xC0 + r div 64), chr (0x80 + r mod 64)]"
      unfolding EncodeRune_def Let_def if_not_P [OF nr] using 2 by simp
    have b: "2 \<le> r div 64" "r div 64 < 32" using 2 by (simp_all add: less_eq_div_iff_mult_less_eq div_less_iff_less_mult)
    have o: "ord (chr (0xC0 + r div 64)) = 0xC0 + r div 64" "ord (chr (0x80 + r mod 64)) = 0x80 + r mod 64"
      by (rule chr_bounds; use b m in linarith)+
    show ?thesis unfolding e using b m d2 by (simp add: DecodeRune_def Let_def o cont_mod64)
  next
    case 3
    have e: "EncodeRune r = [chr (0xE0 + r div 4096), chr (0x80 + r div 64 mod 64), chr (0x80 + r mod 64)]"
      unfolding EncodeRune_def Let_def if_not_P [OF nr] using 3 by simp
    have b: "r div 4096 < 16" using 3 by (simp add: div_less_iff_less_mult)
    have o: "ord (chr (0xE0 + r div 4096)) = 0xE0 + r div 4096"
      "ord (chr (0x80 + r div 64 mod 64)) = 0x80 + r div 64 mod 64" "ord (chr (0x80 + r mod 64)) = 0x80 + r mod 64"
      by (rule chr_bounds; use b m in linarith)+
    have r: "r = r div 4096 * 4096 + r div 64 mod 64 * 64 + r mod 64" using d2 d3 by linarith
    have "second_ok (0xE0 + r div 4096) (0x80 + r div 64 mod 64)"
    proof -
      have "r div 4096 = 0 \<Longrightarrow> 32 \<le> r div 64 mod 64" using r 3(1) m by linarith
      moreover have "r div 4096 = 13 \<Longrightarrow> r div 64 mod 64 < 32" using r nr m by linarith
      ultimately show ?thesis using m b by (auto simp: second_ok_def cont_def)
    qed
    then show ?thesis unfolding e using b m r by (simp add: DecodeRune_def Let_def o cont_mod64)
  next
    case 4
    have e: "EncodeRune r = [chr (0xF0 + r div 262144), chr (0x80 + r div 4096 mod 64),
        chr (0x80 + r div 64 mod 64), chr (0x80 + r mod 64)]"
      unfolding EncodeRune_def Let_def if_not_P [OF nr] using 4 by simp
    have "r < 5 * 262144" using nr by simp
    then have "r div 262144 < 5" by (simp add: div_less_iff_less_mult)
    then have b: "r div 262144 \<le> 4" by simp
    have o: "ord (chr (0xF0 + r div 262144)) = 0xF0 + r div 262144"
      "ord (chr (0x80 + r div 4096 mod 64)) = 0x80 + r div 4096 mod 64"
      "ord (chr (0x80 + r div 64 mod 64)) = 0x80 + r div 64 mod 64" "ord (chr (0x80 + r mod 64)) = 0x80 + r mod 64"
      by (rule chr_bounds; use b m in linarith)+
    have r: "r = r div 262144 * 262144 + r div 4096 mod 64 * 4096 + r div 64 mod 64 * 64 + r mod 64"
      using d2 d3 d4 by linarith
    have "second_ok (0xF0 + r div 262144) (0x80 + r div 4096 mod 64)"
    proof -
      have "r div 262144 = 0 \<Longrightarrow> 16 \<le> r div 4096 mod 64" using r 4 m by linarith
      moreover have "r div 262144 = 4 \<Longrightarrow> r div 4096 mod 64 < 16" using r nr m by linarith
      ultimately show ?thesis using m b by (auto simp: second_ok_def cont_def)
    qed
    then show ?thesis unfolding e using b m r by (simp add: DecodeRune_def Let_def o cont_mod64)
  qed
qed

lemma EncodeRune_nonempty [simp]: "EncodeRune r \<noteq> []"
  by (simp add: EncodeRune_def Let_def)

lemma scalar_RuneError: "scalar RuneError"
  by (simp add: scalar_def RuneError_def)

lemma ValidString_Cons:
  assumes "s \<noteq> []"
  shows "ValidString s \<longleftrightarrow> \<not> (fst (DecodeRune s) = RuneError \<and> rune_width s = 1) \<and>
    ValidString (drop (rune_width s) s)"
  using rune_width_bounds [OF assms] by (auto simp: ValidString_def segs_Cons [OF assms])

lemma ValidString_Nil [simp]: "ValidString []"
  by (simp add: ValidString_def)

lemma ValidString_EncodeRune [simp]: "ValidString (EncodeRune r @ X) \<longleftrightarrow> ValidString X"
proof -
  have *: "ValidString (EncodeRune r @ X) \<longleftrightarrow> ValidString X" if "scalar r" for r
  proof -
    have D: "DecodeRune (EncodeRune r @ X) = (r, length (EncodeRune r))"
      by (rule DecodeRune_EncodeRune [OF that])
    have "r = RuneError \<Longrightarrow> length (EncodeRune r) \<noteq> 1"
      by (simp add: EncodeRune_def RuneError_def)
    then show ?thesis
      by (subst ValidString_Cons) (auto simp: rune_width_def D)
  qed
  show ?thesis
  proof (cases "scalar r")
    case False
    then show ?thesis using * [OF scalar_RuneError] by (simp add: EncodeRune_not_scalar)
  qed (rule *)
qed

section \<open>ASCII\<close>

lemma DecodeRune_ascii: "ord c < 0x80 \<Longrightarrow> DecodeRune (c # s) = (ord c, 1)"
  by (simp add: DecodeRune_def)

lemma segs_ascii: "ord c < 0x80 \<Longrightarrow> segs (c # s) = (ord c, [c]) # segs s"
  by (simp add: segs_Cons rune_width_def DecodeRune_ascii)

definition ascii :: "string \<Rightarrow> bool" where "ascii s = (\<forall>c\<in>set s. ord c < 0x80)"

lemma ascii_simps [simp]: "ascii []" "ascii (c # s) \<longleftrightarrow> ord c < 0x80 \<and> ascii s"
  "ascii (s @ t) \<longleftrightarrow> ascii s \<and> ascii t"
  by (auto simp: ascii_def)

lemma segs_ascii_string: "ascii s \<Longrightarrow> segs s = map (\<lambda>c. (ord c, [c])) s"
  by (induction s) (simp_all add: segs_ascii)

lemma runes_ascii: "ascii s \<Longrightarrow> runes s = map ord s"
  by (simp add: runes_def segs_ascii_string)

lemma ValidString_ascii: "ascii s \<Longrightarrow> ValidString s"
  by (auto simp: ValidString_def segs_ascii_string ascii_def RuneError_def)

lemma runes_length_le: "length (runes s) \<le> length s"
proof (induction s rule: segs.induct)
  case (1 s)
  show ?case
  proof (cases "s = []")
    case False
    then have "length (runes (drop (rune_width s) s)) \<le> length s - rune_width s"
      using 1 by simp
    moreover have "length (runes s) = Suc (length (runes (drop (rune_width s) s)))"
      using False by (simp add: runes_def segs_Cons)
    ultimately show ?thesis using rune_width_bounds [OF False] by linarith
  qed (simp add: runes_def)
qed

section \<open>The package strings\<close>

definition HasPrefix :: "string \<Rightarrow> string \<Rightarrow> bool" where
  "HasPrefix s p = (take (length p) s = p)"

definition HasSuffix :: "string \<Rightarrow> string \<Rightarrow> bool" where
  "HasSuffix s p = (length p \<le> length s \<and> drop (length s - length p) s = p)"

definition TrimPrefix :: "string \<Rightarrow> string \<Rightarrow> string" where
  "TrimPrefix s p = (if HasPrefix s p then drop (length p) s else s)"

definition TrimSuffix :: "string \<Rightarrow> string \<Rightarrow> string" where
  "TrimSuffix s p = (if HasSuffix s p then take (length s - length p) s else s)"

lemma HasPrefix_append [simp]: "HasPrefix (p @ s) p"
  by (simp add: HasPrefix_def)

lemma HasPrefix_iff: "HasPrefix s p \<longleftrightarrow> (\<exists>t. s = p @ t)"
  by (metis HasPrefix_append HasPrefix_def append_take_drop_id)

lemma HasSuffix_iff: "HasSuffix s p \<longleftrightarrow> (\<exists>t. s = t @ p)"
proof
  assume "HasSuffix s p"
  then show "\<exists>t. s = t @ p"
    by (metis HasSuffix_def append_take_drop_id)
qed (auto simp: HasSuffix_def)

lemma TrimPrefix_append [simp]: "TrimPrefix (p @ s) p = s"
  by (simp add: TrimPrefix_def)

text \<open>strings.Index: the first occurrence.\<close>

fun Index :: "string \<Rightarrow> string \<Rightarrow> nat option" where
  "Index [] sub = (if sub = [] then Some 0 else None)"
| "Index (c # s) sub =
     (if HasPrefix (c # s) sub then Some 0 else map_option Suc (Index s sub))"

definition Contains :: "string \<Rightarrow> string \<Rightarrow> bool" where
  "Contains s sub = (Index s sub \<noteq> None)"

lemma Index_Some:
  "Index s sub = Some i \<Longrightarrow> i + length sub \<le> length s \<and> s = take i s @ sub @ drop (i + length sub) s"
proof (induction s arbitrary: i)
  case (Cons c s)
  show ?case
  proof (cases "HasPrefix (c # s) sub")
    case True
    then obtain t where t: "c # s = sub @ t" by (auto simp: HasPrefix_iff)
    then have "length (c # s) = length sub + length t" by simp
    moreover from True Cons.prems have "i = 0" by simp
    ultimately show ?thesis using t by simp
  next
    case False
    with Cons.prems obtain j where "Index s sub = Some j" "i = Suc j" by auto
    with Cons.IH [of j] show ?thesis by simp
  qed
qed (simp split: if_splits)

lemma Contains_iff: "Contains s sub \<longleftrightarrow> (\<exists>a b. s = a @ sub @ b)"
proof
  assume "Contains s sub"
  then obtain i where "Index s sub = Some i" by (auto simp: Contains_def)
  from Index_Some [OF this] show "\<exists>a b. s = a @ sub @ b" by blast
next
  assume "\<exists>a b. s = a @ sub @ b"
  then obtain a b where s: "s = a @ sub @ b" by blast
  show "Contains s sub" unfolding s
  proof (induction a)
    case Nil
    have "HasPrefix (sub @ b) sub" by simp
    then show ?case
      by (cases "sub @ b") (auto simp: Contains_def simp del: HasPrefix_append)
  qed (auto simp: Contains_def)
qed

text \<open>strings.Cut around the first separator.\<close>

definition Cut :: "string \<Rightarrow> string \<Rightarrow> string \<times> string \<times> bool" where
  "Cut s sep = (case Index s sep of
      Some i \<Rightarrow> (take i s, drop (i + length sep) s, True)
    | None \<Rightarrow> (s, [], False))"

text \<open>strings.SplitN with a non-empty separator, n \<ge> 1 giving at most n pieces;
  strings.Split is the bound that is never reached.\<close>

fun SplitN :: "string \<Rightarrow> string \<Rightarrow> nat \<Rightarrow> string list" where
  "SplitN s sep 0 = []"
| "SplitN s sep (Suc 0) = [s]"
| "SplitN s sep (Suc (Suc n)) = (case Index s sep of
      Some i \<Rightarrow> take i s # SplitN (drop (i + length sep) s) sep (Suc n)
    | None \<Rightarrow> [s])"

definition Split :: "string \<Rightarrow> string \<Rightarrow> string list" where
  "Split s sep = SplitN s sep (Suc (length s) + 1)"

fun Join :: "string list \<Rightarrow> string \<Rightarrow> string" where
  "Join [] sep = []"
| "Join [s] sep = s"
| "Join (s # t # r) sep = s @ sep @ Join (t # r) sep"

lemma SplitN_nonempty [simp]: "SplitN s sep (Suc n) \<noteq> []"
  by (cases n) (simp_all split: option.splits)

lemma Join_Cons: "r \<noteq> [] \<Longrightarrow> Join (s # r) sep = s @ sep @ Join r sep"
  by (cases r) simp_all

lemma Join_SplitN: "Join (SplitN s sep (Suc n)) sep = s"
proof (induction n arbitrary: s)
  case (Suc n)
  show ?case
  proof (cases "Index s sep")
    case (Some i)
    then show ?thesis
      using Index_Some [OF Some] Suc by (simp add: Join_Cons)
  qed simp
qed simp

lemma Join_Split: "Join (Split s sep) sep = s"
  unfolding Split_def using Join_SplitN [of s sep "Suc (length s)"] by simp

text \<open>strings.ReplaceAll with a non-empty pattern.\<close>

definition ReplaceAll :: "string \<Rightarrow> string \<Rightarrow> string \<Rightarrow> string" where
  "ReplaceAll s old new = Join (Split s old) new"

text \<open>strings.Trim, TrimLeft and TrimRight for a cutset of ASCII characters.\<close>

definition TrimLeft :: "string \<Rightarrow> string \<Rightarrow> string" where
  "TrimLeft s cutset = dropWhile (\<lambda>c. c \<in> set cutset) s"

definition TrimRight :: "string \<Rightarrow> string \<Rightarrow> string" where
  "TrimRight s cutset = rev (dropWhile (\<lambda>c. c \<in> set cutset) (rev s))"

definition Trim :: "string \<Rightarrow> string \<Rightarrow> string" where
  "Trim s cutset = TrimRight (TrimLeft s cutset) cutset"

section \<open>White space\<close>

text \<open>unicode.IsSpace.\<close>

definition IsSpace :: "nat \<Rightarrow> bool" where
  "IsSpace r = ((9 \<le> r \<and> r \<le> 13) \<or> r = 32 \<or> r = 0x85 \<or> r = 0xA0 \<or> r = 0x1680 \<or>
     (0x2000 \<le> r \<and> r \<le> 0x200A) \<or> r = 0x2028 \<or> r = 0x2029 \<or> r = 0x202F \<or> r = 0x205F \<or> r = 0x3000)"

definition TrimSpace :: "string \<Rightarrow> string" where
  "TrimSpace s = concat (map snd (rev (dropWhile (IsSpace \<circ> fst) (rev
      (dropWhile (IsSpace \<circ> fst) (segs s))))))"

text \<open>strings.FieldsFunc on decoded runes: maximal runs of runes that do not satisfy f.\<close>

fun fields_segs :: "(nat \<Rightarrow> bool) \<Rightarrow> string \<Rightarrow> (nat \<times> string) list \<Rightarrow> string list" where
  "fields_segs f acc [] = (if acc = [] then [] else [acc])"
| "fields_segs f acc ((r, b) # ss) =
     (if f r then (if acc = [] then [] else [acc]) @ fields_segs f [] ss
      else fields_segs f (acc @ b) ss)"

definition FieldsFunc :: "(nat \<Rightarrow> bool) \<Rightarrow> string \<Rightarrow> string list" where
  "FieldsFunc f s = fields_segs f [] (segs s)"

definition Fields :: "string \<Rightarrow> string list" where
  "Fields s = FieldsFunc IsSpace s"

lemma TrimSpace_Nil [simp]: "TrimSpace [] = []"
  by (simp add: TrimSpace_def)

lemma TrimSpace_infix: "\<exists>a b. s = a @ TrimSpace s @ b"
proof -
  let ?d = "dropWhile (IsSpace \<circ> fst) (segs s)"
  let ?e = "dropWhile (IsSpace \<circ> fst) (rev ?d)"
  have 1: "segs s = takeWhile (IsSpace \<circ> fst) (segs s) @ ?d" by simp
  have "rev ?d = takeWhile (IsSpace \<circ> fst) (rev ?d) @ ?e" by simp
  then have 2: "?d = rev ?e @ rev (takeWhile (IsSpace \<circ> fst) (rev ?d))"
    by (metis rev_append rev_rev_ident)
  have "s = concat (map snd (segs s))" by simp
  also have "\<dots> = concat (map snd (takeWhile (IsSpace \<circ> fst) (segs s))) @
      TrimSpace s @ concat (map snd (rev (takeWhile (IsSpace \<circ> fst) (rev ?d))))"
    unfolding TrimSpace_def by (metis 1 2 concat_append map_append)
  finally show ?thesis by blast
qed

lemma TrimSpace_length: "length (TrimSpace s) \<le> length s"
proof -
  obtain a b where "s = a @ TrimSpace s @ b" using TrimSpace_infix by blast
  then have "length s = length a + length (TrimSpace s) + length b"
    by (metis add.assoc length_append)
  then show ?thesis by simp
qed

section \<open>Case folding\<close>

definition lower_ascii :: "nat \<Rightarrow> nat" where
  "lower_ascii r = (if 65 \<le> r \<and> r \<le> 90 then r + 32 else r)"

definition upper_ascii :: "nat \<Rightarrow> nat" where
  "upper_ascii r = (if 97 \<le> r \<and> r \<le> 122 then r - 32 else r)"

text \<open>strings.ToLower; lower is unicode.ToLower on the runes above ASCII.\<close>

definition ToLower :: "(nat \<Rightarrow> nat) \<Rightarrow> string \<Rightarrow> string" where
  "ToLower lower s = of_runes (map (\<lambda>r. if r < 0x80 then lower_ascii r else lower r) (runes s))"

section \<open>Numbers\<close>

text \<open>strconv.Itoa and FormatInt in base ten.\<close>

function digits :: "nat \<Rightarrow> string" where
  "digits n = (if n < 10 then [chr (48 + n)] else digits (n div 10) @ [chr (48 + n mod 10)])"
  by auto
termination
  by (relation "measure id") auto

declare digits.simps [simp del]

definition Itoa :: "int \<Rightarrow> string" where
  "Itoa i = (if i < 0 then CHR 0x2D # digits (nat (- i)) else digits (nat i))"

text \<open>The value of a string of decimal digits, None when it is empty or has
  another character.\<close>

definition is_digit :: "char \<Rightarrow> bool" where "is_digit c = (48 \<le> ord c \<and> ord c \<le> 57)"

definition dec_value :: "string \<Rightarrow> nat" where
  "dec_value s = foldl (\<lambda>n c. 10 * n + (ord c - 48)) 0 s"

definition Atou :: "string \<Rightarrow> nat option" where
  "Atou s = (if s \<noteq> [] \<and> list_all is_digit s then Some (dec_value s) else None)"

lemma dec_value_digits [simp]: "dec_value (digits n) = n"
proof (induction n rule: digits.induct)
  case (1 n)
  then show ?case
    by (cases "n < 10") (simp_all add: digits.simps [of n] dec_value_def)
qed

lemma digits_are_digits: "list_all is_digit (digits n)"
proof (induction n rule: digits.induct)
  case (1 n)
  show ?case using 1
    by (cases "n < 10") (simp_all add: digits.simps [of n] is_digit_def)
qed

lemma digits_nonempty [simp]: "digits n \<noteq> []"
  by (simp add: digits.simps [of n])

lemma Atou_digits [simp]: "Atou (digits n) = Some n"
  by (simp add: Atou_def digits_are_digits)

lemma digits_inj: "digits m = digits n \<Longrightarrow> m = n"
  by (metis dec_value_digits)

end
