(* ===== verification/GoJson.thy ===== *)
theory GoJson
  imports GoStrings
begin

text \<open>
  encoding/json as the code uses it: a document tree, the text that json.Marshal
  writes (compact, HTML-safe escapes), the text json.Unmarshal accepts, and the
  rules by which a tree is decoded into struct fields (case-insensitive names,
  null leaves a field alone, a value of the wrong type is an error). The nesting limit
  of ten thousand levels is not modelled. A json.RawMessage is its tree.
\<close>

datatype json =
    JNull
  | JBool bool
  | JNum string
  | JStr string
  | JArr "json list"
  | JObj "(string \<times> json) list"

section \<open>Printing\<close>

abbreviation quote :: char where "quote \<equiv> CHR 0x22"
abbreviation backslash :: char where "backslash \<equiv> CHR 0x5C"

definition hex_digit :: "nat \<Rightarrow> char" where
  "hex_digit n = (if n < 10 then chr (48 + n) else chr (87 + n))"

definition u_escape :: "nat \<Rightarrow> string" where
  "u_escape r = [backslash, CHR ''u'', hex_digit (r div 4096 mod 16), hex_digit (r div 256 mod 16),
     hex_digit (r div 16 mod 16), hex_digit (r mod 16)]"

definition esc_seg :: "nat \<times> string \<Rightarrow> string" where
  "esc_seg = (\<lambda>(r, b).
     if r < 0x80 then
       (if r = 0x22 then [backslash, quote]
        else if r = 0x5C then [backslash, backslash]
        else if r = 8 then [backslash, CHR ''b'']
        else if r = 12 then [backslash, CHR ''f'']
        else if r = 10 then [backslash, CHR ''n'']
        else if r = 13 then [backslash, CHR ''r'']
        else if r = 9 then [backslash, CHR ''t'']
        else if r < 0x20 \<or> r = 0x3C \<or> r = 0x3E \<or> r = 0x26 then u_escape r
        else b)
     else if r = RuneError \<and> length b = 1 then u_escape RuneError
     else if r = 0x2028 \<or> r = 0x2029 then u_escape r
     else b)"

definition json_string :: "string \<Rightarrow> string" where
  "json_string s = quote # concat (map esc_seg (segs s)) @ [quote]"

fun commas :: "string list \<Rightarrow> string" where
  "commas [] = []"
| "commas [s] = s"
| "commas (s # r) = s @ CHR '','' # commas r"

fun Marshal :: "json \<Rightarrow> string" where
  "Marshal JNull = ''null''"
| "Marshal (JBool b) = (if b then ''true'' else ''false'')"
| "Marshal (JNum n) = n"
| "Marshal (JStr s) = json_string s"
| "Marshal (JArr vs) = CHR ''['' # commas (map Marshal vs) @ '']''"
| "Marshal (JObj kvs) =
     CHR 0x7B # commas (map (\<lambda>(k, v). json_string k @ CHR '':'' # Marshal v) kvs) @ [CHR 0x7D]"

section \<open>Parsing\<close>

definition json_ws :: "char \<Rightarrow> bool" where
  "json_ws c = (c = CHR '' '' \<or> c = CHR 0x09 \<or> c = CHR 0x0A \<or> c = CHR 0x0D)"

definition skip_ws :: "string \<Rightarrow> string" where "skip_ws s = dropWhile json_ws s"

definition hex_val :: "char \<Rightarrow> nat option" where
  "hex_val c = (let n = ord c in
     if 48 \<le> n \<and> n \<le> 57 then Some (n - 48)
     else if 97 \<le> n \<and> n \<le> 102 then Some (n - 87)
     else if 65 \<le> n \<and> n \<le> 70 then Some (n - 55) else None)"

text \<open>Four hexadecimal digits after a backslash and the letter u.\<close>

definition getu4 :: "string \<Rightarrow> nat option" where
  "getu4 s = (case s of
      b # u # a # c # d # e # _ \<Rightarrow>
        if b = backslash \<and> u = CHR ''u'' then
          (case (hex_val a, hex_val c, hex_val d, hex_val e) of
             (Some w, Some x, Some y, Some z) \<Rightarrow> Some (((w * 16 + x) * 16 + y) * 16 + z)
           | _ \<Rightarrow> None)
        else None
    | _ \<Rightarrow> None)"

definition high_surrogate :: "nat \<Rightarrow> bool" where "high_surrogate r = (0xD800 \<le> r \<and> r < 0xDC00)"
definition low_surrogate :: "nat \<Rightarrow> bool" where "low_surrogate r = (0xDC00 \<le> r \<and> r < 0xE000)"

definition simple_escape :: "char \<Rightarrow> char option" where
  "simple_escape c =
     (if c = quote \<or> c = backslash \<or> c = CHR ''/'' then Some c
      else if c = CHR ''b'' then Some (chr 8)
      else if c = CHR ''f'' then Some (chr 12)
      else if c = CHR ''n'' then Some (chr 10)
      else if c = CHR ''r'' then Some (chr 13)
      else if c = CHR ''t'' then Some (chr 9) else None)"

definition cons_out :: "string \<Rightarrow> (string \<times> string) option \<Rightarrow> (string \<times> string) option" where
  "cons_out b r = map_option (\<lambda>(t, rest). (b @ t, rest)) r"

text \<open>The rest of a string after its opening quote: the decoded bytes and the text behind
  the closing quote.\<close>

function pstr :: "string \<Rightarrow> (string \<times> string) option" where
  "pstr s = (case s of [] \<Rightarrow> None | c # r \<Rightarrow>
     if c = quote then Some ([], r)
     else if ord c < 0x20 then None
     else if c = backslash then
       (case getu4 s of
          Some u \<Rightarrow>
            if high_surrogate u then
              (case getu4 (drop 6 s) of
                 Some v \<Rightarrow>
                   if low_surrogate v
                   then cons_out (EncodeRune (0x10000 + (u - 0xD800) * 0x400 + (v - 0xDC00))) (pstr (drop 12 s))
                   else cons_out (EncodeRune RuneError) (pstr (drop 6 s))
               | None \<Rightarrow> cons_out (EncodeRune RuneError) (pstr (drop 6 s)))
            else cons_out (EncodeRune u) (pstr (drop 6 s))
        | None \<Rightarrow>
            (case r of [] \<Rightarrow> None
             | d # r2 \<Rightarrow> (case simple_escape d of Some e \<Rightarrow> cons_out [e] (pstr r2) | None \<Rightarrow> None)))
     else cons_out (EncodeRune (fst (DecodeRune s))) (pstr (drop (rune_width s) s)))"
  by auto
termination
proof (relation "measure length", goal_cases)
  case (7 s c r)
  then show ?case using rune_width_bounds [of s] by (cases s) simp_all
qed auto

declare pstr.simps [simp del]

text \<open>A number literal: the longest prefix of the form
  -? (0 | [1-9][0-9]*) ([.][0-9]+)? ([eE][+-]?[0-9]+)?\<close>

definition take_digits :: "string \<Rightarrow> string \<times> string" where
  "take_digits s = (takeWhile is_digit s, dropWhile is_digit s)"

definition pfrac :: "string \<Rightarrow> (string \<times> string) option" where
  "pfrac s = (case s of
      [] \<Rightarrow> Some ([], s)
    | c # r \<Rightarrow> if c = CHR ''.'' then
        (let (d, r2) = take_digits r in if d = [] then None else Some (c # d, r2))
      else Some ([], s))"

definition pexp :: "string \<Rightarrow> (string \<times> string) option" where
  "pexp s = (case s of
      [] \<Rightarrow> Some ([], s)
    | c # r \<Rightarrow> if c = CHR ''e'' \<or> c = CHR ''E'' then
        (let sg = (case r of g # _ \<Rightarrow> if g = CHR ''+'' \<or> g = CHR 0x2D then [g] else [] | [] \<Rightarrow> []);
             (d, r2) = take_digits (drop (length sg) r)
         in if d = [] then None else Some (c # sg @ d, r2))
      else Some ([], s))"

definition pint :: "string \<Rightarrow> (string \<times> string) option" where
  "pint s = (case s of
      [] \<Rightarrow> None
    | c # r \<Rightarrow> if c = CHR ''0'' then Some ([c], r)
               else if is_digit c then Some (take_digits s) else None)"

definition pnum :: "string \<Rightarrow> (string \<times> string) option" where
  "pnum s =
     (let sg = (case s of c # _ \<Rightarrow> if c = CHR 0x2D then [c] else [] | [] \<Rightarrow> []) in
      Option.bind (pint (drop (length sg) s)) (\<lambda>(i, r1).
      Option.bind (pfrac r1) (\<lambda>(f, r2).
      Option.bind (pexp r2) (\<lambda>(e, r3). Some (sg @ i @ f @ e, r3)))))"

text \<open>Values. The first argument bounds the depth of the recursion; a text of n
  characters never needs more than 2 * n + 2.\<close>

fun pval :: "nat \<Rightarrow> string \<Rightarrow> (json \<times> string) option"
and pelems :: "nat \<Rightarrow> string \<Rightarrow> (json list \<times> string) option"
and pmembers :: "nat \<Rightarrow> string \<Rightarrow> ((string \<times> json) list \<times> string) option" where
  "pval 0 s = None"
| "pval (Suc n) s0 = (case skip_ws s0 of
      [] \<Rightarrow> None
    | c # r \<Rightarrow>
        if c = quote then map_option (\<lambda>(t, q). (JStr t, q)) (pstr r)
        else if c = CHR ''['' then
          (case skip_ws r of
             d # q \<Rightarrow> if d = CHR '']'' then Some (JArr [], q)
                       else map_option (\<lambda>(vs, q). (JArr vs, q)) (pelems n r)
           | [] \<Rightarrow> None)
        else if c = CHR 0x7B then
          (case skip_ws r of
             d # q \<Rightarrow> if d = CHR 0x7D then Some (JObj [], q)
                       else map_option (\<lambda>(kvs, q). (JObj kvs, q)) (pmembers n r)
           | [] \<Rightarrow> None)
        else if HasPrefix (c # r) ''null'' then Some (JNull, drop 3 r)
        else if HasPrefix (c # r) ''true'' then Some (JBool True, drop 3 r)
        else if HasPrefix (c # r) ''false'' then Some (JBool False, drop 4 r)
        else map_option (\<lambda>(l, q). (JNum l, q)) (pnum (c # r)))"
| "pelems 0 s = None"
| "pelems (Suc n) s = (case pval n s of
      None \<Rightarrow> None
    | Some (v, r) \<Rightarrow> (case skip_ws r of
        d # q \<Rightarrow> if d = CHR '']'' then Some ([v], q)
                  else if d = CHR '','' then map_option (\<lambda>(vs, q). (v # vs, q)) (pelems n q)
                  else None
      | [] \<Rightarrow> None))"
| "pmembers 0 s = None"
| "pmembers (Suc n) s = (case skip_ws s of
      [] \<Rightarrow> None
    | c # r \<Rightarrow> if c \<noteq> quote then None else (case pstr r of
        None \<Rightarrow> None
      | Some (k, r1) \<Rightarrow> (case skip_ws r1 of
          [] \<Rightarrow> None
        | c1 # r2 \<Rightarrow> if c1 \<noteq> CHR '':'' then None else (case pval n r2 of
            None \<Rightarrow> None
          | Some (v, r3) \<Rightarrow> (case skip_ws r3 of
              d # q \<Rightarrow> if d = CHR 0x7D then Some ([(k, v)], q)
                        else if d = CHR '','' then map_option (\<lambda>(m, q). ((k, v) # m, q)) (pmembers n q)
                        else None
            | [] \<Rightarrow> None)))))"

definition json_parse :: "string \<Rightarrow> json option" where
  "json_parse s = (case pval (2 * length s + 2) s of
      Some (v, r) \<Rightarrow> if skip_ws r = [] then Some v else None
    | None \<Rightarrow> None)"

section \<open>Round trip of strings\<close>

lemma hex_val_digit: "n < 16 \<Longrightarrow> hex_val (hex_digit n) = Some n"
  by (simp add: hex_val_def hex_digit_def)

lemma hex_recombine:
  fixes r :: nat
  assumes "r < 65536"
  shows "((r div 4096 mod 16 * 16 + r div 256 mod 16) * 16 + r div 16 mod 16) * 16 + r mod 16 = r"
proof -
  have 1: "r div 4096 mod 16 = r div 4096" using assms by simp
  have 2: "r div 4096 * 16 + r div 256 mod 16 = r div 256"
    using div_mult_mod_eq [of "r div 256" 16] by (simp flip: div_mult2_eq)
  have 3: "r div 256 * 16 + r div 16 mod 16 = r div 16"
    using div_mult_mod_eq [of "r div 16" 16] by (simp flip: div_mult2_eq)
  show ?thesis unfolding 1 2 3 by (rule div_mult_mod_eq)
qed

lemma getu4_u_escape:
  "r < 65536 \<Longrightarrow> getu4 (u_escape r @ X) = Some r"
  using hex_recombine [of r] by (simp add: getu4_def u_escape_def hex_val_digit)

lemma length_u_escape [simp]: "length (u_escape r) = 6"
  by (simp add: u_escape_def)

lemma ord_backslash [simp]: "ord backslash = 92" by (simp add: ord_def)
lemma ord_quote [simp]: "ord quote = 34" by (simp add: ord_def)

lemma pstr_u_escape:
  assumes "r < 65536" "\<not> high_surrogate r"
  shows "pstr (u_escape r @ X) = cons_out (EncodeRune r) (pstr X)"
proof -
  have g: "getu4 (u_escape r @ X) = Some r" by (rule getu4_u_escape [OF assms(1)])
  have d: "drop 6 (u_escape r @ X) = X" by simp
  obtain t where t: "u_escape r @ X = backslash # t" by (simp add: u_escape_def)
  show ?thesis
    using g d assms(2) unfolding t by (simp add: pstr.simps [of "backslash # t"])
qed

lemma getu4_simple: "d \<noteq> CHR ''u'' \<Longrightarrow> getu4 (backslash # d # X) = None"
  by (simp add: getu4_def split: list.splits)

lemma pstr_simple_escape:
  assumes "simple_escape d = Some e"
  shows "pstr (backslash # d # X) = cons_out [e] (pstr X)"
proof -
  have "d \<noteq> CHR ''u''" using assms by (auto simp: simple_escape_def split: if_splits)
  then show ?thesis
    using assms by (simp add: pstr.simps [of "backslash # d # X"] getu4_simple)
qed

lemma pstr_raw:
  assumes "DecodeRune (c # t) = (r, w)" "EncodeRune r = b" "w = length b" "c # t = b @ X"
    and "c \<noteq> quote" "c \<noteq> backslash" "\<not> ord c < 0x20"
  shows "pstr (b @ X) = cons_out b (pstr X)"
proof -
  have "drop (rune_width (c # t)) (c # t) = X"
    using assms(1,3) by (simp add: rune_width_def assms(4) del: drop_Cons')
  then have "pstr (c # t) = cons_out b (pstr X)"
    using assms(1,2,5-7) by (simp add: pstr.simps [of "c # t"])
  then show ?thesis by (simp only: assms(4))
qed

lemma pstr_step:
  assumes "s \<noteq> []" "DecodeRune s = (r, w)" "\<not> (r = RuneError \<and> w = 1)"
  shows "pstr (esc_seg (r, take w s) @ X) = cons_out (take w s) (pstr X)"
proof -
  note D = DecodeRune_cases [OF assms(2,1,3), of X]
  let ?b = "take w s"
  have w: "1 \<le> w" "w \<le> length s"
    using rune_width_bounds [OF assms(1)] assms(2) by (simp_all add: rune_width_def)
  then have lb: "length ?b = w" by simp
  obtain c t where ct: "?b @ X = c # t" "c \<in> set ?b"
    using lb w(1) by (cases ?b) auto
  have u: "pstr (u_escape r @ X) = cons_out ?b (pstr X)" if "r < 65536" "\<not> high_surrogate r"
    using pstr_u_escape [OF that] D by simp
  have raw: "pstr (?b @ X) = cons_out ?b (pstr X)" if "c \<noteq> quote" "c \<noteq> backslash" "\<not> ord c < 0x20"
    by (rule pstr_raw [of c t r w]) (use D lb ct that in auto)
  show ?thesis
  proof (cases "r < 0x80")
    case True
    then have b: "?b = [chr r]" using D by (auto simp: EncodeRune_def)
    with ct True have c: "c = chr r" "ord c = r" by auto
    have cq: "c = quote \<longleftrightarrow> r = 34" "c = backslash \<longleftrightarrow> r = 92"
      using c(2) by (metis ord_eq_iff ord_quote, metis ord_eq_iff ord_backslash)
    have se: "simple_escape d = Some e \<Longrightarrow> ord e = r \<Longrightarrow>
        pstr ([backslash, d] @ X) = cons_out ?b (pstr X)" for d e
      using b by (metis append_Cons append_Nil chr_ord pstr_simple_escape)
    have hs: "\<not> high_surrogate r" using True by (simp add: high_surrogate_def)
    show ?thesis
      using True se [of quote quote] se [of backslash backslash]
        se [of "CHR ''b''" "chr 8"] se [of "CHR ''f''" "chr 12"] se [of "CHR ''n''" "chr 10"]
        se [of "CHR ''r''" "chr 13"] se [of "CHR ''t''" "chr 9"] u [OF _ hs] raw cq c(2)
      by (auto simp: esc_seg_def simple_escape_def)
  next
    case False
    then have ge: "0x80 \<le> ord c" using D ct(2) by auto
    then have "c \<noteq> quote" "c \<noteq> backslash" by auto
    moreover have "\<not> (r = RuneError \<and> length ?b = 1)" using assms(3) lb by simp
    moreover have "\<not> ord c < 0x20" using ge by simp
    ultimately show ?thesis using False raw u
      by (auto simp: esc_seg_def high_surrogate_def)
  qed
qed

lemma pstr_escaped:
  "ValidString s \<Longrightarrow> pstr (concat (map esc_seg (segs s)) @ quote # rest) = Some (s, rest)"
proof (induction s rule: segs.induct)
  case (1 s)
  show ?case
  proof (cases "s = []")
    case True
    then show ?thesis by (simp add: pstr.simps [of "quote # rest"])
  next
    case False
    let ?r = "fst (DecodeRune s)" and ?w = "rune_width s"
    have v: "\<not> (?r = RuneError \<and> ?w = 1)" "ValidString (drop ?w s)"
      using 1(2) ValidString_Cons [OF False] by auto
    have D: "DecodeRune s = (?r, ?w)" by (simp add: rune_width_def)
    show ?thesis
      using pstr_step [OF False D v(1)] 1(1) [OF False v(2)]
      by (simp add: segs_Cons [OF False] cons_out_def)
  qed
qed

lemma pstr_json_string: "ValidString s \<Longrightarrow>
    json_string s @ rest = quote # q \<Longrightarrow> pstr q = Some (s, rest)"
  using pstr_escaped [of s rest] by (auto simp: json_string_def)

section \<open>Round trip of documents\<close>

text \<open>What may follow a value inside a document.\<close>

definition delim :: "string \<Rightarrow> bool" where
  "delim r = (case r of [] \<Rightarrow> True | c # _ \<Rightarrow> c = CHR '','' \<or> c = CHR '']'' \<or> c = CHR 0x7D)"

lemma delim_simps [simp]: "delim []" "delim (CHR '','' # r)" "delim (CHR '']'' # r)" "delim (CHR 0x7D # r)"
  by (simp_all add: delim_def)

definition num_ok :: "string \<Rightarrow> bool" where "num_ok l = (pnum l = Some (l, []))"

fun json_ok :: "json \<Rightarrow> bool" where
  "json_ok (JNum l) = num_ok l"
| "json_ok (JStr s) = ValidString s"
| "json_ok (JArr vs) = list_all json_ok vs"
| "json_ok (JObj kvs) = list_all (\<lambda>(k, v). ValidString k \<and> json_ok v) kvs"
| "json_ok _ = True"

lemma take_digits_append:
  assumes "delim r"
  shows "take_digits (s @ r) = (fst (take_digits s), snd (take_digits s) @ r)"
proof (cases "\<forall>c\<in>set s. is_digit c")
  case True
  have "takeWhile is_digit r = [] \<and> dropWhile is_digit r = r"
    using assms by (cases r) (auto simp: delim_def is_digit_def ord_def)
  moreover have "takeWhile is_digit s = s" "dropWhile is_digit s = []"
    using True by (metis takeWhile_eq_all_conv, simp)
  ultimately show ?thesis using True
    by (metis append_Nil dropWhile_append2 fst_conv snd_conv take_digits_def takeWhile_append2 append_Nil2)
next
  case False
  then show ?thesis by (auto simp: take_digits_def takeWhile_append dropWhile_append)
qed

lemma pint_append: "pint s = Some (i, q) \<Longrightarrow> delim r \<Longrightarrow> pint (s @ r) = Some (i, q @ r)"
  by (cases s) (auto simp: pint_def take_digits_append [of r "_ # _", simplified] split: if_splits)

lemma pfrac_append: "pfrac s = Some (i, q) \<Longrightarrow> delim r \<Longrightarrow> pfrac (s @ r) = Some (i, q @ r)"
  by (cases s; cases r)
    (auto simp: pfrac_def take_digits_append Let_def delim_def split: if_splits prod.splits)

lemma pexp_append: 
  assumes "pexp s = Some (i, q)" "delim r" 
  shows "pexp (s @ r) = Some (i, q @ r)"
proof (cases s)
  case Nil
  then show ?thesis using assms by (cases r) (auto simp: pexp_def delim_def)
next
  case (Cons c t)
  show ?thesis
  proof (cases "c = CHR ''e'' \<or> c = CHR ''E''")
    case True
    then have "t \<noteq> []" using assms(1) Cons by (auto simp: pexp_def take_digits_def)
    then obtain g u where "t = g # u" by (cases t) auto
    then show ?thesis using assms True Cons take_digits_append [OF assms(2), of "g # u"]
       take_digits_append [OF assms(2), of u]
      by (auto simp: pexp_def Let_def split: if_splits prod.splits)
  qed (use assms Cons in \<open>auto simp: pexp_def\<close>)
qed

lemma pnum_append: "pnum s = Some (l, q) \<Longrightarrow> delim r \<Longrightarrow> pnum (s @ r) = Some (l, q @ r)"
proof -
  assume a: "pnum s = Some (l, q)" and d: "delim r"
  define sg where "sg = (case s of c # _ \<Rightarrow> if c = CHR 0x2D then [c] else [] | [] \<Rightarrow> [])"
  have ne: "s \<noteq> []" using a by (auto simp: pnum_def pint_def)
  have sg': "(case s @ r of c # _ \<Rightarrow> if c = CHR 0x2D then [c] else [] | [] \<Rightarrow> []) = sg"
    "length sg \<le> length s"
    using ne by (cases s; auto simp: sg_def)+
  from a obtain i r1 f r2 e where
    p: "pint (drop (length sg) s) = Some (i, r1)" "pfrac r1 = Some (f, r2)" "pexp r2 = Some (e, q)"
      "l = sg @ i @ f @ e"
    unfolding pnum_def Let_def sg_def [symmetric] by (auto simp: bind_eq_Some_conv)
  show ?thesis
    using pint_append [OF p(1) d] pfrac_append [OF p(2) d] pexp_append [OF p(3) d] p(4) sg'(2)
    unfolding pnum_def Let_def sg'(1) by simp
qed

lemma is_digit_0 [simp]: "is_digit (CHR ''0'')"
  by (simp add: is_digit_def ord_def)

lemma num_head:
  assumes "num_ok l"
  obtains c t where "l = c # t" "c = CHR 0x2D \<or> is_digit c"
  using assms by (cases l) (auto simp: num_ok_def pnum_def pint_def bind_eq_Some_conv split: if_splits)

lemma Marshal_nonempty: "json_ok j \<Longrightarrow> Marshal j \<noteq> []"
  by (cases j) (auto simp: json_string_def elim: num_head)

lemma json_string_head: "\<exists>q. json_string s @ r = quote # q"
  by (simp add: json_string_def)

lemma Marshal_head:
  assumes "json_ok j"
  shows "\<exists>c t. Marshal j = c # t \<and> \<not> json_ws c \<and> c \<noteq> CHR '']''"
proof (cases j)
  case (JNum l)
  with assms show ?thesis
    by (auto elim!: num_head simp: json_ws_def is_digit_def ord_def)
qed (auto simp: json_string_def json_ws_def)

lemma skip_ws_Cons: "\<not> json_ws c \<Longrightarrow> skip_ws (c # t) = c # t"
  by (simp add: skip_ws_def)

lemma skip_ws_Marshal: "json_ok j \<Longrightarrow> skip_ws (Marshal j @ r) = Marshal j @ r"
  using Marshal_head [of j] by (auto simp: skip_ws_Cons)

lemma not_ws [simp]: "\<not> json_ws quote" "\<not> json_ws (CHR ''['')" "\<not> json_ws (CHR '']'')"
  "\<not> json_ws (CHR 0x7B)" "\<not> json_ws (CHR 0x7D)" "\<not> json_ws (CHR '','')" "\<not> json_ws (CHR '':'')"
  by (simp_all add: json_ws_def)

lemma pval_JNum:
  assumes "num_ok l" "delim r"
  shows "pval (Suc n) (l @ r) = Some (JNum l, r)"
proof -
  obtain c t where l: "l = c # t" "c = CHR 0x2D \<or> is_digit c" using num_head [OF assms(1)] .
  have ne: "c \<noteq> quote" "c \<noteq> CHR ''[''" "c \<noteq> CHR 0x7B" "\<not> json_ws c"
    "c \<noteq> CHR ''n''" "c \<noteq> CHR ''t''" "c \<noteq> CHR ''f''"
    using l(2) by (auto simp: is_digit_def ord_def json_ws_def)
  have p: "pnum (c # t @ r) = Some (c # t, r)"
    using pnum_append [of l l "[]" r] assms l(1) by (simp add: num_ok_def)
  show ?thesis unfolding l(1)
    using ne p by (simp add: skip_ws_Cons HasPrefix_def)
qed

lemma pval_JStr:
  assumes "ValidString s"
  shows "pval (Suc n) (json_string s @ r) = Some (JStr s, r)"
proof -
  obtain q where q: "json_string s @ r = quote # q" using json_string_head by blast
  show ?thesis unfolding q using pstr_json_string [OF assms q] by (simp add: skip_ws_Cons)
qed

lemma commas_Cons: "ss \<noteq> [] \<Longrightarrow> commas (s # ss) = s @ CHR '','' # commas ss"
  by (cases ss) simp_all

lemma pelems_Marshal:
  assumes "\<And>v n r. v \<in> set vs \<Longrightarrow> json_ok v \<Longrightarrow> delim r \<Longrightarrow> length (Marshal v) \<le> n \<Longrightarrow>
      pval n (Marshal v @ r) = Some (v, r)"
    and "vs \<noteq> []" "list_all json_ok vs" "length (commas (map Marshal vs)) < n"
  shows "pelems n (commas (map Marshal vs) @ CHR '']'' # r) = Some (vs, r)"
  using assms
proof (induction vs arbitrary: n)
  case (Cons v vs)
  then obtain m where n: "n = Suc m" by (cases n) auto
  have v: "json_ok v" using Cons.prems by simp
  show ?case
  proof (cases "vs = []")
    case True
    have "pval m (Marshal v @ CHR '']'' # r) = Some (v, CHR '']'' # r)"
      using Cons.prems(1) [of v "CHR '']'' # r" m] v Cons.prems(4) n True by simp
    then show ?thesis using True n by (simp add: skip_ws_Cons)
  next
    case False
    then have c: "commas (map Marshal (v # vs)) = Marshal v @ CHR '','' # commas (map Marshal vs)"
      by (simp add: commas_Cons)
    have l: "length (Marshal v) \<ge> 1" using Marshal_nonempty [OF v] by (cases "Marshal v") auto
    have "pval m (Marshal v @ CHR '','' # commas (map Marshal vs) @ CHR '']'' # r) =
        Some (v, CHR '','' # commas (map Marshal vs) @ CHR '']'' # r)"
      using Cons.prems(1) [of v "CHR '','' # commas (map Marshal vs) @ CHR '']'' # r" m] v
        Cons.prems(4) n c by simp
    moreover have "pelems m (commas (map Marshal vs) @ CHR '']'' # r) = Some (vs, r)"
      by (rule Cons.IH) (use Cons.prems False n c l in auto)
    ultimately show ?thesis unfolding n c by (simp add: skip_ws_Cons)
  qed
qed simp

lemma pmembers_Marshal:
  fixes m :: "string \<times> json \<Rightarrow> string"
  defines "m \<equiv> \<lambda>(k, v). json_string k @ CHR '':'' # Marshal v"
  assumes "\<And>k v n r. (k, v) \<in> set kvs \<Longrightarrow> json_ok v \<Longrightarrow> delim r \<Longrightarrow> length (Marshal v) \<le> n \<Longrightarrow>
      pval n (Marshal v @ r) = Some (v, r)"
    and "kvs \<noteq> []" "list_all (\<lambda>(k, v). ValidString k \<and> json_ok v) kvs"
      "length (commas (map m kvs)) < n"
  shows "pmembers n (commas (map m kvs) @ CHR 0x7D # r) = Some (kvs, r)"
  using assms(2-)
proof (induction kvs arbitrary: n)
  case (Cons kv kvs)
  obtain k v where kv: "kv = (k, v)" by (cases kv)
  from Cons obtain n' where n: "n = Suc n'" by (cases n) auto
  have k: "ValidString k" and v: "json_ok v" using Cons.prems(3) kv by simp_all
  have one: "pmembers (Suc n') (m (k, v) @ X) = (case skip_ws X of
        d # q \<Rightarrow> if d = CHR 0x7D then Some ([(k, v)], q)
                  else if d = CHR '','' then map_option (\<lambda>(m, q). ((k, v) # m, q)) (pmembers n' q)
                  else None
      | [] \<Rightarrow> None)" if "delim X" "length (Marshal v) \<le> n'" for X
  proof -
    obtain q where q: "json_string k @ CHR '':'' # Marshal v @ X = quote # q"
      using json_string_head by blast
    have "pval n' (Marshal v @ X) = Some (v, X)"
      using Cons.prems(1) [of k v X n'] kv v that by simp
    then show ?thesis
      using pstr_json_string [OF k q] by (simp add: m_def q skip_ws_Cons)
  qed
  show ?case
  proof (cases "kvs = []")
    case True
    then have eq: "commas (map m (kv # kvs)) @ CHR 0x7D # r = m (k, v) @ CHR 0x7D # r"
      by (simp add: kv)
    have "length (Marshal v) \<le> n'" using Cons.prems(4) n kv True by (simp add: m_def)
    then show ?thesis unfolding n eq by (subst one) (simp_all add: True kv skip_ws_Cons)
  next
    case False
    then have c: "commas (map m (kv # kvs)) = m (k, v) @ CHR '','' # commas (map m kvs)"
      by (simp add: commas_Cons kv)
    have "pmembers n' (commas (map m kvs) @ CHR 0x7D # r) = Some (kvs, r)"
      by (rule Cons.IH) (use Cons.prems False n c in \<open>auto simp: m_def\<close>)
    moreover have "length (Marshal v) \<le> n'" using Cons.prems(4) n c by (simp add: m_def)
    moreover have eq: "commas (map m (kv # kvs)) @ CHR 0x7D # r =
        m (k, v) @ CHR '','' # commas (map m kvs) @ CHR 0x7D # r" by (simp only: c append_Cons append_assoc)
    ultimately show ?thesis unfolding n eq by (subst one) (simp_all add: kv skip_ws_Cons)
  qed
qed simp

lemma pval_Marshal:
  "json_ok j \<Longrightarrow> delim r \<Longrightarrow> length (Marshal j) \<le> n \<Longrightarrow> pval n (Marshal j @ r) = Some (j, r)"
proof (induction j arbitrary: n r)
  case JNull
  then obtain m where "n = Suc m" by (cases n) auto
  then show ?case by (simp add: skip_ws_def json_ws_def HasPrefix_def)
next
  case (JBool b)
  then obtain m where "n = Suc m" by (cases n) (auto split: if_splits)
  then show ?case by (cases b) (simp_all add: skip_ws_def json_ws_def HasPrefix_def)
next
  case (JNum l)
  then obtain m where "n = Suc m" by (cases n) (auto elim: num_head)
  then show ?case using JNum pval_JNum by simp
next
  case (JStr s)
  then obtain m where "n = Suc m" by (cases n) (auto simp: json_string_def)
  then show ?case using JStr pval_JStr by simp
next
  case (JArr vs)
  then obtain m where n: "n = Suc m" by (cases n) auto
  show ?case
  proof (cases vs)
    case Nil
    then show ?thesis by (simp add: n skip_ws_Cons)
  next
    case (Cons v vs')
    have "json_ok v" using JArr.prems Cons by simp
    from Marshal_head [OF this] obtain c t where
      h: "Marshal v = c # t" "\<not> json_ws c" "c \<noteq> CHR '']''" by blast
    have "\<exists>u. commas (map Marshal vs) @ CHR '']'' # r = c # u"
      using h(1) Cons by (cases vs') simp_all
    moreover have "pelems m (commas (map Marshal vs) @ CHR '']'' # r) = Some (vs, r)"
      by (rule pelems_Marshal) (use JArr Cons n in auto)
    ultimately show ?thesis using h(2,3) by (auto simp: n skip_ws_Cons)
  qed
next
  case (JObj kvs)
  then obtain m where n: "n = Suc m" by (cases n) auto
  show ?case
  proof (cases kvs)
    case Nil
    then show ?thesis by (simp add: n skip_ws_Cons)
  next
    case (Cons kv kvs')
    have "\<exists>u. commas (map (\<lambda>(k, v). json_string k @ CHR '':'' # Marshal v) kvs) @ CHR 0x7D # r = quote # u"
      using Cons by (cases kvs'; cases kv) (simp_all add: json_string_def)
    moreover have "pmembers m (commas (map (\<lambda>(k, v). json_string k @ CHR '':'' # Marshal v) kvs) @ CHR 0x7D # r) =
        Some (kvs, r)"
      by (rule pmembers_Marshal) (use JObj Cons n in fastforce)+
    ultimately show ?thesis by (auto simp: n skip_ws_Cons)
  qed
qed

theorem json_parse_Marshal: "json_ok j \<Longrightarrow> json_parse (Marshal j) = Some j"
  using pval_Marshal [of j "[]" "2 * length (Marshal j) + 2"]
  by (simp add: json_parse_def skip_ws_def)

section \<open>Structs\<close>

text \<open>Field names match exactly or under simple case folding; the only runes above
  ASCII that fold to an ASCII letter are U+017F (s) and U+212A (k).\<close>

definition fold_rune :: "nat \<Rightarrow> nat" where
  "fold_rune r = (if r < 0x80 then upper_ascii r else if r = 0x17F then 83
     else if r = 0x212A then 75 else r)"

definition fold_name :: "string \<Rightarrow> nat list" where "fold_name s = map fold_rune (runes s)"

definition name_match :: "string \<Rightarrow> string \<Rightarrow> bool" where
  "name_match tag key = (fold_name tag = fold_name key)"

text \<open>Decoding one field: every matching member in order, null leaves the value alone.\<close>

fun field :: "(json \<Rightarrow> 'a option) \<Rightarrow> (string \<times> json) list \<Rightarrow> string \<Rightarrow> 'a \<Rightarrow> 'a option" where
  "field dec [] tag cur = Some cur"
| "field dec ((k, v) # kvs) tag cur =
     (if name_match tag k \<and> v \<noteq> JNull
      then (case dec v of None \<Rightarrow> None | Some x \<Rightarrow> field dec kvs tag x)
      else field dec kvs tag cur)"

text \<open>The members of the document a struct is decoded from; null decodes to the zero
  value, any other document is an UnmarshalTypeError.\<close>

definition members :: "json \<Rightarrow> (string \<times> json) list option" where
  "members j = (case j of JObj kvs \<Rightarrow> Some kvs | JNull \<Rightarrow> Some [] | _ \<Rightarrow> None)"

definition dec_str :: "json \<Rightarrow> string option" where
  "dec_str j = (case j of JStr s \<Rightarrow> Some s | _ \<Rightarrow> None)"

definition dec_bool :: "json \<Rightarrow> bool option" where
  "dec_bool j = (case j of JBool b \<Rightarrow> Some b | _ \<Rightarrow> None)"

definition dec_raw :: "json \<Rightarrow> json option" where "dec_raw j = Some j"

definition ParseInt64 :: "string \<Rightarrow> int option" where
  "ParseInt64 s =
     (let (neg, d) = (case s of c # r \<Rightarrow> if c = CHR 0x2D then (True, r) else (False, s) | [] \<Rightarrow> (False, s)) in
      case Atou d of
        None \<Rightarrow> None
      | Some n \<Rightarrow>
          (let i = (if neg then - int n else int n) in
           if - (2 ^ 63) \<le> i \<and> i < 2 ^ 63 then Some i else None))"

definition ParseUint64 :: "string \<Rightarrow> nat option" where
  "ParseUint64 s = (case Atou s of None \<Rightarrow> None | Some n \<Rightarrow> if n < 2 ^ 64 then Some n else None)"

definition dec_int :: "json \<Rightarrow> int option" where
  "dec_int j = (case j of JNum l \<Rightarrow> ParseInt64 l | _ \<Rightarrow> None)"

definition dec_uint :: "json \<Rightarrow> nat option" where
  "dec_uint j = (case j of JNum l \<Rightarrow> ParseUint64 l | _ \<Rightarrow> None)"

fun dec_list :: "(json \<Rightarrow> 'a option) \<Rightarrow> 'a \<Rightarrow> json list \<Rightarrow> 'a list option" where
  "dec_list dec z [] = Some []"
| "dec_list dec z (v # vs) =
     (case (if v = JNull then Some z else dec v) of
        None \<Rightarrow> None
      | Some x \<Rightarrow> map_option (\<lambda>xs. x # xs) (dec_list dec z vs))"

definition dec_array :: "(json \<Rightarrow> 'a option) \<Rightarrow> 'a \<Rightarrow> json \<Rightarrow> 'a list option" where
  "dec_array dec z j = (case j of JArr vs \<Rightarrow> dec_list dec z vs | _ \<Rightarrow> None)"

text \<open>Encoding: the omitempty members drop out.\<close>

definition omitempty :: "bool \<Rightarrow> string \<Rightarrow> json \<Rightarrow> (string \<times> json) list" where
  "omitempty z tag v = (if z then [] else [(tag, v)])"

definition enc_int :: "int \<Rightarrow> json" where "enc_int i = JNum (Itoa i)"
definition enc_nat :: "nat \<Rightarrow> json" where "enc_nat n = JNum (digits n)"

definition int64 :: "int \<Rightarrow> bool" where "int64 i \<longleftrightarrow> - (2 ^ 63) \<le> i \<and> i < 2 ^ 63"

lemma digits_head: "\<exists>c t. digits n = c # t \<and> is_digit c"
  using digits_are_digits [of n] digits_nonempty [of n] by (cases "digits n") auto

lemma dec_int_enc [json_simps]: "int64 i \<Longrightarrow> dec_int (enc_int i) = Some i"
proof -
  assume "int64 i"
  obtain c t where c: "digits (nat i) = c # t" "is_digit c" using digits_head by blast
  have "c \<noteq> CHR 0x2D" using c(2) by (auto simp: is_digit_def ord_def)
  then show ?thesis using \<open>int64 i\<close> c(1) Atou_digits [of "nat i"]
    by (auto simp: dec_int_def enc_int_def ParseInt64_def Itoa_def int64_def Let_def)
qed

lemma dec_uint_enc [json_simps]: "n < 2 ^ 64 \<Longrightarrow> dec_uint (enc_nat n) = Some n"
  by (simp add: dec_uint_def enc_nat_def ParseUint64_def)

lemma digits_no_leading_zero: "0 < n \<Longrightarrow> \<exists>c t. digits n = c # t \<and> is_digit c \<and> c \<noteq> CHR ''0''"
proof (induction n rule: digits.induct)
  case (1 n)
  show ?case
  proof (cases "n < 10")
    case True
    have "chr (48 + n) \<noteq> CHR ''0''"
    proof
      assume "chr (48 + n) = CHR ''0''"
      then have "ord (chr (48 + n)) = 48" by (simp add: ord_def)
      then show False using True 1(2) by simp
    qed
    then show ?thesis using True by (simp add: digits.simps [of n] is_digit_def)
  next
    case False
    then have "0 < n div 10" by (simp add: div_greater_zero_iff)
    then obtain c t where "digits (n div 10) = c # t \<and> is_digit c \<and> c \<noteq> CHR ''0''"
      using 1(1) [OF False] by blast
    then show ?thesis using False by (simp add: digits.simps [of n])
  qed
qed

lemma digits_0: "digits 0 = ''0''"
  by code_simp

lemma pint_digits: "pint (digits n) = Some (digits n, [])"
proof (cases "n = 0")
  case False
  then obtain c t where c: "digits n = c # t" "is_digit c" "c \<noteq> CHR ''0''"
    using digits_no_leading_zero by blast
  moreover have "takeWhile is_digit (digits n) = digits n" "dropWhile is_digit (digits n) = []"
    using digits_are_digits [of n] by (simp_all add: list_all_iff takeWhile_eq_all_conv)
  ultimately show ?thesis by (simp add: pint_def take_digits_def)
qed (simp add: digits_0 pint_def)

lemma num_ok_digits [json_simps]: "num_ok (digits n)"
proof -
  obtain c t where c: "digits n = c # t" "is_digit c" using digits_head by blast
  have "c \<noteq> CHR 0x2D" using c(2) by (auto simp: is_digit_def ord_def)
  then have "(case digits n of c # _ \<Rightarrow> if c = CHR 0x2D then [c] else [] | [] \<Rightarrow> []) = []"
    using c(1) by simp
  then show ?thesis
    unfolding num_ok_def pnum_def Let_def by (simp add: pint_digits pfrac_def pexp_def)
qed

lemma num_ok_Itoa [json_simps]: "num_ok (Itoa i)"
proof (cases "i < 0")
  case True
  then show ?thesis
    by (simp add: Itoa_def num_ok_def pnum_def Let_def pint_digits pfrac_def pexp_def)
qed (simp add: Itoa_def num_ok_digits)

lemma json_ok_enc [json_simps, simp]: "json_ok (enc_int i)" "json_ok (enc_nat n)"
  by (simp_all add: enc_int_def enc_nat_def num_ok_Itoa num_ok_digits)

lemma enc_not_null [simp]: "enc_int i \<noteq> JNull" "enc_nat n \<noteq> JNull"
  by (simp_all add: enc_int_def enc_nat_def)

text \<open>A decoder sees the members an encoder wrote in any order of the tags.\<close>

lemma field_append [json_simps]:
  "field dec (xs @ ys) tag cur = Option.bind (field dec xs tag cur) (\<lambda>c. field dec ys tag c)"
  by (induction dec xs tag cur rule: field.induct) (auto split: option.splits)

lemma field_omitempty [json_simps]:
  "field dec (omitempty e k v) tag cur =
     (if \<not> e \<and> name_match tag k \<and> v \<noteq> JNull then dec v else Some cur)"
  by (simp add: omitempty_def split: option.splits)

lemma field_Cons [json_simps]:
  "field dec ((k, v) # kvs) tag cur =
     Option.bind (if name_match tag k \<and> v \<noteq> JNull then dec v else Some cur) (\<lambda>c. field dec kvs tag c)"
  by (simp split: option.splits)

lemma dec_simps [json_simps]:
  "dec_str (JStr s) = Some s" "dec_bool (JBool b) = Some b" "dec_raw j = Some j"
  by (simp_all add: dec_str_def dec_bool_def dec_raw_def)

lemma name_match_refl [simp]: "name_match s s"
  by (simp add: name_match_def)

lemma name_match_ascii:
  "ascii s \<Longrightarrow> ascii t \<Longrightarrow> name_match s t \<longleftrightarrow>
     map (upper_ascii \<circ> ord) s = map (upper_ascii \<circ> ord) t"
  by (auto simp: name_match_def fold_name_def runes_ascii ascii_def fold_rune_def cong: map_cong)

lemma members_simps [json_simps]: "members (JObj kvs) = Some kvs" "members JNull = Some []"
  by (simp_all add: members_def)

text \<open>A struct literal as the list of its fields: tag, whether omitempty drops it, value.\<close>

definition struct_members :: "(string \<times> bool \<times> json) list \<Rightarrow> (string \<times> json) list" where
  "struct_members fs = concat (map (\<lambda>(t, e, v). omitempty e t v) fs)"

definition struct_obj :: "(string \<times> bool \<times> json) list \<Rightarrow> json" where
  "struct_obj fs = JObj (struct_members fs)"

definition tags_distinct :: "string list \<Rightarrow> bool" where
  "tags_distinct ts = distinct (map fold_name ts)"

lemma members_struct_obj [json_simps]: "members (struct_obj fs) = Some (struct_members fs)"
  by (simp add: struct_obj_def members_simps)

lemma field_struct_other:
  "\<forall>(t', _) \<in> set fs. \<not> name_match t t' \<Longrightarrow> field dec (struct_members fs) t cur = Some cur"
  by (induction fs) (auto simp: struct_members_def omitempty_def)

text \<open>Reading a tag back from the encoding of a struct is a lookup in the list of its fields.\<close>

fun struct_get :: "(json \<Rightarrow> 'a option) \<Rightarrow> (string \<times> bool \<times> json) list \<Rightarrow> string \<Rightarrow> 'a \<Rightarrow> 'a option" where
  "struct_get dec [] t cur = Some cur"
| "struct_get dec ((u, e, v) # fs) t cur =
     (if t = u then (if e \<or> v = JNull then Some cur else dec v) else struct_get dec fs t cur)"

lemma field_struct:
  assumes "tags_distinct (map fst fs)" "t \<in> set (map fst fs)"
  shows "field dec (struct_members fs) t cur = struct_get dec fs t cur"
  using assms
proof (induction fs)
  case (Cons f fs)
  obtain u e v where f: "f = (u, e, v)" by (cases f)
  have mem: "struct_members (f # fs) = omitempty e u v @ struct_members fs"
    by (simp add: struct_members_def f)
  have other: "\<not> name_match x y" if "x \<in> set (map fst (f # fs))" "y \<in> set (map fst (f # fs))" "x \<noteq> y" for x y
    using Cons.prems(1) that unfolding tags_distinct_def name_match_def distinct_map [of fold_name] by (meson inj_onD)
  show ?case
  proof (cases "t = u")
    case True
    have "\<forall>(y, _)\<in>set fs. \<not> name_match t y"
      using Cons.prems(1) True f by (force simp: tags_distinct_def name_match_def)
    then show ?thesis using True f by (simp add: mem [unfolded f] field_append field_omitempty field_struct_other split: option.splits)
  next
    case False
    then have "\<not> name_match t u" using other Cons.prems(2) f by simp
    then show ?thesis using Cons False f by (simp add: mem [unfolded f] field_append field_omitempty tags_distinct_def)
  qed
qed simp

declare struct_get.simps(2) [simp del]

lemma struct_get_skip: "t \<noteq> u \<Longrightarrow> struct_get dec ((u, e, v) # fs) t cur = struct_get dec fs t cur"
  by (simp add: struct_get.simps(2))

lemma struct_get_here:
  "struct_get dec_str ((t, False, JStr s) # fs) t cur = Some s"
  "struct_get dec_str ((t, s = [], JStr s) # fs) t [] = Some s"
  "int64 i \<Longrightarrow> struct_get dec_int ((t, False, enc_int i) # fs) t j = Some i"
  "int64 i \<Longrightarrow> struct_get dec_int ((t, i = 0, enc_int i) # fs) t 0 = Some i"
  "n < 2 ^ 64 \<Longrightarrow> struct_get dec_uint ((t, False, enc_nat n) # fs) t k = Some n"
  "n < 2 ^ 64 \<Longrightarrow> struct_get dec_uint ((t, n = 0, enc_nat n) # fs) t 0 = Some n"
  "struct_get dec_bool ((t, False, JBool b) # fs) t c = Some b"
  "struct_get dec_bool ((t, \<not> b, JBool b) # fs) t False = Some b"
  by (simp_all add: struct_get.simps(2) json_simps)

lemmas struct_get_rules = struct_get_here struct_get_skip

lemma json_ok_struct:
  "list_all (\<lambda>(t, e, v). ValidString t \<and> (e \<or> json_ok v)) fs \<Longrightarrow> json_ok (struct_obj fs)"
  by (induction fs) (auto simp: struct_obj_def struct_members_def omitempty_def)

lemma tags_distinct_ascii:
  "list_all ascii ts \<Longrightarrow> tags_distinct ts \<longleftrightarrow> distinct (map (map (upper_ascii \<circ> ord)) ts)"
proof (induction ts)
  case (Cons t ts)
  have "fold_name u = map (upper_ascii \<circ> ord) u" if "ascii u" for u
    using that by (simp add: fold_name_def runes_ascii fold_rune_def ascii_def cong: map_cong)
  then have "map fold_name (t # ts) = map (map (upper_ascii \<circ> ord)) (t # ts)"
    using Cons.prems by (auto simp: list_all_iff)
  then show ?case by (simp only: tags_distinct_def)
qed (simp add: tags_distinct_def)

section \<open>Decoded strings are valid UTF-8\<close>

fun json_utf8 :: "json \<Rightarrow> bool" where
  "json_utf8 (JStr s) = ValidString s"
| "json_utf8 (JArr vs) = list_all json_utf8 vs"
| "json_utf8 (JObj kvs) = list_all (\<lambda>(k, v). ValidString k \<and> json_utf8 v) kvs"
| "json_utf8 _ = True"

lemma ValidString_ascii_Cons: "ord c < 0x80 \<Longrightarrow> ValidString (c # s) \<longleftrightarrow> ValidString s"
  by (auto simp: ValidString_def segs_ascii RuneError_def)

lemma simple_escape_ascii: "simple_escape c = Some e \<Longrightarrow> ord e < 0x80"
  by (auto simp: simple_escape_def split: if_splits) (simp_all add: ord_def)

lemma pstr_valid: "pstr s = Some (t, rest) \<Longrightarrow> ValidString t"
proof (induction s arbitrary: t rule: pstr.induct)
  case (1 s)
  show ?case
  proof (cases s)
    case Nil
    with 1(7) show ?thesis by (simp add: pstr.simps [of "[]"])
  next
    case (Cons c r)
    note IH = 1(1-6) [OF Cons]
    show ?thesis using 1(7) unfolding Cons pstr.simps [of "c # r"] list.case
      using IH [unfolded Cons]
      by (auto simp: cons_out_def ValidString_ascii_Cons [OF simple_escape_ascii]
          split: if_splits option.splits list.splits)
  qed
qed

lemma pval_valid:
  "pval n s = Some (v, r) \<Longrightarrow> json_utf8 v"
  "pelems n s = Some (vs, r) \<Longrightarrow> list_all json_utf8 vs"
  "pmembers n s = Some (kvs, r) \<Longrightarrow> list_all (\<lambda>(k, v). ValidString k \<and> json_utf8 v) kvs"
proof (induction n s and n s and n s arbitrary: v r and vs r and kvs r rule: pval_pelems_pmembers.induct)
  case (2 n s0)
  then show ?case
    by (auto dest: pstr_valid split: list.splits if_splits)
next
  case (4 n s)
  then show ?case by (auto split: option.splits list.splits if_splits)
next
  case (6 n s)
  then show ?case
    by (auto split: option.splits list.splits if_splits) (blast intro: pstr_valid)+
qed auto

lemma json_parse_valid: "json_parse s = Some j \<Longrightarrow> json_utf8 j"
  by (auto simp: json_parse_def split: option.splits if_splits dest: pval_valid simp del: pval.simps)

lemma field_valid:
  assumes "field dec kvs tag cur = Some x" "P cur"
    and "\<And>k v y. (k, v) \<in> set kvs \<Longrightarrow> dec v = Some y \<Longrightarrow> P y"
  shows "P x"
  using assms by (induction dec kvs tag cur rule: field.induct) (auto split: if_splits option.splits)

lemma dec_str_valid: "json_utf8 j \<Longrightarrow> dec_str j = Some s \<Longrightarrow> ValidString s"
  by (auto simp: dec_str_def split: json.splits)

lemma dec_int_valid: "dec_int j = Some i \<Longrightarrow> int64 i"
  by (auto simp: dec_int_def ParseInt64_def int64_def Let_def split: json.splits option.splits if_splits prod.splits)

lemma members_valid:
  "json_utf8 j \<Longrightarrow> members j = Some m \<Longrightarrow> (k, v) \<in> set m \<Longrightarrow> json_utf8 v"
  by (auto simp: members_def list_all_iff split: json.splits)

lemma field_str_valid:
  assumes "json_utf8 j" "members j = Some m" "field dec_str m tag [] = Some s"
  shows "ValidString s"
  by (rule field_valid [where P = ValidString, OF assms(3)])
    (auto intro: dec_str_valid members_valid [OF assms(1,2)])

lemma field_int_valid: "field dec_int m tag 0 = Some i \<Longrightarrow> int64 i"
  by (erule field_valid [where P = int64]) (auto simp: int64_def dest: dec_int_valid)

section \<open>Parsed documents are in the printer's domain\<close>

lemma take_digits_stop:
  assumes "\<forall>c\<in>set d. is_digit c" "x = [] \<or> \<not> is_digit (hd x)"
  shows "take_digits (d @ x) = (d, x)"
  using assms by (cases x) (auto simp: take_digits_def takeWhile_append2 dropWhile_append2 takeWhile_eq_all_conv)

lemma take_digits_digits: "take_digits s = (d, r) \<Longrightarrow> \<forall>c\<in>set d. is_digit c"
  by (auto simp: take_digits_def dest: set_takeWhileD)

definition exp_start :: "string \<Rightarrow> bool" where "exp_start x = (x = [] \<or> hd x \<in> {CHR ''e'', CHR ''E''})"
definition frac_start :: "string \<Rightarrow> bool" where "frac_start x = (x = [] \<or> hd x \<in> {CHR ''.'', CHR ''e'', CHR ''E''})"

lemma exp_start_digit: "exp_start x \<Longrightarrow> x = [] \<or> \<not> is_digit (hd x)"
  by (auto simp: exp_start_def is_digit_def ord_def)

lemma frac_start_digit: "frac_start x \<Longrightarrow> x = [] \<or> \<not> is_digit (hd x)"
  by (auto simp: frac_start_def is_digit_def ord_def)

lemma pexp_ok: 
  assumes "pexp r = Some (e, q)"
  shows "pexp e = Some (e, []) \<and> exp_start e"
proof (cases "e = []")
  case False
  obtain c t where r: "r = c # t" "c = CHR ''e'' \<or> c = CHR ''E''"
    using assms False by (cases r) (auto simp: pexp_def split: if_splits)
  define sg where "sg = (case t of g # _ \<Rightarrow> if g = CHR ''+'' \<or> g = CHR 0x2D then [g] else [] | [] \<Rightarrow> [])"
  obtain d r2 where d: "take_digits (drop (length sg) t) = (d, r2)" by fastforce
  then have e: "e = c # sg @ d" "d \<noteq> []" using assms r by (auto simp: pexp_def sg_def [symmetric] Let_def split: if_splits)
  have dd: "\<forall>c\<in>set d. is_digit c" by (rule take_digits_digits [OF d])
  obtain d1 ds where d1: "d = d1 # ds" using e(2) by (cases d) auto
  have "is_digit d1" using dd d1 by simp
  then have "d1 \<noteq> CHR ''+'' \<and> d1 \<noteq> CHR 0x2D" by (auto simp: is_digit_def ord_def)
  then have sg2: "(case sg @ d of g # _ \<Rightarrow> if g = CHR ''+'' \<or> g = CHR 0x2D then [g] else [] | [] \<Rightarrow> []) = sg"
    by (auto simp: sg_def d1 split: list.splits)
  have "take_digits d = (d, [])" using take_digits_stop [OF dd, of "[]"] by simp
  then show ?thesis using r(2) e(2) unfolding e(1) pexp_def list.case sg2 exp_start_def by auto
qed (simp add: pexp_def exp_start_def)

lemma pfrac_ok:
  assumes "pfrac r = Some (f, q)" "exp_start x"
  shows "pfrac (f @ x) = Some (f, x) \<and> frac_start (f @ x)"
proof (cases "f = []")
  case True
  then show ?thesis using assms(2) by (cases x) (auto simp: pfrac_def exp_start_def frac_start_def)
next
  case False
  obtain t d r2 where t: "r = CHR ''.'' # t" "take_digits t = (d, r2)" "f = CHR ''.'' # d" "d \<noteq> []"
    using assms(1) False by (cases r) (auto simp: pfrac_def Let_def split: if_splits prod.splits)
  then show ?thesis
    using take_digits_stop [OF take_digits_digits [OF t(2)] exp_start_digit [OF assms(2)]]
    by (simp add: pfrac_def frac_start_def)
qed

lemma pint_ok:
  assumes "pint r = Some (i, q)" "frac_start x"
  shows "pint (i @ x) = Some (i, x) \<and> i \<noteq> [] \<and> is_digit (hd i)"
proof (cases r)
  case (Cons c t)
  show ?thesis
  proof (cases "c = CHR ''0''")
    case True
    then show ?thesis using assms(1) Cons by (auto simp: pint_def)
  next
    case False
    then have c: "is_digit c" "take_digits r = (i, q)" using assms(1) Cons by (auto simp: pint_def split: if_splits)
    then obtain i' where i: "i = c # i'" using Cons by (auto simp: take_digits_def)
    then show ?thesis using False c(1) take_digits_stop [OF take_digits_digits [OF c(2)] frac_start_digit [OF assms(2)]]
      by (simp add: pint_def)
  qed
qed (use assms in \<open>simp add: pint_def\<close>)

lemma pnum_ok: 
  assumes "pnum s = Some (l, q)"
  shows "num_ok l"
proof -
  define sg where "sg = (case s of c # _ \<Rightarrow> if c = CHR 0x2D then [c] else [] | [] \<Rightarrow> [])"
  from assms obtain i r1 f r2 e where
    p: "pint (drop (length sg) s) = Some (i, r1)" "pfrac r1 = Some (f, r2)" "pexp r2 = Some (e, q)" "l = sg @ i @ f @ e"
    unfolding pnum_def Let_def sg_def [symmetric] by (auto simp: bind_eq_Some_conv)
  have e: "pexp e = Some (e, [])" "exp_start e" using pexp_ok [OF p(3)] by simp_all
  have f: "pfrac (f @ e) = Some (f, e)" "frac_start (f @ e)" using pfrac_ok [OF p(2) e(2)] by simp_all
  have i: "pint (i @ f @ e) = Some (i, f @ e)" "i \<noteq> []" "is_digit (hd i)" using pint_ok [OF p(1) f(2)] by simp_all
  obtain i0 i' where i0: "i = i0 # i'" using i(2) by (cases i) auto
  have "i0 \<noteq> CHR 0x2D" using i(3) i0 by (auto simp: is_digit_def ord_def)
  then have "(case l of c # _ \<Rightarrow> if c = CHR 0x2D then [c] else [] | [] \<Rightarrow> []) = sg"
    unfolding p(4) by (auto simp: sg_def i0 split: list.splits)
  then show ?thesis using e(1) f(1) i(1) unfolding num_ok_def pnum_def Let_def by (simp add: p(4))
qed

lemma pval_ok:
  "pval n s = Some (v, r) \<Longrightarrow> json_ok v"
  "pelems n s = Some (vs, r) \<Longrightarrow> list_all json_ok vs"
  "pmembers n s = Some (kvs, r) \<Longrightarrow> list_all (\<lambda>(k, v). ValidString k \<and> json_ok v) kvs"
proof (induction n s and n s and n s arbitrary: v r and vs r and kvs r rule: pval_pelems_pmembers.induct)
  case (2 n s0)
  then show ?case
    by (auto dest: pstr_valid pnum_ok split: list.splits if_splits)
next
  case (4 n s)
  then show ?case by (auto split: option.splits list.splits if_splits)
next
  case (6 n s)
  then show ?case
    by (auto split: option.splits list.splits if_splits) (blast intro: pstr_valid)+
qed auto

lemma json_parse_ok: "json_parse s = Some j \<Longrightarrow> json_ok j"
  by (auto simp: json_parse_def split: option.splits if_splits dest: pval_ok simp del: pval.simps)

end
