(* ===== verification/Queue.thy ===== *)
theory Queue
  imports GoJson
begin

text \<open>
  internal/queue: the task and event types with their JSON form, the Redis Stream
  consumers with retry and dead letter queue (stream.go, tool_stream.go) and the
  Pub/Sub event bus (pubsub.go). Redis is outside: what it returns is an
  input and the commands sent to it are the output of a step.
\<close>

section \<open>Redis keys\<close>

definition HistoryMsgs :: "string \<Rightarrow> string" where "HistoryMsgs rid = ''history:'' @ rid @ '':msgs''"
definition HistoryOrder :: "string \<Rightarrow> string" where "HistoryOrder rid = ''history:'' @ rid @ '':order''"
definition QueueTasks :: string where "QueueTasks = ''queue:agent_tasks''"
definition QueueTasksDLQ :: string where "QueueTasksDLQ = ''queue:agent_tasks:dlq''"
definition QueueToolTasks :: string where "QueueToolTasks = ''queue:tool_tasks''"
definition QueueToolTasksDLQ :: string where "QueueToolTasksDLQ = ''queue:tool_tasks:dlq''"
definition EventsTopic :: "string \<Rightarrow> string" where "EventsTopic rid = ''events:'' @ rid"
definition ToolResultsTopic :: "string \<Rightarrow> string" where "ToolResultsTopic cid = ''tool_results:'' @ cid"
definition WorkerKey :: "string \<Rightarrow> string" where "WorkerKey wid = ''worker:'' @ wid"
definition WorkerSet :: string where "WorkerSet = ''workers:active''"

section \<open>Types\<close>

record Task =
  t_RunID :: string
  t_UserID :: string
  t_AgentID :: string
  t_Prompt :: string
  t_Model :: string
  t_SystemPrompt :: string
  t_TraceID :: string
  t_Attempt :: int

record Event =
  e_RunID :: string
  e_TraceID :: string
  e_Kind :: string
  e_State :: string
  e_From :: string
  e_Text :: string
  e_Index :: int
  e_Code :: string
  e_Message :: string
  e_Total :: int
  e_CallID :: string
  e_ToolName :: string
  e_Phase :: string
  e_Result :: string
  e_IsError :: bool
  e_ElapsedMS :: nat

definition EventState :: string where "EventState = ''state''"
definition EventToken :: string where "EventToken = ''token''"
definition EventDone :: string where "EventDone = ''done''"
definition EventError :: string where "EventError = ''error''"
definition EventTool :: string where "EventTool = ''tool''"

lemmas event_kinds = EventState_def EventToken_def EventDone_def EventError_def EventTool_def

text \<open>An event literal sets the fields it names and leaves the others zero.\<close>

definition zero_event :: Event where
  "zero_event = \<lparr> e_RunID = [], e_TraceID = [], e_Kind = [], e_State = [], e_From = [], e_Text = [],
     e_Index = 0, e_Code = [], e_Message = [], e_Total = 0, e_CallID = [], e_ToolName = [],
     e_Phase = [], e_Result = [], e_IsError = False, e_ElapsedMS = 0 \<rparr>"

record ToolTask =
  tt_CallID :: string
  tt_UserID :: string
  tt_Tool :: string
  tt_ArgsJSON :: string
  tt_TimeoutMS :: int
  tt_TraceID :: string
  tt_Attempt :: int

record ToolResultEvent =
  tr_CallID :: string
  tr_TraceID :: string
  tr_ContainerID :: string
  tr_ExitCode :: int
  tr_Content :: string
  tr_IsError :: bool
  tr_MetaJSON :: string
  tr_ElapsedMS :: int
  tr_ErrorCode :: string
  tr_ErrorMsg :: string

definition zero_result :: ToolResultEvent where
  "zero_result = \<lparr> tr_CallID = [], tr_TraceID = [], tr_ContainerID = [], tr_ExitCode = 0, tr_Content = [],
     tr_IsError = False, tr_MetaJSON = [], tr_ElapsedMS = 0, tr_ErrorCode = [], tr_ErrorMsg = [] \<rparr>"

section \<open>JSON form\<close>

definition Task_fields :: "Task \<Rightarrow> (string \<times> bool \<times> json) list" where
  "Task_fields t = [
     (''run_id'', False, JStr (t_RunID t)),
     (''user_id'', False, JStr (t_UserID t)),
     (''agent_id'', t_AgentID t = [], JStr (t_AgentID t)),
     (''prompt'', False, JStr (t_Prompt t)),
     (''model'', t_Model t = [], JStr (t_Model t)),
     (''system_prompt'', t_SystemPrompt t = [], JStr (t_SystemPrompt t)),
     (''trace_id'', False, JStr (t_TraceID t)),
     (''attempt'', t_Attempt t = 0, enc_int (t_Attempt t))]"

definition Task_json :: "Task \<Rightarrow> json" where "Task_json t = struct_obj (Task_fields t)"

definition Task_of :: "json \<Rightarrow> Task option" where
  "Task_of j = Option.bind (members j) (\<lambda>m.
     Option.bind (field dec_str m ''run_id'' []) (\<lambda>x0.
     Option.bind (field dec_str m ''user_id'' []) (\<lambda>x1.
     Option.bind (field dec_str m ''agent_id'' []) (\<lambda>x2.
     Option.bind (field dec_str m ''prompt'' []) (\<lambda>x3.
     Option.bind (field dec_str m ''model'' []) (\<lambda>x4.
     Option.bind (field dec_str m ''system_prompt'' []) (\<lambda>x5.
     Option.bind (field dec_str m ''trace_id'' []) (\<lambda>x6.
     Option.bind (field dec_int m ''attempt'' 0) (\<lambda>x7.
     Some \<lparr> t_RunID = x0, t_UserID = x1, t_AgentID = x2, t_Prompt = x3, t_Model = x4, t_SystemPrompt = x5, t_TraceID = x6, t_Attempt = x7 \<rparr>)))))))))"

definition Task_Marshal :: "Task \<Rightarrow> string" where "Task_Marshal t = Marshal (Task_json t)"
definition Task_Unmarshal :: "string \<Rightarrow> Task option" where
  "Task_Unmarshal s = Option.bind (json_parse s) Task_of"

definition Task_ok :: "Task \<Rightarrow> bool" where
  "Task_ok t = (ValidString (t_RunID t) \<and>
     ValidString (t_UserID t) \<and>
     ValidString (t_AgentID t) \<and>
     ValidString (t_Prompt t) \<and>
     ValidString (t_Model t) \<and>
     ValidString (t_SystemPrompt t) \<and>
     ValidString (t_TraceID t) \<and>
     int64 (t_Attempt t))"

lemma Task_tags: "tags_distinct (map fst (Task_fields t))"
  by (simp add: Task_fields_def tags_distinct_ascii upper_ascii_def ord_def)

lemma Task_json_ok: "Task_ok t \<Longrightarrow> json_ok (Task_json t)"
  unfolding Task_json_def by (rule json_ok_struct)
    (simp add: Task_ok_def Task_fields_def ValidString_ascii ord_def)

lemma Task_names: "map fst (Task_fields t) =
  [''run_id'', ''user_id'', ''agent_id'', ''prompt'', ''model'', ''system_prompt'', ''trace_id'', ''attempt'']"
  by (simp add: Task_fields_def)

lemma Task_of_json: "Task_ok t \<Longrightarrow> Task_of (Task_json t) = Some t"
  by (simp add: Task_of_def Task_json_def members_struct_obj field_struct [OF Task_tags] Task_names)
    (simp add: Task_fields_def Task_ok_def struct_get_rules)

lemma Task_roundtrip: "Task_ok t \<Longrightarrow> Task_Unmarshal (Task_Marshal t) = Some t"
  by (simp add: Task_Unmarshal_def Task_Marshal_def json_parse_Marshal Task_json_ok Task_of_json)

definition Event_fields :: "Event \<Rightarrow> (string \<times> bool \<times> json) list" where
  "Event_fields e = [
     (''run_id'', False, JStr (e_RunID e)),
     (''trace_id'', False, JStr (e_TraceID e)),
     (''kind'', False, JStr (e_Kind e)),
     (''state'', e_State e = [], JStr (e_State e)),
     (''from'', e_From e = [], JStr (e_From e)),
     (''text'', e_Text e = [], JStr (e_Text e)),
     (''index'', e_Index e = 0, enc_int (e_Index e)),
     (''code'', e_Code e = [], JStr (e_Code e)),
     (''message'', e_Message e = [], JStr (e_Message e)),
     (''total'', e_Total e = 0, enc_int (e_Total e)),
     (''call_id'', e_CallID e = [], JStr (e_CallID e)),
     (''tool_name'', e_ToolName e = [], JStr (e_ToolName e)),
     (''phase'', e_Phase e = [], JStr (e_Phase e)),
     (''result'', e_Result e = [], JStr (e_Result e)),
     (''is_error'', \<not> e_IsError e, JBool (e_IsError e)),
     (''elapsed_ms'', e_ElapsedMS e = 0, enc_nat (e_ElapsedMS e))]"

definition Event_json :: "Event \<Rightarrow> json" where "Event_json e = struct_obj (Event_fields e)"

definition Event_of :: "json \<Rightarrow> Event option" where
  "Event_of j = Option.bind (members j) (\<lambda>m.
     Option.bind (field dec_str m ''run_id'' []) (\<lambda>x0.
     Option.bind (field dec_str m ''trace_id'' []) (\<lambda>x1.
     Option.bind (field dec_str m ''kind'' []) (\<lambda>x2.
     Option.bind (field dec_str m ''state'' []) (\<lambda>x3.
     Option.bind (field dec_str m ''from'' []) (\<lambda>x4.
     Option.bind (field dec_str m ''text'' []) (\<lambda>x5.
     Option.bind (field dec_int m ''index'' 0) (\<lambda>x6.
     Option.bind (field dec_str m ''code'' []) (\<lambda>x7.
     Option.bind (field dec_str m ''message'' []) (\<lambda>x8.
     Option.bind (field dec_int m ''total'' 0) (\<lambda>x9.
     Option.bind (field dec_str m ''call_id'' []) (\<lambda>x10.
     Option.bind (field dec_str m ''tool_name'' []) (\<lambda>x11.
     Option.bind (field dec_str m ''phase'' []) (\<lambda>x12.
     Option.bind (field dec_str m ''result'' []) (\<lambda>x13.
     Option.bind (field dec_bool m ''is_error'' False) (\<lambda>x14.
     Option.bind (field dec_uint m ''elapsed_ms'' 0) (\<lambda>x15.
     Some \<lparr> e_RunID = x0, e_TraceID = x1, e_Kind = x2, e_State = x3, e_From = x4, e_Text = x5, e_Index = x6, e_Code = x7, e_Message = x8, e_Total = x9, e_CallID = x10, e_ToolName = x11, e_Phase = x12, e_Result = x13, e_IsError = x14, e_ElapsedMS = x15 \<rparr>)))))))))))))))))"

definition Event_Marshal :: "Event \<Rightarrow> string" where "Event_Marshal e = Marshal (Event_json e)"
definition Event_Unmarshal :: "string \<Rightarrow> Event option" where
  "Event_Unmarshal s = Option.bind (json_parse s) Event_of"

definition Event_ok :: "Event \<Rightarrow> bool" where
  "Event_ok e = (ValidString (e_RunID e) \<and>
     ValidString (e_TraceID e) \<and>
     ValidString (e_Kind e) \<and>
     ValidString (e_State e) \<and>
     ValidString (e_From e) \<and>
     ValidString (e_Text e) \<and>
     int64 (e_Index e) \<and>
     ValidString (e_Code e) \<and>
     ValidString (e_Message e) \<and>
     int64 (e_Total e) \<and>
     ValidString (e_CallID e) \<and>
     ValidString (e_ToolName e) \<and>
     ValidString (e_Phase e) \<and>
     ValidString (e_Result e) \<and>
     e_ElapsedMS e < 2 ^ 64)"

lemma Event_tags: "tags_distinct (map fst (Event_fields e))"
  by (simp add: Event_fields_def tags_distinct_ascii upper_ascii_def ord_def)

lemma Event_json_ok: "Event_ok e \<Longrightarrow> json_ok (Event_json e)"
  unfolding Event_json_def by (rule json_ok_struct)
    (simp add: Event_ok_def Event_fields_def ValidString_ascii ord_def)

lemma Event_names: "map fst (Event_fields e) =
  [''run_id'', ''trace_id'', ''kind'', ''state'', ''from'', ''text'', ''index'', ''code'', ''message'', ''total'',
   ''call_id'', ''tool_name'', ''phase'', ''result'', ''is_error'', ''elapsed_ms'']"
  by (simp add: Event_fields_def)

lemma Event_of_json: "Event_ok e \<Longrightarrow> Event_of (Event_json e) = Some e"
  by (simp add: Event_of_def Event_json_def members_struct_obj field_struct [OF Event_tags] Event_names)
    (simp add: Event_fields_def Event_ok_def struct_get_rules)

lemma Event_roundtrip: "Event_ok e \<Longrightarrow> Event_Unmarshal (Event_Marshal e) = Some e"
  by (simp add: Event_Unmarshal_def Event_Marshal_def json_parse_Marshal Event_json_ok Event_of_json)

definition ToolTask_fields :: "ToolTask \<Rightarrow> (string \<times> bool \<times> json) list" where
  "ToolTask_fields t = [
     (''call_id'', False, JStr (tt_CallID t)),
     (''user_id'', False, JStr (tt_UserID t)),
     (''tool'', False, JStr (tt_Tool t)),
     (''args_json'', False, JStr (tt_ArgsJSON t)),
     (''timeout_ms'', tt_TimeoutMS t = 0, enc_int (tt_TimeoutMS t)),
     (''trace_id'', False, JStr (tt_TraceID t)),
     (''attempt'', tt_Attempt t = 0, enc_int (tt_Attempt t))]"

definition ToolTask_json :: "ToolTask \<Rightarrow> json" where "ToolTask_json t = struct_obj (ToolTask_fields t)"

definition ToolTask_of :: "json \<Rightarrow> ToolTask option" where
  "ToolTask_of j = Option.bind (members j) (\<lambda>m.
     Option.bind (field dec_str m ''call_id'' []) (\<lambda>x0.
     Option.bind (field dec_str m ''user_id'' []) (\<lambda>x1.
     Option.bind (field dec_str m ''tool'' []) (\<lambda>x2.
     Option.bind (field dec_str m ''args_json'' []) (\<lambda>x3.
     Option.bind (field dec_int m ''timeout_ms'' 0) (\<lambda>x4.
     Option.bind (field dec_str m ''trace_id'' []) (\<lambda>x5.
     Option.bind (field dec_int m ''attempt'' 0) (\<lambda>x6.
     Some \<lparr> tt_CallID = x0, tt_UserID = x1, tt_Tool = x2, tt_ArgsJSON = x3, tt_TimeoutMS = x4, tt_TraceID = x5, tt_Attempt = x6 \<rparr>))))))))"

definition ToolTask_Marshal :: "ToolTask \<Rightarrow> string" where "ToolTask_Marshal t = Marshal (ToolTask_json t)"
definition ToolTask_Unmarshal :: "string \<Rightarrow> ToolTask option" where
  "ToolTask_Unmarshal s = Option.bind (json_parse s) ToolTask_of"

definition ToolTask_ok :: "ToolTask \<Rightarrow> bool" where
  "ToolTask_ok t = (ValidString (tt_CallID t) \<and>
     ValidString (tt_UserID t) \<and>
     ValidString (tt_Tool t) \<and>
     ValidString (tt_ArgsJSON t) \<and>
     int64 (tt_TimeoutMS t) \<and>
     ValidString (tt_TraceID t) \<and>
     int64 (tt_Attempt t))"

lemma ToolTask_tags: "tags_distinct (map fst (ToolTask_fields t))"
  by (simp add: ToolTask_fields_def tags_distinct_ascii upper_ascii_def ord_def)

lemma ToolTask_json_ok: "ToolTask_ok t \<Longrightarrow> json_ok (ToolTask_json t)"
  unfolding ToolTask_json_def by (rule json_ok_struct)
    (simp add: ToolTask_ok_def ToolTask_fields_def ValidString_ascii ord_def)

lemma ToolTask_names: "map fst (ToolTask_fields t) =
  [''call_id'', ''user_id'', ''tool'', ''args_json'', ''timeout_ms'', ''trace_id'', ''attempt'']"
  by (simp add: ToolTask_fields_def)

lemma ToolTask_of_json: "ToolTask_ok t \<Longrightarrow> ToolTask_of (ToolTask_json t) = Some t"
  by (simp add: ToolTask_of_def ToolTask_json_def members_struct_obj field_struct [OF ToolTask_tags] ToolTask_names)
    (simp add: ToolTask_fields_def ToolTask_ok_def struct_get_rules)

lemma ToolTask_roundtrip: "ToolTask_ok t \<Longrightarrow> ToolTask_Unmarshal (ToolTask_Marshal t) = Some t"
  by (simp add: ToolTask_Unmarshal_def ToolTask_Marshal_def json_parse_Marshal ToolTask_json_ok ToolTask_of_json)

definition ToolResultEvent_fields :: "ToolResultEvent \<Rightarrow> (string \<times> bool \<times> json) list" where
  "ToolResultEvent_fields t = [
     (''call_id'', False, JStr (tr_CallID t)),
     (''trace_id'', tr_TraceID t = [], JStr (tr_TraceID t)),
     (''container_id'', tr_ContainerID t = [], JStr (tr_ContainerID t)),
     (''exit_code'', False, enc_int (tr_ExitCode t)),
     (''content'', False, JStr (tr_Content t)),
     (''is_error'', \<not> tr_IsError t, JBool (tr_IsError t)),
     (''meta_json'', tr_MetaJSON t = [], JStr (tr_MetaJSON t)),
     (''elapsed_ms'', False, enc_int (tr_ElapsedMS t)),
     (''error_code'', tr_ErrorCode t = [], JStr (tr_ErrorCode t)),
     (''error_message'', tr_ErrorMsg t = [], JStr (tr_ErrorMsg t))]"

definition ToolResultEvent_json :: "ToolResultEvent \<Rightarrow> json" where "ToolResultEvent_json t = struct_obj (ToolResultEvent_fields t)"

definition ToolResultEvent_of :: "json \<Rightarrow> ToolResultEvent option" where
  "ToolResultEvent_of j = Option.bind (members j) (\<lambda>m.
     Option.bind (field dec_str m ''call_id'' []) (\<lambda>x0.
     Option.bind (field dec_str m ''trace_id'' []) (\<lambda>x1.
     Option.bind (field dec_str m ''container_id'' []) (\<lambda>x2.
     Option.bind (field dec_int m ''exit_code'' 0) (\<lambda>x3.
     Option.bind (field dec_str m ''content'' []) (\<lambda>x4.
     Option.bind (field dec_bool m ''is_error'' False) (\<lambda>x5.
     Option.bind (field dec_str m ''meta_json'' []) (\<lambda>x6.
     Option.bind (field dec_int m ''elapsed_ms'' 0) (\<lambda>x7.
     Option.bind (field dec_str m ''error_code'' []) (\<lambda>x8.
     Option.bind (field dec_str m ''error_message'' []) (\<lambda>x9.
     Some \<lparr> tr_CallID = x0, tr_TraceID = x1, tr_ContainerID = x2, tr_ExitCode = x3, tr_Content = x4, tr_IsError = x5, tr_MetaJSON = x6, tr_ElapsedMS = x7, tr_ErrorCode = x8, tr_ErrorMsg = x9 \<rparr>)))))))))))"

definition ToolResultEvent_Marshal :: "ToolResultEvent \<Rightarrow> string" where "ToolResultEvent_Marshal t = Marshal (ToolResultEvent_json t)"
definition ToolResultEvent_Unmarshal :: "string \<Rightarrow> ToolResultEvent option" where
  "ToolResultEvent_Unmarshal s = Option.bind (json_parse s) ToolResultEvent_of"

definition ToolResultEvent_ok :: "ToolResultEvent \<Rightarrow> bool" where
  "ToolResultEvent_ok t = (ValidString (tr_CallID t) \<and>
     ValidString (tr_TraceID t) \<and>
     ValidString (tr_ContainerID t) \<and>
     int64 (tr_ExitCode t) \<and>
     ValidString (tr_Content t) \<and>
     ValidString (tr_MetaJSON t) \<and>
     int64 (tr_ElapsedMS t) \<and>
     ValidString (tr_ErrorCode t) \<and>
     ValidString (tr_ErrorMsg t))"

lemma ToolResultEvent_tags: "tags_distinct (map fst (ToolResultEvent_fields t))"
  by (simp add: ToolResultEvent_fields_def tags_distinct_ascii upper_ascii_def ord_def)

lemma ToolResultEvent_json_ok: "ToolResultEvent_ok t \<Longrightarrow> json_ok (ToolResultEvent_json t)"
  unfolding ToolResultEvent_json_def by (rule json_ok_struct)
    (simp add: ToolResultEvent_ok_def ToolResultEvent_fields_def ValidString_ascii ord_def)

lemma ToolResultEvent_names: "map fst (ToolResultEvent_fields t) =
  [''call_id'', ''trace_id'', ''container_id'', ''exit_code'', ''content'', ''is_error'', ''meta_json'', ''elapsed_ms'',
   ''error_code'', ''error_message'']"
  by (simp add: ToolResultEvent_fields_def)

lemma ToolResultEvent_of_json: "ToolResultEvent_ok t \<Longrightarrow> ToolResultEvent_of (ToolResultEvent_json t) = Some t"
  by (simp add: ToolResultEvent_of_def ToolResultEvent_json_def members_struct_obj field_struct [OF ToolResultEvent_tags] ToolResultEvent_names)
    (simp add: ToolResultEvent_fields_def ToolResultEvent_ok_def struct_get_rules)

lemma ToolResultEvent_roundtrip: "ToolResultEvent_ok t \<Longrightarrow> ToolResultEvent_Unmarshal (ToolResultEvent_Marshal t) = Some t"
  by (simp add: ToolResultEvent_Unmarshal_def ToolResultEvent_Marshal_def json_parse_Marshal ToolResultEvent_json_ok ToolResultEvent_of_json)

section \<open>Pub/Sub\<close>

text \<open>Publish sends the marshalled event to the topic of its run (or call).\<close>

definition PubSub_Publish :: "string \<Rightarrow> Event \<Rightarrow> string \<times> string" where
  "PubSub_Publish runID ev = (EventsTopic runID, Event_Marshal ev)"

definition ToolBus_Publish :: "string \<Rightarrow> ToolResultEvent \<Rightarrow> string \<times> string" where
  "ToolBus_Publish callID ev = (ToolResultsTopic callID, ToolResultEvent_Marshal ev)"

text \<open>The goroutine of Subscribe: what its select sees, in order. It forwards the payloads
  that decode, skips the others, and closes the channel when the context ends, the caller cancels or
  the subscription closes.\<close>

datatype sub_input = SubCtxDone | SubCancel | SubClosed | SubMsg string

fun PubSub_Subscribe :: "sub_input list \<Rightarrow> Event list" where
  "PubSub_Subscribe [] = []"
| "PubSub_Subscribe (SubCtxDone # r) = []"
| "PubSub_Subscribe (SubCancel # r) = []"
| "PubSub_Subscribe (SubClosed # r) = []"
| "PubSub_Subscribe (SubMsg payload # r) =
     (case Event_Unmarshal payload of None \<Rightarrow> PubSub_Subscribe r | Some ev \<Rightarrow> ev # PubSub_Subscribe r)"

fun ToolBus_Subscribe :: "sub_input list \<Rightarrow> ToolResultEvent list" where
  "ToolBus_Subscribe [] = []"
| "ToolBus_Subscribe (SubCtxDone # r) = []"
| "ToolBus_Subscribe (SubCancel # r) = []"
| "ToolBus_Subscribe (SubClosed # r) = []"
| "ToolBus_Subscribe (SubMsg payload # r) =
     (case ToolResultEvent_Unmarshal payload of None \<Rightarrow> ToolBus_Subscribe r
      | Some ev \<Rightarrow> ev # ToolBus_Subscribe r)"

lemma PubSub_delivers:
  "list_all Event_ok evs \<Longrightarrow>
     PubSub_Subscribe (map (\<lambda>e. SubMsg (snd (PubSub_Publish rid e))) evs @ r) = evs @ PubSub_Subscribe r"
  by (induction evs) (simp_all add: PubSub_Publish_def Event_roundtrip)

end
