(* ===== verification/StreamQueue.thy ===== *)
theory StreamQueue
  imports Queue "HOL-Library.Multiset"
begin

text \<open>
  The consumers of internal/queue/stream.go and tool_stream.go: one stream with a
  consumer group, retry by re-publishing with a higher attempt, and a dead letter
  queue. A step turns one delivered message into the Redis commands the code issues,
  in order; a small Redis stream executes them, so that the whole consumption of a
  queue can be stated.
\<close>

section \<open>Commands and messages\<close>

type_synonym fieldvals = "(string \<times> string) list"

datatype redis_cmd =
    XAdd string "fieldvals"
  | XAck string string string

record Message =
  m_ID :: string
  m_Values :: "fieldvals"

text \<open>The consumer's own parameters: stream, dead letter stream, grp.\<close>

record StreamCfg =
  q_stream :: string
  q_dlq :: string

definition NewStream :: StreamCfg where
  "NewStream = \<lparr> q_stream = QueueTasks, q_dlq = QueueTasksDLQ \<rparr>"

definition NewToolStream :: StreamCfg where
  "NewToolStream = \<lparr> q_stream = QueueToolTasks, q_dlq = QueueToolTasksDLQ \<rparr>"

definition isBusyGroup :: "string option \<Rightarrow> bool" where
  "isBusyGroup err = (case err of None \<Rightarrow> False | Some e \<Rightarrow> Contains e ''BUSYGROUP'')"

definition EnsureGroup :: "string option \<Rightarrow> string option" where
  "EnsureGroup err =
     (if err \<noteq> None \<and> \<not> isBusyGroup err then map_option (\<lambda>e. ''create group: '' @ e) err else None)"

definition deadLetter :: "StreamCfg \<Rightarrow> string \<Rightarrow> string \<Rightarrow> string \<Rightarrow> string \<Rightarrow> redis_cmd list" where
  "deadLetter q grp mid raw hErr =
     [XAdd (q_dlq q) [(''task'', raw), (''error'', hErr), (''from'', mid)],
      XAck (q_stream q) grp mid]"

text \<open>Publish: one XADD of the marshalled task.\<close>

definition StreamQueue_Publish :: "StreamCfg \<Rightarrow> Task \<Rightarrow> redis_cmd" where
  "StreamQueue_Publish q t = XAdd (q_stream q) [(''task'', Task_Marshal t)]"

definition ToolStreamQueue_Publish :: "StreamCfg \<Rightarrow> ToolTask \<Rightarrow> redis_cmd" where
  "ToolStreamQueue_Publish q t = XAdd (q_stream q) [(''task'', ToolTask_Marshal t)]"

section \<open>One delivered message\<close>

text \<open>Go's int has 64 bits: the increment wraps.\<close>

definition incr64 :: "int \<Rightarrow> int" where
  "incr64 a = (if a = 2 ^ 63 - 1 then - (2 ^ 63) else a + 1)"

text \<open>jerr is the text of the error encoding/json reports on a malformed payload. The handler
  threads its own state and returns the text of its error, if any.\<close>

type_synonym ('h, 't) handler = "'h \<Rightarrow> string \<Rightarrow> 't \<Rightarrow> string option \<times> 'h"

definition task_maxRetry :: "int \<Rightarrow> int" where
  "task_maxRetry m = (if m \<le> 0 then 3 else m)"

definition tool_maxRetry :: "int \<Rightarrow> int" where
  "tool_maxRetry m = (if m \<le> 0 then 1 else m)"

definition StreamQueue_handle ::
    "(string \<Rightarrow> string) \<Rightarrow> StreamCfg \<Rightarrow> string \<Rightarrow> int \<Rightarrow> ('h, Task) handler \<Rightarrow> 'h \<Rightarrow> Message
      \<Rightarrow> redis_cmd list \<times> 'h" where
  "StreamQueue_handle jerr q grp maxRetry h hs msg =
     (case map_of (m_Values msg) ''task'' of
        None \<Rightarrow> ([XAck (q_stream q) grp (m_ID msg)], hs)
      | Some raw \<Rightarrow>
          (case Task_Unmarshal raw of
             None \<Rightarrow> (deadLetter q grp (m_ID msg) raw (jerr raw), hs)
           | Some t \<Rightarrow>
               (let (err, hs') = h hs (m_ID msg) t in
                case err of
                  None \<Rightarrow> ([XAck (q_stream q) grp (m_ID msg)], hs')
                | Some e \<Rightarrow>
                    (let t' = t\<lparr> t_Attempt := incr64 (t_Attempt t) \<rparr> in
                     if t_Attempt t' \<ge> maxRetry
                     then (deadLetter q grp (m_ID msg) raw e, hs')
                     else ([XAdd (q_stream q) [(''task'', Task_Marshal t')],
                            XAck (q_stream q) grp (m_ID msg)], hs')))))"

definition ToolStreamQueue_handle ::
    "(string \<Rightarrow> string) \<Rightarrow> StreamCfg \<Rightarrow> string \<Rightarrow> int \<Rightarrow> ('h, ToolTask) handler \<Rightarrow> 'h \<Rightarrow> Message
      \<Rightarrow> redis_cmd list \<times> 'h" where
  "ToolStreamQueue_handle jerr q grp maxRetry h hs msg =
     (case map_of (m_Values msg) ''task'' of
        None \<Rightarrow> ([XAck (q_stream q) grp (m_ID msg)], hs)
      | Some raw \<Rightarrow>
          (case ToolTask_Unmarshal raw of
             None \<Rightarrow> (deadLetter q grp (m_ID msg) raw (jerr raw), hs)
           | Some t \<Rightarrow>
               (let (err, hs') = h hs (m_ID msg) t in
                case err of
                  None \<Rightarrow> ([XAck (q_stream q) grp (m_ID msg)], hs')
                | Some e \<Rightarrow>
                    (let t' = t\<lparr> tt_Attempt := incr64 (tt_Attempt t) \<rparr> in
                     if tt_Attempt t' \<ge> maxRetry
                     then (deadLetter q grp (m_ID msg) raw e, hs')
                     else ([XAdd (q_stream q) [(''task'', ToolTask_Marshal t')],
                            XAck (q_stream q) grp (m_ID msg)], hs')))))"

section \<open>The consumer loop\<close>

text \<open>Redis and the context of the consumer, which are outside: ctx.Err(), XREADGROUP on a stream for a group and a consumer, XADD, XACK and
  the pause after an error. What XREADGROUP returns is a batch, redis.Nil when its time is over, or another error; a cancelled call is an
  error too: the next round sees the context.\<close>

datatype read_result =
    ReadNil
  | ReadError string
  | Batch "Message list"

record 'r QueueEnv =
  qe_Err :: "'r \<Rightarrow> string option"
  qe_XReadGroup :: "'r \<Rightarrow> string \<Rightarrow> string \<Rightarrow> string \<Rightarrow> read_result \<times> 'r"
  qe_XAdd :: "'r \<Rightarrow> string \<Rightarrow> fieldvals \<Rightarrow> string option \<times> 'r"
  qe_XAck :: "'r \<Rightarrow> string \<Rightarrow> string \<Rightarrow> string \<Rightarrow> string option \<times> 'r"
  qe_pause :: "'r \<Rightarrow> 'r"

text \<open>The consumers ignore the errors of the commands they issue.\<close>

definition exec_cmd :: "'r QueueEnv \<Rightarrow> 'r \<Rightarrow> redis_cmd \<Rightarrow> 'r" where
  "exec_cmd E w c = (case c of XAdd k v \<Rightarrow> snd (qe_XAdd E w k v) | XAck k g i \<Rightarrow> snd (qe_XAck E w k g i))"

fun handle_batch :: "'r QueueEnv \<Rightarrow> ('h \<Rightarrow> Message \<Rightarrow> redis_cmd list \<times> 'h) \<Rightarrow> 'r \<Rightarrow> 'h \<Rightarrow> Message list \<Rightarrow> 'r \<times> 'h" where
  "handle_batch E step w hs [] = (w, hs)"
| "handle_batch E step w hs (m # ms) = (let (cs, hs1) = step hs m in handle_batch E step (foldl (exec_cmd E) w cs) hs1 ms)"

text \<open>One round, with the error Consume returns, None if it goes on.\<close>

definition consume_round :: "'r QueueEnv \<Rightarrow> StreamCfg \<Rightarrow> string \<Rightarrow> string \<Rightarrow> ('h \<Rightarrow> Message \<Rightarrow> redis_cmd list \<times> 'h) \<Rightarrow> 'r \<Rightarrow> 'h \<Rightarrow>
    string option \<times> 'r \<times> 'h" where
  "consume_round E q grp consumer step w hs =
     (case qe_Err E w of
        Some e \<Rightarrow> (Some e, w, hs)
      | None \<Rightarrow>
          (case qe_XReadGroup E w (q_stream q) grp consumer of
             (ReadNil, w1) \<Rightarrow> (None, w1, hs)
           | (ReadError e, w1) \<Rightarrow> (let w2 = qe_pause E w1 in (qe_Err E w2, w2, hs))
           | (Batch ms, w1) \<Rightarrow> (None, handle_batch E step w1 hs ms)))"

text \<open>The first n rounds of the endless loop.\<close>

fun consume_rounds :: "'r QueueEnv \<Rightarrow> StreamCfg \<Rightarrow> string \<Rightarrow> string \<Rightarrow> ('h \<Rightarrow> Message \<Rightarrow> redis_cmd list \<times> 'h) \<Rightarrow> nat \<Rightarrow> 'r \<Rightarrow> 'h \<Rightarrow>
    string option \<times> 'r \<times> 'h" where
  "consume_rounds E q grp consumer step 0 w hs = (None, w, hs)"
| "consume_rounds E q grp consumer step (Suc n) w hs =
     (case consume_round E q grp consumer step w hs of
        (Some e, w1, hs1) \<Rightarrow> (Some e, w1, hs1)
      | (None, w1, hs1) \<Rightarrow> consume_rounds E q grp consumer step n w1 hs1)"

definition StreamQueue_Consume ::
    "(string \<Rightarrow> string) \<Rightarrow> StreamCfg \<Rightarrow> 'r QueueEnv \<Rightarrow> string \<Rightarrow> string \<Rightarrow> int \<Rightarrow> ('h, Task) handler \<Rightarrow> nat \<Rightarrow> 'r \<Rightarrow> 'h \<Rightarrow>
     string option \<times> 'r \<times> 'h" where
  "StreamQueue_Consume jerr q E grp consumer maxRetry h n w hs =
     consume_rounds E q grp consumer (StreamQueue_handle jerr q grp (task_maxRetry maxRetry) h) n w hs"

definition ToolStreamQueue_Consume ::
    "(string \<Rightarrow> string) \<Rightarrow> StreamCfg \<Rightarrow> 'r QueueEnv \<Rightarrow> string \<Rightarrow> string \<Rightarrow> int \<Rightarrow> ('h, ToolTask) handler \<Rightarrow> nat \<Rightarrow> 'r \<Rightarrow> 'h \<Rightarrow>
     string option \<times> 'r \<times> 'h" where
  "ToolStreamQueue_Consume jerr q E grp consumer maxRetry h n w hs =
     consume_rounds E q grp consumer (ToolStreamQueue_handle jerr q grp (tool_maxRetry maxRetry) h) n w hs"

section \<open>Redis streams\<close>

text \<open>What Redis promises of the stream of a queue and its group, as three views show it: the entries not delivered yet, the ids delivered
  and not acknowledged, the entries of the dead letter stream. A command that returns no error has been executed once; one that
  returns an error has been executed or not (a read then has delivered an entry nobody gets). Nobody else uses the queue meanwhile.\<close>

definition stream_service :: "'r QueueEnv \<Rightarrow> StreamCfg \<Rightarrow> string \<Rightarrow> ('r \<Rightarrow> Message list) \<Rightarrow> ('r \<Rightarrow> string set) \<Rightarrow> ('r \<Rightarrow> fieldvals list) \<Rightarrow> bool" where
  "stream_service E q grp entries pending dead =
     ((\<forall>w v. case qe_XAdd E w (q_stream q) v of (err, w1) \<Rightarrow> pending w1 = pending w \<and> dead w1 = dead w \<and>
          ((\<exists>i. entries w1 = entries w @ [\<lparr> m_ID = i, m_Values = v \<rparr>]) \<or> err \<noteq> None \<and> entries w1 = entries w)) \<and>
      (\<forall>w v. case qe_XAdd E w (q_dlq q) v of (err, w1) \<Rightarrow> pending w1 = pending w \<and> entries w1 = entries w \<and>
          (dead w1 = dead w @ [v] \<or> err \<noteq> None \<and> dead w1 = dead w)) \<and>
      (\<forall>w i. case qe_XAck E w (q_stream q) grp i of (err, w1) \<Rightarrow> entries w1 = entries w \<and> dead w1 = dead w \<and>
          (pending w1 = pending w - {i} \<or> err \<noteq> None \<and> pending w1 = pending w)) \<and>
      (\<forall>w c. case qe_XReadGroup E w (q_stream q) grp c of
          (ReadNil, w1) \<Rightarrow> entries w = [] \<and> entries w1 = [] \<and> pending w1 = pending w \<and> dead w1 = dead w
        | (ReadError e, w1) \<Rightarrow> dead w1 = dead w \<and> (entries w1 = entries w \<and> pending w1 = pending w \<or>
            (\<exists>m. entries w = m # entries w1 \<and> pending w1 = insert (m_ID m) (pending w)))
        | (Batch ms, w1) \<Rightarrow> dead w1 = dead w \<and> (\<exists>m. ms = [m] \<and> entries w = m # entries w1 \<and> pending w1 = insert (m_ID m) (pending w))) \<and>
      (\<forall>w. entries (qe_pause E w) = entries w \<and> pending (qe_pause E w) = pending w \<and> dead (qe_pause E w) = dead w))"

definition adds_up :: "'r QueueEnv \<Rightarrow> bool" where "adds_up E = (\<forall>w k v. fst (qe_XAdd E w k v) = None)"

definition acks_up :: "'r QueueEnv \<Rightarrow> bool" where "acks_up E = (\<forall>w k g i. fst (qe_XAck E w k g i) = None)"

definition reads_up :: "'r QueueEnv \<Rightarrow> bool" where "reads_up E = (\<forall>w k g c e. fst (qe_XReadGroup E w k g c) \<noteq> ReadError e)"

lemma stream_serviceD:
  assumes "stream_service E q grp entries pending dead"
  shows "qe_XAdd E w (q_stream q) v = (err, w1) \<Longrightarrow> pending w1 = pending w \<and> dead w1 = dead w \<and>
      ((\<exists>i. entries w1 = entries w @ [\<lparr> m_ID = i, m_Values = v \<rparr>]) \<or> err \<noteq> None \<and> entries w1 = entries w)"
    and "qe_XAdd E w (q_dlq q) v = (err, w1) \<Longrightarrow> pending w1 = pending w \<and> entries w1 = entries w \<and>
      (dead w1 = dead w @ [v] \<or> err \<noteq> None \<and> dead w1 = dead w)"
    and "qe_XAck E w (q_stream q) grp i = (err, w1) \<Longrightarrow> entries w1 = entries w \<and> dead w1 = dead w \<and>
      (pending w1 = pending w - {i} \<or> err \<noteq> None \<and> pending w1 = pending w)"
    and "qe_XReadGroup E w (q_stream q) grp c = (ReadNil, w1) \<Longrightarrow>
      entries w = [] \<and> entries w1 = [] \<and> pending w1 = pending w \<and> dead w1 = dead w"
    and "qe_XReadGroup E w (q_stream q) grp c = (ReadError e, w1) \<Longrightarrow> dead w1 = dead w \<and>
      (entries w1 = entries w \<and> pending w1 = pending w \<or> (\<exists>m. entries w = m # entries w1 \<and> pending w1 = insert (m_ID m) (pending w)))"
    and "qe_XReadGroup E w (q_stream q) grp c = (Batch ms, w1) \<Longrightarrow> dead w1 = dead w \<and>
      (\<exists>m. ms = [m] \<and> entries w = m # entries w1 \<and> pending w1 = insert (m_ID m) (pending w))"
    and "entries (qe_pause E w) = entries w \<and> pending (qe_pause E w) = pending w \<and> dead (qe_pause E w) = dead w"
proof -
  note l = assms [unfolded stream_service_def]
  note add = conjunct1 [OF l] and l1 = conjunct2 [OF l]
  note bury = conjunct1 [OF l1] and l2 = conjunct2 [OF l1]
  note ack = conjunct1 [OF l2] and l3 = conjunct2 [OF l2]
  note read = conjunct1 [OF l3] and pause = conjunct2 [OF l3]
  show "qe_XAdd E w (q_stream q) v = (err, w1) \<Longrightarrow> pending w1 = pending w \<and> dead w1 = dead w \<and>
      ((\<exists>i. entries w1 = entries w @ [\<lparr> m_ID = i, m_Values = v \<rparr>]) \<or> err \<noteq> None \<and> entries w1 = entries w)"
    using add [THEN spec, of w, THEN spec, of v] by simp
  show "qe_XAdd E w (q_dlq q) v = (err, w1) \<Longrightarrow> pending w1 = pending w \<and> entries w1 = entries w \<and>
      (dead w1 = dead w @ [v] \<or> err \<noteq> None \<and> dead w1 = dead w)"
    using bury [THEN spec, of w, THEN spec, of v] by simp
  show "qe_XAck E w (q_stream q) grp i = (err, w1) \<Longrightarrow> entries w1 = entries w \<and> dead w1 = dead w \<and>
      (pending w1 = pending w - {i} \<or> err \<noteq> None \<and> pending w1 = pending w)"
    using ack [THEN spec, of w, THEN spec, of i] by simp
  note r = read [THEN spec, of w, THEN spec, of c]
  show "qe_XReadGroup E w (q_stream q) grp c = (ReadNil, w1) \<Longrightarrow>
      entries w = [] \<and> entries w1 = [] \<and> pending w1 = pending w \<and> dead w1 = dead w" using r by simp
  show "qe_XReadGroup E w (q_stream q) grp c = (ReadError e, w1) \<Longrightarrow> dead w1 = dead w \<and>
      (entries w1 = entries w \<and> pending w1 = pending w \<or> (\<exists>m. entries w = m # entries w1 \<and> pending w1 = insert (m_ID m) (pending w)))"
    using r by simp
  show "qe_XReadGroup E w (q_stream q) grp c = (Batch ms, w1) \<Longrightarrow> dead w1 = dead w \<and>
      (\<exists>m. ms = [m] \<and> entries w = m # entries w1 \<and> pending w1 = insert (m_ID m) (pending w))" using r by simp
  show "entries (qe_pause E w) = entries w \<and> pending (qe_pause E w) = pending w \<and> dead (qe_pause E w) = dead w" using pause by blast
qed


section \<open>The consumer contract\<close>

text \<open>Of tasks key keeps what a retry does not change; the tasks of a list of entries.\<close>

definition tasks_in :: "(string \<Rightarrow> 'k) \<Rightarrow> fieldvals list \<Rightarrow> 'k multiset" where
  "tasks_in key vs = image_mset key (mset (List.map_filter (\<lambda>v. map_of v ''task'') vs))"

lemma tasks_in_simps [simp]:
  "tasks_in key [] = {#}"
  "tasks_in key (v # vs) = (case map_of v ''task'' of None \<Rightarrow> {#} | Some raw \<Rightarrow> {# key raw #}) + tasks_in key vs"
  "tasks_in key (us @ vs) = tasks_in key us + tasks_in key vs"
  by (simp_all add: tasks_in_def map_filter_def split: option.split)

text \<open>
  What both consumers promise about one message: it is acknowledged, once and last; its task is accepted, goes to the dead letter stream,
  or is published again as the same task, strictly closer to giving up. weight is the number of deliveries a payload can still
  cause, accepted what the handler has accepted so far.
\<close>

locale retry_consumer =
  fixes q :: StreamCfg
    and grp :: string
    and step :: "'h \<Rightarrow> Message \<Rightarrow> redis_cmd list \<times> 'h"
    and weight :: "string \<Rightarrow> nat"
    and key :: "string \<Rightarrow> 'k"
    and accepted :: "'h \<Rightarrow> 'k multiset"
  assumes weight_pos: "0 < weight raw"
    and answer: "step hs m = (cs, hs') \<Longrightarrow>
        (map_of (m_Values m) ''task'' = None \<and> cs = [XAck (q_stream q) grp (m_ID m)] \<and> accepted hs' = accepted hs) \<or>
        (\<exists>raw. map_of (m_Values m) ''task'' = Some raw \<and>
          ((cs = [XAck (q_stream q) grp (m_ID m)] \<and> accepted hs' = add_mset (key raw) (accepted hs)) \<or>
           (\<exists>e. cs = deadLetter q grp (m_ID m) raw e \<and> accepted hs' = accepted hs) \<or>
           (\<exists>raw'. weight raw' < weight raw \<and> key raw' = key raw \<and> accepted hs' = accepted hs \<and>
              cs = [XAdd (q_stream q) [(''task'', raw')], XAck (q_stream q) grp (m_ID m)])))"
begin

definition msg_weight :: "Message \<Rightarrow> nat" where
  "msg_weight m = (case map_of (m_Values m) ''task'' of None \<Rightarrow> 1 | Some raw \<Rightarrow> weight raw)"

definition total :: "Message list \<Rightarrow> nat" where
  "total ms = sum_list (map msg_weight ms)"

lemma msg_weight_pos: "0 < msg_weight m"
  by (simp add: msg_weight_def weight_pos split: option.splits)

lemma total_simps [simp]: "total [] = 0" "total (m # ms) = msg_weight m + total ms" "total (ms @ ns) = total ms + total ns"
  by (simp_all add: total_def)

text \<open>The tasks waiting, given up and accepted.\<close>

definition open_tasks :: "('r \<Rightarrow> Message list) \<Rightarrow> ('r \<Rightarrow> fieldvals list) \<Rightarrow> 'r \<Rightarrow> 'h \<Rightarrow> 'k multiset" where
  "open_tasks entries dead w hs = tasks_in key (map m_Values (entries w)) + tasks_in key (dead w) + accepted hs"

lemma acked:
  assumes "stream_service E q grp entries pending dead"
  shows "entries (exec_cmd E w (XAck (q_stream q) grp i)) = entries w \<and> dead (exec_cmd E w (XAck (q_stream q) grp i)) = dead w \<and>
    pending (exec_cmd E w (XAck (q_stream q) grp i)) \<subseteq> pending w \<and>
    (acks_up E \<longrightarrow> pending (exec_cmd E w (XAck (q_stream q) grp i)) = pending w - {i})"
proof -
  obtain err w1 where a: "qe_XAck E w (q_stream q) grp i = (err, w1)" by fastforce
  have "acks_up E \<Longrightarrow> err = None" using a unfolding acks_up_def by (metis fst_conv)
  then show ?thesis using stream_serviceD(3) [OF assms a] a by (auto simp: exec_cmd_def)
qed

text \<open>One message that was delivered from the stream m # ms.\<close>

lemma handled:
  assumes "stream_service E q grp entries pending dead" "step hs m = (cs, hs')" "w' = foldl (exec_cmd E) w cs"
  defines "before \<equiv> (case map_of (m_Values m) ''task'' of None \<Rightarrow> {#} | Some raw \<Rightarrow> {# key raw #}) + open_tasks entries dead w hs"
  shows "open_tasks entries dead w' hs' \<subseteq># before" "adds_up E \<Longrightarrow> open_tasks entries dead w' hs' = before"
    "total (entries w') < msg_weight m + total (entries w)" "acks_up E \<Longrightarrow> pending w' = pending w - {m_ID m}"
proof -
  have "open_tasks entries dead w' hs' \<subseteq># before \<and> (adds_up E \<longrightarrow> open_tasks entries dead w' hs' = before) \<and>
    total (entries w') < msg_weight m + total (entries w) \<and> (acks_up E \<longrightarrow> pending w' = pending w - {m_ID m})"
  proof -
    let ?ack = "XAck (q_stream q) grp (m_ID m)"
    note ack = acked [OF assms(1)]
    from answer [OF assms(2)] consider
        (none) "map_of (m_Values m) ''task'' = None" "cs = [?ack]" "accepted hs' = accepted hs"
      | (acc) raw where "map_of (m_Values m) ''task'' = Some raw" "cs = [?ack]" "accepted hs' = add_mset (key raw) (accepted hs)"
      | (dead) raw e where "map_of (m_Values m) ''task'' = Some raw" "cs = deadLetter q grp (m_ID m) raw e" "accepted hs' = accepted hs"
      | (retry) raw raw' where "map_of (m_Values m) ''task'' = Some raw" "weight raw' < weight raw" "key raw' = key raw" "accepted hs' = accepted hs"
          "cs = [XAdd (q_stream q) [(''task'', raw')], ?ack]" by (elim disjE conjE exE) (rule that; assumption)+
    then show ?thesis
    proof cases
      case none
      then show ?thesis using ack [of w "m_ID m"] msg_weight_pos [of m] by (simp add: assms(3) before_def open_tasks_def)
    next
      case acc
      then show ?thesis using ack [of w "m_ID m"] msg_weight_pos [of m] by (simp add: assms(3) before_def open_tasks_def)
    next
      case dead
      let ?v = "[(''task'', raw), (''error'', e), (''from'', m_ID m)]"
      obtain err w1 where a: "qe_XAdd E w (q_dlq q) ?v = (err, w1)" by fastforce
      have n: "adds_up E \<Longrightarrow> err = None" using a unfolding adds_up_def by (metis fst_conv)
      have w': "w' = exec_cmd E w1 ?ack" using a by (simp add: assms(3) dead(2) deadLetter_def exec_cmd_def)
      show ?thesis using stream_serviceD(2) [OF assms(1) a] ack [of w1 "m_ID m"] n dead(1,3) msg_weight_pos [of m]
        by (auto simp: w' before_def open_tasks_def)
    next
      case retry
      obtain err w1 where a: "qe_XAdd E w (q_stream q) [(''task'', raw')] = (err, w1)" by fastforce
      have n: "adds_up E \<Longrightarrow> err = None" using a unfolding adds_up_def by (metis fst_conv)
      have w': "w' = exec_cmd E w1 ?ack" using a by (simp add: assms(3) retry(5) exec_cmd_def)
      have "msg_weight m = weight raw" "0 < weight raw" using retry(1) weight_pos by (simp_all add: msg_weight_def)
      then show ?thesis using stream_serviceD(1) [OF assms(1) a] ack [of w1 "m_ID m"] n retry(1-4)
        by (auto simp: w' before_def open_tasks_def msg_weight_def)
    qed
  qed
  then show "open_tasks entries dead w' hs' \<subseteq># before" "adds_up E \<Longrightarrow> open_tasks entries dead w' hs' = before"
    "total (entries w') < msg_weight m + total (entries w)" "acks_up E \<Longrightarrow> pending w' = pending w - {m_ID m}" by blast+
qed

text \<open>One round: no task is doubled; when Redis answers, none is lost, the stream gets closer to empty and nothing stays pending.\<close>

lemma round:
  assumes "stream_service E q grp entries pending dead" "consume_round E q grp c step w hs = (r, w', hs')"
  shows "open_tasks entries dead w' hs' \<subseteq># open_tasks entries dead w hs"
    "adds_up E \<Longrightarrow> reads_up E \<Longrightarrow> open_tasks entries dead w' hs' = open_tasks entries dead w hs"
    "reads_up E \<Longrightarrow> qe_Err E w = None \<Longrightarrow> r = None \<and> (entries w = [] \<and> entries w' = [] \<or> total (entries w') < total (entries w))"
    "reads_up E \<Longrightarrow> acks_up E \<Longrightarrow> pending w' \<subseteq> pending w"
proof -
  have "open_tasks entries dead w' hs' \<subseteq># open_tasks entries dead w hs \<and>
    (adds_up E \<and> reads_up E \<longrightarrow> open_tasks entries dead w' hs' = open_tasks entries dead w hs) \<and>
    (reads_up E \<and> qe_Err E w = None \<longrightarrow> r = None \<and> (entries w = [] \<and> entries w' = [] \<or> total (entries w') < total (entries w))) \<and>
    (reads_up E \<and> acks_up E \<longrightarrow> pending w' \<subseteq> pending w)"
  proof (cases "qe_Err E w")
    case (Some e)
    then show ?thesis using assms(2) by (auto simp: consume_round_def)
  next
    case None
    obtain a w1 where read: "qe_XReadGroup E w (q_stream q) grp c = (a, w1)" by fastforce
    show ?thesis
    proof (cases a)
      case ReadNil
      then have "w' = w1" "hs' = hs" "r = None" using assms(2) None read by (simp_all add: consume_round_def)
      then show ?thesis using stream_serviceD(4) [OF assms(1) read [unfolded ReadNil]] by (simp add: open_tasks_def)
    next
      case (ReadError e)
      have w': "w' = qe_pause E w1" "hs' = hs" using assms(2) None read ReadError by (simp_all add: consume_round_def Let_def)
      have nr: "\<not> reads_up E" using read ReadError unfolding reads_up_def by (metis fst_conv)
      have "entries w1 = entries w \<or> (\<exists>m. entries w = m # entries w1)" "dead w1 = dead w"
        using stream_serviceD(5) [OF assms(1) read [unfolded ReadError]] by blast+
      then have "open_tasks entries dead w' hs' \<subseteq># open_tasks entries dead w hs"
        using stream_serviceD(7) [OF assms(1), of w1] by (auto simp: open_tasks_def w')
      then show ?thesis using nr by blast
    next
      case (Batch ms)
      obtain m where m: "ms = [m]" "entries w = m # entries w1" "pending w1 = insert (m_ID m) (pending w)" "dead w1 = dead w"
        using stream_serviceD(6) [OF assms(1) read [unfolded Batch]] by blast
      obtain cs hs1 where st: "step hs m = (cs, hs1)" by fastforce
      have w': "w' = foldl (exec_cmd E) w1 cs" "hs' = hs1" "r = None"
        using assms(2) None read Batch m(1) st by (simp_all add: consume_round_def)
      have o: "open_tasks entries dead w hs = (case map_of (m_Values m) ''task'' of None \<Rightarrow> {#} | Some raw \<Rightarrow> {# key raw #}) + open_tasks entries dead w1 hs"
        using m(2,4) by (simp add: open_tasks_def)
      note h = handled [OF assms(1) st w'(1)]
      show ?thesis using h m(2,3) o w'(2,3) by auto
    qed
  qed
  then show "open_tasks entries dead w' hs' \<subseteq># open_tasks entries dead w hs"
    "adds_up E \<Longrightarrow> reads_up E \<Longrightarrow> open_tasks entries dead w' hs' = open_tasks entries dead w hs"
    "reads_up E \<Longrightarrow> qe_Err E w = None \<Longrightarrow> r = None \<and> (entries w = [] \<and> entries w' = [] \<or> total (entries w') < total (entries w))"
    "reads_up E \<Longrightarrow> acks_up E \<Longrightarrow> pending w' \<subseteq> pending w" by blast+
qed

lemma rounds:
  assumes "stream_service E q grp entries pending dead" "consume_rounds E q grp c step n w hs = (r, w', hs')"
  shows "open_tasks entries dead w' hs' \<subseteq># open_tasks entries dead w hs \<and>
    (adds_up E \<and> reads_up E \<longrightarrow> open_tasks entries dead w' hs' = open_tasks entries dead w hs) \<and>
    (reads_up E \<and> acks_up E \<longrightarrow> pending w' \<subseteq> pending w)"
  using assms(2)
proof (induction n arbitrary: w hs)
  case (Suc n)
  obtain x w1 hs1 where x: "consume_round E q grp c step w hs = (x, w1, hs1)" by (metis prod_cases3)
  note o = round [OF assms(1) x]
  show ?case
  proof (cases x)
    case None
    then have "consume_rounds E q grp c step n w1 hs1 = (r, w', hs')" using Suc.prems x by simp
    from Suc.IH [OF this] o show ?thesis by (auto intro: subset_mset.order_trans)
  next
    case (Some e)
    then show ?thesis using Suc.prems x o by simp
  qed
qed simp

lemma drained:
  assumes "stream_service E q grp entries pending dead" "reads_up E" "\<forall>w. qe_Err E w = None" "total (entries w) \<le> n"
    and "consume_rounds E q grp c step n w hs = (r, w', hs')"
  shows "r = None \<and> entries w' = []"
  using assms(4,5)
proof (induction n arbitrary: w hs)
  case 0
  then show ?case using msg_weight_pos [of "hd (entries w)"] by (cases "entries w") auto
next
  case (Suc n)
  obtain x w1 hs1 where x: "consume_round E q grp c step w hs = (x, w1, hs1)" by (metis prod_cases3)
  have "x = None" "total (entries w1) \<le> n" using round(3) [OF assms(1) x assms(2)] assms(3) Suc.prems(1) by auto
  then show ?case using Suc.IH Suc.prems(2) x by simp
qed

end

section \<open>Both consumers keep the contract\<close>

definition retry_weight :: "int \<Rightarrow> int \<Rightarrow> nat" where
  "retry_weight maxRetry a =
     (if a = 2 ^ 63 - 1 then nat (maxRetry + 2 ^ 63) + 2 else max 1 (nat (maxRetry - a)))"

lemma retry_weight_decreases:
  assumes "int64 a" "int64 maxRetry" "incr64 a < maxRetry"
  shows "retry_weight maxRetry (incr64 a) < retry_weight maxRetry a"
  using assms by (auto simp: retry_weight_def incr64_def int64_def)

lemma retry_weight_pos: "0 < retry_weight maxRetry a"
  by (auto simp: retry_weight_def max_def)

lemma int64_sint: "int64 (sint (w :: 64 word))"
  using sint_greater_eq [of w] sint_less [of w] by (simp add: int64_def)

lemma incr64_int64: "int64 a \<Longrightarrow> int64 (incr64 a)"
  by (auto simp: int64_def incr64_def)

lemma Task_Unmarshal_ok: "Task_Unmarshal s = Some t \<Longrightarrow> Task_ok t"
  by (auto simp: Task_Unmarshal_def Task_of_def Task_ok_def bind_eq_Some_conv
      dest: json_parse_valid intro: field_str_valid field_int_valid)

lemma ToolTask_Unmarshal_ok: "ToolTask_Unmarshal s = Some t \<Longrightarrow> ToolTask_ok t"
  by (auto simp: ToolTask_Unmarshal_def ToolTask_of_def ToolTask_ok_def bind_eq_Some_conv
      dest: json_parse_valid intro: field_str_valid field_int_valid)

definition task_weight :: "int \<Rightarrow> string \<Rightarrow> nat" where
  "task_weight maxRetry raw = (case Task_Unmarshal raw of
      None \<Rightarrow> 1 | Some t \<Rightarrow> retry_weight maxRetry (t_Attempt t))"

definition tool_task_weight :: "int \<Rightarrow> string \<Rightarrow> nat" where
  "tool_task_weight maxRetry raw = (case ToolTask_Unmarshal raw of
      None \<Rightarrow> 1 | Some t \<Rightarrow> retry_weight maxRetry (tt_Attempt t))"

text \<open>A task whatever its attempt; a payload that is no task is itself.\<close>

definition task_key :: "string \<Rightarrow> string + Task" where
  "task_key raw = (case Task_Unmarshal raw of None \<Rightarrow> Inl raw | Some t \<Rightarrow> Inr (t\<lparr> t_Attempt := 0 \<rparr>))"

definition tool_task_key :: "string \<Rightarrow> string + ToolTask" where
  "tool_task_key raw = (case ToolTask_Unmarshal raw of None \<Rightarrow> Inl raw | Some t \<Rightarrow> Inr (t\<lparr> tt_Attempt := 0 \<rparr>))"

text \<open>A handler that also keeps a list of the tasks it has accepted.\<close>

definition logging :: "('h, 't) handler \<Rightarrow> ('h \<times> 't list, 't) handler" where
  "logging h = (\<lambda>(hs, log) i t. let (err, hs1) = h hs i t in (err, (hs1, if err = None then log @ [t] else log)))"

definition accepted_tasks :: "Task list \<Rightarrow> (string + Task) multiset" where
  "accepted_tasks log = image_mset (\<lambda>t. Inr (t\<lparr> t_Attempt := 0 \<rparr>)) (mset log)"

definition accepted_tools :: "ToolTask list \<Rightarrow> (string + ToolTask) multiset" where
  "accepted_tools log = image_mset (\<lambda>t. Inr (t\<lparr> tt_Attempt := 0 \<rparr>)) (mset log)"

interpretation task_queue: retry_consumer NewStream grp "StreamQueue_handle jerr NewStream grp (sint (mr :: 64 word)) (logging h)"
  "task_weight (sint mr)" task_key "\<lambda>s. accepted_tasks (snd s)"
proof unfold_locales
  show "0 < task_weight (sint mr) raw" for raw
    by (simp add: task_weight_def retry_weight_pos split: option.splits)
next
  fix s m cs s'
  assume step: "StreamQueue_handle jerr NewStream grp (sint mr) (logging h) s m = (cs, s')"
  show "map_of (m_Values m) ''task'' = None \<and> cs = [XAck (q_stream NewStream) grp (m_ID m)] \<and> accepted_tasks (snd s') = accepted_tasks (snd s) \<or>
      (\<exists>raw. map_of (m_Values m) ''task'' = Some raw \<and>
         (cs = [XAck (q_stream NewStream) grp (m_ID m)] \<and> accepted_tasks (snd s') = add_mset (task_key raw) (accepted_tasks (snd s)) \<or>
          (\<exists>e. cs = deadLetter NewStream grp (m_ID m) raw e \<and> accepted_tasks (snd s') = accepted_tasks (snd s)) \<or>
          (\<exists>raw'. task_weight (sint mr) raw' < task_weight (sint mr) raw \<and> task_key raw' = task_key raw \<and>
             accepted_tasks (snd s') = accepted_tasks (snd s) \<and>
             cs = [XAdd (q_stream NewStream) [(''task'', raw')], XAck (q_stream NewStream) grp (m_ID m)])))"
  proof (cases "map_of (m_Values m) ''task''")
    case None
    then show ?thesis using step by (simp add: StreamQueue_handle_def)
  next
    case (Some raw)
    show ?thesis
    proof (cases "Task_Unmarshal raw")
      case None
      then show ?thesis using step Some by (auto simp: StreamQueue_handle_def)
    next
      case un: (Some t)
      obtain hs log where s: "s = (hs, log)" by fastforce
      obtain err hs1 where h: "h hs (m_ID m) t = (err, hs1)" by fastforce
      show ?thesis
      proof (cases err)
        case None
        then have "cs = [XAck (q_stream NewStream) grp (m_ID m)]" "s' = (hs1, log @ [t])"
          using step Some un h by (simp_all add: StreamQueue_handle_def logging_def s Let_def)
        then show ?thesis using Some un by (simp add: s accepted_tasks_def task_key_def)
      next
        case err: (Some e)
        let ?t' = "t\<lparr> t_Attempt := incr64 (t_Attempt t) \<rparr>"
        have ok: "Task_ok t" by (rule Task_Unmarshal_ok [OF un])
        then have "Task_ok ?t'" by (simp add: Task_ok_def incr64_int64)
        then have m: "Task_Unmarshal (Task_Marshal ?t') = Some ?t'" by (rule Task_roundtrip)
        then have "incr64 (t_Attempt t) < sint mr \<Longrightarrow> task_weight (sint mr) (Task_Marshal ?t') < task_weight (sint mr) raw"
          using ok un retry_weight_decreases int64_sint by (simp add: task_weight_def Task_ok_def)
        moreover have "task_key (Task_Marshal ?t') = task_key raw" using m un by (simp add: task_key_def)
        moreover have "s' = (hs1, log)" "cs = (if incr64 (t_Attempt t) \<ge> sint mr then deadLetter NewStream grp (m_ID m) raw e
            else [XAdd (q_stream NewStream) [(''task'', Task_Marshal ?t')], XAck (q_stream NewStream) grp (m_ID m)])"
          using step Some un h err by (auto simp: StreamQueue_handle_def logging_def s Let_def split: if_splits)
        ultimately show ?thesis using Some by (auto simp: s)
      qed
    qed
  qed
qed

interpretation tool_queue: retry_consumer NewToolStream grp "ToolStreamQueue_handle jerr NewToolStream grp (sint (mr :: 64 word)) (logging h)"
  "tool_task_weight (sint mr)" tool_task_key "\<lambda>s. accepted_tools (snd s)"
proof unfold_locales
  show "0 < tool_task_weight (sint mr) raw" for raw
    by (simp add: tool_task_weight_def retry_weight_pos split: option.splits)
next
  fix s m cs s'
  assume step: "ToolStreamQueue_handle jerr NewToolStream grp (sint mr) (logging h) s m = (cs, s')"
  show "map_of (m_Values m) ''task'' = None \<and> cs = [XAck (q_stream NewToolStream) grp (m_ID m)] \<and> accepted_tools (snd s') = accepted_tools (snd s) \<or>
      (\<exists>raw. map_of (m_Values m) ''task'' = Some raw \<and>
         (cs = [XAck (q_stream NewToolStream) grp (m_ID m)] \<and> accepted_tools (snd s') = add_mset (tool_task_key raw) (accepted_tools (snd s)) \<or>
          (\<exists>e. cs = deadLetter NewToolStream grp (m_ID m) raw e \<and> accepted_tools (snd s') = accepted_tools (snd s)) \<or>
          (\<exists>raw'. tool_task_weight (sint mr) raw' < tool_task_weight (sint mr) raw \<and> tool_task_key raw' = tool_task_key raw \<and>
             accepted_tools (snd s') = accepted_tools (snd s) \<and>
             cs = [XAdd (q_stream NewToolStream) [(''task'', raw')], XAck (q_stream NewToolStream) grp (m_ID m)])))"
  proof (cases "map_of (m_Values m) ''task''")
    case None
    then show ?thesis using step by (simp add: ToolStreamQueue_handle_def)
  next
    case (Some raw)
    show ?thesis
    proof (cases "ToolTask_Unmarshal raw")
      case None
      then show ?thesis using step Some by (auto simp: ToolStreamQueue_handle_def)
    next
      case un: (Some t)
      obtain hs log where s: "s = (hs, log)" by fastforce
      obtain err hs1 where h: "h hs (m_ID m) t = (err, hs1)" by fastforce
      show ?thesis
      proof (cases err)
        case None
        then have "cs = [XAck (q_stream NewToolStream) grp (m_ID m)]" "s' = (hs1, log @ [t])"
          using step Some un h by (simp_all add: ToolStreamQueue_handle_def logging_def s Let_def)
        then show ?thesis using Some un by (simp add: s accepted_tools_def tool_task_key_def)
      next
        case err: (Some e)
        let ?t' = "t\<lparr> tt_Attempt := incr64 (tt_Attempt t) \<rparr>"
        have ok: "ToolTask_ok t" by (rule ToolTask_Unmarshal_ok [OF un])
        then have "ToolTask_ok ?t'" by (simp add: ToolTask_ok_def incr64_int64)
        then have m: "ToolTask_Unmarshal (ToolTask_Marshal ?t') = Some ?t'" by (rule ToolTask_roundtrip)
        then have "incr64 (tt_Attempt t) < sint mr \<Longrightarrow> tool_task_weight (sint mr) (ToolTask_Marshal ?t') < tool_task_weight (sint mr) raw"
          using ok un retry_weight_decreases int64_sint by (simp add: tool_task_weight_def ToolTask_ok_def)
        moreover have "tool_task_key (ToolTask_Marshal ?t') = tool_task_key raw" using m un by (simp add: tool_task_key_def)
        moreover have "s' = (hs1, log)" "cs = (if incr64 (tt_Attempt t) \<ge> sint mr then deadLetter NewToolStream grp (m_ID m) raw e
            else [XAdd (q_stream NewToolStream) [(''task'', ToolTask_Marshal ?t')], XAck (q_stream NewToolStream) grp (m_ID m)])"
          using step Some un h err by (auto simp: ToolStreamQueue_handle_def logging_def s Let_def split: if_splits)
        ultimately show ?thesis using Some by (auto simp: s)
      qed
    qed
  qed
qed

section \<open>Properties\<close>

text \<open>A handler that always fails accepts nothing.\<close>

lemma failing_step:
  assumes "\<forall>hs i t. fst (h hs i t) \<noteq> None" "StreamQueue_handle jerr q grp mr (logging h) (hs, log) m = (cs, s')"
  shows "snd s' = log"
proof -
  have "err \<noteq> None" if "h hs i t = (err, hs1)" for i t err hs1 using assms(1) that by (metis fst_conv)
  then show ?thesis using assms(2)
    by (fastforce simp: StreamQueue_handle_def logging_def Let_def split: option.splits prod.splits if_splits)
qed

lemma failing_rounds:
  assumes "\<forall>hs i t. fst (h hs i t) \<noteq> None"
    and "consume_rounds E q grp c (StreamQueue_handle jerr q grp mr (logging h)) n w (hs, log) = (r, w', s')"
  shows "snd s' = log"
  using assms(2)
proof (induction n arbitrary: w hs)
  case (Suc n)
  let ?step = "StreamQueue_handle jerr q grp mr (logging h)"
  have batch: "snd (snd (handle_batch E ?step w1 s1 ms)) = snd s1" for w1 s1 ms
  proof (induction ms arbitrary: w1 s1)
    case (Cons m ms)
    obtain cs s2 where st: "?step s1 m = (cs, s2)" by (metis surj_pair)
    then have "snd s2 = snd s1" using failing_step [OF assms(1), of jerr q grp mr "fst s1" "snd s1" m cs s2] by simp
    then show ?case using Cons.IH [of "foldl (exec_cmd E) w1 cs" s2] st by simp
  qed simp
  obtain x w1 s1 where x: "consume_round E q grp c ?step w (hs, log) = (x, w1, s1)" by (metis prod_cases3)
  then have s1: "snd s1 = log"
    using batch [of _ "(hs, log)"] by (auto simp: consume_round_def Let_def split: option.splits prod.splits read_result.splits) (metis snd_conv)+
  then obtain hs1 where "s1 = (hs1, log)" by (cases s1) simp
  then show ?case using Suc x s1 by (cases x) auto
qed auto

text \<open>Every task, event, tool task and tool result survives the trip over Redis: what the
  receiver decodes from the published JSON text is what the sender encoded, whatever
  fields omitempty dropped.\<close>

theorem queue_codecs_roundtrip:
  "(Task_ok t \<longrightarrow> Task_Unmarshal (Task_Marshal t) = Some t) \<and>
   (Event_ok e \<longrightarrow> Event_Unmarshal (Event_Marshal e) = Some e) \<and>
   (ToolTask_ok tt \<longrightarrow> ToolTask_Unmarshal (ToolTask_Marshal tt) = Some tt) \<and>
   (ToolResultEvent_ok tr \<longrightarrow> ToolResultEvent_Unmarshal (ToolResultEvent_Marshal tr) = Some tr)"
  by (simp add: Task_roundtrip Event_roundtrip ToolTask_roundtrip ToolResultEvent_roundtrip)

definition sample_task :: Task where
  "sample_task = \<lparr> t_RunID = ''r1'', t_UserID = ''u'', t_AgentID = [], t_Prompt = [quote, CHR 0x0A, CHR ''<''],
     t_Model = [], t_SystemPrompt = ''s'', t_TraceID = ''t'', t_Attempt = -3 \<rparr>"

definition sample_tool_task :: ToolTask where
  "sample_tool_task = \<lparr> tt_CallID = ''c'', tt_UserID = [], tt_Tool = ''bash'', tt_ArgsJSON = ''{}'',
     tt_TimeoutMS = 0, tt_TraceID = [], tt_Attempt = 0 \<rparr>"

theorem queue_codecs_roundtrip_witness:
  "Task_Unmarshal (Task_Marshal sample_task) = Some sample_task"
proof -
  have "Task_ok sample_task"
    by (simp add: sample_task_def Task_ok_def int64_def ValidString_ascii ord_def)
  then show ?thesis
    using queue_codecs_roundtrip [of sample_task zero_event sample_tool_task zero_result] by blast
qed

text \<open>The attempt of an entry's task, if it has one, has not been made negative or driven to the end of int64.\<close>

definition fresh_attempt :: "Message \<Rightarrow> bool" where
  "fresh_attempt m = (case Option.bind (map_of (m_Values m) ''task'') Task_Unmarshal of
      None \<Rightarrow> True | Some t \<Rightarrow> 0 \<le> t_Attempt t \<and> t_Attempt t < 2 ^ 63 - 1)"

lemma fresh_weight: "fresh_attempt m \<Longrightarrow> task_queue.msg_weight (mr :: 64 word) m \<le> max 1 (nat (sint mr))"
  by (auto simp: fresh_attempt_def task_queue.msg_weight_def task_weight_def retry_weight_def split: option.splits)

lemma fresh_total: "\<forall>m\<in>set ms. fresh_attempt m \<Longrightarrow> task_queue.total (mr :: 64 word) ms \<le> length ms * max 1 (nat (sint mr))"
proof (induction ms)
  case (Cons m ms)
  have "task_queue.msg_weight mr m \<le> max 1 (nat (sint mr))" using Cons.prems by (intro fresh_weight) simp
  moreover have "task_queue.total mr ms \<le> length ms * max 1 (nat (sint mr))" using Cons by simp
  ultimately show ?case by simp
qed simp

lemma task_maxRetry_word: "\<exists>w :: 64 word. task_maxRetry (sint (mr :: 64 word)) = sint w \<and> 0 < sint w"
  by (cases "sint mr \<le> 0") (auto simp: task_maxRetry_def intro: exI [of _ 3] exI [of _ mr])

text \<open>C15: The task consumer neither loses nor doubles a task, and drains its stream. After any number of rounds, whatever commands have
  failed, the tasks still waiting, those in the dead letter stream and those the handler has accepted are among the tasks there were, each no
  more often than it was there; if no XADD and no read failed they are exactly these, so that a handler that always fails sends every task to the
  dead letter stream exactly once. If the reads succeed and the context is not cancelled, finitely many rounds empty the stream, at most
  the retry limit for each entry with an ordinary attempt count; if the acknowledgements succeed too, nothing stays unacknowledged.
  (Tasks are compared without their attempt. Redis behaves as stream_service says, which has the failing commands.)\<close>

theorem StreamQueue_drains:
  assumes "stream_service E NewStream grp entries pending dead"
  shows "(\<forall>n r w' hs' log. StreamQueue_Consume jerr NewStream E grp consumer (sint (mr :: 64 word)) (logging h) n w (hs, []) = (r, w', (hs', log)) \<longrightarrow>
      tasks_in task_key (map m_Values (entries w')) + tasks_in task_key (dead w') + accepted_tasks log
        \<subseteq># tasks_in task_key (map m_Values (entries w)) + tasks_in task_key (dead w) \<and>
      (adds_up E \<and> reads_up E \<longrightarrow> tasks_in task_key (map m_Values (entries w')) + tasks_in task_key (dead w') + accepted_tasks log
        = tasks_in task_key (map m_Values (entries w)) + tasks_in task_key (dead w)) \<and>
      (reads_up E \<and> acks_up E \<longrightarrow> pending w' \<subseteq> pending w) \<and>
      ((\<forall>hs i t. fst (h hs i t) \<noteq> None) \<longrightarrow> log = [])) \<and>
    (\<exists>N. ((\<forall>m\<in>set (entries w). fresh_attempt m) \<longrightarrow> N \<le> length (entries w) * nat (task_maxRetry (sint mr))) \<and>
      (reads_up E \<and> (\<forall>w. qe_Err E w = None) \<longrightarrow>
        (\<forall>n\<ge>N. \<exists>w' s'. StreamQueue_Consume jerr NewStream E grp consumer (sint mr) (logging h) n w (hs, []) = (None, w', s') \<and> entries w' = [])))"
proof -
  obtain v :: "64 word" where v: "task_maxRetry (sint mr) = sint v" "0 < sint v" using task_maxRetry_word by blast
  let ?step = "StreamQueue_handle jerr NewStream grp (sint v) (logging h)"
  have run: "StreamQueue_Consume jerr NewStream E grp consumer (sint mr) (logging h) n w (hs, []) =
      consume_rounds E NewStream grp consumer ?step n w (hs, [])" for n by (simp add: StreamQueue_Consume_def v)
  have a: "accepted_tasks [] = {#}" by (simp add: accepted_tasks_def)
  show ?thesis unfolding run
  proof (intro conjI allI impI)
    fix n r w' hs' log
    assume r: "consume_rounds E NewStream grp consumer ?step n w (hs, []) = (r, w', (hs', log))"
    note o = task_queue.rounds [OF assms r, unfolded task_queue.open_tasks_def snd_conv a]
    show "tasks_in task_key (map m_Values (entries w')) + tasks_in task_key (dead w') + accepted_tasks log
        \<subseteq># tasks_in task_key (map m_Values (entries w)) + tasks_in task_key (dead w)" using o by simp
    show "tasks_in task_key (map m_Values (entries w')) + tasks_in task_key (dead w') + accepted_tasks log
        = tasks_in task_key (map m_Values (entries w)) + tasks_in task_key (dead w)" if "adds_up E \<and> reads_up E" using o that by simp
    show "pending w' \<subseteq> pending w" if "reads_up E \<and> acks_up E" using o that by blast
    show "log = []" if "\<forall>hs i t. fst (h hs i t) \<noteq> None" using failing_rounds [OF that r] by simp
  next
    let ?N = "task_queue.total v (entries w)"
    have "?N \<le> length (entries w) * nat (sint v)" if "\<forall>m\<in>set (entries w). fresh_attempt m"
    proof -
      have "max 1 (nat (sint v)) = nat (sint v)" using v(2) by simp
      then show ?thesis using fresh_total [OF that, of v] by simp
    qed
    moreover have "\<exists>w' s'. consume_rounds E NewStream grp consumer ?step n w (hs, []) = (None, w', s') \<and> entries w' = []"
      if "reads_up E \<and> (\<forall>w. qe_Err E w = None)" "?N \<le> n" for n
    proof -
      obtain r w' s' where x: "consume_rounds E NewStream grp consumer ?step n w (hs, []) = (r, w', s')" by (metis prod_cases3)
      from task_queue.drained [OF assms _ _ that(2) x] that(1) x show ?thesis by auto
    qed
    ultimately show "\<exists>N. ((\<forall>m\<in>set (entries w). fresh_attempt m) \<longrightarrow> N \<le> length (entries w) * nat (task_maxRetry (sint mr))) \<and>
      (reads_up E \<and> (\<forall>w. qe_Err E w = None) \<longrightarrow>
        (\<forall>n\<ge>N. \<exists>w' s'. consume_rounds E NewStream grp consumer ?step n w (hs, []) = (None, w', s') \<and> entries w' = []))"
      unfolding v by blast
  qed
qed

text \<open>A Redis in memory whose commands succeed, but for XADD if down.\<close>

record Stream =
  s_entries :: "Message list"
  s_pending :: "string set"
  s_dead :: "fieldvals list"
  s_next :: nat

definition mem_queue :: "bool \<Rightarrow> Stream QueueEnv" where
  "mem_queue down = \<lparr> qe_Err = (\<lambda>s. None),
     qe_XReadGroup = (\<lambda>s k g c. case s_entries s of [] \<Rightarrow> (ReadNil, s)
       | m # ms \<Rightarrow> (Batch [m], s\<lparr> s_entries := ms, s_pending := insert (m_ID m) (s_pending s) \<rparr>)),
     qe_XAdd = (\<lambda>s k v. if down then (Some ''refused'', s)
       else if k = QueueTasks then (None, s\<lparr> s_entries := s_entries s @ [\<lparr> m_ID = digits (s_next s), m_Values = v \<rparr>], s_next := s_next s + 1 \<rparr>)
       else (None, s\<lparr> s_dead := s_dead s @ [v] \<rparr>)),
     qe_XAck = (\<lambda>s k g i. (None, s\<lparr> s_pending := s_pending s - {i} \<rparr>)), qe_pause = id \<rparr>"

lemma mem_queue_service: "stream_service (mem_queue down) NewStream grp s_entries s_pending s_dead"
  by (auto simp: stream_service_def mem_queue_def NewStream_def QueueTasks_def QueueTasksDLQ_def split: list.split)

definition sample_stream :: Stream where
  "sample_stream = \<lparr> s_entries = [\<lparr> m_ID = ''1-0'', m_Values = [(''task'', Task_Marshal sample_task)] \<rparr>],
     s_pending = {}, s_dead = [], s_next = 7 \<rparr>"

text \<open>A task whose handler always fails ends in the dead letter stream once, all acknowledged.\<close>

theorem StreamQueue_drains_witness:
  "\<exists>n w' s'. StreamQueue_Consume (\<lambda>_. ''bad json'') NewStream (mem_queue False) ''workers'' ''c'' (sint (5 :: 64 word))
      (logging (\<lambda>n _ _. (Some ''boom'', Suc n))) n sample_stream (0 :: nat, []) = (None, w', s') \<and>
     s_entries w' = [] \<and> s_pending w' = {} \<and> tasks_in task_key (s_dead w') = {# Inr (sample_task\<lparr> t_Attempt := 0 \<rparr>) #}"
proof -
  let ?h = "\<lambda>n _ _. (Some ''boom'', Suc n) :: string option \<times> nat"
  let ?run = "\<lambda>n. StreamQueue_Consume (\<lambda>_. ''bad json'') NewStream (mem_queue False) ''workers'' ''c'' (sint (5 :: 64 word)) (logging ?h) n sample_stream (0, [])"
  have up: "adds_up (mem_queue False)" "acks_up (mem_queue False)" "reads_up (mem_queue False)" "\<forall>w. qe_Err (mem_queue False) w = None"
    by (auto simp: adds_up_def acks_up_def reads_up_def mem_queue_def split: list.split)
  have "Task_ok sample_task" by (simp add: sample_task_def Task_ok_def int64_def ValidString_ascii ord_def)
  then have k: "tasks_in task_key (map m_Values (s_entries sample_stream)) = {# Inr (sample_task\<lparr> t_Attempt := 0 \<rparr>) #}"
    "tasks_in task_key (s_dead sample_stream) = {#}" "s_pending sample_stream = {}"
    by (simp_all add: sample_stream_def task_key_def Task_roundtrip)
  note d = StreamQueue_drains [where jerr = "\<lambda>_. ''bad json''" and grp = "''workers''" and consumer = "''c''" and mr = 5 and h = ?h and w = sample_stream and hs = 0,
      OF mem_queue_service [of False]]
  obtain n w' s' where r: "?run n = (None, w', s')" "s_entries w' = []" using conjunct2 [OF d] up(3,4) by blast
  obtain hs' log where s': "s' = (hs', log)" by fastforce
  from conjunct1 [OF d, rule_format, OF r(1) [unfolded s']] up k
  have "log = []" "tasks_in task_key (map m_Values (s_entries w')) + tasks_in task_key (s_dead w') + accepted_tasks log =
      {# Inr (sample_task\<lparr> t_Attempt := 0 \<rparr>) #}" "s_pending w' = {}" by auto
  then show ?thesis using r by (intro exI [of _ n] exI [of _ w'] exI [of _ s']) (simp add: accepted_tasks_def)
qed

text \<open>When Redis refuses the XADD of the retry the old entry is acknowledged all the same: after one round the task is neither in the
  stream, nor pending, nor in the dead letter stream, nor accepted.\<close>

theorem refused_retry_loses_task:
  "StreamQueue_Consume (\<lambda>_. ''bad json'') NewStream (mem_queue True) ''workers'' ''c'' 5
     (logging (\<lambda>n _ _. (Some ''boom'', Suc n))) 1 sample_stream (0 :: nat, []) = (None, sample_stream\<lparr> s_entries := [] \<rparr>, (1, []))"
proof -
  have "Task_ok sample_task" by (simp add: sample_task_def Task_ok_def int64_def ValidString_ascii ord_def)
  then have t: "Task_Unmarshal (Task_Marshal sample_task) = Some sample_task" by (rule Task_roundtrip)
  have a: "incr64 (t_Attempt sample_task) = - 2" by (simp add: sample_task_def incr64_def)
  show ?thesis
    by (simp add: StreamQueue_Consume_def consume_round_def mem_queue_def sample_stream_def StreamQueue_handle_def t a task_maxRetry_def logging_def
        exec_cmd_def Let_def)
qed

end
