(* ===== verification/GoText.thy ===== *)
theory GoText
  imports GoJson
begin

text \<open>
  More of the Go standard library used by several components: strconv.Quote (the q verb of fmt),
  the unicode tables above ASCII as a parameter, and how runes behave under concatenation and trimming.
\<close>

section \<open>Unicode tables\<close>

text \<open>Above ASCII: unicode.ToLower, letter-or-digit, and strconv.IsPrint.\<close>

record Unicode =
  uc_lower :: "nat \<Rightarrow> nat"
  uc_alnum :: "nat \<Rightarrow> bool"
  uc_print :: "nat \<Rightarrow> bool"

definition ascii_unicode :: Unicode where
  "ascii_unicode = \<lparr> uc_lower = (\<lambda>r. r), uc_alnum = (\<lambda>r. False), uc_print = (\<lambda>r. False) \<rparr>"

section \<open>Quoting\<close>

definition hexn :: "nat \<Rightarrow> nat \<Rightarrow> string" where
  "hexn k n = map (\<lambda>i. hex_digit (n div 16 ^ (k - 1 - i) mod 16)) [0..<k]"

definition quote_rune :: "Unicode \<Rightarrow> nat \<times> string \<Rightarrow> string" where
  "quote_rune U seg = (let (r, b) = seg in
     if r = RuneError \<and> length b = 1 then [backslash, CHR ''x''] @ hexn 2 (ord (hd b))
     else if r = ord quote \<or> r = ord backslash then backslash # b
     else if (if r < 0x80 then 0x20 \<le> r \<and> r \<le> 0x7E else uc_print U r) then b
     else if r = 7 then [backslash, CHR ''a'']
     else if r = 8 then [backslash, CHR ''b'']
     else if r = 12 then [backslash, CHR ''f'']
     else if r = 10 then [backslash, CHR ''n'']
     else if r = 13 then [backslash, CHR ''r'']
     else if r = 9 then [backslash, CHR ''t'']
     else if r = 11 then [backslash, CHR ''v'']
     else if r < 0x20 \<or> r = 0x7F then [backslash, CHR ''x''] @ hexn 2 r
     else if r < 0x10000 then [backslash, CHR ''u''] @ hexn 4 r
     else [backslash, CHR ''U''] @ hexn 8 r)"

definition Quote :: "Unicode \<Rightarrow> string \<Rightarrow> string" where
  "Quote U s = quote # concat (map (quote_rune U) (segs s)) @ [quote]"

section \<open>Integer square root\<close>

fun isqrt :: "nat \<Rightarrow> nat" where
  "isqrt n = (if n = 0 then 0
     else let r = 2 * isqrt (n div 4) in if (r + 1) * (r + 1) \<le> n then r + 1 else r)"

declare isqrt.simps [simp del]

lemma isqrt_bounds: "isqrt n * isqrt n \<le> n \<and> n < (isqrt n + 1) * (isqrt n + 1)"
proof (induction n rule: isqrt.induct)
  case (1 n)
  show ?case
  proof (cases "n = 0")
    case True
    then show ?thesis by (simp add: isqrt.simps)
  next
    case False
    define m where "m = isqrt (n div 4)"
    have ih: "m * m \<le> n div 4" "n div 4 < (m + 1) * (m + 1)" using 1 [OF False] by (simp_all add: m_def)
    have lo: "(2 * m) * (2 * m) \<le> n" using ih(1) by simp
    have "n div 4 + 1 \<le> (m + 1) * (m + 1)" using ih(2) by simp
    then have "4 * (n div 4 + 1) \<le> 4 * ((m + 1) * (m + 1))" by (rule mult_le_mono2)
    moreover have "n < 4 * (n div 4 + 1)" by simp
    ultimately have "n < 4 * ((m + 1) * (m + 1))" by (rule less_le_trans [rotated])
    moreover have "4 * ((m + 1) * (m + 1)) = (2 * m + 1 + 1) * (2 * m + 1 + 1)" by (simp add: algebra_simps)
    ultimately have hi: "n < (2 * m + 1 + 1) * (2 * m + 1 + 1)" by simp
    show ?thesis
    proof (cases "(2 * m + 1) * (2 * m + 1) \<le> n")
      case True
      then show ?thesis using False hi by (subst (1 2 3 4) isqrt.simps) (simp add: Let_def flip: m_def)
    next
      case False2: False
      then show ?thesis using False lo by (subst (1 2 3 4) isqrt.simps) (simp add: Let_def flip: m_def)
    qed
  qed
qed

section \<open>Runes of concatenations\<close>

lemma DecodeRune_append:
  assumes "DecodeRune s = (r, w)" "s \<noteq> []" "\<not> (r = RuneError \<and> w = 1)"
  shows "DecodeRune (s @ t) = (r, w)"
proof -
  have "DecodeRune (take w s @ (drop w s @ t)) = (r, w)" using DecodeRune_cases [OF assms] by blast
  then show ?thesis by (simp only: append_assoc [symmetric] append_take_drop_id)
qed

lemma DecodeRune_prefix:
  assumes "DecodeRune (a @ b) = (r, w)" "a \<noteq> []" "w \<le> length a"
  shows "DecodeRune a = (r, w)"
proof (cases "r = RuneError \<and> w = 1")
  case True
  obtain r' w' where d: "DecodeRune a = (r', w')" by (cases "DecodeRune a")
  have "r' = RuneError \<and> w' = 1"
  proof (rule ccontr)
    assume n: "\<not> (r' = RuneError \<and> w' = 1)"
    from DecodeRune_append [OF d assms(2) n, of b] assms(1) True n show False by simp
  qed
  then show ?thesis using d True by simp
next
  case False
  have "DecodeRune (take w (a @ b) @ drop w a) = (r, w)"
    using DecodeRune_cases [OF assms(1) _ False] assms(2) by simp
  then show ?thesis using assms(3) by simp
qed

lemma rune_width_fst_snd: "DecodeRune s = (fst (DecodeRune s), rune_width s)"
  by (simp add: rune_width_def)

text \<open>Cutting a string at a segment boundary keeps the segments before the cut.\<close>

lemma segs_prefix:
  "segs (a @ b) = xs @ ys \<Longrightarrow> concat (map snd xs) = a \<Longrightarrow> segs a = xs"
proof (induction xs arbitrary: a)
  case (Cons x xs)
  have nb: "a @ b \<noteq> []" using Cons.prems(1) by auto
  from Cons.prems(1) segs_Cons [OF nb]
  have x: "x = (fst (DecodeRune (a @ b)), take (rune_width (a @ b)) (a @ b))"
    and r: "segs (drop (rune_width (a @ b)) (a @ b)) = xs @ ys" by simp_all
  let ?w = "rune_width (a @ b)"
  have w: "1 \<le> ?w" "?w \<le> length (a @ b)" using rune_width_bounds [OF nb] by simp_all
  have a: "a = take ?w (a @ b) @ concat (map snd xs)" using Cons.prems(2) by (simp add: x)
  have lw: "length (take ?w (a @ b)) = ?w" using w by simp
  have la: "?w \<le> length a" using arg_cong [OF a, of length] unfolding length_append lw by linarith
  have ne: "a \<noteq> []" using la w by auto
  have d: "DecodeRune a = (fst (DecodeRune (a @ b)), ?w)"
    by (rule DecodeRune_prefix [OF rune_width_fst_snd ne la])
  then have wa: "rune_width a = ?w" by (simp add: rune_width_def)
  have da: "drop ?w a = concat (map snd xs)" using arg_cong [OF a, of "drop ?w"] lw la by simp
  have "segs (drop ?w a @ b) = xs @ ys" using r la by simp
  from Cons.IH [OF this da [symmetric]] have "segs (drop ?w a) = xs" .
  then show ?case using segs_Cons [OF ne] d wa x la by simp
qed simp

lemma segs_suffix: "segs s = xs @ ys \<Longrightarrow> segs (concat (map snd ys)) = ys"
proof (induction xs arbitrary: s)
  case Nil
  then show ?case using concat_segs [of s] by simp
next
  case (Cons x xs)
  then have "s \<noteq> []" by auto
  with Cons.prems segs_Cons [OF this] have "segs (drop (rune_width s) s) = xs @ ys" by simp
  from Cons.IH [OF this] show ?case .
qed

definition trim_segs :: "(nat \<times> string) list \<Rightarrow> (nat \<times> string) list" where
  "trim_segs ss = rev (dropWhile (IsSpace \<circ> fst) (rev (dropWhile (IsSpace \<circ> fst) ss)))"

lemma trim_segs_rest: "\<exists>ys. dropWhile (IsSpace \<circ> fst) ss = trim_segs ss @ ys"
proof -
  let ?d = "dropWhile (IsSpace \<circ> fst) ss"
  have "rev (takeWhile (IsSpace \<circ> fst) (rev ?d) @ dropWhile (IsSpace \<circ> fst) (rev ?d)) = ?d"
    by (simp only: takeWhile_dropWhile_id rev_rev_ident)
  then show ?thesis unfolding trim_segs_def rev_append by (intro exI) (rule sym)
qed

lemma split_middle: "a = x @ d \<Longrightarrow> d = m @ y \<Longrightarrow> \<exists>xs ys. a = xs @ m @ ys"
  by blast

lemma trim_segs_split: "\<exists>xs ys. ss = xs @ trim_segs ss @ ys"
proof -
  obtain ys where d: "dropWhile (IsSpace \<circ> fst) ss = trim_segs ss @ ys" using trim_segs_rest by blast
  show ?thesis by (rule split_middle [OF takeWhile_dropWhile_id [symmetric] d])
qed

lemma segs_TrimSpace: "segs (TrimSpace s) = trim_segs (segs s)"
proof -
  obtain xs ys where s: "segs s = xs @ trim_segs (segs s) @ ys" using trim_segs_split by blast
  have "segs (concat (map snd (trim_segs (segs s) @ ys))) = trim_segs (segs s) @ ys"
    by (rule segs_suffix [OF s])
  then have "segs (concat (map snd (trim_segs (segs s))) @ concat (map snd ys)) = trim_segs (segs s) @ ys"
    by (simp only: map_append concat_append)
  then have "segs (concat (map snd (trim_segs (segs s)))) = trim_segs (segs s)"
    by (rule segs_prefix) (rule refl)
  then show ?thesis by (simp add: TrimSpace_def trim_segs_def)
qed

lemma trim_segs_length: "length (trim_segs ss) \<le> length ss"
  unfolding trim_segs_def using length_dropWhile_le le_trans by (metis length_rev)

lemma runes_TrimSpace_length: "length (runes (TrimSpace s)) \<le> length (runes s)"
  by (simp add: runes_def segs_TrimSpace trim_segs_length)

text \<open>A trimmed string is empty or starts with a rune that is not white space.\<close>

lemma trim_segs_hd: "trim_segs ss \<noteq> [] \<Longrightarrow> \<not> IsSpace (fst (hd (trim_segs ss)))"
proof -
  let ?d = "dropWhile (IsSpace \<circ> fst) ss"
  assume ne: "trim_segs ss \<noteq> []"
  obtain ys where d: "?d = trim_segs ss @ ys" using trim_segs_rest by blast
  have hd: "hd ?d = hd (trim_segs ss)" unfolding d by (rule hd_append2 [OF ne])
  have "?d \<noteq> []" unfolding d using ne by (simp only: append_is_Nil_conv simp_thms)
  from hd_dropWhile [OF this] show ?thesis by (simp add: hd)
qed

lemma trim_segs_empty_iff: "trim_segs ss = [] \<longleftrightarrow> (\<forall>x\<in>set ss. IsSpace (fst x))"
proof -
  have d: "(dropWhile (IsSpace \<circ> fst) ss = []) = (\<forall>x\<in>set ss. IsSpace (fst x))" by simp
  have "trim_segs ss = [] \<longleftrightarrow> (\<forall>x\<in>set (dropWhile (IsSpace \<circ> fst) ss). IsSpace (fst x))"
    by (simp add: trim_segs_def)
  also have "\<dots> \<longleftrightarrow> dropWhile (IsSpace \<circ> fst) ss = []"
    by (metis (no_types, lifting) comp_apply dropWhile_eq_Nil_conv hd_dropWhile hd_in_set list.set(1) empty_iff)
  finally show ?thesis using d by simp
qed

lemma TrimSpace_empty_iff: "TrimSpace s = [] \<longleftrightarrow> (\<forall>x\<in>set (segs s). IsSpace (fst x))"
proof -
  have "TrimSpace s = [] \<longleftrightarrow> segs (TrimSpace s) = []" by (metis segs_Cons segs_Nil list.discI)
  then show ?thesis by (simp add: segs_TrimSpace trim_segs_empty_iff)
qed

text \<open>An ASCII byte starts a new segment, whatever comes before it.\<close>

lemma cont_not_ascii: "ord c < 0x80 \<Longrightarrow> \<not> cont (ord c)"
  by (simp add: cont_def)

lemma DecodeRune_boundary:
  assumes "a \<noteq> []" "ord c < 0x80"
  shows "DecodeRune (a @ c # b) = DecodeRune a"
proof -
  have n: "\<not> cont (ord c)" "\<not> second_ok x (ord c)" for x
    using assms(2) by (auto simp: cont_def second_ok_def)
  obtain x a' where a: "a = x # a'" using assms(1) by (cases a) auto
  consider "a' = []" | y where "a' = [y]" | y z where "a' = [y, z]" | y z u r where "a' = y # z # u # r"
    by (metis list.exhaust)
  then show ?thesis
    by cases (auto simp: a DecodeRune_def Let_def n split: list.splits)
qed

lemma segs_boundary:
  "ord c < 0x80 \<Longrightarrow> segs (a @ c # b) = segs a @ segs (c # b)"
proof (induction a rule: segs.induct)
  case (1 a)
  show ?case
  proof (cases "a = []")
    case False
    have d: "DecodeRune (a @ c # b) = DecodeRune a" by (rule DecodeRune_boundary [OF False 1(2)])
    then have w: "rune_width (a @ c # b) = rune_width a" by (simp add: rune_width_def)
    have "rune_width a \<le> length a" using rune_width_bounds [OF False] by simp
    with 1(1) [OF False 1(2)] show ?thesis
      using segs_Cons [of "a @ c # b"] segs_Cons [OF False] by (simp add: d w)
  qed simp
qed

lemma runes_boundary:
  "ord c < 0x80 \<Longrightarrow> runes (a @ c # b) = runes a @ ord c # runes b"
  by (simp add: runes_def segs_boundary segs_ascii)

lemma segs_EncodeRune: "\<exists>r'. segs (EncodeRune r @ X) = (r', EncodeRune r) # segs X"
proof -
  obtain q where q: "scalar q" "EncodeRune r = EncodeRune q"
    using scalar_RuneError EncodeRune_not_scalar by metis
  have d: "DecodeRune (EncodeRune q @ X) = (q, length (EncodeRune q))" by (rule DecodeRune_EncodeRune [OF q(1)])
  have "segs (EncodeRune q @ X) = (q, EncodeRune q) # segs X"
    using segs_Cons [of "EncodeRune q @ X"] d by (simp add: rune_width_def)
  then show ?thesis using q(2) by auto
qed

lemma length_runes_of_runes: "length (runes (of_runes rs)) = length rs"
proof (induction rs)
  case (Cons r rs)
  obtain r' where "segs (EncodeRune r @ of_runes rs) = (r', EncodeRune r) # segs (of_runes rs)"
    using segs_EncodeRune by blast
  then show ?case using Cons by (simp add: runes_def of_runes_def)
qed (simp add: runes_def of_runes_def)

section \<open>Evaluation on ASCII literals\<close>

lemma ToLower_id:
  "list_all (\<lambda>c. ord c < 0x80 \<and> \<not> (65 \<le> ord c \<and> ord c \<le> 90)) s \<Longrightarrow> ToLower l s = s"
proof (induction s)
  case Nil
  then show ?case by (simp add: ToLower_def runes_def of_runes_def)
next
  case (Cons c s)
  then have "EncodeRune (lower_ascii (ord c)) = [c]" by (auto simp: lower_ascii_def EncodeRune_def)
  with Cons show ?case by (auto simp: ToLower_def runes_def of_runes_def segs_ascii)
qed

lemmas text_eval = TrimSpace_def segs_ascii IsSpace_def ord_def TrimPrefix_def TrimSuffix_def HasPrefix_def HasSuffix_def
  Split_def Cut_def Trim_def TrimLeft_def TrimRight_def ToLower_id Contains_def Fields_def FieldsFunc_def

end
