(* ===== verification/GoFloat.thy ===== *)
theory GoFloat
  imports GoText Complex_Main
begin

text \<open>
  IEEE binary floating point on finite values, as the retrieval scores use it.
\<close>

section \<open>Floating point\<close>

text \<open>Finite IEEE values are rationals; each operation rounds the exact result to nearest, ties to
  even, with p bits of precision and least exponent emin. Overflow to infinity is not modelled.\<close>

definition round_even :: "rat \<Rightarrow> int" where
  "round_even x = (let f = \<lfloor>x\<rfloor>; d = x - of_int f in
     if d < 1 / 2 then f else if d > 1 / 2 then f + 1 else if even f then f else f + 1)"

fun bitlen :: "nat \<Rightarrow> nat" where
  "bitlen n = (if n = 0 then 0 else Suc (bitlen (n div 2)))"

declare bitlen.simps [simp del]

definition pow2 :: "int \<Rightarrow> rat" where
  "pow2 e = (if 0 \<le> e then 2 ^ nat e else 1 / 2 ^ nat (- e))"

definition ilog2 :: "rat \<Rightarrow> int" where
  "ilog2 x = (let (p, q) = quotient_of x; e = int (bitlen (nat p)) - int (bitlen (nat q))
     in if x \<ge> pow2 e then e else e - 1)"

definition round_to :: "int \<Rightarrow> int \<Rightarrow> rat \<Rightarrow> rat" where
  "round_to p emin x =
     (if x = 0 then 0
      else let e = max (ilog2 \<bar>x\<bar> - (p - 1)) emin in of_int (round_even (x / pow2 e)) * pow2 e)"

definition f64 :: "rat \<Rightarrow> rat" where "f64 = round_to 53 (- 1074)"
definition f32 :: "rat \<Rightarrow> rat" where "f32 = round_to 24 (- 149)"

text \<open>math.Sqrt for x at least 1: sixty fractional bits and a sticky half below them decide the
  rounding.\<close>

definition sqrt64 :: "rat \<Rightarrow> rat" where
  "sqrt64 x = (let y = x * 4 ^ 60; m = isqrt (nat \<lfloor>y\<rfloor>) in
     f64 ((if of_nat (m * m) = y then of_nat m else of_nat m + 1 / 2) / 2 ^ 60))"

text \<open>fmt's verb .4f: the exact value rounded to four decimals, ties to even.\<close>

definition fmt4 :: "rat \<Rightarrow> string" where
  "fmt4 x = (let n = nat (round_even (\<bar>x\<bar> * 10000)); d = n mod 10000 in
     (if x < 0 then ''-'' else []) @ digits (n div 10000) @ ''.'' @
     map (\<lambda>i. chr (48 + d div 10 ^ (3 - i) mod 10)) [0..<4])"

end
