(* ===== verification/Acp.thy ===== *)
theory Acp
  imports AcpFrame GoJson GoFloat
begin

text \<open>
  The ACP endpoints: the control payloads (pkg/acp/control.go), the event messages of pkg/proto/agent.proto, the Redis
  event cache (internal/acp/eventcache.go), the server session with its writer goroutine (session.go, server.go) and the
  client (client.go). The connection, Redis, the id generator, the clock and the protobuf encoding work on a world of type
  'w; what the peer has sent is a list of bytes that ends with end of file.
\<close>

section \<open>Strings and bytes\<close>

definition to_bytes :: "string \<Rightarrow> byte list" where "to_bytes s = map (\<lambda>c. word_of_nat (ord c)) s"
definition of_bytes :: "byte list \<Rightarrow> string" where "of_bytes bs = map (\<lambda>b. chr (unat b)) bs"

lemma of_to_bytes [simp]: "of_bytes (to_bytes s) = s"
proof -
  have "unat (word_of_nat (ord c) :: byte) = ord c" for c
    using ord_less [of c] by (simp add: unat_of_nat)
  then show ?thesis by (simp add: of_bytes_def to_bytes_def chr_def ord_def map_idI)
qed

lemma length_to_bytes [simp]: "length (to_bytes s) = length s" "length (of_bytes b) = length b"
  by (simp_all add: to_bytes_def of_bytes_def)

section \<open>Control payloads\<close>

record Hello =
  he_ClientVersion :: string
  he_UserID :: string
  he_RunID :: string

record HelloAck =
  ha_ServerVersion :: string
  ha_RunID :: string
  ha_TraceID :: string
  ha_MaxFrameSize :: int

record Resume =
  rs_RunID :: string
  rs_LastSeq :: nat

record CloseMsg =
  cm_Code :: string
  cm_Message :: string

record ErrorPayload =
  ep_Code :: string
  ep_Message :: string
  ep_Retriable :: bool

definition Hello_fields :: "Hello \<Rightarrow> (string \<times> bool \<times> json) list" where
  "Hello_fields h = [
     (''client_version'', False, JStr (he_ClientVersion h)),
     (''user_id'', he_UserID h = [], JStr (he_UserID h)),
     (''run_id'', he_RunID h = [], JStr (he_RunID h))]"

definition Hello_json :: "Hello \<Rightarrow> json" where "Hello_json h = struct_obj (Hello_fields h)"

definition Hello_of :: "json \<Rightarrow> Hello option" where
  "Hello_of j = Option.bind (members j) (\<lambda>m.
     Option.bind (field dec_str m ''client_version'' []) (\<lambda>x0.
     Option.bind (field dec_str m ''user_id'' []) (\<lambda>x1.
     Option.bind (field dec_str m ''run_id'' []) (\<lambda>x2.
     Some \<lparr> he_ClientVersion = x0, he_UserID = x1, he_RunID = x2 \<rparr>))))"

definition Hello_Marshal :: "Hello \<Rightarrow> string" where "Hello_Marshal h = Marshal (Hello_json h)"
definition Hello_Unmarshal :: "string \<Rightarrow> Hello option" where
  "Hello_Unmarshal s = Option.bind (json_parse s) Hello_of"

definition Hello_ok :: "Hello \<Rightarrow> bool" where
  "Hello_ok h = (ValidString (he_ClientVersion h) \<and>
     ValidString (he_UserID h) \<and>
     ValidString (he_RunID h))"

lemma Hello_tags: "tags_distinct (map fst (Hello_fields h))"
  by (simp add: Hello_fields_def tags_distinct_ascii upper_ascii_def ord_def)

lemma Hello_json_ok: "Hello_ok h \<Longrightarrow> json_ok (Hello_json h)"
  unfolding Hello_json_def by (rule json_ok_struct)
    (simp add: Hello_ok_def Hello_fields_def ValidString_ascii ord_def)

lemma Hello_names: "map fst (Hello_fields h) =
  [''client_version'', ''user_id'', ''run_id'']"
  by (simp add: Hello_fields_def)

lemma Hello_of_json: "Hello_ok h \<Longrightarrow> Hello_of (Hello_json h) = Some h"
  by (simp add: Hello_of_def Hello_json_def members_struct_obj field_struct [OF Hello_tags] Hello_names)
    (simp add: Hello_fields_def Hello_ok_def struct_get_rules)

lemma Hello_roundtrip: "Hello_ok h \<Longrightarrow> Hello_Unmarshal (Hello_Marshal h) = Some h"
  by (simp add: Hello_Unmarshal_def Hello_Marshal_def json_parse_Marshal Hello_json_ok Hello_of_json)

definition HelloAck_fields :: "HelloAck \<Rightarrow> (string \<times> bool \<times> json) list" where
  "HelloAck_fields a = [
     (''server_version'', False, JStr (ha_ServerVersion a)),
     (''run_id'', False, JStr (ha_RunID a)),
     (''trace_id'', False, JStr (ha_TraceID a)),
     (''max_frame_size'', False, enc_int (ha_MaxFrameSize a))]"

definition HelloAck_json :: "HelloAck \<Rightarrow> json" where "HelloAck_json a = struct_obj (HelloAck_fields a)"

definition HelloAck_of :: "json \<Rightarrow> HelloAck option" where
  "HelloAck_of j = Option.bind (members j) (\<lambda>m.
     Option.bind (field dec_str m ''server_version'' []) (\<lambda>x0.
     Option.bind (field dec_str m ''run_id'' []) (\<lambda>x1.
     Option.bind (field dec_str m ''trace_id'' []) (\<lambda>x2.
     Option.bind (field dec_int m ''max_frame_size'' 0) (\<lambda>x3.
     Some \<lparr> ha_ServerVersion = x0, ha_RunID = x1, ha_TraceID = x2, ha_MaxFrameSize = x3 \<rparr>)))))"

definition HelloAck_Marshal :: "HelloAck \<Rightarrow> string" where "HelloAck_Marshal a = Marshal (HelloAck_json a)"
definition HelloAck_Unmarshal :: "string \<Rightarrow> HelloAck option" where
  "HelloAck_Unmarshal s = Option.bind (json_parse s) HelloAck_of"

definition HelloAck_ok :: "HelloAck \<Rightarrow> bool" where
  "HelloAck_ok a = (ValidString (ha_ServerVersion a) \<and>
     ValidString (ha_RunID a) \<and>
     ValidString (ha_TraceID a) \<and>
     int64 (ha_MaxFrameSize a))"

lemma HelloAck_tags: "tags_distinct (map fst (HelloAck_fields a))"
  by (simp add: HelloAck_fields_def tags_distinct_ascii upper_ascii_def ord_def)

lemma HelloAck_json_ok: "HelloAck_ok a \<Longrightarrow> json_ok (HelloAck_json a)"
  unfolding HelloAck_json_def by (rule json_ok_struct)
    (simp add: HelloAck_ok_def HelloAck_fields_def ValidString_ascii ord_def)

lemma HelloAck_names: "map fst (HelloAck_fields a) =
  [''server_version'', ''run_id'', ''trace_id'', ''max_frame_size'']"
  by (simp add: HelloAck_fields_def)

lemma HelloAck_of_json: "HelloAck_ok a \<Longrightarrow> HelloAck_of (HelloAck_json a) = Some a"
  by (simp add: HelloAck_of_def HelloAck_json_def members_struct_obj field_struct [OF HelloAck_tags] HelloAck_names)
    (simp add: HelloAck_fields_def HelloAck_ok_def struct_get_rules)

lemma HelloAck_roundtrip: "HelloAck_ok a \<Longrightarrow> HelloAck_Unmarshal (HelloAck_Marshal a) = Some a"
  by (simp add: HelloAck_Unmarshal_def HelloAck_Marshal_def json_parse_Marshal HelloAck_json_ok HelloAck_of_json)

definition Resume_fields :: "Resume \<Rightarrow> (string \<times> bool \<times> json) list" where
  "Resume_fields r = [
     (''run_id'', False, JStr (rs_RunID r)),
     (''last_seq'', False, enc_nat (rs_LastSeq r))]"

definition Resume_json :: "Resume \<Rightarrow> json" where "Resume_json r = struct_obj (Resume_fields r)"

definition Resume_of :: "json \<Rightarrow> Resume option" where
  "Resume_of j = Option.bind (members j) (\<lambda>m.
     Option.bind (field dec_str m ''run_id'' []) (\<lambda>x0.
     Option.bind (field dec_uint m ''last_seq'' 0) (\<lambda>x1.
     Some \<lparr> rs_RunID = x0, rs_LastSeq = x1 \<rparr>)))"

definition Resume_Marshal :: "Resume \<Rightarrow> string" where "Resume_Marshal r = Marshal (Resume_json r)"
definition Resume_Unmarshal :: "string \<Rightarrow> Resume option" where
  "Resume_Unmarshal s = Option.bind (json_parse s) Resume_of"

definition Resume_ok :: "Resume \<Rightarrow> bool" where
  "Resume_ok r = (ValidString (rs_RunID r) \<and>
     rs_LastSeq r < 2 ^ 64)"

lemma Resume_tags: "tags_distinct (map fst (Resume_fields r))"
  by (simp add: Resume_fields_def tags_distinct_ascii upper_ascii_def ord_def)

lemma Resume_json_ok: "Resume_ok r \<Longrightarrow> json_ok (Resume_json r)"
  unfolding Resume_json_def by (rule json_ok_struct)
    (simp add: Resume_ok_def Resume_fields_def ValidString_ascii ord_def)

lemma Resume_names: "map fst (Resume_fields r) =
  [''run_id'', ''last_seq'']"
  by (simp add: Resume_fields_def)

lemma Resume_of_json: "Resume_ok r \<Longrightarrow> Resume_of (Resume_json r) = Some r"
  by (simp add: Resume_of_def Resume_json_def members_struct_obj field_struct [OF Resume_tags] Resume_names)
    (simp add: Resume_fields_def Resume_ok_def struct_get_rules)

lemma Resume_roundtrip: "Resume_ok r \<Longrightarrow> Resume_Unmarshal (Resume_Marshal r) = Some r"
  by (simp add: Resume_Unmarshal_def Resume_Marshal_def json_parse_Marshal Resume_json_ok Resume_of_json)

definition CloseMsg_fields :: "CloseMsg \<Rightarrow> (string \<times> bool \<times> json) list" where
  "CloseMsg_fields c = [
     (''code'', False, JStr (cm_Code c)),
     (''message'', cm_Message c = [], JStr (cm_Message c))]"

definition CloseMsg_json :: "CloseMsg \<Rightarrow> json" where "CloseMsg_json c = struct_obj (CloseMsg_fields c)"

definition CloseMsg_of :: "json \<Rightarrow> CloseMsg option" where
  "CloseMsg_of j = Option.bind (members j) (\<lambda>m.
     Option.bind (field dec_str m ''code'' []) (\<lambda>x0.
     Option.bind (field dec_str m ''message'' []) (\<lambda>x1.
     Some \<lparr> cm_Code = x0, cm_Message = x1 \<rparr>)))"

definition CloseMsg_Marshal :: "CloseMsg \<Rightarrow> string" where "CloseMsg_Marshal c = Marshal (CloseMsg_json c)"
definition CloseMsg_Unmarshal :: "string \<Rightarrow> CloseMsg option" where
  "CloseMsg_Unmarshal s = Option.bind (json_parse s) CloseMsg_of"

definition CloseMsg_ok :: "CloseMsg \<Rightarrow> bool" where
  "CloseMsg_ok c = (ValidString (cm_Code c) \<and>
     ValidString (cm_Message c))"

lemma CloseMsg_tags: "tags_distinct (map fst (CloseMsg_fields c))"
  by (simp add: CloseMsg_fields_def tags_distinct_ascii upper_ascii_def ord_def)

lemma CloseMsg_json_ok: "CloseMsg_ok c \<Longrightarrow> json_ok (CloseMsg_json c)"
  unfolding CloseMsg_json_def by (rule json_ok_struct)
    (simp add: CloseMsg_ok_def CloseMsg_fields_def ValidString_ascii ord_def)

lemma CloseMsg_names: "map fst (CloseMsg_fields c) =
  [''code'', ''message'']"
  by (simp add: CloseMsg_fields_def)

lemma CloseMsg_of_json: "CloseMsg_ok c \<Longrightarrow> CloseMsg_of (CloseMsg_json c) = Some c"
  by (simp add: CloseMsg_of_def CloseMsg_json_def members_struct_obj field_struct [OF CloseMsg_tags] CloseMsg_names)
    (simp add: CloseMsg_fields_def CloseMsg_ok_def struct_get_rules)

lemma CloseMsg_roundtrip: "CloseMsg_ok c \<Longrightarrow> CloseMsg_Unmarshal (CloseMsg_Marshal c) = Some c"
  by (simp add: CloseMsg_Unmarshal_def CloseMsg_Marshal_def json_parse_Marshal CloseMsg_json_ok CloseMsg_of_json)

definition ErrorPayload_fields :: "ErrorPayload \<Rightarrow> (string \<times> bool \<times> json) list" where
  "ErrorPayload_fields e = [
     (''code'', False, JStr (ep_Code e)),
     (''message'', False, JStr (ep_Message e)),
     (''retriable'', \<not> ep_Retriable e, JBool (ep_Retriable e))]"

definition ErrorPayload_json :: "ErrorPayload \<Rightarrow> json" where "ErrorPayload_json e = struct_obj (ErrorPayload_fields e)"

definition ErrorPayload_of :: "json \<Rightarrow> ErrorPayload option" where
  "ErrorPayload_of j = Option.bind (members j) (\<lambda>m.
     Option.bind (field dec_str m ''code'' []) (\<lambda>x0.
     Option.bind (field dec_str m ''message'' []) (\<lambda>x1.
     Option.bind (field dec_bool m ''retriable'' False) (\<lambda>x2.
     Some \<lparr> ep_Code = x0, ep_Message = x1, ep_Retriable = x2 \<rparr>))))"

definition ErrorPayload_Marshal :: "ErrorPayload \<Rightarrow> string" where "ErrorPayload_Marshal e = Marshal (ErrorPayload_json e)"
definition ErrorPayload_Unmarshal :: "string \<Rightarrow> ErrorPayload option" where
  "ErrorPayload_Unmarshal s = Option.bind (json_parse s) ErrorPayload_of"

definition ErrorPayload_ok :: "ErrorPayload \<Rightarrow> bool" where
  "ErrorPayload_ok e = (ValidString (ep_Code e) \<and>
     ValidString (ep_Message e))"

lemma ErrorPayload_tags: "tags_distinct (map fst (ErrorPayload_fields e))"
  by (simp add: ErrorPayload_fields_def tags_distinct_ascii upper_ascii_def ord_def)

lemma ErrorPayload_json_ok: "ErrorPayload_ok e \<Longrightarrow> json_ok (ErrorPayload_json e)"
  unfolding ErrorPayload_json_def by (rule json_ok_struct)
    (simp add: ErrorPayload_ok_def ErrorPayload_fields_def ValidString_ascii ord_def)

lemma ErrorPayload_names: "map fst (ErrorPayload_fields e) =
  [''code'', ''message'', ''retriable'']"
  by (simp add: ErrorPayload_fields_def)

lemma ErrorPayload_of_json: "ErrorPayload_ok e \<Longrightarrow> ErrorPayload_of (ErrorPayload_json e) = Some e"
  by (simp add: ErrorPayload_of_def ErrorPayload_json_def members_struct_obj field_struct [OF ErrorPayload_tags] ErrorPayload_names)
    (simp add: ErrorPayload_fields_def ErrorPayload_ok_def struct_get_rules)

lemma ErrorPayload_roundtrip: "ErrorPayload_ok e \<Longrightarrow> ErrorPayload_Unmarshal (ErrorPayload_Marshal e) = Some e"
  by (simp add: ErrorPayload_Unmarshal_def ErrorPayload_Marshal_def json_parse_Marshal ErrorPayload_json_ok ErrorPayload_of_json)

section \<open>Messages of the gateway API\<close>

datatype RunState =
    RUN_STATE_UNSPECIFIED
  | RUN_STATE_PENDING
  | RUN_STATE_RUNNING
  | RUN_STATE_WAITING_TOOL
  | RUN_STATE_COMPACTING
  | RUN_STATE_DONE
  | RUN_STATE_FAILED

record ToolEvent =
  te_CallId :: string
  te_ToolName :: string
  te_Phase :: string
  te_Result :: string
  te_Error :: string
  te_IsError :: bool
  te_ElapsedMs :: nat

datatype RunPayload =
    StateChanged RunState RunState int
  | Token string int
  | Done int int
  | Error string string bool
  | Tool ToolEvent

record RunEvent =
  ev_RunId :: string
  ev_TraceId :: string
  ev_Payload :: "RunPayload option"

record RunRequest =
  rq_RunId :: string
  rq_UserId :: string
  rq_Prompt :: string
  rq_Model :: string
  rq_TraceId :: string
  rq_AgentId :: string
  rq_SystemPrompt :: string

record BusinessEvent =
  be_Kind :: string
  be_State :: string
  be_From :: string
  be_Text :: string
  be_Index :: int
  be_Total :: int
  be_Code :: string
  be_Message :: string

definition zero_business :: BusinessEvent where
  "zero_business = \<lparr> be_Kind = [], be_State = [], be_From = [], be_Text = [], be_Index = 0, be_Total = 0, be_Code = [], be_Message = [] \<rparr>"

definition stateEnumStr :: "string \<Rightarrow> RunState" where
  "stateEnumStr s =
     (if s = ''PENDING'' then RUN_STATE_PENDING
      else if s = ''RUNNING'' then RUN_STATE_RUNNING
      else if s = ''WAITING_TOOL'' then RUN_STATE_WAITING_TOOL
      else if s = ''COMPACTING'' then RUN_STATE_COMPACTING
      else if s = ''DONE'' then RUN_STATE_DONE
      else if s = ''FAILED'' then RUN_STATE_FAILED
      else RUN_STATE_UNSPECIFIED)"

definition businessToProto :: "string \<Rightarrow> string \<Rightarrow> int \<Rightarrow> BusinessEvent \<Rightarrow> RunEvent" where
  "businessToProto runID traceID now ev =
     \<lparr> ev_RunId = runID, ev_TraceId = traceID,
       ev_Payload =
         (if be_Kind ev = ''token'' then Some (Token (be_Text ev) (be_Index ev))
          else if be_Kind ev = ''state'' then Some (StateChanged (stateEnumStr (be_From ev)) (stateEnumStr (be_State ev)) now)
          else if be_Kind ev = ''done'' then Some (Done (be_Total ev) now)
          else if be_Kind ev = ''error'' then Some (Error (be_Code ev) (be_Message ev) False)
          else None) \<rparr>"

section \<open>The event cache\<close>

text \<open>The Redis commands on sorted sets: ZADD with a score, EXPIRE, and ZRANGEBYSCORE between two bounds, which lists the
  members in its order.\<close>

record 'w EventCache =
  ce_zadd :: "'w \<Rightarrow> string \<Rightarrow> rat \<Rightarrow> string \<Rightarrow> string option \<times> 'w"
  ce_expire :: "'w \<Rightarrow> string \<Rightarrow> int \<Rightarrow> 'w"
  ce_zrange :: "'w \<Rightarrow> string \<Rightarrow> string \<Rightarrow> string \<Rightarrow> (string, string list) result \<times> 'w"
  ce_ttl :: int

definition one_hour :: int where "one_hour = 60 * 60 * 1000000000"

definition NewEventCache :: "'w EventCache \<Rightarrow> int \<Rightarrow> 'w EventCache" where
  "NewEventCache cli ttl = cli\<lparr> ce_ttl := (if ttl \<le> 0 then one_hour else ttl) \<rparr>"

definition cache_Key :: "string \<Rightarrow> string" where "cache_Key runID = ''acp:events:'' @ runID"

definition encodeMember :: "u64 \<Rightarrow> string \<Rightarrow> string" where
  "encodeMember seq payload = payload @ of_bytes (map (\<lambda>i. ucast (drop_bit (i * 8) seq)) [7, 6, 5, 4, 3, 2, 1, 0])"

definition decodeMember :: "string \<Rightarrow> (u64 \<times> string) option" where
  "decodeMember s =
     (if length s < 8 then None
      else Some (foldl (\<lambda>seq c. push_bit 8 seq OR word_of_nat (ord c)) 0 (drop (length s - 8) s), take (length s - 8) s))"

definition Cache_Append :: "'w EventCache \<Rightarrow> 'w \<Rightarrow> string \<Rightarrow> u64 \<Rightarrow> string \<Rightarrow> string option \<times> 'w" where
  "Cache_Append C w runID seq payload =
     (case ce_zadd C w (cache_Key runID) (f64 (of_nat (unat seq))) (encodeMember seq payload) of
        (Some e, w1) \<Rightarrow> (Some (''zadd: '' @ e), w1)
      | (None, w1) \<Rightarrow> (None, ce_expire C w1 (cache_Key runID) (ce_ttl C)))"

definition Cache_Replay :: "'w EventCache \<Rightarrow> 'w \<Rightarrow> string \<Rightarrow> nat \<Rightarrow> (string, (u64 \<times> string) list) result \<times> 'w" where
  "Cache_Replay C w runID sinceSeq =
     (case ce_zrange C w (cache_Key runID) (''('' @ digits sinceSeq) ''+inf'' of
        (Inl e, w1) \<Rightarrow> (Inl (''zrangebyscore: '' @ e), w1)
      | (Inr ms, w1) \<Rightarrow> (Inr (List.map_filter decodeMember ms), w1))"

section \<open>The server session\<close>

record ServerConfig =
  sc_ReadTimeout :: int
  sc_WriteTimeout :: int
  sc_MaxConnections :: int
  sc_ShutdownTimeout :: int

definition ServerConfig_Defaults :: "ServerConfig \<Rightarrow> ServerConfig" where
  "ServerConfig_Defaults c =
     \<lparr> sc_ReadTimeout = (if sc_ReadTimeout c = 0 then 30 * 1000000000 else sc_ReadTimeout c),
       sc_WriteTimeout = (if sc_WriteTimeout c = 0 then 10 * 1000000000 else sc_WriteTimeout c),
       sc_MaxConnections = (if sc_MaxConnections c = 0 then 1024 else sc_MaxConnections c),
       sc_ShutdownTimeout = (if sc_ShutdownTimeout c = 0 then 5 * 1000000000 else sc_ShutdownTimeout c) \<rparr>"

record RunInput =
  ri_RunID :: string
  ri_TraceID :: string
  ri_UserID :: string
  ri_Prompt :: string
  ri_Model :: string

text \<open>What a session uses: Write and Close of the connection, the ids, the cache (None when disabled), the clock, the protobuf
  encodings and the text of a JSON error. ae_progress says how many frames the writer goroutine takes from the queue before
  the next send: any interleaving of the two goroutines is a choice of these numbers.\<close>

record 'w AcpEnv =
  ae_write :: "'w \<Rightarrow> byte list \<Rightarrow> acp_error option \<times> 'w"
  ae_close :: "'w \<Rightarrow> 'w"
  ae_progress :: "'w \<Rightarrow> nat \<times> 'w"
  ae_new_run :: "'w \<Rightarrow> string \<times> 'w"
  ae_new_trace :: "'w \<Rightarrow> string \<times> 'w"
  ae_cache :: "'w EventCache option"
  ae_now :: "'w \<Rightarrow> int"
  ae_enc_event :: "RunEvent \<Rightarrow> (string, string) result"
  ae_dec_request :: "string \<Rightarrow> (string, RunRequest) result"
  ae_json_err :: "string \<Rightarrow> string"

text \<open>sendCh and its frames, the closed flag, whether the writer has given up and only drains the channel, the ids and the
  sequence counter; ss_in is what is left to read.\<close>

record 'w session =
  ss_world :: 'w
  ss_in :: "byte list"
  ss_sendCh :: "Frame list"
  ss_closed :: bool
  ss_draining :: bool
  ss_runID :: string
  ss_traceID :: string
  ss_seqGen :: u64

definition newSession :: "'w \<Rightarrow> byte list \<Rightarrow> 'w session" where
  "newSession w inp = \<lparr> ss_world = w, ss_in = inp, ss_sendCh = [], ss_closed = False, ss_draining = False, ss_runID = [],
     ss_traceID = [], ss_seqGen = 0 \<rparr>"

definition sendCap :: nat where "sendCap = 256"

definition writer_step :: "'w AcpEnv \<Rightarrow> 'w session \<Rightarrow> 'w session" where
  "writer_step A s =
     (case ss_sendCh s of
        [] \<Rightarrow> s
      | f # q \<Rightarrow>
          if ss_draining s then s\<lparr> ss_sendCh := q \<rparr>
          else (case WriteFrame (ae_write A) (ss_world s) f of
                  (None, w) \<Rightarrow> s\<lparr> ss_sendCh := q, ss_world := w \<rparr>
                | (Some e, w) \<Rightarrow> s\<lparr> ss_sendCh := q, ss_world := ae_close A w, ss_draining := True \<rparr>))"

definition writer_runs :: "'w AcpEnv \<Rightarrow> nat \<Rightarrow> 'w session \<Rightarrow> 'w session" where
  "writer_runs A n = writer_step A ^^ n"

definition send :: "'w AcpEnv \<Rightarrow> 'w session \<Rightarrow> Frame \<Rightarrow> 'w session" where
  "send A s f =
     (if ss_closed s then s
      else
        (let (k, w) = ae_progress A (ss_world s);
             s1 = writer_runs A k (s\<lparr> ss_world := w \<rparr>)
         in if length (ss_sendCh s1) < sendCap then s1\<lparr> ss_sendCh := ss_sendCh s1 @ [f] \<rparr>
            else s1\<lparr> ss_closed := True, ss_world := ae_close A (ss_world s1) \<rparr>))"

definition mk_frame :: "FrameType \<Rightarrow> Flags \<Rightarrow> u64 \<Rightarrow> string \<Rightarrow> Frame" where
  "mk_frame ty fl seq payload = \<lparr> Frame_Type = ty, Frame_Flags = fl, Frame_Seq = seq, Frame_Payload = to_bytes payload \<rparr>"

definition sendError :: "'w AcpEnv \<Rightarrow> 'w session \<Rightarrow> string \<Rightarrow> string \<Rightarrow> bool \<Rightarrow> 'w session" where
  "sendError A s code msg retriable =
     send A s (mk_frame FrameError FlagEndStream 0
       (ErrorPayload_Marshal \<lparr> ep_Code = code, ep_Message = msg, ep_Retriable = retriable \<rparr>))"

definition sendClose :: "'w AcpEnv \<Rightarrow> 'w session \<Rightarrow> string \<Rightarrow> 'w session" where
  "sendClose A s code = send A s (mk_frame FrameClose FlagEndStream 0 (CloseMsg_Marshal \<lparr> cm_Code = code, cm_Message = [] \<rparr>))"

definition emit_flags :: "BusinessEvent \<Rightarrow> Flags" where
  "emit_flags ev = (if be_Kind ev = ''done'' \<or> be_Kind ev = ''error'' then 0 OR FlagEndStream else 0)"

text \<open>The function makeEmit returns: the error, if any, and the session.\<close>

definition emit :: "'w AcpEnv \<Rightarrow> 'w session \<Rightarrow> BusinessEvent \<Rightarrow> string option \<times> 'w session" where
  "emit A s ev =
     (if ss_closed s then (Some ''session closed'', s)
      else (case ae_enc_event A (businessToProto (ss_runID s) (ss_traceID s) (ae_now A (ss_world s)) ev) of
          Inl e \<Rightarrow> (Some e, s)
        | Inr raw \<Rightarrow>
            (let seq = ss_seqGen s + 1;
                 s1 = s\<lparr> ss_seqGen := seq \<rparr>;
                 s2 = (case ae_cache A of
                         None \<Rightarrow> s1
                       | Some C \<Rightarrow> s1\<lparr> ss_world := snd (Cache_Append C (ss_world s1) (ss_runID s1) seq raw) \<rparr>)
             in (None, send A s2 (mk_frame FrameEvent (emit_flags ev) seq raw)))))"

text \<open>A dispatcher gets the emit function and the run's input and works on the session through it; None: it has not returned.\<close>

type_synonym 'w dispatcher =
  "('w session \<Rightarrow> BusinessEvent \<Rightarrow> string option \<times> 'w session) \<Rightarrow> 'w session \<Rightarrow> RunInput \<Rightarrow> (string option \<times> 'w session) option"

definition handleRun :: "'w AcpEnv \<Rightarrow> 'w dispatcher \<Rightarrow> 'w session \<Rightarrow> string \<Rightarrow> 'w session option" where
  "handleRun A disp s payload =
     (case ae_dec_request A payload of
        Inl e \<Rightarrow> Some (sendError A s ''bad_request'' (''decode RunRequest: '' @ e) False)
      | Inr req \<Rightarrow>
          if rq_Prompt req = [] then Some (sendError A s ''bad_request'' ''empty prompt'' False)
          else map_option (\<lambda>(err, s1).
                 sendClose A (case err of None \<Rightarrow> s1 | Some e \<Rightarrow> sendError A s1 ''internal'' e True) ''completed'')
               (disp (emit A) s \<lparr> ri_RunID = ss_runID s, ri_TraceID = ss_traceID s, ri_UserID = rq_UserId req,
                  ri_Prompt = rq_Prompt req, ri_Model = rq_Model req \<rparr>))"

fun replay_events :: "'w AcpEnv \<Rightarrow> 'w session \<Rightarrow> (u64 \<times> string) list \<Rightarrow> 'w session" where
  "replay_events A s [] = s"
| "replay_events A s ((seq, payload) # evs) =
     (let s1 = send A s (mk_frame FrameEvent 0 seq payload)
      in replay_events A (if seq > ss_seqGen s1 then s1\<lparr> ss_seqGen := seq \<rparr> else s1) evs)"

definition handleResume :: "'w AcpEnv \<Rightarrow> 'w session \<Rightarrow> string \<Rightarrow> 'w session" where
  "handleResume A s payload =
     (case Resume_Unmarshal payload of
        None \<Rightarrow> sendError A s ''bad_request'' (''decode Resume: '' @ ae_json_err A payload) False
      | Some r \<Rightarrow>
          if rs_RunID r = [] then sendError A s ''bad_request'' ''empty run_id'' False
          else (case ae_cache A of
              None \<Rightarrow> sendError A s ''not_supported'' ''event cache disabled'' False
            | Some C \<Rightarrow>
                (case Cache_Replay C (ss_world s) (rs_RunID r) (rs_LastSeq r) of
                   (Inl e, w) \<Rightarrow> sendError A (s\<lparr> ss_world := w \<rparr>) ''internal'' (''replay: '' @ e) True
                 | (Inr evs, w) \<Rightarrow> sendClose A (replay_events A (s\<lparr> ss_world := w \<rparr>) evs) ''resumed'')))"

fun is_EOF :: "acp_error \<Rightarrow> bool" where
  "is_EOF EOF = True"
| "is_EOF (ReadLen e) = is_EOF e"
| "is_EOF (ReadPayload e) = is_EOF e"
| "is_EOF _ = False"

datatype serve_error =
    ReadHello acp_error
  | ExpectHello FrameType
  | DecodeHello string
  | ReadError acp_error
lemma writer_step_in [simp]: "ss_in (writer_step A s) = ss_in s"
  by (simp add: writer_step_def split: list.split prod.split option.split)

lemma writer_runs_in [simp]: "ss_in (writer_runs A n s) = ss_in s"
  by (induction n arbitrary: s) (simp_all add: writer_runs_def)

lemma send_in [simp]: "ss_in (send A s f) = ss_in s"
  by (simp add: send_def Let_def split: prod.split)

lemma ReadFrame_shrinks:
  assumes "ReadFrame r = Inr (f, rest)"
  shows "length rest < length r"
proof -
  from assms obtain h r1 len r2 where
      h: "ReadFull HeaderFixedSize r = Inr (h, r1)" and u: "readUvarint r1 = Inr (len, r2)"
    and le: "length rest \<le> length r2"
    by (auto simp: ReadFrame_def bindR_eq_Inr Let_def ReadFull_def split: if_splits sum.splits prod.splits)
  have "length r1 < length r" using h by (auto simp: ReadFull_def HeaderFixedSize_def split: if_splits)
  moreover have "length r2 \<le> length r1" using readUvarint_exact [OF u] by auto
  ultimately show ?thesis using le by simp
qed

text \<open>The main loop after the handshake: the error of the session and its state, or None while a dispatcher has not returned.\<close>

function serve_loop :: "'w AcpEnv \<Rightarrow> 'w dispatcher \<Rightarrow> 'w session \<Rightarrow> (serve_error option \<times> 'w session) option" where
  "serve_loop A disp s =
     (case ReadFrame (ss_in s) of
        Inl e \<Rightarrow> Some (if is_EOF e then None else Some (ReadError e), s)
      | Inr (f, rest) \<Rightarrow>
          (let s1 = s\<lparr> ss_in := rest \<rparr>; payload = of_bytes (Frame_Payload f) in
           if Frame_Type f = FramePing then serve_loop A disp (send A s1 (f\<lparr> Frame_Type := FramePong, Frame_Flags := 0, Frame_Seq := 0 \<rparr>))
           else if Frame_Type f = FrameClose then Some (None, s1)
           else if Frame_Type f = FrameRun then map_option (Pair None) (handleRun A disp s1 payload)
           else if Frame_Type f = FrameResume then Some (None, handleResume A s1 payload)
           else serve_loop A disp s1))"
  by pat_completeness auto
termination
  by (relation "measure (\<lambda>(A, disp, s). length (ss_in s))") (auto dest: ReadFrame_shrinks)

declare serve_loop.simps [simp del]

definition hello_ack :: "string \<Rightarrow> string \<Rightarrow> HelloAck" where
  "hello_ack rid tid = \<lparr> ha_ServerVersion = ''agentforge-1.0'', ha_RunID = rid, ha_TraceID = tid,
     ha_MaxFrameSize = int MaxPayloadSize \<rparr>"

text \<open>The ids of a session: the run id of the hello or a new one, and a new trace id.\<close>

definition session_ids :: "'w AcpEnv \<Rightarrow> 'w \<Rightarrow> Hello \<Rightarrow> string \<times> string \<times> 'w" where
  "session_ids A w hello =
     (let (rid, w1) = (if he_RunID hello \<noteq> [] then (he_RunID hello, w) else ae_new_run A w);
          (tid, w2) = ae_new_trace A w1
      in (rid, tid, w2))"

definition serve_session :: "'w AcpEnv \<Rightarrow> 'w dispatcher \<Rightarrow> 'w session \<Rightarrow> (serve_error option \<times> 'w session) option" where
  "serve_session A disp s =
     (case ReadFrame (ss_in s) of
        Inl e \<Rightarrow> Some (Some (ReadHello e), s)
      | Inr (f, rest) \<Rightarrow>
          (let s1 = s\<lparr> ss_in := rest \<rparr> in
           if Frame_Type f \<noteq> FrameHello then Some (Some (ExpectHello (Frame_Type f)), s1)
           else (case Hello_Unmarshal (of_bytes (Frame_Payload f)) of
               None \<Rightarrow> Some (Some (DecodeHello (ae_json_err A (of_bytes (Frame_Payload f)))), s1)
             | Some hello \<Rightarrow>
                 (let (rid, tid, w2) = session_ids A (ss_world s1) hello;
                      s2 = s1\<lparr> ss_world := w2, ss_runID := rid, ss_traceID := tid \<rparr>
                  in serve_loop A disp (send A s2 (mk_frame FrameHelloAck 0 0 (HelloAck_Marshal (hello_ack rid tid))))))))"

text \<open>The deferred end of serve closes the channel unless the closed flag is already set, and then waits for the writer to leave
  its loop, which it does only when the channel has been closed. Blocked: serve waits forever.\<close>

datatype 'w serve_outcome =
    Returned "serve_error option" "'w session"
  | Blocked "'w session"
  | Waiting

definition serve_end :: "'w AcpEnv \<Rightarrow> serve_error option \<times> 'w session \<Rightarrow> 'w serve_outcome" where
  "serve_end A = (\<lambda>(err, s).
     let s1 = writer_runs A (length (ss_sendCh s)) s in
     if ss_closed s then Blocked s1 else Returned err (s1\<lparr> ss_closed := True \<rparr>))"

definition serve :: "'w AcpEnv \<Rightarrow> 'w dispatcher \<Rightarrow> 'w session \<Rightarrow> 'w serve_outcome" where
  "serve A disp s = (case serve_session A disp s of None \<Rightarrow> Waiting | Some r \<Rightarrow> serve_end A r)"

section \<open>The server\<close>

text \<open>The counting semaphore of the accept loop: a connection takes a slot or is dropped; handleConn gives the slot back when serve has
  returned.\<close>

record Server =
  srv_cfg :: ServerConfig
  srv_active :: int

definition NewServer :: "ServerConfig \<Rightarrow> Server" where
  "NewServer cfg = \<lparr> srv_cfg = ServerConfig_Defaults cfg, srv_active = 0 \<rparr>"

definition Server_accept :: "Server \<Rightarrow> bool \<times> Server" where
  "Server_accept s =
     (if srv_active s < sc_MaxConnections (srv_cfg s) then (True, s\<lparr> srv_active := srv_active s + 1 \<rparr>) else (False, s))"

definition Server_done :: "Server \<Rightarrow> 'w serve_outcome \<Rightarrow> Server" where
  "Server_done s r = (case r of Returned e t \<Rightarrow> s\<lparr> srv_active := srv_active s - 1 \<rparr> | Blocked t \<Rightarrow> s | Waiting \<Rightarrow> s)"
section \<open>The client\<close>

text \<open>The connection of a client: Write, and the protobuf encodings; cl_in is what the server has sent and the client not yet
  read. ca_dial gives the bytes the server will send on a new connection.\<close>

record 'w ClientEnv =
  ca_dial :: "'w \<Rightarrow> string \<Rightarrow> int \<Rightarrow> (string, byte list) result \<times> 'w"
  ca_write :: "'w \<Rightarrow> byte list \<Rightarrow> acp_error option \<times> 'w"
  ca_close :: "'w \<Rightarrow> 'w"
  ca_ctx :: "'w \<Rightarrow> string option"
  ca_enc_request :: "RunRequest \<Rightarrow> (string, string) result"
  ca_dec_event :: "string \<Rightarrow> (string, RunEvent) result"
  ca_json_err :: "string \<Rightarrow> string"

record 'w Client =
  cl_world :: 'w
  cl_in :: "byte list"
  cl_runID :: string
  cl_traceID :: string
  cl_pingNonce :: u64
  cl_writeTimeout :: int
  cl_readTimeout :: int

record DialOptions =
  do_Addr :: string
  do_UserID :: string
  do_DialTimeout :: int
  do_WriteTimeout :: int
  do_ReadTimeout :: int

datatype client_error =
    DialError string
  | WriteError acp_error
  | FrameReadError acp_error
  | ExpectHelloAck FrameType
  | DecodeAck string
  | EncodeError string
  | DecodeEvent string
  | CtxError string

definition client_write :: "'w ClientEnv \<Rightarrow> 'w Client \<Rightarrow> Frame \<Rightarrow> acp_error option \<times> 'w Client" where
  "client_write E c f = (let (e, w) = WriteFrame (ca_write E) (cl_world c) f in (e, c\<lparr> cl_world := w \<rparr>))"

definition client_read :: "'w Client \<Rightarrow> (acp_error, Frame) result \<times> 'w Client" where
  "client_read c = (case ReadFrame (cl_in c) of Inl e \<Rightarrow> (Inl e, c) | Inr (f, rest) \<Rightarrow> (Inr f, c\<lparr> cl_in := rest \<rparr>))"

definition client_close_conn :: "'w ClientEnv \<Rightarrow> 'w Client \<Rightarrow> 'w Client" where
  "client_close_conn E c = c\<lparr> cl_world := ca_close E (cl_world c) \<rparr>"

definition Dial :: "'w ClientEnv \<Rightarrow> 'w \<Rightarrow> DialOptions \<Rightarrow> (client_error, 'w Client) result \<times> 'w" where
  "Dial E w opts =
     (let dt = (if do_DialTimeout opts = 0 then 5 * 1000000000 else do_DialTimeout opts);
          wt = (if do_WriteTimeout opts = 0 then 10 * 1000000000 else do_WriteTimeout opts);
          rt = (if do_ReadTimeout opts = 0 then 30 * 1000000000 else do_ReadTimeout opts)
      in case ca_dial E w (do_Addr opts) dt of
           (Inl e, w1) \<Rightarrow> (Inl (DialError e), w1)
         | (Inr inp, w1) \<Rightarrow>
             (let c = \<lparr> cl_world = w1, cl_in = inp, cl_runID = [], cl_traceID = [], cl_pingNonce = 0, cl_writeTimeout = wt,
                        cl_readTimeout = rt \<rparr>;
                  hello = Hello_Marshal \<lparr> he_ClientVersion = ''agentforge-1.0'', he_UserID = do_UserID opts, he_RunID = [] \<rparr>
              in case client_write E c (mk_frame FrameHello 0 0 hello) of
                   (Some e, c1) \<Rightarrow> (Inl (WriteError e), ca_close E (cl_world c1))
                 | (None, c1) \<Rightarrow>
                     (case client_read c1 of
                        (Inl e, c2) \<Rightarrow> (Inl (FrameReadError e), ca_close E (cl_world c2))
                      | (Inr ack, c2) \<Rightarrow>
                          if Frame_Type ack \<noteq> FrameHelloAck
                          then (Inl (ExpectHelloAck (Frame_Type ack)), ca_close E (cl_world c2))
                          else (case HelloAck_Unmarshal (of_bytes (Frame_Payload ack)) of
                              None \<Rightarrow> (Inl (DecodeAck (ca_json_err E (of_bytes (Frame_Payload ack)))), ca_close E (cl_world c2))
                            | Some a \<Rightarrow> (Inr (c2\<lparr> cl_runID := ha_RunID a, cl_traceID := ha_TraceID a \<rparr>), cl_world c2)))))"

definition SendRun :: "'w ClientEnv \<Rightarrow> 'w Client \<Rightarrow> RunRequest \<Rightarrow> client_error option \<times> 'w Client" where
  "SendRun E c req0 =
     (let req1 = (if rq_RunId req0 = [] then req0\<lparr> rq_RunId := cl_runID c \<rparr> else req0);
          req = (if rq_TraceId req1 = [] then req1\<lparr> rq_TraceId := cl_traceID c \<rparr> else req1)
      in case ca_enc_request E req of
           Inl e \<Rightarrow> (Some (EncodeError e), c)
         | Inr raw \<Rightarrow> (let (e, c1) = client_write E c (mk_frame FrameRun 0 0 raw) in (map_option WriteError e, c1)))"

definition SendResume :: "'w ClientEnv \<Rightarrow> 'w Client \<Rightarrow> string \<Rightarrow> nat \<Rightarrow> client_error option \<times> 'w Client" where
  "SendResume E c runID lastSeq =
     (let (e, c1) = client_write E c (mk_frame FrameResume 0 0 (Resume_Marshal \<lparr> rs_RunID = runID, rs_LastSeq = lastSeq \<rparr>))
      in (map_option WriteError e, c1))"

definition client_Close :: "'w ClientEnv \<Rightarrow> 'w Client \<Rightarrow> 'w Client" where
  "client_Close E c =
     client_close_conn E (snd (client_write E c
       (mk_frame FrameClose FlagEndStream 0 (CloseMsg_Marshal \<lparr> cm_Code = ''client_done'', cm_Message = [] \<rparr>))))"

lemma client_read_shrinks: "client_read c = (Inr f, c1) \<Longrightarrow> length (cl_in c1) < length (cl_in c)"
  by (auto simp: client_read_def split: sum.splits dest: ReadFrame_shrinks)

text \<open>Ping waits for a PONG; ca_ctx is the state of the context at each turn of its loop.\<close>

function ping_wait :: "'w ClientEnv \<Rightarrow> 'w Client \<Rightarrow> client_error option \<times> 'w Client" where
  "ping_wait E c =
     (case ca_ctx E (cl_world c) of
        Some e \<Rightarrow> (Some (CtxError e), c)
      | None \<Rightarrow>
          (case client_read c of
             (Inl e, c1) \<Rightarrow> (Some (FrameReadError e), c1)
           | (Inr f, c1) \<Rightarrow> if Frame_Type f = FramePong then (None, c1) else ping_wait E c1))"
  by pat_completeness auto
termination
  by (relation "measure (\<lambda>(E, c). length (cl_in c))") (auto dest: client_read_shrinks [OF sym])

definition Ping :: "'w ClientEnv \<Rightarrow> 'w Client \<Rightarrow> client_error option \<times> 'w Client" where
  "Ping E c =
     (let nonce = cl_pingNonce c + 1; c0 = c\<lparr> cl_pingNonce := nonce \<rparr>;
          payload = map (\<lambda>i. ucast (drop_bit (i * 8) nonce)) [7, 6, 5, 4, 3, 2, 1, 0]
      in case client_write E c0 \<lparr> Frame_Type = FramePing, Frame_Flags = 0, Frame_Seq = 0, Frame_Payload = payload \<rparr> of
           (Some e, c1) \<Rightarrow> (Some (WriteError e), c1)
         | (None, c1) \<Rightarrow> ping_wait E c1)"

text \<open>An error frame whose payload is not what it should be is decoded as far as it goes: json.Unmarshal keeps the fields it could
  decode and its error is ignored.\<close>

fun field_keep :: "(json \<Rightarrow> 'a option) \<Rightarrow> (string \<times> json) list \<Rightarrow> string \<Rightarrow> 'a \<Rightarrow> 'a" where
  "field_keep dec [] tag cur = cur"
| "field_keep dec ((k, v) # kvs) tag cur =
     field_keep dec kvs tag (if name_match tag k \<and> v \<noteq> JNull then (case dec v of Some x \<Rightarrow> x | None \<Rightarrow> cur) else cur)"

definition ErrorPayload_partial :: "string \<Rightarrow> ErrorPayload" where
  "ErrorPayload_partial s =
     (let m = (case Option.bind (json_parse s) members of None \<Rightarrow> [] | Some m \<Rightarrow> m)
      in \<lparr> ep_Code = field_keep dec_str m ''code'' [], ep_Message = field_keep dec_str m ''message'' [],
           ep_Retriable = field_keep dec_bool m ''retriable'' False \<rparr>)"

text \<open>The next event, whether the stream ends, and the error.\<close>

function NextEvent :: "'w ClientEnv \<Rightarrow> 'w Client \<Rightarrow> (client_error, RunEvent option \<times> bool) result \<times> 'w Client" where
  "NextEvent E c =
     (case client_read c of
        (Inl e, c1) \<Rightarrow> (Inl (FrameReadError e), c1)
      | (Inr f, c1) \<Rightarrow>
          if Frame_Type f = FrameEvent then
            (case ca_dec_event E (of_bytes (Frame_Payload f)) of
               Inl e \<Rightarrow> (Inl (DecodeEvent e), c1)
             | Inr ev \<Rightarrow> (Inr (Some ev, Flags_Has (Frame_Flags f) FlagEndStream), c1))
          else if Frame_Type f = FrameError then
            (let ep = ErrorPayload_partial (of_bytes (Frame_Payload f))
             in (Inr (Some \<lparr> ev_RunId = cl_runID c1, ev_TraceId = cl_traceID c1,
                   ev_Payload = Some (Error (ep_Code ep) (ep_Message ep) (ep_Retriable ep)) \<rparr>, True), c1))
          else if Frame_Type f = FrameClose then (Inr (None, True), c1)
          else NextEvent E c1)"
  by pat_completeness auto
termination
  by (relation "measure (\<lambda>(E, c). length (cl_in c))") (auto dest: client_read_shrinks [OF sym])

declare ping_wait.simps [simp del] NextEvent.simps [simp del]

end
