(* ===== verification/GoNumber.thy ===== *)
theory GoNumber
  imports GoFloat GoJson
begin

text \<open>
  The text of floating point numbers in JSON: strconv.ParseFloat on a number literal and the shortest literal
  encoding/json writes for a float64. The sign of a zero is not kept.
\<close>

section \<open>Reading\<close>

definition pow10 :: "int \<Rightarrow> rat" where
  "pow10 e = (if 0 \<le> e then 10 ^ nat e else 1 / 10 ^ nat (- e))"

definition lit_sign :: "string \<Rightarrow> bool \<times> string" where
  "lit_sign l = (case l of c # r \<Rightarrow> if c = CHR 0x2D then (True, r) else (False, l) | [] \<Rightarrow> (False, []))"

definition lit_frac :: "string \<Rightarrow> string \<times> string" where
  "lit_frac s = (case s of c # r \<Rightarrow> if c = CHR ''.'' then take_digits r else ([], s) | [] \<Rightarrow> ([], []))"

definition lit_exp :: "string \<Rightarrow> int" where
  "lit_exp s = (case s of [] \<Rightarrow> 0
     | _ # r \<Rightarrow> (case r of [] \<Rightarrow> 0
         | g # d \<Rightarrow> if g = CHR 0x2D then - int (dec_value d) else if g = CHR ''+'' then int (dec_value d) else int (dec_value r)))"

text \<open>The exact value of a number literal.\<close>

definition lit_value :: "string \<Rightarrow> rat" where
  "lit_value l =
     (let (neg, s) = lit_sign l; (i, r1) = take_digits s; (f, r2) = lit_frac r1;
          v = of_nat (dec_value (i @ f)) * pow10 (lit_exp r2 - int (length f))
      in if neg then - v else v)"

definition max_float :: rat where "max_float = (2 ^ 53 - 1) * 2 ^ 971"

text \<open>Rounded to the nearest double; None: out of range.\<close>

definition ParseFloat64 :: "string \<Rightarrow> rat option" where
  "ParseFloat64 l = (let v = f64 (lit_value l) in if \<bar>v\<bar> > max_float then None else Some v)"

section \<open>Writing\<close>

text \<open>A decimal m * 10 ^ k without trailing zeros.\<close>

fun strip10 :: "nat \<Rightarrow> int \<Rightarrow> nat \<times> int" where
  "strip10 m k = (if m = 0 then (0, 0) else if m mod 10 = 0 then strip10 (m div 10) (k + 1) else (m, k))"

declare strip10.simps [simp del]

text \<open>The number of digits of x before its decimal point: 10 ^ (e - 1) \<le> x < 10 ^ e.\<close>

definition dec_exp :: "rat \<Rightarrow> int" where
  "dec_exp x =
     (let (p, q) = quotient_of x; e = int (length (digits (nat p))) - int (length (digits (nat q)))
      in if x \<ge> pow10 e then e + 1 else e)"

text \<open>The decimals of n digits next to x, the nearer one first.\<close>

definition decimals_near :: "rat \<Rightarrow> nat \<Rightarrow> (nat \<times> int) list" where
  "decimals_near x n =
     (let k = dec_exp x - int n; y = x / pow10 k; c = round_even y; c' = (if c = \<lfloor>y\<rfloor> then c + 1 else \<lfloor>y\<rfloor>)
      in [(nat c, k), (nat c', k)])"

text \<open>The shortest decimal that reads back as the double x. Seventeen digits are always enough; the exact value in the last case
  is never needed.\<close>

definition shortest :: "rat \<Rightarrow> nat \<times> int" where
  "shortest x =
     (case List.find (\<lambda>(m, k). f64 (of_nat m * pow10 k) = x) (concat (map (decimals_near x) [1..<18])) of
        Some (m, k) \<Rightarrow> strip10 m k
      | None \<Rightarrow> strip10 (nat \<lfloor>x * 10 ^ 1074\<rfloor>) (- 1074))"

definition point_form :: "string \<Rightarrow> int \<Rightarrow> string" where
  "point_form ds k =
     (if 0 \<le> k then ds @ replicate (nat k) (CHR ''0'')
      else if length ds > nat (- k) then take (length ds - nat (- k)) ds @ ''.'' @ drop (length ds - nat (- k)) ds
      else ''0.'' @ replicate (nat (- k) - length ds) (CHR ''0'') @ ds)"

definition exp_form :: "string \<Rightarrow> int \<Rightarrow> string" where
  "exp_form ds k =
     (let x = int (length ds) - 1 + k
      in take 1 ds @ (if tl ds = [] then [] else ''.'' @ tl ds) @ ''e'' @ (if x < 0 then CHR 0x2D else CHR ''+'') # digits (nat \<bar>x\<bar>))"

text \<open>encoding/json: plain notation between 1e-6 and 1e21, otherwise an exponent.\<close>

definition json_float :: "rat \<Rightarrow> string" where
  "json_float x =
     (if x = 0 then ''0''
      else let a = \<bar>x\<bar>; (m, k) = shortest a
        in (if x < 0 then [CHR 0x2D] else []) @
           (if a < 1 / 10 ^ 6 \<or> a \<ge> 10 ^ 21 then exp_form (digits m) k else point_form (digits m) k))"

text \<open>A number decoded into a dynamic value is a double and is written as one.\<close>

definition float_literal :: "string \<Rightarrow> string" where
  "float_literal l = (case ParseFloat64 l of Some x \<Rightarrow> json_float x | None \<Rightarrow> l)"

section \<open>Reading back\<close>

lemma pow10_add: "pow10 (a + b) = pow10 a * pow10 b"
proof -
  have p: "pow10 e = 10 powi e" for e
    unfolding pow10_def power_int_def by (simp only: divide_inverse power_inverse mult_1_left)
  show ?thesis unfolding p by (rule power_int_add) simp
qed

lemma pow10_pos [simp]: "0 < pow10 e"
  by (simp add: pow10_def)

lemma pow10_nat: "pow10 (int n) = 10 ^ n"
  by (simp add: pow10_def)

lemma pow10_1: "pow10 1 = 10"
  by (simp add: pow10_def)

lemma strip10_value: "strip10 m k = (m', k') \<Longrightarrow> 0 < m \<Longrightarrow> of_nat m' * pow10 k' = of_nat m * pow10 k \<and> 0 < m'"
proof (induction m k rule: strip10.induct)
  case (1 m k)
  show ?case
  proof (cases "m mod 10 = 0")
    case True
    have "(of_nat m :: rat) = of_nat (m div 10) * 10"
      using True by (metis dvd_eq_mod_eq_0 dvd_div_mult_self of_nat_mult of_nat_numeral)
    moreover have "0 < m div 10" using True 1(3) by presburger
    moreover have "strip10 (m div 10) (k + 1) = (m', k')" using 1(2,3) True by (simp add: strip10.simps [of m])
    ultimately show ?thesis using 1(1) 1(3) True by (simp add: pow10_add pow10_1)
  next
    case False
    then show ?thesis using 1(2,3) by (simp add: strip10.simps [of m])
  qed
qed

lemma dec_value_append: "dec_value (s @ t) = dec_value s * 10 ^ length t + dec_value t"
proof (induction t rule: rev_induct)
  case (snoc c t)
  then show ?case by (simp add: dec_value_def algebra_simps flip: append_assoc)
qed (simp add: dec_value_def)

lemma dec_value_zeros: "dec_value (replicate n (CHR ''0'')) = 0"
  by (induction n) (simp_all add: dec_value_def ord_def flip: replicate_append_same)

lemma take_digits_all: "list_all is_digit s \<Longrightarrow> (r = [] \<or> \<not> is_digit (hd r)) \<Longrightarrow> take_digits (s @ r) = (s, r)"
  by (cases r) (auto simp: take_digits_def list_all_iff takeWhile_append dropWhile_append takeWhile_eq_all_conv)

lemma not_digits: "\<not> is_digit (CHR ''.'')" "\<not> is_digit (CHR ''e'')" "\<not> is_digit (CHR 0x2D)"
  by (simp_all add: is_digit_def ord_def)

lemma zero_digit: "is_digit (CHR ''0'')"
  by (simp add: is_digit_def ord_def)

lemma lit_sign_digit: "s \<noteq> [] \<Longrightarrow> is_digit (hd s) \<Longrightarrow> lit_sign (s @ r) = (False, s @ r)"
  using not_digits(3) by (cases s) (auto simp: lit_sign_def)

text \<open>The value of a literal from its parts.\<close>

lemma lit_value_parts:
  assumes "list_all is_digit i" "i \<noteq> []" "list_all is_digit f"
    and "e = [] \<or> (\<exists>g d. e = CHR ''e'' # g # d)"
  shows "lit_value (i @ (if f = [] then [] else ''.'' @ f) @ e) = of_nat (dec_value (i @ f)) * pow10 (lit_exp e - int (length f))"
proof -
  have d: "is_digit (hd i)" using assms(1,2) by (cases i) auto
  have e: "e = [] \<or> \<not> is_digit (hd e)" using assms(4) not_digits(2) by auto
  have f: "lit_frac ((if f = [] then [] else ''.'' @ f) @ e) = (f, e)"
    using take_digits_all [OF assms(3) e] assms(4) by (auto simp: lit_frac_def)
  have "take_digits (i @ (if f = [] then [] else ''.'' @ f) @ e) = (i, (if f = [] then [] else ''.'' @ f) @ e)"
    by (rule take_digits_all [OF assms(1)]) (use e not_digits(1) in auto)
  then show ?thesis using lit_sign_digit [OF assms(2) d] f by (simp add: lit_value_def Let_def)
qed

lemma point_form_value:
  assumes "list_all is_digit ds" "ds \<noteq> []"
  shows "lit_value (point_form ds k) = of_nat (dec_value ds) * pow10 k"
proof -
  consider (int) "0 \<le> k" | (frac) "k < 0" "length ds > nat (- k)" | (small) "k < 0" "length ds \<le> nat (- k)" by linarith
  then show ?thesis
  proof cases
    case int
    have "list_all is_digit (ds @ replicate (nat k) (CHR ''0''))" using assms(1) zero_digit by (auto simp: list_all_iff)
    then show ?thesis
      using lit_value_parts [of "ds @ replicate (nat k) (CHR ''0'')" "[]" "[]"] assms(2) int
      by (simp add: point_form_def dec_value_append dec_value_zeros lit_exp_def pow10_def)
  next
    case frac
    let ?n = "length ds - nat (- k)"
    have "drop ?n ds \<noteq> []" "take ?n ds \<noteq> []" using frac assms(2) by auto
    then show ?thesis
      using lit_value_parts [of "take ?n ds" "drop ?n ds" "[]"] assms frac
      by (simp add: point_form_def lit_exp_def list_all_iff) (metis in_set_takeD in_set_dropD)
  next
    case small
    let ?z = "replicate (nat (- k) - length ds) (CHR ''0'') @ ds"
    have "dec_value (''0'' @ ?z) = dec_value ds"
      using dec_value_append [of "''0''" ?z] dec_value_append [of "replicate (nat (- k) - length ds) (CHR ''0'')" ds]
      by (simp only: dec_value_zeros) (simp add: dec_value_def ord_def)
    moreover have "- int (length ?z) = k" using small by simp
    moreover have "list_all is_digit ?z" using assms(1) zero_digit by (auto simp: list_all_iff)
    ultimately show ?thesis
      using lit_value_parts [of "''0''" ?z "[]"] assms(2) small zero_digit
      by (simp add: point_form_def lit_exp_def)
  qed
qed

lemma exp_form_value:
  assumes "list_all is_digit ds" "ds \<noteq> []"
  shows "lit_value (exp_form ds k) = of_nat (dec_value ds) * pow10 k"
proof -
  obtain c t where ds: "ds = c # t" using assms(2) by (cases ds) auto
  define x where "x = int (length t) + k"
  define e where "e = CHR ''e'' # (if x < 0 then CHR 0x2D else CHR ''+'') # digits (nat \<bar>x\<bar>)"
  have "lit_exp e = x" by (simp add: e_def lit_exp_def)
  moreover have "exp_form ds k = [c] @ (if t = [] then [] else ''.'' @ t) @ e"
    by (simp add: exp_form_def ds e_def x_def Let_def)
  moreover have "lit_value ([c] @ (if t = [] then [] else ''.'' @ t) @ e) = of_nat (dec_value ([c] @ t)) * pow10 (lit_exp e - int (length t))"
    by (rule lit_value_parts) (use assms in \<open>auto simp: ds e_def\<close>)
  ultimately show ?thesis by (simp add: ds x_def)
qed


lemma quarter_even: "round_even (- x) = - round_even x"
proof -
  define f where "f = \<lfloor>x\<rfloor>"
  define d where "d = x - of_int f"
  have d: "0 \<le> d" "d < 1" by (auto simp: d_def f_def) linarith+
  have x: "x = of_int f + d" by (simp add: d_def)
  show ?thesis
  proof (cases "d = 0")
    case True
    have "round_even (of_int k) = k" for k by (simp add: round_even_def Let_def)
    then show ?thesis using x True by (metis add.right_neutral of_int_minus)
  next
    case False
    have fl: "\<lfloor>- x\<rfloor> = - f - 1" using d False by (simp add: x floor_eq_iff)
    have "round_even (- x) = (if 1 - d < 1 / 2 then - f - 1 else if 1 - d > 1 / 2 then - f else if even (- f - 1) then - f - 1 else - f)"
      unfolding round_even_def Let_def fl by (simp add: x)
    moreover have "round_even x = (if d < 1 / 2 then f else if d > 1 / 2 then f + 1 else if even f then f else f + 1)"
      by (simp add: round_even_def Let_def d_def f_def)
    ultimately show ?thesis by (cases "d < 1 / 2"; cases "d > 1 / 2") auto
  qed
qed

lemma f64_minus: "f64 (- x) = - f64 x"
  using quarter_even [of "x / pow2 e" for e] by (simp add: f64_def round_to_def Let_def)

text \<open>A double is an integer multiple of 2 ^ (- 1074).\<close>

lemma f64_grid: "f64 x = x \<Longrightarrow> \<exists>j. x * 2 ^ 1074 = of_int j"
proof -
  assume f: "f64 x = x"
  show ?thesis
  proof (cases "x = 0")
    case False
    define e where "e = max (ilog2 \<bar>x\<bar> - 52) (- 1074)"
    have x: "x = of_int (round_even (x / pow2 e)) * pow2 e" using f False by (simp add: f64_def round_to_def e_def Let_def)
    have "\<exists>j. pow2 e * 2 ^ 1074 = (of_int j :: rat)"
    proof (cases "0 \<le> e")
      case True
      then have "pow2 e * 2 ^ 1074 = of_int (2 ^ nat e * 2 ^ 1074)" by (simp add: pow2_def)
      then show ?thesis by blast
    next
      case neg: False
      have e: "nat (- e) \<le> 1074" by (simp add: e_def)
      have "pow2 e * 2 ^ 1074 = 2 ^ (1074 - nat (- e))" using neg power_diff [of "2::rat", OF _ e] by (simp add: pow2_def)
      then show ?thesis by (intro exI [of _ "2 ^ (1074 - nat (- e))"]) simp
    qed
    then obtain j where "pow2 e * 2 ^ 1074 = (of_int j :: rat)" by blast
    then have "x * 2 ^ 1074 = of_int (round_even (x / pow2 e) * j)" using x by (metis mult.assoc of_int_mult)
    then show ?thesis by blast
  qed (auto intro: exI [of _ 0])
qed

lemma scaled_int:
  fixes x :: rat
  assumes "x * 2 ^ n = of_int j" "0 < x"
  shows "\<exists>i > 0. x * 10 ^ n = of_int i"
proof -
  have "(10 :: rat) ^ n = 2 ^ n * 5 ^ n" by (simp flip: power_mult_distrib)
  then have "x * 10 ^ n = of_int (j * 5 ^ n)" using assms(1) by (metis mult.assoc of_int_mult of_int_numeral of_int_power)
  moreover have "0 < x * 10 ^ n" using assms(2) by simp
  ultimately show ?thesis by (metis of_int_0_less_iff)
qed

lemma scaled_back:
  fixes x :: rat
  assumes "0 < i" "x * 10 ^ n = of_int i"
  shows "of_nat (nat i) * pow10 (- int n) = x"
proof -
  have "of_nat (nat i) = x * 10 ^ n" using assms by simp
  then show ?thesis by (cases "n = 0") (simp_all add: pow10_def)
qed

lemma shortest_value:
  assumes "f64 x = x" "0 < x" "shortest x = (m, k)"
  shows "f64 (of_nat m * pow10 k) = x \<and> 0 < m"
proof (cases "List.find (\<lambda>(m, k). f64 (of_nat m * pow10 k) = x) (concat (map (decimals_near x) [1..<18]))")
  case (Some mk)
  obtain m0 k0 where mk: "mk = (m0, k0)" by (cases mk)
  have f: "f64 (of_nat m0 * pow10 k0) = x" using Some mk by (auto simp: find_Some_iff)
  have "0 < m0" using f assms(2) by (cases "m0 = 0") (auto simp: f64_def round_to_def)
  then show ?thesis using strip10_value [of m0 k0 m k] assms(3) f Some mk by (simp add: shortest_def)
next
  case None
  obtain j where j: "x * 2 ^ 1074 = of_int j" using f64_grid [OF assms(1)] by blast
  obtain i where i: "0 < i" "x * 10 ^ 1074 = of_int i" using scaled_int [OF j assms(2)] by blast
  have fl: "nat \<lfloor>x * 10 ^ 1074\<rfloor> = nat i" unfolding i(2) by (simp only: floor_of_int)
  have "of_nat (nat i) * pow10 (- int 1074) = x" by (rule scaled_back [OF i])
  then have v: "of_nat (nat i) * pow10 (- 1074) = x" by (simp only: of_nat_numeral)
  have "strip10 (nat i) (- 1074) = (m, k)" using assms(3) unfolding shortest_def None option.case fl .
  then show ?thesis using strip10_value [of "nat i" "- 1074" m k] i(1) v assms(1) by simp
qed

theorem ParseFloat64_json_float:
  assumes "f64 x = x" "\<bar>x\<bar> \<le> max_float"
  shows "ParseFloat64 (json_float x) = Some x"
proof (cases "x = 0")
  case False
  define a where "a = \<bar>x\<bar>"
  have a: "f64 a = a" "0 < a" using assms(1) False f64_minus [of x] by (auto simp: a_def abs_if)
  obtain m k where s: "shortest a = (m, k)" by (cases "shortest a")
  have v: "f64 (of_nat m * pow10 k) = a" using shortest_value [OF a s] by simp
  define l where "l = (if a < 1 / 10 ^ 6 \<or> a \<ge> 10 ^ 21 then exp_form (digits m) k else point_form (digits m) k)"
  have l: "lit_value l = of_nat m * pow10 k"
    unfolding l_def using exp_form_value [of "digits m"] point_form_value [of "digits m"] by (simp add: digits_are_digits)
  have d: "l \<noteq> [] \<and> is_digit (hd l)"
  proof -
    obtain c t where c: "digits m = c # t" "is_digit c" using digits_head by blast
    then show ?thesis using zero_digit by (auto simp: l_def exp_form_def point_form_def Let_def)
  qed
  have "lit_value (json_float x) = (if x < 0 then - lit_value l else lit_value l)"
  proof -
    have j: "json_float x = (if x < 0 then [CHR 0x2D] else []) @ l" using False s by (simp add: json_float_def a_def l_def Let_def)
    have "lit_sign l = (False, l)" using lit_sign_digit [of l "[]"] d by simp
    moreover have "lit_sign (CHR 0x2D # l) = (True, l)" by (simp add: lit_sign_def)
    ultimately show ?thesis unfolding j by (auto simp: lit_value_def Let_def split: prod.splits)
  qed
  then have "f64 (lit_value (json_float x)) = x" using v l f64_minus by (auto simp: a_def abs_if split: if_splits)
  then show ?thesis using assms(2) by (simp add: ParseFloat64_def)
qed (simp add: json_float_def ParseFloat64_def lit_value_def lit_sign_def take_digits_def lit_frac_def lit_exp_def dec_value_def
    f64_def round_to_def max_float_def is_digit_def ord_def)

section \<open>The literals are numbers\<close>

lemma digits_lead: "0 < m \<Longrightarrow> hd (digits m) \<noteq> CHR ''0'' \<and> is_digit (hd (digits m))"
  using digits_no_leading_zero [of m] by auto

lemma pint_nonzero:
  assumes "list_all is_digit s" "s \<noteq> []" "hd s \<noteq> CHR ''0''" "r = [] \<or> \<not> is_digit (hd r)"
  shows "pint (s @ r) = Some (s, r)"
  using take_digits_all [OF assms(1,4)] assms(1-3) by (cases s) (auto simp: pint_def)

lemma pexp_e:
  assumes "list_all is_digit d" "d \<noteq> []" "g = CHR 0x2D \<or> g = CHR ''+''"
  shows "pexp (CHR ''e'' # g # d) = Some (CHR ''e'' # g # d, [])"
  using take_digits_all [OF assms(1), of "[]"] assms(2,3) by (auto simp: pexp_def)

lemma num_ok_parts:
  assumes "pint (i @ f @ e) = Some (i, f @ e)" "pfrac (f @ e) = Some (f, e)" "pexp e = Some (e, [])" "i \<noteq> []" "is_digit (hd i)"
  shows "num_ok (i @ f @ e) \<and> num_ok (CHR 0x2D # i @ f @ e)"
proof -
  have "hd i \<noteq> CHR 0x2D" using assms(5) not_digits(3) by auto
  then show ?thesis using assms by (cases i) (auto simp: num_ok_def pnum_def)
qed

lemma pfrac_dot:
  assumes "list_all is_digit f" "f \<noteq> []" "e = [] \<or> \<not> is_digit (hd e)"
  shows "pfrac (''.'' @ f @ e) = Some (''.'' @ f, e)"
  using take_digits_all [OF assms(1,3)] assms(2) by (simp add: pfrac_def)

lemma pfrac_none: "e = [] \<or> hd e = CHR ''e'' \<Longrightarrow> pfrac e = Some ([], e)"
  by (cases e) (auto simp: pfrac_def)

lemma point_form_num_ok:
  assumes "list_all is_digit ds" "ds \<noteq> []" "hd ds \<noteq> CHR ''0''"
  shows "num_ok (point_form ds k) \<and> num_ok (CHR 0x2D # point_form ds k)"
proof -
  have dot: "\<not> is_digit (CHR ''.'')" by (rule not_digits)
  have hd: "is_digit (hd ds)" using assms(1,2) by (cases ds) auto
  have pe: "pexp [] = Some ([], [])" by (simp add: pexp_def)
  consider (int) "0 \<le> k" | (frac) "k < 0" "length ds > nat (- k)" | (small) "k < 0" "length ds \<le> nat (- k)" by linarith
  then show ?thesis
  proof cases
    case int
    let ?i = "ds @ replicate (nat k) (CHR ''0'')"
    have "list_all is_digit ?i" using assms(1) zero_digit by (auto simp: list_all_iff)
    then have "pint (?i @ [] @ []) = Some (?i, [] @ [])" using pint_nonzero [of ?i "[]"] assms(2,3) by simp
    then show ?thesis using num_ok_parts [of ?i "[]" "[]"] pe hd assms(2) int by (simp add: point_form_def pfrac_def)
  next
    case frac
    let ?n = "length ds - nat (- k)" let ?i = "take ?n ds" let ?f = "drop ?n ds"
    have l: "list_all is_digit ?i" "list_all is_digit ?f" using assms(1) by (auto simp: list_all_iff dest: in_set_takeD in_set_dropD)
    have n: "?i \<noteq> []" "?f \<noteq> []" "hd ?i = hd ds" using frac assms(2) by (auto simp: hd_take)
    have "pint (?i @ (''.'' @ ?f) @ []) = Some (?i, (''.'' @ ?f) @ [])" using pint_nonzero [OF l(1) n(1)] n(3) assms(3) dot by simp
    then show ?thesis using num_ok_parts [of ?i "''.'' @ ?f" "[]"] pfrac_dot [OF l(2) n(2), of "[]"] pe hd n frac by (simp add: point_form_def)
  next
    case small
    let ?f = "replicate (nat (- k) - length ds) (CHR ''0'') @ ds"
    have l: "list_all is_digit ?f" "?f \<noteq> []" using assms(1,2) zero_digit by (auto simp: list_all_iff)
    have "pint (''0'' @ (''.'' @ ?f) @ []) = Some (''0'', (''.'' @ ?f) @ [])" by (simp add: pint_def)
    then show ?thesis using num_ok_parts [of "''0''" "''.'' @ ?f" "[]"] pfrac_dot [OF l, of "[]"] pe zero_digit small
      by (simp add: point_form_def)
  qed
qed

lemma exp_form_num_ok:
  assumes "list_all is_digit ds" "ds \<noteq> []" "hd ds \<noteq> CHR ''0''"
  shows "num_ok (exp_form ds k) \<and> num_ok (CHR 0x2D # exp_form ds k)"
proof -
  obtain c t where ds: "ds = c # t" using assms(2) by (cases ds) auto
  define x where "x = int (length t) + k"
  define e where "e = CHR ''e'' # (if x < 0 then CHR 0x2D else CHR ''+'') # digits (nat \<bar>x\<bar>)"
  define f where "f = (if t = [] then [] else ''.'' @ t)"
  have form: "exp_form ds k = [c] @ f @ e" by (simp add: exp_form_def ds e_def x_def f_def Let_def)
  have pe: "pexp e = Some (e, [])" unfolding e_def by (rule pexp_e) (auto simp: digits_are_digits)
  have he: "e \<noteq> []" "hd e = CHR ''e''" by (simp_all add: e_def)
  have pf: "pfrac (f @ e) = Some (f, e)"
    using pfrac_dot [of t e] pfrac_none [of e] he assms(1) not_digits(2) by (auto simp: f_def ds)
  have "\<not> is_digit (hd (f @ e))" using he not_digits by (simp add: f_def)
  then have "pint ([c] @ f @ e) = Some ([c], f @ e)" using pint_nonzero [of "[c]" "f @ e"] assms(1,3) by (simp add: ds)
  then show ?thesis unfolding form using num_ok_parts [OF _ pf pe, of "[c]"] assms(1) by (simp add: ds)
qed

lemma num_ok_json_float:
  assumes "f64 x = x"
  shows "num_ok (json_float x)"
proof (cases "x = 0")
  case True
  have "num_ok (digits 0)" by (rule num_ok_digits)
  then show ?thesis using True by (simp add: json_float_def digits_0)
next
  case False
  have a: "f64 \<bar>x\<bar> = \<bar>x\<bar>" "0 < \<bar>x\<bar>" using assms False f64_minus [of x] by (auto simp: abs_if)
  obtain m k where s: "shortest \<bar>x\<bar> = (m, k)" by (cases "shortest \<bar>x\<bar>")
  have "0 < m" using shortest_value [OF a s] by simp
  then show ?thesis using False s point_form_num_ok [of "digits m" k] exp_form_num_ok [of "digits m" k] digits_lead [of m]
    by (simp add: json_float_def digits_are_digits)
qed

section \<open>Integers\<close>

text \<open>An integer below 2 ^ 53 is a double, and its literal is the integer itself.\<close>

lemma bitlen_bounds: "0 < n \<Longrightarrow> 2 ^ (bitlen n - 1) \<le> n \<and> n < 2 ^ bitlen n \<and> 0 < bitlen n"
proof (induction n rule: bitlen.induct)
  case (1 n)
  show ?case
  proof (cases "n = 1")
    case True
    then show ?thesis by (simp add: bitlen.simps)
  next
    case False
    then have "0 < n div 2" using "1.prems" by simp
    then have ih: "2 ^ (bitlen (n div 2) - 1) \<le> n div 2" "n div 2 < 2 ^ bitlen (n div 2)" "0 < bitlen (n div 2)"
      using 1 by simp_all
    have b: "bitlen n = Suc (bitlen (n div 2))" using "1.prems" by (simp add: bitlen.simps)
    obtain k where k: "bitlen (n div 2) = Suc k" using ih(3) by (cases "bitlen (n div 2)") auto
    show ?thesis using ih by (simp add: b k) linarith
  qed
qed

lemma round_even_int: "round_even (of_int k) = k"
  by (simp add: round_even_def Let_def)

lemma f64_nat:
  assumes "n < 2 ^ 53"
  shows "f64 (of_nat n) = of_nat n"
proof (cases "n = 0")
  case False
  then have pos: "0 < n" by simp
  have bl: "bitlen n \<le> 53"
  proof (rule ccontr)
    assume "\<not> bitlen n \<le> 53"
    then have "(2 :: nat) ^ 53 \<le> 2 ^ (bitlen n - 1)" by (intro power_increasing) auto
    then show False using bitlen_bounds [OF pos] assms by linarith
  qed
  have q: "quotient_of (of_nat n :: rat) = (int n, 1)"
    using quotient_of_int [of "int n"] by (simp add: Rat.of_int_def)
  have il: "ilog2 (of_nat n) = int (bitlen n) - 1 \<or> ilog2 (of_nat n) = int (bitlen n) - 2"
    by (simp add: ilog2_def q Let_def bitlen.simps)
  define e where "e = max (ilog2 \<bar>of_nat n\<bar> - (53 - 1)) (- 1074)"
  have e: "e \<le> 0" using il bl by (auto simp: e_def)
  have x: "of_nat n / pow2 e = of_int (int n * 2 ^ nat (- e))"
    using e by (auto simp: pow2_def)
  have "f64 (of_nat n) = of_int (round_even (of_nat n / pow2 e)) * pow2 e"
    using False by (simp add: f64_def round_to_def e_def Let_def)
  also have "\<dots> = of_nat n / pow2 e * pow2 e" unfolding x round_even_int ..
  also have "\<dots> = of_nat n" by (simp add: pow2_def)
  finally show ?thesis .
qed (simp add: f64_def round_to_def)

lemma digits_bounds: "0 < n \<Longrightarrow> 10 ^ (length (digits n) - 1) \<le> n \<and> n < 10 ^ length (digits n)"
proof (induction n rule: digits.induct)
  case (1 n)
  show ?case
  proof (cases "n < 10")
    case False
    then have "10 ^ (length (digits (n div 10)) - 1) \<le> n div 10 \<and> n div 10 < 10 ^ length (digits (n div 10))" using 1 by auto
    moreover have "length (digits n) = Suc (length (digits (n div 10)))" using False by (simp add: digits.simps [of n])
    moreover have "length (digits (n div 10)) = Suc (length (digits (n div 10)) - 1)" by (metis Suc_pred' digits_nonempty length_greater_0_conv)
    ultimately show ?thesis by (metis (no_types, lifting) Suc_leI diff_Suc_1 less_mult_imp_div_less le_simps(2) mult.commute power_Suc
          div_le_mono div_less_iff_less_mult less_eq_div_iff_mult_less_eq zero_less_numeral)
  qed (use 1 in \<open>simp add: digits.simps [of n]\<close>)
qed

lemma digits_times: "0 < m \<Longrightarrow> digits (m * 10 ^ k) = digits m @ replicate k (CHR ''0'')"
proof (induction k)
  case (Suc k)
  define n where "n = m * 10 ^ k"
  have n: "m * 10 ^ Suc k = n * 10" "0 < n" using Suc.prems by (simp_all add: n_def)
  have "digits (n * 10) = digits n @ [chr 48]" using n(2) by (simp add: digits.simps [of "n * 10"])
  moreover have "chr 48 = CHR ''0''" by code_simp
  ultimately show ?case using Suc unfolding n(1) by (simp add: n_def replicate_append_same)
qed simp

lemma ilog2_nat: "0 < n \<Longrightarrow> ilog2 (of_nat n) = int (bitlen n) - 1"
proof -
  assume n: "0 < n"
  have q: "quotient_of (of_nat n :: rat) = (int n, 1)"
    using quotient_of_int [of "int n"] by (simp add: Rat.of_int_def)
  have "pow2 (int (bitlen n) - 1) = of_nat (2 ^ (bitlen n - 1))" using bitlen_bounds [OF n] by (simp add: pow2_def nat_diff_distrib)
  also have "\<dots> \<le> of_nat n" using bitlen_bounds [OF n] by (simp only: of_nat_le_iff)
  finally have "pow2 (int (bitlen n) - 1) \<le> of_nat n" .
  moreover have "bitlen (Suc 0) = 1" by (simp add: bitlen.simps [of "Suc 0"] bitlen.simps [of 0])
  ultimately show ?thesis by (simp add: ilog2_def q Let_def)
qed

lemma round_even_ge: "of_int k \<le> y \<Longrightarrow> k \<le> round_even y"
proof -
  assume "of_int k \<le> y"
  then have "k \<le> \<lfloor>y\<rfloor>" by (simp add: le_floor_iff)
  then show ?thesis by (auto simp: round_even_def Let_def)
qed

lemma f64_large: 
  assumes "2 ^ 53 \<le> c"
  shows "2 ^ 53 \<le> f64 (of_nat c)"
proof -
  have pos: "0 < c" using assms by (simp add: less_le_trans [OF _ assms])
  define e where "e = bitlen c - 53"
  have bl: "54 \<le> bitlen c"
  proof (rule ccontr)
    assume "\<not> 54 \<le> bitlen c"
    then have "(2 :: nat) ^ bitlen c \<le> 2 ^ 53" by (intro power_increasing) auto
    then show False using bitlen_bounds [OF pos] assms by linarith
  qed
  have p: "pow2 (int e) = of_nat (2 ^ e)" by (simp add: pow2_def)
  have "f64 (of_nat c) = of_int (round_even (of_nat c / pow2 (int e))) * pow2 (int e)"
    using pos bl ilog2_nat [OF pos] by (simp add: f64_def round_to_def Let_def e_def)
  moreover have "(2 :: int) ^ 52 \<le> round_even (of_nat c / pow2 (int e))"
  proof (rule round_even_ge)
    have "52 + e = bitlen c - 1" using bl by (simp add: e_def)
    then have "2 ^ 52 * 2 ^ e \<le> c" using bitlen_bounds [OF pos] by (simp only: power_add [symmetric])
    then have "of_nat (2 ^ 52 * 2 ^ e) \<le> (of_nat c :: rat)" by (simp only: of_nat_le_iff)
    then show "of_int (2 ^ 52) \<le> of_nat c / pow2 (int e)" unfolding p by (simp add: pos_le_divide_eq)
  qed
  moreover have "(2 :: rat) \<le> pow2 (int e)"
    unfolding p using power_increasing [of 1 e "2 :: rat"] bl by (simp add: e_def)
  ultimately have "of_int (2 ^ 52) * 2 \<le> f64 (of_nat c)"
    by (simp only:) (intro mult_mono, simp_all only: of_int_le_iff, simp_all)
  then show ?thesis by simp
qed

lemma f64_nat_inj: "n < 2 ^ 53 \<Longrightarrow> f64 (of_nat c) = of_nat n \<Longrightarrow> c = n"
proof (cases "c < 2 ^ 53")
  case False
  assume "n < 2 ^ 53" "f64 (of_nat c) = of_nat n"
  moreover have "2 ^ 53 \<le> f64 (of_nat c)" by (rule f64_large) (use False in simp)
  moreover have "(of_nat n :: rat) < of_nat (2 ^ 53)" using \<open>n < 2 ^ 53\<close> by (simp only: of_nat_less_iff)
  ultimately show ?thesis by simp
qed (simp add: f64_nat)

lemma dec_exp_nat: "0 < n \<Longrightarrow> dec_exp (of_nat n) = int (length (digits n))"
proof -
  assume n: "0 < n"
  have q: "quotient_of (of_nat n :: rat) = (int n, 1)"
    using quotient_of_int [of "int n"] by (simp add: Rat.of_int_def)
  obtain l where l: "length (digits n) = Suc l" by (cases "length (digits n)") auto
  have "pow10 (int l) = of_nat (10 ^ l)" by (simp add: pow10_def)
  also have "\<dots> \<le> of_nat n" using digits_bounds [OF n] l by (simp only: of_nat_le_iff diff_Suc_1)
  finally have "pow10 (int l) \<le> of_nat n" .
  moreover have "length (digits (Suc 0)) = 1" by (simp add: digits.simps)
  ultimately show ?thesis by (simp add: dec_exp_def q Let_def l)
qed

text \<open>The shortest decimal of an integer that is a double exactly is that integer.\<close>

lemma shortest_nat:
  assumes "0 < n" "n < 2 ^ 53" "shortest (of_nat n) = (m, k)"
  shows "\<exists>j. k = int j \<and> m * 10 ^ j = n \<and> 0 < m"
proof -
  define L where "L = length (digits n)"
  have L: "0 < L" "L < 18"
  proof -
    have "10 ^ (L - 1) < (10 :: nat) ^ 16" using digits_bounds [OF assms(1)] assms(2) by (simp add: L_def)
    then show "L < 18" using power_less_imp_less_exp [of "10 :: nat" "L - 1" 16] by simp
    show "0 < L" by (simp add: L_def)
  qed
  let ?ok = "\<lambda>(m, k). f64 (of_nat m * pow10 k) = of_nat n"
  let ?near = "decimals_near (of_nat n)"
  have split: "[1..<18] = [1..<Suc L] @ [Suc L..<18]" using L upt_add_eq_append [of 1 "Suc L" "17 - L"] by simp
  have here: "(n, 0) \<in> set (?near L)"
    by (simp add: decimals_near_def Let_def dec_exp_nat [OF assms(1)] L_def pow10_def round_even_int [of "int n", simplified])
  have ok: "?ok (n, 0)" using f64_nat [OF assms(2)] by (simp add: pow10_def)
  have "List.find ?ok (concat (map ?near [1..<Suc L])) \<noteq> None"
    using here ok L(1) by (auto simp: find_None_iff intro!: bexI [of _ L])
  then obtain m0 k0 where f: "List.find ?ok (concat (map ?near [1..<Suc L])) = Some (m0, k0)" by auto
  then have "(m0, k0) \<in> set (concat (map ?near [1..<Suc L]))" "?ok (m0, k0)" by (auto simp: find_Some_iff dest: nth_mem)
  then have k0: "0 \<le> k0" and o: "f64 (of_nat m0 * pow10 k0) = of_nat n"
    by (auto simp: decimals_near_def Let_def dec_exp_nat [OF assms(1)] L_def)
  have "of_nat m0 * pow10 k0 = (of_nat (m0 * 10 ^ nat k0) :: rat)" using k0 by (simp add: pow10_def)
  then have c: "m0 * 10 ^ nat k0 = n" using f64_nat_inj [OF assms(2)] o by metis
  have "shortest (of_nat n) = strip10 m0 k0"
  proof -
    have "List.find ?ok (xs @ ys) = Some (m0, k0)" if "List.find ?ok xs = Some (m0, k0)" for xs ys
      using that by (induction xs) (auto split: if_splits)
    then have "List.find ?ok (concat (map ?near [1..<18])) = Some (m0, k0)" using f unfolding split by simp
    then show ?thesis by (simp add: shortest_def)
  qed
  moreover have "\<exists>j. k' = int j \<and> m' * 10 ^ j = m * 10 ^ i \<and> 0 < m'" if "strip10 m (int i) = (m', k')" "0 < m" for m i m' k'
    using that
  proof (induction m arbitrary: i rule: less_induct)
    case (less m)
    show ?case
    proof (cases "m mod 10 = 0")
      case True
      have "strip10 (m div 10) (int (Suc i)) = (m', k')" using less.prems True by (simp add: strip10.simps [of m] add.commute)
      moreover have "m div 10 < m" "0 < m div 10" using less.prems True by presburger+
      ultimately obtain j where "k' = int j" "m' * 10 ^ j = m div 10 * 10 ^ Suc i" "0 < m'" using less.IH by blast
      moreover have "m div 10 * 10 ^ Suc i = m * 10 ^ i" using True by (metis dvd_div_mult_self dvd_eq_mod_eq_0 mult.assoc power_Suc)
      ultimately show ?thesis by auto
    qed (use less.prems in \<open>simp add: strip10.simps [of m]\<close>)
  qed
  ultimately show ?thesis using assms(3) k0 c assms(1) by (metis int_nat_eq mult_eq_0_iff neq0_conv)
qed

lemma json_float_nat: "n < 2 ^ 53 \<Longrightarrow> json_float (of_nat n) = digits n"
proof (cases "n = 0")
  case False
  assume n: "n < 2 ^ 53"
  obtain m k where s: "shortest (of_nat n) = (m, k)" by (cases "shortest (of_nat n)")
  then obtain j where j: "k = int j" "m * 10 ^ j = n" "0 < m" using shortest_nat n False by blast
  have "(of_nat n :: rat) < of_nat (2 ^ 53)" using n by (simp only: of_nat_less_iff)
  then have "\<not> (10 ^ 21 \<le> (of_nat n :: rat))" by simp
  moreover have "\<not> (of_nat n < (1 / 10 ^ 6 :: rat))" using False by (simp add: not_less divide_le_eq)
  moreover have "digits n = digits m @ replicate j (CHR ''0'')" using digits_times [OF j(3)] j(2) by metis
  ultimately show ?thesis using False s j(1) by (simp add: json_float_def point_form_def)
qed (simp add: json_float_def digits_0)

lemma lit_value_digits: "lit_value (digits n) = of_nat n"
  using lit_value_parts [of "digits n" "[]" "[]"] by (simp add: digits_are_digits lit_exp_def pow10_def)

lemma max_float_large: "n < 2 ^ 53 \<Longrightarrow> of_nat n \<le> max_float"
proof -
  assume "n < 2 ^ 53"
  then have "of_nat n \<le> (of_nat (2 ^ 53 - 1) :: rat)" by (simp only: of_nat_le_iff)
  also have "\<dots> \<le> (2 ^ 53 - 1) * 2 ^ 971" by simp
  finally show ?thesis by (simp only: max_float_def)
qed

lemma ParseFloat64_Itoa: "\<bar>i\<bar> < 2 ^ 53 \<Longrightarrow> ParseFloat64 (Itoa i) = Some (of_int i)"
proof -
  assume i: "\<bar>i\<bar> < 2 ^ 53"
  define n where "n = nat \<bar>i\<bar>"
  have n: "n < 2 ^ 53" using i by (simp add: n_def nat_less_iff)
  note f = f64_nat [OF n] max_float_large [OF n]
  show ?thesis
  proof (cases "i < 0")
    case False
    then have "(of_int i :: rat) = of_nat n" by (simp add: n_def)
    moreover have "Itoa i = digits n" using False by (simp add: Itoa_def n_def)
    ultimately show ?thesis using f by (simp add: ParseFloat64_def lit_value_digits)
  next
    case True
    have "lit_sign (digits n) = (False, digits n)" using lit_sign_digit [of "digits n" "[]"] digits_head [of n] by auto
    then have "lit_value (CHR 0x2D # digits n) = - of_nat n"
      using lit_value_digits [of n] by (simp add: lit_value_def lit_sign_def Let_def split: prod.splits)
    moreover have "(of_int i :: rat) = - of_nat n" "Itoa i = CHR 0x2D # digits n" using True by (simp_all add: n_def Itoa_def)
    ultimately show ?thesis using f f64_minus by (simp add: ParseFloat64_def)
  qed
qed

lemma json_float_int: "\<bar>i\<bar> < 2 ^ 53 \<Longrightarrow> json_float (of_int i) = Itoa i"
proof -
  assume i: "\<bar>i\<bar> < 2 ^ 53"
  define n where "n = nat \<bar>i\<bar>"
  have n: "n < 2 ^ 53" using i by (simp add: n_def nat_less_iff)
  show ?thesis
  proof (cases "i < 0")
    case False
    then have "(of_int i :: rat) = of_nat n" "Itoa i = digits n" by (simp_all add: Itoa_def n_def)
    then show ?thesis using json_float_nat [OF n] by simp
  next
    case True
    then have "0 < n" "Itoa i = CHR 0x2D # digits n" "(of_int i :: rat) = - of_nat n" by (simp_all add: n_def Itoa_def)
    then show ?thesis using json_float_nat [OF n] by (cases "shortest (of_nat n)") (simp add: json_float_def)
  qed
qed

lemma float_literal_Itoa: "\<bar>i\<bar> < 2 ^ 53 \<Longrightarrow> float_literal (Itoa i) = Itoa i"
  by (simp add: float_literal_def ParseFloat64_Itoa json_float_int)

end
