(* ===== verification/AcpProps.thy ===== *)
theory AcpProps
  imports Acp GoNumber
begin

text \<open>
  What the ACP endpoints guarantee: the event cache as a Redis sorted set and what a RESUME gets from it, the bytes a session writes
  for a run, and the sessions whose queue overflows.
\<close>

section \<open>Members of the cache\<close>

lemma decode_encode [simp]: "decodeMember (encodeMember seq payload) = Some (seq, payload)"
proof -
  have w: "(word_of_nat (ord (chr (unat b))) :: u64) = ucast b" for b :: byte
  proof -
    have "unat b < 2 ^ LENGTH(8)" by (rule unsigned_less)
    then show ?thesis by (simp add: ord_def chr_def)
  qed
  have "foldl (\<lambda>s c. push_bit 8 s OR word_of_nat (ord c)) a (map (\<lambda>b. chr (unat b)) bs) =
      foldl (\<lambda>acc b. push_bit 8 acc OR ucast b) (a :: u64) bs" for a and bs :: "byte list"
    by (induction bs arbitrary: a) (simp_all add: w)
  then have f: "foldl (\<lambda>s c. push_bit 8 s OR word_of_nat (ord c)) 0 (of_bytes bs) = Uint64 bs" for bs
    by (simp add: of_bytes_def Uint64_def)
  have "encodeMember seq payload = payload @ of_bytes (PutUint64 seq)"
    by (simp add: encodeMember_def PutUint64_def mult.commute)
  then show ?thesis by (simp add: decodeMember_def f)
qed

section \<open>What the cache holds\<close>

text \<open>Redis sorted sets, as view shows them: ZADD sets the score of a member, EXPIRE with a positive time to live keeps the key (what follows happens before it is over), and a range by
  score lists the members above the bound by score. The bound is the decimal text after a parenthesis, read as a double.\<close>

definition zset_laws :: "'w EventCache \<Rightarrow> ('w \<Rightarrow> string \<Rightarrow> string \<rightharpoonup> rat) \<Rightarrow> bool" where
  "zset_laws C view =
     ((\<forall>w k sc m. case ce_zadd C w k sc m of
          (None, w1) \<Rightarrow> view w1 = (view w)(k := (view w k)(m \<mapsto> sc)) | (Some e, w1) \<Rightarrow> view w1 = view w) \<and>
      (\<forall>w k t. 0 < t \<longrightarrow> view (ce_expire C w k t) = view w) \<and>
      (\<forall>w k n. case ce_zrange C w k (''('' @ digits n) ''+inf'' of
          (Inl e, w1) \<Rightarrow> view w1 = view w
        | (Inr ms, w1) \<Rightarrow> view w1 = view w \<and> distinct ms \<and>
            set ms = {m. \<exists>sc. view w k m = Some sc \<and> f64 (of_nat n) < sc} \<and>
            sorted_wrt (\<lambda>a b. the (view w k a) \<le> the (view w k b)) ms))"

lemma zset_lawsD:
  assumes "zset_laws C view"
  shows "ce_zadd C w k sc m = (None, w1) \<Longrightarrow> view w1 = (view w)(k := (view w k)(m \<mapsto> sc))"
    and "0 < t \<Longrightarrow> view (ce_expire C w k t) = view w"
    and "ce_zrange C w k (''('' @ digits n) ''+inf'' = (Inr ms, w2) \<Longrightarrow> view w2 = view w \<and> distinct ms \<and>
      set ms = {m. \<exists>sc. view w k m = Some sc \<and> f64 (of_nat n) < sc} \<and>
      sorted_wrt (\<lambda>a b. the (view w k a) \<le> the (view w k b)) ms"
proof -
  note a = assms [unfolded zset_laws_def]
  show "ce_zadd C w k sc m = (None, w1) \<Longrightarrow> view w1 = (view w)(k := (view w k)(m \<mapsto> sc))"
    using conjunct1 [OF a, THEN spec, of w, THEN spec, of k, THEN spec, of sc, THEN spec, of m] by simp
  show "0 < t \<Longrightarrow> view (ce_expire C w k t) = view w" using a by blast
  show "ce_zrange C w k (''('' @ digits n) ''+inf'' = (Inr ms, w2) \<Longrightarrow> view w2 = view w \<and> distinct ms \<and>
      set ms = {m. \<exists>sc. view w k m = Some sc \<and> f64 (of_nat n) < sc} \<and>
      sorted_wrt (\<lambda>a b. the (view w k a) \<le> the (view w k b)) ms"
    using conjunct2 [OF conjunct2 [OF a], THEN spec, of w, THEN spec, of k, THEN spec, of n] by simp
qed

text \<open>The sorted set of a run after events 1, 2, ... with the given payloads.\<close>

definition cached :: "string list \<Rightarrow> string \<rightharpoonup> rat" where
  "cached ps m =
     (case decodeMember m of
        None \<Rightarrow> None
      | Some (q, p) \<Rightarrow>
          if 0 < unat q \<and> unat q \<le> length ps \<and> p = ps ! (unat q - 1) \<and> m = encodeMember q p then Some (of_nat (unat q)) else None)"

lemma cached_Nil [simp]: "cached [] = Map.empty"
  by (rule ext) (auto simp: cached_def split: option.splits)

lemma unat_small: "n < 2 ^ 53 \<Longrightarrow> unat (word_of_nat n :: u64) = n"
  by (simp add: unsigned_of_nat take_bit_nat_eq_self_iff)

lemma cached_snoc:
  assumes "Suc (length ps) < 2 ^ 53"
  shows "cached (ps @ [p]) = (cached ps)(encodeMember (word_of_nat (Suc (length ps))) p \<mapsto> of_nat (Suc (length ps)))"
proof (rule ext)
  fix m
  let ?q = "word_of_nat (Suc (length ps)) :: u64"
  have q: "unat ?q = Suc (length ps)" using assms by (rule unat_small)
  show "cached (ps @ [p]) m = ((cached ps)(encodeMember ?q p \<mapsto> of_nat (Suc (length ps)))) m"
  proof (cases "m = encodeMember ?q p")
    case True
    then show ?thesis using q by (simp add: cached_def)
  next
    case False
    have "unat q = Suc (length ps) \<Longrightarrow> q = ?q" for q :: u64 using q by (metis word_unat_eq_iff)
    then show ?thesis using False
      by (auto simp: cached_def nth_append le_Suc_eq split: option.splits prod.splits)
  qed
qed

lemma cached_Some:
  assumes "length ps < 2 ^ 53"
  shows "cached ps m = Some sc \<longleftrightarrow>
    (\<exists>j. 0 < j \<and> j \<le> length ps \<and> m = encodeMember (word_of_nat j) (ps ! (j - 1)) \<and> sc = of_nat j)"
proof
  assume "cached ps m = Some sc"
  then obtain q p where "decodeMember m = Some (q, p)" "0 < unat q" "unat q \<le> length ps" "p = ps ! (unat q - 1)"
    "m = encodeMember q p" "sc = of_nat (unat q)"
    by (auto simp: cached_def split: option.splits prod.splits if_splits)
  then show "\<exists>j. 0 < j \<and> j \<le> length ps \<and> m = encodeMember (word_of_nat j) (ps ! (j - 1)) \<and> sc = of_nat j"
    by (intro exI [of _ "unat q"]) simp
next
  assume "\<exists>j. 0 < j \<and> j \<le> length ps \<and> m = encodeMember (word_of_nat j) (ps ! (j - 1)) \<and> sc = of_nat j"
  then obtain j where j: "0 < j" "j \<le> length ps" "m = encodeMember (word_of_nat j) (ps ! (j - 1))" "sc = of_nat j" by blast
  have "unat (word_of_nat j :: u64) = j" using j(2) assms by (intro unat_small) linarith
  then show "cached ps m = Some sc" using j by (simp add: cached_def)
qed

lemma NewEventCache_ttl: "0 < ce_ttl (NewEventCache cli ttl)"
  by (simp add: NewEventCache_def one_hour_def)

lemma zadd_cached:
  assumes "zset_laws C view" "view w (cache_Key rid) = cached ps" "Suc (length ps) < 2 ^ 53"
    and "fst (Cache_Append C w rid (word_of_nat (Suc (length ps))) p) = None" "0 < ce_ttl C"
  shows "view (snd (Cache_Append C w rid (word_of_nat (Suc (length ps))) p)) (cache_Key rid) = cached (ps @ [p])"
proof -
  let ?q = "word_of_nat (Suc (length ps)) :: u64"
  have q: "unat ?q = Suc (length ps)" using assms(3) by (rule unat_small)
  have f: "f64 (of_nat (unat ?q)) = of_nat (Suc (length ps))" using f64_nat [OF assms(3)] by (simp only: q)
  obtain e w1 where z: "ce_zadd C w (cache_Key rid) (f64 (of_nat (unat ?q))) (encodeMember ?q p) = (e, w1)" by fastforce
  have e: "e = None" using assms(4) z by (simp add: Cache_Append_def del: of_nat_Suc split: option.splits)
  have "view w1 = (view w)(cache_Key rid := (view w (cache_Key rid))(encodeMember ?q p \<mapsto> f64 (of_nat (unat ?q))))"
    using zset_lawsD(1) [OF assms(1)] z e by blast
  moreover have "view (ce_expire C w1 k (ce_ttl C)) = view w1" for k by (rule zset_lawsD(2) [OF assms(1,5)])
  ultimately show ?thesis using z e assms(2) cached_snoc [OF assms(3), of p]
    by (simp add: Cache_Append_def f [simplified of_nat_unat] del: of_nat_Suc)
qed

lemma Replay_cached:
  assumes "zset_laws C view" "view w (cache_Key rid) = cached ps" "length ps < 2 ^ 53" "k < 2 ^ 53"
    and "Cache_Replay C w rid k = (Inr evs, w1)"
  shows "evs = map (\<lambda>i. (word_of_nat (Suc i), ps ! i)) [k..<length ps] \<and> view w1 = view w"
proof -
  obtain ms where z: "ce_zrange C w (cache_Key rid) (''('' @ digits k) ''+inf'' = (Inr ms, w1)"
    and evs: "evs = List.map_filter decodeMember ms"
    using assms(5) by (auto simp: Cache_Replay_def split: prod.splits sum.splits)
  have l: "view w1 = view w" "distinct ms" "set ms = {m. \<exists>sc. cached ps m = Some sc \<and> f64 (of_nat k) < sc}"
    "sorted_wrt (\<lambda>a b. the (cached ps a) \<le> the (cached ps b)) ms"
    using zset_lawsD(3) [OF assms(1) z] unfolding assms(2) by blast+
  let ?f = "\<lambda>i. encodeMember (word_of_nat (Suc i)) (ps ! i)"
  let ?g = "\<lambda>m. unat (fst (the (decodeMember m))) - 1"
  have mem: "m \<in> set ms \<longleftrightarrow> (\<exists>i. k \<le> i \<and> i < length ps \<and> m = ?f i)" for m
  proof -
    have "m \<in> set ms \<longleftrightarrow> (\<exists>j. 0 < j \<and> j \<le> length ps \<and> m = encodeMember (word_of_nat j) (ps ! (j - 1)) \<and> k < j)"
      by (simp add: l(3) cached_Some [OF assms(3)] f64_nat [OF assms(4)]) (metis of_nat_less_iff)
    also have "\<dots> \<longleftrightarrow> (\<exists>i. k \<le> i \<and> i < length ps \<and> m = ?f i)"
      by (metis Suc_le_eq Suc_pred diff_Suc_1 less_Suc_eq_le zero_less_Suc)
    finally show ?thesis .
  qed
  have g: "?g (?f i) = i" "cached ps (?f i) = Some (of_nat (Suc i))" if "i < length ps" for i
  proof -
    have u: "unat (word_of_nat (Suc i) :: u64) = Suc i" using that assms(3) by (intro unat_small) linarith
    then show "?g (?f i) = i" by (simp del: of_nat_Suc)
    show "cached ps (?f i) = Some (of_nat (Suc i))" using that by (subst cached_Some [OF assms(3)]) (intro exI [of _ "Suc i"], simp)
  qed
  have gs: "set (map ?g ms) = {k..<length ps}"
  proof -
    have "set ms = ?f ` {k..<length ps}" using mem by auto
    then have "set (map ?g ms) = (\<lambda>i. ?g (?f i)) ` {k..<length ps}" by (simp add: image_image)
    also have "\<dots> = {k..<length ps}" using g(1) by (auto simp: image_iff)
    finally show ?thesis .
  qed
  have mf: "m = ?f (?g m) \<and> ?g m < length ps" if "m \<in> set ms" for m
    using mem [of m] that g(1) by auto
  have so: "sorted (map ?g ms)"
    unfolding sorted_wrt_map
  proof (rule sorted_wrt_mono_rel [OF _ l(4)])
    fix a b assume "a \<in> set ms" "b \<in> set ms" "the (cached ps a) \<le> the (cached ps b)"
    then show "?g a \<le> ?g b" using mf [of a] mf [of b] g(2) [of "?g a"] g(2) [of "?g b"] by (metis Suc_le_mono of_nat_le_iff option.sel)
  qed
  have "inj_on ?g (set ms)" by (rule inj_onI) (metis mf)
  then have "distinct (map ?g ms)" using l(2) by (simp add: distinct_map)
  then have eq: "map ?g ms = [k..<length ps]"
    using so gs by (intro sorted_distinct_set_unique) auto
  have "ms = map ?f (map ?g ms)" using mf by (simp add: map_idI [symmetric] cong: map_cong)
  then have "ms = map ?f [k..<length ps]" by (simp only: eq)
  then show ?thesis using l(1) by (simp add: evs List.map_filter_def o_def)
qed

section \<open>What reaches the peer\<close>

text \<open>A connection whose writes succeed, out being what has been written; the other operations write nothing.\<close>

definition conn_laws :: "'w AcpEnv \<Rightarrow> ('w \<Rightarrow> byte list) \<Rightarrow> bool" where
  "conn_laws A out =
     ((\<forall>w bs. fst (ae_write A w bs) = None \<and> out (snd (ae_write A w bs)) = out w @ bs) \<and>
      (\<forall>w. out (snd (ae_progress A w)) = out w \<and> out (snd (ae_new_run A w)) = out w \<and> out (snd (ae_new_trace A w)) = out w) \<and>
      (\<forall>C w. ae_cache A = Some C \<longrightarrow>
         (\<forall>k sc m. out (snd (ce_zadd C w k sc m)) = out w) \<and> (\<forall>k t. out (ce_expire C w k t) = out w)))"

lemma conn_lawsD:
  assumes "conn_laws A out"
  shows "fst (ae_write A w bs) = None" "out (snd (ae_write A w bs)) = out w @ bs"
    and "out (snd (ae_progress A w)) = out w" "out (snd (ae_new_run A w)) = out w" "out (snd (ae_new_trace A w)) = out w"
    and "ae_cache A = Some C \<Longrightarrow> out (snd (Cache_Append C w rid q p)) = out w"
  using assms unfolding conn_laws_def Cache_Append_def by (auto split: prod.split option.split) (metis snd_conv)+

definition wire :: "('w \<Rightarrow> byte list) \<Rightarrow> 'w session \<Rightarrow> byte list" where
  "wire out s = out (ss_world s) @ concat (map frame_bytes (ss_sendCh s))"

definition small :: "Frame \<Rightarrow> bool" where "small f = (length (Frame_Payload f) \<le> MaxPayloadSize)"

definition sess_ok :: "'w session \<Rightarrow> bool" where
  "sess_ok s = (\<not> ss_draining s \<and> (\<forall>f\<in>set (ss_sendCh s). small f))"

text \<open>The fields the goroutines below do not touch.\<close>

definition same_run :: "'w session \<Rightarrow> 'w session \<Rightarrow> bool" where
  "same_run s s' = (ss_in s' = ss_in s \<and> ss_runID s' = ss_runID s \<and> ss_traceID s' = ss_traceID s \<and> ss_seqGen s' = ss_seqGen s)"

lemma same_run_refl [simp]: "same_run s s" by (simp add: same_run_def)

lemma same_run_trans: "same_run s s' \<Longrightarrow> same_run s' s'' \<Longrightarrow> same_run s s''" by (simp add: same_run_def)

lemma writer_step_frame:
  "same_run s (writer_step A s) \<and> ss_closed (writer_step A s) = ss_closed s \<and> ss_sendCh (writer_step A s) = tl (ss_sendCh s)"
  by (auto simp: writer_step_def same_run_def split: list.split prod.split option.split)

lemma writer_step_wire:
  assumes "conn_laws A out" "sess_ok s"
  shows "wire out (writer_step A s) = wire out s \<and> sess_ok (writer_step A s)"
proof (cases "ss_sendCh s")
  case (Cons f q)
  obtain e w where w: "ae_write A (ss_world s) (frame_bytes f) = (e, w)" by fastforce
  then have "e = None" "out w = out (ss_world s) @ frame_bytes f" using conn_lawsD(1,2) [OF assms(1)] by (metis fst_conv snd_conv)+
  then show ?thesis using Cons w assms(2)
    by (simp add: writer_step_def sess_ok_def small_def WriteFrame_def wire_def)
qed (use assms in \<open>simp add: writer_step_def\<close>)

lemma writer_runs_frame:
  "same_run s (writer_runs A n s) \<and> ss_closed (writer_runs A n s) = ss_closed s \<and> ss_sendCh (writer_runs A n s) = drop n (ss_sendCh s)"
proof (induction n)
  case (Suc n)
  then show ?case using writer_step_frame [of "writer_runs A n s" A]
    by (auto simp: writer_runs_def tl_drop drop_Suc intro: same_run_trans)
qed (simp add: writer_runs_def)

lemma writer_runs_wire:
  assumes "conn_laws A out" "sess_ok s"
  shows "wire out (writer_runs A n s) = wire out s \<and> sess_ok (writer_runs A n s)"
  by (induction n) (use assms writer_step_wire in \<open>auto simp: writer_runs_def\<close>)

lemma send_frame: "same_run s (send A s f) \<and> (ss_closed s \<longrightarrow> ss_closed (send A s f))"
proof -
  obtain k w where k: "ae_progress A (ss_world s) = (k, w)" by fastforce
  show ?thesis using k writer_runs_frame [of "s\<lparr> ss_world := w \<rparr>" A k] by (auto simp: send_def same_run_def Let_def)
qed

lemma send_wire:
  assumes "conn_laws A out" "sess_ok s" "small f" "\<not> ss_closed (send A s f)"
  shows "wire out (send A s f) = wire out s @ frame_bytes f \<and> sess_ok (send A s f)"
proof -
  obtain k w where k: "ae_progress A (ss_world s) = (k, w)" by fastforce
  have nc: "\<not> ss_closed s" using assms(4) send_frame [of s A f] by blast
  let ?s = "s\<lparr> ss_world := w \<rparr>"
  have "out w = out (ss_world s)" using conn_lawsD(3) [OF assms(1), of "ss_world s"] k by simp
  then have "wire out ?s = wire out s" "sess_ok ?s" using assms(2) by (simp_all add: wire_def sess_ok_def)
  then have r: "wire out (writer_runs A k ?s) = wire out s" "sess_ok (writer_runs A k ?s)"
    using writer_runs_wire [OF assms(1)] by metis+
  have "length (ss_sendCh (writer_runs A k ?s)) < sendCap"
    using assms(4) nc k by (auto simp: send_def Let_def split: if_splits)
  then show ?thesis using r nc k assms(3) by (simp add: send_def wire_def sess_ok_def Let_def)
qed

section \<open>Emitting events\<close>

fun emits :: "'w AcpEnv \<Rightarrow> 'w session \<Rightarrow> BusinessEvent list \<Rightarrow> string option \<times> 'w session" where
  "emits A s [] = (None, s)"
| "emits A s (b # bs) = (case emit A s b of (Some e, s1) \<Rightarrow> (Some e, s1) | (None, s1) \<Rightarrow> emits A s1 bs)"

definition event_bytes :: "'w AcpEnv \<Rightarrow> 'w session \<Rightarrow> BusinessEvent \<Rightarrow> (string, string) result" where
  "event_bytes A s b = ae_enc_event A (businessToProto (ss_runID s) (ss_traceID s) (ae_now A (ss_world s)) b)"

text \<open>The encodings of the events, at the times they are emitted.\<close>

fun raws :: "'w AcpEnv \<Rightarrow> 'w session \<Rightarrow> BusinessEvent list \<Rightarrow> string list" where
  "raws A s [] = []"
| "raws A s (b # bs) = (case event_bytes A s b of Inl e \<Rightarrow> [] | Inr raw \<Rightarrow> raw # raws A (snd (emit A s b)) bs)"

fun event_frames :: "u64 \<Rightarrow> BusinessEvent list \<Rightarrow> string list \<Rightarrow> Frame list" where
  "event_frames q (b # bs) (r # rs) = mk_frame FrameEvent (emit_flags b) (q + 1) r # event_frames (q + 1) bs rs"
| "event_frames q _ _ = []"

lemma small_mk [simp]: "small (mk_frame ty fl q p) = (length p \<le> MaxPayloadSize)"
  by (simp add: small_def mk_frame_def)

text \<open>What one emit does when it returns nil.\<close>

definition before_send :: "'w AcpEnv \<Rightarrow> 'w session \<Rightarrow> string \<Rightarrow> 'w session" where
  "before_send A s raw =
     (let s1 = s\<lparr> ss_seqGen := ss_seqGen s + 1 \<rparr>
      in case ae_cache A of None \<Rightarrow> s1
         | Some C \<Rightarrow> s1\<lparr> ss_world := snd (Cache_Append C (ss_world s) (ss_runID s) (ss_seqGen s + 1) raw) \<rparr>)"

lemma emit_None:
  "emit A s b = (None, s') \<longleftrightarrow> \<not> ss_closed s \<and> (\<exists>raw. event_bytes A s b = Inr raw \<and>
     s' = send A (before_send A s raw) (mk_frame FrameEvent (emit_flags b) (ss_seqGen s + 1) raw))"
  by (auto simp: emit_def event_bytes_def before_send_def Let_def split: sum.split option.split)

lemma before_send_frame:
  "ss_seqGen (before_send A s raw) = ss_seqGen s + 1" "ss_sendCh (before_send A s raw) = ss_sendCh s"
  "ss_closed (before_send A s raw) = ss_closed s" "ss_runID (before_send A s raw) = ss_runID s"
  "ss_traceID (before_send A s raw) = ss_traceID s" "ss_in (before_send A s raw) = ss_in s" "ss_draining (before_send A s raw) = ss_draining s"
  by (auto simp: before_send_def Let_def split: option.split)

lemma before_send_wire:
  "conn_laws A out \<Longrightarrow> wire out (before_send A s raw) = wire out s"
  using conn_lawsD(6) [of A out] by (auto simp: before_send_def wire_def Let_def split: option.split)

lemma emit_frame: "ss_in (snd (emit A s b)) = ss_in s \<and> ss_runID (snd (emit A s b)) = ss_runID s \<and>
    ss_traceID (snd (emit A s b)) = ss_traceID s \<and> (ss_closed s \<longrightarrow> ss_closed (snd (emit A s b)))"
  using send_frame [of _ A] by (auto simp: emit_def same_run_def Let_def split: sum.split option.split)

lemma emits_frame: "ss_in (snd (emits A s bs)) = ss_in s \<and> ss_runID (snd (emits A s bs)) = ss_runID s \<and>
    ss_traceID (snd (emits A s bs)) = ss_traceID s \<and> (ss_closed s \<longrightarrow> ss_closed (snd (emits A s bs)))"
proof (induction bs arbitrary: s)
  case (Cons b bs)
  show ?case using Cons.IH [of "snd (emit A s b)"] emit_frame [of A s b] by (auto split: prod.split option.split)
qed simp

lemma emits_wire:
  assumes "conn_laws A out" "sess_ok s" "emits A s bs = (None, s')" "\<not> ss_closed s'"
    and "\<forall>r\<in>set (raws A s bs). length r \<le> MaxPayloadSize"
  shows "wire out s' = wire out s @ concat (map frame_bytes (event_frames (ss_seqGen s) bs (raws A s bs))) \<and> sess_ok s' \<and>
    length (raws A s bs) = length bs"
  using assms(2,3,5)
proof (induction bs arbitrary: s)
  case (Cons b bs)
  obtain s1 where e: "emit A s b = (None, s1)" and es: "emits A s1 bs = (None, s')"
    using Cons.prems(2) by (auto split: prod.splits option.splits)
  then obtain raw where r: "event_bytes A s b = Inr raw" "\<not> ss_closed s"
    "s1 = send A (before_send A s raw) (mk_frame FrameEvent (emit_flags b) (ss_seqGen s + 1) raw)"
    by (auto simp: emit_None)
  have rs: "raws A s (b # bs) = raw # raws A s1 bs" using r(1) e by simp
  have nc: "\<not> ss_closed s1" using emits_frame [of A s1 bs] es assms(4) by auto
  have lr: "length raw \<le> MaxPayloadSize" "\<forall>r\<in>set (raws A s1 bs). length r \<le> MaxPayloadSize"
    using Cons.prems(3) unfolding rs by simp_all
  have ok: "sess_ok (before_send A s raw)" using Cons.prems(1) by (simp add: sess_ok_def before_send_frame)
  have "wire out s1 = wire out (before_send A s raw) @ frame_bytes (mk_frame FrameEvent (emit_flags b) (ss_seqGen s + 1) raw) \<and> sess_ok s1"
    unfolding r(3) by (rule send_wire [OF assms(1) ok]) (use lr(1) nc r(3) in simp_all)
  moreover have "ss_seqGen s1 = ss_seqGen s + 1"
    using send_frame [of "before_send A s raw" A] r(3) by (simp add: same_run_def before_send_frame)
  ultimately show ?case
    using Cons.IH [OF _ es lr(2)] before_send_wire [OF assms(1), of s raw] unfolding rs by simp
qed simp

section \<open>Resuming a run\<close>

definition keeps_view :: "'w AcpEnv \<Rightarrow> ('w \<Rightarrow> 'v) \<Rightarrow> bool" where
  "keeps_view A view = (\<forall>w. (\<forall>bs. view (snd (ae_write A w bs)) = view w) \<and> view (ae_close A w) = view w \<and>
     view (snd (ae_progress A w)) = view w)"

lemma writer_runs_view:
  assumes "keeps_view A view"
  shows "view (ss_world (writer_runs A n s)) = view (ss_world s)"
proof (induction n)
  case (Suc n)
  have "view (ss_world (writer_step A t)) = view (ss_world t)" for t
    using assms by (auto simp: writer_step_def WriteFrame_def keeps_view_def split: list.split prod.split option.split) (metis snd_conv)+
  then show ?case using Suc by (simp add: writer_runs_def)
qed (simp add: writer_runs_def)

lemma send_view:
  assumes "keeps_view A view"
  shows "view (ss_world (send A s f)) = view (ss_world s)"
proof -
  obtain k w where k: "ae_progress A (ss_world s) = (k, w)" by fastforce
  have "view w = view (ss_world s)" using assms k unfolding keeps_view_def by (metis snd_conv)
  then show ?thesis using k writer_runs_view [OF assms, of k "s\<lparr> ss_world := w \<rparr>"] assms
    by (simp add: send_def keeps_view_def Let_def)
qed

lemma emits_cached:
  assumes "ae_cache A = Some C" "zset_laws C view" "keeps_view A view" "\<forall>w k sc m. fst (ce_zadd C w k sc m) = None"
    and "emits A s bs = (None, s')" "ss_seqGen s = word_of_nat (length ps)"
    and "view (ss_world s) (cache_Key (ss_runID s)) = cached ps" "length ps + length bs < 2 ^ 53" "0 < ce_ttl C"
  shows "view (ss_world s') (cache_Key (ss_runID s)) = cached (ps @ raws A s bs) \<and> length (raws A s bs) = length bs"
  using assms(5-8)
proof (induction bs arbitrary: s ps)
  case (Cons b bs)
  obtain s1 where e: "emit A s b = (None, s1)" and es: "emits A s1 bs = (None, s')"
    using Cons.prems(1) by (auto split: prod.splits option.splits)
  then obtain raw where r: "event_bytes A s b = Inr raw"
    "s1 = send A (before_send A s raw) (mk_frame FrameEvent (emit_flags b) (ss_seqGen s + 1) raw)"
    by (auto simp: emit_None)
  have rs: "raws A s (b # bs) = raw # raws A s1 bs" using r(1) e by simp
  let ?A = "Cache_Append C (ss_world s) (ss_runID s) (word_of_nat (Suc (length ps))) raw"
  have q: "ss_seqGen s + 1 = word_of_nat (Suc (length ps))" using Cons.prems(2) by simp
  have w: "ss_world (before_send A s raw) = snd ?A" using assms(1) q by (simp add: before_send_def Let_def add.commute)
  have "fst ?A = None" using assms(4) by (auto simp: Cache_Append_def split: prod.split option.split) (metis fst_conv option.distinct(1))
  then have "view (snd ?A) (cache_Key (ss_runID s)) = cached (ps @ [raw])"
    using Cons.prems(3,4) assms(9) by (intro zadd_cached [OF assms(2)]) simp_all
  then have "view (ss_world s1) (cache_Key (ss_runID s1)) = cached (ps @ [raw])"
    using send_view [OF assms(3)] send_frame [of "before_send A s raw" A] w r(2) by (simp add: same_run_def before_send_frame)
  moreover have "ss_seqGen s1 = word_of_nat (length (ps @ [raw]))" "ss_runID s1 = ss_runID s"
    using send_frame [of "before_send A s raw" A] r(2) q by (simp_all add: same_run_def before_send_frame)
  ultimately show ?case using Cons.IH [OF es, of "ps @ [raw]"] Cons.prems(4) rs by simp
qed simp

lemma event_frames_nth:
  "length rs = length bs \<Longrightarrow> event_frames (word_of_nat n) bs rs =
     map (\<lambda>i. mk_frame FrameEvent (emit_flags (bs ! i)) (word_of_nat (n + Suc i)) (rs ! i)) [0..<length bs]"
proof (induction bs arbitrary: n rs)
  case (Cons b bs)
  obtain r rs' where rs: "rs = r # rs'" "length rs' = length bs" using Cons.prems by (cases rs) auto
  have "event_frames (word_of_nat n) (b # bs) rs =
      mk_frame FrameEvent (emit_flags b) (word_of_nat (Suc n)) r # event_frames (word_of_nat (Suc n)) bs rs'"
    by (simp add: rs add.commute)
  also have "\<dots> = map (\<lambda>i. mk_frame FrameEvent (emit_flags ((b # bs) ! i)) (word_of_nat (n + Suc i)) (rs ! i)) (0 # map Suc [0..<length bs])"
    using Cons.IH [OF rs(2), of "Suc n"] by (simp add: rs del: of_nat_Suc)
  finally show ?case by (simp only: map_Suc_upt length_Cons upt_conv_Cons [OF zero_less_Suc])
qed simp

text \<open>C19: resuming a run: after a session with an event cache has emitted the events of a new run, asking the cache for what follows
  event k gives the event frames after the k-th again, in order, with the same numbers and payloads (but without their flags),
  whether or not the connection carried them. (Redis accepts every ZADD and behaves as documented, the time to live is not over, fewer than
  2^53 events.)\<close>

theorem Replay_completes:
  assumes "ae_cache A = Some C" "C = NewEventCache cli ttl" "zset_laws C view" "keeps_view A view" "\<forall>w k sc m. fst (ce_zadd C w k sc m) = None"
    and "emits A s bs = (None, s')" "ss_seqGen s = 0" "view (ss_world s) (cache_Key (ss_runID s)) = Map.empty" "length bs < 2 ^ 53"
    and "k < 2 ^ 53" "Cache_Replay C (ss_world s') (ss_runID s) k = (Inr evs, w1)"
  shows "map (\<lambda>(q, p). mk_frame FrameEvent 0 q p) evs =
    map (\<lambda>f. f\<lparr> Frame_Flags := 0 \<rparr>) (drop k (event_frames 0 bs (raws A s bs)))"
proof -
  let ?rs = "raws A s bs"
  have c: "view (ss_world s') (cache_Key (ss_runID s)) = cached ?rs" "length ?rs = length bs"
    using emits_cached [OF assms(1,3-6), of "[]"] assms(7-9) NewEventCache_ttl [of cli ttl] unfolding assms(2) by simp_all
  have "evs = map (\<lambda>i. (word_of_nat (Suc i), ?rs ! i)) [k..<length bs]"
    using Replay_cached [OF assms(3) c(1) _ assms(10,11)] c(2) assms(9) by simp
  then have "map (\<lambda>(q, p). mk_frame FrameEvent 0 q p) evs =
      map (\<lambda>i. mk_frame FrameEvent 0 (word_of_nat (Suc i)) (?rs ! i)) [k..<length bs]" by simp
  also have "\<dots> = map (\<lambda>f. f\<lparr> Frame_Flags := 0 \<rparr>) (drop k (event_frames (word_of_nat 0) bs ?rs))"
    unfolding event_frames_nth [OF c(2)] by (simp add: drop_map mk_frame_def)
  finally show ?thesis by simp
qed

text \<open>A cache in a finite map, and a session without a peer.\<close>

definition demo_cache :: "(string \<Rightarrow> (string \<times> rat) list) EventCache" where
  "demo_cache = \<lparr> ce_zadd = (\<lambda>w k sc m. (None, w(k := (m, sc) # w k))), ce_expire = (\<lambda>w k t. w),
     ce_zrange = (\<lambda>w k lo hi. (Inr (sort_key (\<lambda>m. the (map_of (w k) m))
        (filter (\<lambda>m. f64 (of_nat (dec_value (tl lo))) < the (map_of (w k) m)) (remdups (map fst (w k))))), w)),
     ce_ttl = one_hour \<rparr>"

definition demo_env :: "(string \<Rightarrow> (string \<times> rat) list) AcpEnv" where
  "demo_env = \<lparr> ae_write = (\<lambda>w bs. (None, w)), ae_close = id, ae_progress = (\<lambda>w. (0, w)), ae_new_run = (\<lambda>w. (''run'', w)),
     ae_new_trace = (\<lambda>w. (''trace'', w)), ae_cache = Some demo_cache, ae_now = (\<lambda>w. 0), ae_enc_event = (\<lambda>ev. Inr ''ev''),
     ae_dec_request = Inl, ae_json_err = id \<rparr>"

definition demo_events :: "BusinessEvent list" where
  "demo_events = [zero_business\<lparr> be_Kind := ''token'', be_Text := ''a'' \<rparr>, zero_business\<lparr> be_Kind := ''done'', be_Total := 1 \<rparr>]"

lemma demo_laws: "zset_laws demo_cache (\<lambda>w k. map_of (w k))"
proof -
  have "set (sort_key h (filter (\<lambda>m. b < the (map_of xs m)) (remdups (map fst xs)))) = {m. \<exists>sc. map_of xs m = Some sc \<and> b < sc}"
    for h :: "string \<Rightarrow> rat" and b :: rat and xs :: "(string \<times> rat) list"
  proof -
    have "m \<in> fst ` set xs \<longleftrightarrow> (\<exists>sc. map_of xs m = Some sc)" for m
      by (metis map_of_eq_None_iff not_None_eq)
    then show ?thesis by auto
  qed
  moreover have "sorted_wrt (\<lambda>a b. h a \<le> h b) (sort_key h ys)" for h :: "string \<Rightarrow> rat" and ys
    using sorted_sort_key [of h ys] by (simp only: sorted_wrt_map)
  ultimately show ?thesis by (simp add: zset_laws_def demo_cache_def fun_upd_def fun_eq_iff)
qed

definition demo_session :: "(string \<Rightarrow> (string \<times> rat) list) session" where
  "demo_session = (newSession (\<lambda>k. []) [])\<lparr> ss_runID := ''run'' \<rparr>"

lemmas demo_acp = demo_env_def demo_cache_def demo_events_def demo_session_def newSession_def zero_business_def

theorem Replay_completes_witness:
  "map (\<lambda>(q, p). mk_frame FrameEvent 0 q p)
     (projr (fst (Cache_Replay demo_cache (ss_world (snd (emits demo_env demo_session demo_events))) ''run'' 1))) =
   [mk_frame FrameEvent 0 2 ''ev'']"
proof -
  let ?r = "Cache_Replay demo_cache (ss_world (snd (emits demo_env demo_session demo_events))) ''run'' 1"
  obtain evs w1 where r: "?r = (Inr evs, w1)" by (simp add: Cache_Replay_def demo_cache_def)
  have e: "fst (emits demo_env demo_session demo_events) = None"
    by (simp add: demo_acp emit_def send_def writer_runs_def sendCap_def Let_def Cache_Append_def)
  have rs: "raws demo_env demo_session demo_events = [''ev'', ''ev'']"
    by (simp add: demo_acp event_bytes_def emit_def)
  have "map (\<lambda>(q, p). mk_frame FrameEvent 0 q p) evs =
    map (\<lambda>f. f\<lparr> Frame_Flags := 0 \<rparr>) (drop 1 (event_frames 0 demo_events (raws demo_env demo_session demo_events)))"
  proof (rule Replay_completes)
    show "ae_cache demo_env = Some demo_cache" by (simp add: demo_env_def)
    show "demo_cache = NewEventCache demo_cache 0" by (simp add: NewEventCache_def demo_cache_def)
    show "zset_laws demo_cache (\<lambda>w k. map_of (w k))" by (rule demo_laws)
    show "keeps_view demo_env (\<lambda>w k. map_of (w k))" by (simp add: keeps_view_def demo_env_def)
    show "\<forall>w k sc m. fst (ce_zadd demo_cache w k sc m) = None" by (simp add: demo_cache_def)
    show "emits demo_env demo_session demo_events = (None, snd (emits demo_env demo_session demo_events))" using e by (metis prod.collapse)
    show "Cache_Replay demo_cache (ss_world (snd (emits demo_env demo_session demo_events))) (ss_runID demo_session) 1 = (Inr evs, w1)"
      using r by (simp add: demo_session_def)
  qed (simp_all add: demo_session_def newSession_def demo_events_def)
  then show ?thesis using r rs by (simp add: demo_events_def mk_frame_def)
qed


section \<open>What an event tells\<close>

text \<open>The names of the states.\<close>

fun state_label :: "RunState \<Rightarrow> string" where
  "state_label RUN_STATE_PENDING = ''PENDING''"
| "state_label RUN_STATE_RUNNING = ''RUNNING''"
| "state_label RUN_STATE_WAITING_TOOL = ''WAITING_TOOL''"
| "state_label RUN_STATE_COMPACTING = ''COMPACTING''"
| "state_label RUN_STATE_DONE = ''DONE''"
| "state_label RUN_STATE_FAILED = ''FAILED''"
| "state_label RUN_STATE_UNSPECIFIED = []"

text \<open>What the encoded event is to hold for an event of the dispatcher, in the event's own fields: the ids of the session, and for a token its
  text and number, for a change of state the states named (unspecified for a text that names none), for a done event the number of
  tokens, for an error its code and message; nothing for any other kind.\<close>

definition names :: "RunState \<Rightarrow> string \<Rightarrow> bool" where
  "names st n = (if \<exists>x. x \<noteq> RUN_STATE_UNSPECIFIED \<and> state_label x = n then state_label st = n else st = RUN_STATE_UNSPECIFIED)"

fun reports :: "RunPayload option \<Rightarrow> BusinessEvent \<Rightarrow> bool" where
  "reports (Some (Token x i)) b = (be_Kind b = ''token'' \<and> x = be_Text b \<and> i = be_Index b)"
| "reports (Some (StateChanged f t now)) b = (be_Kind b = ''state'' \<and> names f (be_From b) \<and> names t (be_State b))"
| "reports (Some (Done n now)) b = (be_Kind b = ''done'' \<and> n = be_Total b)"
| "reports (Some (Error c m retriable)) b = (be_Kind b = ''error'' \<and> c = be_Code b \<and> m = be_Message b \<and> \<not> retriable)"
| "reports (Some (Tool x)) b = False"
| "reports None b = (be_Kind b \<notin> {''token'', ''state'', ''done'', ''error''})"

definition peer_gets :: "string \<Rightarrow> string \<Rightarrow> BusinessEvent \<Rightarrow> RunEvent \<Rightarrow> bool" where
  "peer_gets rid tid b ev = (ev_RunId ev = rid \<and> ev_TraceId ev = tid \<and> reports (ev_Payload ev) b)"

lemma names_enum: "names (stateEnumStr n) n"
proof -
  have "state_label (stateEnumStr n) = n" if "x \<noteq> RUN_STATE_UNSPECIFIED" "state_label x = n" for x
    using that by (cases x) (auto simp: stateEnumStr_def)
  moreover have "stateEnumStr n = RUN_STATE_UNSPECIFIED" if "\<forall>x. x \<noteq> RUN_STATE_UNSPECIFIED \<longrightarrow> state_label x \<noteq> n"
    using that [THEN spec, of "stateEnumStr n"] by (auto simp: stateEnumStr_def split: if_splits)
  ultimately show ?thesis unfolding names_def by metis
qed

lemma businessToProto_gets: "peer_gets rid tid b (businessToProto rid tid now b)"
  using names_enum by (auto simp: peer_gets_def businessToProto_def)

lemma raws_reports:
  assumes "i < length (raws A s bs)"
  shows "\<exists>ev. ae_enc_event A ev = Inr (raws A s bs ! i) \<and> peer_gets (ss_runID s) (ss_traceID s) (bs ! i) ev"
  using assms
proof (induction bs arbitrary: s i)
  case (Cons b bs)
  then obtain raw where r: "event_bytes A s b = Inr raw" by (auto split: sum.splits)
  note f = emit_frame [of A s b]
  show ?case
  proof (cases i)
    case 0
    then show ?thesis using r businessToProto_gets by (auto simp: event_bytes_def)
  next
    case (Suc j)
    then show ?thesis using Cons.IH [of j "snd (emit A s b)"] Cons.prems r f by simp
  qed
qed simp

section \<open>A session that runs\<close>

text \<open>A dispatcher that emits bs, stopping at the first error, and returns err when it has emitted them all; before that it may have
  changed the world, but not what out shows of it.\<close>

definition dispatches :: "'w AcpEnv \<Rightarrow> ('w \<Rightarrow> 'v) \<Rightarrow> 'w dispatcher \<Rightarrow> BusinessEvent list \<Rightarrow> string option \<Rightarrow> bool" where
  "dispatches A out disp bs err =
     (\<forall>s ri. \<exists>w0. out w0 = out (ss_world s) \<and>
        disp (emit A) s ri = (case emits A (s\<lparr> ss_world := w0 \<rparr>) bs of (None, s1) \<Rightarrow> Some (err, s1) | (Some e, s1) \<Rightarrow> Some (None, s1)))"

definition error_frames :: "string option \<Rightarrow> Frame list" where
  "error_frames err = (case err of None \<Rightarrow> []
     | Some m \<Rightarrow> [mk_frame FrameError FlagEndStream 0 (ErrorPayload_Marshal \<lparr> ep_Code = ''internal'', ep_Message = m, ep_Retriable = True \<rparr>)])"

definition close_frame :: "string \<Rightarrow> Frame" where
  "close_frame code = mk_frame FrameClose FlagEndStream 0 (CloseMsg_Marshal \<lparr> cm_Code = code, cm_Message = [] \<rparr>)"

definition ack_frame :: "string \<Rightarrow> string \<Rightarrow> Frame" where
  "ack_frame rid tid = mk_frame FrameHelloAck 0 0 (HelloAck_Marshal (hello_ack rid tid))"

lemma small_close: "small (close_frame ''completed'')"
proof -
  have "CloseMsg_Marshal \<lparr> cm_Code = ''completed'', cm_Message = [] \<rparr> = ''{\"code\":\"completed\"}''"
    by (simp add: CloseMsg_Marshal_def CloseMsg_json_def CloseMsg_fields_def struct_obj_def struct_members_def omitempty_def
        json_string_def esc_seg_def segs_ascii ord_def)
  then show ?thesis by (simp add: close_frame_def MaxPayloadSize_def)
qed

lemma session_ids_out: "conn_laws A out \<Longrightarrow> session_ids A w h = (rid, tid, w2) \<Longrightarrow> out w2 = out w"
  using conn_lawsD(4,5) [of A out] by (auto simp: session_ids_def split: prod.splits if_splits) (metis snd_conv)+

lemma serve_end_Returned:
  assumes "conn_laws A out" "sess_ok s" "serve_end A (err, s) = Returned e s'"
  shows "e = err \<and> \<not> ss_closed s \<and> out (ss_world s') = wire out s"
proof -
  let ?s = "writer_runs A (length (ss_sendCh s)) s"
  have r: "\<not> ss_closed s" "e = err" "s' = ?s\<lparr> ss_closed := True \<rparr>"
    using assms(3) by (auto simp: serve_end_def Let_def split: if_splits)
  have "wire out ?s = wire out s" "ss_sendCh ?s = []"
    using writer_runs_wire [OF assms(1,2)] writer_runs_frame [of s A "length (ss_sendCh s)"] by simp_all
  then show ?thesis using r by (simp add: wire_def)
qed

lemma serve_end_view:
  assumes "keeps_view A view" "serve_end A (err, s) = Returned e s'"
  shows "view (ss_world s') = view (ss_world s)"
  using assms(2) writer_runs_view [OF assms(1), of "length (ss_sendCh s)" s] by (auto simp: serve_end_def Let_def split: if_splits)

lemma emits_ok:
  assumes "emits A s bs = (x, s')" "\<not> ss_closed s'" "\<And>s b. b \<in> set bs \<Longrightarrow> \<exists>r. event_bytes A s b = Inr r"
  shows "x = None"
  using assms(1,3)
proof (induction bs arbitrary: s)
  case (Cons b bs)
  obtain r where r: "event_bytes A s b = Inr r" using Cons.prems(2) by auto
  have "\<not> ss_closed s" using emits_frame [of A s "b # bs"] Cons.prems(1) assms(2) by auto
  then have "fst (emit A s b) = None" using r emit_None by (metis fst_conv)
  then obtain t where "emit A s b = (None, t)" by (metis prod.collapse)
  then show ?case using Cons by auto
qed simp

text \<open>The session after the handshake, and after the run: what the dispatcher emitted, its error, and the closing frame.\<close>

definition after_ack :: "'w AcpEnv \<Rightarrow> 'w \<Rightarrow> string \<Rightarrow> string \<Rightarrow> byte list \<Rightarrow> byte list \<Rightarrow> 'w session" where
  "after_ack A w rid tid unread rest =
     (send A ((newSession w unread)\<lparr> ss_world := w, ss_runID := rid, ss_traceID := tid \<rparr>) (ack_frame rid tid))\<lparr> ss_in := rest \<rparr>"

definition after_run :: "'w AcpEnv \<Rightarrow> string option \<Rightarrow> 'w session \<Rightarrow> 'w session" where
  "after_run A err s = sendClose A (case err of None \<Rightarrow> s | Some m \<Rightarrow> sendError A s ''internal'' m True) ''completed''"

lemma after_run_view:
  assumes "keeps_view A view"
  shows "view (ss_world (after_run A err s)) = view (ss_world s)"
  by (simp add: after_run_def sendClose_def sendError_def send_view [OF assms] split: option.split)

lemma serve_run_ends:
  assumes "small hf" "Frame_Type hf = FrameHello" "Hello_Unmarshal (of_bytes (Frame_Payload hf)) = Some h"
    and "small rf" "Frame_Type rf = FrameRun" "ae_dec_request A (of_bytes (Frame_Payload rf)) = Inr req" "rq_Prompt req \<noteq> []"
    and "dispatches A out disp bs err" "session_ids A w h = (rid, tid, w2)"
    and "serve A disp (newSession w (frame_bytes hf @ frame_bytes rf @ rest)) = Returned e s'"
  shows "\<exists>w0 x s5. out w0 = out (ss_world (after_ack A w2 rid tid (frame_bytes rf @ rest) rest)) \<and>
    emits A ((after_ack A w2 rid tid (frame_bytes rf @ rest) rest)\<lparr> ss_world := w0 \<rparr>) bs = (x, s5) \<and>
    serve_end A (None, after_run A (if x = None then err else None) s5) = Returned e s'"
proof -
  let ?s3 = "send A ((newSession w2 (frame_bytes rf @ rest))\<lparr> ss_world := w2, ss_runID := rid, ss_traceID := tid \<rparr>) (ack_frame rid tid)"
  define s4 where "s4 = after_ack A w2 rid tid (frame_bytes rf @ rest) rest"
  have s4: "s4 = ?s3\<lparr> ss_in := rest \<rparr>" by (simp add: s4_def after_ack_def)
  have hello: "ReadFrame (frame_bytes hf @ frame_bytes rf @ rest) = Inr (hf, frame_bytes rf @ rest)"
    using assms(1) unfolding small_def by (rule ReadFrame_frame_bytes)
  have "ss_in ?s3 = frame_bytes rf @ rest" by (simp add: newSession_def)
  then have run: "ReadFrame (ss_in ?s3) = Inr (rf, rest)" using ReadFrame_frame_bytes assms(4) unfolding small_def by metis
  let ?ri = "\<lparr> ri_RunID = ss_runID s4, ri_TraceID = ss_traceID s4, ri_UserID = rq_UserId req, ri_Prompt = rq_Prompt req, ri_Model = rq_Model req \<rparr>"
  obtain w0 where w0: "out w0 = out (ss_world s4)" and d: "disp (emit A) s4 ?ri =
      (case emits A (s4\<lparr> ss_world := w0 \<rparr>) bs of (None, s1) \<Rightarrow> Some (err, s1) | (Some e, s1) \<Rightarrow> Some (None, s1))"
    using assms(8) unfolding dispatches_def by blast
  obtain x s5 where em: "emits A (s4\<lparr> ss_world := w0 \<rparr>) bs = (x, s5)" by fastforce
  let ?s7 = "after_run A (if x = None then err else None) s5"
  have "handleRun A disp s4 (of_bytes (Frame_Payload rf)) = Some ?s7"
    using assms(6,7) d em by (simp add: handleRun_def after_run_def split: option.split)
  then have "serve_loop A disp ?s3 = Some (None, ?s7)"
    using assms(5) run by (subst serve_loop.simps) (simp add: s4 frame_consts Let_def)
  then have "serve_session A disp (newSession w (frame_bytes hf @ frame_bytes rf @ rest)) = Some (None, ?s7)"
    using assms(2,3,9) hello by (simp add: serve_session_def newSession_def ack_frame_def Let_def)
  then show ?thesis using assms(10) w0 em unfolding s4_def by (intro exI [of _ w0] exI [of _ x] exI [of _ s5]) (simp add: serve_def)
qed

lemma after_run_wire:
  assumes "conn_laws A out" "sess_ok s" "\<not> ss_closed (after_run A err s)" "\<forall>f\<in>set (error_frames err). small f"
  shows "\<not> ss_closed s" "sess_ok (after_run A err s)"
    "wire out (after_run A err s) = wire out s @ concat (map frame_bytes (error_frames err @ [close_frame ''completed'']))"
proof -
  define s6 where "s6 = (case err of None \<Rightarrow> s | Some m \<Rightarrow> sendError A s ''internal'' m True)"
  have r: "after_run A err s = sendClose A s6 ''completed''" by (simp add: after_run_def s6_def)
  have nc6: "\<not> ss_closed s6" using assms(3) send_frame [of s6 A] unfolding r by (auto simp: sendClose_def)
  then show "\<not> ss_closed s" using send_frame [of s A] by (auto simp: s6_def sendError_def split: option.splits if_splits)
  have w6: "wire out s6 = wire out s @ concat (map frame_bytes (error_frames err)) \<and> sess_ok s6"
  proof (cases err)
    case None
    then show ?thesis using assms(2) by (simp add: s6_def error_frames_def)
  next
    case (Some m)
    then show ?thesis using send_wire [OF assms(1), of s] nc6 assms(2,4) by (simp add: s6_def error_frames_def sendError_def)
  qed
  have "wire out (after_run A err s) = wire out s6 @ frame_bytes (close_frame ''completed'') \<and> sess_ok (after_run A err s)"
    using send_wire [OF assms(1), of s6 "close_frame ''completed''"] small_close w6 assms(3) unfolding r by (simp add: sendClose_def close_frame_def)
  then show "sess_ok (after_run A err s)"
    "wire out (after_run A err s) = wire out s @ concat (map frame_bytes (error_frames err @ [close_frame ''completed'']))" using w6 by auto
qed

text \<open>The event cache of a session, if it has one: made by NewEventCache, on a Redis that accepts every ZADD; writing to the connection and
  making ids leaves it alone.\<close>

definition cache_laws :: "'w AcpEnv \<Rightarrow> ('w \<Rightarrow> string \<Rightarrow> string \<rightharpoonup> rat) \<Rightarrow> bool" where
  "cache_laws A view =
     ((\<forall>C. ae_cache A = Some C \<longrightarrow> (\<exists>cli ttl. C = NewEventCache cli ttl) \<and> zset_laws C view \<and> (\<forall>w k sc m. fst (ce_zadd C w k sc m) = None)) \<and>
      keeps_view A view \<and> (\<forall>w. view (snd (ae_new_run A w)) = view w \<and> view (snd (ae_new_trace A w)) = view w))"

lemma session_ids_view: "cache_laws A view \<Longrightarrow> session_ids A w h = (rid, tid, w2) \<Longrightarrow> view w2 = view w"
  unfolding cache_laws_def by (auto simp: session_ids_def split: prod.splits if_splits) (metis snd_conv)+

lemma session_replay:
  assumes "cache_laws A view" "ae_cache A = Some C" "emits A s bs = (None, s5)" "ss_seqGen s = 0"
    and "view (ss_world s) (cache_Key (ss_runID s)) = Map.empty" "length bs < 2 ^ 53" "k < 2 ^ 53"
    and "view (ss_world s') = view (ss_world s5)" "Cache_Replay C (ss_world s') (ss_runID s) k = (Inr evs, w1)"
  shows "evs = map (\<lambda>i. (word_of_nat (Suc i), raws A s bs ! i)) [k..<length bs]"
proof -
  obtain cli ttl where C: "C = NewEventCache cli ttl" "zset_laws C view" "\<forall>w k sc m. fst (ce_zadd C w k sc m) = None" "keeps_view A view"
    using assms(1,2) unfolding cache_laws_def by blast
  have c: "view (ss_world s5) (cache_Key (ss_runID s)) = cached (raws A s bs)" "length (raws A s bs) = length bs"
    using emits_cached [OF assms(2) C(2,4,3) assms(3), of "[]"] assms(4-6) NewEventCache_ttl [of cli ttl] unfolding C(1) by simp_all
  show ?thesis using Replay_cached [OF C(2) _ _ assms(7,9), of "raws A s bs"] c assms(6,8) by simp
qed

text \<open>C10: a session that runs a prompt and returns has written exactly: the acknowledgement with its ids, one event frame for each
  event of the dispatcher, numbered 1, 2, ..., with the encoding of a message that has the session's ids and the contents of that event, the
  end-of-stream flag on done and error events only, an error frame if the dispatcher failed, and the closing frame. If it has a cache,
  the cache then holds these events: asked for what follows number k it gives the numbers and encodings of events k + 1 and on. (Frames fit
  the size limit; the connection carries what is written to it; the cache is on a Redis that behaves as documented, had no event of
  the run, and its time to live is not over; fewer than 2^53 events.)\<close>

theorem serve_run_transcript:
  assumes "conn_laws A out" "out w = []" "small hf" "Frame_Type hf = FrameHello" "Hello_Unmarshal (of_bytes (Frame_Payload hf)) = Some h"
    and "small rf" "Frame_Type rf = FrameRun" "ae_dec_request A (of_bytes (Frame_Payload rf)) = Inr req" "rq_Prompt req \<noteq> []"
    and "dispatches A (\<lambda>w. (out w, view w)) disp bs err" "\<forall>s. \<forall>b\<in>set bs. \<exists>r. event_bytes A s b = Inr r \<and> length r \<le> MaxPayloadSize"
    and "session_ids A w h = (rid, tid, w2)" "small (ack_frame rid tid)" "\<forall>f\<in>set (error_frames err). small f"
    and "serve A disp (newSession w (frame_bytes hf @ frame_bytes rf @ rest)) = Returned e s'"
    and "cache_laws A view" "view w (cache_Key rid) = Map.empty" "length bs < 2 ^ 53"
  shows "e = None \<and> (\<exists>rs. length rs = length bs \<and>
    out (ss_world s') = concat (map frame_bytes (ack_frame rid tid # event_frames 0 bs rs @ error_frames err @ [close_frame ''completed''])) \<and>
    (\<forall>i<length bs. \<exists>ev. ae_enc_event A ev = Inr (rs ! i) \<and> peer_gets rid tid (bs ! i) ev) \<and>
    (\<forall>C k evs w1. ae_cache A = Some C \<and> k < 2 ^ 53 \<and> Cache_Replay C (ss_world s') rid k = (Inr evs, w1) \<longrightarrow>
       evs = map (\<lambda>i. (word_of_nat (Suc i), rs ! i)) [k..<length bs]))"
proof -
  define s4 where "s4 = after_ack A w2 rid tid (frame_bytes rf @ rest) rest"
  obtain w0 x s5 where w0: "out w0 = out (ss_world s4)" "view w0 = view (ss_world s4)" and em: "emits A (s4\<lparr> ss_world := w0 \<rparr>) bs = (x, s5)"
    and ret: "serve_end A (None, after_run A (if x = None then err else None) s5) = Returned e s'"
    using serve_run_ends [OF assms(3-10,12,15)] unfolding s4_def by blast
  define s2 where "s2 = (newSession w2 (frame_bytes rf @ rest))\<lparr> ss_world := w2, ss_runID := rid, ss_traceID := tid \<rparr>"
  have s4: "s4 = (send A s2 (ack_frame rid tid))\<lparr> ss_in := rest \<rparr>" by (simp add: s4_def after_ack_def s2_def)
  have nc7: "\<not> ss_closed (after_run A (if x = None then err else None) s5)" using ret by (auto simp: serve_end_def Let_def split: if_splits)
  then have nc5: "\<not> ss_closed s5"
    using send_frame [of s5 A] send_frame [of _ A] by (auto simp: after_run_def sendClose_def sendError_def split: option.splits if_splits)
  have nc4: "\<not> ss_closed s4" using nc5 emits_frame [of A "s4\<lparr> ss_world := w0 \<rparr>" bs] em by auto
  have "out w2 = []" using session_ids_out [OF assms(1,12)] assms(2) by simp
  then have w2: "wire out s2 = []" "sess_ok s2" by (simp_all add: s2_def newSession_def wire_def sess_ok_def)
  then have "wire out (send A s2 (ack_frame rid tid)) = frame_bytes (ack_frame rid tid) \<and> sess_ok (send A s2 (ack_frame rid tid))"
    using send_wire [OF assms(1) w2(2) assms(13)] nc4 by (simp add: s4)
  then have w4: "wire out (s4\<lparr> ss_world := w0 \<rparr>) = frame_bytes (ack_frame rid tid)" "sess_ok (s4\<lparr> ss_world := w0 \<rparr>)"
    using w0 by (simp_all add: wire_def sess_ok_def s4)
  have seq4: "ss_seqGen s4 = 0" "ss_runID s4 = rid" "ss_traceID s4 = tid"
    using send_frame [of s2 A "ack_frame rid tid"] by (simp_all add: same_run_def s4 s2_def newSession_def)
  have xn: "x = None" by (rule emits_ok [OF em nc5]) (use assms(11) in blast)
  define rs where "rs = raws A (s4\<lparr> ss_world := w0 \<rparr>) bs"
  have sz: "\<forall>r\<in>set (raws A s bs). length r \<le> MaxPayloadSize" for s
    using assms(11) by (induction bs arbitrary: s) (auto split: sum.splits, metis sum.sel(2))
  note w5 = emits_wire [OF assms(1) w4(2) em [unfolded xn] nc5 sz, folded rs_def]
  have n7: "\<not> ss_closed (after_run A err s5)" using nc7 xn by simp
  have "sess_ok s5" using w5 by simp
  note w7 = after_run_wire [OF assms(1) this n7 assms(14)]
  have end7: "serve_end A (None, after_run A err s5) = Returned e s'" using ret xn by simp
  note r = serve_end_Returned [OF assms(1) w7(2) end7]
  have out: "out (ss_world s') = concat (map frame_bytes (ack_frame rid tid # event_frames 0 bs rs @ error_frames err @ [close_frame ''completed'']))"
    using r w7(3) w5 w4(1) seq4(1) by simp
  have tells: "\<forall>i<length bs. \<exists>ev. ae_enc_event A ev = Inr (rs ! i) \<and> peer_gets rid tid (bs ! i) ev"
    using raws_reports [of _ A "s4\<lparr> ss_world := w0 \<rparr>" bs] w5 seq4 by (simp add: rs_def)
  have kv: "keeps_view A view" using assms(16) unfolding cache_laws_def by blast
  have v0: "view w0 (cache_Key rid) = Map.empty"
    using w0(2) session_ids_view [OF assms(16,12)] assms(17) send_view [OF kv, of s2 "ack_frame rid tid"] by (simp add: s4 s2_def)
  have v5: "view (ss_world s') = view (ss_world s5)" using serve_end_view [OF kv end7] after_run_view [OF kv, of err s5] by simp
  have cache: "evs = map (\<lambda>i. (word_of_nat (Suc i), rs ! i)) [k..<length bs]"
    if "ae_cache A = Some C" "k < 2 ^ 53" "Cache_Replay C (ss_world s') rid k = (Inr evs, w1)" for C k evs w1
    using session_replay [OF assms(16) that(1) em [unfolded xn] _ _ assms(18) that(2) v5, of evs w1] that(3) seq4 v0 by (simp add: rs_def)
  have "length rs = length bs" using w5 by simp
  with r out tells cache show ?thesis by blast
qed

section \<open>A session that never ends\<close>

lemma send_stuck:
  assumes "\<forall>w. fst (ae_progress A w) = 0"
  shows "ss_closed (send A s f) = (ss_closed s \<or> length (ss_sendCh s) \<ge> sendCap) \<and>
    length (ss_sendCh (send A s f)) = (if ss_closed s \<or> length (ss_sendCh s) \<ge> sendCap then length (ss_sendCh s) else Suc (length (ss_sendCh s)))"
proof -
  obtain w where "ae_progress A (ss_world s) = (0, w)" using assms by (metis prod.collapse)
  then show ?thesis by (simp add: send_def writer_runs_def Let_def)
qed

lemma pings_loop:
  assumes "\<forall>w. fst (ae_progress A w) = 0" "\<forall>f\<in>set ps. Frame_Type f = FramePing \<and> small f"
    and "ss_in s = concat (map frame_bytes ps)" "length (ss_sendCh s) \<le> sendCap"
  shows "\<exists>s'. serve_loop A disp s = Some (None, s') \<and> ss_closed s' = (ss_closed s \<or> length (ss_sendCh s) + length ps > sendCap)"
  using assms(2-4)
proof (induction ps arbitrary: s)
  case Nil
  then show ?case by (subst serve_loop.simps) (simp add: ReadFrame_def ReadFull_def HeaderFixedSize_def)
next
  case (Cons f ps)
  let ?s = "s\<lparr> ss_in := concat (map frame_bytes ps) \<rparr>"
  let ?t = "send A ?s (f\<lparr> Frame_Type := FramePong, Frame_Flags := 0, Frame_Seq := 0 \<rparr>)"
  have "ReadFrame (ss_in s) = Inr (f, concat (map frame_bytes ps))"
    using Cons.prems(1,2) ReadFrame_frame_bytes [of f "concat (map frame_bytes ps)"] by (simp add: small_def)
  then have "serve_loop A disp s = serve_loop A disp ?t"
    using Cons.prems(1) by (subst serve_loop.simps) (simp add: Let_def)
  moreover note st = send_stuck [OF assms(1), of ?s "f\<lparr> Frame_Type := FramePong, Frame_Flags := 0, Frame_Seq := 0 \<rparr>"]
  have "\<exists>s'. serve_loop A disp ?t = Some (None, s') \<and> ss_closed s' = (ss_closed ?t \<or> length (ss_sendCh ?t) + length ps > sendCap)"
    by (rule Cons.IH) (use Cons.prems st in \<open>auto split: if_splits\<close>)
  ultimately show ?case using st Cons.prems(3) by (auto split: if_splits)
qed

text \<open>C39: a peer that sends 256 pings after its hello and reads nothing makes the queue of its session overflow, and then serve never
  returns: the channel is not closed, so the writer goroutine waits on it for ever, and the server does not get the slot of the
  connection back.\<close>

theorem serve_blocks:
  assumes "\<forall>w. fst (ae_progress A w) = 0" "small hf" "Frame_Type hf = FrameHello" "Hello_Unmarshal (of_bytes (Frame_Payload hf)) = Some h"
    and "\<forall>f\<in>set ps. Frame_Type f = FramePing \<and> small f" "256 \<le> length ps"
  shows "(\<exists>s'. serve A disp (newSession w (frame_bytes hf @ concat (map frame_bytes ps))) = Blocked s') \<and>
    Server_done srv (serve A disp (newSession w (frame_bytes hf @ concat (map frame_bytes ps)))) = srv"
proof -
  obtain rid tid w2 where ids: "session_ids A w h = (rid, tid, w2)" by (metis prod_cases3)
  define s2 where "s2 = (newSession w (concat (map frame_bytes ps)))\<lparr> ss_world := w2, ss_runID := rid, ss_traceID := tid \<rparr>"
  define s3 where "s3 = send A s2 (ack_frame rid tid)"
  have st: "\<not> ss_closed s3" "length (ss_sendCh s3) = 1" "ss_in s3 = concat (map frame_bytes ps)"
    using send_stuck [OF assms(1), of s2 "ack_frame rid tid"] by (simp_all add: s3_def s2_def newSession_def sendCap_def)
  have "ReadFrame (frame_bytes hf @ concat (map frame_bytes ps)) = Inr (hf, concat (map frame_bytes ps))"
    using assms(2) unfolding small_def by (rule ReadFrame_frame_bytes)
  then have "serve_session A disp (newSession w (frame_bytes hf @ concat (map frame_bytes ps))) = serve_loop A disp s3"
    using assms(3,4) ids by (simp add: serve_session_def newSession_def s3_def s2_def ack_frame_def Let_def)
  moreover obtain s' where "serve_loop A disp s3 = Some (None, s')" "ss_closed s'"
    using pings_loop [OF assms(1,5) st(3), of disp] st assms(6) by (auto simp: sendCap_def)
  ultimately show ?thesis by (simp add: serve_def serve_end_def Let_def Server_done_def)
qed

section \<open>Examples\<close>

text \<open>A connection that keeps what is written to it, and a dispatcher that emits a done event.\<close>

definition echo_env :: "byte list AcpEnv" where
  "echo_env = \<lparr> ae_write = (\<lambda>w bs. (None, w @ bs)), ae_close = id, ae_progress = (\<lambda>w. (0, w)), ae_new_run = (\<lambda>w. (''run'', w)),
     ae_new_trace = (\<lambda>w. (''trace'', w)), ae_cache = None, ae_now = (\<lambda>w. 0), ae_enc_event = (\<lambda>ev. Inr ''ev''),
     ae_dec_request = (\<lambda>p. Inr \<lparr> rq_RunId = [], rq_UserId = ''u'', rq_Prompt = p, rq_Model = [], rq_TraceId = [], rq_AgentId = [], rq_SystemPrompt = [] \<rparr>),
     ae_json_err = id \<rparr>"

definition done_dispatcher :: "byte list dispatcher" where
  "done_dispatcher em s ri = Some (None, snd (em s (zero_business\<lparr> be_Kind := ''done'' \<rparr>)))"

definition demo_hello :: Hello where
  "demo_hello = \<lparr> he_ClientVersion = ''1'', he_UserID = [], he_RunID = [] \<rparr>"

definition demo_hello_frame :: Frame where "demo_hello_frame = mk_frame FrameHello 0 0 (Hello_Marshal demo_hello)"
definition demo_run_frame :: Frame where "demo_run_frame = mk_frame FrameRun 0 0 ''hi''"
definition demo_ping :: Frame where "demo_ping = mk_frame FramePing 0 0 []"

lemmas marshal_eval = struct_obj_def struct_members_def omitempty_def json_string_def esc_seg_def segs_ascii ord_def

lemma demo_hello_frame: "small demo_hello_frame" "Frame_Type demo_hello_frame = FrameHello"
  "Hello_Unmarshal (of_bytes (Frame_Payload demo_hello_frame)) = Some demo_hello"
proof -
  have "Hello_ok demo_hello" by (simp add: Hello_ok_def demo_hello_def ValidString_ascii ascii_def ord_def)
  then show "Hello_Unmarshal (of_bytes (Frame_Payload demo_hello_frame)) = Some demo_hello"
    by (simp add: demo_hello_frame_def mk_frame_def Hello_roundtrip)
  show "small demo_hello_frame"
    by (simp add: demo_hello_frame_def demo_hello_def Hello_Marshal_def Hello_json_def Hello_fields_def marshal_eval MaxPayloadSize_def)
qed (simp add: demo_hello_frame_def mk_frame_def)

theorem serve_blocks_witness:
  "\<exists>s'. serve echo_env done_dispatcher (newSession [] (frame_bytes demo_hello_frame @ concat (map frame_bytes (replicate 256 demo_ping)))) = Blocked s'"
  using serve_blocks [OF _ demo_hello_frame, of echo_env "replicate 256 demo_ping" done_dispatcher "[]"]
  by (simp add: echo_env_def demo_ping_def mk_frame_def small_def)

text \<open>The connection of echo_env beside the cache of demo_cache.\<close>

definition beside_cache :: "'c EventCache \<Rightarrow> ('b \<times> 'c) EventCache" where
  "beside_cache C = \<lparr> ce_zadd = (\<lambda>(b, c) k sc m. let (e, c1) = ce_zadd C c k sc m in (e, (b, c1))), ce_expire = (\<lambda>(b, c) k t. (b, ce_expire C c k t)),
     ce_zrange = (\<lambda>(b, c) k lo hi. let (r, c1) = ce_zrange C c k lo hi in (r, (b, c1))), ce_ttl = ce_ttl C \<rparr>"

definition keeping_env :: "(byte list \<times> (string \<Rightarrow> (string \<times> rat) list)) AcpEnv" where
  "keeping_env = \<lparr> ae_write = (\<lambda>(b, c) bs. (None, (b @ bs, c))), ae_close = id, ae_progress = (\<lambda>w. (0, w)), ae_new_run = (\<lambda>w. (''run'', w)),
     ae_new_trace = (\<lambda>w. (''trace'', w)), ae_cache = Some (beside_cache demo_cache), ae_now = (\<lambda>w. 0), ae_enc_event = (\<lambda>ev. Inr ''ev''),
     ae_dec_request = (\<lambda>p. Inr \<lparr> rq_RunId = [], rq_UserId = ''u'', rq_Prompt = p, rq_Model = [], rq_TraceId = [], rq_AgentId = [], rq_SystemPrompt = [] \<rparr>),
     ae_json_err = id \<rparr>"

definition keeping_dispatcher :: "(byte list \<times> (string \<Rightarrow> (string \<times> rat) list)) dispatcher" where
  "keeping_dispatcher em s ri = Some (None, snd (em s (zero_business\<lparr> be_Kind := ''done'' \<rparr>)))"

definition kept_run :: "byte list \<times> (string \<Rightarrow> (string \<times> rat) list) \<Rightarrow> string \<Rightarrow> string \<rightharpoonup> rat" where
  "kept_run = (\<lambda>(b, c) k. map_of (c k))"

lemma beside_cache_laws:
  assumes "zset_laws C view"
  shows "zset_laws (beside_cache C) (\<lambda>(b, c). view c)"
proof -
  note a = assms [unfolded zset_laws_def]
  note zadd = conjunct1 [OF a] and expire = conjunct1 [OF conjunct2 [OF a]] and zrange = conjunct2 [OF conjunct2 [OF a]]
  show ?thesis
    unfolding zset_laws_def beside_cache_def
  proof (intro conjI allI, goal_cases)
    case (1 w k sc m)
    then show ?case using zadd [THEN spec, of "snd w", THEN spec, of k, THEN spec, of sc, THEN spec, of m] by (auto split: prod.splits option.splits)
  next
    case (2 w k t)
    then show ?case using expire by (cases w) simp
  next
    case (3 w k n)
    then show ?case using zrange [THEN spec, of "snd w", THEN spec, of k, THEN spec, of n] by (auto split: prod.splits sum.splits)
  qed
qed

lemma keeping_laws: "cache_laws keeping_env kept_run"
proof -
  have c: "beside_cache demo_cache = NewEventCache (beside_cache demo_cache) 0"
    by (simp add: NewEventCache_def beside_cache_def demo_cache_def)
  have z: "zset_laws (beside_cache demo_cache) kept_run" unfolding kept_run_def by (rule beside_cache_laws [OF demo_laws])
  have o: "\<forall>w k sc m. fst (ce_zadd (beside_cache demo_cache) w k sc m) = None" by (simp add: beside_cache_def demo_cache_def)
  have "keeps_view keeping_env kept_run \<and> (\<forall>w. kept_run (snd (ae_new_run keeping_env w)) = kept_run w \<and> kept_run (snd (ae_new_trace keeping_env w)) = kept_run w)"
    by (simp add: keeps_view_def keeping_env_def kept_run_def split: prod.split)
  moreover have "ae_cache keeping_env = Some C \<Longrightarrow> C = beside_cache demo_cache" for C by (simp add: keeping_env_def)
  ultimately show ?thesis unfolding cache_laws_def using c z o by blast
qed

theorem serve_run_transcript_witness:
  "\<exists>s' r. serve keeping_env keeping_dispatcher (newSession ([], \<lambda>k. []) (frame_bytes demo_hello_frame @ frame_bytes demo_run_frame @ [])) = Returned None s' \<and>
    fst (ss_world s') = concat (map frame_bytes (ack_frame ''run'' ''trace'' #
      event_frames 0 [zero_business\<lparr> be_Kind := ''done'' \<rparr>] [r] @ error_frames None @ [close_frame ''completed''])) \<and>
    fst (Cache_Replay (beside_cache demo_cache) (ss_world s') ''run'' 0) = Inr [(1, r)]"
proof -
  let ?w = "([], \<lambda>k. []) :: byte list \<times> (string \<Rightarrow> (string \<times> rat) list)"
  let ?in = "frame_bytes demo_hello_frame @ frame_bytes demo_run_frame @ []"
  let ?bs = "[zero_business\<lparr> be_Kind := ''done'' \<rparr>]"
  have laws: "conn_laws keeping_env fst"
    by (auto simp: conn_laws_def keeping_env_def beside_cache_def demo_cache_def)
  have disp: "dispatches keeping_env (\<lambda>w. (fst w, kept_run w)) keeping_dispatcher ?bs None"
    unfolding dispatches_def by (intro allI, rule_tac x = "ss_world s" in exI) (simp add: keeping_dispatcher_def split: prod.split option.split)
  have run: "small demo_run_frame" "Frame_Type demo_run_frame = FrameRun"
    "ae_dec_request keeping_env (of_bytes (Frame_Payload demo_run_frame)) =
      Inr \<lparr> rq_RunId = [], rq_UserId = ''u'', rq_Prompt = ''hi'', rq_Model = [], rq_TraceId = [], rq_AgentId = [], rq_SystemPrompt = [] \<rparr>"
    by (simp_all add: demo_run_frame_def mk_frame_def small_def MaxPayloadSize_def keeping_env_def)
  have ids: "session_ids keeping_env ?w demo_hello = (''run'', ''trace'', ?w)"
    by (simp add: session_ids_def keeping_env_def demo_hello_def)
  have ack: "small (ack_frame ''run'' ''trace'')"
    by (simp add: ack_frame_def hello_ack_def HelloAck_Marshal_def HelloAck_json_def HelloAck_fields_def marshal_eval MaxPayloadSize_def
        enc_int_def Itoa_def digits.simps)
  have progress: "\<forall>w. fst (ae_progress keeping_env w) = 0" by (simp add: keeping_env_def)
  define s3 where "s3 = send keeping_env ((newSession ?w (frame_bytes demo_run_frame @ []))\<lparr> ss_world := ?w, ss_runID := ''run'', ss_traceID := ''trace'' \<rparr>)
    (ack_frame ''run'' ''trace'')"
  define s5 where "s5 = snd (emit keeping_env (s3\<lparr> ss_in := [] \<rparr>) (zero_business\<lparr> be_Kind := ''done'' \<rparr>))"
  have s3: "\<not> ss_closed s3" "length (ss_sendCh s3) = 1" "ss_in s3 = frame_bytes demo_run_frame @ []"
    using send_stuck [OF progress] by (simp_all add: s3_def newSession_def sendCap_def)
  have "serve_session keeping_env keeping_dispatcher (newSession ?w ?in) = serve_loop keeping_env keeping_dispatcher s3"
    using demo_hello_frame ids ReadFrame_frame_bytes [of demo_hello_frame "frame_bytes demo_run_frame @ []"]
    by (simp add: serve_session_def newSession_def small_def s3_def ack_frame_def Let_def)
  moreover have "serve_loop keeping_env keeping_dispatcher s3 = Some (None, sendClose keeping_env s5 ''completed'')"
    using run ReadFrame_frame_bytes [of demo_run_frame "[]"]
    by (subst serve_loop.simps) (simp add: s3(3) small_def handleRun_def keeping_dispatcher_def s5_def frame_consts Let_def)
  moreover have "\<not> ss_closed s5 \<and> length (ss_sendCh s5) = 2"
  proof -
    have "event_bytes keeping_env s b = Inr ''ev''" for s b by (simp add: event_bytes_def keeping_env_def)
    then have "emit keeping_env (s3\<lparr> ss_in := [] \<rparr>) b = (None, send keeping_env (before_send keeping_env (s3\<lparr> ss_in := [] \<rparr>) ''ev'')
        (mk_frame FrameEvent (emit_flags b) (ss_seqGen s3 + 1) ''ev''))" for b
      using s3(1) by (simp add: emit_None)
    then have "s5 = send keeping_env (before_send keeping_env (s3\<lparr> ss_in := [] \<rparr>) ''ev'')
        (mk_frame FrameEvent (emit_flags (zero_business\<lparr> be_Kind := ''done'' \<rparr>)) (ss_seqGen s3 + 1) ''ev'')" by (simp add: s5_def)
    then show ?thesis using send_stuck [OF progress] s3 by (simp add: before_send_frame sendCap_def)
  qed
  ultimately obtain s' where s': "serve keeping_env keeping_dispatcher (newSession ?w ?in) = Returned None s'"
    using send_stuck [OF progress, of s5] by (simp add: serve_def serve_end_def sendClose_def sendCap_def Let_def)
  have bytes: "\<forall>s. \<forall>b\<in>set ?bs. \<exists>r. event_bytes keeping_env s b = Inr r \<and> length r \<le> MaxPayloadSize"
    by (simp add: event_bytes_def keeping_env_def MaxPayloadSize_def)
  have empty: "fst ?w = []" "\<forall>f\<in>set (error_frames None). small f" "kept_run ?w (cache_Key ''run'') = Map.empty" "length ?bs < 2 ^ 53"
    by (simp_all add: error_frames_def kept_run_def)
  obtain rs where rs: "length rs = length ?bs" "fst (ss_world s') = concat (map frame_bytes (ack_frame ''run'' ''trace'' #
      event_frames 0 ?bs rs @ error_frames None @ [close_frame ''completed'']))"
    "\<forall>C k evs w1. ae_cache keeping_env = Some C \<and> k < 2 ^ 53 \<and> Cache_Replay C (ss_world s') ''run'' k = (Inr evs, w1) \<longrightarrow>
       evs = map (\<lambda>i. (word_of_nat (Suc i), rs ! i)) [k..<length ?bs]"
    using serve_run_transcript [where A = keeping_env and out = fst and view = kept_run and w = ?w and bs = ?bs and err = None and h = demo_hello
        and hf = demo_hello_frame and rf = demo_run_frame and rid = "''run''" and tid = "''trace''" and disp = keeping_dispatcher,
        OF laws empty(1) demo_hello_frame run _ disp bytes ids ack empty(2) s' keeping_laws empty(3,4)] by auto
  obtain r where r: "rs = [r]" using rs(1) by (cases rs) auto
  obtain evs w1 where c: "Cache_Replay (beside_cache demo_cache) (ss_world s') ''run'' 0 = (Inr evs, w1)"
    by (cases "ss_world s'") (simp add: Cache_Replay_def beside_cache_def demo_cache_def)
  have "ae_cache keeping_env = Some (beside_cache demo_cache)" by (simp add: keeping_env_def)
  then have "evs = map (\<lambda>i. (word_of_nat (Suc i), rs ! i)) [0..<length ?bs]" 
    using rs(3) [THEN spec, THEN spec, THEN spec, THEN spec, THEN mp, of "beside_cache demo_cache" 0 evs w1] c by simp
  then have "evs = [(1, r)]" by (simp add: r)
  then show ?thesis using s' rs(2) c unfolding r by auto
qed

end
