(* ===== verification/GoPath.thy ===== *)
theory GoPath
  imports GoText
begin

text \<open>
  path and path/filepath of the Go standard library (Unix): Clean as a pass over the components with a
  stack, Join, Dir, Ext and IsAbs; a cleaned rooted path has no dot-dot component.
\<close>

definition slash :: string where "slash = ''/''"

text \<open>The stack of kept components, innermost first.\<close>

fun clean_comps :: "bool \<Rightarrow> string list \<Rightarrow> string list \<Rightarrow> string list" where
  "clean_comps rooted out [] = rev out"
| "clean_comps rooted out (c # cs) =
     (if c = [] \<or> c = ''.'' then clean_comps rooted out cs
      else if c = ''..'' then
        (case out of
           [] \<Rightarrow> if rooted then clean_comps rooted [] cs else clean_comps rooted [c] cs
         | d # ds \<Rightarrow> if d = ''..'' then clean_comps rooted (c # out) cs else clean_comps rooted ds cs)
      else clean_comps rooted (c # out) cs)"

definition IsAbs :: "string \<Rightarrow> bool" where "IsAbs p = HasPrefix p slash"

definition path_Clean :: "string \<Rightarrow> string" where
  "path_Clean p =
     (if p = [] then ''.''
      else (let cs = clean_comps (IsAbs p) [] (Split p slash) in
        if IsAbs p then slash @ Join cs slash
        else if cs = [] then ''.'' else Join cs slash))"

definition path_Join :: "string list \<Rightarrow> string" where
  "path_Join xs = (let ys = filter (\<lambda>x. x \<noteq> []) xs in if ys = [] then [] else path_Clean (Join ys slash))"

definition path_Dir :: "string \<Rightarrow> string" where
  "path_Dir p = path_Clean (rev (dropWhile (\<lambda>c. c \<noteq> CHR ''/'') (rev p)))"

definition path_Ext :: "string \<Rightarrow> string" where
  "path_Ext p = (let base = rev (takeWhile (\<lambda>c. c \<noteq> CHR ''/'') (rev p)) in
     if CHR ''.'' \<in> set base then CHR ''.'' # rev (takeWhile (\<lambda>c. c \<noteq> CHR ''.'') (rev base)) else [])"

text \<open>A proper component: not empty, not a dot, not a dot-dot, and free of slashes.\<close>

definition comp_ok :: "string \<Rightarrow> bool" where
  "comp_ok c = (c \<noteq> [] \<and> c \<noteq> ''.'' \<and> c \<noteq> ''..'' \<and> CHR ''/'' \<notin> set c)"

lemma clean_comps_ok:
  "list_all comp_ok out \<Longrightarrow> list_all (\<lambda>c. CHR ''/'' \<notin> set c) cs \<Longrightarrow> list_all comp_ok (clean_comps True out cs)"
proof (induction cs arbitrary: out)
  case Nil
  then show ?case by (simp add: list_all_iff)
next
  case (Cons c cs)
  consider "c = [] \<or> c = ''.''" | "c = ''..''" | "c \<noteq> [] \<and> c \<noteq> ''.'' \<and> c \<noteq> ''..''" by blast
  then show ?case
  proof cases
    case 1
    then have "clean_comps True out (c # cs) = clean_comps True out cs" by auto
    then show ?thesis using Cons by simp
  next
    case 2
    show ?thesis
    proof (cases out)
      case Nil
      then show ?thesis using 2 Cons by simp
    next
      case (Cons d ds)
      then have "d \<noteq> ''..''" "list_all comp_ok ds" using Cons.prems(1) unfolding Cons by (auto simp: comp_ok_def [of d])
      then show ?thesis using 2 Cons Cons.IH [of ds] Cons.prems(2) by simp
    qed
  next
    case 3
    then have "comp_ok c" using Cons.prems(2) by (simp add: comp_ok_def)
    then show ?thesis using 3 Cons by simp
  qed
qed

lemma clean_comps_id: "list_all comp_ok cs \<Longrightarrow> clean_comps rooted out cs = rev out @ cs"
  by (induction cs arbitrary: out) (auto simp: comp_ok_def)

text \<open>Splitting at a one-character separator.\<close>

lemma Index_char: "Index s [c] = (if c \<in> set s then Some (length (takeWhile (\<lambda>x. x \<noteq> c) s)) else None)"
  by (induction s) (auto simp: HasPrefix_def)

lemma SplitN_no_sep: "n > length s \<Longrightarrow> list_all (\<lambda>p. c \<notin> set p) (SplitN s [c] (Suc n))"
proof (induction n arbitrary: s)
  case (Suc n)
  show ?case
  proof (cases "c \<in> set s")
    case True
    let ?i = "length (takeWhile (\<lambda>x. x \<noteq> c) s)"
    have i: "?i < length s" using True 
      by (induction s) (auto split: if_splits)
    have t: "take ?i s = takeWhile (\<lambda>x. x \<noteq> c) s" by (metis takeWhile_eq_take)
    have "c \<notin> set (take ?i s)" unfolding t by (metis (mono_tags) set_takeWhileD)
    moreover have "length (drop (?i + 1) s) < n" using i Suc.prems by simp
    ultimately show ?thesis using True Suc.IH [of "drop (?i + 1) s"] by (simp add: Index_char)
  next
    case False
    then show ?thesis by (simp add: Index_char)
  qed
qed simp

lemma Split_no_sep: "list_all (\<lambda>p. c \<notin> set p) (Split s [c])"
  unfolding Split_def using SplitN_no_sep [of s "Suc (length s)" c] by simp

lemma SplitN_Join:
  "xs \<noteq> [] \<Longrightarrow> list_all (\<lambda>p. c \<notin> set p) xs \<Longrightarrow> length xs \<le> Suc n \<Longrightarrow> SplitN (Join xs [c]) [c] (Suc n) = xs"
proof (induction xs arbitrary: n)
  case (Cons x xs)
  show ?case
  proof (cases xs)
    case Nil
    then show ?thesis using Cons.prems by (cases n) (simp_all add: Index_char)
  next
    case Cons2: (Cons y ys)
    then obtain m where n: "n = Suc m" using Cons.prems(3) by (cases n) auto
    have j: "Join (x # xs) [c] = x @ c # Join xs [c]" using Cons2 by simp
    have tw: "takeWhile (\<lambda>z. z \<noteq> c) (x @ c # Join xs [c]) = x"
      using Cons.prems(2) by (induction x) auto
    have "SplitN (Join xs [c]) [c] (Suc m) = xs"
      by (rule Cons.IH) (use Cons.prems Cons2 n in auto)
    then show ?thesis unfolding n j by (simp add: Index_char tw)
  qed
qed simp

lemma Join_length: "length xs \<le> Suc (length (Join xs sep)) \<or> sep = []"
proof (induction xs sep rule: Join.induct)
  case (3 s t r sep)
  then show ?case by (cases sep) auto
qed simp_all

lemma Split_Join:
  "xs \<noteq> [] \<Longrightarrow> list_all (\<lambda>p. c \<notin> set p) xs \<Longrightarrow> Split (Join xs [c]) [c] = xs"
  unfolding Split_def using SplitN_Join [of xs c "Suc (length (Join xs [c]))"] Join_length [of xs "[c]"] by simp

lemma clean_abs:
  assumes "IsAbs p"
  shows "\<exists>cs. list_all comp_ok cs \<and> path_Clean p = slash @ Join cs slash"
proof -
  have "p \<noteq> []" using assms by (auto simp: IsAbs_def slash_def HasPrefix_def)
  moreover have "list_all comp_ok (clean_comps True [] (Split p slash))"
    by (rule clean_comps_ok) (simp_all add: slash_def Split_no_sep)
  ultimately show ?thesis using assms by (auto simp: path_Clean_def)
qed

text \<open>The components of a rooted path.\<close>

definition abs_comps :: "string \<Rightarrow> string list" where
  "abs_comps p = tl (Split p slash)"

lemma abs_comps_Join:
  assumes "cs \<noteq> []" "list_all comp_ok cs"
  shows "abs_comps (slash @ Join cs slash) = cs"
proof -
  have "slash @ Join cs slash = Join ([] # cs) slash" using assms(1) by (simp add: Join_Cons)
  moreover have "Split (Join ([] # cs) slash) slash = [] # cs"
    unfolding slash_def by (rule Split_Join) (use assms(2) in \<open>auto simp: list_all_iff comp_ok_def\<close>)
  ultimately show ?thesis by (simp add: abs_comps_def)
qed

end
