(* ===== verification/Sandbox.thy ===== *)
theory Sandbox
  imports GoPath "HOL-Library.Multiset"
begin

text \<open>
  internal/sandbox: the contracts of driver.go (requests, results, the bounded output writer), the
  pooled drivers of memory.go and docker.go, the driver of persistent containers (agent_docker.go),
  and the execution of a command in each kind of sandbox. The operating system and the Docker API are
  parameters. Durations are in nanoseconds. A driver's goroutines are explicit: every slot that is
  being destroyed or waits to enter the pool is an entry of the state, and each of their steps is an
  operation.
\<close>

definition second :: int where "second = 1000000000"

section \<open>Contracts\<close>

record ExecRequest =
  xr_Cmd :: "string list"
  xr_Stdin :: string
  xr_Env :: "string list"
  xr_Dir :: string
  xr_Timeout :: int
  xr_MaxOut :: int

definition exec_req :: "string list \<Rightarrow> ExecRequest" where
  "exec_req cmd = \<lparr> xr_Cmd = cmd, xr_Stdin = [], xr_Env = [], xr_Dir = [], xr_Timeout = 0, xr_MaxOut = 0 \<rparr>"

record ExecResult =
  xs_ExitCode :: int
  xs_Stdout :: string
  xs_Stderr :: string
  xs_Truncated :: bool
  xs_Elapsed :: int

definition zero_exec :: ExecResult where
  "zero_exec = \<lparr> xs_ExitCode = 0, xs_Stdout = [], xs_Stderr = [], xs_Truncated = False, xs_Elapsed = 0 \<rparr>"

record Stats =
  ss_PoolSize :: int
  ss_PoolReady :: int
  ss_InFlight :: int
  ss_SpawnCount :: int
  ss_DestroyCount :: int
  ss_AcquireWaitMicros :: int

text \<open>The interfaces Sandbox and Driver. Exec returns its result and its error, as the code does when a
  command times out.\<close>

record 'w Sandbox =
  sb_ID :: string
  sb_RunID :: string
  sb_WorkspaceHost :: string
  sb_WorkspaceContainer :: string
  sb_Exec :: "'w \<Rightarrow> ExecRequest \<Rightarrow> (ExecResult \<times> string option) \<times> 'w"

record 'w Driver =
  dr_Acquire :: "'w \<Rightarrow> string \<Rightarrow> (string, 'w Sandbox) result \<times> 'w"
  dr_Release :: "'w \<Rightarrow> 'w Sandbox \<Rightarrow> string option \<times> 'w"
  dr_Stats :: "'w \<Rightarrow> Stats"

section \<open>Bounded output\<close>

text \<open>Two writers with a buffer each share one truncated flag.\<close>

record capWriter =
  cw_buf :: string
  cw_max :: int

definition capWriter_Write :: "capWriter \<Rightarrow> string \<Rightarrow> capWriter \<times> bool" where
  "capWriter_Write w p =
     (let remain = cw_max w - int (length (cw_buf w)) in
      if remain \<le> 0 then (w, True)
      else if int (length p) > remain then (w\<lparr> cw_buf := cw_buf w @ take (nat remain) p \<rparr>, True)
      else (w\<lparr> cw_buf := cw_buf w @ p \<rparr>, False))"

text \<open>What a process writes, in order: the stream (true for standard error) and the bytes.\<close>

fun cap_outputs :: "capWriter \<Rightarrow> capWriter \<Rightarrow> bool \<Rightarrow> (bool \<times> string) list \<Rightarrow> capWriter \<times> capWriter \<times> bool" where
  "cap_outputs so se tr [] = (so, se, tr)"
| "cap_outputs so se tr ((err, p) # ws) =
     (if err then (let (se', t) = capWriter_Write se p in cap_outputs so se' (tr \<or> t) ws)
      else (let (so', t) = capWriter_Write so p in cap_outputs so' se (tr \<or> t) ws))"

definition exec_maxOut :: "ExecRequest \<Rightarrow> int" where
  "exec_maxOut req = (if xr_MaxOut req \<le> 0 then 64 * 1024 else xr_MaxOut req)"

definition captured :: "ExecRequest \<Rightarrow> (bool \<times> string) list \<Rightarrow> int \<Rightarrow> int \<Rightarrow> ExecResult" where
  "captured req writes code elapsed =
     (let m = exec_maxOut req;
          (so, se, tr) = cap_outputs \<lparr> cw_buf = [], cw_max = m \<rparr> \<lparr> cw_buf = [], cw_max = m \<rparr> False writes
      in \<lparr> xs_ExitCode = code, xs_Stdout = cw_buf so, xs_Stderr = cw_buf se, xs_Truncated = tr, xs_Elapsed = elapsed \<rparr>)"

definition exec_timeout :: "int \<Rightarrow> ExecRequest \<Rightarrow> int" where
  "exec_timeout hard req = (if xr_Timeout req \<le> 0 \<or> xr_Timeout req > hard then hard else xr_Timeout req)"

section \<open>Pool slots\<close>

text \<open>A slot: memSlot of memory.go (its id) or warmSlot of docker.go (its container id and name).\<close>

record slot =
  sl_id :: string
  sl_name :: string
  sl_workspaceHost :: string
  sl_runID :: string

text \<open>The goroutine destroyAndRefill: still to destroy the old slot, past the destruction and about to
  spawn, or waiting to hand the new slot to the pool.\<close>

datatype refill = Destroying slot | Spawning | Putting slot

section \<open>Memory driver\<close>

record MemoryDriver =
  md_root :: string
  md_poolSize :: int
  md_pool :: "slot list"
  md_closing :: bool
  md_inFlight :: "string \<rightharpoonup> slot"
  md_binding :: "slot list"
  md_refills :: "refill list"
  md_spawnCnt :: int
  md_destroyCnt :: int
  md_waitMicros :: int

text \<open>spawn: now is the clock, mkdir the outcome of creating the directory.\<close>

definition mem_spawn :: "int \<Rightarrow> (string \<Rightarrow> string option) \<Rightarrow> MemoryDriver \<Rightarrow> (string, slot) result \<times> MemoryDriver" where
  "mem_spawn now mkdir d =
     (let d1 = d\<lparr> md_spawnCnt := md_spawnCnt d + 1 \<rparr>;
          i = ''mem-'' @ Itoa now @ ''-'' @ Itoa (md_spawnCnt d1);
          p = path_Join [md_root d, i]
      in case mkdir p of
           Some e \<Rightarrow> (Inl e, d1)
         | None \<Rightarrow> (Inr \<lparr> sl_id = i, sl_name = [], sl_workspaceHost = p, sl_runID = [] \<rparr>, d1))"

fun mem_fill :: "(int \<times> (string \<Rightarrow> string option)) list \<Rightarrow> MemoryDriver \<Rightarrow> (string, MemoryDriver) result" where
  "mem_fill [] d = Inr d"
| "mem_fill ((now, mkdir) # xs) d =
     (case mem_spawn now mkdir d of
        (Inl e, d1) \<Rightarrow> Inl e
      | (Inr s, d1) \<Rightarrow> mem_fill xs (d1\<lparr> md_pool := md_pool d1 @ [s] \<rparr>))"

definition mem_poolSize :: "int \<Rightarrow> int" where "mem_poolSize n = (if n \<le> 0 then 2 else n)"

text \<open>One clock value and one mkdir outcome per slot of the pool.\<close>

definition NewMemoryDriver :: "string \<Rightarrow> string \<Rightarrow> int \<Rightarrow> (string \<Rightarrow> string option) \<Rightarrow> (nat \<Rightarrow> int \<times> (string \<Rightarrow> string option)) \<Rightarrow>
    (string, MemoryDriver) result" where
  "NewMemoryDriver tmpdir root0 n mkroot env =
     (let root = (if root0 = [] then path_Join [tmpdir, ''agentforge-mem''] else root0) in
      case mkroot root of
        Some e \<Rightarrow> Inl (''mkdir root: '' @ e)
      | None \<Rightarrow> mem_fill (map env [0..<nat (mem_poolSize n)])
          \<lparr> md_root = root, md_poolSize = mem_poolSize n, md_pool = [], md_closing = False, md_inFlight = Map.empty,
            md_binding = [], md_refills = [], md_spawnCnt = 0, md_destroyCnt = 0, md_waitMicros = 0 \<rparr>)"

text \<open>Acquire in its two critical parts. The select takes a slot when there is one (None: it has to wait);
  it may as well see the end of the context or the closing.\<close>

datatype wait_outcome = GotSlot | WaitCtxDone string | WaitClosing

definition mem_Acquire_take :: "MemoryDriver \<Rightarrow> string \<Rightarrow> wait_outcome \<Rightarrow> int \<Rightarrow> ((string, slot) result \<times> MemoryDriver) option" where
  "mem_Acquire_take d runID wo micros =
     (if runID = [] then Some (Inl ''empty run_id'', d)
      else if md_closing d then Some (Inl ''driver closing'', d)
      else (case wo of
          WaitCtxDone e \<Rightarrow> Some (Inl e, d)
        | WaitClosing \<Rightarrow> Some (Inl ''driver closing'', d)
        | GotSlot \<Rightarrow>
            (case md_pool d of
               [] \<Rightarrow> None
             | s # rest \<Rightarrow>
                 (let s1 = s\<lparr> sl_runID := runID \<rparr> in
                  Some (Inr s1, d\<lparr> md_pool := rest, md_binding := md_binding d @ [s1],
                              md_waitMicros := md_waitMicros d + micros \<rparr>)))))"

definition mem_WorkspaceHost :: "slot \<Rightarrow> string" where
  "mem_WorkspaceHost s = path_Join [sl_workspaceHost s, ''runs'', sl_runID s]"

definition mem_Acquire_bind :: "MemoryDriver \<Rightarrow> slot \<Rightarrow> string option \<Rightarrow> (string, slot) result \<times> MemoryDriver" where
  "mem_Acquire_bind d s mkdir_err =
     (let d1 = d\<lparr> md_binding := remove1 s (md_binding d) \<rparr> in
      case mkdir_err of
        Some e \<Rightarrow> (Inl (''mkdir run workspace: '' @ e), d1\<lparr> md_refills := md_refills d1 @ [Destroying s] \<rparr>)
      | None \<Rightarrow> (Inr s, d1\<lparr> md_inFlight := (md_inFlight d1)(sl_id s \<mapsto> s) \<rparr>))"

definition mem_Release :: "MemoryDriver \<Rightarrow> slot \<Rightarrow> MemoryDriver" where
  "mem_Release d s = d\<lparr> md_inFlight := (md_inFlight d)(sl_id s := None), md_refills := md_refills d @ [Destroying s] \<rparr>"

text \<open>The steps of one destroyAndRefill goroutine.\<close>

definition mem_destroy :: "MemoryDriver \<Rightarrow> slot \<Rightarrow> MemoryDriver" where
  "mem_destroy d s =
     (let d1 = d\<lparr> md_refills := remove1 (Destroying s) (md_refills d), md_destroyCnt := md_destroyCnt d + 1 \<rparr>
      in if md_closing d then d1 else d1\<lparr> md_refills := md_refills d1 @ [Spawning] \<rparr>)"

definition mem_respawn :: "MemoryDriver \<Rightarrow> int \<Rightarrow> (string \<Rightarrow> string option) \<Rightarrow> MemoryDriver" where
  "mem_respawn d now mkdir =
     (let d0 = d\<lparr> md_refills := remove1 Spawning (md_refills d) \<rparr> in
      case mem_spawn now mkdir d0 of
        (Inl e, d1) \<Rightarrow> d1
      | (Inr s, d1) \<Rightarrow> d1\<lparr> md_refills := md_refills d1 @ [Putting s] \<rparr>)"

text \<open>A send on the pool is possible while its buffer has room.\<close>

definition mem_put :: "MemoryDriver \<Rightarrow> slot \<Rightarrow> MemoryDriver option" where
  "mem_put d s =
     (if int (length (md_pool d)) < md_poolSize d
      then Some (d\<lparr> md_refills := remove1 (Putting s) (md_refills d), md_pool := md_pool d @ [s] \<rparr>) else None)"

definition mem_discard :: "MemoryDriver \<Rightarrow> slot \<Rightarrow> MemoryDriver option" where
  "mem_discard d s = (if md_closing d then Some (d\<lparr> md_refills := remove1 (Putting s) (md_refills d) \<rparr>) else None)"

definition mem_Stats :: "MemoryDriver \<Rightarrow> Stats" where
  "mem_Stats d = \<lparr> ss_PoolSize = md_poolSize d, ss_PoolReady = int (length (md_pool d)),
     ss_InFlight = int (card (dom (md_inFlight d))), ss_SpawnCount = md_spawnCnt d, ss_DestroyCount = md_destroyCnt d,
     ss_AcquireWaitMicros = md_waitMicros d \<rparr>"

text \<open>Close marks the driver and drains the pool; the polling of the in-flight slots then waits for
  the releases.\<close>

definition mem_Close_drain :: "MemoryDriver \<Rightarrow> MemoryDriver" where
  "mem_Close_drain d = d\<lparr> md_closing := True, md_pool := [] \<rparr>"

definition mem_Close_waiting :: "MemoryDriver \<Rightarrow> bool" where
  "mem_Close_waiting d = (dom (md_inFlight d) \<noteq> {})"

text \<open>What running a process ends with.\<close>

datatype run_outcome = RunOk | RunCtxErr string | RunExit int | RunFailed string

definition memorySandbox_Exec ::
    "('w \<Rightarrow> string list \<Rightarrow> string \<Rightarrow> string list \<Rightarrow> string \<Rightarrow> int \<Rightarrow> ((bool \<times> string) list \<times> run_outcome \<times> int) \<times> 'w) \<Rightarrow>
     slot \<Rightarrow> 'w \<Rightarrow> ExecRequest \<Rightarrow> (ExecResult \<times> string option) \<times> 'w" where
  "memorySandbox_Exec run s w req =
     (if xr_Cmd req = [] then ((zero_exec, Some ''empty cmd''), w)
      else
       (let timeout = (if xr_Timeout req \<le> 0 then 30 * second else xr_Timeout req);
            workdir = (if xr_Dir req = [] then mem_WorkspaceHost s else xr_Dir req);
            ((writes, out, elapsed), w1) = run w (xr_Cmd req) workdir (xr_Env req) (xr_Stdin req) timeout
        in case out of
             RunOk \<Rightarrow> ((captured req writes 0 elapsed, None), w1)
           | RunCtxErr e \<Rightarrow> ((captured req writes (-1) elapsed, Some (''exec timeout: '' @ e)), w1)
           | RunExit c \<Rightarrow> ((captured req writes c elapsed, None), w1)
           | RunFailed e \<Rightarrow> ((captured req writes 0 elapsed, Some e), w1)))"

definition memorySandbox ::
    "('w \<Rightarrow> string list \<Rightarrow> string \<Rightarrow> string list \<Rightarrow> string \<Rightarrow> int \<Rightarrow> ((bool \<times> string) list \<times> run_outcome \<times> int) \<times> 'w) \<Rightarrow>
     slot \<Rightarrow> 'w Sandbox" where
  "memorySandbox run s = \<lparr> sb_ID = sl_id s, sb_RunID = sl_runID s, sb_WorkspaceHost = mem_WorkspaceHost s,
     sb_WorkspaceContainer = mem_WorkspaceHost s, sb_Exec = memorySandbox_Exec run s \<rparr>"

section \<open>Docker driver\<close>

record DockerOptions =
  do_Image :: string
  do_PoolSize :: int
  do_AcquireTimeout :: int
  do_WorkspaceRoot :: string
  do_MemoryBytes :: int
  do_CPUQuota :: int
  do_CPUPeriod :: int
  do_PidsLimit :: int
  do_ExecTimeoutHard :: int
  do_User :: string
  do_TmpfsSize :: string

definition docker_defaults :: "string \<Rightarrow> DockerOptions \<Rightarrow> DockerOptions" where
  "docker_defaults tmpdir o0 =
     \<lparr> do_Image = (if do_Image o0 = [] then ''alpine:3.19'' else do_Image o0),
       do_PoolSize = (if do_PoolSize o0 \<le> 0 then 4 else do_PoolSize o0),
       do_AcquireTimeout = (if do_AcquireTimeout o0 \<le> 0 then 30 * second else do_AcquireTimeout o0),
       do_WorkspaceRoot = (if do_WorkspaceRoot o0 = [] then path_Join [tmpdir, ''agentforge''] else do_WorkspaceRoot o0),
       do_MemoryBytes = (if do_MemoryBytes o0 \<le> 0 then 256 * 1024 * 1024 else do_MemoryBytes o0),
       do_CPUQuota = (if do_CPUQuota o0 \<le> 0 then 50000 else do_CPUQuota o0),
       do_CPUPeriod = (if do_CPUPeriod o0 \<le> 0 then 100000 else do_CPUPeriod o0),
       do_PidsLimit = (if do_PidsLimit o0 \<le> 0 then 256 else do_PidsLimit o0),
       do_ExecTimeoutHard = (if do_ExecTimeoutHard o0 \<le> 0 then 60 * second else do_ExecTimeoutHard o0),
       do_User = (if do_User o0 = [] then ''65534:65534'' else do_User o0),
       do_TmpfsSize = (if do_TmpfsSize o0 = [] then ''64m'' else do_TmpfsSize o0) \<rparr>"

text \<open>The request of ContainerCreate, as far as the code fills it in.\<close>

record ContainerSpec =
  ct_Name :: string
  ct_Image :: string
  ct_User :: string
  ct_Cmd :: "string list"
  ct_WorkingDir :: string
  ct_Labels :: "(string \<times> string) list"
  ct_NetworkDisabled :: bool
  ct_ReadonlyRootfs :: bool
  ct_NetworkMode :: string
  ct_SecurityOpt :: "string list"
  ct_CapDrop :: "string list"
  ct_Tmpfs :: "(string \<times> string) list"
  ct_Mounts :: "(string \<times> string) list"
  ct_Memory :: int
  ct_CPUQuota :: int
  ct_CPUPeriod :: int
  ct_PidsLimit :: int

definition sandbox_spec :: "DockerOptions \<Rightarrow> string \<Rightarrow> string \<Rightarrow> string \<Rightarrow> ContainerSpec" where
  "sandbox_spec opt i name hostWorkspace =
     \<lparr> ct_Name = name, ct_Image = do_Image opt, ct_User = do_User opt, ct_Cmd = [''sleep'', ''infinity''],
       ct_WorkingDir = ''/workspace'',
       ct_Labels = [(''agentforge.role'', ''sandbox-l1''), (''agentforge.slot'', i)],
       ct_NetworkDisabled = True, ct_ReadonlyRootfs = True, ct_NetworkMode = ''none'',
       ct_SecurityOpt = [''no-new-privileges:true''], ct_CapDrop = [''ALL''],
       ct_Tmpfs = [(''/tmp'', ''rw,nosuid,nodev,size='' @ do_TmpfsSize opt)],
       ct_Mounts = [(hostWorkspace, ''/workspace'')],
       ct_Memory = do_MemoryBytes opt, ct_CPUQuota = do_CPUQuota opt, ct_CPUPeriod = do_CPUPeriod opt,
       ct_PidsLimit = do_PidsLimit opt \<rparr>"

text \<open>The calls of the Docker API and of the file system that the pool makes. A container is removed with or
  without its volumes.\<close>

record 'w DockerAPI =
  dk_new_id :: "'w \<Rightarrow> string \<times> 'w"
  dk_mkdir :: "'w \<Rightarrow> string \<Rightarrow> string option \<times> 'w"
  dk_removeAll :: "'w \<Rightarrow> string \<Rightarrow> 'w"
  dk_create :: "'w \<Rightarrow> ContainerSpec \<Rightarrow> (string, string) result \<times> 'w"
  dk_start :: "'w \<Rightarrow> string \<Rightarrow> string option \<times> 'w"
  dk_remove :: "'w \<Rightarrow> string \<Rightarrow> bool \<Rightarrow> 'w"

definition spawnSlot :: "'w DockerAPI \<Rightarrow> DockerOptions \<Rightarrow> 'w \<Rightarrow> (string, slot) result \<times> 'w" where
  "spawnSlot A opt w =
     (let (i, w0) = dk_new_id A w;
          name = ''agentforge-sb-'' @ drop (length i - 12) i;
          host = path_Join [do_WorkspaceRoot opt, name]
      in case dk_mkdir A w0 host of
           (Some e, w1) \<Rightarrow> (Inl (''mkdir host workspace: '' @ e), w1)
         | (None, w1) \<Rightarrow>
             (case dk_create A w1 (sandbox_spec opt i name host) of
                (Inl e, w2) \<Rightarrow> (Inl (''container create: '' @ e), dk_removeAll A w2 host)
              | (Inr cid, w2) \<Rightarrow>
                  (case dk_start A w2 cid of
                     (Some e, w3) \<Rightarrow> (Inl (''container start: '' @ e), dk_removeAll A (dk_remove A w3 cid False) host)
                   | (None, w3) \<Rightarrow>
                       (Inr \<lparr> sl_id = cid, sl_name = name, sl_workspaceHost = host, sl_runID = [] \<rparr>, w3))))"

record DockerDriver =
  dd_opt :: DockerOptions
  dd_pool :: "slot list"
  dd_closing :: bool
  dd_inFlight :: "string \<rightharpoonup> slot"
  dd_binding :: "slot list"
  dd_refills :: "refill list"
  dd_spawnCount :: int
  dd_destroyCount :: int
  dd_waitMicros :: int

text \<open>Warming the pool: a slot that does not start is left out.\<close>

fun warm_pool :: "'w DockerAPI \<Rightarrow> nat \<Rightarrow> 'w \<Rightarrow> DockerDriver \<Rightarrow> DockerDriver \<times> 'w" where
  "warm_pool A 0 w d = (d, w)"
| "warm_pool A (Suc n) w d =
     (case spawnSlot A (dd_opt d) w of
        (Inl e, w1) \<Rightarrow> warm_pool A n w1 d
      | (Inr s, w1) \<Rightarrow> warm_pool A n w1 (d\<lparr> dd_pool := dd_pool d @ [s], dd_spawnCount := dd_spawnCount d + 1 \<rparr>))"

text \<open>What starting the client does before the pool: the connection, the workspace root and the image, each with
  its error. An absent image is pulled and drained.\<close>

definition ensureImage :: "('w \<Rightarrow> string \<Rightarrow> bool \<times> 'w) \<Rightarrow> ('w \<Rightarrow> string \<Rightarrow> string option \<times> 'w) \<Rightarrow>
    ('w \<Rightarrow> string \<Rightarrow> string option \<times> 'w) \<Rightarrow> 'w \<Rightarrow> string \<Rightarrow> string option \<times> 'w" where
  "ensureImage inspect pull drain w ref =
     (case inspect w ref of
        (True, w1) \<Rightarrow> (None, w1)
      | (False, w1) \<Rightarrow>
          (case pull w1 ref of
             (Some e, w2) \<Rightarrow> (Some (''image pull: '' @ e), w2)
           | (None, w2) \<Rightarrow>
               (case drain w2 ref of
                  (Some e, w3) \<Rightarrow> (Some (''image pull drain: '' @ e), w3)
                | (None, w3) \<Rightarrow> (None, w3))))"

definition NewDockerDriver ::
    "'w DockerAPI \<Rightarrow> ('w \<Rightarrow> string option \<times> 'w) \<Rightarrow> ('w \<Rightarrow> string option \<times> 'w) \<Rightarrow> ('w \<Rightarrow> 'w) \<Rightarrow>
     ('w \<Rightarrow> string \<Rightarrow> string option \<times> 'w) \<Rightarrow> string \<Rightarrow> DockerOptions \<Rightarrow> 'w \<Rightarrow> (string, DockerDriver) result \<times> 'w" where
  "NewDockerDriver A connect ping close_client ensure tmpdir opt0 w =
     (let opt = docker_defaults tmpdir opt0 in
      case connect w of
        (Some e, w1) \<Rightarrow> (Inl (''docker client: '' @ e), w1)
      | (None, w1) \<Rightarrow>
     (case ping w1 of
        (Some e, w2) \<Rightarrow> (Inl (''docker ping: '' @ e), close_client w2)
      | (None, w2) \<Rightarrow>
     (case dk_mkdir A w2 (do_WorkspaceRoot opt) of
        (Some e, w3) \<Rightarrow> (Inl (''workspace root: '' @ e), close_client w3)
      | (None, w3) \<Rightarrow>
     (case ensure w3 (do_Image opt) of
        (Some e, w4) \<Rightarrow> (Inl e, close_client w4)
      | (None, w4) \<Rightarrow>
          (let (d, w5) = warm_pool A (nat (do_PoolSize opt)) w4
             \<lparr> dd_opt = opt, dd_pool = [], dd_closing = False, dd_inFlight = Map.empty, dd_binding = [], dd_refills = [],
               dd_spawnCount = 0, dd_destroyCount = 0, dd_waitMicros = 0 \<rparr>
           in (Inr d, w5))))))"

definition docker_Acquire_take :: "DockerDriver \<Rightarrow> string \<Rightarrow> wait_outcome \<Rightarrow> int \<Rightarrow> ((string, slot) result \<times> DockerDriver) option" where
  "docker_Acquire_take d runID wo micros =
     (if runID = [] then Some (Inl ''empty run_id'', d)
      else if dd_closing d then Some (Inl ''driver closing'', d)
      else (case wo of
          WaitCtxDone e \<Rightarrow> Some (Inl (''acquire: '' @ e), d)
        | WaitClosing \<Rightarrow> Some (Inl ''driver closing'', d)
        | GotSlot \<Rightarrow>
            (case dd_pool d of
               [] \<Rightarrow> None
             | s # rest \<Rightarrow>
                 (let s1 = s\<lparr> sl_runID := runID \<rparr> in
                  Some (Inr s1, d\<lparr> dd_pool := rest, dd_binding := dd_binding d @ [s1],
                              dd_waitMicros := dd_waitMicros d + micros \<rparr>)))))"

definition docker_run_dir :: "slot \<Rightarrow> string" where
  "docker_run_dir s = path_Join [sl_workspaceHost s, ''runs'', sl_runID s]"

definition docker_Acquire_bind :: "DockerDriver \<Rightarrow> slot \<Rightarrow> string option \<Rightarrow> (string, slot) result \<times> DockerDriver" where
  "docker_Acquire_bind d s mkdir_err =
     (let d1 = d\<lparr> dd_binding := remove1 s (dd_binding d) \<rparr> in
      case mkdir_err of
        Some e \<Rightarrow> (Inl (''mkdir run workspace: '' @ e), d1\<lparr> dd_refills := dd_refills d1 @ [Destroying s] \<rparr>)
      | None \<Rightarrow> (Inr s, d1\<lparr> dd_inFlight := (dd_inFlight d1)(sl_id s \<mapsto> s) \<rparr>))"

definition docker_Release :: "DockerDriver \<Rightarrow> slot \<Rightarrow> DockerDriver" where
  "docker_Release d s = d\<lparr> dd_inFlight := (dd_inFlight d)(sl_id s := None), dd_refills := dd_refills d @ [Destroying s] \<rparr>"

definition docker_destroy :: "'w DockerAPI \<Rightarrow> DockerDriver \<times> 'w \<Rightarrow> slot \<Rightarrow> DockerDriver \<times> 'w" where
  "docker_destroy A dw s =
     (let (d, w) = dw;
          w1 = dk_removeAll A (dk_remove A w (sl_id s) True) (sl_workspaceHost s);
          d1 = d\<lparr> dd_refills := remove1 (Destroying s) (dd_refills d), dd_destroyCount := dd_destroyCount d + 1 \<rparr>
      in (if dd_closing d then d1 else d1\<lparr> dd_refills := dd_refills d1 @ [Spawning] \<rparr>, w1))"

definition docker_respawn :: "'w DockerAPI \<Rightarrow> DockerDriver \<times> 'w \<Rightarrow> DockerDriver \<times> 'w" where
  "docker_respawn A dw =
     (let (d, w) = dw; d0 = d\<lparr> dd_refills := remove1 Spawning (dd_refills d) \<rparr> in
      case spawnSlot A (dd_opt d) w of
        (Inl e, w1) \<Rightarrow> (d0, w1)
      | (Inr s, w1) \<Rightarrow> (d0\<lparr> dd_refills := dd_refills d0 @ [Putting s], dd_spawnCount := dd_spawnCount d0 + 1 \<rparr>, w1))"

definition docker_put :: "DockerDriver \<Rightarrow> slot \<Rightarrow> DockerDriver option" where
  "docker_put d s =
     (if int (length (dd_pool d)) < do_PoolSize (dd_opt d)
      then Some (d\<lparr> dd_refills := remove1 (Putting s) (dd_refills d), dd_pool := dd_pool d @ [s] \<rparr>) else None)"

definition docker_discard :: "'w DockerAPI \<Rightarrow> DockerDriver \<times> 'w \<Rightarrow> slot \<Rightarrow> (DockerDriver \<times> 'w) option" where
  "docker_discard A dw s =
     (let (d, w) = dw in
      if dd_closing d
      then Some (d\<lparr> dd_refills := remove1 (Putting s) (dd_refills d) \<rparr>,
                 dk_removeAll A (dk_remove A w (sl_id s) False) (sl_workspaceHost s))
      else None)"

definition docker_Stats :: "DockerDriver \<Rightarrow> Stats" where
  "docker_Stats d = \<lparr> ss_PoolSize = do_PoolSize (dd_opt d), ss_PoolReady = int (length (dd_pool d)),
     ss_InFlight = int (card (dom (dd_inFlight d))), ss_SpawnCount = dd_spawnCount d, ss_DestroyCount = dd_destroyCount d,
     ss_AcquireWaitMicros = dd_waitMicros d \<rparr>"

definition docker_Close_drain :: "'w DockerAPI \<Rightarrow> DockerDriver \<times> 'w \<Rightarrow> DockerDriver \<times> 'w" where
  "docker_Close_drain A dw =
     (let (d, w) = dw in
      (d\<lparr> dd_closing := True, dd_pool := [] \<rparr>,
       foldl (\<lambda>w s. dk_removeAll A (dk_remove A w (sl_id s) False) (sl_workspaceHost s)) w (dd_pool d)))"

text \<open>The polling of Close ends when nothing is in flight or the context is done; the client is closed either
  way.\<close>

definition docker_Close_wait :: "DockerDriver \<Rightarrow> bool \<Rightarrow> bool" where
  "docker_Close_wait d ctx_done = (dom (dd_inFlight d) \<noteq> {} \<and> \<not> ctx_done)"

section \<open>Execution in a container\<close>

record ExecConfig =
  xc_User :: string
  xc_WorkingDir :: string
  xc_AttachStdin :: bool
  xc_Cmd :: "string list"
  xc_Env :: "string list"

datatype copy_outcome = CopyDone | CopyEOF | CopyError string | CopyTimeout string

text \<open>Creating, attaching to (with the standard input and the timeout) and inspecting an exec instance.\<close>

record 'w ExecAPI =
  xa_create :: "'w \<Rightarrow> string \<Rightarrow> ExecConfig \<Rightarrow> (string, string) result \<times> 'w"
  xa_attach :: "'w \<Rightarrow> string \<Rightarrow> string option \<times> 'w"
  xa_copy :: "'w \<Rightarrow> string \<Rightarrow> string \<Rightarrow> int \<Rightarrow> ((bool \<times> string) list \<times> copy_outcome \<times> int) \<times> 'w"
  xa_inspect :: "'w \<Rightarrow> string \<Rightarrow> (string, int) result \<times> 'w"

definition container_exec :: "'w ExecAPI \<Rightarrow> int \<Rightarrow> string \<Rightarrow> string \<Rightarrow> string \<Rightarrow> 'w \<Rightarrow> ExecRequest \<Rightarrow> (ExecResult \<times> string option) \<times> 'w" where
  "container_exec X hard cid user workspace w req =
     (if xr_Cmd req = [] then ((zero_exec, Some ''empty cmd''), w)
      else
       (let timeout = exec_timeout hard req;
            workdir = (if xr_Dir req = [] then workspace else xr_Dir req);
            cfg = \<lparr> xc_User = user, xc_WorkingDir = workdir, xc_AttachStdin = (xr_Stdin req \<noteq> []),
                    xc_Cmd = xr_Cmd req, xc_Env = xr_Env req \<rparr>
        in case xa_create X w cid cfg of
             (Inl e, w1) \<Rightarrow> ((zero_exec, Some (''exec create: '' @ e)), w1)
           | (Inr xid, w1) \<Rightarrow>
               (case xa_attach X w1 xid of
                  (Some e, w2) \<Rightarrow> ((zero_exec, Some (''exec attach: '' @ e)), w2)
                | (None, w2) \<Rightarrow>
                    (let ((writes, out, elapsed), w3) = xa_copy X w2 xid (xr_Stdin req) timeout;
                         finish = (case xa_inspect X w3 xid of
                            (Inl e, w4) \<Rightarrow> ((zero_exec, Some (''exec inspect: '' @ e)), w4)
                          | (Inr code, w4) \<Rightarrow> ((captured req writes code elapsed, None), w4))
                     in case out of
                          CopyTimeout e \<Rightarrow> ((captured req writes (-1) elapsed, Some (''exec timeout: '' @ e)), w3)
                        | CopyError e \<Rightarrow> ((zero_exec, Some (''exec copy: '' @ e)), w3)
                        | CopyDone \<Rightarrow> finish
                        | CopyEOF \<Rightarrow> finish))))"

definition docker_workspace :: "slot \<Rightarrow> string" where "docker_workspace s = ''/workspace/runs/'' @ sl_runID s"

definition dockerSandbox_Exec :: "'w ExecAPI \<Rightarrow> DockerOptions \<Rightarrow> slot \<Rightarrow> 'w \<Rightarrow> ExecRequest \<Rightarrow> (ExecResult \<times> string option) \<times> 'w" where
  "dockerSandbox_Exec X opt s =
     container_exec X (do_ExecTimeoutHard opt) (sl_id s) (do_User opt) (docker_workspace s)"

definition dockerSandbox :: "'w ExecAPI \<Rightarrow> DockerOptions \<Rightarrow> slot \<Rightarrow> 'w Sandbox" where
  "dockerSandbox X opt s = \<lparr> sb_ID = sl_id s, sb_RunID = sl_runID s, sb_WorkspaceHost = docker_run_dir s,
     sb_WorkspaceContainer = docker_workspace s, sb_Exec = dockerSandbox_Exec X opt s \<rparr>"

section \<open>Persistent agent containers\<close>

record AgentDockerDriver =
  ad_hard :: int
  ad_closed :: bool

definition NewAgentDockerDriver :: "('w \<Rightarrow> string option \<times> 'w) \<Rightarrow> ('w \<Rightarrow> string option \<times> 'w) \<Rightarrow> ('w \<Rightarrow> 'w) \<Rightarrow> int \<Rightarrow> 'w \<Rightarrow>
    (string, AgentDockerDriver) result \<times> 'w" where
  "NewAgentDockerDriver connect ping close_client hardTimeout w =
     (case connect w of
        (Some e, w1) \<Rightarrow> (Inl (''docker client: '' @ e), w1)
      | (None, w1) \<Rightarrow>
          (case ping w1 of
             (Some e, w2) \<Rightarrow> (Inl (''docker ping: '' @ e), close_client w2)
           | (None, w2) \<Rightarrow>
               (Inr \<lparr> ad_hard = (if hardTimeout \<le> 0 then 60 * second else hardTimeout), ad_closed = False \<rparr>, w2)))"

definition agentDockerSandbox_Exec :: "'w ExecAPI \<Rightarrow> int \<Rightarrow> string \<Rightarrow> string \<Rightarrow> 'w \<Rightarrow> ExecRequest \<Rightarrow> (ExecResult \<times> string option) \<times> 'w" where
  "agentDockerSandbox_Exec X hard cid user = container_exec X hard cid user ''/workspace''"

definition agentDockerSandbox :: "'w ExecAPI \<Rightarrow> int \<Rightarrow> string \<Rightarrow> string \<Rightarrow> string \<Rightarrow> 'w Sandbox" where
  "agentDockerSandbox X hard cid agentID user = \<lparr> sb_ID = cid, sb_RunID = agentID, sb_WorkspaceHost = [],
     sb_WorkspaceContainer = ''/workspace'', sb_Exec = agentDockerSandbox_Exec X hard cid user \<rparr>"

text \<open>Listing containers by labels gives ids and states; inspecting one gives its user, when it has a
  configuration.\<close>

definition AgentDocker_Acquire ::
    "Unicode \<Rightarrow> 'w ExecAPI \<Rightarrow> ('w \<Rightarrow> string list \<Rightarrow> (string, (string \<times> string) list) result \<times> 'w) \<Rightarrow>
     ('w \<Rightarrow> string \<Rightarrow> (string, string option) result \<times> 'w) \<Rightarrow> AgentDockerDriver \<Rightarrow> 'w \<Rightarrow> string \<Rightarrow> (string, 'w Sandbox) result \<times> 'w" where
  "AgentDocker_Acquire U X clist inspect d w agentID =
     (if agentID = [] then (Inl ''empty agent_id'', w)
      else if ad_closed d then (Inl ''driver closing'', w)
      else (case clist w [''agentforge.role=persistent-agent'', ''agentforge.agent_id='' @ agentID] of
          (Inl e, w1) \<Rightarrow> (Inl (''list persistent agent container: '' @ e), w1)
        | (Inr [], w1) \<Rightarrow> (Inl (''persistent container for agent '' @ Quote U agentID @ '' not found''), w1)
        | (Inr [(cid, state)], w1) \<Rightarrow>
            (if state \<noteq> ''running''
             then (Inl (''persistent container for agent '' @ Quote U agentID @ '' is '' @ state), w1)
             else (case inspect w1 cid of
                 (Inl e, w2) \<Rightarrow> (Inl (''inspect persistent agent container: '' @ e), w2)
               | (Inr user, w2) \<Rightarrow>
                   (Inr (agentDockerSandbox X (ad_hard d) cid agentID (case user of None \<Rightarrow> [] | Some u \<Rightarrow> u)), w2)))
        | (Inr _, w1) \<Rightarrow> (Inl (''multiple persistent containers found for agent '' @ Quote U agentID), w1)))"

definition AgentDocker_Close :: "('w \<Rightarrow> string option \<times> 'w) \<Rightarrow> AgentDockerDriver \<Rightarrow> 'w \<Rightarrow> string option \<times> AgentDockerDriver \<times> 'w" where
  "AgentDocker_Close close_client d w =
     (if ad_closed d then (None, d, w)
      else (let (e, w1) = close_client w in (e, d\<lparr> ad_closed := True \<rparr>, w1)))"

definition AgentDockerDriver_ops ::
    "Unicode \<Rightarrow> 'w ExecAPI \<Rightarrow> ('w \<Rightarrow> string list \<Rightarrow> (string, (string \<times> string) list) result \<times> 'w) \<Rightarrow>
     ('w \<Rightarrow> string \<Rightarrow> (string, string option) result \<times> 'w) \<Rightarrow> AgentDockerDriver \<Rightarrow> 'w Driver" where
  "AgentDockerDriver_ops U X clist inspect d =
     \<lparr> dr_Acquire = AgentDocker_Acquire U X clist inspect d, dr_Release = (\<lambda>w sb. (None, w)),
       dr_Stats = (\<lambda>w. \<lparr> ss_PoolSize = 0, ss_PoolReady = 0, ss_InFlight = 0, ss_SpawnCount = 0, ss_DestroyCount = 0,
         ss_AcquireWaitMicros = 0 \<rparr>) \<rparr>"

section \<open>Captured output\<close>

text \<open>Everything a process writes to one of its streams.\<close>

definition stream_of :: "bool \<Rightarrow> (bool \<times> string) list \<Rightarrow> string" where
  "stream_of err ws = concat (map snd (filter (\<lambda>w. fst w = err) ws))"

lemma stream_of_simps [simp]:
  "stream_of err [] = []"
  "stream_of err ((e, p) # ws) = (if e = err then p @ stream_of err ws else stream_of err ws)"
  by (simp_all add: stream_of_def)

definition writer_ok :: "nat \<Rightarrow> capWriter \<Rightarrow> string \<Rightarrow> bool" where
  "writer_ok m w s = (cw_max w = int m \<and> cw_buf w = take m s)"

lemma capWriter_Write_ok:
  assumes "writer_ok m w s" "capWriter_Write w p = (w', t)"
  shows "writer_ok m w' (s @ p)" and "p \<noteq> [] \<Longrightarrow> t \<longleftrightarrow> length (s @ p) > m"
proof -
  let ?r = "cw_max w - int (length (cw_buf w))"
  have r: "?r = int (m - length s)" using assms(1) by (auto simp: writer_ok_def)
  have "writer_ok m w' (s @ p) \<and> (p \<noteq> [] \<longrightarrow> t = (length (s @ p) > m))"
  proof (cases "length s \<ge> m")
    case True
    have "p \<noteq> [] \<Longrightarrow> m < length s + length p" using True by (cases p) simp_all
    then show ?thesis using assms r True by (auto simp: capWriter_Write_def writer_ok_def Let_def)
  next
    case False
    then have "cw_buf w = s" using assms(1) by (simp add: writer_ok_def)
    moreover have "nat (int m - int (length (cw_buf w))) = m - length (cw_buf w)" by arith
    ultimately show ?thesis using assms r False by (auto simp: capWriter_Write_def writer_ok_def Let_def split: if_splits)
  qed
  then show "writer_ok m w' (s @ p)" "p \<noteq> [] \<Longrightarrow> t \<longleftrightarrow> length (s @ p) > m" by simp_all
qed

lemma cap_outputs_ok:
  assumes "cap_outputs so se tr ws = (so', se', tr')" "writer_ok m so a" "writer_ok m se b"
  shows "writer_ok m so' (a @ stream_of False ws) \<and> writer_ok m se' (b @ stream_of True ws) \<and>
    (list_all (\<lambda>w. snd w \<noteq> []) ws \<longrightarrow> tr = (length a > m \<or> length b > m) \<longrightarrow>
      tr' = (length (a @ stream_of False ws) > m \<or> length (b @ stream_of True ws) > m))"
  using assms
proof (induction ws arbitrary: so se tr a b)
  case (Cons w ws)
  obtain err p where w: "w = (err, p)" by (cases w)
  show ?case
  proof (cases err)
    case True
    obtain se1 t where c: "capWriter_Write se p = (se1, t)" by (cases "capWriter_Write se p")
    note wok = capWriter_Write_ok [OF Cons.prems(3) c]
    have "cap_outputs so se1 (tr \<or> t) ws = (so', se', tr')" using Cons.prems(1) c True by (simp add: w)
    from Cons.IH [OF this Cons.prems(2) wok(1)] wok(2) True show ?thesis by (auto simp: w)
  next
    case False
    obtain so1 t where c: "capWriter_Write so p = (so1, t)" by (cases "capWriter_Write so p")
    note wok = capWriter_Write_ok [OF Cons.prems(2) c]
    have "cap_outputs so1 se (tr \<or> t) ws = (so', se', tr')" using Cons.prems(1) c False by (simp add: w)
    from Cons.IH [OF this wok(1) Cons.prems(3)] wok(2) False show ?thesis by (auto simp: w)
  qed
qed simp

text \<open>The captured output of a command is the first maxOut bytes of each of its streams, and the truncated flag says whether a
  stream had more.\<close>

theorem captured_prefix:
  "xs_Stdout (captured req ws code ms) = take (nat (exec_maxOut req)) (stream_of False ws) \<and>
   xs_Stderr (captured req ws code ms) = take (nat (exec_maxOut req)) (stream_of True ws) \<and>
   (list_all (\<lambda>w. snd w \<noteq> []) ws \<longrightarrow>
     xs_Truncated (captured req ws code ms) =
       (int (length (stream_of False ws)) > exec_maxOut req \<or> int (length (stream_of True ws)) > exec_maxOut req))"
proof -
  let ?m = "exec_maxOut req" and ?w = "\<lparr> cw_buf = [], cw_max = exec_maxOut req \<rparr>"
  have pos: "?m > 0" by (simp add: exec_maxOut_def)
  obtain so se tr where c: "cap_outputs ?w ?w False ws = (so, se, tr)" by (metis prod_cases3)
  have "writer_ok (nat ?m) ?w []" using pos by (simp add: writer_ok_def)
  from cap_outputs_ok [OF c this this] pos show ?thesis
    by (auto simp: captured_def c Let_def writer_ok_def zless_nat_eq_int_zless)
qed

theorem captured_prefix_witness:
  "xs_Truncated (captured (exec_req [''ls'']\<lparr> xr_MaxOut := 3 \<rparr>) [(False, ''ab''), (True, ''x''), (False, ''cd'')] 0 1)"
  using captured_prefix [of "exec_req [''ls'']\<lparr> xr_MaxOut := 3 \<rparr>" "[(False, ''ab''), (True, ''x''), (False, ''cd'')]" 0 1]
  by (simp add: exec_maxOut_def exec_req_def)

end
