(* ===== verification/Pool.thy ===== *)
theory Pool
  imports Sandbox
begin

text \<open>
  The warm pool behind the memory and the Docker driver: an abstract pool with its steps and invariant,
  and the proof that both drivers implement it.
\<close>

section \<open>The abstract pool\<close>

record pview =
  pv_size :: int
  pv_pool :: "slot list"
  pv_closing :: bool
  pv_inFlight :: "string \<rightharpoonup> slot"
  pv_binding :: "slot list"
  pv_refills :: "refill list"

datatype pool_label = LTake slot | LBind slot | LBindFail slot | LRelease slot | LDestroy slot
  | LRespawn slot | LLost | LPut slot | LDiscard slot | LClose

definition refill_slots :: "refill list \<Rightarrow> slot list" where
  "refill_slots rs = concat (map (\<lambda>r. case r of Destroying s \<Rightarrow> [s] | Spawning \<Rightarrow> [] | Putting s \<Rightarrow> [s]) rs)"

text \<open>The ids of the slots that exist: idle, being bound, in flight, or in a goroutine.\<close>

definition free_ids :: "pview \<Rightarrow> string list" where
  "free_ids v = map sl_id (pv_pool v @ pv_binding v @ refill_slots (pv_refills v))"

definition used_ids :: "pview \<Rightarrow> string set" where
  "used_ids v = set (free_ids v) \<union> dom (pv_inFlight v)"

text \<open>A client releases a sandbox it holds, once.\<close>

inductive pool_step :: "pview \<Rightarrow> pool_label \<Rightarrow> pview \<Rightarrow> bool" where
  take_slot: "pv_pool v = s # rest \<Longrightarrow> \<not> pv_closing v \<Longrightarrow> s' = s\<lparr> sl_runID := r \<rparr> \<Longrightarrow>
    pool_step v (LTake s') (v\<lparr> pv_pool := rest, pv_binding := pv_binding v @ [s'] \<rparr>)"
| bind_slot: "s \<in> set (pv_binding v) \<Longrightarrow>
    pool_step v (LBind s) (v\<lparr> pv_binding := remove1 s (pv_binding v), pv_inFlight := (pv_inFlight v)(sl_id s \<mapsto> s) \<rparr>)"
| bind_fail: "s \<in> set (pv_binding v) \<Longrightarrow>
    pool_step v (LBindFail s) (v\<lparr> pv_binding := remove1 s (pv_binding v), pv_refills := pv_refills v @ [Destroying s] \<rparr>)"
| release: "pv_inFlight v (sl_id s) = Some s \<Longrightarrow>
    pool_step v (LRelease s) (v\<lparr> pv_inFlight := (pv_inFlight v)(sl_id s := None), pv_refills := pv_refills v @ [Destroying s] \<rparr>)"
| destroy: "Destroying s \<in> set (pv_refills v) \<Longrightarrow>
    pool_step v (LDestroy s) (v\<lparr> pv_refills := remove1 (Destroying s) (pv_refills v) @ (if pv_closing v then [] else [Spawning]) \<rparr>)"
| respawn: "Spawning \<in> set (pv_refills v) \<Longrightarrow> sl_id s \<notin> used_ids v \<Longrightarrow>
    pool_step v (LRespawn s) (v\<lparr> pv_refills := remove1 Spawning (pv_refills v) @ [Putting s] \<rparr>)"
| lost: "Spawning \<in> set (pv_refills v) \<Longrightarrow> pool_step v LLost (v\<lparr> pv_refills := remove1 Spawning (pv_refills v) \<rparr>)"
| put: "Putting s \<in> set (pv_refills v) \<Longrightarrow> int (length (pv_pool v)) < pv_size v \<Longrightarrow>
    pool_step v (LPut s) (v\<lparr> pv_refills := remove1 (Putting s) (pv_refills v), pv_pool := pv_pool v @ [s] \<rparr>)"
| discard: "Putting s \<in> set (pv_refills v) \<Longrightarrow> pv_closing v \<Longrightarrow>
    pool_step v (LDiscard s) (v\<lparr> pv_refills := remove1 (Putting s) (pv_refills v) \<rparr>)"
| close: "pool_step v LClose (v\<lparr> pv_closing := True, pv_pool := [] \<rparr>)"

definition occupied :: "pview \<Rightarrow> int" where
  "occupied v = int (length (pv_pool v) + length (pv_binding v) + card (dom (pv_inFlight v)) + length (pv_refills v))"

definition exclusive :: "pview \<Rightarrow> bool" where
  "exclusive v = (distinct (free_ids v) \<and> set (free_ids v) \<inter> dom (pv_inFlight v) = {} \<and>
     (\<forall>i s. pv_inFlight v i = Some s \<longrightarrow> sl_id s = i))"

definition pool_inv :: "pview \<Rightarrow> bool" where
  "pool_inv v = (finite (dom (pv_inFlight v)) \<and> occupied v \<le> pv_size v \<and> exclusive v)"

definition pool_init :: "pview \<Rightarrow> bool" where
  "pool_init v = (pv_inFlight v = Map.empty \<and> pv_binding v = [] \<and> pv_refills v = [] \<and>
     int (length (pv_pool v)) \<le> pv_size v \<and> distinct (map sl_id (pv_pool v)))"

lemma pool_init_inv: "pool_init v \<Longrightarrow> pool_inv v"
  by (simp add: pool_init_def pool_inv_def occupied_def exclusive_def free_ids_def refill_slots_def)

text \<open>The ids as a multiset: each step but a respawn only moves or drops them.\<close>

lemma refill_slots_simps [simp]:
  "refill_slots [] = []"
  "refill_slots (rs @ rs') = refill_slots rs @ refill_slots rs'"
  "refill_slots (Destroying s # rs) = s # refill_slots rs"
  "refill_slots (Putting s # rs) = s # refill_slots rs"
  "refill_slots (Spawning # rs) = refill_slots rs"
  by (simp_all add: refill_slots_def)

lemma refill_slots_remove1:
  "Destroying s \<in> set rs \<Longrightarrow> mset (refill_slots rs) = add_mset s (mset (refill_slots (remove1 (Destroying s) rs)))"
  "Putting s \<in> set rs \<Longrightarrow> mset (refill_slots rs) = add_mset s (mset (refill_slots (remove1 (Putting s) rs)))"
  "refill_slots (remove1 Spawning rs) = refill_slots rs"
  by (induction rs) (auto split: refill.splits simp: refill_slots_def)

definition id_mset :: "pview \<Rightarrow> string multiset" where
  "id_mset v = mset (free_ids v)"

lemma id_mset_eq:
  "id_mset v = image_mset sl_id (mset (pv_pool v) + mset (pv_binding v) + mset (refill_slots (pv_refills v)))"
  by (simp add: id_mset_def free_ids_def flip: mset_map)

text \<open>All ids, those in flight included, with multiplicity.\<close>

definition all_ids :: "pview \<Rightarrow> string multiset" where
  "all_ids v = id_mset v + mset_set (dom (pv_inFlight v))"

definition keyed :: "pview \<Rightarrow> bool" where
  "keyed v = (\<forall>i\<in>dom (pv_inFlight v). sl_id (the (pv_inFlight v i)) = i)"

definition unique :: "'a multiset \<Rightarrow> bool" where
  "unique M = (\<forall>i. count M i \<le> 1)"

lemma unique_sub: "M \<subseteq># N \<Longrightarrow> unique N \<Longrightarrow> unique M"
  unfolding unique_def by (meson le_trans mset_subset_eq_count)

lemma unique_add: "unique (add_mset x M) \<longleftrightarrow> unique M \<and> x \<notin># M"
  by (auto simp: unique_def not_in_iff le_Suc_eq)

lemma exclusive_iff:
  assumes "finite (dom (pv_inFlight v))"
  shows "exclusive v \<longleftrightarrow> unique (all_ids v) \<and> keyed v"
proof -
  have "distinct (free_ids v) \<and> set (free_ids v) \<inter> dom (pv_inFlight v) = {} \<longleftrightarrow> unique (all_ids v)"
  proof
    assume "distinct (free_ids v) \<and> set (free_ids v) \<inter> dom (pv_inFlight v) = {}"
    then show "unique (all_ids v)"
      using assms by (auto simp: unique_def all_ids_def id_mset_def distinct_count_atmost_1 count_mset_set' disjoint_iff)
  next
    assume u: "unique (all_ids v)"
    have "count (mset (free_ids v)) i = (if i \<in> set (free_ids v) then 1 else 0)" for i
    proof -
      have "count (mset (free_ids v)) i \<le> 1"
        using u unfolding unique_def all_ids_def id_mset_def by (metis add_leD1 count_union)
      then show ?thesis by (metis One_nat_def count_greater_eq_one_iff count_eq_zero_iff le_antisym set_mset_mset)
    qed
    then have "distinct (free_ids v)" unfolding distinct_count_atmost_1 by blast
    moreover have "i \<notin> dom (pv_inFlight v)" if "i \<in> set (free_ids v)" for i
    proof -
      have "count (mset (free_ids v)) i \<ge> 1" using that by simp
      moreover have "count (mset (free_ids v)) i + count (mset_set (dom (pv_inFlight v))) i \<le> 1"
        using u unfolding unique_def all_ids_def id_mset_def by (metis count_union)
      ultimately show ?thesis using assms by (auto simp: count_mset_set' split: if_splits)
    qed
    ultimately show "distinct (free_ids v) \<and> set (free_ids v) \<inter> dom (pv_inFlight v) = {}" by blast
  qed
  moreover have "keyed v \<longleftrightarrow> (\<forall>i s. pv_inFlight v i = Some s \<longrightarrow> sl_id s = i)"
    unfolding keyed_def by (metis domD domI option.sel)
  ultimately show ?thesis unfolding exclusive_def by blast
qed

lemma used_ids_iff: "finite (dom (pv_inFlight v)) \<Longrightarrow> set_mset (all_ids v) = used_ids v"
  by (simp add: all_ids_def id_mset_def used_ids_def)

lemma step_finite: "pool_step v l v' \<Longrightarrow> finite (dom (pv_inFlight v)) \<Longrightarrow> finite (dom (pv_inFlight v'))"
  by (induction rule: pool_step.induct) simp_all

lemma step_keyed: "pool_step v l v' \<Longrightarrow> keyed v \<Longrightarrow> keyed v'"
  by (erule pool_step.cases) (simp_all add: keyed_def)

lemma step_size: "pool_step v l v' \<Longrightarrow> pv_size v' = pv_size v"
  by (induction rule: pool_step.induct) simp_all

lemma length_remove1_int: "x \<in> set xs \<Longrightarrow> int (length xs - Suc 0) = int (length xs) - 1"
  by (cases xs) simp_all

lemma step_occupied:
  assumes "pool_step v l v'" "finite (dom (pv_inFlight v))"
  shows "occupied v' \<le> occupied v"
  using assms
proof (induction rule: pool_step.induct)
  case (bind_slot s v)
  have "card (insert (sl_id s) (dom (pv_inFlight v))) \<le> Suc (card (dom (pv_inFlight v)))"
    by (rule card_insert_le_m1) (simp_all)
  moreover obtain n where "length (pv_binding v) = Suc n" using bind_slot by (cases "pv_binding v") auto
  ultimately show ?case using bind_slot by (simp add: occupied_def length_remove1)
next
  case (release v s)
  then have "card (dom (pv_inFlight v)) > 0" by (metis card_gt_0_iff domI empty_iff)
  then show ?case using release by (simp add: occupied_def card_Diff_singleton domI)
qed (simp_all add: occupied_def length_remove1 length_remove1_int)

lemma step_ids:
  assumes "pool_step v l v'" "finite (dom (pv_inFlight v))" "unique (all_ids v)" "keyed v"
  shows "unique (all_ids v')"
  using assms
proof (induction rule: pool_step.induct)
  case (take_slot v s rest s' r)
  then show ?case by (simp add: all_ids_def id_mset_eq ac_simps)
next
  case (bind_slot s v)
  have m: "mset (pv_binding v) = add_mset s (mset (remove1 s (pv_binding v)))" using bind_slot(1) by simp
  have "sl_id s \<in># id_mset v" unfolding id_mset_eq m by simp
  have "sl_id s \<notin> dom (pv_inFlight v)"
  proof
    assume "sl_id s \<in> dom (pv_inFlight v)"
    then have "count (all_ids v) (sl_id s) \<ge> 2" using \<open>sl_id s \<in># id_mset v\<close> bind_slot(2)
      by (simp add: all_ids_def count_mset_set' Suc_le_eq)
    then show False using bind_slot(3) unfolding unique_def by (metis Suc_1 not_less_eq_eq)
  qed
  then have "all_ids (v\<lparr> pv_binding := remove1 s (pv_binding v), pv_inFlight := (pv_inFlight v)(sl_id s \<mapsto> s) \<rparr>) = all_ids v"
    using bind_slot(2) unfolding all_ids_def id_mset_eq m by simp
  then show ?case using bind_slot(3) by simp
next
  case (bind_fail s v)
  have m: "mset (pv_binding v) = add_mset s (mset (remove1 s (pv_binding v)))" using bind_fail(1) by simp
  show ?case using bind_fail(3) unfolding all_ids_def id_mset_eq m by simp
next
  case (release v s)
  then have d: "dom (pv_inFlight v) = insert (sl_id s) (dom (pv_inFlight v) - {sl_id s})" by blast
  have "mset_set (dom (pv_inFlight v)) = add_mset (sl_id s) (mset_set (dom (pv_inFlight v) - {sl_id s}))"
    using release(2) by (subst d) (simp del: insert_Diff_single)
  then show ?case using release(3) by (simp add: all_ids_def id_mset_eq)
next
  case (destroy s v)
  then show ?case
    by (auto simp: all_ids_def id_mset_eq refill_slots_remove1(1) unique_add)
next
  case (respawn v s)
  then have "sl_id s \<notin># all_ids v" by (simp add: used_ids_iff)
  moreover have "all_ids (v\<lparr> pv_refills := remove1 Spawning (pv_refills v) @ [Putting s] \<rparr>) = add_mset (sl_id s) (all_ids v)"
    by (simp add: all_ids_def id_mset_eq refill_slots_remove1(3))
  ultimately show ?case using respawn by (simp add: unique_add)
next
  case (lost v)
  then show ?case by (simp add: all_ids_def id_mset_eq refill_slots_remove1(3))
next
  case (put s v)
  then show ?case by (simp add: all_ids_def id_mset_eq refill_slots_remove1(2))
next
  case (discard s v)
  then show ?case by (simp add: all_ids_def id_mset_eq refill_slots_remove1(2) unique_add)
next
  case (close v)
  show ?case by (rule unique_sub [OF _ close(2)]) (simp add: all_ids_def id_mset_eq)
qed

lemma step_inv:
  assumes "pool_inv v" "pool_step v l v'"
  shows "pool_inv v'"
proof -
  have f: "finite (dom (pv_inFlight v))" "occupied v \<le> pv_size v" "unique (all_ids v)" "keyed v"
    using assms(1) exclusive_iff unfolding pool_inv_def by blast+
  have "finite (dom (pv_inFlight v'))" by (rule step_finite [OF assms(2) f(1)])
  moreover have "occupied v' \<le> pv_size v'"
    using step_occupied [OF assms(2) f(1)] step_size [OF assms(2)] f(2) by simp
  ultimately show ?thesis
    using step_ids [OF assms(2) f(1,3,4)] step_keyed [OF assms(2) f(4)] by (simp add: pool_inv_def exclusive_iff)
qed

section \<open>Drivers of a warm pool\<close>

text \<open>What a driver owes: its constructor yields a pool and each of its steps is one of the pool.\<close>

locale pool_driver =
  fixes view :: "'s \<Rightarrow> pview"
    and ok :: "'s \<Rightarrow> bool"
    and start :: "'s \<Rightarrow> bool"
    and step :: "'s \<Rightarrow> pool_label \<Rightarrow> 's \<Rightarrow> bool"
  assumes start_ok: "start s \<Longrightarrow> ok s" "start s \<Longrightarrow> pool_init (view s)"
    and step_ok: "ok s \<Longrightarrow> step s l s' \<Longrightarrow> ok s'"
    and step_refines: "ok s \<Longrightarrow> step s l s' \<Longrightarrow> pool_step (view s) l (view s')"

sublocale pool_driver \<subseteq> runs: transition_system start step "\<lambda>s. ok s \<and> pool_inv (view s)"
  using start_ok step_ok step_refines pool_init_inv step_inv by unfold_locales blast+

context pool_driver
begin

lemma reach_pool: "start s \<Longrightarrow> runs.path s ls s' \<Longrightarrow> pool_inv (view s')"
  using runs.reach_inv by blast

lemma pool_inv_bound:
  assumes "pool_inv (view s)"
  shows "int (length (pv_pool (view s))) + int (card (dom (pv_inFlight (view s)))) \<le> pv_size (view s)"
    and "Putting x \<in> set (pv_refills (view s)) \<Longrightarrow> int (length (pv_pool (view s))) < pv_size (view s)"
  using assms length_pos_if_in_set [of "Putting x" "pv_refills (view s)"]
  by (auto simp: pool_inv_def occupied_def simp flip: length_greater_0_conv)

lemma reach_bound: "start s \<Longrightarrow> runs.path s ls s' \<Longrightarrow>
    int (length (pv_pool (view s'))) + int (card (dom (pv_inFlight (view s')))) \<le> pv_size (view s')"
  using pool_inv_bound(1) reach_pool by blast

text \<open>A goroutine that refills the pool never blocks.\<close>

lemma reach_put: "start s \<Longrightarrow> runs.path s ls s' \<Longrightarrow> Putting x \<in> set (pv_refills (view s')) \<Longrightarrow>
    int (length (pv_pool (view s'))) < pv_size (view s')"
  using pool_inv_bound(2) reach_pool by blast

text \<open>A slot handed out is in nobody else's hands.\<close>

lemma reach_exclusive: "start s \<Longrightarrow> runs.path s ls s' \<Longrightarrow> pv_inFlight (view s') i = Some x \<Longrightarrow>
    sl_id x = i \<and> i \<notin> set (free_ids (view s'))"
  using reach_pool unfolding pool_inv_def exclusive_def by blast

end

lemma step_used:
  assumes "pool_step v l v'"
  shows "used_ids v' \<subseteq> used_ids v \<union> (case l of LRespawn s \<Rightarrow> {sl_id s} | _ \<Rightarrow> {})"
  using assms
proof (induction rule: pool_step.induct)
  case (destroy s v)
  have "set (refill_slots (remove1 (Destroying s) (pv_refills v))) \<subseteq> set (refill_slots (pv_refills v))"
    using refill_slots_remove1(1) [OF destroy] by (metis set_mset_mset set_mset_add_mset_insert subset_insertI)
  then show ?case by (auto simp: used_ids_def free_ids_def)
next
  case (put s v)
  have "set (refill_slots (remove1 (Putting s) (pv_refills v))) \<union> {s} \<subseteq> set (refill_slots (pv_refills v))"
    using refill_slots_remove1(2) [OF put(1)] by (metis Un_insert_right sup_bot.right_neutral set_mset_mset set_mset_add_mset_insert order_refl)
  then show ?case by (auto simp: used_ids_def free_ids_def)
next
  case (discard s v)
  have "set (refill_slots (remove1 (Putting s) (pv_refills v))) \<subseteq> set (refill_slots (pv_refills v))"
    using refill_slots_remove1(2) [OF discard(1)] by (metis set_mset_mset set_mset_add_mset_insert subset_insertI)
  then show ?case by (auto simp: used_ids_def free_ids_def)
next
  case (bind_slot s v)
  then show ?case using set_remove1_subset [of s "pv_binding v"] by (auto simp: used_ids_def free_ids_def)
next
  case (bind_fail s v)
  then show ?case using set_remove1_subset [of s "pv_binding v"] by (auto simp: used_ids_def free_ids_def)
qed (auto simp: used_ids_def free_ids_def refill_slots_remove1(3))

section \<open>The memory driver\<close>

definition mem_view :: "MemoryDriver \<Rightarrow> pview" where
  "mem_view d = \<lparr> pv_size = md_poolSize d, pv_pool = md_pool d, pv_closing = md_closing d, pv_inFlight = md_inFlight d,
     pv_binding = md_binding d, pv_refills = md_refills d \<rparr>"

inductive mem_step :: "MemoryDriver \<Rightarrow> pool_label \<Rightarrow> MemoryDriver \<Rightarrow> bool" where
  "mem_Acquire_take d r GotSlot us = Some (Inr s, d') \<Longrightarrow> mem_step d (LTake s) d'"
| "s \<in> set (md_binding d) \<Longrightarrow> mem_Acquire_bind d s None = (r, d') \<Longrightarrow> mem_step d (LBind s) d'"
| "s \<in> set (md_binding d) \<Longrightarrow> mem_Acquire_bind d s (Some e) = (r, d') \<Longrightarrow> mem_step d (LBindFail s) d'"
| "md_inFlight d (sl_id s) = Some s \<Longrightarrow> mem_step d (LRelease s) (mem_Release d s)"
| "Destroying s \<in> set (md_refills d) \<Longrightarrow> mem_step d (LDestroy s) (mem_destroy d s)"
| "Spawning \<in> set (md_refills d) \<Longrightarrow> mem_spawn now mkdir d = (Inr s, d1) \<Longrightarrow> mem_step d (LRespawn s) (mem_respawn d now mkdir)"
| "Spawning \<in> set (md_refills d) \<Longrightarrow> mem_spawn now mkdir d = (Inl e, d1) \<Longrightarrow> mem_step d LLost (mem_respawn d now mkdir)"
| "Putting s \<in> set (md_refills d) \<Longrightarrow> mem_put d s = Some d' \<Longrightarrow> mem_step d (LPut s) d'"
| "Putting s \<in> set (md_refills d) \<Longrightarrow> mem_discard d s = Some d' \<Longrightarrow> mem_step d (LDiscard s) d'"
| "mem_step d LClose (mem_Close_drain d)"

definition mem_start :: "MemoryDriver \<Rightarrow> bool" where
  "mem_start d = (\<exists>tmpdir root n mkroot env. NewMemoryDriver tmpdir root n mkroot env = Inr d)"

text \<open>The ids of the memory driver end in the spawn counter, so a new one is fresh.\<close>

definition mem_id :: "int \<Rightarrow> int \<Rightarrow> string" where "mem_id t k = ''mem-'' @ Itoa t @ ''-'' @ Itoa k"

definition mem_ok :: "MemoryDriver \<Rightarrow> bool" where
  "mem_ok d = (0 \<le> md_spawnCnt d \<and> (\<forall>i\<in>used_ids (mem_view d). \<exists>t k. i = mem_id t k \<and> 0 \<le> k \<and> k \<le> md_spawnCnt d))"

lemma mem_id_inj:
  assumes "mem_id t k = mem_id t' k'" "0 \<le> k" "0 \<le> k'"
  shows "k = k'"
proof -
  have tail: "takeWhile (\<lambda>c. c \<noteq> CHR 0x2D) (rev (mem_id t n)) = rev (digits (nat n))" if "0 \<le> n" for t n
  proof -
    have "c \<noteq> CHR 0x2D" if "c \<in> set (rev (digits (nat n)))" for c
      using that digits_are_digits [of "nat n"] by (auto simp: list_all_iff is_digit_def ord_def)
    then show ?thesis
      using \<open>0 \<le> n\<close> takeWhile_append2 [of "rev (digits (nat n))" "\<lambda>c. c \<noteq> CHR 0x2D" "CHR 0x2D # rev (''mem-'' @ Itoa t)"]
      by (simp add: mem_id_def Itoa_def [of n])
  qed
  have "rev (digits (nat k)) = rev (digits (nat k'))"
    using tail [OF assms(2), of t] tail [OF assms(3), of t'] assms(1) by simp
  then have "nat k = nat k'" using digits_inj by simp
  then show ?thesis using assms(2,3) by simp
qed

lemma mem_spawn_id: "mem_spawn now mkdir d = (Inr s, d') \<Longrightarrow> sl_id s = mem_id now (md_spawnCnt d + 1)"
  by (auto simp: mem_spawn_def mem_id_def Let_def split: option.splits)

lemma mem_spawn_fields:
  "mem_spawn now mkdir d = (r, d') \<Longrightarrow> d' = d\<lparr> md_spawnCnt := md_spawnCnt d + 1 \<rparr>"
  by (auto simp: mem_spawn_def Let_def split: option.splits)

lemma mem_spawn_fresh: "mem_ok d \<Longrightarrow> mem_spawn now mkdir d = (Inr s, d') \<Longrightarrow> sl_id s \<notin> used_ids (mem_view d)"
  unfolding mem_ok_def using mem_spawn_id mem_id_inj by fastforce

lemma mem_refines:
  assumes "mem_ok d" "mem_step d l d'"
  shows "pool_step (mem_view d) l (mem_view d')"
  using assms(2,1)
proof (induction rule: mem_step.induct)
  case (1 d r us s d')
  then obtain t rest where "md_pool d = t # rest" "\<not> md_closing d" "s = t\<lparr> sl_runID := r \<rparr>"
    "d' = d\<lparr> md_pool := rest, md_binding := md_binding d @ [s], md_waitMicros := md_waitMicros d + us \<rparr>"
    by (auto simp: mem_Acquire_take_def Let_def split: if_splits list.splits)
  then show ?case using pool_step.take_slot [of "mem_view d" t rest s r] by (simp add: mem_view_def)
next
  case (2 s d r d')
  then show ?case using pool_step.bind_slot [of s "mem_view d"] by (auto simp: mem_view_def mem_Acquire_bind_def)
next
  case (3 s d e r d')
  then show ?case using pool_step.bind_fail [of s "mem_view d"] by (auto simp: mem_view_def mem_Acquire_bind_def Let_def)
next
  case (4 d s)
  then show ?case using pool_step.release [of "mem_view d" s] by (simp add: mem_view_def mem_Release_def)
next
  case (5 s d)
  then show ?case using pool_step.destroy [of s "mem_view d"] by (simp add: mem_view_def mem_destroy_def Let_def split: if_splits)
next
  case (6 d now mkdir s d1)
  have "mem_spawn now mkdir (d\<lparr> md_refills := remove1 Spawning (md_refills d) \<rparr>) =
      (Inr s, d\<lparr> md_refills := remove1 Spawning (md_refills d), md_spawnCnt := md_spawnCnt d + 1 \<rparr>)"
    using 6(2) by (auto simp: mem_spawn_def Let_def split: option.splits)
  then show ?case using 6 pool_step.respawn [of "mem_view d" s] mem_spawn_fresh [OF 6(3,2)]
    by (simp add: mem_view_def mem_respawn_def)
next
  case (7 d now mkdir e d1)
  have "mem_spawn now mkdir (d\<lparr> md_refills := remove1 Spawning (md_refills d) \<rparr>) =
      (Inl e, d\<lparr> md_refills := remove1 Spawning (md_refills d), md_spawnCnt := md_spawnCnt d + 1 \<rparr>)"
    using 7(2) by (auto simp: mem_spawn_def Let_def split: option.splits)
  then show ?case using 7 pool_step.lost [of "mem_view d"] by (simp add: mem_view_def mem_respawn_def)
next
  case (8 s d d')
  then show ?case using pool_step.put [of s "mem_view d"] by (auto simp: mem_view_def mem_put_def split: if_splits)
next
  case (9 s d d')
  then show ?case using pool_step.discard [of s "mem_view d"] by (auto simp: mem_view_def mem_discard_def split: if_splits)
next
  case (10 d)
  show ?case using pool_step.close [of "mem_view d"] by (simp add: mem_view_def mem_Close_drain_def)
qed

lemma mem_respawn_cnt: "md_spawnCnt (mem_respawn d now mkdir) = md_spawnCnt d + 1"
  by (auto simp: mem_respawn_def mem_spawn_def Let_def split: option.splits)

lemma mem_step_cnt:
  assumes "mem_step d l d'"
  shows "md_spawnCnt d \<le> md_spawnCnt d'"
    and "l = LRespawn s \<Longrightarrow> \<exists>t. sl_id s = mem_id t (md_spawnCnt d')"
  using assms
  by (induction rule: mem_step.induct)
    (auto simp: mem_Acquire_take_def mem_Acquire_bind_def mem_Release_def mem_destroy_def mem_put_def mem_discard_def
      mem_Close_drain_def Let_def mem_respawn_cnt dest: mem_spawn_id split: if_splits list.splits)

lemma mem_step_ok:
  assumes "mem_ok d" "mem_step d l d'"
  shows "mem_ok d'"
proof -
  have le: "md_spawnCnt d \<le> md_spawnCnt d'" by (rule mem_step_cnt(1) [OF assms(2)])
  have "\<exists>t k. i = mem_id t k \<and> 0 \<le> k \<and> k \<le> md_spawnCnt d'" if "i \<in> used_ids (mem_view d')" for i
  proof -
    have "i \<in> used_ids (mem_view d) \<union> (case l of LRespawn s \<Rightarrow> {sl_id s} | _ \<Rightarrow> {})"
      using that step_used [OF mem_refines [OF assms]] by blast
    then consider "i \<in> used_ids (mem_view d)" | s where "l = LRespawn s" "i = sl_id s"
      by (auto split: pool_label.splits)
    then show ?thesis
    proof cases
      case 1
      then show ?thesis using assms(1) le unfolding mem_ok_def by (meson order_trans)
    next
      case (2 s)
      obtain t where "sl_id s = mem_id t (md_spawnCnt d')" using mem_step_cnt(2) [OF assms(2) 2(1)] by blast
      then show ?thesis using 2(2) le assms(1) unfolding mem_ok_def by (intro exI [of _ t] exI [of _ "md_spawnCnt d'"]) simp
    qed
  qed
  then show ?thesis using assms(1) le unfolding mem_ok_def by simp
qed

lemma mem_fill_ok:
  assumes "mem_fill es d = Inr d'" "mem_ok d" "distinct (map sl_id (md_pool d))"
    and "md_inFlight d = Map.empty" "md_binding d = []" "md_refills d = []"
  shows "mem_ok d' \<and> distinct (map sl_id (md_pool d')) \<and> length (md_pool d') = length (md_pool d) + length es \<and>
    md_poolSize d' = md_poolSize d \<and> md_inFlight d' = Map.empty \<and> md_binding d' = [] \<and> md_refills d' = []"
  using assms
proof (induction es arbitrary: d)
  case (Cons e es)
  obtain now mkdir where e: "e = (now, mkdir)" by (cases e)
  from Cons.prems(1) obtain s where s: "mem_spawn now mkdir d = (Inr s, d\<lparr> md_spawnCnt := md_spawnCnt d + 1 \<rparr>)"
    unfolding e by (auto split: prod.splits sum.splits dest: mem_spawn_fields)
  let ?d = "d\<lparr> md_spawnCnt := md_spawnCnt d + 1, md_pool := md_pool d @ [s] \<rparr>"
  have fill: "mem_fill es ?d = Inr d'" using Cons.prems(1) s by (simp add: e)
  have fresh: "sl_id s \<notin> used_ids (mem_view d)" by (rule mem_spawn_fresh [OF Cons.prems(2) s])
  then have dis: "distinct (map sl_id (md_pool ?d))"
    using Cons.prems(3) by (auto simp: used_ids_def free_ids_def mem_view_def)
  have used: "used_ids (mem_view ?d) = insert (sl_id s) (used_ids (mem_view d))"
    by (auto simp: used_ids_def free_ids_def mem_view_def)
  have "mem_ok ?d"
    using Cons.prems(2) mem_spawn_id [OF s] unfolding mem_ok_def used by fastforce
  from Cons.IH [OF fill this dis] Cons.prems(4-6) show ?case by simp
qed simp

lemma mem_start_ok: "mem_start d \<Longrightarrow> mem_ok d \<and> pool_init (mem_view d)"
proof -
  assume "mem_start d"
  then obtain tmpdir root n mkroot env where "NewMemoryDriver tmpdir root n mkroot env = Inr d"
    unfolding mem_start_def by blast
  then obtain r where fill: "mem_fill (map env [0..<nat (mem_poolSize n)])
    \<lparr> md_root = r, md_poolSize = mem_poolSize n, md_pool = [], md_closing = False, md_inFlight = Map.empty,
      md_binding = [], md_refills = [], md_spawnCnt = 0, md_destroyCnt = 0, md_waitMicros = 0 \<rparr> = Inr d"
    unfolding NewMemoryDriver_def Let_def by (auto split: option.splits)
  have "0 \<le> mem_poolSize n" by (simp add: mem_poolSize_def)
  then show ?thesis using mem_fill_ok [OF fill]
    by (simp add: mem_ok_def mem_view_def used_ids_def free_ids_def pool_init_def)
qed

interpretation mem_pool: pool_driver mem_view mem_ok mem_start mem_step
  using mem_start_ok mem_step_ok mem_refines by unfold_locales blast+

section \<open>The Docker driver\<close>

definition docker_view :: "DockerDriver \<times> 'w \<Rightarrow> pview" where
  "docker_view dw = (let d = fst dw in
     \<lparr> pv_size = do_PoolSize (dd_opt d), pv_pool = dd_pool d, pv_closing = dd_closing d, pv_inFlight = dd_inFlight d,
       pv_binding = dd_binding d, pv_refills = dd_refills d \<rparr>)"

text \<open>Docker gives a new container an id that no existing one has.\<close>

inductive docker_step :: "'w DockerAPI \<Rightarrow> DockerDriver \<times> 'w \<Rightarrow> pool_label \<Rightarrow> DockerDriver \<times> 'w \<Rightarrow> bool" for A where
  "docker_Acquire_take d r GotSlot us = Some (Inr s, d') \<Longrightarrow> docker_step A (d, w) (LTake s) (d', w)"
| "s \<in> set (dd_binding d) \<Longrightarrow> dk_mkdir A w (docker_run_dir s) = (None, w') \<Longrightarrow>
    docker_Acquire_bind d s None = (r, d') \<Longrightarrow> docker_step A (d, w) (LBind s) (d', w')"
| "s \<in> set (dd_binding d) \<Longrightarrow> dk_mkdir A w (docker_run_dir s) = (Some e, w') \<Longrightarrow>
    docker_Acquire_bind d s (Some e) = (r, d') \<Longrightarrow> docker_step A (d, w) (LBindFail s) (d', w')"
| "dd_inFlight d (sl_id s) = Some s \<Longrightarrow> docker_step A (d, w) (LRelease s) (docker_Release d s, w)"
| "Destroying s \<in> set (dd_refills d) \<Longrightarrow> docker_step A (d, w) (LDestroy s) (docker_destroy A (d, w) s)"
| "Spawning \<in> set (dd_refills d) \<Longrightarrow> spawnSlot A (dd_opt d) w = (Inr s, w1) \<Longrightarrow> sl_id s \<notin> used_ids (docker_view (d, w)) \<Longrightarrow>
    docker_step A (d, w) (LRespawn s) (docker_respawn A (d, w))"
| "Spawning \<in> set (dd_refills d) \<Longrightarrow> spawnSlot A (dd_opt d) w = (Inl e, w1) \<Longrightarrow> docker_step A (d, w) LLost (docker_respawn A (d, w))"
| "Putting s \<in> set (dd_refills d) \<Longrightarrow> docker_put d s = Some d' \<Longrightarrow> docker_step A (d, w) (LPut s) (d', w)"
| "Putting s \<in> set (dd_refills d) \<Longrightarrow> docker_discard A (d, w) s = Some dw' \<Longrightarrow> docker_step A (d, w) (LDiscard s) dw'"
| "docker_step A (d, w) LClose (docker_Close_drain A (d, w))"

definition docker_start :: "'w DockerAPI \<Rightarrow> DockerDriver \<times> 'w \<Rightarrow> bool" where
  "docker_start A dw = (\<exists>connect ping close_client ensure tmpdir opt w.
     NewDockerDriver A connect ping close_client ensure tmpdir opt w = (Inr (fst dw), snd dw) \<and>
     distinct (map sl_id (dd_pool (fst dw))))"

lemma warm_pool_length:
  assumes "warm_pool A n w d = (d', w')"
  shows "length (dd_pool d') \<le> length (dd_pool d) + n \<and> dd_opt d' = dd_opt d \<and> dd_inFlight d' = dd_inFlight d \<and>
    dd_binding d' = dd_binding d \<and> dd_refills d' = dd_refills d"
  using assms
proof (induction n arbitrary: w d)
  case (Suc n)
  show ?case
  proof (cases "spawnSlot A (dd_opt d) w")
    case (Pair r w1)
    show ?thesis
    proof (cases r)
      case (Inl e)
      then have "warm_pool A n w1 d = (d', w')" using Suc.prems Pair by simp
      from Suc.IH [OF this] show ?thesis by linarith
    next
      case (Inr s)
      then have "warm_pool A n w1 (d\<lparr> dd_pool := dd_pool d @ [s], dd_spawnCount := dd_spawnCount d + 1 \<rparr>) = (d', w')"
        using Suc.prems Pair by simp
      from Suc.IH [OF this] show ?thesis by simp
    qed
  qed
qed simp

lemma docker_start_init: "docker_start A dw \<Longrightarrow> pool_init (docker_view dw)"
proof -
  assume "docker_start A dw"
  then obtain connect ping close_client ensure tmpdir opt w where
    new: "NewDockerDriver A connect ping close_client ensure tmpdir opt w = (Inr (fst dw), snd dw)"
    and dis: "distinct (map sl_id (dd_pool (fst dw)))" unfolding docker_start_def by blast
  let ?o = "docker_defaults tmpdir opt"
  from new obtain v where "warm_pool A (nat (do_PoolSize ?o)) v
     \<lparr> dd_opt = ?o, dd_pool = [], dd_closing = False, dd_inFlight = Map.empty, dd_binding = [], dd_refills = [],
       dd_spawnCount = 0, dd_destroyCount = 0, dd_waitMicros = 0 \<rparr> = (fst dw, snd dw)"
    unfolding NewDockerDriver_def Let_def by (auto split: prod.splits option.splits)
  note len = warm_pool_length [OF this]
  have "0 \<le> do_PoolSize ?o" by (simp add: docker_defaults_def)
  then have "int (length (dd_pool (fst dw))) \<le> do_PoolSize ?o" using len by (simp add: le_nat_iff)
  then show ?thesis using len dis by (simp add: pool_init_def docker_view_def Let_def)
qed

lemma docker_refines:
  assumes "docker_step A dw l dw'"
  shows "pool_step (docker_view dw) l (docker_view dw')"
  using assms
proof (induction rule: docker_step.induct)
  case (1 d r us s d' w)
  then obtain t rest where "dd_pool d = t # rest" "\<not> dd_closing d" "s = t\<lparr> sl_runID := r \<rparr>"
    "d' = d\<lparr> dd_pool := rest, dd_binding := dd_binding d @ [s], dd_waitMicros := dd_waitMicros d + us \<rparr>"
    by (auto simp: docker_Acquire_take_def Let_def split: if_splits list.splits)
  then show ?case using pool_step.take_slot [of "docker_view (d, w)" t rest s r] by (simp add: docker_view_def)
next
  case (2 s d w w' r d')
  then show ?case using pool_step.bind_slot [of s "docker_view (d, w)"] by (auto simp: docker_view_def docker_Acquire_bind_def)
next
  case (3 s d w e w' r d')
  then show ?case using pool_step.bind_fail [of s "docker_view (d, w)"]
    by (auto simp: docker_view_def docker_Acquire_bind_def Let_def)
next
  case (4 d s w)
  then show ?case using pool_step.release [of "docker_view (d, w)" s] by (simp add: docker_view_def docker_Release_def)
next
  case (5 s d w)
  then show ?case using pool_step.destroy [of s "docker_view (d, w)"]
    by (simp add: docker_view_def docker_destroy_def Let_def split: if_splits)
next
  case (6 d w s w1)
  then show ?case using pool_step.respawn [of "docker_view (d, w)" s] by (simp add: docker_view_def docker_respawn_def Let_def)
next
  case (7 d w e w1)
  then show ?case using pool_step.lost [of "docker_view (d, w)"] by (simp add: docker_view_def docker_respawn_def Let_def)
next
  case (8 s d d' w)
  then show ?case using pool_step.put [of s "docker_view (d, w)"] by (auto simp: docker_view_def docker_put_def split: if_splits)
next
  case (9 s d w dw')
  then show ?case using pool_step.discard [of s "docker_view (d, w)"]
    by (auto simp: docker_view_def docker_discard_def split: if_splits)
next
  case (10 d w)
  show ?case using pool_step.close [of "docker_view (d, w)"] by (simp add: docker_view_def docker_Close_drain_def)
qed

interpretation docker_pool: pool_driver docker_view "\<lambda>_. True" "docker_start A" "docker_step A" for A
  using docker_start_init docker_refines by unfold_locales blast+

section \<open>Properties\<close>

text \<open>C13: whatever the clients and the refilling goroutines of a memory driver do, the idle slots and the slots in flight
  together never exceed the pool size, a goroutine that has a new slot for the pool is never blocked, and a slot in flight is
  neither idle nor handed to anybody else.\<close>

theorem mem_pool_safe:
  assumes "NewMemoryDriver tmpdir root n mkroot env = Inr d0" "mem_pool.runs.path d0 ls d"
  shows "ss_PoolReady (mem_Stats d) + ss_InFlight (mem_Stats d) \<le> ss_PoolSize (mem_Stats d) \<and>
    (\<forall>s. Putting s \<in> set (md_refills d) \<longrightarrow> mem_put d s \<noteq> None) \<and>
    (\<forall>i s. md_inFlight d i = Some s \<longrightarrow> sl_id s = i \<and> i \<notin> sl_id ` (set (md_pool d) \<union> set (md_binding d)))"
proof -
  have st: "mem_start d0" using assms(1) unfolding mem_start_def by blast
  have "sl_id s = i \<and> i \<notin> sl_id ` (set (md_pool d) \<union> set (md_binding d))" if "md_inFlight d i = Some s" for i s
    using mem_pool.reach_exclusive [OF st assms(2), of i s] that
    unfolding free_ids_def mem_view_def by (simp add: image_Un)
  then show ?thesis
    using mem_pool.reach_bound [OF st assms(2)] mem_pool.reach_put [OF st assms(2)]
    by (simp add: mem_Stats_def mem_view_def mem_put_def)
qed

text \<open>C29: the same for the Docker driver, whatever the Docker API answers, provided it gives every new container an id of its
  own.\<close>

theorem docker_pool_safe:
  assumes "docker_start A dw0" "docker_pool.runs.path A dw0 ls (d, w)"
  shows "ss_PoolReady (docker_Stats d) + ss_InFlight (docker_Stats d) \<le> ss_PoolSize (docker_Stats d) \<and>
    (\<forall>s. Putting s \<in> set (dd_refills d) \<longrightarrow> docker_put d s \<noteq> None) \<and>
    (\<forall>i s. dd_inFlight d i = Some s \<longrightarrow> sl_id s = i \<and> i \<notin> sl_id ` (set (dd_pool d) \<union> set (dd_binding d)))"
proof -
  have "sl_id s = i \<and> i \<notin> sl_id ` (set (dd_pool d) \<union> set (dd_binding d))" if "dd_inFlight d i = Some s" for i s
    using docker_pool.reach_exclusive [OF assms, of i s] that
    unfolding free_ids_def docker_view_def Let_def by (simp add: image_Un)
  then show ?thesis
    using docker_pool.reach_bound [OF assms] docker_pool.reach_put [OF assms]
    by (simp add: docker_Stats_def docker_view_def docker_put_def)
qed

section \<open>Witnesses\<close>

definition demo_new :: "(string, MemoryDriver) result" where
  "demo_new = NewMemoryDriver ''/tmp'' ''/pool'' 2 (\<lambda>_. None) (\<lambda>n. (int n, \<lambda>_. None))"

definition demo_mem :: MemoryDriver where
  "demo_mem = (case demo_new of Inr d \<Rightarrow> d | Inl _ \<Rightarrow> undefined)"

definition demo_taken :: MemoryDriver where
  "demo_taken = (case mem_Acquire_take demo_mem ''run'' GotSlot 5 of Some (r, d) \<Rightarrow> d | None \<Rightarrow> demo_mem)"

lemma demo_new_ok: "NewMemoryDriver ''/tmp'' ''/pool'' 2 (\<lambda>_. None) (\<lambda>n. (int n, \<lambda>_. None)) = Inr demo_mem"
  by (simp add: demo_mem_def demo_new_def NewMemoryDriver_def mem_poolSize_def upt_rec mem_spawn_def Let_def)

lemma demo_take: "\<exists>s. mem_step demo_mem (LTake s) demo_taken"
proof -
  have "\<exists>s. mem_Acquire_take demo_mem ''run'' GotSlot 5 = Some (Inr s, demo_taken)"
    unfolding demo_taken_def
    by (simp add: demo_mem_def demo_new_def NewMemoryDriver_def mem_poolSize_def upt_rec mem_spawn_def Let_def mem_Acquire_take_def)
  then show ?thesis using mem_step.intros(1) by blast
qed

theorem mem_pool_safe_witness:
  "ss_PoolReady (mem_Stats demo_taken) + ss_InFlight (mem_Stats demo_taken) \<le> ss_PoolSize (mem_Stats demo_taken)"
proof -
  obtain s where "mem_step demo_mem (LTake s) demo_taken" using demo_take by blast
  then have "mem_pool.runs.path demo_mem [LTake s] demo_taken"
    using mem_pool.runs.path.intros by blast
  from mem_pool_safe [OF demo_new_ok this] show ?thesis by simp
qed

definition demo_api :: "nat DockerAPI" where
  "demo_api = \<lparr> dk_new_id = (\<lambda>w. (replicate w CHR ''A'', Suc w)), dk_mkdir = (\<lambda>w p. (None, w)), dk_removeAll = (\<lambda>w p. w),
     dk_create = (\<lambda>w c. (Inr (replicate w CHR ''c''), Suc w)), dk_start = (\<lambda>w i. (None, w)), dk_remove = (\<lambda>w i v. w) \<rparr>"

definition demo_opt :: DockerOptions where
  "demo_opt = \<lparr> do_Image = [], do_PoolSize = 1, do_AcquireTimeout = 0, do_WorkspaceRoot = ''/w'', do_MemoryBytes = 0, do_CPUQuota = 0,
     do_CPUPeriod = 0, do_PidsLimit = 0, do_ExecTimeoutHard = 0, do_User = [], do_TmpfsSize = [] \<rparr>"

definition demo_docker :: "DockerDriver \<times> nat" where
  "demo_docker = (case NewDockerDriver demo_api (\<lambda>w. (None, w)) (\<lambda>w. (None, w)) id (\<lambda>w r. (None, w)) ''/tmp'' demo_opt 20 of
     (Inr d, w) \<Rightarrow> (d, w) | (Inl _, w) \<Rightarrow> undefined)"

lemma demo_docker_start: "docker_start demo_api demo_docker"
proof -
  have "NewDockerDriver demo_api (\<lambda>w. (None, w)) (\<lambda>w. (None, w)) id (\<lambda>w r. (None, w)) ''/tmp'' demo_opt 20 =
      (Inr (fst demo_docker), snd demo_docker)" "distinct (map sl_id (dd_pool (fst demo_docker)))"
    by (simp_all add: demo_docker_def NewDockerDriver_def docker_defaults_def demo_opt_def demo_api_def Let_def spawnSlot_def)
  then show ?thesis unfolding docker_start_def by blast
qed

theorem docker_pool_safe_witness:
  "ss_PoolReady (docker_Stats (docker_Release (fst demo_docker) (hd (dd_pool (fst demo_docker))))) \<le> 1 \<and>
   ss_PoolReady (docker_Stats (fst demo_docker)) + ss_InFlight (docker_Stats (fst demo_docker)) \<le> ss_PoolSize (docker_Stats (fst demo_docker))"
proof -
  have "docker_pool.runs.path demo_api demo_docker [] (fst demo_docker, snd demo_docker)"
    using docker_pool.runs.path.intros(1) [of demo_api demo_docker] by simp
  from docker_pool_safe [OF demo_docker_start this]
  have "ss_PoolReady (docker_Stats (fst demo_docker)) + ss_InFlight (docker_Stats (fst demo_docker)) \<le> ss_PoolSize (docker_Stats (fst demo_docker))"
    by simp
  moreover have "ss_PoolReady (docker_Stats (docker_Release (fst demo_docker) (hd (dd_pool (fst demo_docker))))) \<le> 1"
    by (simp add: docker_Stats_def docker_Release_def demo_docker_def NewDockerDriver_def docker_defaults_def demo_opt_def
        demo_api_def Let_def spawnSlot_def)
  ultimately show ?thesis by simp
qed

section \<open>Run directories\<close>

lemma path_Clean_abs:
  assumes "cs \<noteq> []" "list_all (\<lambda>c. CHR ''/'' \<notin> set c) cs"
  shows "path_Clean (slash @ Join cs slash) = slash @ Join (clean_comps True [] cs) slash"
proof -
  have "slash @ Join cs slash = Join ([] # cs) slash" using assms(1) by (simp add: Join_Cons)
  moreover have "Split (Join ([] # cs) slash) slash = [] # cs"
    unfolding slash_def by (rule Split_Join) (use assms(2) in simp_all)
  moreover have "IsAbs (slash @ Join cs slash)" by (simp add: IsAbs_def slash_def HasPrefix_def)
  moreover have "slash @ Join cs slash \<noteq> []" by (simp add: slash_def)
  ultimately show ?thesis by (simp add: path_Clean_def)
qed

lemma clean_comps_append: "list_all comp_ok cs \<Longrightarrow> clean_comps True out (cs @ ds) = clean_comps True (rev cs @ out) ds"
  by (induction cs arbitrary: out) (auto simp: comp_ok_def)

lemma Join_append: "xs \<noteq> [] \<Longrightarrow> ys \<noteq> [] \<Longrightarrow> Join (xs @ ys) sep = Join xs sep @ sep @ Join ys sep"
proof (induction xs)
  case (Cons x xs)
  then show ?case by (cases "xs = []") (simp_all add: Join_Cons)
qed simp

lemma run_dir_comps:
  assumes "cs \<noteq> []" "list_all comp_ok cs" "rs \<noteq> []" "list_all (\<lambda>c. CHR ''/'' \<notin> set c) rs" "Join rs slash \<noteq> []"
  shows "path_Join [slash @ Join cs slash, ''runs'', Join rs slash] =
    slash @ Join (clean_comps True (''runs'' # rev cs) rs) slash"
proof -
  have ok: "list_all comp_ok (cs @ [''runs''])" using assms(2) by (simp add: comp_ok_def)
  have "path_Join [slash @ Join cs slash, ''runs'', Join rs slash] = path_Clean (slash @ Join ((cs @ [''runs'']) @ rs) slash)"
    using assms(1,3,5) by (simp add: path_Join_def Join_append Join_Cons slash_def)
  also have "\<dots> = slash @ Join (clean_comps True [] ((cs @ [''runs'']) @ rs)) slash"
    by (rule path_Clean_abs) (use assms ok in \<open>auto simp: list_all_iff comp_ok_def\<close>)
  also have "\<dots> = slash @ Join (clean_comps True (''runs'' # rev cs) rs) slash"
    unfolding clean_comps_append [OF ok] by simp
  finally show ?thesis .
qed

text \<open>A run id that is one plain path component gets its own directory under the slot's workspace, in both drivers; but the drivers
  do not check the id, and the id ../.. names the directory that contains the workspaces of all slots.\<close>

theorem run_dir_confined:
  assumes "sl_workspaceHost s = slash @ Join cs slash" "cs \<noteq> []" "list_all comp_ok cs"
  shows "(comp_ok (sl_runID s) \<longrightarrow>
      mem_WorkspaceHost s = slash @ Join (cs @ [''runs'', sl_runID s]) slash \<and> docker_run_dir s = mem_WorkspaceHost s) \<and>
    (sl_runID s = ''../..'' \<longrightarrow> mem_WorkspaceHost s = slash @ Join (butlast cs) slash \<and> docker_run_dir s = mem_WorkspaceHost s)"
proof -
  have same: "docker_run_dir s = mem_WorkspaceHost s" by (simp add: docker_run_dir_def mem_WorkspaceHost_def)
  have dir: "mem_WorkspaceHost s = slash @ Join (clean_comps True (''runs'' # rev cs) rs) slash"
    if "sl_runID s = Join rs slash" "rs \<noteq> []" "list_all (\<lambda>c. CHR ''/'' \<notin> set c) rs" "Join rs slash \<noteq> []" for rs
    using run_dir_comps [OF assms(2,3) that(2-4)] assms(1) that(1) by (simp add: mem_WorkspaceHost_def)
  have "mem_WorkspaceHost s = slash @ Join (cs @ [''runs'', sl_runID s]) slash" if "comp_ok (sl_runID s)"
    using dir [of "[sl_runID s]"] that by (simp add: comp_ok_def)
  moreover have "mem_WorkspaceHost s = slash @ Join (butlast cs) slash" if "sl_runID s = ''../..''"
  proof -
    obtain c cs' where cs: "rev cs = c # cs'" using assms(2) by (cases "rev cs") auto
    then have "c \<noteq> ''..''" using assms(3) by (metis comp_ok_def list.set_intros(1) list_all_iff set_rev)
    have "rev cs' = butlast cs" using cs by (metis butlast_snoc rev.simps(2) rev_rev_ident)
    then show ?thesis using dir [of "[''..'', ''..'']"] that cs \<open>c \<noteq> ''..''\<close> by (simp add: slash_def)
  qed
  ultimately show ?thesis using same by blast
qed

theorem run_dir_confined_witness:
  "mem_WorkspaceHost \<lparr> sl_id = ''a'', sl_name = [], sl_workspaceHost = slash @ Join [''tmp'', ''mem-1''] slash, sl_runID = ''../..'' \<rparr> = ''/tmp''"
  using run_dir_confined [of "\<lparr> sl_id = ''a'', sl_name = [], sl_workspaceHost = slash @ Join [''tmp'', ''mem-1''] slash, sl_runID = ''../..'' \<rparr>"
      "[''tmp'', ''mem-1'']"]
  by (simp add: comp_ok_def slash_def)

end
