(* ===== verification/History.thy ===== *)
theory History
  imports Queue "HOL-Library.Char_ord" "HOL-Library.List_Lexorder"
begin

text \<open>
  internal/history: the message type and the Redis-backed store (store.go,
  redis_store.go). A run's messages live in a hash (id to JSON) and in a sorted set
  whose lexicographic order is the message order. Redis and the ULID generator are
  outside: they are the operations of an environment record, and what the proofs use of
  them is the predicate redis_laws.
\<close>

section \<open>Messages\<close>

definition RoleSystem :: string where "RoleSystem = ''system''"
definition RoleUser :: string where "RoleUser = ''user''"
definition RoleAssistant :: string where "RoleAssistant = ''assistant''"
definition RoleTool :: string where "RoleTool = ''tool''"

text \<open>A Go map[string]string as the list of its entries in key order, the order in which
  json.Marshal writes them.\<close>

type_synonym tags = "(string \<times> string) list"

fun tag_put :: "string \<Rightarrow> string \<Rightarrow> tags \<Rightarrow> tags" where
  "tag_put k v [] = [(k, v)]"
| "tag_put k v ((k', v') # r) =
     (if k = k' then (k, v) # r
      else if k < k' then (k, v) # (k', v') # r
      else (k', v') # tag_put k v r)"

definition tags_wf :: "tags \<Rightarrow> bool" where
  "tags_wf ts = sorted_wrt (\<lambda>p q. fst p < fst q) ts"

record HMessage =
  h_ID :: string
  h_Role :: string
  h_Content :: string
  h_Visible :: bool
  h_Version :: nat
  h_ParentID :: string
  h_Tags :: tags

definition HMessage_fields :: "HMessage \<Rightarrow> (string \<times> bool \<times> json) list" where
  "HMessage_fields m = [
     (''id'', False, JStr (h_ID m)),
     (''role'', False, JStr (h_Role m)),
     (''content'', False, JStr (h_Content m)),
     (''visible'', False, JBool (h_Visible m)),
     (''version'', False, enc_nat (h_Version m)),
     (''parent_id'', h_ParentID m = [], JStr (h_ParentID m)),
     (''tags'', h_Tags m = [], JObj (map (\<lambda>(k, v). (k, JStr v)) (h_Tags m)))]"

definition HMessage_json :: "HMessage \<Rightarrow> json" where "HMessage_json m = struct_obj (HMessage_fields m)"

text \<open>Decoding a map: the entries of an object in order, null as the zero value.\<close>

fun put_tags :: "tags \<Rightarrow> (string \<times> json) list \<Rightarrow> tags option" where
  "put_tags ts [] = Some ts"
| "put_tags ts ((k, v) # r) = (case v of
      JStr s \<Rightarrow> put_tags (tag_put k s ts) r
    | JNull \<Rightarrow> put_tags (tag_put k [] ts) r
    | _ \<Rightarrow> None)"

definition dec_tags :: "json \<Rightarrow> tags option" where
  "dec_tags j = (case j of JObj kvs \<Rightarrow> put_tags [] kvs | _ \<Rightarrow> None)"

definition dec_uint32 :: "json \<Rightarrow> nat option" where
  "dec_uint32 j = (case dec_uint j of None \<Rightarrow> None | Some n \<Rightarrow> if n < 2 ^ 32 then Some n else None)"

definition HMessage_of :: "json \<Rightarrow> HMessage option" where
  "HMessage_of j = Option.bind (members j) (\<lambda>m.
     Option.bind (field dec_str m ''id'' []) (\<lambda>x0.
     Option.bind (field dec_str m ''role'' []) (\<lambda>x1.
     Option.bind (field dec_str m ''content'' []) (\<lambda>x2.
     Option.bind (field dec_bool m ''visible'' False) (\<lambda>x3.
     Option.bind (field dec_uint32 m ''version'' 0) (\<lambda>x4.
     Option.bind (field dec_str m ''parent_id'' []) (\<lambda>x5.
     Option.bind (field dec_tags m ''tags'' []) (\<lambda>x6.
     Some \<lparr> h_ID = x0, h_Role = x1, h_Content = x2, h_Visible = x3, h_Version = x4,
            h_ParentID = x5, h_Tags = x6 \<rparr>))))))))"

definition HMessage_Marshal :: "HMessage \<Rightarrow> string" where "HMessage_Marshal m = Marshal (HMessage_json m)"
definition HMessage_Unmarshal :: "string \<Rightarrow> HMessage option" where
  "HMessage_Unmarshal s = Option.bind (json_parse s) HMessage_of"

definition HMessage_ok :: "HMessage \<Rightarrow> bool" where
  "HMessage_ok m = (ValidString (h_ID m) \<and> ValidString (h_Role m) \<and> ValidString (h_Content m) \<and>
     h_Version m < 2 ^ 32 \<and> ValidString (h_ParentID m) \<and>
     tags_wf (h_Tags m) \<and> list_all (\<lambda>(k, v). ValidString k \<and> ValidString v) (h_Tags m))"

section \<open>Redis\<close>

datatype hist_cmd =
    HSet string string string
  | ZAdd string string

datatype lex_bound = LexMin | LexMax | LexIncl string

record 'r HistEnv =
  hv_hget :: "'r \<Rightarrow> string \<Rightarrow> string \<Rightarrow> (string, string option) result"
  hv_zrange :: "'r \<Rightarrow> string \<Rightarrow> lex_bound \<Rightarrow> lex_bound \<Rightarrow> (string, string list) result"
  hv_hmget :: "'r \<Rightarrow> string \<Rightarrow> string list \<Rightarrow> (string, string option list) result"
  hv_exec :: "'r \<Rightarrow> hist_cmd list \<Rightarrow> string option \<times> 'r"
  hv_new_id :: "'r \<Rightarrow> string \<times> 'r"

datatype hist_error =
    ErrNotFound
  | RedisError string
  | UnmarshalError string

section \<open>The store\<close>

definition Append :: "'r HistEnv \<Rightarrow> 'r \<Rightarrow> string \<Rightarrow> HMessage \<Rightarrow> (hist_error, string) result \<times> 'r" where
  "Append E r runID m0 =
     (let (mid, r1) = (if h_ID m0 = [] then hv_new_id E r else (h_ID m0, r));
          m = m0\<lparr> h_ID := mid, h_Version := (if h_Version m0 = 0 then 1 else h_Version m0), h_Visible := True \<rparr>;
          (err, r2) = hv_exec E r1
             [HSet (HistoryMsgs runID) mid (HMessage_Marshal m), ZAdd (HistoryOrder runID) mid]
      in case err of
           Some e \<Rightarrow> (Inl (RedisError (''append: '' @ e)), r2)
         | None \<Rightarrow> (Inr mid, r2))"

definition load :: "'r HistEnv \<Rightarrow> 'r \<Rightarrow> string \<Rightarrow> string \<Rightarrow> (hist_error, HMessage) result" where
  "load E r runID msgID =
     (case hv_hget E r (HistoryMsgs runID) msgID of
        Inl e \<Rightarrow> Inl (RedisError e)
      | Inr None \<Rightarrow> Inl ErrNotFound
      | Inr (Some raw) \<Rightarrow>
          (case HMessage_Unmarshal raw of
             None \<Rightarrow> Inl (UnmarshalError raw)
           | Some m \<Rightarrow> Inr m))"

definition saveLocked :: "'r HistEnv \<Rightarrow> 'r \<Rightarrow> string \<Rightarrow> HMessage \<Rightarrow> hist_error option \<times> 'r" where
  "saveLocked E r runID m =
     (let (err, r1) = hv_exec E r [HSet (HistoryMsgs runID) (h_ID m) (HMessage_Marshal m)]
      in (map_option RedisError err, r1))"

text \<open>Version is a uint32.\<close>

definition bump :: "HMessage \<Rightarrow> HMessage" where
  "bump m = m\<lparr> h_Version := (h_Version m + 1) mod 2 ^ 32 \<rparr>"

definition Patch :: "'r HistEnv \<Rightarrow> 'r \<Rightarrow> string \<Rightarrow> string \<Rightarrow> string \<Rightarrow> hist_error option \<times> 'r" where
  "Patch E r runID msgID content =
     (case load E r runID msgID of
        Inl e \<Rightarrow> (Some e, r)
      | Inr m \<Rightarrow> saveLocked E r runID (bump (m\<lparr> h_Content := content \<rparr>)))"

definition Hide :: "'r HistEnv \<Rightarrow> 'r \<Rightarrow> string \<Rightarrow> string \<Rightarrow> hist_error option \<times> 'r" where
  "Hide E r runID msgID =
     (case load E r runID msgID of
        Inl e \<Rightarrow> (Some e, r)
      | Inr m \<Rightarrow> saveLocked E r runID (bump (m\<lparr> h_Visible := False \<rparr>)))"

text \<open>The loop of Fold that loads the interval and keeps the messages that were visible, now
  hidden.\<close>

fun fold_load :: "'r HistEnv \<Rightarrow> 'r \<Rightarrow> string \<Rightarrow> string list \<Rightarrow> (hist_error, HMessage list) result" where
  "fold_load E r runID [] = Inr []"
| "fold_load E r runID (i # is) =
     bindR (load E r runID i) (\<lambda>m.
       bindR (fold_load E r runID is) (\<lambda>ms.
         Inr (if h_Visible m then bump (m\<lparr> h_Visible := False \<rparr>) # ms else ms)))"

definition folded_message :: "string \<Rightarrow> string \<Rightarrow> string \<Rightarrow> string \<Rightarrow> HMessage" where
  "folded_message mid summary fromID toID =
     \<lparr> h_ID = mid, h_Role = RoleAssistant, h_Content = summary, h_Visible = True, h_Version = 1,
       h_ParentID = [],
       h_Tags = [(''compacted'', ''true''), (''fold_from'', fromID), (''fold_to'', toID)] \<rparr>"

definition Fold :: "'r HistEnv \<Rightarrow> 'r \<Rightarrow> string \<Rightarrow> string \<Rightarrow> string \<Rightarrow> string \<Rightarrow>
    (hist_error, string) result \<times> 'r" where
  "Fold E r runID fromID0 toID0 summary =
     (case load E r runID fromID0 of Inl e \<Rightarrow> (Inl e, r) | Inr _ \<Rightarrow>
     (case load E r runID toID0 of Inl e \<Rightarrow> (Inl e, r) | Inr _ \<Rightarrow>
     (let (fromID, toID) = (if fromID0 > toID0 then (toID0, fromID0) else (fromID0, toID0)) in
      case hv_zrange E r (HistoryOrder runID) (LexIncl fromID) (LexIncl toID) of
        Inl e \<Rightarrow> (Inl (RedisError e), r)
      | Inr ids \<Rightarrow>
          if ids = [] then (Inl ErrNotFound, r)
          else (case fold_load E r runID ids of
             Inl e \<Rightarrow> (Inl e, r)
           | Inr msgs \<Rightarrow>
               (let (mid, r1) = hv_new_id E r;
                    folded = folded_message mid summary fromID toID;
                    (err, r2) = hv_exec E r1
                      (map (\<lambda>m. HSet (HistoryMsgs runID) (h_ID m) (HMessage_Marshal m)) msgs @
                       [HSet (HistoryMsgs runID) mid (HMessage_Marshal folded),
                        ZAdd (HistoryOrder runID) mid])
                in case err of
                     Some e \<Rightarrow> (Inl (RedisError (''fold: '' @ e)), r2)
                   | None \<Rightarrow> (Inr mid, r2))))))"

fun visible_messages :: "string option list \<Rightarrow> HMessage list" where
  "visible_messages [] = []"
| "visible_messages (None # rs) = visible_messages rs"
| "visible_messages (Some s # rs) =
     (case HMessage_Unmarshal s of
        None \<Rightarrow> visible_messages rs
      | Some m \<Rightarrow> if h_Visible m then m # visible_messages rs else visible_messages rs)"

definition Render :: "'r HistEnv \<Rightarrow> 'r \<Rightarrow> string \<Rightarrow> (hist_error, HMessage list) result" where
  "Render E r runID =
     (case hv_zrange E r (HistoryOrder runID) LexMin LexMax of
        Inl e \<Rightarrow> Inl (RedisError e)
      | Inr ids \<Rightarrow>
          if ids = [] then Inr []
          else (case hv_hmget E r (HistoryMsgs runID) ids of
             Inl e \<Rightarrow> Inl (RedisError e)
           | Inr raws \<Rightarrow> Inr (visible_messages raws)))"

section \<open>Codec\<close>

lemma tag_put_last: "sorted_wrt (\<lambda>p q. fst p < fst q) (ts @ [(k, v)]) \<Longrightarrow> tag_put k v ts = ts @ [(k, v)]"
proof (induction ts)
  case (Cons t ts)
  obtain k' v' where t: "t = (k', v')" by (cases t)
  have "k' < k" using Cons.prems by (simp add: t)
  then have "\<not> k < k'" "k \<noteq> k'" by auto
  then show ?case using Cons by (simp add: t)
qed simp

lemma put_tags_map:
  "tags_wf (ts @ us) \<Longrightarrow> put_tags ts (map (\<lambda>(k, v). (k, JStr v)) us) = Some (ts @ us)"
proof (induction us arbitrary: ts)
  case (Cons u us)
  obtain k v where u: "u = (k, v)" by (cases u)
  have "tag_put k v ts = ts @ [(k, v)]"
    by (rule tag_put_last) (use Cons.prems u in \<open>simp add: tags_wf_def sorted_wrt_append\<close>)
  moreover have "put_tags (ts @ [(k, v)]) (map (\<lambda>(k, v). (k, JStr v)) us) = Some ((ts @ [(k, v)]) @ us)"
    by (rule Cons.IH) (use Cons.prems u in simp)
  ultimately show ?case by (simp add: u)
qed simp

lemma dec_tags_enc: "tags_wf ts \<Longrightarrow> dec_tags (JObj (map (\<lambda>(k, v). (k, JStr v)) ts)) = Some ts"
  using put_tags_map [of "[]" ts] by (simp add: dec_tags_def)

lemma dec_uint32_enc: "n < 2 ^ 32 \<Longrightarrow> dec_uint32 (enc_nat n) = Some n"
  by (simp add: dec_uint32_def dec_uint_enc)

lemma HMessage_tags: "tags_distinct (map fst (HMessage_fields m))"
  by (simp add: HMessage_fields_def tags_distinct_ascii upper_ascii_def ord_def)

lemma HMessage_json_ok: "HMessage_ok m \<Longrightarrow> json_ok (HMessage_json m)"
  unfolding HMessage_json_def
proof (rule json_ok_struct)
  assume ok: "HMessage_ok m"
  then have "list_all (\<lambda>(k, v). ValidString k \<and> json_ok v) (map (\<lambda>(k, v). (k, JStr v)) (h_Tags m))"
    by (auto simp: HMessage_ok_def list_all_iff)
  then show "list_all (\<lambda>(t, e, v). ValidString t \<and> (e \<or> json_ok v)) (HMessage_fields m)"
    using ok by (simp add: HMessage_ok_def HMessage_fields_def ValidString_ascii ord_def)
qed

lemma struct_get_tags:
  "tags_wf ts \<Longrightarrow> struct_get dec_tags ((t, ts = [], JObj (map (\<lambda>(k, v). (k, JStr v)) ts)) # fs) t [] = Some ts"
  "n < 2 ^ 32 \<Longrightarrow> struct_get dec_uint32 ((t, False, enc_nat n) # fs) t k = Some n"
  by (auto simp: struct_get.simps(2) dec_tags_enc dec_uint32_enc)

lemma HMessage_names: "map fst (HMessage_fields m) =
  [''id'', ''role'', ''content'', ''visible'', ''version'', ''parent_id'', ''tags'']"
  by (simp add: HMessage_fields_def)

lemma HMessage_of_json: "HMessage_ok m \<Longrightarrow> HMessage_of (HMessage_json m) = Some m"
  by (simp add: HMessage_of_def HMessage_json_def members_struct_obj field_struct [OF HMessage_tags] HMessage_names)
    (simp add: HMessage_fields_def HMessage_ok_def struct_get_rules struct_get_tags)

lemma HMessage_roundtrip: "HMessage_ok m \<Longrightarrow> HMessage_Unmarshal (HMessage_Marshal m) = Some m"
  by (simp add: HMessage_Unmarshal_def HMessage_Marshal_def json_parse_Marshal HMessage_json_ok HMessage_of_json)

section \<open>What Redis promises\<close>

type_synonym hashes = "string \<Rightarrow> string \<rightharpoonup> string"
type_synonym zsets = "string \<Rightarrow> string set"

fun apply_cmd :: "hashes \<times> zsets \<Rightarrow> hist_cmd \<Rightarrow> hashes \<times> zsets" where
  "apply_cmd (h, z) (HSet k f v) = (h(k := (h k)(f \<mapsto> v)), z)"
| "apply_cmd (h, z) (ZAdd k m) = (h, z(k := insert m (z k)))"

fun in_lex :: "lex_bound \<Rightarrow> lex_bound \<Rightarrow> string \<Rightarrow> bool" where
  "in_lex lo hi m = ((case lo of LexMin \<Rightarrow> True | LexMax \<Rightarrow> False | LexIncl a \<Rightarrow> a \<le> m) \<and>
     (case hi of LexMin \<Rightarrow> False | LexMax \<Rightarrow> True | LexIncl b \<Rightarrow> m \<le> b))"

text \<open>HGET and HMGET read the hash, ZRANGEBYLEX lists a score-0 sorted set in byte order, a
  transaction that succeeds executed its commands in order, and a ULID is a fresh non-empty text. h and z
  are the hashes and sorted sets a state holds.\<close>

definition redis_laws :: "'r HistEnv \<Rightarrow> ('r \<Rightarrow> hashes) \<Rightarrow> ('r \<Rightarrow> zsets) \<Rightarrow> bool" where
  "redis_laws E h z \<longleftrightarrow>
     (\<forall>r k f v. hv_hget E r k f = Inr v \<longrightarrow> v = h r k f) \<and>
     (\<forall>r k lo hi ids. hv_zrange E r k lo hi = Inr ids \<longrightarrow>
        sorted_wrt (<) ids \<and> set ids = {m \<in> z r k. in_lex lo hi m}) \<and>
     (\<forall>r k fs vs. hv_hmget E r k fs = Inr vs \<longrightarrow> vs = map (h r k) fs) \<and>
     (\<forall>r cs r'. hv_exec E r cs = (None, r') \<longrightarrow> (h r', z r') = foldl apply_cmd (h r, z r) cs) \<and>
     (\<forall>r i r'. hv_new_id E r = (i, r') \<longrightarrow>
        h r' = h r \<and> z r' = z r \<and> i \<noteq> [] \<and> ValidString i \<and> (\<forall>k. i \<notin> z r k))"

section \<open>The abstract store\<close>

text \<open>A run's history as a finite map from message id to message.\<close>

type_synonym hview = "string \<rightharpoonup> HMessage"

definition view :: "('r \<Rightarrow> hashes) \<Rightarrow> ('r \<Rightarrow> zsets) \<Rightarrow> 'r \<Rightarrow> string \<Rightarrow> hview" where
  "view h z r runID i =
     (if i \<in> z r (HistoryOrder runID) then Option.bind (h r (HistoryMsgs runID) i) HMessage_Unmarshal else None)"

definition hist_inv :: "('r \<Rightarrow> hashes) \<Rightarrow> ('r \<Rightarrow> zsets) \<Rightarrow> 'r \<Rightarrow> string \<Rightarrow> bool" where
  "hist_inv h z r runID \<longleftrightarrow>
     dom (h r (HistoryMsgs runID)) = z r (HistoryOrder runID) \<and>
     (\<forall>i \<in> z r (HistoryOrder runID). \<exists>m. h r (HistoryMsgs runID) i = Some (HMessage_Marshal m) \<and>
        HMessage_ok m \<and> h_ID m = i)"

definition spec_append :: "hview \<Rightarrow> string \<Rightarrow> HMessage \<Rightarrow> hview" where
  "spec_append v i m = v(i \<mapsto> m\<lparr> h_ID := i, h_Version := (if h_Version m = 0 then 1 else h_Version m),
     h_Visible := True \<rparr>)"

definition spec_hide :: "HMessage \<Rightarrow> HMessage" where
  "spec_hide m = bump (m\<lparr> h_Visible := False \<rparr>)"

definition spec_fold :: "hview \<Rightarrow> string \<Rightarrow> string \<Rightarrow> string \<Rightarrow> string \<Rightarrow> hview" where
  "spec_fold v lo hi i summary =
     (\<lambda>j. if lo \<le> j \<and> j \<le> hi then map_option (\<lambda>m. if h_Visible m then spec_hide m else m) (v j) else v j)
       (i \<mapsto> folded_message i summary lo hi)"

text \<open>The visible messages in id order.\<close>

definition spec_render :: "hview \<Rightarrow> string list \<Rightarrow> HMessage list" where
  "spec_render v ids = filter h_Visible (map (the \<circ> v) ids)"

section \<open>Refinement\<close>

lemma HistoryMsgs_inj [simp]: "HistoryMsgs a = HistoryMsgs b \<longleftrightarrow> a = b"
  by (simp add: HistoryMsgs_def)

lemma HistoryOrder_inj [simp]: "HistoryOrder a = HistoryOrder b \<longleftrightarrow> a = b"
  by (simp add: HistoryOrder_def)

lemma redis_laws_exec:
  "redis_laws E h z \<Longrightarrow> hv_exec E r cs = (None, r') \<Longrightarrow> (h r', z r') = foldl apply_cmd (h r, z r) cs"
  unfolding redis_laws_def by blast

lemma redis_laws_id:
  "redis_laws E h z \<Longrightarrow> hv_new_id E r = (i, r') \<Longrightarrow>
     h r' = h r \<and> z r' = z r \<and> i \<noteq> [] \<and> ValidString i \<and> (\<forall>k. i \<notin> z r k)"
  unfolding redis_laws_def by blast

lemma redis_laws_zrange:
  "redis_laws E h z \<Longrightarrow> hv_zrange E r k lo hi = Inr ids \<Longrightarrow>
     sorted_wrt (<) ids \<and> set ids = {m \<in> z r k. in_lex lo hi m}"
  unfolding redis_laws_def by blast

text \<open>A transaction that writes marshalled messages under their ids, and adds some of the ids.\<close>

definition writes :: "string \<Rightarrow> HMessage list \<Rightarrow> hist_cmd list" where
  "writes runID ms = map (\<lambda>m. HSet (HistoryMsgs runID) (h_ID m) (HMessage_Marshal m)) ms"

lemma apply_writes:
  "foldl apply_cmd (h, z) (writes runID ms) =
     (h(HistoryMsgs runID := (\<lambda>i. case map_of (rev (map (\<lambda>m. (h_ID m, HMessage_Marshal m)) ms)) i of
          Some s \<Rightarrow> Some s | None \<Rightarrow> h (HistoryMsgs runID) i)), z)"
proof (induction ms arbitrary: h)
  case (Cons m ms)
  show ?case unfolding writes_def list.map foldl.simps apply_cmd.simps
    by (subst Cons.IH [unfolded writes_def])
      (auto simp: fun_eq_iff map_add_def map_of_append split: option.splits)
qed (simp add: writes_def)

text \<open>After such a transaction the written messages are the view, every other message and
  every other run is as before.\<close>

lemma writes_view:
  assumes laws: "redis_laws E h z" and inv: "hist_inv h z r runID"
    and ok: "\<forall>m\<in>set ms. HMessage_ok m" and dist: "distinct (map h_ID ms)"
    and exec: "hv_exec E r (writes runID ms @ map (ZAdd (HistoryOrder runID)) new) = (None, r')"
    and ids: "h_ID ` set ms \<subseteq> z r (HistoryOrder runID) \<union> set new" "set new \<subseteq> h_ID ` set ms"
  shows "hist_inv h z r' runID"
    and "view h z r' runID = (\<lambda>i. case map_of (map (\<lambda>m. (h_ID m, m)) ms) i of
           Some m \<Rightarrow> Some m | None \<Rightarrow> view h z r runID i)"
    and "runID' \<noteq> runID \<Longrightarrow> view h z r' runID' = view h z r runID'"
proof -
  let ?mo = "map_of (map (\<lambda>m. (h_ID m, HMessage_Marshal m)) ms)"
  have zadds: "foldl apply_cmd (h0, z0) (map (ZAdd (HistoryOrder runID)) new) =
      (h0, z0(HistoryOrder runID := set new \<union> z0 (HistoryOrder runID)))" for h0 z0
    by (induction new arbitrary: z0) auto
  have rev: "map_of (rev (map (\<lambda>m. (h_ID m, HMessage_Marshal m)) ms)) = ?mo"
    using dist by (subst map_of_inject_set) (simp_all add: comp_def distinct_rev flip: rev_map)
  have hz: "h r' = (h r)(HistoryMsgs runID := (\<lambda>i. case ?mo i of Some s \<Rightarrow> Some s | None \<Rightarrow> h r (HistoryMsgs runID) i))"
      "z r' = (z r)(HistoryOrder runID := set new \<union> z r (HistoryOrder runID))"
    using redis_laws_exec [OF laws exec] by (simp_all add: apply_writes zadds rev)
  have mo: "?mo i = map_option HMessage_Marshal (map_of (map (\<lambda>m. (h_ID m, m)) ms) i)" for i
    by (induction ms) auto
  have mem: "map_of (map (\<lambda>m. (h_ID m, m)) ms) i = Some m \<Longrightarrow> m \<in> set ms \<and> h_ID m = i" for i m
    by (auto dest: map_of_SomeD)
  have none: "map_of (map (\<lambda>m. (h_ID m, m)) ms) i = None \<longleftrightarrow> i \<notin> h_ID ` set ms" for i
    by (auto simp: map_of_eq_None_iff image_image)
  have dom: "z r' (HistoryOrder runID) = h_ID ` set ms \<union> z r (HistoryOrder runID)"
    using ids by (auto simp: hz)
  have cases: "(\<exists>m. map_of (map (\<lambda>m. (h_ID m, m)) ms) i = Some m \<and> m \<in> set ms \<and> h_ID m = i \<and>
        h r' (HistoryMsgs runID) i = Some (HMessage_Marshal m)) \<or>
      (map_of (map (\<lambda>m. (h_ID m, m)) ms) i = None \<and> i \<notin> h_ID ` set ms \<and>
        h r' (HistoryMsgs runID) i = h r (HistoryMsgs runID) i)" for i
  proof (cases "map_of (map (\<lambda>m. (h_ID m, m)) ms) i")
    case None
    moreover have "?mo i = None" by (simp only: mo None option.map)
    ultimately show ?thesis using iffD1 [OF none None] by (simp add: hz)
  next
    case (Some m)
    moreover have "?mo i = Some (HMessage_Marshal m)" by (simp only: mo Some option.map)
    ultimately show ?thesis using mem [OF Some] by (simp add: hz)
  qed
  have new_none: "set new \<subseteq> h_ID ` set ms" by (rule ids(2))
  have inv1: "h r (HistoryMsgs runID) i = None \<longleftrightarrow> i \<notin> z r (HistoryOrder runID)" for i
    using inv unfolding hist_inv_def by blast
  have inv2: "i \<in> z r (HistoryOrder runID) \<Longrightarrow>
      \<exists>m. h r (HistoryMsgs runID) i = Some (HMessage_Marshal m) \<and> HMessage_ok m \<and> h_ID m = i" for i
    using inv unfolding hist_inv_def by blast
  have dom_h: "dom (h r' (HistoryMsgs runID)) = z r' (HistoryOrder runID)"
  proof (rule set_eqI)
    fix i
    have "i \<in> h_ID ` set ms" if "m \<in> set ms" "h_ID m = i" for m using that by blast
    with cases [of i] inv1 [of i] show "i \<in> dom (h r' (HistoryMsgs runID)) \<longleftrightarrow> i \<in> z r' (HistoryOrder runID)"
      unfolding dom domIff Un_iff by (metis option.distinct(1))
  qed
  have each: "\<exists>m. h r' (HistoryMsgs runID) i = Some (HMessage_Marshal m) \<and> HMessage_ok m \<and> h_ID m = i"
    if i: "i \<in> z r' (HistoryOrder runID)" for i
    using cases [of i]
  proof (elim disjE exE conjE)
    fix m
    assume "m \<in> set ms" "h_ID m = i" "h r' (HistoryMsgs runID) i = Some (HMessage_Marshal m)"
    then show ?thesis using ok by blast
  next
    assume "i \<notin> h_ID ` set ms" "h r' (HistoryMsgs runID) i = h r (HistoryMsgs runID) i"
    then show ?thesis using inv2 [of i] i unfolding dom by simp
  qed
  show "hist_inv h z r' runID" using dom_h each by (simp add: hist_inv_def)
  show "view h z r' runID = (\<lambda>i. case map_of (map (\<lambda>m. (h_ID m, m)) ms) i of
           Some m \<Rightarrow> Some m | None \<Rightarrow> view h z r runID i)"
  proof (rule ext)
    fix i
    from cases [of i] show "view h z r' runID i = (case map_of (map (\<lambda>m. (h_ID m, m)) ms) i of
           Some m \<Rightarrow> Some m | None \<Rightarrow> view h z r runID i)"
    proof (elim disjE exE conjE)
      fix m
      assume "map_of (map (\<lambda>m. (h_ID m, m)) ms) i = Some m" "m \<in> set ms" "h_ID m = i"
        "h r' (HistoryMsgs runID) i = Some (HMessage_Marshal m)"
      moreover have "HMessage_ok m" using \<open>m \<in> set ms\<close> ok by blast
      ultimately show ?thesis by (auto simp: view_def dom HMessage_roundtrip)
    next
      assume "map_of (map (\<lambda>m. (h_ID m, m)) ms) i = None" "i \<notin> h_ID ` set ms"
        "h r' (HistoryMsgs runID) i = h r (HistoryMsgs runID) i"
      then show ?thesis by (simp add: view_def dom)
    qed
  qed
  show "runID' \<noteq> runID \<Longrightarrow> view h z r' runID' = view h z r runID'"
    by (rule ext) (simp add: view_def hz)
qed

lemma view_Some:
  assumes "hist_inv h z r runID"
  shows "view h z r runID i = Some m \<longleftrightarrow> i \<in> z r (HistoryOrder runID) \<and>
     h r (HistoryMsgs runID) i = Some (HMessage_Marshal m) \<and> HMessage_ok m \<and> h_ID m = i"
  using assms unfolding hist_inv_def view_def
  by (auto simp: HMessage_roundtrip bind_eq_Some_conv dest!: bspec split: if_splits)
    (metis HMessage_roundtrip option.inject)+

lemma load_view:
  assumes "redis_laws E h z" "hist_inv h z r runID" "load E r runID i = Inr m"
  shows "view h z r runID i = Some m"
proof -
  obtain raw where raw: "hv_hget E r (HistoryMsgs runID) i = Inr (Some raw)" "HMessage_Unmarshal raw = Some m"
    using assms(3) by (auto simp: load_def split: sum.splits option.splits)
  then have "h r (HistoryMsgs runID) i = Some raw"
    using assms(1) unfolding redis_laws_def by metis
  then show ?thesis using raw(2) assms(2) by (auto simp: view_def hist_inv_def)
qed

lemma Append_refines:
  assumes laws: "redis_laws E h z" and inv: "hist_inv h z r runID"
    and ok: "HMessage_ok m" and app: "Append E r runID m = (Inr i, r')"
  shows "hist_inv h z r' runID \<and> view h z r' runID = spec_append (view h z r runID) i m \<and>
    (\<forall>runID'. runID' \<noteq> runID \<longrightarrow> view h z r' runID' = view h z r runID')"
proof -
  obtain mid r1 where id: "(if h_ID m = [] then hv_new_id E r else (h_ID m, r)) = (mid, r1)" by fastforce
  have same: "h r1 = h r" "z r1 = z r"
    using id laws by (auto simp: redis_laws_def split: if_splits)
  have vid: "ValidString mid"
    using id laws ok by (auto simp: redis_laws_def HMessage_ok_def split: if_splits)
  let ?m = "m\<lparr> h_ID := mid, h_Version := (if h_Version m = 0 then 1 else h_Version m), h_Visible := True \<rparr>"
  have ok': "HMessage_ok ?m" using ok vid by (simp add: HMessage_ok_def)
  have exec: "hv_exec E r1 (writes runID [?m] @ map (ZAdd (HistoryOrder runID)) [mid]) = (None, r')" and i: "i = mid"
    using app id by (auto simp: Append_def writes_def Let_def split: prod.splits option.splits)
  have inv1: "hist_inv h z r1 runID" and v1: "view h z r1 = view h z r"
    using inv by (simp_all add: hist_inv_def view_def same fun_eq_iff)
  note w = writes_view [OF laws inv1 _ _ exec, simplified, OF ok']
  show ?thesis using w
    by (auto simp: v1 i spec_append_def fun_eq_iff)
qed

text \<open>Patch and Hide rewrite one message in place.\<close>

lemma save_refines:
  assumes laws: "redis_laws E h z" and inv: "hist_inv h z r runID"
    and v: "view h z r runID i = Some m" and ok: "HMessage_ok m'" "h_ID m' = i"
    and save: "saveLocked E r runID m' = (None, r')"
  shows "hist_inv h z r' runID \<and> view h z r' runID = (view h z r runID)(i \<mapsto> m') \<and>
    (\<forall>runID'. runID' \<noteq> runID \<longrightarrow> view h z r' runID' = view h z r runID')"
proof -
  have exec: "hv_exec E r (writes runID [m'] @ map (ZAdd (HistoryOrder runID)) []) = (None, r')"
    using save by (simp add: saveLocked_def writes_def split: prod.splits)
  have mem: "i \<in> z r (HistoryOrder runID)" using v view_Some [OF inv] by blast
  note w = writes_view [OF laws inv _ _ exec, simplified, OF ok(1)]
  show ?thesis using w mem ok(2) by (auto simp: fun_eq_iff)
qed

lemma bump_ok: "HMessage_ok m \<Longrightarrow> HMessage_ok (bump m)"
  by (simp add: HMessage_ok_def bump_def)

lemma Patch_refines:
  assumes laws: "redis_laws E h z" and inv: "hist_inv h z r runID" and content: "ValidString content"
    and patch: "Patch E r runID i content = (None, r')"
  shows "\<exists>m. view h z r runID i = Some m \<and> hist_inv h z r' runID \<and>
    view h z r' runID = (view h z r runID)(i \<mapsto> bump (m\<lparr> h_Content := content \<rparr>))"
proof -
  obtain m where l: "load E r runID i = Inr m"
    and s: "saveLocked E r runID (bump (m\<lparr> h_Content := content \<rparr>)) = (None, r')"
    using patch by (auto simp: Patch_def split: sum.splits)
  have v: "view h z r runID i = Some m" by (rule load_view [OF laws inv l])
  then have m: "HMessage_ok m" "h_ID m = i" using view_Some [OF inv] by blast+
  have "HMessage_ok (bump (m\<lparr> h_Content := content \<rparr>))"
    by (rule bump_ok) (use m content in \<open>simp add: HMessage_ok_def\<close>)
  from save_refines [OF laws inv v this _ s] m v show ?thesis by (simp add: bump_def)
qed

lemma spec_hide_ok: "HMessage_ok m \<Longrightarrow> HMessage_ok (spec_hide m)"
  unfolding spec_hide_def by (rule bump_ok) (simp add: HMessage_ok_def)

lemma spec_hide_ID [simp]: "h_ID (spec_hide m) = h_ID m"
  by (simp add: spec_hide_def bump_def)

lemma Hide_refines:
  assumes laws: "redis_laws E h z" and inv: "hist_inv h z r runID"
    and hide: "Hide E r runID i = (None, r')"
  shows "\<exists>m. view h z r runID i = Some m \<and> hist_inv h z r' runID \<and>
    view h z r' runID = (view h z r runID)(i \<mapsto> spec_hide m)"
proof -
  obtain m where l: "load E r runID i = Inr m" and s: "saveLocked E r runID (spec_hide m) = (None, r')"
    using hide by (auto simp: Hide_def spec_hide_def split: sum.splits)
  have v: "view h z r runID i = Some m" by (rule load_view [OF laws inv l])
  then have m: "HMessage_ok m" "h_ID m = i" using view_Some [OF inv] by blast+
  from save_refines [OF laws inv v spec_hide_ok [OF m(1)] _ s] m v show ?thesis by simp
qed

text \<open>The interval loop of Fold.\<close>

lemma fold_load_view:
  assumes "redis_laws E h z" "hist_inv h z r runID" "fold_load E r runID is = Inr ms"
  shows "ms = map spec_hide (filter h_Visible (map (the \<circ> view h z r runID) is)) \<and>
    (\<forall>i\<in>set is. \<exists>m. view h z r runID i = Some m \<and> HMessage_ok m \<and> h_ID m = i)"
  using assms(3)
proof (induction "is" arbitrary: ms)
  case (Cons i "is")
  then obtain m ms' where l: "load E r runID i = Inr m" "fold_load E r runID is = Inr ms'"
    "ms = (if h_Visible m then spec_hide m # ms' else ms')"
    by (auto simp: bindR_eq_Inr spec_hide_def)
  have v: "view h z r runID i = Some m" by (rule load_view [OF assms(1,2) l(1)])
  moreover have "HMessage_ok m \<and> h_ID m = i" using view_Some [OF assms(2)] v by blast
  ultimately show ?case using Cons.IH [OF l(2)] l(3) by auto
qed simp

lemma Fold_refines:
  assumes laws: "redis_laws E h z" and inv: "hist_inv h z r runID" and sum: "ValidString summary"
    and fold: "Fold E r runID a b summary = (Inr i, r')"
  defines "lo \<equiv> (if a > b then b else a)" and "hi \<equiv> (if a > b then a else b)"
  shows "hist_inv h z r' runID \<and> view h z r runID a \<noteq> None \<and> view h z r runID b \<noteq> None \<and>
    view h z r runID i = None \<and>
    view h z r' runID = spec_fold (view h z r runID) lo hi i summary \<and>
    (\<forall>runID'. runID' \<noteq> runID \<longrightarrow> view h z r' runID' = view h z r runID')"
proof -
  obtain ma mb where la: "load E r runID a = Inr ma" "load E r runID b = Inr mb"
    using fold by (auto simp: Fold_def split: sum.splits)
  have lohi: "(if a > b then (b, a) else (a, b)) = (lo, hi)" by (simp add: lo_def hi_def)
  obtain ids where ids: "hv_zrange E r (HistoryOrder runID) (LexIncl lo) (LexIncl hi) = Inr ids" "ids \<noteq> []"
    using fold la by (auto simp: Fold_def lohi split: sum.splits if_splits)
  obtain msgs where msgs: "fold_load E r runID ids = Inr msgs"
    using fold la ids by (auto simp: Fold_def lohi split: sum.splits if_splits)
  obtain mid r1 where new: "hv_new_id E r = (mid, r1)" by fastforce
  let ?f = "folded_message mid summary lo hi"
  have i: "i = mid" and exec0: "hv_exec E r1 (map (\<lambda>m. HSet (HistoryMsgs runID) (h_ID m) (HMessage_Marshal m)) msgs @
        [HSet (HistoryMsgs runID) mid (HMessage_Marshal ?f), ZAdd (HistoryOrder runID) mid]) = (None, r')"
    using fold la ids msgs new
    by (auto simp: Fold_def lohi Let_def split: prod.splits option.splits)
  have exec: "hv_exec E r1 (writes runID (msgs @ [?f]) @ map (ZAdd (HistoryOrder runID)) [mid]) = (None, r')"
    using exec0 by (simp add: writes_def folded_message_def)
  have same: "h r1 = h r" "z r1 = z r" "mid \<noteq> []" "ValidString mid" "mid \<notin> z r (HistoryOrder runID)"
    using redis_laws_id [OF laws new] by auto
  have inv1: "hist_inv h z r1 runID" and v1: "view h z r1 = view h z r"
    using inv by (simp_all add: hist_inv_def view_def same fun_eq_iff)
  note zr = redis_laws_zrange [OF laws ids(1)]
  note fl = fold_load_view [OF laws inv msgs]
  have sub: "set ids \<subseteq> z r (HistoryOrder runID)" using zr by auto
  have dist: "distinct ids" using zr by (auto simp: strict_sorted_iff)
  have hid: "map h_ID msgs = filter (\<lambda>i. h_Visible (the (view h z r runID i))) ids"
  proof -
    have "map h_ID (map spec_hide (filter h_Visible (map (the \<circ> view h z r runID) is))) =
        filter (\<lambda>i. h_Visible (the (view h z r runID i))) is"
      if "\<forall>i\<in>set is. \<exists>m. view h z r runID i = Some m \<and> HMessage_ok m \<and> h_ID m = i" for "is"
      using that by (induction "is") auto
    with fl show ?thesis by blast
  qed
  have ok: "\<forall>m\<in>set (msgs @ [?f]). HMessage_ok m"
  proof -
    have va: "view h z r runID a = Some ma" "view h z r runID b = Some mb"
      using la load_view [OF laws inv] by blast+
    then have "ValidString a" "ValidString b"
      using view_Some [OF inv] by (auto simp: HMessage_ok_def)
    then have "HMessage_ok ?f"
      using same(4) sum by (auto simp: HMessage_ok_def folded_message_def tags_wf_def lo_def hi_def
          RoleAssistant_def ValidString_ascii ord_def)
    moreover have "\<forall>m\<in>set msgs. HMessage_ok m" using fl spec_hide_ok by fastforce
    ultimately show ?thesis by simp
  qed
  have mids: "h_ID ` set msgs \<subseteq> set ids" using hid by (metis filter_is_subset list.set_map)
  have dist': "distinct (map h_ID (msgs @ [?f]))"
    using hid dist mids sub same(5) by (auto simp: folded_message_def)
  have sub1: "h_ID ` set (msgs @ [?f]) \<subseteq> z r1 (HistoryOrder runID) \<union> set [mid]"
    "set [mid] \<subseteq> h_ID ` set (msgs @ [?f])"
    using mids sub by (auto simp: folded_message_def same(2))
  note w = writes_view [OF laws inv1 ok dist' exec sub1]
  have look: "map_of (map (\<lambda>m. (h_ID m, m)) msgs) j =
      (if j \<in> set ids \<and> h_Visible (the (view h z r runID j)) then Some (spec_hide (the (view h z r runID j))) else None)" for j
  proof -
    have "map_of (map (\<lambda>m. (h_ID m, m)) (map spec_hide (filter h_Visible (map (the \<circ> view h z r runID) is)))) j =
      (if j \<in> set is \<and> h_Visible (the (view h z r runID j)) then Some (spec_hide (the (view h z r runID j))) else None)"
      if "\<forall>i\<in>set is. \<exists>m. view h z r runID i = Some m \<and> HMessage_ok m \<and> h_ID m = i" for "is"
      using that by (induction "is") auto
    with fl show ?thesis by blast
  qed
  have out: "view h z r runID j = None" if "j \<notin> z r (HistoryOrder runID)" for j
    using that by (simp add: view_def)
  have inz: "j \<in> set ids \<longleftrightarrow> j \<in> z r (HistoryOrder runID) \<and> lo \<le> j \<and> j \<le> hi" for j
    using zr by auto
  have someids: "j \<in> set ids \<Longrightarrow> \<exists>m. view h z r runID j = Some m" for j using fl by blast
  have vr: "view h z r' runID = spec_fold (view h z r runID) lo hi i summary"
  proof (rule ext)
    fix j
    have "view h z r' runID j = (case map_of (map (\<lambda>m. (h_ID m, m)) (msgs @ [?f])) j of
           Some m \<Rightarrow> Some m | None \<Rightarrow> view h z r runID j)" by (simp only: w(2) v1)
    also have "\<dots> = spec_fold (view h z r runID) lo hi i summary j"
    proof (cases "j = mid")
      case True
      have "mid \<notin> set ids" using same(5) sub by blast
      then have "map_of (map (\<lambda>m. (h_ID m, m)) msgs) mid = None" by (simp add: look)
      then show ?thesis using True
        by (simp add: spec_fold_def i map_add_def) (simp add: folded_message_def)
    next
      case False
      then have "map_of (map (\<lambda>m. (h_ID m, m)) (msgs @ [?f])) j = map_of (map (\<lambda>m. (h_ID m, m)) msgs) j"
        by (simp add: map_add_def folded_message_def split: option.splits)
      then show ?thesis using False inz [of j] out [of j] someids [of j]
        by (cases "view h z r runID j") (auto simp: look spec_fold_def i)
    qed
    finally show "view h z r' runID j = spec_fold (view h z r runID) lo hi i summary j" .
  qed
  show ?thesis
    using w(1) vr w(3) la load_view [OF laws inv] out [OF same(5)] by (auto simp: i v1)
qed

text \<open>Render lists exactly the visible messages, in id order.\<close>

lemma visible_messages_map:
  assumes "\<forall>i\<in>set ids. \<exists>m. f i = Some (HMessage_Marshal m) \<and> HMessage_ok m \<and> v i = Some m"
  shows "visible_messages (map f ids) = filter h_Visible (map (the \<circ> v) ids)"
  using assms by (induction ids) (auto simp: HMessage_roundtrip)

lemma Render_refines:
  assumes laws: "redis_laws E h z" and inv: "hist_inv h z r runID" and ren: "Render E r runID = Inr ms"
  shows "\<exists>ids. sorted_wrt (<) ids \<and> set ids = dom (view h z r runID) \<and> ms = spec_render (view h z r runID) ids"
proof -
  obtain ids where ids: "hv_zrange E r (HistoryOrder runID) LexMin LexMax = Inr ids"
    using ren by (auto simp: Render_def split: sum.splits)
  have z: "sorted_wrt (<) ids" "set ids = z r (HistoryOrder runID)"
    using redis_laws_zrange [OF laws ids] by auto
  have each: "\<forall>i\<in>set ids. \<exists>m. h r (HistoryMsgs runID) i = Some (HMessage_Marshal m) \<and> HMessage_ok m \<and>
      view h z r runID i = Some m"
    using inv z(2) unfolding hist_inv_def view_def by (auto simp: HMessage_roundtrip)
  have dom: "set ids = dom (view h z r runID)"
    using each z(2) by (auto simp: view_def split: if_splits)
  have "ms = visible_messages (map (h r (HistoryMsgs runID)) ids)"
  proof (cases "ids = []")
    case True
    then show ?thesis using ren ids by (simp add: Render_def)
  next
    case False
    then obtain vs where "hv_hmget E r (HistoryMsgs runID) ids = Inr vs" "ms = visible_messages vs"
      using ren ids by (auto simp: Render_def split: sum.splits)
    moreover have "vs = map (h r (HistoryMsgs runID)) ids"
      using laws calculation(1) unfolding redis_laws_def by blast
    ultimately show ?thesis by simp
  qed
  then show ?thesis using z(1) dom visible_messages_map [OF each] by (auto simp: spec_render_def)
qed

section \<open>Interfaces\<close>

text \<open>The contract of history.Store as its clients use it: a map from ids to messages that Fold and
  Append update and Render lists.\<close>

locale history_store =
  fixes wf :: "'r \<Rightarrow> string \<Rightarrow> bool"
    and vw :: "'r \<Rightarrow> string \<Rightarrow> hview"
    and append :: "'r \<Rightarrow> string \<Rightarrow> HMessage \<Rightarrow> (hist_error, string) result \<times> 'r"
    and foldm :: "'r \<Rightarrow> string \<Rightarrow> string \<Rightarrow> string \<Rightarrow> string \<Rightarrow> (hist_error, string) result \<times> 'r"
    and render :: "'r \<Rightarrow> string \<Rightarrow> (hist_error, HMessage list) result"
  assumes append_law: "wf r run \<Longrightarrow> HMessage_ok m \<Longrightarrow> append r run m = (Inr i, r') \<Longrightarrow>
        wf r' run \<and> vw r' run = spec_append (vw r run) i m"
    and fold_law: "wf r run \<Longrightarrow> ValidString summary \<Longrightarrow> foldm r run a b summary = (Inr i, r') \<Longrightarrow>
        wf r' run \<and> vw r run a \<noteq> None \<and> vw r run b \<noteq> None \<and> vw r run i = None \<and>
        vw r' run = spec_fold (vw r run) (if a > b then b else a) (if a > b then a else b) i summary"
    and render_law: "wf r run \<Longrightarrow> render r run = Inr ms \<Longrightarrow>
        \<exists>ids. sorted_wrt (<) ids \<and> set ids = dom (vw r run) \<and> ms = spec_render (vw r run) ids"
    and vw_id: "wf r run \<Longrightarrow> vw r run i = Some m \<Longrightarrow> h_ID m = i \<and> HMessage_ok m"
begin

lemma render_visible: "wf r run \<Longrightarrow> render r run = Inr ms \<Longrightarrow>
    set ms = {m. \<exists>i. vw r run i = Some m \<and> h_Visible m}"
  by (drule (1) render_law) (force simp: spec_render_def dom_def)

lemma render_sorted:
  assumes "wf r run" "render r run = Inr ms"
  shows "sorted_wrt (<) (map h_ID ms)"
proof -
  obtain ids where ids: "sorted_wrt (<) ids" "set ids = dom (vw r run)" "ms = spec_render (vw r run) ids"
    using render_law [OF assms] by blast
  have id: "h_ID (the (vw r run i)) = i" if "i \<in> set ids" for i
    using that ids(2) vw_id [OF assms(1)] by (auto simp: dom_def)
  have "map h_ID (spec_render (vw r run) is) = filter (\<lambda>i. h_Visible (the (vw r run i))) is"
    if "set is \<subseteq> set ids" for "is"
    using that id by (induction "is") (auto simp: spec_render_def)
  then have "map h_ID ms = filter (\<lambda>i. h_Visible (the (vw r run i))) ids" by (simp add: ids(3))
  then show ?thesis using ids(1) by (simp add: sorted_wrt_filter)
qed

text \<open>After a fold the rendered messages are the old ones outside the interval and the
  summary.\<close>

lemma fold_render:
  assumes "wf r run" "ValidString summary" "foldm r run a b summary = (Inr i, r')"
    and "render r run = Inr ms" "render r' run = Inr ms'"
  defines "lo \<equiv> (if a > b then b else a)" and "hi \<equiv> (if a > b then a else b)"
  shows "set ms' = insert (folded_message i summary lo hi)
    {m \<in> set ms. \<not> (lo \<le> h_ID m \<and> h_ID m \<le> hi)}"
proof -
  have f: "wf r' run" "vw r run i = None" "vw r' run = spec_fold (vw r run) lo hi i summary"
    using fold_law [OF assms(1-3)] by (simp_all add: lo_def hi_def)
  have inv: "\<not> h_Visible (spec_hide m)" for m by (simp add: spec_hide_def bump_def)
  show ?thesis
    unfolding render_visible [OF f(1) assms(5)] render_visible [OF assms(1,4)] f(3) spec_fold_def
    using f(2) inv vw_id [OF assms(1)]
    by (auto simp: folded_message_def split: if_splits)
qed

end

locale redis_store =
  fixes E :: "'r HistEnv" and h :: "'r \<Rightarrow> hashes" and z :: "'r \<Rightarrow> zsets"
  assumes laws: "redis_laws E h z"

sublocale redis_store \<subseteq> history_store "hist_inv h z" "view h z" "Append E" "Fold E" "Render E"
proof
  show "hist_inv h z r' run \<and> view h z r' run = spec_append (view h z r run) i m"
    if "hist_inv h z r run" "HMessage_ok m" "Append E r run m = (Inr i, r')" for r run m i r'
    using Append_refines [OF laws that] by blast
  show "hist_inv h z r' run \<and> view h z r run a \<noteq> None \<and> view h z r run b \<noteq> None \<and> view h z r run i = None \<and>
      view h z r' run = spec_fold (view h z r run) (if a > b then b else a) (if a > b then a else b) i summary"
    if "hist_inv h z r run" "ValidString summary" "Fold E r run a b summary = (Inr i, r')" for r run summary a b i r'
    using Fold_refines [OF laws that] by blast
  show "\<exists>ids. sorted_wrt (<) ids \<and> set ids = dom (view h z r run) \<and> ms = spec_render (view h z r run) ids"
    if "hist_inv h z r run" "Render E r run = Inr ms" for r run ms
    by (rule Render_refines [OF laws that])
  show "h_ID m = i \<and> HMessage_ok m" if "hist_inv h z r run" "view h z r run i = Some m" for r run i m
    using that(2) view_Some [OF that(1)] by blast
qed

context redis_store
begin

lemmas store_fold_render = fold_render
lemmas store_render_sorted = render_sorted
lemmas store_fold_law = fold_law

end

section \<open>A Redis in memory\<close>

text \<open>The log of the executed commands; an id is a run of zeros longer than every id so far.\<close>

definition log_state :: "hist_cmd list \<Rightarrow> hashes \<times> zsets" where
  "log_state cs = foldl apply_cmd (\<lambda>_ _. None, \<lambda>_. {}) cs"

fun log_ids :: "hist_cmd list \<Rightarrow> string \<Rightarrow> string list" where
  "log_ids [] k = []"
| "log_ids (ZAdd k' m # cs) k = (if k = k' then m # log_ids cs k else log_ids cs k)"
| "log_ids (HSet _ _ _ # cs) k = log_ids cs k"

fun log_len :: "hist_cmd list \<Rightarrow> nat" where
  "log_len [] = 0"
| "log_len (ZAdd k' m # cs) = length m + log_len cs"
| "log_len (HSet _ _ _ # cs) = log_len cs"

fun log_get :: "hist_cmd list \<Rightarrow> string \<Rightarrow> string \<Rightarrow> string option" where
  "log_get [] k f = None"
| "log_get (HSet k' f' v # cs) k f =
     (case log_get cs k f of Some w \<Rightarrow> Some w | None \<Rightarrow> if k = k' \<and> f = f' then Some v else None)"
| "log_get (ZAdd _ _ # cs) k f = log_get cs k f"

definition mem_env :: "hist_cmd list HistEnv" where
  "mem_env = \<lparr> hv_hget = (\<lambda>r k f. Inr (log_get r k f)),
     hv_zrange = (\<lambda>r k lo hi. Inr (sort (remdups (filter (in_lex lo hi) (log_ids r k))))),
     hv_hmget = (\<lambda>r k fs. Inr (map (log_get r k) fs)),
     hv_exec = (\<lambda>r cs. (None, r @ cs)),
     hv_new_id = (\<lambda>r. (replicate (Suc (log_len r)) (CHR ''0''), r)) \<rparr>"

definition mem_h :: "hist_cmd list \<Rightarrow> hashes" where "mem_h r k f = log_get r k f"
definition mem_z :: "hist_cmd list \<Rightarrow> zsets" where "mem_z r k = set (log_ids r k)"

lemma log_get_append: "log_get (r @ cs) k f = (case log_get cs k f of Some w \<Rightarrow> Some w | None \<Rightarrow> log_get r k f)"
  by (induction r k f rule: log_get.induct) (auto split: option.splits)

lemma log_ids_append: "log_ids (r @ cs) k = log_ids r k @ log_ids cs k"
  by (induction r k rule: log_ids.induct) auto

lemma mem_apply: "foldl apply_cmd (mem_h r, mem_z r) cs = (mem_h (r @ cs), mem_z (r @ cs))"
proof (induction cs arbitrary: r)
  case (Cons c cs)
  have "apply_cmd (mem_h r, mem_z r) c = (mem_h (r @ [c]), mem_z (r @ [c]))"
    by (cases c) (auto simp: mem_h_def mem_z_def log_get_append log_ids_append fun_eq_iff)
  then show ?case using Cons.IH [of "r @ [c]"] by simp
qed simp

lemma log_len_bound: "m \<in> set (log_ids r k) \<Longrightarrow> length m \<le> log_len r"
  by (induction r k rule: log_ids.induct) (auto split: if_splits)

lemma mem_fresh: "replicate (Suc (log_len r)) c \<notin> set (log_ids r k)"
  using log_len_bound by fastforce

lemma mem_laws: "redis_laws mem_env mem_h mem_z"
proof -
  have "ValidString (replicate n (CHR ''0''))" for n
    by (rule ValidString_ascii) (simp add: ascii_def ord_def)
  moreover have "sorted_wrt (<) (sort (remdups xs))" for xs :: "string list"
    by (simp add: strict_sorted_iff)
  ultimately show ?thesis
    using mem_fresh unfolding redis_laws_def mem_env_def
    by (auto simp: mem_apply mem_h_def mem_z_def fun_eq_iff simp del: replicate_Suc in_lex.simps)
qed

interpretation mem: redis_store mem_env mem_h mem_z
  by unfold_locales (rule mem_laws)

section \<open>Properties\<close>

text \<open>C12: The Redis history store implements a map of messages. Append puts the message at its id,
  visible and with a version; Patch and Hide rewrite exactly the named message and raise its version; Fold hides
  exactly the visible messages of the interval and adds the visible summary under a fresh id; all keep the
  store well formed; Render returns exactly the visible messages in id order.\<close>

theorem RedisStore_refines:
  assumes laws: "redis_laws E h z" and inv: "hist_inv h z r runID"
  shows "(HMessage_ok m \<longrightarrow> Append E r runID m = (Inr i, r') \<longrightarrow>
      hist_inv h z r' runID \<and> view h z r' runID = spec_append (view h z r runID) i m) \<and>
    (ValidString content \<longrightarrow> Patch E r runID i content = (None, r') \<longrightarrow>
      (\<exists>m. view h z r runID i = Some m \<and> hist_inv h z r' runID \<and>
        view h z r' runID = (view h z r runID)(i \<mapsto> bump (m\<lparr> h_Content := content \<rparr>)))) \<and>
    (Hide E r runID i = (None, r') \<longrightarrow>
      (\<exists>m. view h z r runID i = Some m \<and> hist_inv h z r' runID \<and>
        view h z r' runID = (view h z r runID)(i \<mapsto> bump (m\<lparr> h_Visible := False \<rparr>)))) \<and>
    (ValidString summary \<longrightarrow> Fold E r runID a b summary = (Inr i, r') \<longrightarrow>
      hist_inv h z r' runID \<and> view h z r runID i = None \<and>
        view h z r' runID = spec_fold (view h z r runID) (if a > b then b else a) (if a > b then a else b) i summary) \<and>
    (Render E r runID = Inr ms \<longrightarrow>
      (\<exists>ids. sorted_wrt (<) ids \<and> set ids = dom (view h z r runID) \<and>
        ms = filter h_Visible (map (the \<circ> view h z r runID) ids)))"
  using Append_refines [OF laws inv, of m i r'] Patch_refines [OF laws inv, of content i r']
    Hide_refines [OF laws inv, of i r'] Fold_refines [OF laws inv, of summary a b i r']
    Render_refines [OF laws inv, of ms]
  unfolding spec_hide_def spec_render_def by blast

definition hello_message :: HMessage where
  "hello_message = \<lparr> h_ID = [], h_Role = RoleUser, h_Content = ''hi'', h_Visible = False, h_Version = 0,
     h_ParentID = [], h_Tags = [] \<rparr>"

theorem RedisStore_refines_witness:
  "\<exists>i r'. Append mem_env [] ''run'' hello_message = (Inr i, r') \<and> hist_inv mem_h mem_z r' ''run'' \<and>
     view mem_h mem_z r' ''run'' = spec_append (view mem_h mem_z [] ''run'') i hello_message"
proof -
  have inv: "hist_inv mem_h mem_z [] ''run''" by (simp add: hist_inv_def mem_h_def mem_z_def fun_eq_iff)
  have ok: "HMessage_ok hello_message"
    by (simp add: HMessage_ok_def hello_message_def RoleUser_def tags_wf_def ValidString_ascii ord_def)
  obtain i r' where app: "Append mem_env [] ''run'' hello_message = (Inr i, r')"
    by (simp add: Append_def hello_message_def mem_env_def)
  show ?thesis using app ok RedisStore_refines [OF mem_laws inv, of hello_message i r'] by blast
qed

text \<open>C30: Compaction of a history: after a successful Fold the rendered conversation consists of the
  messages outside the folded interval, unchanged, and the summary, and it is still strictly ordered by
  id.\<close>

theorem Fold_then_Render:
  assumes "redis_laws E h z" "hist_inv h z r runID" "ValidString summary"
    and "Fold E r runID a b summary = (Inr i, r')" "Render E r runID = Inr ms" "Render E r' runID = Inr ms'"
  shows "set ms' = insert (folded_message i summary (if a > b then b else a) (if a > b then a else b))
       {m \<in> set ms. \<not> ((if a > b then b else a) \<le> h_ID m \<and> h_ID m \<le> (if a > b then a else b))} \<and>
     sorted_wrt (<) (map h_ID ms')"
  using redis_store.store_fold_render [OF redis_store.intro [OF assms(1)] assms(2-6)]
    redis_store.store_render_sorted [OF redis_store.intro [OF assms(1)] _ assms(6)]
    redis_store.store_fold_law [OF redis_store.intro [OF assms(1)] assms(2-4)] by blast

definition stored :: "string \<Rightarrow> HMessage" where
  "stored i = hello_message\<lparr> h_ID := i, h_Version := 1, h_Visible := True \<rparr>"

definition two_messages :: "hist_cmd list" where
  "two_messages =
     [HSet (HistoryMsgs ''run'') ''0'' (HMessage_Marshal (stored ''0'')), ZAdd (HistoryOrder ''run'') ''0'',
      HSet (HistoryMsgs ''run'') ''00'' (HMessage_Marshal (stored ''00'')), ZAdd (HistoryOrder ''run'') ''00'']"

lemma stored_ok: "ValidString i \<Longrightarrow> HMessage_ok (stored i)"
  by (simp add: stored_def HMessage_ok_def hello_message_def RoleUser_def tags_wf_def ValidString_ascii ord_def)

theorem Fold_then_Render_witness:
  "\<exists>i r' ms ms'. Fold mem_env two_messages ''run'' ''0'' ''0'' ''sum'' = (Inr i, r') \<and>
     Render mem_env two_messages ''run'' = Inr ms \<and> Render mem_env r' ''run'' = Inr ms' \<and>
     set ms' = insert (folded_message i ''sum'' ''0'' ''0'')
       {m \<in> set ms. \<not> (''0'' \<le> h_ID m \<and> h_ID m \<le> ''0'')} \<and> sorted_wrt (<) (map h_ID ms')"
proof -
  have ok: "HMessage_ok (stored ''0'')" "HMessage_ok (stored ''00'')"
    by (simp_all add: stored_ok ValidString_ascii ord_def)
  have inv: "hist_inv mem_h mem_z two_messages ''run''"
    using ok by (auto simp: hist_inv_def two_messages_def mem_h_def mem_z_def dom_def stored_def
        split: option.splits)
  have l: "load mem_env two_messages ''run'' ''0'' = Inr (stored ''0'')"
    by (simp add: load_def mem_env_def two_messages_def HMessage_roundtrip ok)
  have r: "Render mem_env x ''run'' = Inr (the (case Render mem_env x ''run'' of Inr y \<Rightarrow> Some y | Inl _ \<Rightarrow> None))" for x
    by (simp add: Render_def mem_env_def)
  have f: "\<exists>i r'. Fold mem_env two_messages ''run'' ''0'' ''0'' ''sum'' = (Inr i, r')"
    using l by (simp add: Fold_def mem_env_def two_messages_def)
  then obtain i r' where f: "Fold mem_env two_messages ''run'' ''0'' ''0'' ''sum'' = (Inr i, r')" by blast
  have "ValidString ''sum''" by (simp add: ValidString_ascii ord_def)
  from Fold_then_Render [OF mem_laws inv this f r r] show ?thesis using f r by (auto split: if_splits)
qed

end
