(* ===== verification/Tools.thy ===== *)
theory Tools
  imports Hooks Pool History
begin

text \<open>
  internal/tool: the registry (tool.go), the five built-in tools (bash.go, fs.go, http.go) and the runner
  that executes a tool call in a sandbox between its hooks (runner.go). The sandbox driver, the hook
  client, the HTTP client and net/url are parameters; durations are in nanoseconds.
\<close>

section \<open>Values\<close>

text \<open>int64 arithmetic: the products and sums of the code wrap around.\<close>

definition wrap64 :: "int \<Rightarrow> int" where "wrap64 i = sint (word_of_int i :: 64 word)"

definition millis :: "int \<Rightarrow> int" where "millis ms = wrap64 (ms * 1000000)"

text \<open>A Go map with string keys as its entries in key order.\<close>

fun map_put :: "string \<Rightarrow> 'v \<Rightarrow> (string \<times> 'v) list \<Rightarrow> (string \<times> 'v) list" where
  "map_put k v [] = [(k, v)]"
| "map_put k v ((k', v') # r) =
     (if k = k' then (k, v) # r else if k < k' then (k, v) # (k', v') # r else (k', v') # map_put k v r)"

definition go_entries :: "(string \<times> 'v) list \<Rightarrow> (string \<times> 'v) list" where
  "go_entries kvs = foldl (\<lambda>m (k, v). map_put k v m) [] kvs"

text \<open>The dynamic values of a metadata map: what the tools put in, and what a decoded document holds.\<close>

datatype meta = MInt int | MInt64 int | MBool bool | MStr string | MAny json

text \<open>What encoding/json writes for a decoded any: objects as maps, numbers as float64 (F rewrites a
  number literal).\<close>

fun any_json :: "(string \<Rightarrow> string) \<Rightarrow> json \<Rightarrow> json" where
  "any_json F (JNum l) = JNum (F l)"
| "any_json F (JArr vs) = JArr (map (any_json F) vs)"
| "any_json F (JObj kvs) = JObj (go_entries (map (\<lambda>(k, v). (k, any_json F v)) kvs))"
| "any_json F j = j"

fun meta_json :: "(string \<Rightarrow> string) \<Rightarrow> meta \<Rightarrow> json" where
  "meta_json F (MInt i) = enc_int i"
| "meta_json F (MInt64 i) = enc_int i"
| "meta_json F (MBool b) = JBool b"
| "meta_json F (MStr s) = JStr s"
| "meta_json F (MAny j) = any_json F j"

type_synonym metadata = "(string \<times> meta) list"

definition metadata_json :: "(string \<Rightarrow> string) \<Rightarrow> metadata option \<Rightarrow> json" where
  "metadata_json F m = (case m of None \<Rightarrow> JNull | Some kvs \<Rightarrow> JObj (map (\<lambda>(k, v). (k, meta_json F v)) kvs))"

record Result =
  rs_Content :: string
  rs_IsError :: bool
  rs_Metadata :: "metadata option"

definition failed :: "string \<Rightarrow> Result" where
  "failed msg = \<lparr> rs_Content = msg, rs_IsError = True, rs_Metadata = None \<rparr>"

record Descriptor =
  ds_Name :: string
  ds_Description :: string
  ds_Schema :: json

text \<open>Texts of encoding/json errors, the float64 rewriting of number literals, and the Unicode tables.\<close>

record ToolEnv =
  tv_U :: Unicode
  tv_json_err :: "string \<Rightarrow> string"
  tv_float :: "string \<Rightarrow> string"

section \<open>Registry\<close>

record 'w Tool =
  tl_Descriptor :: Descriptor
  tl_Invoke :: "'w \<Rightarrow> 'w Sandbox \<Rightarrow> string \<Rightarrow> (string, Result) result \<times> 'w"

type_synonym 'w Registry = "(string \<times> 'w Tool) list"

definition NewRegistry :: "'w Registry" where "NewRegistry = []"

definition Register :: "Unicode \<Rightarrow> 'w Registry \<Rightarrow> 'w Tool \<Rightarrow> string option \<times> 'w Registry" where
  "Register U r t =
     (let name = ds_Name (tl_Descriptor t) in
      if name = [] then (Some ''tool: empty name'', r)
      else if name \<in> fst ` set r then (Some (''tool: duplicate '' @ Quote U name), r)
      else (None, r @ [(name, t)]))"

definition Registry_Get :: "'w Registry \<Rightarrow> string \<Rightarrow> 'w Tool option" where
  "Registry_Get r name = map_of r name"

definition Registry_List :: "'w Registry \<Rightarrow> Descriptor list" where
  "Registry_List r = sort_key ds_Name (map (tl_Descriptor \<circ> snd) r)"

section \<open>bash\<close>

definition bashSchema :: json where
  "bashSchema = JObj [
     (''type'', JStr ''object''),
     (''properties'', JObj [
        (''command'', JObj [(''type'', JStr ''string''),
           (''description'', JStr (''shell command, run via '' @ [CHR 0x27] @ ''sh -c'' @ [CHR 0x27]))]),
        (''timeout_ms'', JObj [(''type'', JStr ''integer''), (''minimum'', JNum ''1''), (''maximum'', JNum ''60000''),
           (''description'', JStr ''max execution time, default 15000'')])]),
     (''required'', JArr [JStr ''command''])]"

definition bash_descriptor :: Descriptor where
  "bash_descriptor = \<lparr> ds_Name = ''bash'',
     ds_Description = ''Execute a shell command inside the run sandbox (alpine + sh). Sandbox has NO network access. Stdout/stderr are truncated at 64KiB.'',
     ds_Schema = bashSchema \<rparr>"

definition bash_args :: "json \<Rightarrow> (string \<times> int) option" where
  "bash_args j = Option.bind (members j) (\<lambda>m.
     Option.bind (field dec_str m ''command'' []) (\<lambda>c.
     Option.bind (field dec_int m ''timeout_ms'' 0) (\<lambda>t. Some (c, t))))"

definition bash_output :: "ExecResult \<Rightarrow> string" where
  "bash_output res =
     xs_Stdout res @
     (if xs_Stderr res \<noteq> [] then
        (if xs_Stdout res \<noteq> [] then [CHR 0x0A] @ ''--- stderr ---'' @ [CHR 0x0A] else []) @ xs_Stderr res
      else [])"

definition Bash_Invoke :: "ToolEnv \<Rightarrow> 'w \<Rightarrow> 'w Sandbox \<Rightarrow> string \<Rightarrow> (string, Result) result \<times> 'w" where
  "Bash_Invoke V w sb args =
     (case Option.bind (json_parse args) bash_args of
        None \<Rightarrow> (Inl (''bad args: '' @ tv_json_err V args), w)
      | Some (command, ms) \<Rightarrow>
          if command = [] then (Inl ''command is required'', w)
          else
            (let timeout = (if millis ms \<le> 0 then 15 * second else millis ms) in
             case sb_Exec sb w (exec_req [''sh'', ''-c'', command]\<lparr> xr_Timeout := timeout \<rparr>) of
               ((res, Some e), w1) \<Rightarrow> (Inr (failed e), w1)
             | ((res, None), w1) \<Rightarrow>
                 (Inr \<lparr> rs_Content = bash_output res, rs_IsError = (xs_ExitCode res \<noteq> 0),
                    rs_Metadata = Some [(''elapsed_ms'', MInt64 (xs_Elapsed res div 1000000)),
                      (''exit_code'', MInt (xs_ExitCode res)), (''truncated'', MBool (xs_Truncated res))] \<rparr>, w1)))"

definition BashTool :: "ToolEnv \<Rightarrow> 'w Tool" where
  "BashTool V = \<lparr> tl_Descriptor = bash_descriptor, tl_Invoke = Bash_Invoke V \<rparr>"

section \<open>File tools\<close>

definition safePath :: "Unicode \<Rightarrow> string \<Rightarrow> string \<Rightarrow> (string, string) result" where
  "safePath U root p =
     (if p = [] \<or> p = ''.'' then Inr root
      else if HasPrefix p slash then
        (let cleaned = path_Clean p in
         if cleaned \<noteq> root \<and> \<not> HasPrefix cleaned (root @ slash)
         then Inl (''path '' @ Quote U p @ '' is outside workspace '' @ Quote U root) else Inr cleaned)
      else
        (let cleaned = path_Clean (path_Join [root, p]) in
         if cleaned \<noteq> root \<and> \<not> HasPrefix cleaned (root @ slash)
         then Inl (''path '' @ Quote U p @ '' escapes workspace'') else Inr cleaned))"

definition fsReadSchema :: json where
  "fsReadSchema = JObj [
     (''type'', JStr ''object''),
     (''properties'', JObj [
        (''path'', JObj [(''type'', JStr ''string''),
           (''description'', JStr ''path relative to /workspace, or absolute under /workspace'')]),
        (''max_bytes'', JObj [(''type'', JStr ''integer''), (''minimum'', JNum ''1''), (''maximum'', JNum ''1048576''),
           (''description'', JStr ''default 65536'')])]),
     (''required'', JArr [JStr ''path''])]"

definition fs_read_descriptor :: Descriptor where
  "fs_read_descriptor = \<lparr> ds_Name = ''fs_read'',
     ds_Description = ''Read a file from the run workspace. Path must stay inside /workspace. Capped at max_bytes (default 64KiB).'',
     ds_Schema = fsReadSchema \<rparr>"

definition fs_read_args :: "json \<Rightarrow> (string \<times> int) option" where
  "fs_read_args j = Option.bind (members j) (\<lambda>m.
     Option.bind (field dec_str m ''path'' []) (\<lambda>p.
     Option.bind (field dec_int m ''max_bytes'' 0) (\<lambda>n. Some (p, n))))"

text \<open>The result of a command that ended with a non-zero code.\<close>

definition exit_failure :: "ExecResult \<Rightarrow> string \<Rightarrow> Result" where
  "exit_failure res p = \<lparr> rs_Content = xs_Stderr res, rs_IsError = True,
     rs_Metadata = Some [(''exit_code'', MInt (xs_ExitCode res)), (''path'', MStr p)] \<rparr>"

definition FsRead_Invoke :: "ToolEnv \<Rightarrow> 'w \<Rightarrow> 'w Sandbox \<Rightarrow> string \<Rightarrow> (string, Result) result \<times> 'w" where
  "FsRead_Invoke V w sb args =
     (case Option.bind (json_parse args) fs_read_args of
        None \<Rightarrow> (Inl (''bad args: '' @ tv_json_err V args), w)
      | Some (path, mb) \<Rightarrow>
          if path = [] then (Inl ''path required'', w)
          else (case safePath (tv_U V) (sb_WorkspaceContainer sb) path of
              Inl e \<Rightarrow> (Inr (failed e), w)
            | Inr p \<Rightarrow>
                (let n = (if mb \<le> 0 then 64 * 1024 else mb) in
                 case sb_Exec sb w (exec_req [''sh'', ''-c'', ''head -c '' @ Itoa n @ '' '' @ Quote (tv_U V) p]
                     \<lparr> xr_MaxOut := wrap64 (n + 4096) \<rparr>) of
                   ((res, Some e), w1) \<Rightarrow> (Inr (failed e), w1)
                 | ((res, None), w1) \<Rightarrow>
                     if xs_ExitCode res \<noteq> 0 then (Inr (exit_failure res p), w1)
                     else (Inr \<lparr> rs_Content = xs_Stdout res, rs_IsError = False,
                       rs_Metadata = Some [(''bytes'', MInt (int (length (xs_Stdout res)))), (''path'', MStr p),
                         (''truncated'', MBool (xs_Truncated res))] \<rparr>, w1))))"

definition fsWriteSchema :: json where
  "fsWriteSchema = JObj [
     (''type'', JStr ''object''),
     (''properties'', JObj [
        (''path'', JObj [(''type'', JStr ''string'')]),
        (''content'', JObj [(''type'', JStr ''string'')]),
        (''append'', JObj [(''type'', JStr ''boolean''), (''default'', JBool False)])]),
     (''required'', JArr [JStr ''path'', JStr ''content''])]"

definition fs_write_descriptor :: Descriptor where
  "fs_write_descriptor = \<lparr> ds_Name = ''fs_write'',
     ds_Description = ''Write a text file inside /workspace. Default mode is overwrite. Parent dirs are created automatically.'',
     ds_Schema = fsWriteSchema \<rparr>"

definition fs_write_args :: "json \<Rightarrow> (string \<times> string \<times> bool) option" where
  "fs_write_args j = Option.bind (members j) (\<lambda>m.
     Option.bind (field dec_str m ''path'' []) (\<lambda>p.
     Option.bind (field dec_str m ''content'' []) (\<lambda>c.
     Option.bind (field dec_bool m ''append'' False) (\<lambda>a. Some (p, c, a)))))"

definition fs_write_cmd :: "Unicode \<Rightarrow> string \<Rightarrow> bool \<Rightarrow> string" where
  "fs_write_cmd U p app =
     ''mkdir -p '' @ Quote U (path_Dir p) @ '' && cat '' @ (if app then ''>>'' else ''>'') @ '' '' @ Quote U p"

definition FsWrite_Invoke :: "ToolEnv \<Rightarrow> 'w \<Rightarrow> 'w Sandbox \<Rightarrow> string \<Rightarrow> (string, Result) result \<times> 'w" where
  "FsWrite_Invoke V w sb args =
     (case Option.bind (json_parse args) fs_write_args of
        None \<Rightarrow> (Inl (''bad args: '' @ tv_json_err V args), w)
      | Some (path, content, app) \<Rightarrow>
          if path = [] then (Inl ''path required'', w)
          else (case safePath (tv_U V) (sb_WorkspaceContainer sb) path of
              Inl e \<Rightarrow> (Inr (failed e), w)
            | Inr p \<Rightarrow>
                (case sb_Exec sb w (exec_req [''sh'', ''-c'', fs_write_cmd (tv_U V) p app]\<lparr> xr_Stdin := content \<rparr>) of
                   ((res, Some e), w1) \<Rightarrow> (Inr (failed e), w1)
                 | ((res, None), w1) \<Rightarrow>
                     if xs_ExitCode res \<noteq> 0 then (Inr (exit_failure res p), w1)
                     else (Inr \<lparr> rs_Content = ''wrote '' @ Itoa (int (length content)) @ '' bytes to '' @ p, rs_IsError = False,
                       rs_Metadata = Some [(''appended'', MBool app), (''bytes'', MInt (int (length content))),
                         (''path'', MStr p)] \<rparr>, w1))))"

definition fsListSchema :: json where
  "fsListSchema = JObj [
     (''type'', JStr ''object''),
     (''properties'', JObj [(''path'', JObj [(''type'', JStr ''string''), (''default'', JStr ''.'')])])]"

definition fs_list_descriptor :: Descriptor where
  "fs_list_descriptor = \<lparr> ds_Name = ''fs_list'',
     ds_Description = ''List entries in a workspace directory (ls -la equivalent). Default path is workspace root.'',
     ds_Schema = fsListSchema \<rparr>"

text \<open>The arguments of fs_list are optional and a decoding error is ignored.\<close>

definition fs_list_path :: "string \<Rightarrow> string" where
  "fs_list_path args = (let p = lenient_str (obj_members (json_parse args)) ''path'' in if p = [] then ''.'' else p)"

definition FsList_Invoke :: "ToolEnv \<Rightarrow> 'w \<Rightarrow> 'w Sandbox \<Rightarrow> string \<Rightarrow> (string, Result) result \<times> 'w" where
  "FsList_Invoke V w sb args =
     (case safePath (tv_U V) (sb_WorkspaceContainer sb) (fs_list_path args) of
        Inl e \<Rightarrow> (Inr (failed e), w)
      | Inr p \<Rightarrow>
          (case sb_Exec sb w (exec_req [''ls'', ''-la'', p]) of
             ((res, Some e), w1) \<Rightarrow> (Inr (failed e), w1)
           | ((res, None), w1) \<Rightarrow>
               if xs_ExitCode res \<noteq> 0 then (Inr (exit_failure res p), w1)
               else (Inr \<lparr> rs_Content = xs_Stdout res, rs_IsError = False, rs_Metadata = Some [(''path'', MStr p)] \<rparr>, w1)))"

definition FsReadTool :: "ToolEnv \<Rightarrow> 'w Tool" where
  "FsReadTool V = \<lparr> tl_Descriptor = fs_read_descriptor, tl_Invoke = FsRead_Invoke V \<rparr>"
definition FsWriteTool :: "ToolEnv \<Rightarrow> 'w Tool" where
  "FsWriteTool V = \<lparr> tl_Descriptor = fs_write_descriptor, tl_Invoke = FsWrite_Invoke V \<rparr>"
definition FsListTool :: "ToolEnv \<Rightarrow> 'w Tool" where
  "FsListTool V = \<lparr> tl_Descriptor = fs_list_descriptor, tl_Invoke = FsList_Invoke V \<rparr>"

section \<open>http_fetch\<close>

definition httpFetchSchema :: json where
  "httpFetchSchema = JObj [
     (''type'', JStr ''object''),
     (''properties'', JObj [
        (''url'', JObj [(''type'', JStr ''string''), (''description'', JStr ''http(s) URL'')]),
        (''method'', JObj [(''type'', JStr ''string''), (''enum'', JArr [JStr ''GET'', JStr ''HEAD'', JStr ''POST'']),
           (''default'', JStr ''GET'')]),
        (''headers'', JObj [(''type'', JStr ''object''), (''additionalProperties'', JObj [(''type'', JStr ''string'')])]),
        (''body'', JObj [(''type'', JStr ''string''), (''description'', JStr ''only used when method=POST'')]),
        (''timeout_ms'', JObj [(''type'', JStr ''integer''), (''minimum'', JNum ''1''), (''maximum'', JNum ''30000''),
           (''default'', JNum ''10000'')])]),
     (''required'', JArr [JStr ''url''])]"

definition http_fetch_descriptor :: Descriptor where
  "http_fetch_descriptor = \<lparr> ds_Name = ''http_fetch'',
     ds_Description = ''Fetch an HTTP(S) URL using the worker'' @ [CHR 0x27] @ ''s host network. '' @
       ''Sandbox has no network of its own, so this is the only way for an Agent to reach the internet. '' @
       ''Body is capped at MaxBytes (default 1MiB) and may be truncated.'',
     ds_Schema = httpFetchSchema \<rparr>"

record HttpArgs =
  ha_URL :: string
  ha_Method :: string
  ha_Headers :: tags
  ha_Body :: string
  ha_TimeoutMS :: int

definition http_args :: "json \<Rightarrow> HttpArgs option" where
  "http_args j = Option.bind (members j) (\<lambda>m.
     Option.bind (field dec_str m ''url'' []) (\<lambda>u.
     Option.bind (field dec_str m ''method'' []) (\<lambda>me.
     Option.bind (field dec_tags m ''headers'' []) (\<lambda>h.
     Option.bind (field dec_str m ''body'' []) (\<lambda>b.
     Option.bind (field dec_int m ''timeout_ms'' 0) (\<lambda>t.
     Some \<lparr> ha_URL = u, ha_Method = me, ha_Headers = h, ha_Body = b, ha_TimeoutMS = t \<rparr>))))))"

text \<open>A response: its status, content type and the body, or the error that reading the body meets.\<close>

record HttpResponse =
  hs_Status :: int
  hs_ContentType :: string
  hs_Body :: "(string, string) result"

record 'w HTTPFetchTool =
  hf_AllowList :: "string list"
  hf_MaxBytes :: int
  hf_parse :: "string \<Rightarrow> (string, string \<times> string) result"
  hf_do :: "'w \<Rightarrow> string \<Rightarrow> string \<Rightarrow> tags \<Rightarrow> string \<Rightarrow> int \<Rightarrow> (string, HttpResponse) result \<times> 'w"

definition host_matches :: "Unicode \<Rightarrow> string \<Rightarrow> string \<Rightarrow> bool" where
  "host_matches U h a0 =
     (let a = ToLower (uc_lower U) a0 in
      a = h \<or> (HasPrefix a ''.'' \<and> (h = drop 1 a \<or> HasSuffix h a)))"

definition allowedHost :: "Unicode \<Rightarrow> string list \<Rightarrow> string \<Rightarrow> bool" where
  "allowedHost U allow host =
     (allow = [] \<or> list_ex (host_matches U (ToLower (uc_lower U) (hd (SplitN host '':'' 2)))) allow)"

definition HTTPFetch_Invoke :: "ToolEnv \<Rightarrow> 'w HTTPFetchTool \<Rightarrow> 'w \<Rightarrow> 'w Sandbox \<Rightarrow> string \<Rightarrow> (string, Result) result \<times> 'w" where
  "HTTPFetch_Invoke V t w sb args =
     (case Option.bind (json_parse args) http_args of
        None \<Rightarrow> (Inl (''bad args: '' @ tv_json_err V args), w)
      | Some a \<Rightarrow>
          if ha_URL a = [] then (Inl ''url required'', w)
          else
            (let meth = (if ha_Method a = [] then ''GET'' else ha_Method a) in
             case hf_parse t (ha_URL a) of
               Inl e \<Rightarrow> (Inr (failed e), w)
             | Inr (scheme, host) \<Rightarrow>
                 if scheme \<noteq> ''http'' \<and> scheme \<noteq> ''https'' then (Inr (failed ''only http(s) supported''), w)
                 else if \<not> allowedHost (tv_U V) (hf_AllowList t) host
                 then (Inr (failed (''host '' @ Quote (tv_U V) host @ '' not in allowlist'')), w)
                 else
                   (let timeout = (if millis (ha_TimeoutMS a) \<le> 0 then 10 * second else millis (ha_TimeoutMS a)) in
                    case hf_do t w meth (ha_URL a) (ha_Headers a) (ha_Body a) timeout of
                      (Inl e, w1) \<Rightarrow> (Inr (failed e), w1)
                    | (Inr resp, w1) \<Rightarrow>
                        (let maxN = (if hf_MaxBytes t \<le> 0 then 1 * 1024 * 1024 else hf_MaxBytes t) in
                         case hs_Body resp of
                           Inl e \<Rightarrow> (Inr (failed e), w1)
                         | Inr body \<Rightarrow>
                             (let buf = take (nat (wrap64 (maxN + 1))) body;
                                  truncated = (int (length buf) > maxN);
                                  out = (if truncated then take (nat maxN) buf else buf)
                              in (Inr \<lparr> rs_Content = out, rs_IsError = (hs_Status resp \<ge> 400),
                                    rs_Metadata = Some [(''bytes'', MInt (int (length out))),
                                      (''content_type'', MStr (hs_ContentType resp)), (''status'', MInt (hs_Status resp)),
                                      (''truncated'', MBool truncated)] \<rparr>, w1))))))"

definition HTTPFetch :: "ToolEnv \<Rightarrow> 'w HTTPFetchTool \<Rightarrow> 'w Tool" where
  "HTTPFetch V t = \<lparr> tl_Descriptor = http_fetch_descriptor, tl_Invoke = HTTPFetch_Invoke V t \<rparr>"

definition Builtins :: "ToolEnv \<Rightarrow> 'w HTTPFetchTool \<Rightarrow> 'w Registry" where
  "Builtins V t = foldl (\<lambda>r tl. snd (Register (tv_U V) r tl)) NewRegistry
     [BashTool V, FsReadTool V, FsWriteTool V, FsListTool V, HTTPFetch V t]"

section \<open>Runner\<close>

type_synonym 'w hook_client = "'w \<Rightarrow> HookRequest \<Rightarrow> (string, HookResponse) result \<times> 'w"

text \<open>A nil registry, driver or hook client is None. deadline starts the context's timeout; elapsed reads the
  milliseconds since the call began; publish tells a cancelled context from other errors.\<close>

record 'w ToolRunner =
  tn_Registry :: "'w Registry option"
  tn_Driver :: "'w Driver option"
  tn_HardTimeout :: int
  tn_HookClient :: "'w hook_client option"
  tn_HookFailClosed :: bool
  tn_deadline :: "'w \<Rightarrow> int \<Rightarrow> 'w"
  tn_elapsed :: "'w \<Rightarrow> int \<times> 'w"
  tn_publish :: "'w \<Rightarrow> string \<Rightarrow> ToolResultEvent \<Rightarrow> (string \<times> bool) option \<times> 'w"

definition tool_timeout :: "int \<Rightarrow> int \<Rightarrow> int" where
  "tool_timeout hard0 timeoutMS =
     (let hard = (if hard0 \<le> 0 then 60 * second else hard0) in
      if timeoutMS > 0 \<and> millis timeoutMS < hard then millis timeoutMS else hard)"

text \<open>json.Marshal of a map; a raw message that is not JSON makes it fail, and the error is ignored.\<close>

definition pre_payload :: "string \<Rightarrow> string \<Rightarrow> string \<Rightarrow> string" where
  "pre_payload callID toolName args =
     (case json_parse args of
        None \<Rightarrow> []
      | Some j \<Rightarrow> Marshal (JObj [(''args_json'', j), (''call_id'', JStr callID), (''tool'', JStr toolName)]))"

text \<open>The outcome of the pre-tool hook: the arguments to use, or a denial with its reason.\<close>

datatype pre_outcome = UseArgs string | Denied string

definition patched_args :: "string \<Rightarrow> string option" where
  "patched_args payload =
     (case Option.bind (json_parse payload) members of
        None \<Rightarrow> None
      | Some m \<Rightarrow> map_option Marshal (lenient_raw m ''args_json''))"

definition executePreToolHook ::
    "'w ToolRunner \<Rightarrow> 'w \<Rightarrow> string \<Rightarrow> string \<Rightarrow> string \<Rightarrow> string \<Rightarrow> (string, pre_outcome) result \<times> 'w" where
  "executePreToolHook r w callID traceID toolName args =
     (case tn_HookClient r of
        None \<Rightarrow> (Inr (UseArgs args), w)
      | Some h \<Rightarrow>
          (case h w \<lparr> hr_Event = EventPreToolUse, hr_RunID = [], hr_TraceID = traceID,
                hr_PayloadJSON = pre_payload callID toolName args \<rparr> of
             (Inl e, w1) \<Rightarrow> (if tn_HookFailClosed r then Inl e else Inr (UseArgs args), w1)
           | (Inr resp, w1) \<Rightarrow>
               (if \<not> hp_Allowed resp then Inr (Denied (hp_Reason resp))
                else if hp_PayloadJSON resp = [] then Inr (UseArgs args)
                else (case patched_args (hp_PayloadJSON resp) of
                    Some a \<Rightarrow> Inr (UseArgs a) | None \<Rightarrow> Inr (UseArgs args)), w1)))"

definition post_payload :: "ToolEnv \<Rightarrow> string \<Rightarrow> string \<Rightarrow> Result \<Rightarrow> string" where
  "post_payload V callID toolName res =
     Marshal (JObj [(''call_id'', JStr callID), (''content'', JStr (rs_Content res)), (''is_error'', JBool (rs_IsError res)),
       (''metadata'', metadata_json (tv_float V) (rs_Metadata res)), (''tool'', JStr toolName)])"

text \<open>A decoded metadata map holds values of encoding/json: a number in it is a float64, never an int.\<close>

definition dec_metadata :: "json \<Rightarrow> metadata option option" where
  "dec_metadata j = (case j of JObj kvs \<Rightarrow> Some (Some (go_entries (map (\<lambda>(k, v). (k, MAny v)) kvs))) | _ \<Rightarrow> None)"

definition patched_result :: "string \<Rightarrow> (string \<times> bool \<times> metadata option) option" where
  "patched_result payload =
     Option.bind (json_parse payload) (\<lambda>j. Option.bind (members j) (\<lambda>m.
       Option.bind (field dec_str m ''content'' []) (\<lambda>c.
       Option.bind (field dec_bool m ''is_error'' False) (\<lambda>e.
       Option.bind (field dec_metadata m ''metadata'' None) (\<lambda>md. Some (c, e, md))))))"

definition apply_patch :: "Result \<Rightarrow> string \<Rightarrow> Result" where
  "apply_patch res payload =
     (case patched_result payload of
        None \<Rightarrow> res
      | Some (c, e, md) \<Rightarrow>
          \<lparr> rs_Content = c, rs_IsError = e, rs_Metadata = (case md of None \<Rightarrow> rs_Metadata res | Some m \<Rightarrow> Some m) \<rparr>)"

definition executePostToolHook ::
    "ToolEnv \<Rightarrow> 'w ToolRunner \<Rightarrow> 'w \<Rightarrow> string \<Rightarrow> string \<Rightarrow> string \<Rightarrow> Result \<Rightarrow> (string, Result) result \<times> 'w" where
  "executePostToolHook V r w callID traceID toolName res =
     (case tn_HookClient r of
        None \<Rightarrow> (Inr res, w)
      | Some h \<Rightarrow>
          (case h w \<lparr> hr_Event = EventPostToolUse, hr_RunID = [], hr_TraceID = traceID,
                hr_PayloadJSON = post_payload V callID toolName res \<rparr> of
             (Inl e, w1) \<Rightarrow> (if tn_HookFailClosed r then Inl e else Inr res, w1)
           | (Inr resp, w1) \<Rightarrow>
               (Inr (if hp_PayloadJSON resp = [] then res else apply_patch res (hp_PayloadJSON resp)), w1)))"

definition meta_JSON :: "ToolEnv \<Rightarrow> metadata option \<Rightarrow> string" where
  "meta_JSON V m = (case m of None \<Rightarrow> [] | Some [] \<Rightarrow> [] | Some kvs \<Rightarrow> Marshal (metadata_json (tv_float V) (Some kvs)))"

definition meta_exit :: "metadata option \<Rightarrow> int" where
  "meta_exit m = (case m of None \<Rightarrow> 0 | Some kvs \<Rightarrow> (case map_of kvs ''exit_code'' of Some (MInt i) \<Rightarrow> i | _ \<Rightarrow> 0))"

text \<open>What happens between Acquire and the deferred Release.\<close>

definition execute_in ::
    "ToolEnv \<Rightarrow> 'w ToolRunner \<Rightarrow> 'w Tool \<Rightarrow> 'w Sandbox \<Rightarrow> 'w \<Rightarrow> string \<Rightarrow> string \<Rightarrow> string \<Rightarrow> string \<Rightarrow>
     (string, ToolResultEvent) result \<times> 'w" where
  "execute_in V r tool sb w callID traceID toolName args0 =
     (let args = (if args0 = [] then ''{}'' else args0) in
      case executePreToolHook r w callID traceID toolName args of
        (Inl e, w1) \<Rightarrow> (Inl e, w1)
      | (Inr (Denied reason), w1) \<Rightarrow>
          (let (ms, w2) = tn_elapsed r w1 in
           (Inr (zero_result\<lparr> tr_CallID := callID, tr_TraceID := traceID, tr_IsError := True, tr_Content := reason,
              tr_ErrorCode := ''hook_denied'', tr_ErrorMsg := reason, tr_ElapsedMS := ms \<rparr>), w2))
      | (Inr (UseArgs args1), w1) \<Rightarrow>
          (case tl_Invoke tool w1 sb args1 of
             (Inl e, w2) \<Rightarrow> (Inl e, w2)
           | (Inr res0, w2) \<Rightarrow>
               (case executePostToolHook V r w2 callID traceID toolName res0 of
                  (Inl e, w3) \<Rightarrow> (Inl e, w3)
                | (Inr res, w3) \<Rightarrow>
                    (let (ms, w4) = tn_elapsed r w3 in
                     (Inr (zero_result\<lparr> tr_CallID := callID, tr_TraceID := traceID, tr_ContainerID := sb_ID sb,
                        tr_ExitCode := meta_exit (rs_Metadata res), tr_Content := rs_Content res, tr_IsError := rs_IsError res,
                        tr_MetaJSON := meta_JSON V (rs_Metadata res), tr_ElapsedMS := ms \<rparr>), w4)))))"

definition ExecuteInWorkspace ::
    "ToolEnv \<Rightarrow> 'w ToolRunner \<Rightarrow> 'w \<Rightarrow> string \<Rightarrow> string \<Rightarrow> string \<Rightarrow> string \<Rightarrow> string \<Rightarrow> int \<Rightarrow>
     (string, ToolResultEvent) result \<times> 'w" where
  "ExecuteInWorkspace V r w workspaceID callID traceID toolName args timeoutMS =
     (case tn_Registry r of
        None \<Rightarrow> (Inl ''tool registry is nil'', w)
      | Some reg \<Rightarrow>
     (case tn_Driver r of
        None \<Rightarrow> (Inl ''sandbox driver is nil'', w)
      | Some drv \<Rightarrow>
     (case Registry_Get reg toolName of
        None \<Rightarrow>
          (let (ms, w1) = tn_elapsed r w; msg = ''unknown tool: '' @ toolName in
           (Inr (zero_result\<lparr> tr_CallID := callID, tr_TraceID := traceID, tr_IsError := True, tr_Content := msg,
              tr_ErrorCode := ''tool_not_found'', tr_ErrorMsg := msg, tr_ElapsedMS := ms \<rparr>), w1))
      | Some tool \<Rightarrow>
          (let w0 = tn_deadline r w (tool_timeout (tn_HardTimeout r) timeoutMS) in
           case dr_Acquire drv w0 workspaceID of
             (Inl e, w1) \<Rightarrow> (Inl e, w1)
           | (Inr sb, w1) \<Rightarrow>
               (let (res, w2) = execute_in V r tool sb w1 callID traceID toolName args
                in (res, snd (dr_Release drv w2 sb)))))))"

definition Tool_Execute ::
    "ToolEnv \<Rightarrow> 'w ToolRunner \<Rightarrow> 'w \<Rightarrow> string \<Rightarrow> string \<Rightarrow> string \<Rightarrow> string \<Rightarrow> int \<Rightarrow>
     (string, ToolResultEvent) result \<times> 'w" where
  "Tool_Execute V r w callID traceID toolName args timeoutMS =
     ExecuteInWorkspace V r w callID callID traceID toolName args timeoutMS"

definition publishError :: "'w ToolRunner \<Rightarrow> 'w \<Rightarrow> ToolTask \<Rightarrow> string \<Rightarrow> string \<Rightarrow> string option \<times> 'w" where
  "publishError r w t code msg =
     (let (ms, w1) = tn_elapsed r w in
      case tn_publish r w1 (tt_CallID t)
          (zero_result\<lparr> tr_CallID := tt_CallID t, tr_TraceID := tt_TraceID t, tr_IsError := True, tr_Content := msg,
             tr_ErrorCode := code, tr_ErrorMsg := msg, tr_ElapsedMS := ms \<rparr>) of
        (Some (e, cancelled), w2) \<Rightarrow> (if cancelled then None else Some e, w2)
      | (None, w2) \<Rightarrow> (None, w2))"

text \<open>The handler of the tool queue; no error means the task is acknowledged.\<close>

definition Tool_Handle :: "ToolEnv \<Rightarrow> 'w ToolRunner \<Rightarrow> 'w \<Rightarrow> ToolTask \<Rightarrow> string option \<times> 'w" where
  "Tool_Handle V r w t =
     (case Tool_Execute V r w (tt_CallID t) (tt_TraceID t) (tt_Tool t) (tt_ArgsJSON t) (tt_TimeoutMS t) of
        (Inl e, w1) \<Rightarrow> publishError r w1 t ''execute'' e
      | (Inr ev, w1) \<Rightarrow>
          (case tn_publish r w1 (tt_CallID t) ev of
             (Some (e, cancelled), w2) \<Rightarrow> (Some e, w2)
           | (None, w2) \<Rightarrow> (None, w2)))"


section \<open>Paths stay in the workspace\<close>

lemma Join_prefix:
  assumes "HasPrefix (Join es slash) (Join cs slash @ slash)" "list_all comp_ok es" "list_all comp_ok cs" "cs \<noteq> []"
  shows "\<exists>ds. es = cs @ ds"
  using assms
proof (induction cs arbitrary: es)
  case (Cons c cs)
  have c: "CHR ''/'' \<notin> set c" using Cons.prems(3) by (simp add: comp_ok_def)
  obtain r where r: "Join es slash = Join (c # cs) slash @ slash @ r"
    using Cons.prems(1) by (auto simp: HasPrefix_iff)
  obtain u where u: "Join es slash = c @ CHR ''/'' # u"
    using r by (cases "cs = []") (simp_all add: Join_Cons slash_def)
  obtain e es' where es: "es = e # es'" using u by (cases es) simp_all
  have e: "CHR ''/'' \<notin> set e" using Cons.prems(2) by (simp add: es comp_ok_def)
  have tw: "takeWhile (\<lambda>x. x \<noteq> CHR ''/'') (a @ CHR ''/'' # v) = a" if "CHR ''/'' \<notin> set a" for a v
    using that by (induction a) auto
  have ne: "es' \<noteq> []"
  proof
    assume "es' = []"
    then have "e = c @ CHR ''/'' # u" using u by (simp add: es)
    then show False using e by simp
  qed
  have j: "Join es slash = e @ CHR ''/'' # Join es' slash" using ne by (simp add: es Join_Cons slash_def)
  have "e = c" using u j tw [OF c, of u] tw [OF e, of "Join es' slash"] by simp
  show ?case
  proof (cases "cs = []")
    case True
    then show ?thesis using \<open>e = c\<close> es by simp
  next
    case False
    then have "Join es' slash = (Join cs slash @ slash) @ r" using r j \<open>e = c\<close> by (simp add: Join_Cons slash_def)
    then have "HasPrefix (Join es' slash) (Join cs slash @ slash)" by (auto simp: HasPrefix_iff)
    from Cons.IH [OF this] Cons.prems(2,3) False obtain ds where "es' = cs @ ds" by (auto simp: es)
    then show ?thesis using \<open>e = c\<close> es by simp
  qed
qed simp

lemma path_Clean_IsAbs: "IsAbs p \<Longrightarrow> IsAbs (path_Clean p)"
  using clean_abs [of p] by (auto simp: IsAbs_def slash_def HasPrefix_def)

text \<open>C25: a path accepted by the file tools names the workspace itself or something below it: its components are those of the
  workspace followed by plain names, with no dot-dot left.\<close>

theorem safePath_confined:
  assumes "safePath U root p = Inr q" "root = slash @ Join cs slash" "cs \<noteq> []" "list_all comp_ok cs"
  shows "\<exists>ds. list_all comp_ok ds \<and> q = slash @ Join (cs @ ds) slash"
proof (cases "q = root")
  case True
  then show ?thesis using assms(2) by (intro exI [of _ "[]"]) simp
next
  case False
  have abs_root: "IsAbs (root @ x)" for x using assms(2) by (simp add: IsAbs_def slash_def HasPrefix_def)
  from assms(1) False obtain x where x: "q = path_Clean x" "IsAbs x" "HasPrefix q (root @ slash)"
  proof (cases "HasPrefix p slash")
    case True
    then show ?thesis using that [of p] assms(1) False
      by (auto simp: safePath_def IsAbs_def Let_def split: if_splits)
  next
    case False
    have "path_Join [root, p] = path_Clean (root @ slash @ p) \<or> path_Join [root, p] = path_Clean root"
      using assms(2) by (simp add: path_Join_def slash_def)
    then have "IsAbs (path_Join [root, p])" using path_Clean_IsAbs abs_root [of "slash @ p"] abs_root [of "[]"] by auto
    then show ?thesis using that [of "path_Join [root, p]"] assms(1) False \<open>q \<noteq> root\<close>
      by (auto simp: safePath_def Let_def split: if_splits)
  qed
  obtain es where es: "list_all comp_ok es" "q = slash @ Join es slash" using clean_abs [OF x(2)] x(1) by blast
  have "HasPrefix (Join es slash) (Join cs slash @ slash)"
    using x(3) unfolding es(2) assms(2) by (simp add: HasPrefix_def slash_def)
  from Join_prefix [OF this es(1) assms(4,3)] obtain ds where "es = cs @ ds" by blast
  then show ?thesis using es by (intro exI [of _ ds]) simp
qed

theorem safePath_confined_witness:
  "\<exists>ds. list_all comp_ok ds \<and> ''/workspace/a'' = slash @ Join ([''workspace''] @ ds) slash"
proof -
  have "safePath ascii_unicode ''/workspace'' ''/workspace/a'' = Inr ''/workspace/a''"
    using path_Clean_abs [of "[''workspace'', ''a'']"] by (simp add: safePath_def slash_def HasPrefix_def Let_def)
  then show ?thesis
    by (rule safePath_confined) (simp_all add: slash_def comp_ok_def)
qed

section \<open>Registry\<close>

definition reg_ok :: "'w Registry \<Rightarrow> bool" where
  "reg_ok r = (distinct (map fst r) \<and> (\<forall>(k, t)\<in>set r. k = ds_Name (tl_Descriptor t) \<and> k \<noteq> []))"

lemma Register_reg_ok: "reg_ok r \<Longrightarrow> reg_ok (snd (Register U r t))"
  by (auto simp: Register_def reg_ok_def Let_def)

lemma reg_ok_names: "reg_ok r \<Longrightarrow> map (ds_Name \<circ> tl_Descriptor \<circ> snd) r = map fst r"
  by (auto simp: reg_ok_def)

definition registry_of :: "Unicode \<Rightarrow> 'w Tool list \<Rightarrow> 'w Registry" where
  "registry_of U ts = run_ops (\<lambda>r t. snd (Register U r t)) NewRegistry ts"

text \<open>A registry filled by Register holds each name once and never an empty one; List returns the descriptors of exactly the
  registered tools in strictly increasing order of name, and Get finds a tool by the name in its descriptor.\<close>

theorem Registry_invariant:
  "let r = registry_of U ts in
    sorted_wrt (<) (map ds_Name (Registry_List r)) \<and> set (Registry_List r) = tl_Descriptor ` (snd ` set r) \<and>
    list_all (\<lambda>(k, t). k \<noteq> [] \<and> k = ds_Name (tl_Descriptor t) \<and> Registry_Get r k = Some t) r"
proof -
  define r where "r = registry_of U ts"
  have "reg_ok NewRegistry" by (simp add: reg_ok_def NewRegistry_def)
  then have ok: "reg_ok r" unfolding r_def registry_of_def by (rule run_ops_invariant) (rule Register_reg_ok)
  let ?ds = "map (tl_Descriptor \<circ> snd) r"
  have "map ds_Name ?ds = map fst r" using reg_ok_names [OF ok] by (simp add: comp_assoc)
  then have "distinct (map ds_Name ?ds)" using ok unfolding reg_ok_def by metis
  then have "distinct (map ds_Name (Registry_List r))"
    unfolding Registry_List_def by (metis distinct_map distinct_sort set_sort)
  moreover have "sorted (map ds_Name (Registry_List r))" unfolding Registry_List_def by simp
  ultimately have "sorted_wrt (<) (map ds_Name (Registry_List r))" by (simp add: strict_sorted_iff)
  moreover have "set (Registry_List r) = tl_Descriptor ` (snd ` set r)" by (simp add: Registry_List_def image_comp)
  moreover have "list_all (\<lambda>(k, t). k \<noteq> [] \<and> k = ds_Name (tl_Descriptor t) \<and> Registry_Get r k = Some t) r"
    using ok by (auto simp: reg_ok_def list_all_iff Registry_Get_def)
  ultimately show ?thesis unfolding Let_def r_def by blast
qed

section \<open>Sandboxes are given back\<close>

text \<open>A count of the sandboxes held: a successful Acquire adds one, Release takes one away, and nothing else changes it.\<close>

definition ledger :: "'w ToolRunner \<Rightarrow> ('w \<Rightarrow> int) \<Rightarrow> bool" where
  "ledger r held =
     ((\<forall>drv. tn_Driver r = Some drv \<longrightarrow>
        (\<forall>w i. held (snd (dr_Acquire drv w i)) = held w + (if is_ok (fst (dr_Acquire drv w i)) then 1 else 0)) \<and>
        (\<forall>w sb. held (snd (dr_Release drv w sb)) = held w - 1)) \<and>
      (\<forall>reg k t drv w0 i sb. tn_Registry r = Some reg \<longrightarrow> Registry_Get reg k = Some t \<longrightarrow> tn_Driver r = Some drv \<longrightarrow>
        fst (dr_Acquire drv w0 i) = Inr sb \<longrightarrow> (\<forall>w a. held (snd (tl_Invoke t w sb a)) = held w)) \<and>
      (\<forall>h. tn_HookClient r = Some h \<longrightarrow> (\<forall>w q. held (snd (h w q)) = held w)) \<and>
      (\<forall>w n. held (tn_deadline r w n) = held w) \<and> (\<forall>w. held (snd (tn_elapsed r w)) = held w))"

lemma pre_hook_held: "ledger r held \<Longrightarrow> held (snd (executePreToolHook r w c t n a)) = held w"
  unfolding ledger_def executePreToolHook_def
  by (auto split: option.splits prod.splits sum.splits) (metis snd_conv)+

lemma post_hook_held: "ledger r held \<Longrightarrow> held (snd (executePostToolHook V r w c t n res)) = held w"
  unfolding ledger_def executePostToolHook_def
  by (auto split: option.splits prod.splits sum.splits) (metis snd_conv)+

lemma execute_in_held:
  assumes "ledger r held" "\<And>w a. held (snd (tl_Invoke tool w sb a)) = held w"
  shows "held (snd (execute_in V r tool sb w c t n a)) = held w"
proof -
  have el: "held (snd (tn_elapsed r w)) = held w" for w using assms(1) by (simp add: ledger_def)
  obtain p w1 where p: "executePreToolHook r w c t n (if a = [] then ''{}'' else a) = (p, w1)" by fastforce
  then have w1: "held w1 = held w" using pre_hook_held [OF assms(1)] by (metis snd_conv)
  show ?thesis
  proof (cases p)
    case (Inl e)
    then show ?thesis using p w1 by (simp add: execute_in_def)
  next
    case (Inr q)
    show ?thesis
    proof (cases q)
      case (Denied reason)
      then show ?thesis using Inr p w1 el [of w1] by (cases "tn_elapsed r w1") (simp add: execute_in_def)
    next
      case (UseArgs args1)
      obtain r2 w2 where i: "tl_Invoke tool w1 sb args1 = (r2, w2)" by fastforce
      then have w2: "held w2 = held w" using assms(2) [of w1 args1] w1 by simp
      show ?thesis
      proof (cases r2)
        case (Inl e)
        then show ?thesis using Inr UseArgs p i w2 by (simp add: execute_in_def)
      next
        case res: (Inr res0)
        obtain r3 w3 where h: "executePostToolHook V r w2 c t n res0 = (r3, w3)" by fastforce
        then have w3: "held w3 = held w" using post_hook_held [OF assms(1)] w2 by (metis snd_conv)
        then show ?thesis using Inr UseArgs p i res h el [of w3]
          by (cases r3; cases "tn_elapsed r w3") (simp_all add: execute_in_def)
      qed
    qed
  qed
qed

text \<open>C14: however a tool call ends - unknown tool, failed acquisition, hook error, denial, tool error or success - every sandbox it
  acquired has been released.\<close>

theorem Execute_balanced:
  assumes "ledger r held"
  shows "held (snd (ExecuteInWorkspace V r w ws callID traceID toolName args timeoutMS)) = held w"
proof (cases "tn_Registry r")
  case (Some reg)
  note reg = this
  show ?thesis
  proof (cases "tn_Driver r")
    case (Some drv)
    note drv = this
    show ?thesis
    proof (cases "Registry_Get reg toolName")
      case None
      then show ?thesis using assms reg drv by (simp add: ExecuteInWorkspace_def ledger_def Let_def split: prod.splits) (metis snd_conv)
    next
      case (Some tool)
      let ?w0 = "tn_deadline r w (tool_timeout (tn_HardTimeout r) timeoutMS)"
      obtain a w1 where a: "dr_Acquire drv ?w0 ws = (a, w1)" by fastforce
      have w1: "held w1 = held w + (if is_ok a then 1 else 0)"
        using assms drv a unfolding ledger_def by (metis fst_conv snd_conv)
      show ?thesis
      proof (cases a)
        case (Inl e)
        then show ?thesis using reg drv Some a w1 by (simp add: ExecuteInWorkspace_def)
      next
        case (Inr sb)
        have "fst (dr_Acquire drv ?w0 ws) = Inr sb" using a Inr by simp
        then have inv: "held (snd (tl_Invoke tool w sb a)) = held w" for w a
          using assms reg drv Some unfolding ledger_def by blast
        obtain res w2 where e: "execute_in V r tool sb w1 callID traceID toolName args = (res, w2)" by fastforce
        then have "held w2 = held w1" using execute_in_held [OF assms inv] by (metis snd_conv)
        moreover have "held (snd (dr_Release drv w2 sb)) = held w2 - 1" using assms drv unfolding ledger_def by blast
        ultimately show ?thesis using reg drv Some a w1 Inr e by (simp add: ExecuteInWorkspace_def)
      qed
    qed
  qed (use reg in \<open>simp add: ExecuteInWorkspace_def\<close>)
qed (simp add: ExecuteInWorkspace_def)

text \<open>A world that is the count of the sandboxes held.\<close>

definition count_sandbox :: "int Sandbox" where
  "count_sandbox = \<lparr> sb_ID = ''c'', sb_RunID = ''r'', sb_WorkspaceHost = [], sb_WorkspaceContainer = ''/workspace'',
     sb_Exec = (\<lambda>w q. ((zero_exec, None), w)) \<rparr>"

definition count_runner :: "int ToolRunner" where
  "count_runner = \<lparr> tn_Registry = Some [(''bash'', BashTool \<lparr> tv_U = ascii_unicode, tv_json_err = id, tv_float = id \<rparr>)],
     tn_Driver = Some \<lparr> dr_Acquire = (\<lambda>w i. if i = [] then (Inl ''empty'', w) else (Inr count_sandbox, w + 1)),
       dr_Release = (\<lambda>w sb. (None, w - 1)), dr_Stats = (\<lambda>w. undefined) \<rparr>,
     tn_HardTimeout = 0, tn_HookClient = None, tn_HookFailClosed = False, tn_deadline = (\<lambda>w n. w), tn_elapsed = (\<lambda>w. (0, w)),
     tn_publish = (\<lambda>w i e. (None, w)) \<rparr>"

lemma count_ledger: "ledger count_runner id"
proof -
  have "snd (Bash_Invoke V w count_sandbox a) = w" for V w a
    by (simp add: Bash_Invoke_def count_sandbox_def Let_def split: option.splits prod.splits)
  then show ?thesis
    by (auto simp: ledger_def count_runner_def Registry_Get_def BashTool_def split: if_splits)
qed

theorem Execute_balanced_witness:
  "snd (ExecuteInWorkspace \<lparr> tv_U = ascii_unicode, tv_json_err = id, tv_float = id \<rparr> count_runner 7 ''a'' ''c'' ''t'' ''bash'' ''{}'' 0) = 7"
  using Execute_balanced [OF count_ledger, of "\<lparr> tv_U = ascii_unicode, tv_json_err = id, tv_float = id \<rparr>" 7 "''a''" "''c''" "''t''" "''bash''" "''{}''" 0]
  by simp

section \<open>Hooks around a tool call\<close>

text \<open>The hook client of a worker: the gRPC client talking to a hookd with engine e.\<close>

definition hookd_client :: "Unicode \<Rightarrow> (Manifest \<Rightarrow> HookRequest \<Rightarrow> (string, HookResponse) result) \<Rightarrow> Engine \<Rightarrow> 'w hook_client" where
  "hookd_client U x e w req =
     GRPC_Execute (Some (\<lambda>w ev rid tid payload. (ExecuteHook U x e None ev rid tid payload, w))) w req"

lemma hookd_client_Engine:
  assumes "hr_Event req \<in> {EventPreLLM, EventPostLLM, EventPreToolUse, EventPostToolUse}"
  shows "hookd_client U x e w req =
    ((case Engine_Execute U x e None req of (r, Some err) \<Rightarrow> Inl err | (r, None) \<Rightarrow> Inr r), w)"
proof -
  have "EventFromProto (EventToProto (hr_Event req)) = hr_Event req"
    using assms by (auto simp: EventToProto_def hook_events)
  then have "hookd_client U x e w req = ((case Engine_Execute U x e None
      \<lparr> hr_Event = hr_Event req, hr_RunID = hr_RunID req, hr_TraceID = hr_TraceID req, hr_PayloadJSON = hr_PayloadJSON req \<rparr> of
      (r, Some err) \<Rightarrow> Inl err | (r, None) \<Rightarrow> Inr r), w)"
    by (simp add: hookd_client_def GRPC_Execute_def ExecuteHook_def)
  then show ?thesis by (cases req) simp
qed

lemma name_match_tool:
  "name_match ''tool'' ''args_json'' = False" "name_match ''tool'' ''call_id'' = False" "name_match ''tool'' ''tool''"
  "name_match ''args_json'' ''args_json''" "name_match ''args_json'' ''call_id'' = False" "name_match ''args_json'' ''tool'' = False"
  by (simp_all add: name_match_ascii ascii_def ord_def upper_ascii_def)

lemma pre_payload_parse:
  assumes "json_parse args = Some j" "ValidString callID" "ValidString toolName"
  shows "json_parse (pre_payload callID toolName args) =
    Some (JObj [(''args_json'', j), (''call_id'', JStr callID), (''tool'', JStr toolName)])"
proof -
  have "json_ok (JObj [(''args_json'', j), (''call_id'', JStr callID), (''tool'', JStr toolName)])"
    using json_parse_ok [OF assms(1)] assms(2,3) by (simp add: ValidString_ascii ord_def)
  from json_parse_Marshal [OF this] show ?thesis using assms(1) by (simp add: pre_payload_def)
qed

lemma deny_pre_payload:
  assumes "json_parse args = Some (JObj kvs)" "ValidString callID"
    and "go_map kvs ''command'' = Some (JStr cmd)" "needle \<in> set bash_needles" "Contains (ToLower (uc_lower U) cmd) needle"
  shows "denyDangerousBash U (pre_payload callID ''bash'' args)"
proof -
  have "json_parse (pre_payload callID ''bash'' args) =
      Some (JObj [(''args_json'', JObj kvs), (''call_id'', JStr callID), (''tool'', JStr ''bash'')])"
    by (rule pre_payload_parse [OF assms(1,2)]) (simp add: ValidString_ascii ord_def)
  moreover have "Contains (bash_text U (go_map kvs)) needle"
    using assms(3,5) by (auto simp: bash_text_def str_part_def Contains_iff) (metis append.assoc append_Cons)+
  ultimately show ?thesis using assms(4)
    by (auto simp: denyDangerousBash_def obj_members_def lenient_str_def lenient_raw_def name_match_tool Let_def list_ex_iff)
qed

text \<open>The command is named once, and exactly so.\<close>

definition plain_command :: "(string \<times> json) list \<Rightarrow> bool" where
  "plain_command kvs = (\<exists>v. filter (\<lambda>(k, v). name_match ''command'' k) kvs = [(''command'', v)])"

lemma plain_command_field:
  assumes "filter (\<lambda>(k, v). name_match tag k) kvs = [(tag, v)]" "field dec_str kvs tag cur = Some c"
  shows "go_map kvs tag = Some v \<and> c = (case v of JStr x \<Rightarrow> x | _ \<Rightarrow> cur)"
proof -
  have none: "field dec_str ls tag d = Some d" if "filter (\<lambda>(k, v). name_match tag k) ls = []" for ls d
    using that by (induction ls) (auto split: if_splits)
  have m: "name_match tag tag"
    using assms(1) filter_set [of "\<lambda>(k, v). name_match tag k" kvs] by auto
  have out: "map_of (rev ls) tag = None" if "filter (\<lambda>(k, v). name_match tag k) ls = []" for ls :: "(string \<times> json) list"
    using that m by (auto simp: map_of_eq_None_iff filter_empty_conv)
  show ?thesis using assms
  proof (induction kvs)
    case (Cons kv kvs)
    obtain k u where kv: "kv = (k, u)" by fastforce
    show ?case
    proof (cases "name_match tag k")
      case True
      then have e: "k = tag" "u = v" "filter (\<lambda>(k, v). name_match tag k) kvs = []" using Cons.prems(1) kv by auto
      have "go_map (kv # kvs) tag = Some v" using out [OF e(3)] by (simp add: go_map_def kv e map_add_def)
      moreover have "c = (case v of JStr x \<Rightarrow> x | _ \<Rightarrow> cur)"
        using Cons.prems(2) True none [OF e(3)] dec_str_def [of v] by (cases v) (simp_all add: kv e)
      ultimately show ?thesis by blast
    next
      case False
      then have "k \<noteq> tag" using m by auto
      then show ?thesis using Cons False kv by (auto simp: go_map_def map_add_def split: option.splits)
    qed
  qed simp
qed

text \<open>A client whose calls fail or give the answer of another one.\<close>

definition over_grpc :: "'w hook_client \<Rightarrow> 'w hook_client \<Rightarrow> bool" where
  "over_grpc h d = (\<forall>w req. (\<exists>e. fst (h w req) = Inl e) \<or> fst (h w req) = fst (d w req))"

text \<open>C23: with hookd's built-in hooks in front, a bash call whose command, the one the tool would run, contains a dangerous pattern in any
  letter case comes back as denied: neither the tool nor a further hook runs, nothing but the call of hookd and the clock is touched between
  Acquire and Release. When hookd does not answer, its error comes back and the tool does not run either, provided the worker is set to fail
  closed. The arguments have to name the command once and exactly as ''command'': the tool ignores letter case and nulls, the hook does not.\<close>

theorem dangerous_bash_denied:
  assumes "tn_HookClient r = Some h" "over_grpc h (hookd_client U x e)" "en_Hooks e = builtinHooks @ hs"
    and "json_parse args = Some (JObj kvs)" "ValidString callID" "bash_args (JObj kvs) = Some (cmd, ms)" "plain_command kvs"
    and "needle \<in> set bash_needles" "Contains (ToLower (uc_lower U) cmd) needle"
    and "h w \<lparr> hr_Event = EventPreToolUse, hr_RunID = [], hr_TraceID = traceID, hr_PayloadJSON = pre_payload callID ''bash'' args \<rparr> = (answer, w1)"
  shows "case answer of
      Inr resp \<Rightarrow> execute_in V r tool sb w callID traceID ''bash'' args =
        (Inr (zero_result\<lparr> tr_CallID := callID, tr_TraceID := traceID, tr_IsError := True,
           tr_Content := ''dangerous bash command denied by hook'', tr_ErrorCode := ''hook_denied'',
           tr_ErrorMsg := ''dangerous bash command denied by hook'', tr_ElapsedMS := fst (tn_elapsed r w1) \<rparr>),
         snd (tn_elapsed r w1))
    | Inl err \<Rightarrow> tn_HookFailClosed r \<longrightarrow> execute_in V r tool sb w callID traceID ''bash'' args = (Inl err, w1)"
proof -
  have ne: "args \<noteq> []" using assms(4) by (auto simp: json_parse_def skip_ws_def)
  let ?req = "\<lparr> hr_Event = EventPreToolUse, hr_RunID = [], hr_TraceID = traceID, hr_PayloadJSON = pre_payload callID ''bash'' args \<rparr>"
  obtain v where "filter (\<lambda>(k, v). name_match ''command'' k) kvs = [(''command'', v)]" using assms(7) unfolding plain_command_def by blast
  moreover have "field dec_str kvs ''command'' [] = Some cmd"
    using assms(6) by (auto simp: bash_args_def members_def split: Option.bind_splits)
  ultimately have v: "go_map kvs ''command'' = Some v" "cmd = (case v of JStr y \<Rightarrow> y | _ \<Rightarrow> [])" using plain_command_field by blast+
  have "ToLower (uc_lower U) [] = []" by (rule ToLower_id) simp
  moreover have "\<not> Contains [] needle" using assms(8) by (auto simp: bash_needles_def Contains_def HasPrefix_def)
  ultimately have "cmd \<noteq> []" using assms(9) by auto
  then have "go_map kvs ''command'' = Some (JStr cmd)" using v by (cases v) auto
  then have "denyDangerousBash U (hr_PayloadJSON ?req)" using deny_pre_payload [OF assms(4,5) _ assms(8,9)] by simp
  then have d: "hookd_client U x e w ?req =
     (Inr \<lparr> hp_Allowed = False, hp_Reason = ''dangerous bash command denied by hook'', hp_PayloadJSON = pre_payload callID ''bash'' args,
        hp_AppendSystemMessages = [], hp_MatchedHooks = [''deny-dangerous-bash''] \<rparr>, w)"
    by (simp add: hookd_client_Engine assms(3) Engine_Execute_def builtinHooks_def hook_events run_hook_def zero_manifest_def zero_response_def)
  show ?thesis
  proof (cases answer)
    case (Inl err)
    then show ?thesis using ne assms(1,10) by (simp add: execute_in_def executePreToolHook_def)
  next
    case (Inr resp)
    then have "answer = fst (hookd_client U x e w ?req)"
      using assms(2,10) unfolding over_grpc_def by (metis fst_conv Inl_Inr_False)
    then have "executePreToolHook r w callID traceID ''bash'' args = (Inr (Denied ''dangerous bash command denied by hook''), w1)"
      using assms(1,10) by (simp add: executePreToolHook_def d)
    then show ?thesis using ne Inr by (cases "tn_elapsed r w1") (simp add: execute_in_def)
  qed
qed

definition rm_call :: json where "rm_call = JObj [(''command'', JStr ''RM -rf /tmp'')]"

lemma rm_call_parse: "json_parse (Marshal rm_call) = Some rm_call"
  by (rule json_parse_Marshal) (simp add: rm_call_def ValidString_ascii ord_def)

theorem dangerous_bash_denied_witness:
  "fst (execute_in \<lparr> tv_U = ascii_unicode, tv_json_err = id, tv_float = id \<rparr>
      (count_runner\<lparr> tn_HookClient := Some (hookd_client ascii_unicode (\<lambda>_ _. Inl []) \<lparr> en_Hooks = builtinHooks @ [], en_Timeout = 0, en_MaxStdoutBytes = 1 \<rparr>) \<rparr>)
      (BashTool \<lparr> tv_U = ascii_unicode, tv_json_err = id, tv_float = id \<rparr>) count_sandbox 1 ''c'' ''t'' ''bash'' (Marshal rm_call)) =
    Inr (zero_result\<lparr> tr_CallID := ''c'', tr_TraceID := ''t'', tr_IsError := True,
       tr_Content := ''dangerous bash command denied by hook'', tr_ErrorCode := ''hook_denied'',
       tr_ErrorMsg := ''dangerous bash command denied by hook'', tr_ElapsedMS := 0 \<rparr>)"
proof -
  let ?d = "hookd_client ascii_unicode (\<lambda>_ _. Inl []) \<lparr> en_Hooks = builtinHooks @ [], en_Timeout = 0, en_MaxStdoutBytes = 1 \<rparr> :: int hook_client"
  let ?r = "count_runner\<lparr> tn_HookClient := Some ?d \<rparr>"
  have low: "ToLower (uc_lower ascii_unicode) ''RM -rf /tmp'' = ''rm -rf /tmp''"
    by (simp add: ToLower_def ascii_unicode_def runes_ascii lower_ascii_def ord_def of_runes_def EncodeRune_def) code_simp
  have c: "Contains (ToLower (uc_lower ascii_unicode) ''RM -rf /tmp'') ''rm -rf /''"
    unfolding low by (simp add: Contains_def HasPrefix_def)
  have b: "bash_args (JObj [(''command'', JStr ''RM -rf /tmp'')]) = Some (''RM -rf /tmp'', 0)" "plain_command [(''command'', JStr ''RM -rf /tmp'')]"
    by (simp_all add: plain_command_def bash_args_def members_def dec_str_def name_match_ascii ascii_def ord_def upper_ascii_def)
  have p: "json_parse (Marshal rm_call) = Some (JObj [(''command'', JStr ''RM -rf /tmp'')])" using rm_call_parse by (simp add: rm_call_def)
  have g: "over_grpc ?d ?d" by (simp add: over_grpc_def)
  let ?req = "\<lparr> hr_Event = EventPreToolUse, hr_RunID = [], hr_TraceID = ''t'', hr_PayloadJSON = pre_payload ''c'' ''bash'' (Marshal rm_call) \<rparr>"
  obtain a where "?d 1 ?req = (a, 1)" by (simp add: hookd_client_Engine)
  moreover have "\<exists>resp. fst (?d 1 ?req) = Inr resp"
    using deny_pre_payload [OF p, of "''c''" "''RM -rf /tmp''" "''rm -rf /''" ascii_unicode] c
    by (simp add: hookd_client_Engine Engine_Execute_def builtinHooks_def hook_events run_hook_def zero_manifest_def go_map_def bash_needles_def
        ValidString_ascii ord_def)
  ultimately obtain resp where a: "?d 1 ?req = (Inr resp, 1)" by auto
  have n: "''rm -rf /'' \<in> set bash_needles" "ValidString ''c''" "tn_HookClient ?r = Some ?d"
    by (simp_all add: bash_needles_def ValidString_ascii ord_def)
  show ?thesis
    using dangerous_bash_denied [OF n(3) g _ p n(2) b n(1) c a, where hs = "[]"] by (simp add: count_runner_def)
qed

text \<open>The bash tool decodes its argument names in any letter case, the hook compares them exactly: a call with the name Command runs
  its command although the same call with the name command is refused.\<close>

theorem bash_case_bypass:
  "bash_args (JObj [(''Command'', JStr ''rm -rf /'')]) = Some (''rm -rf /'', 0) \<and>
   \<not> denyDangerousBash ascii_unicode (pre_payload ''c'' ''bash'' (Marshal (JObj [(''Command'', JStr ''rm -rf /'')]))) \<and>
   denyDangerousBash ascii_unicode (pre_payload ''c'' ''bash'' (Marshal (JObj [(''command'', JStr ''rm -rf /'')])))"
proof -
  have p: "json_parse (Marshal (JObj [(k, JStr ''rm -rf /'')])) = Some (JObj [(k, JStr ''rm -rf /'')])" if "ValidString k" for k
    by (rule json_parse_Marshal) (use that in \<open>simp add: ValidString_ascii ord_def\<close>)
  note pp = pre_payload_parse [OF p, where callID = "''c''" and toolName = "''bash''"]
  have v: "ValidString ''Command''" "ValidString ''command''" "ValidString ''c''" "ValidString ''bash''"
    by (simp_all add: ValidString_ascii ord_def)
  have low: "ToLower (uc_lower ascii_unicode) ''rm -rf /'' = ''rm -rf /''"
    by (rule ToLower_id) (simp add: text_eval)
  have "bash_args (JObj [(''Command'', JStr ''rm -rf /'')]) = Some (''rm -rf /'', 0)"
    by (simp add: bash_args_def members_def dec_str_def name_match_ascii ascii_def ord_def upper_ascii_def)
  moreover have "\<not> denyDangerousBash ascii_unicode (pre_payload ''c'' ''bash'' (Marshal (JObj [(''Command'', JStr ''rm -rf /'')])))"
    using pp [OF v(1,3,4)]
    by (simp add: denyDangerousBash_def obj_members_def lenient_str_def lenient_raw_def name_match_tool go_map_def bash_text_def
        str_part_def bash_needles_def Contains_def HasPrefix_def Let_def del: Marshal.simps)
  moreover have "denyDangerousBash ascii_unicode (pre_payload ''c'' ''bash'' (Marshal (JObj [(''command'', JStr ''rm -rf /'')])))"
    using pp [OF v(2,3,4)]
    by (simp add: denyDangerousBash_def obj_members_def lenient_str_def lenient_raw_def name_match_tool go_map_def bash_text_def
        str_part_def bash_needles_def Contains_def HasPrefix_def Let_def low del: Marshal.simps)
  ultimately show ?thesis by blast
qed

section \<open>The hook's echo\<close>

lemma map_put_set: "set (map_put k v m) \<subseteq> insert (k, v) (set m)"
  by (induction k v m rule: map_put.induct) auto

lemma go_entries_set: "set (go_entries kvs) \<subseteq> set kvs"
proof -
  have "set (foldl (\<lambda>m (k, v). map_put k v m) acc kvs) \<subseteq> set acc \<union> set kvs" for acc
  proof (induction kvs arbitrary: acc)
    case (Cons p kvs)
    obtain k v where p: "p = (k, v)" by (cases p)
    show ?case using Cons.IH [of "map_put k v acc"] map_put_set [of k v acc] by (auto simp: p)
  qed simp
  from this [of "[]"] show ?thesis by (simp add: go_entries_def)
qed

lemma name_match_post:
  "name_match ''content'' ''call_id'' = False" "name_match ''content'' ''is_error'' = False" "name_match ''content'' ''metadata'' = False"
  "name_match ''content'' ''tool'' = False" "name_match ''is_error'' ''call_id'' = False" "name_match ''is_error'' ''content'' = False"
  "name_match ''is_error'' ''metadata'' = False" "name_match ''is_error'' ''tool'' = False" "name_match ''metadata'' ''call_id'' = False"
  "name_match ''metadata'' ''content'' = False" "name_match ''metadata'' ''is_error'' = False" "name_match ''metadata'' ''tool'' = False"
  by (simp_all add: name_match_ascii ascii_def ord_def upper_ascii_def)

definition result_ok :: "ToolEnv \<Rightarrow> Result \<Rightarrow> bool" where
  "result_ok V res = (ValidString (rs_Content res) \<and> json_ok (metadata_json (tv_float V) (rs_Metadata res)))"

lemma patched_post_payload:
  assumes "result_ok V res" "ValidString callID" "ValidString toolName"
  shows "patched_result (post_payload V callID toolName res) =
    Some (rs_Content res, rs_IsError res,
      map_option (\<lambda>kvs. go_entries (map (\<lambda>(k, v). (k, MAny (meta_json (tv_float V) v))) kvs)) (rs_Metadata res))"
proof -
  let ?j = "JObj [(''call_id'', JStr callID), (''content'', JStr (rs_Content res)), (''is_error'', JBool (rs_IsError res)),
       (''metadata'', metadata_json (tv_float V) (rs_Metadata res)), (''tool'', JStr toolName)]"
  have "json_ok ?j" using assms by (simp add: result_ok_def ValidString_ascii ord_def)
  then have "json_parse (post_payload V callID toolName res) = Some ?j"
    unfolding post_payload_def by (rule json_parse_Marshal)
  then show ?thesis
    by (cases "rs_Metadata res")
      (simp_all add: patched_result_def members_def name_match_post dec_str_def dec_bool_def dec_metadata_def metadata_json_def
        comp_def case_prod_beta')
qed

text \<open>When the after-tool hook hands its payload back unchanged, as hookd does when nothing in it is to be redacted, content and
  error flag survive the round trip, but the exit code is lost: the decoded metadata hold no Go int, so the event reports 0.\<close>

theorem exit_code_lost:
  assumes "tn_HookClient r = Some h" "result_ok V res" "ValidString callID" "ValidString toolName"
    and "h w \<lparr> hr_Event = EventPostToolUse, hr_RunID = [], hr_TraceID = traceID, hr_PayloadJSON = post_payload V callID toolName res \<rparr> =
      (Inr resp, w1)" "hp_PayloadJSON resp = post_payload V callID toolName res"
  shows "\<exists>res'. executePostToolHook V r w callID traceID toolName res = (Inr res', w1) \<and>
    rs_Content res' = rs_Content res \<and> rs_IsError res' = rs_IsError res \<and> (rs_Metadata res' = None) = (rs_Metadata res = None) \<and>
    meta_exit (rs_Metadata res') = 0"
proof -
  let ?res' = "apply_patch res (post_payload V callID toolName res)"
  have "post_payload V callID toolName res \<noteq> []" by (simp add: post_payload_def)
  then have e: "executePostToolHook V r w callID traceID toolName res = (Inr ?res', w1)"
    using assms(1,5,6) by (simp add: executePostToolHook_def)
  have any: "case map_of (go_entries (map (\<lambda>(k, v). (k, MAny (f v))) kvs)) x of Some (MInt i) \<Rightarrow> False | _ \<Rightarrow> True" for f :: "meta \<Rightarrow> json" and kvs x
    using go_entries_set [of "map (\<lambda>(k, v). (k, MAny (f v))) kvs"]
    by (auto split: option.splits meta.splits dest!: map_of_SomeD)
  note p = patched_post_payload [OF assms(2,3,4)]
  show ?thesis
  proof (cases "rs_Metadata res")
    case None
    then show ?thesis using e p by (simp add: apply_patch_def meta_exit_def)
  next
    case (Some kvs)
    then show ?thesis using e p any [of "meta_json (tv_float V)" kvs "''exit_code''"]
      by (auto simp: apply_patch_def meta_exit_def split: option.splits meta.splits)
  qed
qed

definition failed_ls :: Result where
  "failed_ls = \<lparr> rs_Content = ''no'', rs_IsError = True, rs_Metadata = Some [(''exit_code'', MInt 2)] \<rparr>"

theorem exit_code_lost_witness:
  "meta_exit (rs_Metadata failed_ls) = 2 \<and>
   (\<exists>res'. executePostToolHook \<lparr> tv_U = ascii_unicode, tv_json_err = id, tv_float = id \<rparr>
      (count_runner\<lparr> tn_HookClient := Some (\<lambda>w q. (Inr (zero_response\<lparr> hp_Allowed := True, hp_PayloadJSON := hr_PayloadJSON q \<rparr>), w)) \<rparr>)
      1 ''c'' ''t'' ''bash'' failed_ls = (Inr res', 1) \<and> meta_exit (rs_Metadata res') = 0)"
proof -
  let ?r = "count_runner\<lparr> tn_HookClient := Some (\<lambda>w q. (Inr (zero_response\<lparr> hp_Allowed := True, hp_PayloadJSON := hr_PayloadJSON q \<rparr>), w)) \<rparr>"
  let ?V = "\<lparr> tv_U = ascii_unicode, tv_json_err = id, tv_float = id \<rparr>"
  have "result_ok ?V failed_ls"
    by (simp add: result_ok_def failed_ls_def metadata_json_def ValidString_ascii ord_def json_simps)
  from exit_code_lost [where r = ?r and w = 1 and traceID = "''t''", OF _ this, of _ "''c''" "''bash''"]
  show ?thesis
    by (fastforce simp: failed_ls_def meta_exit_def ValidString_ascii ord_def)
qed

end
