(* ===== verification/Llm.thy ===== *)
theory Llm
  imports GoText
begin

text \<open>
  internal/llm: the provider interface (provider.go), the OpenAI-compatible streaming provider with
  its server-sent-event reader (openai.go), the mock provider (mock.go), the model router
  (router.go) and the factory (factory.go). A provider's channel is the list of the events it will
  deliver; HTTP is outside. The sampling temperature, never set by the code, is left out.
\<close>

section \<open>Types\<close>

record ToolCall =
  tc_ID :: string
  tc_Type :: string
  tc_Name :: string
  tc_Arguments :: string

record LMessage =
  lm_Role :: string
  lm_Content :: string
  lm_Name :: string
  lm_ToolCallID :: string
  lm_ToolCalls :: "ToolCall list"

definition llm_message :: "string \<Rightarrow> string \<Rightarrow> LMessage" where
  "llm_message role content =
     \<lparr> lm_Role = role, lm_Content = content, lm_Name = [], lm_ToolCallID = [], lm_ToolCalls = [] \<rparr>"

record ToolDefinition =
  td_Name :: string
  td_Description :: string
  td_Parameters :: "json option"

record LReq =
  lq_Model :: string
  lq_Messages :: "LMessage list"
  lq_Tools :: "ToolDefinition list"
  lq_MaxTokens :: int

record TokenEvent =
  te_Token :: string
  te_ToolCalls :: "ToolCall list"
  te_Done :: bool
  te_StopReason :: string
  te_Err :: "string option"

definition zero_tev :: TokenEvent where
  "zero_tev = \<lparr> te_Token = [], te_ToolCalls = [], te_Done = False, te_StopReason = [], te_Err = None \<rparr>"

definition StopReasonToolCalls :: string where "StopReasonToolCalls = ''tool_calls''"

type_synonym 'w provider = "'w \<Rightarrow> LReq \<Rightarrow> (string, TokenEvent list) result \<times> 'w"

section \<open>Mock provider\<close>

definition mock_tokens :: "string list \<Rightarrow> string list" where
  "mock_tokens tokens = (if tokens = [] then [''Hello'', '', '', ''I am '', ''AgentForge'', ''.''] else tokens)"

definition mock_preview :: "LReq \<Rightarrow> string" where
  "mock_preview req =
     (if lq_Messages req = [] then []
      else (let p = TrimSpace (lm_Content (last (lq_Messages req)))
            in if length p > 32 then take 32 p @ ''...'' else p))"

text \<open>live is the number of events delivered before the context is cancelled; the stream stops at the
  first send or wait that sees the cancellation.\<close>

definition Mock_Stream :: "string list \<Rightarrow> nat \<Rightarrow> LReq \<Rightarrow> TokenEvent list" where
  "Mock_Stream tokens live req =
     take live
       ((if mock_preview req \<noteq> [] then [zero_tev\<lparr> te_Token := ''[mock recv: '' @ mock_preview req @ ''] '' \<rparr>] else []) @
        map (\<lambda>tk. zero_tev\<lparr> te_Token := tk \<rparr>) tokens @ [zero_tev\<lparr> te_Done := True \<rparr>])"

section \<open>Router\<close>

text \<open>PrefixRoutes is the map in the order the range visits it.\<close>

record 'w ModelRouter =
  mr_Default :: "'w provider option"
  mr_Routes :: "string \<rightharpoonup> 'w provider"
  mr_PrefixRoutes :: "(string \<times> 'w provider) list"

definition Router_Stream :: "Unicode \<Rightarrow> 'w ModelRouter \<Rightarrow> 'w provider" where
  "Router_Stream U r w req =
     (case mr_Routes r (TrimSpace (lq_Model req)) of
        Some p \<Rightarrow> p w req
      | None \<Rightarrow>
          (case find (\<lambda>(pre, p). HasPrefix (TrimSpace (lq_Model req)) pre) (mr_PrefixRoutes r) of
             Some (pre, p) \<Rightarrow> p w req
           | None \<Rightarrow>
               (case mr_Default r of
                  None \<Rightarrow> (Inl (''no llm provider configured for model '' @ Quote U (lq_Model req)), w)
                | Some p \<Rightarrow> p w req)))"

definition unavailable_Stream :: "string \<Rightarrow> 'w provider" where
  "unavailable_Stream reason w req = (Inl reason, w)"

section \<open>OpenAI-compatible provider: request\<close>

record OpenAIProvider =
  oa_BaseURL :: string
  oa_APIKey :: string
  oa_Model :: string
  oa_Timeout :: int
  oa_MaxTokens :: int
  oa_ThinkingEnabled :: bool

definition NewOpenAIWithOptions :: "string \<Rightarrow> string \<Rightarrow> string \<Rightarrow> int \<Rightarrow> int \<Rightarrow> bool \<Rightarrow> OpenAIProvider" where
  "NewOpenAIWithOptions baseURL apiKey model timeout maxTokens thinking =
     \<lparr> oa_BaseURL = TrimRight baseURL ''/'', oa_APIKey = apiKey, oa_Model = model,
       oa_Timeout = (if timeout \<le> 0 then 60 * 1000000000 else timeout),
       oa_MaxTokens = maxTokens, oa_ThinkingEnabled = thinking \<rparr>"

definition tool_type :: "string \<Rightarrow> string" where
  "tool_type t = (if t = [] then ''function'' else t)"

definition oa_tool_call :: "ToolCall \<Rightarrow> json" where
  "oa_tool_call tc = struct_obj [
     (''id'', tc_ID tc = [], JStr (tc_ID tc)),
     (''type'', tool_type (tc_Type tc) = [], JStr (tool_type (tc_Type tc))),
     (''function'', False, struct_obj [
        (''name'', False, JStr (tc_Name tc)),
        (''arguments'', False, JStr (tc_Arguments tc))])]"

definition oa_message :: "LMessage \<Rightarrow> json" where
  "oa_message m = struct_obj [
     (''role'', False, JStr (lm_Role m)),
     (''content'', lm_Content m = [], JStr (lm_Content m)),
     (''name'', lm_Name m = [], JStr (lm_Name m)),
     (''tool_call_id'', lm_ToolCallID m = [], JStr (lm_ToolCallID m)),
     (''tool_calls'', lm_ToolCalls m = [], JArr (map oa_tool_call (lm_ToolCalls m)))]"

definition toOpenAIMessages :: "LMessage list \<Rightarrow> json list" where
  "toOpenAIMessages ms = map oa_message ms"

definition oa_tool_def :: "ToolDefinition \<Rightarrow> json" where
  "oa_tool_def t = struct_obj [
     (''type'', False, JStr ''function''),
     (''function'', False, struct_obj [
        (''name'', False, JStr (td_Name t)),
        (''description'', td_Description t = [], JStr (td_Description t)),
        (''parameters'', td_Parameters t = None, (case td_Parameters t of None \<Rightarrow> JNull | Some j \<Rightarrow> j))])]"

definition toOpenAITools :: "ToolDefinition list \<Rightarrow> json list" where
  "toOpenAITools ts = map oa_tool_def ts"

definition oa_body :: "OpenAIProvider \<Rightarrow> LReq \<Rightarrow> json" where
  "oa_body p req =
     (let model = (if lq_Model req = [] then oa_Model p else lq_Model req);
          maxTokens = (if lq_MaxTokens req = 0 then oa_MaxTokens p else lq_MaxTokens req)
      in struct_obj [
        (''model'', False, JStr model),
        (''messages'', False, JArr (toOpenAIMessages (lq_Messages req))),
        (''tools'', toOpenAITools (lq_Tools req) = [], JArr (toOpenAITools (lq_Tools req))),
        (''stream'', False, JBool True),
        (''max_tokens'', maxTokens = 0, enc_int maxTokens),
        (''thinking'', \<not> oa_ThinkingEnabled p, struct_obj [(''type'', False, JStr ''enabled'')])])"

section \<open>OpenAI-compatible provider: response stream\<close>

record ToolDelta =
  dt_Index :: int
  dt_ID :: string
  dt_Type :: string
  dt_Name :: string
  dt_Arguments :: string

record Choice =
  co_Content :: string
  co_ToolCalls :: "ToolDelta list"
  co_Finish :: "string option"

definition dec_fn :: "json \<Rightarrow> (string \<times> string) option" where
  "dec_fn j = Option.bind (members j) (\<lambda>m.
     Option.bind (field dec_str m ''name'' []) (\<lambda>x0.
     Option.bind (field dec_str m ''arguments'' []) (\<lambda>x1. Some (x0, x1))))"

definition zero_delta :: ToolDelta where
  "zero_delta = \<lparr> dt_Index = 0, dt_ID = [], dt_Type = [], dt_Name = [], dt_Arguments = [] \<rparr>"

definition dec_delta :: "json \<Rightarrow> ToolDelta option" where
  "dec_delta j = Option.bind (members j) (\<lambda>m.
     Option.bind (field dec_int m ''index'' 0) (\<lambda>x0.
     Option.bind (field dec_str m ''id'' []) (\<lambda>x1.
     Option.bind (field dec_str m ''type'' []) (\<lambda>x2.
     Option.bind (field dec_fn m ''function'' ([], [])) (\<lambda>(x3, x4).
     Some \<lparr> dt_Index = x0, dt_ID = x1, dt_Type = x2, dt_Name = x3, dt_Arguments = x4 \<rparr>)))))"

definition dec_message :: "json \<Rightarrow> (string \<times> ToolDelta list) option" where
  "dec_message j = Option.bind (members j) (\<lambda>m.
     Option.bind (field dec_str m ''content'' []) (\<lambda>x0.
     Option.bind (field (dec_array dec_delta zero_delta) m ''tool_calls'' []) (\<lambda>x1. Some (x0, x1))))"

definition dec_choice :: "json \<Rightarrow> Choice option" where
  "dec_choice j = Option.bind (members j) (\<lambda>m.
     Option.bind (field dec_message m ''delta'' ([], [])) (\<lambda>(x0, x1).
     Option.bind (field (\<lambda>v. map_option Some (dec_str v)) m ''finish_reason'' None) (\<lambda>x2.
     Some \<lparr> co_Content = x0, co_ToolCalls = x1, co_Finish = x2 \<rparr>)))"

definition chunk_choices :: "string \<Rightarrow> Choice list option" where
  "chunk_choices payload = Option.bind (json_parse payload) (\<lambda>j.
     Option.bind (members j) (\<lambda>m.
     field (dec_array dec_choice \<lparr> co_Content = [], co_ToolCalls = [], co_Finish = None \<rparr>) m ''choices'' []))"

record toolCallBuilder =
  tb_ID :: string
  tb_Type :: string
  tb_Name :: string
  tb_Arguments :: string

text \<open>The builders by index and the order in which the indices first appeared.\<close>

type_synonym builders = "(int \<rightharpoonup> toolCallBuilder) \<times> int list"

definition empty_builder :: toolCallBuilder where
  "empty_builder = \<lparr> tb_ID = [], tb_Type = [], tb_Name = [], tb_Arguments = [] \<rparr>"

definition apply_delta :: "builders \<Rightarrow> ToolDelta \<Rightarrow> builders" where
  "apply_delta st tc =
     (let (bs, order) = st;
          (b0, order1) = (case bs (dt_Index tc) of
             None \<Rightarrow> (empty_builder, order @ [dt_Index tc])
           | Some b \<Rightarrow> (b, order));
          b1 = (if dt_ID tc \<noteq> [] then b0\<lparr> tb_ID := dt_ID tc \<rparr> else b0);
          b2 = (if dt_Type tc \<noteq> [] then b1\<lparr> tb_Type := dt_Type tc \<rparr> else b1);
          b3 = (if dt_Name tc \<noteq> [] then b2\<lparr> tb_Name := dt_Name tc \<rparr> else b2);
          b4 = (if dt_Arguments tc \<noteq> [] then b3\<lparr> tb_Arguments := tb_Arguments b3 @ dt_Arguments tc \<rparr> else b3)
      in (bs(dt_Index tc \<mapsto> b4), order1))"

definition build_call :: "toolCallBuilder \<Rightarrow> ToolCall" where
  "build_call b = \<lparr> tc_ID = tb_ID b, tc_Type = tool_type (tb_Type b), tc_Name = tb_Name b,
     tc_Arguments = tb_Arguments b \<rparr>"

definition builtToolCalls :: "builders \<Rightarrow> ToolCall list" where
  "builtToolCalls st = map build_call (List.map_filter (fst st) (snd st))"

text \<open>The events of the choices of one chunk; None ends the stream.\<close>

fun run_choices :: "builders \<Rightarrow> Choice list \<Rightarrow> TokenEvent list \<times> builders option" where
  "run_choices st [] = ([], Some st)"
| "run_choices st (ch # chs) =
     (let toks = (if co_Content ch \<noteq> [] then [zero_tev\<lparr> te_Token := co_Content ch \<rparr>] else []);
          st1 = foldl apply_delta st (co_ToolCalls ch)
      in case co_Finish ch of
           Some reason \<Rightarrow>
             if reason \<noteq> [] then
               (toks @ (if reason = StopReasonToolCalls \<and> snd st1 \<noteq> []
                        then [zero_tev\<lparr> te_ToolCalls := builtToolCalls st1, te_StopReason := StopReasonToolCalls \<rparr>] else []) @
                [zero_tev\<lparr> te_Done := True, te_StopReason := reason \<rparr>], None)
             else (let (evs, r) = run_choices st1 chs in (toks @ evs, r))
         | None \<Rightarrow> (let (evs, r) = run_choices st1 chs in (toks @ evs, r)))"

definition sse_payload :: "string \<Rightarrow> string option" where
  "sse_payload raw =
     (let line = TrimRight raw [CHR 0x0D, CHR 0x0A] in
      if HasPrefix line ''data:'' then Some (TrimSpace (drop 5 line)) else None)"

text \<open>The read loop: the remaining lines of the body, and how the body ends (None is end of file).\<close>

fun run_lines :: "string option \<Rightarrow> builders \<Rightarrow> string list \<Rightarrow> TokenEvent list" where
  "run_lines end_err st [] =
     (case end_err of
        Some e \<Rightarrow> [zero_tev\<lparr> te_Err := Some (''sse read: '' @ e) \<rparr>]
      | None \<Rightarrow> [zero_tev\<lparr> te_Done := True \<rparr>])"
| "run_lines end_err st (l # ls) =
     (case sse_payload l of
        None \<Rightarrow> run_lines end_err st ls
      | Some payload \<Rightarrow>
          if payload = [] then run_lines end_err st ls
          else if payload = ''[DONE]'' then [zero_tev\<lparr> te_Done := True \<rparr>]
          else (case chunk_choices payload of
             None \<Rightarrow> run_lines end_err st ls
           | Some chs \<Rightarrow>
               (case run_choices st chs of
                  (evs, None) \<Rightarrow> evs
                | (evs, Some st1) \<Rightarrow> evs @ run_lines end_err st1 ls)))"

definition body_events :: "string \<Rightarrow> string option \<Rightarrow> TokenEvent list" where
  "body_events body end_err = run_lines end_err (Map.empty, []) (Split body [CHR 0x0A])"

text \<open>The transport answers with a status, the body and how the body ends.\<close>

definition OpenAI_Stream ::
    "('w \<Rightarrow> string \<Rightarrow> (string \<times> string) list \<Rightarrow> string \<Rightarrow> (string, int \<times> string \<times> string option) result \<times> 'w) \<Rightarrow>
     OpenAIProvider \<Rightarrow> nat \<Rightarrow> 'w provider" where
  "OpenAI_Stream http_do p live w req =
     (let url = oa_BaseURL p @ ''/chat/completions'';
          headers = [(''Content-Type'', ''application/json''), (''Accept'', ''text/event-stream'')] @
            (if oa_APIKey p \<noteq> [] then [(''Authorization'', ''Bearer '' @ oa_APIKey p)] else [])
      in case http_do w url headers (Marshal (oa_body p req)) of
           (Inl e, w1) \<Rightarrow> (Inl (''http do: '' @ e), w1)
         | (Inr (status, body, end_err), w1) \<Rightarrow>
             if status div 100 \<noteq> 2 then (Inl (''openai http '' @ Itoa status @ '': '' @ body), w1)
             else (Inr (take live (body_events body end_err)), w1))"

section \<open>Factory\<close>

record FactoryConfig =
  fc_Provider :: string
  fc_BaseURL :: string
  fc_AccessToken :: string
  fc_Model :: string
  fc_MaxTokens :: int
  fc_Timeout :: int

datatype 'w built_provider = RouterProvider "'w ModelRouter" | MockProvider "string list"

definition NewFromConfig :: "Unicode \<Rightarrow> (OpenAIProvider \<Rightarrow> 'w provider) \<Rightarrow> FactoryConfig \<Rightarrow>
    (string, 'w built_provider) result" where
  "NewFromConfig U open_ai cfg =
     (let k = ToLower (uc_lower U) (fc_Provider cfg) in
      if k = [] \<or> k = ''modelscope'' then
        (if fc_AccessToken cfg = [] then Inl ''modelscope access token empty''
         else if \<not> HasPrefix (fc_Model cfg) ''Qwen/'' then Inl ''MODELSCOPE_MODEL must identify a Qwen/ model''
         else (let p = open_ai (NewOpenAIWithOptions (fc_BaseURL cfg) (fc_AccessToken cfg) (fc_Model cfg)
                         (fc_Timeout cfg) (fc_MaxTokens cfg) False)
               in Inr (RouterProvider \<lparr> mr_Default = None,
                    mr_Routes = [[] \<mapsto> p, fc_Model cfg \<mapsto> p], mr_PrefixRoutes = [] \<rparr>)))
      else if k = ''mock'' then Inr (MockProvider (mock_tokens []))
      else Inl (''unknown llm provider: '' @ fc_Provider cfg))"

section \<open>The stream of events\<close>

definition builders_ok :: "builders \<Rightarrow> bool" where
  "builders_ok st = (\<forall>i\<in>set (snd st). fst st i \<noteq> None)"

lemma apply_delta_ok: "builders_ok st \<Longrightarrow> builders_ok (apply_delta st d)"
  by (cases st) (auto simp: builders_ok_def apply_delta_def Let_def split: option.splits)

lemma apply_deltas_ok: "builders_ok st \<Longrightarrow> builders_ok (foldl apply_delta st ds)"
  by (induction ds arbitrary: st) (simp_all add: apply_delta_ok)

lemma map_filter_nonempty: "xs \<noteq> [] \<Longrightarrow> \<forall>x\<in>set xs. f x \<noteq> None \<Longrightarrow> List.map_filter f xs \<noteq> []"
  by (cases xs) (auto simp: List.map_filter_def)

lemma built_nonempty: "builders_ok st \<Longrightarrow> snd st \<noteq> [] \<Longrightarrow> builtToolCalls st \<noteq> []"
  by (simp add: builtToolCalls_def builders_ok_def map_filter_nonempty)

definition token_event :: "TokenEvent \<Rightarrow> bool" where
  "token_event x = (te_Token x \<noteq> [] \<and> te_ToolCalls x = [] \<and> \<not> te_Done x \<and> te_Err x = None)"

definition final_events :: "TokenEvent list \<Rightarrow> bool" where
  "final_events evs =
     (case evs of
        [t] \<Rightarrow> (te_Done t \<or> te_Err t \<noteq> None) \<and> te_Token t = [] \<and> te_ToolCalls t = []
      | [c, t] \<Rightarrow> te_ToolCalls c \<noteq> [] \<and> te_Token c = [] \<and> \<not> te_Done c \<and> te_Err c = None \<and>
           te_Done t \<and> te_StopReason t = StopReasonToolCalls \<and> te_Token t = [] \<and> te_ToolCalls t = [] \<and> te_Err t = None
      | _ \<Rightarrow> False)"

definition stream_shape :: "TokenEvent list \<Rightarrow> bool" where
  "stream_shape evs = (\<exists>toks fin. evs = toks @ fin \<and> list_all token_event toks \<and> final_events fin)"

lemma stream_shape_append: "list_all token_event toks \<Longrightarrow> stream_shape evs \<Longrightarrow> stream_shape (toks @ evs)"
proof -
  assume t: "list_all token_event toks" and "stream_shape evs"
  then obtain ts fin where "evs = ts @ fin" "list_all token_event ts" "final_events fin"
    unfolding stream_shape_def by blast
  then have "toks @ evs = (toks @ ts) @ fin" "list_all token_event (toks @ ts)" "final_events fin" using t by simp_all
  then show ?thesis unfolding stream_shape_def by blast
qed

lemma final_shape: "final_events evs \<Longrightarrow> stream_shape evs"
  unfolding stream_shape_def by (rule exI [of _ "[]"]) simp

definition content_tokens :: "Choice \<Rightarrow> TokenEvent list" where
  "content_tokens ch = (if co_Content ch \<noteq> [] then [zero_tev\<lparr> te_Token := co_Content ch \<rparr>] else [])"

lemma content_tokens_ok [simp]: "list_all token_event (content_tokens ch)"
  by (simp add: content_tokens_def token_event_def zero_tev_def)

lemma run_choices_shape:
  "builders_ok st \<Longrightarrow>
   (case run_choices st chs of
      (evs, None) \<Rightarrow> stream_shape evs
    | (evs, Some st') \<Rightarrow> list_all token_event evs \<and> builders_ok st')"
proof (induction chs arbitrary: st)
  case (Cons ch chs)
  let ?st1 = "foldl apply_delta st (co_ToolCalls ch)"
  have ok: "builders_ok ?st1" by (rule apply_deltas_ok [OF Cons.prems])
  show ?case
  proof (cases "co_Finish ch = None \<or> co_Finish ch = Some []")
    case True
    have r: "run_choices st (ch # chs) = (let (evs, r) = run_choices ?st1 chs in (content_tokens ch @ evs, r))"
      using True by (auto simp: content_tokens_def Let_def)
    obtain evs res where e: "run_choices ?st1 chs = (evs, res)" by fastforce
    from Cons.IH [OF ok] show ?thesis
      unfolding r e by (cases res) (simp_all add: stream_shape_append)
  next
    case False
    then obtain reason where f: "co_Finish ch = Some reason" "reason \<noteq> []" by auto
    let ?c = "if reason = StopReasonToolCalls \<and> snd ?st1 \<noteq> []
        then [zero_tev\<lparr> te_ToolCalls := builtToolCalls ?st1, te_StopReason := StopReasonToolCalls \<rparr>] else []"
    let ?d = "[zero_tev\<lparr> te_Done := True, te_StopReason := reason \<rparr>]"
    have r: "run_choices st (ch # chs) = (content_tokens ch @ (?c @ ?d), None)"
      using f by (simp add: content_tokens_def Let_def)
    have "final_events (?c @ ?d)"
      using built_nonempty [OF ok] by (simp add: final_events_def zero_tev_def)
    then show ?thesis unfolding r by (simp add: final_shape stream_shape_append)
  qed
qed simp

lemma run_lines_shape: "builders_ok st \<Longrightarrow> stream_shape (run_lines end_err st ls)"
proof (induction ls arbitrary: st)
  case Nil
  then show ?case
    by (intro final_shape) (simp add: final_events_def zero_tev_def split: option.splits)
next
  case (Cons l ls)
  note IH = Cons.IH [OF Cons.prems]
  show ?case
  proof (cases "sse_payload l")
    case None
    then show ?thesis using IH by simp
  next
    case (Some payload)
    consider (skip) "payload = [] \<or> (payload \<noteq> ''[DONE]'' \<and> chunk_choices payload = None)" | (fin) "payload = ''[DONE]''"
      | (data) chs where "payload \<noteq> []" "payload \<noteq> ''[DONE]''" "chunk_choices payload = Some chs"
      by (metis option.exhaust)
    then show ?thesis
    proof cases
      case skip
      then have "run_lines end_err st (l # ls) = run_lines end_err st ls" using Some by auto
      then show ?thesis using IH by simp
    next
      case fin
      have "stream_shape [zero_tev\<lparr> te_Done := True \<rparr>]"
        by (rule final_shape) (simp add: final_events_def zero_tev_def)
      then show ?thesis using Some fin by simp
    next
      case data
      obtain evs res where e: "run_choices st chs = (evs, res)" by fastforce
      from run_choices_shape [OF Cons.prems, of chs] show ?thesis
        using Some data Cons.IH
        by (cases res) (auto simp: e intro: stream_shape_append)
    qed
  qed
qed

text \<open>C28: whatever bytes the model server sends, the provider's events are text tokens followed by exactly one
  terminal event (done or error), with tool calls only in a single event just before a done whose reason is
  tool_calls.\<close>

theorem body_events_shape: "stream_shape (body_events body end_err)"
  unfolding body_events_def by (rule run_lines_shape) (simp add: builders_ok_def)

section \<open>Tool call assembly\<close>

text \<open>The reference: the indices in the order of their first appearance, each with the last non-empty
  id, type and name of its fragments and the concatenation of their arguments.\<close>

definition firsts :: "'a list \<Rightarrow> 'a list" where "firsts xs = rev (remdups (rev xs))"

lemma firsts_snoc: "firsts (xs @ [x]) = (if x \<in> set xs then firsts xs else firsts xs @ [x])"
  by (simp add: firsts_def)

lemma set_firsts [simp]: "set (firsts xs) = set xs"
  by (simp add: firsts_def)

definition last_nonempty :: "string list \<Rightarrow> string" where
  "last_nonempty xs = foldl (\<lambda>a x. if x \<noteq> [] then x else a) [] xs"

definition assembled :: "ToolDelta list \<Rightarrow> int \<Rightarrow> toolCallBuilder" where
  "assembled ds i = (let mine = filter (\<lambda>d. dt_Index d = i) ds in
     \<lparr> tb_ID = last_nonempty (map dt_ID mine), tb_Type = last_nonempty (map dt_Type mine),
       tb_Name = last_nonempty (map dt_Name mine), tb_Arguments = concat (map dt_Arguments mine) \<rparr>)"

lemma apply_deltas_spec:
  "foldl apply_delta (Map.empty, []) ds =
     (\<lambda>i. if i \<in> dt_Index ` set ds then Some (assembled ds i) else None, firsts (map dt_Index ds))"
proof (induction ds rule: rev_induct)
  case Nil
  then show ?case by (simp add: firsts_def)
next
  case (snoc d ds)
  let ?bs = "\<lambda>i. if i \<in> dt_Index ` set ds then Some (assembled ds i) else None"
  have same: "assembled (ds @ [d]) i = assembled ds i" if "i \<noteq> dt_Index d" for i
    using that by (simp add: assembled_def)
  have none: "assembled ds (dt_Index d) = empty_builder" if "dt_Index d \<notin> dt_Index ` set ds"
  proof -
    have "filter (\<lambda>x. dt_Index x = dt_Index d) ds = []" using that by (simp add: filter_empty_conv) (metis imageI)
    then show ?thesis by (simp add: assembled_def last_nonempty_def empty_builder_def)
  qed
  have step: "apply_delta (?bs, firsts (map dt_Index ds)) d =
      (?bs(dt_Index d \<mapsto> assembled (ds @ [d]) (dt_Index d)), firsts (map dt_Index (ds @ [d])))"
    using none by (auto simp: apply_delta_def Let_def firsts_snoc assembled_def last_nonempty_def empty_builder_def
        split: option.splits)
  show ?case
    unfolding foldl_append snoc.IH foldl.simps step
    using same by (auto simp: fun_eq_iff)
qed

text \<open>The tool calls assembled from streamed fragments are, for each index in order of first appearance,
  its last non-empty id, type (function by default) and name with all its argument fragments joined in
  order, however the fragments were interleaved.\<close>

theorem builtToolCalls_assembled:
  "builtToolCalls (foldl apply_delta (Map.empty, []) ds) =
     map (\<lambda>i. build_call (assembled ds i)) (firsts (map dt_Index ds))"
proof -
  have "List.map_filter (\<lambda>i. if i \<in> dt_Index ` set ds then Some (assembled ds i) else None) xs =
      map (assembled ds) xs" if "set xs \<subseteq> dt_Index ` set ds" for xs
    using that by (induction xs) (auto simp: List.map_filter_def)
  then show ?thesis unfolding builtToolCalls_def apply_deltas_spec by (simp add: comp_def)
qed

section \<open>Routing\<close>

text \<open>The configured router answers only for the empty model and the configured model; any other model id
  is refused without contacting a provider.\<close>

theorem NewFromConfig_routes:
  assumes "NewFromConfig U open_ai cfg = Inr (RouterProvider r)"
  shows "HasPrefix (fc_Model cfg) ''Qwen/'' \<and> fc_AccessToken cfg \<noteq> [] \<and>
    (let p = open_ai (NewOpenAIWithOptions (fc_BaseURL cfg) (fc_AccessToken cfg) (fc_Model cfg) (fc_Timeout cfg) (fc_MaxTokens cfg) False);
         m = TrimSpace (lq_Model req)
     in Router_Stream U r w req =
        (if m = [] \<or> m = fc_Model cfg then p w req
         else (Inl (''no llm provider configured for model '' @ Quote U (lq_Model req)), w)))"
  using assms by (auto simp: NewFromConfig_def Let_def Router_Stream_def split: if_splits)

definition demo_cfg :: FactoryConfig where
  "demo_cfg = \<lparr> fc_Provider = ''modelscope'', fc_BaseURL = ''u'', fc_AccessToken = ''k'', fc_Model = ''Qwen/x'',
     fc_MaxTokens = 0, fc_Timeout = 0 \<rparr>"

lemma demo_router: "\<exists>r :: unit ModelRouter. NewFromConfig ascii_unicode (\<lambda>p w req. (Inr [], w)) demo_cfg = Inr (RouterProvider r)"
  by (simp add: NewFromConfig_def demo_cfg_def ascii_unicode_def ToLower_id ord_def Let_def HasPrefix_def)

theorem NewFromConfig_routes_witness:
  "\<exists>r. Router_Stream ascii_unicode r () \<lparr> lq_Model = ''gpt'', lq_Messages = [], lq_Tools = [], lq_MaxTokens = 0 \<rparr> =
     (Inl (''no llm provider configured for model '' @ Quote ascii_unicode ''gpt''), ())"
proof -
  obtain r :: "unit ModelRouter" where "NewFromConfig ascii_unicode (\<lambda>p w req. (Inr [], w)) demo_cfg = Inr (RouterProvider r)"
    using demo_router by blast
  note n = this
  have t: "TrimSpace ''gpt'' = ''gpt''" by (simp add: text_eval)
  have "Router_Stream ascii_unicode r () \<lparr> lq_Model = ''gpt'', lq_Messages = [], lq_Tools = [], lq_MaxTokens = 0 \<rparr> =
     (Inl (''no llm provider configured for model '' @ Quote ascii_unicode ''gpt''), ())"
    using conjunct2 [OF conjunct2 [OF NewFromConfig_routes [OF n,
      of "\<lparr> lq_Model = ''gpt'', lq_Messages = [], lq_Tools = [], lq_MaxTokens = 0 \<rparr>" "()"]]]
    by (simp only: Let_def LReq.select_convs t) (simp add: demo_cfg_def)
  then show ?thesis by blast
qed

end
