(* ===== verification/Sha256.thy ===== *)
theory Sha256
  imports GoText
begin

text \<open>
  crypto/sha256 and encoding/hex of the Go standard library, which the code uses for cache keys,
  chunk ids, content digests and feature hashing. The digest is the list of its 32 bytes.
\<close>

unbundle bit_operations_syntax

type_synonym w32 = "32 word"

text \<open>The constants: the first 32 fractional bits of the cube roots of the first 64 primes and of the square
  roots of the first eight.\<close>

fun icbrt :: "nat \<Rightarrow> nat" where
  "icbrt n = (if n = 0 then 0
     else let r = 2 * icbrt (n div 8) in if (r + 1) ^ 3 \<le> n then r + 1 else r)"

declare icbrt.simps [simp del]

definition small_primes :: "nat list" where
  "small_primes = filter (\<lambda>n. list_all (\<lambda>d. n mod d \<noteq> 0) [2..<n]) [2..<312]"

definition K256 :: "w32 list" where
  "K256 = map (\<lambda>p. word_of_nat (icbrt (p * 2 ^ 96))) small_primes"

definition H256 :: "w32 list" where
  "H256 = map (\<lambda>p. word_of_nat (isqrt (p * 2 ^ 64))) [2, 3, 5, 7, 11, 13, 17, 19]"

definition rotr :: "nat \<Rightarrow> w32 \<Rightarrow> w32" where "rotr n x = word_rotr n x"

text \<open>Padding: a one bit, zeros, and the length in bits as a 64-bit big-endian number.\<close>

definition be_bytes :: "nat \<Rightarrow> nat \<Rightarrow> nat list" where
  "be_bytes k n = map (\<lambda>i. n div 256 ^ (k - 1 - i) mod 256) [0..<k]"

definition sha_pad :: "nat list \<Rightarrow> nat list" where
  "sha_pad bs = bs @ [0x80] @ replicate ((119 - length bs mod 64) mod 64) 0 @ be_bytes 8 (8 * length bs)"

fun blocks :: "nat \<Rightarrow> 'a list \<Rightarrow> 'a list list" where
  "blocks 0 xs = []"
| "blocks (Suc n) xs = take 64 xs # blocks n (drop 64 xs)"

fun words32 :: "nat list \<Rightarrow> w32 list" where
  "words32 (a # b # c # d # r) = word_of_nat (a * 16777216 + b * 65536 + c * 256 + d) # words32 r"
| "words32 _ = []"

definition next_w :: "w32 list \<Rightarrow> w32" where
  "next_w w =
     (let x15 = w ! (length w - 15); x2 = w ! (length w - 2);
          s0 = rotr 7 x15 XOR rotr 18 x15 XOR drop_bit 3 x15;
          s1 = rotr 17 x2 XOR rotr 19 x2 XOR drop_bit 10 x2
      in w ! (length w - 16) + s0 + w ! (length w - 7) + s1)"

definition schedule :: "w32 list \<Rightarrow> w32 list" where
  "schedule w = ((\<lambda>w. w @ [next_w w]) ^^ 48) w"

fun sha_round :: "w32 list \<Rightarrow> w32 \<times> w32 \<Rightarrow> w32 list" where
  "sha_round [a, b, c, d, e, f, g, h] (k, w) =
     (let s1 = rotr 6 e XOR rotr 11 e XOR rotr 25 e;
          ch = (e AND f) XOR (NOT e AND g);
          t1 = h + s1 + ch + k + w;
          s0 = rotr 2 a XOR rotr 13 a XOR rotr 22 a;
          maj = (a AND b) XOR (a AND c) XOR (b AND c)
      in [t1 + (s0 + maj), a, b, c, d + t1, e, f, g])"
| "sha_round hs _ = hs"

definition sha_block :: "w32 list \<Rightarrow> nat list \<Rightarrow> w32 list" where
  "sha_block hs blk = map2 (+) hs (foldl sha_round hs (zip K256 (schedule (words32 blk))))"

definition Sum256 :: "string \<Rightarrow> nat list" where
  "Sum256 s =
     (let p = sha_pad (map ord s)
      in concat (map (\<lambda>w. be_bytes 4 (unat w)) (foldl sha_block H256 (blocks (length p div 64) p))))"

definition hex_EncodeToString :: "nat list \<Rightarrow> string" where
  "hex_EncodeToString bs = concat (map (\<lambda>b. [hex_digit (b div 16), hex_digit (b mod 16)]) bs)"

lemma hex_length [simp]: "length (hex_EncodeToString bs) = 2 * length bs"
  by (induction bs) (simp_all add: hex_EncodeToString_def)

lemma sha_round_length: "length (sha_round hs x) = length hs"
  by (induction hs x rule: sha_round.induct) (simp_all add: Let_def)

lemma sha_rounds_length: "length (foldl sha_round hs xs) = length hs"
  by (induction xs arbitrary: hs) (simp_all add: sha_round_length)

lemma sha_block_length: "length (sha_block hs blk) = length hs"
  by (simp add: sha_block_def sha_rounds_length)

lemma sha_blocks_length: "length (foldl sha_block hs bs) = length hs"
  by (induction bs arbitrary: hs) (simp_all add: sha_block_length)

lemma concat_be_length: "length (concat (map (\<lambda>w::w32. be_bytes 4 (unat w)) ws)) = 4 * length ws"
  by (induction ws) (simp_all add: be_bytes_def)

lemma Sum256_length [simp]: "length (Sum256 s) = 32"
  unfolding Sum256_def Let_def concat_be_length sha_blocks_length by (simp add: H256_def)

end
