(* ===== verification/Skill.thy ===== *)
theory Skill
  imports Sha256 "HOL-Library.Char_ord" "HOL-Library.List_Lexorder" "HOL-Library.Product_Lexorder"
    "HOL-Library.Multiset"
begin

text \<open>
  internal/skill: the SKILL.md indexer with its front matter parser (skill.go), the rule-based
  selector, its scoring and the caching selector (selector.go), and the gRPC client's conversion
  (grpc_client.go). The file system, the clock and the iteration order of Go maps are parameters.
\<close>

section \<open>Text\<close>

definition is_word_rune :: "Unicode \<Rightarrow> nat \<Rightarrow> bool" where
  "is_word_rune U r =
     (if r < 0x80 then (48 \<le> r \<and> r \<le> 57) \<or> (65 \<le> r \<and> r \<le> 90) \<or> (97 \<le> r \<and> r \<le> 122) \<or> r = 95 \<or> r = 45
      else uc_alnum U r)"

definition normalizeQuery :: "Unicode \<Rightarrow> string \<Rightarrow> string" where
  "normalizeQuery U q = Join (Fields (ToLower (uc_lower U) (TrimSpace q))) '' ''"

text \<open>The set of seen parts only drops repetitions, so the sorted result is that of remdups.\<close>

definition tokenize :: "Unicode \<Rightarrow> string \<Rightarrow> string list" where
  "tokenize U q = sort (remdups (filter (\<lambda>p. 2 \<le> length (runes p))
     (map (\<lambda>p. Trim p ''_-'') (FieldsFunc (\<lambda>r. \<not> is_word_rune U r) q))))"

section \<open>Skills and the index\<close>

datatype skill_error =
    ErrMissingFrontmatter
  | ErrMissingName
  | ErrMissingDescription
  | NotADirectory string
  | SkillIO string
  | AtPath string skill_error
  | DuplicateName string

record Skill =
  sk_Name :: string
  sk_Description :: string
  sk_SHA256 :: string
  sk_Path :: string
  sk_Content :: string

record SkillIndex =
  ix_Skills :: "Skill list"
  ix_ByName :: "string \<rightharpoonup> Skill"

definition empty_index :: SkillIndex where
  "empty_index = \<lparr> ix_Skills = [], ix_ByName = Map.empty \<rparr>"

section \<open>Front matter\<close>

definition BOM :: string where "BOM = [CHR 0xEF, CHR 0xBB, CHR 0xBF]"

record Metadata =
  md_Name :: string
  md_Description :: string

definition meta_line :: "Unicode \<Rightarrow> Metadata \<Rightarrow> string \<Rightarrow> Metadata" where
  "meta_line U meta line0 =
     (let line = TrimSpace line0 in
      if line = [] \<or> HasPrefix line ''#'' then meta
      else (let (key0, val0, ok) = Cut line '':'' in
        if \<not> ok then meta
        else (let key = ToLower (uc_lower U) (TrimSpace key0);
                  val = Trim (TrimSpace val0) [CHR 0x22, CHR 0x27] in
          if key = ''name'' then meta\<lparr> md_Name := val \<rparr>
          else if key = ''description'' then meta\<lparr> md_Description := val \<rparr>
          else meta)))"

definition parseFrontmatter :: "Unicode \<Rightarrow> string \<Rightarrow> (skill_error, Metadata) result" where
  "parseFrontmatter U raw0 =
     (let raw = TrimPrefix raw0 BOM in
      if \<not> HasPrefix raw (''---'' @ [CHR 0x0A]) \<and> \<not> HasPrefix raw (''---'' @ [CHR 0x0D, CHR 0x0A])
      then Inl ErrMissingFrontmatter
      else (let lines = Split raw [CHR 0x0A] in
        if length lines < 3 \<or> TrimSpace (lines ! 0) \<noteq> ''---'' then Inl ErrMissingFrontmatter
        else (case find (\<lambda>i. TrimSpace (lines ! i) = ''---'') [1..<length lines] of
            None \<Rightarrow> Inl ErrMissingFrontmatter
          | Some stop \<Rightarrow>
              (let meta = foldl (meta_line U) \<lparr> md_Name = [], md_Description = [] \<rparr> (drop 1 (take stop lines)) in
               if md_Name meta = [] then Inl ErrMissingName
               else if md_Description meta = [] then Inl ErrMissingDescription
               else Inr meta))))"

section \<open>Indexer\<close>

text \<open>os.Stat of the root, the entries filepath.WalkDir visits (path, base name, directory), or
  the error that ends the walk, and os.ReadFile.\<close>

datatype stat_result = NotExist | StatError string | IsDir | IsFile

record FileSystem =
  fs_Stat :: "string \<Rightarrow> stat_result"
  fs_Walk :: "string \<Rightarrow> (string, (string \<times> string \<times> bool) list) result"
  fs_Read :: "string \<Rightarrow> (string, string) result"

definition index_file :: "Unicode \<Rightarrow> FileSystem \<Rightarrow> SkillIndex \<Rightarrow> string \<Rightarrow> (skill_error, SkillIndex) result" where
  "index_file U F out path =
     (case fs_Read F path of
        Inl e \<Rightarrow> Inl (SkillIO e)
      | Inr raw \<Rightarrow>
          (case parseFrontmatter U raw of
             Inl e \<Rightarrow> Inl (AtPath path e)
           | Inr meta \<Rightarrow>
               if ix_ByName out (md_Name meta) \<noteq> None then Inl (DuplicateName (md_Name meta))
               else (let s = \<lparr> sk_Name = md_Name meta, sk_Description = md_Description meta,
                               sk_SHA256 = hex_EncodeToString (Sum256 raw), sk_Path = path, sk_Content = raw \<rparr>
                     in Inr \<lparr> ix_Skills = ix_Skills out @ [s], ix_ByName = (ix_ByName out)(sk_Name s \<mapsto> s) \<rparr>)))"

fun index_files :: "Unicode \<Rightarrow> FileSystem \<Rightarrow> SkillIndex \<Rightarrow> string list \<Rightarrow> (skill_error, SkillIndex) result" where
  "index_files U F out [] = Inr out"
| "index_files U F out (p # ps) = bindR (index_file U F out p) (\<lambda>out1. index_files U F out1 ps)"

definition Indexer_Load :: "Unicode \<Rightarrow> FileSystem \<Rightarrow> string \<Rightarrow> (skill_error, SkillIndex) result" where
  "Indexer_Load U F Root =
     (let root0 = TrimSpace Root; root = (if root0 = [] then ''skills'' else root0) in
      case fs_Stat F root of
        NotExist \<Rightarrow> Inr empty_index
      | StatError e \<Rightarrow> Inl (SkillIO e)
      | IsFile \<Rightarrow> Inl (NotADirectory root)
      | IsDir \<Rightarrow>
          (case fs_Walk F root of
             Inl e \<Rightarrow> Inl (SkillIO e)
           | Inr es \<Rightarrow>
               index_files U F empty_index
                 (sort (map fst (filter (\<lambda>(p, name, dir). \<not> dir \<and> name = ''SKILL.md'') es)))))"

section \<open>Rendering\<close>

definition RenderSkills :: "Skill list \<Rightarrow> string" where
  "RenderSkills skills =
     (if skills = [] then []
      else ''Relevant AgentForge skills have been dynamically loaded for this run.'' @ [CHR 0x0A] @
        ''Follow these skill instructions when they apply, while preserving the user'' @ [CHR 0x27] @ ''s request.'' @ [CHR 0x0A] @
        concat (map (\<lambda>s. [CHR 0x0A] @ ''--- SKILL: '' @ sk_Name s @ '' (sha256='' @
            (if length (sk_SHA256 s) \<ge> 12 then take 12 (sk_SHA256 s) else sk_SHA256 s) @ '') ---'' @ [CHR 0x0A] @
            TrimSpace (sk_Content s) @ [CHR 0x0A]) skills))"

section \<open>Rule selector\<close>

definition token_score :: "string \<Rightarrow> string \<Rightarrow> string \<Rightarrow> string \<Rightarrow> int" where
  "token_score name desc content tk =
     (if tk = name then 10
      else if Contains name tk then 6
      else if Contains desc tk then 3
      else if length tk \<ge> 4 \<and> Contains content tk then 1
      else 0)"

definition scoreSkill :: "Unicode \<Rightarrow> string \<Rightarrow> string list \<Rightarrow> Skill \<Rightarrow> int" where
  "scoreSkill U query tokens sk =
     (let name = ToLower (uc_lower U) (sk_Name sk);
          desc = ToLower (uc_lower U) (sk_Description sk);
          content = ToLower (uc_lower U) (sk_Content sk)
      in (if length (runes name) \<ge> 3 \<and> Contains query name then 12 else 0) +
         (\<Sum>tk\<leftarrow>tokens. token_score name desc content tk))"

text \<open>sort.SliceStable with the comparison of score (descending), name and path is the stable sort
  by this key.\<close>

definition match_key :: "Skill \<times> int \<Rightarrow> int \<times> string \<times> string" where
  "match_key m = (- snd m, sk_Name (fst m), sk_Path (fst m))"

definition rule_matches :: "Unicode \<Rightarrow> SkillIndex \<Rightarrow> string \<Rightarrow> (Skill \<times> int) list" where
  "rule_matches U ix query =
     filter (\<lambda>m. snd m > 0)
       (map (\<lambda>sk. (sk, scoreSkill U query (tokenize U query) sk)) (ix_Skills ix))"

definition RuleSelector_Select :: "Unicode \<Rightarrow> SkillIndex \<Rightarrow> int \<Rightarrow> string \<Rightarrow> Skill list" where
  "RuleSelector_Select U ix TopK query0 =
     (let topK = (if TopK < 0 then 0 else TopK);
          query = normalizeQuery U query0 in
      if query = [] \<or> topK = 0 \<or> ix_Skills ix = [] then []
      else (let matches = sort_key match_key (rule_matches U ix query);
                topK1 = (if topK > int (length matches) then int (length matches) else topK)
            in map fst (take (nat topK1) matches)))"

section \<open>Caching selector\<close>

record cacheEntry =
  ce_expires :: int
  ce_hitAt :: int
  ce_skills :: "Skill list"

text \<open>The map of entries as an association list; iter is the order in which a range over the map
  visits its entries.\<close>

type_synonym entries = "(string \<times> cacheEntry) list"

record CachedSelector =
  cs_TTL :: int
  cs_Capacity :: int
  cs_entries :: entries

definition cacheKey :: "Unicode \<Rightarrow> string \<Rightarrow> string" where
  "cacheKey U query = hex_EncodeToString (Sum256 (normalizeQuery U query))"

definition older :: "(string \<times> cacheEntry) option \<Rightarrow> string \<times> cacheEntry \<Rightarrow> (string \<times> cacheEntry) option" where
  "older acc e = (case acc of None \<Rightarrow> Some e
     | Some o' \<Rightarrow> if ce_hitAt (snd e) < ce_hitAt (snd o') then Some e else Some o')"

definition oldest :: "entries \<Rightarrow> (string \<times> cacheEntry) option" where
  "oldest es = foldl older None es"

text \<open>Each round deletes one entry, so the number of entries bounds the rounds.\<close>

fun evict_rounds :: "(entries \<Rightarrow> entries) \<Rightarrow> nat \<Rightarrow> int \<Rightarrow> entries \<Rightarrow> entries" where
  "evict_rounds iter 0 capacity es = es"
| "evict_rounds iter (Suc n) capacity es =
     (if int (length es) > capacity then
        (case oldest (iter es) of
           None \<Rightarrow> es
         | Some (k, _) \<Rightarrow> evict_rounds iter n capacity (filter (\<lambda>e. fst e \<noteq> k) es))
      else es)"

definition evictLocked :: "(entries \<Rightarrow> entries) \<Rightarrow> int \<Rightarrow> entries \<Rightarrow> entries" where
  "evictLocked iter capacity es = evict_rounds iter (length es) capacity es"

definition put_entry :: "string \<Rightarrow> cacheEntry \<Rightarrow> entries \<Rightarrow> entries" where
  "put_entry k e es = (k, e) # filter (\<lambda>p. fst p \<noteq> k) es"

definition cs_refresh ::
    "(entries \<Rightarrow> entries) \<Rightarrow> ('w \<Rightarrow> string \<Rightarrow> ('e, Skill list) result \<times> 'w) \<Rightarrow> int \<Rightarrow> string \<Rightarrow>
     CachedSelector \<Rightarrow> 'w \<Rightarrow> string \<Rightarrow> ('e, Skill list) result \<times> CachedSelector \<times> 'w" where
  "cs_refresh iter sel now key c w query =
     (case sel w query of
        (Inl e, w1) \<Rightarrow> (Inl e, c, w1)
      | (Inr selected, w1) \<Rightarrow>
          (Inr selected, c\<lparr> cs_entries := evictLocked iter (cs_Capacity c) (put_entry key
             \<lparr> ce_expires = now + cs_TTL c, ce_hitAt = now, ce_skills = selected \<rparr> (cs_entries c)) \<rparr>, w1))"

definition CachedSelector_Select ::
    "Unicode \<Rightarrow> (entries \<Rightarrow> entries) \<Rightarrow> ('w \<Rightarrow> string \<Rightarrow> ('e, Skill list) result \<times> 'w) option \<Rightarrow>
     int \<Rightarrow> CachedSelector \<Rightarrow> 'w \<Rightarrow> string \<Rightarrow> ('e, Skill list) result \<times> CachedSelector \<times> 'w" where
  "CachedSelector_Select U iter next now c w query =
     (case next of
        None \<Rightarrow> (Inr [], c, w)
      | Some sel \<Rightarrow>
          if cs_TTL c \<le> 0 \<or> cs_Capacity c \<le> 0 then (let (r, w1) = sel w query in (r, c, w1))
          else (let key = cacheKey U query in
            case map_of (cs_entries c) key of
              None \<Rightarrow> cs_refresh iter sel now key c w query
            | Some ent \<Rightarrow>
                if now < ce_expires ent
                then (Inr (ce_skills ent), c\<lparr> cs_entries := put_entry key (ent\<lparr> ce_hitAt := now \<rparr>) (cs_entries c) \<rparr>, w)
                else cs_refresh iter sel now key c w query))"

section \<open>gRPC client\<close>

text \<open>The request carries TopK as a uint32; the response's documents are copied field by field.\<close>

definition GRPCSelector_Select ::
    "('w \<Rightarrow> string \<times> nat \<Rightarrow> ('e, (string \<times> string \<times> string \<times> string \<times> string) list) result \<times> 'w) option \<Rightarrow>
     int \<Rightarrow> 'w \<Rightarrow> string \<Rightarrow> ('e, Skill list) result \<times> 'w" where
  "GRPCSelector_Select client TopK w query =
     (case client of
        None \<Rightarrow> (Inr [], w)
      | Some call \<Rightarrow>
          (let (resp, w1) = call w (query, nat (TopK mod 2 ^ 32)) in
           (case resp of
              Inl e \<Rightarrow> Inl e
            | Inr docs \<Rightarrow> Inr (map (\<lambda>(n, d, h, p, c).
                \<lparr> sk_Name = n, sk_Description = d, sk_SHA256 = h, sk_Path = p, sk_Content = c \<rparr>) docs), w1)))"

text \<open>cmd/skilld: the service answers with its selector's documents, whatever TopK was asked.\<close>

definition SelectSkills :: "Unicode \<Rightarrow> SkillIndex \<Rightarrow> int \<Rightarrow> string \<times> nat \<Rightarrow>
    (string \<times> string \<times> string \<times> string \<times> string) list" where
  "SelectSkills U ix TopK req =
     map (\<lambda>s. (sk_Name s, sk_Description s, sk_SHA256 s, sk_Path s, sk_Content s))
       (RuleSelector_Select U ix TopK (fst req))"

section \<open>What the index holds\<close>

text \<open>A loaded index: unique names, the lookup table of exactly the listed skills, and a content
  digest per skill.\<close>

definition index_ok :: "SkillIndex \<Rightarrow> bool" where
  "index_ok ix = (distinct (map sk_Name (ix_Skills ix)) \<and>
     (\<forall>n s. ix_ByName ix n = Some s \<longleftrightarrow> s \<in> set (ix_Skills ix) \<and> sk_Name s = n) \<and>
     (\<forall>s\<in>set (ix_Skills ix). sk_Name s \<noteq> [] \<and> sk_Description s \<noteq> [] \<and>
        sk_SHA256 s = hex_EncodeToString (Sum256 (sk_Content s))))"

lemma parseFrontmatter_ok:
  "parseFrontmatter U raw = Inr meta \<Longrightarrow> md_Name meta \<noteq> [] \<and> md_Description meta \<noteq> []"
  by (auto simp: parseFrontmatter_def Let_def split: if_splits option.splits)

lemma index_file_ok:
  assumes "index_ok ix" "index_file U F ix path = Inr ix'"
  shows "index_ok ix' \<and> map sk_Path (ix_Skills ix') = map sk_Path (ix_Skills ix) @ [path]"
proof -
  from assms(2) obtain raw meta where r: "fs_Read F path = Inr raw" "parseFrontmatter U raw = Inr meta"
    and n: "ix_ByName ix (md_Name meta) = None"
    by (auto simp: index_file_def split: sum.splits if_splits)
  let ?s = "\<lparr> sk_Name = md_Name meta, sk_Description = md_Description meta,
     sk_SHA256 = hex_EncodeToString (Sum256 raw), sk_Path = path, sk_Content = raw \<rparr>"
  have ix': "ix' = \<lparr> ix_Skills = ix_Skills ix @ [?s], ix_ByName = (ix_ByName ix)(md_Name meta \<mapsto> ?s) \<rparr>"
    using assms(2) r n by (simp add: index_file_def Let_def)
  have new: "md_Name meta \<notin> sk_Name ` set (ix_Skills ix)"
  proof
    assume "md_Name meta \<in> sk_Name ` set (ix_Skills ix)"
    then obtain s where "s \<in> set (ix_Skills ix)" "sk_Name s = md_Name meta" by auto
    then have "ix_ByName ix (md_Name meta) = Some s" using assms(1) unfolding index_ok_def by blast
    then show False using n by simp
  qed
  have nm: "sk_Name s \<noteq> md_Name meta" if "s \<in> set (ix_Skills ix)" for s
    using new that by (metis imageI)
  show ?thesis
    using assms(1) parseFrontmatter_ok [OF r(2)] nm new unfolding ix' index_ok_def
    by auto
qed

lemma index_files_ok:
  assumes "index_ok ix" "index_files U F ix ps = Inr ix'"
  shows "index_ok ix' \<and> map sk_Path (ix_Skills ix') = map sk_Path (ix_Skills ix) @ ps"
  using assms
proof (induction ps arbitrary: ix)
  case (Cons p ps)
  then obtain ix1 where 1: "index_file U F ix p = Inr ix1" "index_files U F ix1 ps = Inr ix'"
    by (auto simp: bindR_eq_Inr)
  from index_file_ok [OF Cons.prems(1) 1(1)] Cons.IH [OF _ 1(2)] show ?case by simp
qed simp

lemma Load_cases:
  assumes "Indexer_Load U F Root = Inr ix"
  obtains (none) "ix = empty_index"
    | (files) es root where "fs_Walk F root = Inr es"
        "index_files U F empty_index
           (sort (map fst (filter (\<lambda>(p, name, dir). \<not> dir \<and> name = ''SKILL.md'') es))) = Inr ix"
  using assms by (auto simp: Indexer_Load_def Let_def split: stat_result.splits sum.splits)

lemma empty_index_ok: "index_ok empty_index"
  by (simp add: index_ok_def empty_index_def)

text \<open>A loaded index has distinct, non-empty names and descriptions, its name table finds exactly
  the listed skills, every digest is the SHA-256 of the content, and the skills are listed in path order.\<close>

theorem Load_index_ok:
  assumes "Indexer_Load U F Root = Inr ix"
  shows "index_ok ix \<and> sorted (map sk_Path (ix_Skills ix))"
  using assms
proof (cases rule: Load_cases)
  case none
  then show ?thesis using empty_index_ok by (simp add: empty_index_def)
next
  case (files es root)
  from index_files_ok [OF empty_index_ok files(2)] show ?thesis by (simp add: empty_index_def)
qed

section \<open>Selection\<close>

lemma sorted_take_drop:
  assumes "sorted (map f xs)" "x \<in> set (take n xs)" "y \<in> set (drop n xs)"
  shows "f x \<le> f y"
proof -
  have "sorted (map f (take n xs) @ map f (drop n xs))"
    using assms(1) by (metis append_take_drop_id map_append)
  then show ?thesis using assms(2,3) by (auto simp: sorted_append)
qed

lemma map_fst_pairs: "(\<forall>m\<in>set ms. m = (fst m, g (fst m))) \<Longrightarrow> map (\<lambda>s. h (s, g s)) (map fst ms) = map h ms"
  by (induction ms) auto

lemma RuleSelector_unfold:
  assumes "normalizeQuery U q \<noteq> []" "0 < K"
  shows "RuleSelector_Select U ix K q =
    map fst (take (nat K) (sort_key match_key (rule_matches U ix (normalizeQuery U q))))"
proof -
  let ?m = "sort_key match_key (rule_matches U ix (normalizeQuery U q))"
  have t: "take (nat (if K > int (length ?m) then int (length ?m) else K)) ?m = take (nat K) ?m"
    by simp
  show ?thesis
  proof (cases "ix_Skills ix = []")
    case True
    then show ?thesis using assms by (simp add: RuleSelector_Select_def rule_matches_def)
  next
    case False
    then show ?thesis using assms t by (simp add: RuleSelector_Select_def Let_def)
  qed
qed

text \<open>C32: the rule selector returns at most TopK skills of the index, all with a positive score, in the
  order of score, name and path, and every positive match it leaves out comes after every one it
  returns.\<close>

theorem RuleSelector_topk:
  fixes U ix K q
  defines "query \<equiv> normalizeQuery U q"
  defines "key \<equiv> (\<lambda>s. match_key (s, scoreSkill U query (tokenize U query) s))"
  assumes "query \<noteq> []" "0 < K"
  shows "\<exists>left. mset (RuleSelector_Select U ix K q) + mset left =
      mset (filter (\<lambda>s. scoreSkill U query (tokenize U query) s > 0) (ix_Skills ix)) \<and>
    length (RuleSelector_Select U ix K q) \<le> nat K \<and>
    (left \<noteq> [] \<longrightarrow> length (RuleSelector_Select U ix K q) = nat K) \<and>
    sorted (map key (RuleSelector_Select U ix K q)) \<and>
    (\<forall>s\<in>set (RuleSelector_Select U ix K q). \<forall>s'\<in>set left. key s \<le> key s')"
proof -
  let ?sc = "scoreSkill U query (tokenize U query)"
  let ?ms = "rule_matches U ix query"
  let ?m = "sort_key match_key ?ms"
  have R: "RuleSelector_Select U ix K q = map fst (take (nat K) ?m)"
    using RuleSelector_unfold assms(3,4) unfolding query_def by blast
  have pair: "\<forall>m\<in>set ?m. m = (fst m, ?sc (fst m))" by (auto simp: rule_matches_def)
  have fstm: "map fst ?ms = filter (\<lambda>s. ?sc s > 0) (ix_Skills ix)"
    unfolding rule_matches_def by (induction "ix_Skills ix") (simp_all add: filter_map comp_def)
  have keys: "map key (map fst ms) = map match_key ms" if "set ms \<subseteq> set ?m" for ms
  proof -
    have "\<forall>m\<in>set ms. m = (fst m, ?sc (fst m))" using pair that by blast
    from map_fst_pairs [OF this, of match_key] show ?thesis unfolding key_def .
  qed
  have srt: "sorted (map match_key ?m)" by simp
  define left where "left = map fst (drop (nat K) ?m)"
  have "mset (map fst (take (nat K) ?m)) + mset left = mset (map fst ?m)"
    unfolding left_def by (metis append_take_drop_id map_append mset_append)
  also have "\<dots> = mset (map fst ?ms)" by simp
  finally have 1: "mset (map fst (take (nat K) ?m)) + mset left = mset (filter (\<lambda>s. ?sc s > 0) (ix_Skills ix))"
    unfolding fstm .
  have 2: "sorted (map key (map fst (take (nat K) ?m)))"
    unfolding keys [OF set_take_subset] using srt by (simp add: sorted_wrt_take flip: take_map)
  have kp: "key (fst m) = match_key m" if "m \<in> set ?m" for m
    using bspec [OF pair that] unfolding key_def by (metis prod.collapse)
  have 3: "key s \<le> key s'" if h: "s \<in> set (map fst (take (nat K) ?m))" "s' \<in> set left" for s s'
  proof -
    obtain m m' where m: "m \<in> set (take (nat K) ?m)" "s = fst m" "m' \<in> set (drop (nat K) ?m)" "s' = fst m'"
      using h unfolding left_def set_map by (elim imageE)
    have "match_key m \<le> match_key m'" by (rule sorted_take_drop [OF srt m(1,3)])
    then show ?thesis using kp [of m] kp [of m'] m in_set_takeD in_set_dropD by metis
  qed
  have 4: "left \<noteq> [] \<longrightarrow> length (map fst (take (nat K) ?m)) = nat K" by (simp add: left_def)
  show ?thesis unfolding R using 1 2 3 4 by (intro exI [of _ left]) simp
qed

section \<open>The cache\<close>

lemma older_foldl: "\<exists>y. foldl older (Some x) es = Some y \<and> y \<in> insert x (set es)"
proof (induction es arbitrary: x)
  case (Cons e es)
  let ?x = "if ce_hitAt (snd e) < ce_hitAt (snd x) then e else x"
  have "foldl older (Some x) (e # es) = foldl older (Some ?x) es" by (simp add: older_def)
  with Cons.IH [of ?x] show ?case by (auto split: if_splits)
qed simp

lemma oldest_mem: "es \<noteq> [] \<Longrightarrow> \<exists>y\<in>set es. oldest es = Some y"
proof (cases es)
  case (Cons e r)
  then show ?thesis using older_foldl [of e r] by (auto simp: oldest_def older_def)
qed simp

lemma evict_rounds_subset: "set (evict_rounds iter n cap es) \<subseteq> set es"
proof (induction n arbitrary: es)
  case (Suc n)
  show ?case
  proof (cases "oldest (iter es)")
    case (Some y)
    have "set (evict_rounds iter n cap (filter (\<lambda>e. fst e \<noteq> fst y) es)) \<subseteq> set es"
      using Suc.IH [of "filter (\<lambda>e. fst e \<noteq> fst y) es"] by auto
    then show ?thesis using Some by (cases y) simp
  qed simp
qed simp

lemma evict_rounds_length:
  assumes "\<forall>es. mset (iter es) = mset es" "length es \<le> n" "0 \<le> cap"
  shows "int (length (evict_rounds iter n cap es)) \<le> cap"
  using assms(2)
proof (induction n arbitrary: es)
  case (Suc n)
  show ?case
  proof (cases "int (length es) > cap")
    case True
    have st: "set (iter es) = set es" using assms(1) by (metis set_mset_mset)
    have "es \<noteq> []" using True assms(3) by auto
    then have "iter es \<noteq> []" using st by fastforce
    then obtain k e where o: "oldest (iter es) = Some (k, e)" and mem: "(k, e) \<in> set es"
      using oldest_mem [of "iter es"] st by (metis surj_pair)
    have "length (filter (\<lambda>e. fst e \<noteq> k) es) < length es"
      by (rule length_filter_less [OF mem]) simp
    then have "length (filter (\<lambda>e. fst e \<noteq> k) es) \<le> n" using Suc.prems by simp
    from Suc.IH [OF this] show ?thesis using True o by simp
  qed simp
qed (use assms(3) in simp)

lemma put_entry_set: "set (put_entry k e es) \<subseteq> insert (k, e) (set es)"
  by (auto simp: put_entry_def)

lemma put_entry_length: "map_of es k \<noteq> None \<Longrightarrow> length (put_entry k e es) \<le> length es"
proof -
  assume "map_of es k \<noteq> None"
  then obtain v where "map_of es k = Some v" by blast
  then have "(k, v) \<in> set es" by (rule map_of_SomeD)
  from length_filter_less [OF this, of "\<lambda>p. fst p \<noteq> k"] show ?thesis by (simp add: put_entry_def)
qed

text \<open>The contract the cache needs of the selector behind it: it does not fail, and its answer
  depends on the normalised query alone.\<close>

locale normalized_selector =
  fixes U :: Unicode
    and answer :: "string \<Rightarrow> Skill list"
    and sel :: "unit \<Rightarrow> string \<Rightarrow> (string, Skill list) result \<times> unit"
  assumes sel_answer: "sel w q = (Inr (answer (normalizeQuery U q)), w)"
begin

definition entry_ok :: "string set \<Rightarrow> string \<times> cacheEntry \<Rightarrow> bool" where
  "entry_ok Q e = (\<exists>q\<in>Q. fst e = cacheKey U q \<and> ce_skills (snd e) = answer (normalizeQuery U q))"

definition cache_ok :: "string set \<Rightarrow> CachedSelector \<Rightarrow> bool" where
  "cache_ok Q c = ((\<forall>e\<in>set (cs_entries c). entry_ok Q e) \<and>
     (0 \<le> cs_Capacity c \<longrightarrow> int (length (cs_entries c)) \<le> cs_Capacity c))"

lemma refresh_ok:
  assumes "\<forall>es. mset (iter es) = mset es" "cache_ok Q c" "q \<in> Q" "0 < cs_Capacity c"
    and "cs_refresh iter sel now (cacheKey U q) c w q = (r, c', w')"
  shows "r = Inr (answer (normalizeQuery U q)) \<and> cache_ok Q c' \<and> cs_Capacity c' = cs_Capacity c \<and> cs_TTL c' = cs_TTL c"
proof -
  let ?e = "\<lparr> ce_expires = now + cs_TTL c, ce_hitAt = now, ce_skills = answer (normalizeQuery U q) \<rparr>"
  let ?es = "put_entry (cacheKey U q) ?e (cs_entries c)"
  have c': "c' = c\<lparr> cs_entries := evictLocked iter (cs_Capacity c) ?es \<rparr>"
    and r: "r = Inr (answer (normalizeQuery U q))"
    using assms(5) by (simp_all add: cs_refresh_def sel_answer)
  have "entry_ok Q (cacheKey U q, ?e)" using assms(3) by (auto simp: entry_ok_def)
  then have "\<forall>e\<in>set ?es. entry_ok Q e"
    using assms(2) put_entry_set [of "cacheKey U q" ?e "cs_entries c"] unfolding cache_ok_def by blast
  then have "\<forall>e\<in>set (evictLocked iter (cs_Capacity c) ?es). entry_ok Q e"
    using evict_rounds_subset unfolding evictLocked_def by blast
  moreover have "int (length (evictLocked iter (cs_Capacity c) ?es)) \<le> cs_Capacity c"
    unfolding evictLocked_def by (rule evict_rounds_length) (use assms in auto)
  ultimately show ?thesis unfolding c' r by (simp add: cache_ok_def)
qed

lemma select_ok:
  assumes "\<forall>es. mset (iter es) = mset es" "cache_ok Q c" "q \<in> Q"
    and free: "\<forall>a\<in>Q. \<forall>b\<in>Q. cacheKey U a = cacheKey U b \<longrightarrow> normalizeQuery U a = normalizeQuery U b"
    and sel: "CachedSelector_Select U iter (Some sel) now c w q = (r, c', w')"
  shows "r = Inr (answer (normalizeQuery U q)) \<and> cache_ok Q c' \<and> cs_Capacity c' = cs_Capacity c \<and> cs_TTL c' = cs_TTL c"
proof (cases "cs_TTL c \<le> 0 \<or> cs_Capacity c \<le> 0")
  case True
  then show ?thesis using sel assms(2) by (simp add: CachedSelector_Select_def sel_answer)
next
  case False
  note S = sel [unfolded CachedSelector_Select_def Let_def option.case if_not_P [OF False]]
  show ?thesis
  proof (cases "map_of (cs_entries c) (cacheKey U q)")
    case None
    have "cs_refresh iter sel now (cacheKey U q) c w q = (r, c', w')" using S None by simp
    then show ?thesis by (rule refresh_ok [OF assms(1-3), rotated]) (use False in simp)
  next
    case (Some ent)
    show ?thesis
    proof (cases "now < ce_expires ent")
      case False
      have "cs_refresh iter sel now (cacheKey U q) c w q = (r, c', w')" using S Some False by simp
      then show ?thesis by (rule refresh_ok [OF assms(1-3), rotated]) (use \<open>\<not> (cs_TTL c \<le> 0 \<or> cs_Capacity c \<le> 0)\<close> in simp)
    next
      case True
      let ?e = "ent\<lparr> ce_hitAt := now \<rparr>"
      have c': "c' = c\<lparr> cs_entries := put_entry (cacheKey U q) ?e (cs_entries c) \<rparr>" and r: "r = Inr (ce_skills ent)"
        using S Some True by simp_all
      have "(cacheKey U q, ent) \<in> set (cs_entries c)" by (rule map_of_SomeD [OF Some])
      then have ok: "entry_ok Q (cacheKey U q, ent)" using assms(2) unfolding cache_ok_def by blast
      then obtain q' where q': "q' \<in> Q" "cacheKey U q = cacheKey U q'" "ce_skills ent = answer (normalizeQuery U q')"
        by (auto simp: entry_ok_def)
      have ans: "ce_skills ent = answer (normalizeQuery U q)" using free q' assms(3) by metis
      have "entry_ok Q (cacheKey U q, ?e)" using ok by (simp add: entry_ok_def)
      then have "\<forall>e\<in>set (put_entry (cacheKey U q) ?e (cs_entries c)). entry_ok Q e"
        using assms(2) put_entry_set [of "cacheKey U q" ?e "cs_entries c"] unfolding cache_ok_def by blast
      moreover have "length (put_entry (cacheKey U q) ?e (cs_entries c)) \<le> length (cs_entries c)"
        by (rule put_entry_length) (simp add: Some)
      ultimately show ?thesis using assms(2) unfolding c' r ans by (auto simp: cache_ok_def)
    qed
  qed
qed

end

interpretation rule: normalized_selector U "\<lambda>query. if query = [] then [] else
    map fst (take (nat K) (sort_key match_key (rule_matches U ix query)))"
    "\<lambda>w q. (Inr (RuleSelector_Select U ix K q), w)" for U ix K
proof
  fix w :: unit and q
  let ?ans = "\<lambda>query. if query = [] then [] else map fst (take (nat K) (sort_key match_key (rule_matches U ix query)))"
  have "RuleSelector_Select U ix K q = ?ans (normalizeQuery U q)"
  proof (cases "normalizeQuery U q \<noteq> [] \<and> 0 < K")
    case True
    then show ?thesis by (simp add: RuleSelector_unfold)
  next
    case False
    then show ?thesis by (auto simp: RuleSelector_Select_def Let_def)
  qed
  then show "(Inr (RuleSelector_Select U ix K q), w) = (Inr (?ans (normalizeQuery U q)), w)" by simp
qed

text \<open>A session of the cached rule selector: the answers to a list of timed queries.\<close>

fun cached_answers :: "Unicode \<Rightarrow> (entries \<Rightarrow> entries) \<Rightarrow> SkillIndex \<Rightarrow> int \<Rightarrow> CachedSelector \<Rightarrow>
    (int \<times> string) list \<Rightarrow> (string, Skill list) result list \<times> CachedSelector" where
  "cached_answers U iter ix K c [] = ([], c)"
| "cached_answers U iter ix K c ((now, q) # rs) =
     (let (r, c1, _) = CachedSelector_Select U iter (Some (\<lambda>w q. (Inr (RuleSelector_Select U ix K q), w))) now c () q;
          (rs1, c2) = cached_answers U iter ix K c1 rs
      in (r # rs1, c2))"

lemma cached_answers_ok:
  assumes "\<forall>es. mset (iter es) = mset es" "rule.cache_ok U K ix Q c" "snd ` set reqs \<subseteq> Q"
    and "\<forall>a\<in>Q. \<forall>b\<in>Q. cacheKey U a = cacheKey U b \<longrightarrow> normalizeQuery U a = normalizeQuery U b"
  shows "fst (cached_answers U iter ix K c reqs) = map (\<lambda>(now, q). Inr (RuleSelector_Select U ix K q)) reqs \<and>
    rule.cache_ok U K ix Q (snd (cached_answers U iter ix K c reqs)) \<and>
    cs_Capacity (snd (cached_answers U iter ix K c reqs)) = cs_Capacity c"
  using assms(2,3)
proof (induction reqs arbitrary: c)
  case (Cons x reqs)
  obtain now q where x: "x = (now, q)" by (cases x)
  obtain r :: "(string, Skill list) result" and c1 w1 where s: "CachedSelector_Select U iter (Some (\<lambda>w q. (Inr (RuleSelector_Select U ix K q), w))) now c () q = (r, c1, w1)"
    by (metis prod_cases3)
  have q: "q \<in> Q" "snd ` set reqs \<subseteq> Q" using Cons.prems(2) by (simp_all add: x)
  from rule.select_ok [OF assms(1) Cons.prems(1) q(1) assms(4) s]
  have r: "r = Inr (RuleSelector_Select U ix K q)" "rule.cache_ok U K ix Q c1" "cs_Capacity c1 = cs_Capacity c"
    using rule.sel_answer by simp_all
  from s show ?case using Cons.IH [OF r(2) q(2)] r(1,3)
    by (cases "cached_answers U iter ix K c1 reqs") (simp add: x)
qed simp

text \<open>With no digest collision among the queries asked, every answer of the cached rule selector is the
  rule selector's own, whatever the order in which the map is iterated, and the cache never grows past
  its capacity.\<close>

theorem CachedSelector_transparent:
  assumes "\<forall>es. mset (iter es) = mset es"
    and "\<forall>a\<in>snd ` set reqs. \<forall>b\<in>snd ` set reqs. cacheKey U a = cacheKey U b \<longrightarrow> normalizeQuery U a = normalizeQuery U b"
    and "0 \<le> cap"
  shows "let (rs, c) = cached_answers U iter ix K \<lparr> cs_TTL = ttl, cs_Capacity = cap, cs_entries = [] \<rparr> reqs
    in rs = map (\<lambda>(now, q). Inr (RuleSelector_Select U ix K q)) reqs \<and> int (length (cs_entries c)) \<le> cap"
proof -
  let ?c = "\<lparr> cs_TTL = ttl, cs_Capacity = cap, cs_entries = [] \<rparr>"
  have "rule.cache_ok U K ix (snd ` set reqs) ?c" by (simp add: rule.cache_ok_def)
  from cached_answers_ok [OF assms(1) this subset_refl assms(2)] show ?thesis
    using assms(3) by (cases "cached_answers U iter ix K ?c reqs") (auto simp: rule.cache_ok_def)
qed

text \<open>The hypotheses hold for a query asked twice.\<close>

theorem CachedSelector_transparent_witness:
  "let (rs, c) = cached_answers ascii_unicode id \<lparr> ix_Skills = [], ix_ByName = Map.empty \<rparr> 3
       \<lparr> cs_TTL = 10, cs_Capacity = 1, cs_entries = [] \<rparr> [(0, ''go''), (1, ''go'')]
   in rs = map (\<lambda>(now, q). Inr (RuleSelector_Select ascii_unicode \<lparr> ix_Skills = [], ix_ByName = Map.empty \<rparr> 3 q))
        [(0::int, ''go''), (1, ''go'')] \<and> int (length (cs_entries c)) \<le> 1"
  by (rule CachedSelector_transparent) simp_all

text \<open>An index of one skill.\<close>

definition demo_raw :: string where
  "demo_raw = ''---'' @ [CHR 0x0A] @ ''name: go'' @ [CHR 0x0A] @ ''description: b'' @ [CHR 0x0A] @ ''---'' @ [CHR 0x0A]"

definition demo_fs :: FileSystem where
  "demo_fs = \<lparr> fs_Stat = (\<lambda>_. IsDir), fs_Walk = (\<lambda>_. Inr [(''s'', ''s'', True), (''s/SKILL.md'', ''SKILL.md'', False)]),
     fs_Read = (\<lambda>_. Inr demo_raw) \<rparr>"

definition demo_skill :: Skill where
  "demo_skill = \<lparr> sk_Name = ''go'', sk_Description = ''b'', sk_SHA256 = hex_EncodeToString (Sum256 demo_raw),
     sk_Path = ''s/SKILL.md'', sk_Content = demo_raw \<rparr>"

definition demo_index :: SkillIndex where
  "demo_index = \<lparr> ix_Skills = [demo_skill], ix_ByName = [''go'' \<mapsto> demo_skill] \<rparr>"

lemma demo_parse: "parseFrontmatter ascii_unicode demo_raw = Inr \<lparr> md_Name = ''go'', md_Description = ''b'' \<rparr>"
  by (simp add: parseFrontmatter_def demo_raw_def BOM_def text_eval meta_line_def Let_def ascii_unicode_def upt_rec)

lemma demo_load: "Indexer_Load ascii_unicode demo_fs ''s'' = Inr demo_index"
  by (simp add: Indexer_Load_def demo_fs_def Let_def text_eval index_file_def demo_parse empty_index_def
      demo_index_def demo_skill_def)

theorem Load_index_ok_witness:
  "index_ok demo_index \<and> sorted (map sk_Path (ix_Skills demo_index))"
  by (rule Load_index_ok [OF demo_load])


text \<open>A query for the demo skill matches it by name.\<close>

lemma demo_query: "normalizeQuery ascii_unicode ''go'' = ''go''"
  by (simp add: normalizeQuery_def ascii_unicode_def text_eval)

theorem RuleSelector_topk_witness:
  "\<exists>left. mset (RuleSelector_Select ascii_unicode demo_index 3 ''go'') + mset left =
      mset (filter (\<lambda>s. scoreSkill ascii_unicode ''go'' (tokenize ascii_unicode ''go'') s > 0) (ix_Skills demo_index)) \<and>
    length (RuleSelector_Select ascii_unicode demo_index 3 ''go'') \<le> nat 3 \<and>
    (left \<noteq> [] \<longrightarrow> length (RuleSelector_Select ascii_unicode demo_index 3 ''go'') = nat 3) \<and>
    sorted (map (\<lambda>s. match_key (s, scoreSkill ascii_unicode ''go'' (tokenize ascii_unicode ''go'') s))
      (RuleSelector_Select ascii_unicode demo_index 3 ''go'')) \<and>
    (\<forall>s\<in>set (RuleSelector_Select ascii_unicode demo_index 3 ''go''). \<forall>s'\<in>set left.
      match_key (s, scoreSkill ascii_unicode ''go'' (tokenize ascii_unicode ''go'') s) \<le>
      match_key (s', scoreSkill ascii_unicode ''go'' (tokenize ascii_unicode ''go'') s'))"
  using RuleSelector_topk [of ascii_unicode "''go''" 3 demo_index, unfolded demo_query] by simp

end
