(* ===== verification/Orchestrator.thy ===== *)
theory Orchestrator
  imports History "HOL-Library.Multiset"
begin

text \<open>
  internal/orchestrator: the supervisor that dispatches child runs under depth and
  width limits, the history compaction policy (types.go) and the pipeline DAG: its parser, validation,
  topological order and execution (pipeline.go).
\<close>

section \<open>Types\<close>

record SubagentRequest =
  sq_Role :: string
  sq_Task :: string
  sq_OutputSchema :: string

record SubagentResult =
  sr_ChildRunID :: string
  sr_Role :: string
  sr_Summary :: string
  sr_Status :: string
  sr_Error :: string

definition zero_subresult :: SubagentResult where
  "zero_subresult = \<lparr> sr_ChildRunID = [], sr_Role = [], sr_Summary = [], sr_Status = [], sr_Error = [] \<rparr>"

record ChildRunRequest =
  cr_ParentRunID :: string
  cr_ChildRunID :: string
  cr_TraceID :: string
  cr_UserID :: string
  cr_Model :: string
  cr_Role :: string
  cr_Task :: string
  cr_Depth :: int

definition SubagentRequest_of :: "json \<Rightarrow> SubagentRequest option" where
  "SubagentRequest_of j = Option.bind (members j) (\<lambda>m.
     Option.bind (field dec_str m ''role'' []) (\<lambda>x0.
     Option.bind (field dec_str m ''task'' []) (\<lambda>x1.
     Option.bind (field dec_str m ''output_schema'' []) (\<lambda>x2.
     Some \<lparr> sq_Role = x0, sq_Task = x1, sq_OutputSchema = x2 \<rparr>))))"

definition SubagentResult_Marshal :: "SubagentResult \<Rightarrow> string" where
  "SubagentResult_Marshal r = Marshal (struct_obj [
     (''child_run_id'', False, JStr (sr_ChildRunID r)),
     (''role'', False, JStr (sr_Role r)),
     (''summary'', False, JStr (sr_Summary r)),
     (''status'', False, JStr (sr_Status r)),
     (''error'', sr_Error r = [], JStr (sr_Error r))])"

definition ErrMaxDepth :: string where "ErrMaxDepth = ''subagent max depth exceeded''"
definition ErrMaxChildren :: string where "ErrMaxChildren = ''subagent max children exceeded''"

section \<open>Supervisor\<close>

text \<open>Children counts the dispatches of each parent run. The child runner and the id generator
  work on the world; the runner gets the timeout of the child's context.\<close>

record Supervisor =
  su_MaxDepth :: int
  su_MaxChildren :: int
  su_Timeout :: int
  su_Children :: "string \<rightharpoonup> int"

definition two_minutes :: int where "two_minutes = 2 * 60 * 1000000000"

definition default_result :: "string \<Rightarrow> string \<Rightarrow> SubagentResult \<Rightarrow> SubagentResult" where
  "default_result childRunID role r =
     (let r1 = (if sr_ChildRunID r = [] then r\<lparr> sr_ChildRunID := childRunID \<rparr> else r);
          r2 = (if sr_Role r1 = [] then r1\<lparr> sr_Role := role \<rparr> else r1)
      in if sr_Status r2 = [] then r2\<lparr> sr_Status := ''ok'' \<rparr> else r2)"

definition Dispatch ::
    "('w \<Rightarrow> int \<Rightarrow> ChildRunRequest \<Rightarrow> (string, SubagentResult) result \<times> 'w) option \<Rightarrow>
     ('w \<Rightarrow> string \<times> 'w) \<Rightarrow> Supervisor \<Rightarrow> 'w \<Rightarrow>
     string \<Rightarrow> string \<Rightarrow> string \<Rightarrow> string \<Rightarrow> int \<Rightarrow> SubagentRequest \<Rightarrow>
     (SubagentResult \<times> string option) \<times> Supervisor \<times> 'w" where
  "Dispatch runner new_id s w parentRunID traceID userID model depth req =
     (case runner of
        None \<Rightarrow> ((zero_subresult\<lparr> sr_Status := ''error'', sr_Error := ''supervisor disabled'' \<rparr>, None), s, w)
      | Some RunChild \<Rightarrow>
        (let maxDepth = (if su_MaxDepth s \<le> 0 then 2 else su_MaxDepth s) in
         if depth \<ge> maxDepth then
           ((zero_subresult\<lparr> sr_Role := sq_Role req, sr_Status := ''error'', sr_Error := ErrMaxDepth \<rparr>,
             Some ErrMaxDepth), s, w)
         else
        (let maxChildren = (if su_MaxChildren s \<le> 0 then 4 else su_MaxChildren s) in
         if lookup0 0 (su_Children s) parentRunID \<ge> maxChildren then
           ((zero_subresult\<lparr> sr_Role := sq_Role req, sr_Status := ''error'', sr_Error := ErrMaxChildren \<rparr>,
             Some ErrMaxChildren), s, w)
         else
        (let s1 = s\<lparr> su_Children := (su_Children s)(parentRunID \<mapsto> lookup0 0 (su_Children s) parentRunID + 1) \<rparr>;
             timeout = (if su_Timeout s \<le> 0 then two_minutes else su_Timeout s);
             (childRunID, w1) = new_id w;
             role0 = TrimSpace (sq_Role req);
             role = (if role0 = [] then ''subagent'' else role0);
             task0 = TrimSpace (sq_Task req);
             nl = [CHR 0x0A];
             task = (if sq_OutputSchema req \<noteq> []
                     then task0 @ nl @ nl @ ''Return output matching this JSON schema:'' @ nl @ sq_OutputSchema req
                     else task0);
             (res, w2) = RunChild w1 timeout
               \<lparr> cr_ParentRunID = parentRunID, cr_ChildRunID = childRunID, cr_TraceID = traceID,
                  cr_UserID = userID, cr_Model = model, cr_Role = role, cr_Task = task, cr_Depth = depth + 1 \<rparr>
         in case res of
              Inl e \<Rightarrow>
                ((zero_subresult\<lparr> sr_ChildRunID := childRunID, sr_Role := role, sr_Status := ''error'',
                   sr_Error := e \<rparr>, Some e), s1, w2)
            | Inr r \<Rightarrow>
                ((default_result childRunID role r, None), s1, w2)))))"

section \<open>Compaction\<close>

record CompactPolicy =
  cp_Enabled :: bool
  cp_MaxChars :: int
  cp_KeepHead :: int
  cp_KeepTail :: int

definition SummarizeMessages :: "HMessage list \<Rightarrow> string" where
  "SummarizeMessages msgs = TrimSpace (
     ''Compacted history summary:'' @ [CHR 0x0A] @
     concat (map (\<lambda>m.
       (let content = Join (Fields (h_Content m)) '' '';
            content2 = (if length (runes content) > 180
                        then of_runes (take 180 (runes content)) @ ''...'' else content)
        in ''- '' @ h_Role m @ '': '' @ content2 @ [CHR 0x0A])) msgs))"

definition total_chars :: "HMessage list \<Rightarrow> int" where
  "total_chars msgs = (\<Sum>m\<leftarrow>msgs. int (length (runes (h_Content m))))"

definition compact_maxChars :: "CompactPolicy \<Rightarrow> int" where
  "compact_maxChars p = (if cp_MaxChars p \<le> 0 then 24000 else cp_MaxChars p)"

definition compact_keepHead :: "CompactPolicy \<Rightarrow> int" where
  "compact_keepHead p = (if cp_KeepHead p < 0 then 0 else cp_KeepHead p)"

definition compact_keepTail :: "CompactPolicy \<Rightarrow> int" where
  "compact_keepTail p = (if cp_KeepTail p \<le> 0 then 8 else cp_KeepTail p)"

text \<open>The store is its Fold operation; None stands for a nil store.\<close>

definition CompactIfNeeded ::
    "CompactPolicy \<Rightarrow> ('w \<Rightarrow> string \<Rightarrow> string \<Rightarrow> string \<Rightarrow> string \<Rightarrow> ('e, string) result \<times> 'w) option \<Rightarrow>
     'w \<Rightarrow> string \<Rightarrow> HMessage list \<Rightarrow> ('e, bool) result \<times> 'w" where
  "CompactIfNeeded p store w runID msgs =
     (case store of
        None \<Rightarrow> (Inr False, w)
      | Some fold_op \<Rightarrow>
          if \<not> cp_Enabled p then (Inr False, w)
          else if total_chars msgs \<le> compact_maxChars p then (Inr False, w)
          else
            (let keepHead = compact_keepHead p; keepTail = compact_keepTail p in
             if int (length msgs) \<le> keepHead + keepTail + 1 then (Inr False, w)
             else
               (let h = nat keepHead; t = nat keepTail;
                    from = msgs ! h;
                    to = msgs ! (length msgs - t - 1);
                    summary = SummarizeMessages (drop h (take (length msgs - t) msgs));
                    (res, w1) = fold_op w runID (h_ID from) (h_ID to) summary
                in case res of
                     Inl e \<Rightarrow> (Inl e, w1)
                   | Inr _ \<Rightarrow> (Inr True, w1))))"

text \<open>The last non-blank assistant message.\<close>

definition ExtractAssistantSummary :: "(string \<times> string) list \<Rightarrow> string" where
  "ExtractAssistantSummary msgs =
     (case find (\<lambda>(role, content). role = RoleAssistant \<and> TrimSpace content \<noteq> []) (rev msgs) of
        Some (role, content) \<Rightarrow> TrimSpace content
      | None \<Rightarrow> [])"

section \<open>Pipelines\<close>

record PipelineStep =
  ps_ID :: string
  ps_Role :: string
  ps_Task :: string
  ps_DependsOn :: "string list"

definition zero_step :: PipelineStep where
  "zero_step = \<lparr> ps_ID = [], ps_Role = [], ps_Task = [], ps_DependsOn = [] \<rparr>"

record Pipeline =
  pl_Name :: string
  pl_Steps :: "PipelineStep list"

record PipelineResult =
  pr_Name :: string
  pr_Results :: "SubagentResult list"
  pr_Status :: string
  pr_Error :: string

text \<open>Errors with the detail the code formats behind the wrapped sentinel.\<close>

datatype pipe_error =
    ErrMissingStep string
  | ErrDuplicateStep string
  | ErrPipelineCycle
  | ErrTooLong
  | DispatchError string

section \<open>Validation and order\<close>

text \<open>One pass over the steps with the set of ids seen so far.\<close>

fun validate_steps :: "string set \<Rightarrow> PipelineStep list \<Rightarrow> (pipe_error, string set) result" where
  "validate_steps seen [] = Inr seen"
| "validate_steps seen (st # sts) =
     (if ps_ID st = [] then Inl (ErrMissingStep ''empty id'')
      else if ps_ID st \<in> seen then Inl (ErrDuplicateStep (ps_ID st))
      else if TrimSpace (ps_Task st) = [] then Inl (ErrMissingStep (ps_ID st @ '' has empty task''))
      else validate_steps (insert (ps_ID st) seen) sts)"

fun validate_deps :: "string set \<Rightarrow> string \<Rightarrow> string list \<Rightarrow> pipe_error option" where
  "validate_deps seen i [] = None"
| "validate_deps seen i (d # ds) =
     (if d \<notin> seen then Some (ErrMissingStep (i @ '' depends on '' @ d)) else validate_deps seen i ds)"

fun validate_all_deps :: "string set \<Rightarrow> PipelineStep list \<Rightarrow> pipe_error option" where
  "validate_all_deps seen [] = None"
| "validate_all_deps seen (st # sts) =
     (case validate_deps seen (ps_ID st) (ps_DependsOn st) of
        Some e \<Rightarrow> Some e
      | None \<Rightarrow> validate_all_deps seen sts)"

text \<open>The maps of TopologicalOrder: the last step of an id, the number of its open
  dependencies, and the children of an id in the order the steps name it.\<close>

definition byID :: "PipelineStep list \<Rightarrow> string \<rightharpoonup> PipelineStep" where
  "byID sts = map_of (rev (map (\<lambda>st. (ps_ID st, st)) sts))"

definition children_of :: "PipelineStep list \<Rightarrow> string \<Rightarrow> string list" where
  "children_of sts d = concat (map (\<lambda>st. map (\<lambda>_. ps_ID st) (filter (\<lambda>x. x = d) (ps_DependsOn st))) sts)"

definition indeg_of :: "PipelineStep list \<Rightarrow> string \<Rightarrow> int" where
  "indeg_of sts i = (case byID sts i of None \<Rightarrow> 0 | Some st \<Rightarrow> int (length (ps_DependsOn st)))"

text \<open>The inner loop over the children of a finished step.\<close>

fun relax :: "string list \<Rightarrow> (string \<Rightarrow> int) \<Rightarrow> string list \<Rightarrow> (string \<Rightarrow> int) \<times> string list" where
  "relax [] indeg ready = (indeg, ready)"
| "relax (c # cs) indeg ready =
     (let indeg1 = indeg(c := indeg c - 1) in
      if indeg1 c = 0 then relax cs indeg1 (sort (ready @ [c]))
      else relax cs indeg1 ready)"

text \<open>The outer loop; each round emits one id, and no id is emitted twice, so the number of
  steps bounds the rounds.\<close>

fun topo_loop :: "nat \<Rightarrow> (string \<Rightarrow> string list) \<Rightarrow> (string \<Rightarrow> int) \<Rightarrow> string list \<Rightarrow> string list option" where
  "topo_loop n children indeg [] = Some []"
| "topo_loop 0 children indeg (i # ready) = None"
| "topo_loop (Suc n) children indeg (i # ready) =
     (let (indeg1, ready1) = relax (children i) indeg ready in
      map_option (\<lambda>out. i # out) (topo_loop n children indeg1 ready1))"

definition topo_ids :: "PipelineStep list \<Rightarrow> string list option" where
  "topo_ids sts =
     (let ids = remdups (map ps_ID sts);
          ready = sort (filter (\<lambda>i. indeg_of sts i = 0) ids)
      in topo_loop (length sts) (children_of sts) (indeg_of sts) ready)"

definition TopologicalOrder :: "Pipeline \<Rightarrow> (pipe_error, PipelineStep list) result" where
  "TopologicalOrder p =
     (case topo_ids (pl_Steps p) of
        None \<Rightarrow> Inl ErrPipelineCycle
      | Some ids \<Rightarrow>
          (let out = map (\<lambda>i. the (byID (pl_Steps p) i)) ids in
           if length out \<noteq> length (pl_Steps p) then Inl ErrPipelineCycle else Inr out))"

definition ValidatePipeline :: "Pipeline \<Rightarrow> pipe_error option" where
  "ValidatePipeline p =
     (case validate_steps {} (pl_Steps p) of
        Inl e \<Rightarrow> Some e
      | Inr seen \<Rightarrow>
          (case validate_all_deps seen (pl_Steps p) of
             Some e \<Rightarrow> Some e
           | None \<Rightarrow> (case TopologicalOrder p of Inl e \<Rightarrow> Some e | Inr _ \<Rightarrow> None)))"

section \<open>Parsing\<close>

definition cleanYAMLValue :: "string \<Rightarrow> string" where
  "cleanYAMLValue s = Trim (TrimSpace s) [CHR 0x22, CHR 0x27]"

definition parseList :: "string \<Rightarrow> string list" where
  "parseList s0 =
     (let s = TrimSuffix (TrimPrefix (TrimSpace s0) ''['') '']'' in
      if TrimSpace s = [] then []
      else filter (\<lambda>v. v \<noteq> []) (map cleanYAMLValue (Split s '','')))"

text \<open>bufio.Scanner with its default split function: lines without the newline and one carriage
  return before it; a last line without newline counts unless it is empty.\<close>

definition scan_raw_lines :: "string \<Rightarrow> string list" where
  "scan_raw_lines raw =
     (let ls = Split raw [CHR 0x0A] in if last ls = [] then butlast ls else ls)"

definition drop_cr :: "string \<Rightarrow> string" where
  "drop_cr l = (if l \<noteq> [] \<and> last l = CHR 0x0D then butlast l else l)"

text \<open>A line that does not fit the scanner's buffer of 64 KiB stops it with ErrTooLong.\<close>

definition MaxScanTokenSize :: nat where "MaxScanTokenSize = 64 * 1024"

record ParseState =
  pz_Name :: string
  pz_Steps :: "PipelineStep list"
  pz_cur :: "PipelineStep option"

definition flush_cur :: "ParseState \<Rightarrow> PipelineStep list" where
  "flush_cur s = (case pz_cur s of None \<Rightarrow> pz_Steps s | Some c \<Rightarrow> pz_Steps s @ [c])"

definition parse_line :: "ParseState \<Rightarrow> string \<Rightarrow> ParseState" where
  "parse_line s text =
     (let line = TrimRight text [CHR '' '', CHR 0x09];
          trim = TrimSpace line in
      if trim = [] \<or> HasPrefix trim ''#'' \<or> trim = ''steps:'' then s
      else if HasPrefix trim ''name:'' then
        s\<lparr> pz_Name := cleanYAMLValue (TrimPrefix trim ''name:'') \<rparr>
      else if HasPrefix trim ''- '' then
        (let kv = TrimSpace (TrimPrefix trim ''- '');
             c = (if HasPrefix kv ''id:'' then zero_step\<lparr> ps_ID := cleanYAMLValue (TrimPrefix kv ''id:'') \<rparr>
                  else zero_step)
         in s\<lparr> pz_Steps := flush_cur s, pz_cur := Some c \<rparr>)
      else (case pz_cur s of
          None \<Rightarrow> s
        | Some c \<Rightarrow>
            (let (key, val, ok) = Cut trim '':'' in
             if \<not> ok then s
             else (let k = TrimSpace key in
               if k = ''id'' then s\<lparr> pz_cur := Some (c\<lparr> ps_ID := cleanYAMLValue val \<rparr>) \<rparr>
               else if k = ''role'' then s\<lparr> pz_cur := Some (c\<lparr> ps_Role := cleanYAMLValue val \<rparr>) \<rparr>
               else if k = ''task'' then s\<lparr> pz_cur := Some (c\<lparr> ps_Task := cleanYAMLValue val \<rparr>) \<rparr>
               else if k = ''depends_on'' then s\<lparr> pz_cur := Some (c\<lparr> ps_DependsOn := parseList val \<rparr>) \<rparr>
               else s))))"

definition ParsePipeline :: "string \<Rightarrow> Pipeline \<times> pipe_error option" where
  "ParsePipeline raw =
     (let ls = scan_raw_lines raw;
          s = foldl parse_line \<lparr> pz_Name = [], pz_Steps = [], pz_cur = None \<rparr> (map drop_cr ls);
          p = \<lparr> pl_Name = (if pz_Name s = [] then ''pipeline'' else pz_Name s), pl_Steps = flush_cur s \<rparr>
      in if \<exists>l\<in>set ls. length l \<ge> MaxScanTokenSize
         then (\<lparr> pl_Name = [], pl_Steps = [] \<rparr>, Some ErrTooLong)
         else (p, ValidatePipeline p))"

text \<open>The file reader is outside; its error or contents are the argument.\<close>

definition ParsePipelineFile :: "(string, string) result \<Rightarrow> Pipeline \<times> pipe_error option" where
  "ParsePipelineFile f = (case f of
      Inl e \<Rightarrow> (\<lparr> pl_Name = [], pl_Steps = [] \<rparr>, Some (DispatchError e))
    | Inr raw \<Rightarrow> ParsePipeline raw)"

section \<open>Execution\<close>

definition step_task :: "(string \<rightharpoonup> SubagentResult) \<Rightarrow> PipelineStep \<Rightarrow> string" where
  "step_task results st =
     (if ps_DependsOn st = [] then ps_Task st
      else ps_Task st @ [CHR 0x0A, CHR 0x0A] @ ''Dependency outputs:'' @ [CHR 0x0A] @
        concat (map (\<lambda>d. (let r = lookup0 zero_subresult results d in
          ''- '' @ d @ '' ('' @ sr_Status r @ ''): '' @ sr_Summary r @ [CHR 0x0A])) (ps_DependsOn st)))"

text \<open>dispatch is Supervisor.Dispatch for the run's parent, at depth 0.\<close>

fun run_steps ::
    "('s \<Rightarrow> SubagentRequest \<Rightarrow> (SubagentResult \<times> string option) \<times> 's) \<Rightarrow>
     's \<Rightarrow> (string \<rightharpoonup> SubagentResult) \<Rightarrow> PipelineResult \<Rightarrow> PipelineStep list \<Rightarrow>
     (PipelineResult \<times> string option) \<times> 's" where
  "run_steps dispatch s results out [] = ((out, None), s)"
| "run_steps dispatch s results out (st # sts) =
     (let ((res, err), s1) = dispatch s \<lparr> sq_Role = ps_Role st, sq_Task = step_task results st, sq_OutputSchema = [] \<rparr>;
          out1 = out\<lparr> pr_Results := pr_Results out @ [res] \<rparr>
      in case err of
           Some e \<Rightarrow> ((out1\<lparr> pr_Status := ''error'', pr_Error := e \<rparr>, Some e), s1)
         | None \<Rightarrow> run_steps dispatch s1 (results(ps_ID st \<mapsto> res)) out1 sts)"

definition RunPipeline ::
    "('w \<Rightarrow> int \<Rightarrow> ChildRunRequest \<Rightarrow> (string, SubagentResult) result \<times> 'w) option \<Rightarrow> ('w \<Rightarrow> string \<times> 'w) \<Rightarrow>
     Supervisor \<Rightarrow> 'w \<Rightarrow> Pipeline \<Rightarrow> string \<Rightarrow> string \<Rightarrow> string \<Rightarrow> string \<Rightarrow>
     (PipelineResult \<times> string option) \<times> Supervisor \<times> 'w" where
  "RunPipeline runner new_id sv w p parentRunID traceID userID model =
     (case TopologicalOrder p of
        Inl e \<Rightarrow> ((\<lparr> pr_Name = pl_Name p, pr_Results = [], pr_Status = ''error'',
                    pr_Error = ''pipeline contains a cycle'' \<rparr>, Some ''pipeline contains a cycle''), sv, w)
      | Inr ordered \<Rightarrow>
          run_steps (\<lambda>(s, w) req. Dispatch runner new_id s w parentRunID traceID userID model 0 req)
            (sv, w) Map.empty
            \<lparr> pr_Name = pl_Name p, pr_Results = [], pr_Status = ''ok'', pr_Error = [] \<rparr> ordered)"

section \<open>The topological order is correct\<close>

lemma relax_spec:
  assumes "\<forall>c. int (count_list cs c) \<le> indeg c \<or> c \<notin> set cs" "distinct ready" "set cs \<inter> set ready = {}"
  shows "\<exists>ready'. relax cs indeg ready = (\<lambda>c. indeg c - int (count_list cs c), ready') \<and> distinct ready' \<and>
     set ready' = set ready \<union> {c \<in> set cs. indeg c = int (count_list cs c)}"
  using assms
proof (induction cs arbitrary: indeg ready)
  case (Cons c cs)
  let ?indeg1 = "indeg(c := indeg c - 1)"
  have fn: "(\<lambda>d. ?indeg1 d - int (count_list cs d)) = (\<lambda>d. indeg d - int (count_list (c # cs) d))" by auto
  have ge: "1 + int (count_list cs c) \<le> indeg c" using Cons.prems(1) [rule_format, of c] by simp
  have pre: "\<forall>d. int (count_list cs d) \<le> ?indeg1 d \<or> d \<notin> set cs"
    using Cons.prems(1) ge by (auto split: if_splits)
  show ?case
  proof (cases "?indeg1 c = 0")
    case True
    then have "count_list cs c = 0" using ge by simp
    then have c: "c \<notin> set cs" by (simp add: count_list_0_iff)
    have "\<exists>ready'. relax cs ?indeg1 (sort (ready @ [c])) = (\<lambda>d. ?indeg1 d - int (count_list cs d), ready') \<and>
        distinct ready' \<and> set ready' = set (sort (ready @ [c])) \<union> {d \<in> set cs. ?indeg1 d = int (count_list cs d)}"
      by (rule Cons.IH) (use pre Cons.prems c in auto)
    then obtain ready' where r: "relax cs ?indeg1 (sort (ready @ [c])) = (\<lambda>d. indeg d - int (count_list (c # cs) d), ready')"
      "distinct ready'" "set ready' = set (sort (ready @ [c])) \<union> {d \<in> set cs. ?indeg1 d = int (count_list cs d)}"
      unfolding fn by blast
    have "set ready' = set ready \<union> {d \<in> set (c # cs). indeg d = int (count_list (c # cs) d)}"
    proof (rule set_eqI)
      fix d
      have "d \<in> set cs \<Longrightarrow> d \<noteq> c" using c by blast
      moreover have "count_list cs c = 0" using c by (simp add: count_list_0_iff)
      ultimately show "d \<in> set ready' \<longleftrightarrow> d \<in> set ready \<union> {d \<in> set (c # cs). indeg d = int (count_list (c # cs) d)}"
        using True unfolding r(3) by auto
    qed
    note s = this
    have rel: "relax (c # cs) indeg ready = relax cs ?indeg1 (sort (ready @ [c]))"
      using True by (simp add: Let_def)
    show ?thesis unfolding rel using r(1,2) s by blast
  next
    case False
    have "\<exists>ready'. relax cs ?indeg1 ready = (\<lambda>d. ?indeg1 d - int (count_list cs d), ready') \<and>
        distinct ready' \<and> set ready' = set ready \<union> {d \<in> set cs. ?indeg1 d = int (count_list cs d)}"
      by (rule Cons.IH) (use pre Cons.prems in auto)
    then obtain ready' where r: "relax cs ?indeg1 ready = (\<lambda>d. indeg d - int (count_list (c # cs) d), ready')"
      "distinct ready'" "set ready' = set ready \<union> {d \<in> set cs. ?indeg1 d = int (count_list cs d)}"
      unfolding fn by blast
    have "set ready' = set ready \<union> {d \<in> set (c # cs). indeg d = int (count_list (c # cs) d)}"
    proof (rule set_eqI)
      fix d
      have "c \<notin> set cs \<Longrightarrow> count_list cs c = 0" by (simp add: count_list_0_iff)
      then show "d \<in> set ready' \<longleftrightarrow> d \<in> set ready \<union> {d \<in> set (c # cs). indeg d = int (count_list (c # cs) d)}"
        using False unfolding r(3) by (cases "c \<in> set cs") auto
    qed
    note s = this
    have rel: "relax (c # cs) indeg ready = relax cs ?indeg1 ready"
      using False by (simp add: Let_def)
    show ?thesis unfolding rel using r(1,2) s by blast
  qed
qed simp

text \<open>A pipeline as the validator leaves it: distinct ids, dependencies among them.\<close>

definition steps_wf :: "PipelineStep list \<Rightarrow> bool" where
  "steps_wf sts \<longleftrightarrow> distinct (map ps_ID sts) \<and>
     (\<forall>st\<in>set sts. set (ps_DependsOn st) \<subseteq> ps_ID ` set sts)"

definition deps :: "PipelineStep list \<Rightarrow> string \<Rightarrow> string list" where
  "deps sts i = (case byID sts i of None \<Rightarrow> [] | Some st \<Rightarrow> ps_DependsOn st)"

lemma byID_wf:
  assumes "steps_wf sts"
  shows "byID sts i = Some st \<longleftrightarrow> st \<in> set sts \<and> ps_ID st = i"
proof -
  have "map fst (rev (map (\<lambda>st. (ps_ID st, st)) sts)) = rev (map ps_ID sts)"
    by (simp add: rev_map comp_def)
  then have "distinct (map fst (rev (map (\<lambda>st. (ps_ID st, st)) sts)))"
    using assms by (simp add: steps_wf_def)
  then show ?thesis by (auto simp: byID_def)
qed

lemma byID_None: "byID sts i = None \<longleftrightarrow> i \<notin> ps_ID ` set sts"
  by (simp add: byID_def map_of_eq_None_iff image_image)

lemma count_children:
  assumes "steps_wf sts"
  shows "count_list (children_of sts i) c = length (filter (\<lambda>d. d = i) (deps sts c))"
proof -
  have gen: "count_list (children_of us i) c =
      (case map_of (map (\<lambda>st. (ps_ID st, st)) us) c of None \<Rightarrow> 0
       | Some st \<Rightarrow> length (filter (\<lambda>d. d = i) (ps_DependsOn st)))"
    if "distinct (map ps_ID us)" for us
    using that
  proof (induction us)
    case (Cons u us)
    have none: "map_of (map (\<lambda>st. (ps_ID st, st)) us) (ps_ID u) = None"
      using Cons.prems by (simp add: map_of_eq_None_iff image_image)
    have one: "count_list (map (\<lambda>_. ps_ID u) xs) c = (if c = ps_ID u then length xs else 0)" for xs :: "string list"
      by (induction xs) auto
    have cons: "children_of (u # us) i =
        map (\<lambda>_. ps_ID u) (filter (\<lambda>x. x = i) (ps_DependsOn u)) @ children_of us i"
      by (simp add: children_of_def)
    show ?case unfolding cons using Cons none by (auto simp: one split: option.splits)
  qed (simp add: children_of_def)
  have "byID sts = map_of (map (\<lambda>st. (ps_ID st, st)) sts)"
  proof -
    have "map fst (rev (map (\<lambda>st. (ps_ID st, st)) sts)) = rev (map ps_ID sts)"
      "map fst (map (\<lambda>st. (ps_ID st, st)) sts) = map ps_ID sts" by (simp_all add: rev_map comp_def)
    then show ?thesis using assms unfolding byID_def
      by (subst map_of_inject_set) (simp_all add: steps_wf_def comp_def)
  qed
  then show ?thesis using gen [of sts] assms by (simp add: steps_wf_def deps_def split: option.splits)
qed

text \<open>The state of the loop: D are the emitted ids.\<close>

definition topo_inv :: "PipelineStep list \<Rightarrow> string set \<Rightarrow> (string \<Rightarrow> int) \<Rightarrow> string list \<Rightarrow> bool" where
  "topo_inv sts D indeg ready \<longleftrightarrow>
     D \<subseteq> ps_ID ` set sts \<and> distinct ready \<and> set ready \<inter> D = {} \<and>
     (\<forall>c\<in>ps_ID ` set sts. indeg c = int (length (filter (\<lambda>d. d \<notin> D) (deps sts c)))) \<and>
     set ready \<union> D = {c \<in> ps_ID ` set sts. indeg c = 0}"

lemma topo_inv_step:
  assumes wf: "steps_wf sts" and inv: "topo_inv sts D indeg (i # ready)"
    and rel: "relax (children_of sts i) indeg ready = (indeg1, ready1)"
  shows "topo_inv sts (insert i D) indeg1 ready1"
proof -
  let ?I = "ps_ID ` set sts" and ?cs = "children_of sts i"
  have iI: "i \<in> ?I" "i \<notin> D" "i \<notin> set ready" "distinct ready"
    using inv by (auto simp: topo_inv_def)
  have ind: "indeg c = int (length (filter (\<lambda>d. d \<notin> D) (deps sts c)))" if "c \<in> ?I" for c
    using inv that by (auto simp: topo_inv_def)
  have csI: "set ?cs \<subseteq> ?I" by (auto simp: children_of_def)
  have split: "length (filter (\<lambda>d. d \<notin> D) xs) =
      length (filter (\<lambda>d. d \<notin> insert i D) xs) + length (filter (\<lambda>d. d = i) xs)" for xs
    using iI(2) by (induction xs) auto
  have ge: "\<forall>c. int (count_list ?cs c) \<le> indeg c \<or> c \<notin> set ?cs"
  proof
    fix c
    show "int (count_list ?cs c) \<le> indeg c \<or> c \<notin> set ?cs"
    proof (cases "c \<in> set ?cs")
      case True
      then have "indeg c = int (length (filter (\<lambda>d. d \<notin> D) (deps sts c)))" using csI ind by blast
      then show ?thesis using split [of "deps sts c"] count_children [OF wf, of i c] by simp
    qed simp
  qed
  have pos: "c \<in> set ?cs \<Longrightarrow> indeg c > 0" for c
  proof -
    assume c: "c \<in> set ?cs"
    then have "count_list ?cs c \<noteq> 0" by (simp add: count_list_0_iff)
    moreover have "int (count_list ?cs c) \<le> indeg c" using ge c by blast
    ultimately show "indeg c > 0" by linarith
  qed
  have "set ?cs \<inter> set ready = {}"
  proof (rule ccontr)
    assume "set ?cs \<inter> set ready \<noteq> {}"
    then obtain c where "c \<in> set ?cs" "c \<in> set ready" by blast
    moreover have "indeg c = 0" using inv calculation(2) by (auto simp: topo_inv_def)
    ultimately show False using pos by fastforce
  qed
  from relax_spec [OF ge iI(4) this] rel
  have r: "indeg1 = (\<lambda>c. indeg c - int (count_list ?cs c))" "distinct ready1"
    "set ready1 = set ready \<union> {c \<in> set ?cs. indeg c = int (count_list ?cs c)}" by auto
  have ind1: "indeg1 c = int (length (filter (\<lambda>d. d \<notin> insert i D) (deps sts c)))" if "c \<in> ?I" for c
    using ind [OF that] split [of "deps sts c"] count_children [OF wf, of i c] by (simp add: r(1))
  have zero: "set ready \<union> insert i D = {c \<in> ?I. indeg c = 0}"
    using inv by (auto simp: topo_inv_def)
  have fresh: "c \<notin> set ready \<union> insert i D" if "c \<in> set ?cs" for c
  proof -
    have "c \<notin> {c \<in> ?I. indeg c = 0}" using pos [OF that] by simp
    then show ?thesis unfolding zero .
  qed
  have "set ready1 \<union> insert i D = {c \<in> ?I. indeg1 c = 0}"
  proof (rule set_eqI)
    fix c
    show "c \<in> set ready1 \<union> insert i D \<longleftrightarrow> c \<in> {c \<in> ?I. indeg1 c = 0}"
    proof (cases "c \<in> set ?cs")
      case True
      then have "c \<in> set ready1 \<union> insert i D \<longleftrightarrow> indeg c = int (count_list ?cs c)"
        using fresh [OF True] unfolding r(3) by blast
      then show ?thesis using True csI by (auto simp: r(1))
    next
      case False
      then have "c \<in> set ready1 \<union> insert i D \<longleftrightarrow> c \<in> {c \<in> ?I. indeg c = 0}"
        unfolding r(3) zero [symmetric] by blast
      moreover have "count_list ?cs c = 0" using False by (simp add: count_list_0_iff)
      ultimately show ?thesis by (simp add: r(1))
    qed
  qed
  moreover have "set ready1 \<inter> insert i D = {}"
  proof -
    have "set ready \<inter> D = {}" using inv by (auto simp: topo_inv_def)
    then show ?thesis using fresh iI unfolding r(3) by blast
  qed
  ultimately show ?thesis using iI(1) inv ind1 r(2) by (auto simp: topo_inv_def)
qed

lemma topo_loop_spec:
  assumes "steps_wf sts" "topo_inv sts D indeg ready" "card (ps_ID ` set sts - D) \<le> n"
  shows "\<exists>out. topo_loop n (children_of sts) indeg ready = Some out \<and> distinct out \<and> set out \<inter> D = {} \<and>
    set out \<subseteq> ps_ID ` set sts \<and>
    (\<forall>k<length out. set (deps sts (out ! k)) \<subseteq> D \<union> set (take k out)) \<and>
    (\<forall>c\<in>ps_ID ` set sts - D - set out. \<not> set (deps sts c) \<subseteq> D \<union> set out)"
  using assms(2,3)
proof (induction n arbitrary: D indeg ready)
  case 0
  then have "ps_ID ` set sts \<subseteq> D" by simp
  moreover have "set ready \<subseteq> ps_ID ` set sts" "set ready \<inter> D = {}"
    using 0(1) unfolding topo_inv_def by (blast, simp)
  ultimately have "set ready \<subseteq> D" "set ready \<inter> D = {}" by (auto intro: subset_trans)
  then have r: "ready = []" by (simp add: Int_absorb2)
  have "c \<notin> ps_ID ` set sts - D" for c
    using \<open>ps_ID ` set sts \<subseteq> D\<close> by (meson DiffE subsetD)
  then show ?case unfolding r by (intro exI [of _ "[]"] conjI ballI) (simp_all, metis)
next
  case (Suc n)
  show ?case
  proof (cases ready)
    case Nil
    have "\<not> set (deps sts c) \<subseteq> D" if c: "c \<in> ps_ID ` set sts - D" for c
    proof
      assume "set (deps sts c) \<subseteq> D"
      then have "filter (\<lambda>d. d \<notin> D) (deps sts c) = []" unfolding filter_empty_conv by blast
      moreover have "indeg c = int (length (filter (\<lambda>d. d \<notin> D) (deps sts c)))"
        using Suc.prems(1) c unfolding topo_inv_def by blast
      ultimately have "indeg c = 0" by simp
      moreover have "set ready \<union> D = {c \<in> ps_ID ` set sts. indeg c = 0}"
        using Suc.prems(1) unfolding topo_inv_def by blast
      ultimately have "c \<in> set ready \<union> D" using c by blast
      then show False using c Nil by simp
    qed
    then show ?thesis using Nil by (intro exI [of _ "[]"]) simp
  next
    case (Cons i rest)
    obtain indeg1 ready1 where rel: "relax (children_of sts i) indeg rest = (indeg1, ready1)" by fastforce
    have iD: "i \<notin> D" "i \<in> ps_ID ` set sts" "indeg i = 0"
      using Suc.prems(1) Cons by (auto simp: topo_inv_def)
    moreover have "indeg i = int (length (filter (\<lambda>d. d \<notin> D) (deps sts i)))"
      using Suc.prems(1) iD(2) unfolding topo_inv_def by blast
    ultimately have "filter (\<lambda>d. d \<notin> D) (deps sts i) = []" by simp
    then have di: "set (deps sts i) \<subseteq> D" by (auto simp: filter_empty_conv)
    have "card (ps_ID ` set sts - insert i D) \<le> n"
    proof -
      have "ps_ID ` set sts - insert i D = (ps_ID ` set sts - D) - {i}" by auto
      then show ?thesis using Suc.prems(2) iD by (simp add: card_Diff_singleton_if)
    qed
    from Suc.IH [OF topo_inv_step [OF assms(1) _ rel] this] Suc.prems(1) Cons
    obtain out where o: "topo_loop n (children_of sts) indeg1 ready1 = Some out" "distinct out"
      "set out \<inter> insert i D = {}" "set out \<subseteq> ps_ID ` set sts"
      "\<forall>k<length out. set (deps sts (out ! k)) \<subseteq> insert i D \<union> set (take k out)"
      "\<forall>c\<in>ps_ID ` set sts - insert i D - set out. \<not> set (deps sts c) \<subseteq> insert i D \<union> set out"
      by blast
    have "\<forall>k<length (i # out). set (deps sts ((i # out) ! k)) \<subseteq> D \<union> set (take k (i # out))"
    proof (intro allI impI)
      fix k assume k: "k < length (i # out)"
      show "set (deps sts ((i # out) ! k)) \<subseteq> D \<union> set (take k (i # out))"
        using di o(5) k by (cases k) auto
    qed
    then show ?thesis using o rel Cons iD by (intro exI [of _ "i # out"]) auto
  qed
qed

lemma topo_inv_init:
  assumes "steps_wf sts"
  shows "topo_inv sts {} (indeg_of sts) (sort (filter (\<lambda>i. indeg_of sts i = 0) (remdups (map ps_ID sts))))"
proof -
  have "indeg_of sts c = int (length (deps sts c))" for c
    by (simp add: indeg_of_def deps_def split: option.splits)
  then show ?thesis by (auto simp: topo_inv_def)
qed

text \<open>A list of the steps in which every step follows its dependencies.\<close>

definition valid_order :: "PipelineStep list \<Rightarrow> PipelineStep list \<Rightarrow> bool" where
  "valid_order sts out \<longleftrightarrow> mset out = mset sts \<and>
     (\<forall>k<length out. set (ps_DependsOn (out ! k)) \<subseteq> ps_ID ` set (take k out))"

lemma TopologicalOrder_ok:
  assumes wf: "steps_wf (pl_Steps p)" and ord: "TopologicalOrder p = Inr out"
  shows "valid_order (pl_Steps p) out"
proof -
  let ?sts = "pl_Steps p"
  have "card (ps_ID ` set ?sts - {}) \<le> length ?sts"
    by (metis Diff_empty card_length length_map list.set_map)
  from topo_loop_spec [OF wf topo_inv_init [OF wf] this]
  obtain ids where ids: "topo_ids ?sts = Some ids" "distinct ids" "set ids \<subseteq> ps_ID ` set ?sts"
    "\<forall>k<length ids. set (deps ?sts (ids ! k)) \<subseteq> set (take k ids)"
    unfolding topo_ids_def Let_def by auto
  let ?st = "\<lambda>i. the (byID ?sts i)"
  have st: "?st i \<in> set ?sts \<and> ps_ID (?st i) = i \<and> ps_DependsOn (?st i) = deps ?sts i" if "i \<in> set ids" for i
  proof -
    have "i \<in> ps_ID ` set ?sts" using that ids(3) by (rule rev_subsetD)
    then have "byID ?sts i \<noteq> None" unfolding byID_None by simp
    then obtain s where "byID ?sts i = Some s" by auto
    then show ?thesis using byID_wf [OF wf, of i s] by (simp add: deps_def)
  qed
  have out: "out = map ?st ids" and len: "length ids = length ?sts"
    using ord ids(1) by (auto simp: TopologicalOrder_def Let_def split: if_splits)
  have idmap: "map ps_ID out = ids" unfolding out using st by (auto intro: map_idI)
  have "distinct out" using idmap ids(2) by (metis distinct_map)
  moreover have "set out \<subseteq> set ?sts" using st out by auto
  moreover have "distinct ?sts" using wf by (auto simp: steps_wf_def distinct_map)
  moreover have "length out = length ?sts" using len out by simp
  ultimately have "set out = set ?sts" by (metis card_subset_eq distinct_card List.finite_set)
  then have "mset out = mset ?sts"
    using \<open>distinct out\<close> \<open>distinct ?sts\<close> set_eq_iff_mset_eq_distinct by blast
  moreover have "set (ps_DependsOn (out ! k)) \<subseteq> ps_ID ` set (take k out)" if k: "k < length out" for k
  proof -
    have "ps_DependsOn (out ! k) = deps ?sts (ids ! k)" using k st [of "ids ! k"] by (simp add: out)
    moreover have "ps_ID ` set (take k out) = set (take k ids)"
      by (metis idmap list.set_map take_map)
    ultimately show ?thesis using ids(4) k out by auto
  qed
  ultimately show ?thesis by (simp add: valid_order_def)
qed

lemma TopologicalOrder_complete:
  assumes wf: "steps_wf (pl_Steps p)" and vo: "valid_order (pl_Steps p) out"
  shows "is_ok (TopologicalOrder p)"
proof -
  let ?sts = "pl_Steps p"
  have "card (ps_ID ` set ?sts - {}) \<le> length ?sts"
    by (metis Diff_empty card_length length_map list.set_map)
  from topo_loop_spec [OF wf topo_inv_init [OF wf] this]
  obtain ids where ids: "topo_ids ?sts = Some ids" "distinct ids" "set ids \<subseteq> ps_ID ` set ?sts"
    "\<forall>c\<in>ps_ID ` set ?sts - set ids. \<not> set (deps ?sts c) \<subseteq> set ids"
    unfolding topo_ids_def Let_def by auto
  have sub: "ps_ID (out ! k) \<in> set ids" if "k < length out" for k
    using that
  proof (induction k rule: less_induct)
    case (less k)
    have sts: "set out = set ?sts" using vo by (metis valid_order_def mset_eq_setD)
    have "out ! k \<in> set out" by (rule nth_mem [OF less.prems])
    then have mem: "out ! k \<in> set ?sts" unfolding sts .
    have d: "deps ?sts (ps_ID (out ! k)) = ps_DependsOn (out ! k)"
      using byID_wf [OF wf, of "ps_ID (out ! k)" "out ! k"] mem by (simp add: deps_def)
    have "set (ps_DependsOn (out ! k)) \<subseteq> set ids"
    proof
      fix x assume "x \<in> set (ps_DependsOn (out ! k))"
      then have "x \<in> ps_ID ` set (take k out)" using vo less.prems by (auto simp: valid_order_def)
      then obtain j where "j < k" "x = ps_ID (out ! j)" by (auto simp: in_set_conv_nth)
      then show "x \<in> set ids" using less by simp
    qed
    then have "set (deps ?sts (ps_ID (out ! k))) \<subseteq> set ids" unfolding d .
    moreover have "ps_ID (out ! k) \<in> ps_ID ` set ?sts" using mem by (rule imageI)
    ultimately show ?case using bspec [OF ids(4), of "ps_ID (out ! k)"] by blast
  qed
  have "ps_ID ` set ?sts \<subseteq> set ids"
  proof
    fix c assume "c \<in> ps_ID ` set ?sts"
    then have "c \<in> ps_ID ` set out" using vo by (metis valid_order_def mset_eq_setD)
    then show "c \<in> set ids" using sub by (auto simp: in_set_conv_nth)
  qed
  then have "set ids = set (map ps_ID ?sts)" using ids(3) by auto
  then have "length ids = length ?sts"
    using ids(2) wf by (metis distinct_card length_map steps_wf_def)
  then show ?thesis using ids(1) by (simp add: TopologicalOrder_def Let_def)
qed

lemma validate_steps_ok:
  "validate_steps seen sts = Inr seen' \<longleftrightarrow>
     seen' = seen \<union> ps_ID ` set sts \<and> distinct (map ps_ID sts) \<and> seen \<inter> ps_ID ` set sts = {} \<and>
     (\<forall>st\<in>set sts. ps_ID st \<noteq> [] \<and> TrimSpace (ps_Task st) \<noteq> [])"
  by (induction sts arbitrary: seen) auto

lemma validate_deps_ok: "validate_deps seen i ds = None \<longleftrightarrow> set ds \<subseteq> seen"
  by (induction ds) auto

lemma validate_all_deps_ok:
  "validate_all_deps seen sts = None \<longleftrightarrow> (\<forall>st\<in>set sts. set (ps_DependsOn st) \<subseteq> seen)"
proof (induction sts)
  case (Cons st sts)
  then show ?case
    using validate_deps_ok [of seen "ps_ID st" "ps_DependsOn st"]
    by (cases "validate_deps seen (ps_ID st) (ps_DependsOn st)") simp_all
qed simp

section \<open>Properties\<close>

text \<open>C22: A pipeline passes validation exactly when its ids are non-empty and distinct, every task is
  non-blank, every dependency is a step, and the steps can be ordered with dependencies first; the order
  TopologicalOrder returns then is such an arrangement of all the steps.\<close>

theorem ValidatePipeline_iff:
  "(ValidatePipeline p = None \<longleftrightarrow>
      steps_wf (pl_Steps p) \<and> (\<forall>st\<in>set (pl_Steps p). ps_ID st \<noteq> [] \<and> TrimSpace (ps_Task st) \<noteq> []) \<and>
      (\<exists>out. valid_order (pl_Steps p) out)) \<and>
   (ValidatePipeline p = None \<longrightarrow>
      (\<exists>out. TopologicalOrder p = Inr out \<and> valid_order (pl_Steps p) out))"
proof -
  let ?sts = "pl_Steps p"
  have pre: "(\<exists>seen. validate_steps {} ?sts = Inr seen \<and> validate_all_deps seen ?sts = None) \<longleftrightarrow>
      steps_wf ?sts \<and> (\<forall>st\<in>set ?sts. ps_ID st \<noteq> [] \<and> TrimSpace (ps_Task st) \<noteq> [])"
    by (auto simp: validate_steps_ok validate_all_deps_ok steps_wf_def)
  have unf: "ValidatePipeline p = None \<longleftrightarrow>
      (\<exists>seen. validate_steps {} ?sts = Inr seen \<and> validate_all_deps seen ?sts = None) \<and> is_ok (TopologicalOrder p)"
    by (auto simp: ValidatePipeline_def split: sum.splits option.splits)
  have ord: "is_ok (TopologicalOrder p) \<longleftrightarrow> (\<exists>out. valid_order ?sts out)" if "steps_wf ?sts"
    using TopologicalOrder_ok [OF that] TopologicalOrder_complete [OF that]
    by (cases "TopologicalOrder p") auto
  show ?thesis unfolding unf pre using ord TopologicalOrder_ok
    by (cases "TopologicalOrder p") auto
qed

definition diamond :: Pipeline where
  "diamond = \<lparr> pl_Name = ''d'', pl_Steps =
     [\<lparr> ps_ID = ''d'', ps_Role = [], ps_Task = ''t'', ps_DependsOn = [''b'', ''c''] \<rparr>,
      \<lparr> ps_ID = ''b'', ps_Role = [], ps_Task = ''t'', ps_DependsOn = [''a''] \<rparr>,
      \<lparr> ps_ID = ''c'', ps_Role = [], ps_Task = ''t'', ps_DependsOn = [''a''] \<rparr>,
      \<lparr> ps_ID = ''a'', ps_Role = [], ps_Task = ''t'', ps_DependsOn = [] \<rparr>] \<rparr>"

theorem ValidatePipeline_iff_witness:
  "\<exists>out. TopologicalOrder diamond = Inr out \<and> valid_order (pl_Steps diamond) out \<and>
     map ps_ID out = [''a'', ''b'', ''c'', ''d'']"
proof -
  have t: "TrimSpace ''t'' = ''t''"
    by (simp add: TrimSpace_def segs_ascii IsSpace_def ord_def)
  have ids: "topo_ids (pl_Steps diamond) = Some [''a'', ''b'', ''c'', ''d'']"
    by (simp add: topo_ids_def diamond_def children_of_def indeg_of_def byID_def)
  then have "\<exists>out. TopologicalOrder diamond = Inr out \<and> map ps_ID out = [''a'', ''b'', ''c'', ''d'']"
    by (simp add: TopologicalOrder_def) (simp add: diamond_def byID_def)
  then obtain out where out: "TopologicalOrder diamond = Inr out" "map ps_ID out = [''a'', ''b'', ''c'', ''d'']"
    by (elim exE conjE)
  have "\<exists>seen. validate_steps {} (pl_Steps diamond) = Inr seen \<and> validate_all_deps seen (pl_Steps diamond) = None"
    by (simp add: diamond_def t)
  then have "ValidatePipeline diamond = None"
    by (auto simp: ValidatePipeline_def out(1))
  then have "\<exists>out. TopologicalOrder diamond = Inr out \<and> valid_order (pl_Steps diamond) out"
    using ValidatePipeline_iff [of diamond] by blast
  then show ?thesis using out by (metis Inr_inject)
qed

definition max_depth :: "Supervisor \<Rightarrow> int" where
  "max_depth s = (if su_MaxDepth s \<le> 0 then 2 else su_MaxDepth s)"

definition max_children :: "Supervisor \<Rightarrow> int" where
  "max_children s = (if su_MaxChildren s \<le> 0 then 4 else su_MaxChildren s)"

lemma Dispatch_refused:
  "depth \<ge> max_depth s \<Longrightarrow> Dispatch (Some RunChild) new_id s w parent trace user model depth req =
     ((zero_subresult\<lparr> sr_Role := sq_Role req, sr_Status := ''error'', sr_Error := ErrMaxDepth \<rparr>,
       Some ErrMaxDepth), s, w)"
  "depth < max_depth s \<Longrightarrow> lookup0 0 (su_Children s) parent \<ge> max_children s \<Longrightarrow>
   Dispatch (Some RunChild) new_id s w parent trace user model depth req =
     ((zero_subresult\<lparr> sr_Role := sq_Role req, sr_Status := ''error'', sr_Error := ErrMaxChildren \<rparr>,
       Some ErrMaxChildren), s, w)"
  by (auto simp: Dispatch_def Let_def max_depth_def max_children_def not_le)

lemma default_result_simps:
  "sr_Status (default_result c role r) \<noteq> []" "sr_Summary (default_result c role r) = sr_Summary r"
  "sr_ChildRunID (default_result c role r) = (if sr_ChildRunID r = [] then c else sr_ChildRunID r)"
  by (auto simp: default_result_def Let_def)

lemma Dispatch_accepted:
  assumes "depth < max_depth s" "lookup0 0 (su_Children s) parent < max_children s"
    and "Dispatch (Some RunChild) new_id s w parent trace user model depth req = ((res, err), s', w')"
  shows "\<exists>child w1 rr r. new_id w = (child, w1) \<and>
      RunChild w1 (if su_Timeout s \<le> 0 then two_minutes else su_Timeout s) rr = (r, w') \<and>
      cr_ParentRunID rr = parent \<and> cr_ChildRunID rr = child \<and> cr_Depth rr = depth + 1 \<and>
      s' = s\<lparr> su_Children := (su_Children s)(parent \<mapsto> lookup0 0 (su_Children s) parent + 1) \<rparr> \<and>
      (case r of Inl e \<Rightarrow> err = Some e \<and> sr_Status res = ''error'' \<and> sr_ChildRunID res = child
       | Inr x \<Rightarrow> err = None \<and> sr_Status res \<noteq> [] \<and> sr_Summary res = sr_Summary x \<and>
           sr_ChildRunID res = (if sr_ChildRunID x = [] then child else sr_ChildRunID x))"
proof -
  obtain child w1 where id: "new_id w = (child, w1)" by fastforce
  let ?timeout = "if su_Timeout s \<le> 0 then two_minutes else su_Timeout s"
  let ?task = "if sq_OutputSchema req \<noteq> []
      then TrimSpace (sq_Task req) @ [CHR 0x0A] @ [CHR 0x0A] @ ''Return output matching this JSON schema:'' @
        [CHR 0x0A] @ sq_OutputSchema req
      else TrimSpace (sq_Task req)"
  let ?rr = "\<lparr> cr_ParentRunID = parent, cr_ChildRunID = child, cr_TraceID = trace, cr_UserID = user,
      cr_Model = model, cr_Role = (if TrimSpace (sq_Role req) = [] then ''subagent'' else TrimSpace (sq_Role req)),
      cr_Task = ?task, cr_Depth = depth + 1 \<rparr>"
  obtain r w2 where r: "RunChild w1 ?timeout ?rr = (r, w2)" by fastforce
  have nd: "\<not> depth \<ge> (if su_MaxDepth s \<le> 0 then 2 else su_MaxDepth s)"
    "\<not> lookup0 0 (su_Children s) parent \<ge> (if su_MaxChildren s \<le> 0 then 4 else su_MaxChildren s)"
    using assms(1,2) by (simp_all add: max_depth_def max_children_def)
  note D = assms(3) [unfolded Dispatch_def Let_def option.case if_not_P [OF nd(1)] if_not_P [OF nd(2)] id prod.case r]
  have "w2 = w'" "s' = s\<lparr> su_Children := (su_Children s)(parent \<mapsto> lookup0 0 (su_Children s) parent + 1) \<rparr>"
    using D by (cases r; simp)+
  moreover have "case r of Inl e \<Rightarrow> err = Some e \<and> sr_Status res = ''error'' \<and> sr_ChildRunID res = child
       | Inr x \<Rightarrow> err = None \<and> sr_Status res \<noteq> [] \<and> sr_Summary res = sr_Summary x \<and>
           sr_ChildRunID res = (if sr_ChildRunID x = [] then child else sr_ChildRunID x)"
    using D by (cases r) (auto simp: default_result_simps)
  ultimately show ?thesis using id r
    by (intro exI [of _ child] exI [of _ w1] exI [of _ ?rr] exI [of _ r]) simp
qed

text \<open>A dispatch never exceeds its limits. Past the depth limit, or when the parent already used its
  children, nothing happens: no child id is drawn, the child runner is not called, the counters are
  unchanged, and the caller gets the limit error; otherwise the child runner is called exactly once, one level deeper,
  and the parent's counter grows by one. No counter ever exceeds MaxChildren.\<close>

theorem Dispatch_limits:
  assumes run: "Dispatch (Some RunChild) new_id s w parent trace user model depth req = ((res, err), s', w')"
    and cnt: "lookup0 0 (su_Children s) parent \<le> max_children s"
  shows "(depth \<ge> max_depth s \<longrightarrow> err = Some ErrMaxDepth \<and> s' = s \<and> w' = w) \<and>
    (depth < max_depth s \<and> lookup0 0 (su_Children s) parent = max_children s \<longrightarrow>
       err = Some ErrMaxChildren \<and> s' = s \<and> w' = w) \<and>
    (depth < max_depth s \<and> lookup0 0 (su_Children s) parent < max_children s \<longrightarrow>
       (\<exists>child w1 rr r. new_id w = (child, w1) \<and>
          RunChild w1 (if su_Timeout s \<le> 0 then two_minutes else su_Timeout s) rr = (r, w') \<and>
          cr_ParentRunID rr = parent \<and> cr_ChildRunID rr = child \<and> cr_Depth rr = depth + 1 \<and>
          lookup0 0 (su_Children s') parent = lookup0 0 (su_Children s) parent + 1 \<and>
          (err = None \<longleftrightarrow> is_ok r))) \<and>
    lookup0 0 (su_Children s') parent \<le> max_children s' \<and>
    (\<forall>p. p \<noteq> parent \<longrightarrow> su_Children s' p = su_Children s p)"
proof -
  consider "depth \<ge> max_depth s"
    | "depth < max_depth s" "lookup0 0 (su_Children s) parent = max_children s"
    | "depth < max_depth s" "lookup0 0 (su_Children s) parent < max_children s"
    using cnt by linarith
  then show ?thesis
  proof cases
    case 1
    then show ?thesis using run cnt by (auto simp: Dispatch_refused(1))
  next
    case 2
    then show ?thesis using run cnt by (auto simp: Dispatch_refused(2))
  next
    case 3
    from Dispatch_accepted [OF 3 run] obtain child w1 rr r where
      a: "new_id w = (child, w1)" "RunChild w1 (if su_Timeout s \<le> 0 then two_minutes else su_Timeout s) rr = (r, w')"
      "cr_ParentRunID rr = parent" "cr_ChildRunID rr = child" "cr_Depth rr = depth + 1"
      "s' = s\<lparr> su_Children := (su_Children s)(parent \<mapsto> lookup0 0 (su_Children s) parent + 1) \<rparr>"
      "case r of Inl e \<Rightarrow> err = Some e \<and> sr_Status res = ''error'' \<and> sr_ChildRunID res = child
       | Inr x \<Rightarrow> err = None \<and> sr_Status res \<noteq> [] \<and> sr_Summary res = sr_Summary x \<and>
           sr_ChildRunID res = (if sr_ChildRunID x = [] then child else sr_ChildRunID x)"
      by blast
    have "err = None \<longleftrightarrow> is_ok r" using a(7) by (cases r) auto
    moreover have c: "lookup0 0 (su_Children s') parent = lookup0 0 (su_Children s) parent + 1"
      by (simp add: a(6) lookup0_def)
    moreover have "max_children s' = max_children s" by (simp add: a(6) max_children_def)
    moreover have "\<exists>child w1 rr r. new_id w = (child, w1) \<and>
          RunChild w1 (if su_Timeout s \<le> 0 then two_minutes else su_Timeout s) rr = (r, w') \<and>
          cr_ParentRunID rr = parent \<and> cr_ChildRunID rr = child \<and> cr_Depth rr = depth + 1 \<and>
          lookup0 0 (su_Children s') parent = lookup0 0 (su_Children s) parent + 1 \<and>
          (err = None \<longleftrightarrow> is_ok r)"
      using a(1-5) c calculation(1) by blast
    moreover have "\<forall>p. p \<noteq> parent \<longrightarrow> su_Children s' p = su_Children s p" by (simp add: a(6))
    ultimately show ?thesis using 3 by (intro conjI impI; (elim conjE)?; (linarith | blast))
  qed
qed

definition child_at_limit :: "Supervisor" where
  "child_at_limit = \<lparr> su_MaxDepth = 0, su_MaxChildren = 1, su_Timeout = 0, su_Children = [''p'' \<mapsto> 1] \<rparr>"

theorem Dispatch_limits_witness:
  "snd (fst (Dispatch (Some (\<lambda>w t r. (Inr zero_subresult, w + 1))) (\<lambda>w. (''c'', w)) child_at_limit (0 :: nat)
      ''p'' [] [] [] 1 \<lparr> sq_Role = [], sq_Task = [], sq_OutputSchema = [] \<rparr>)) = Some ErrMaxChildren"
proof -
  let ?d = "Dispatch (Some (\<lambda>w t r. (Inr zero_subresult, w + 1))) (\<lambda>w. (''c'', w)) child_at_limit (0 :: nat)
      ''p'' [] [] [] 1 \<lparr> sq_Role = [], sq_Task = [], sq_OutputSchema = [] \<rparr>"
  obtain res err s' w' where d: "?d = ((res, err), s', w')" by (metis prod.exhaust)
  have m: "max_depth child_at_limit = 2" "max_children child_at_limit = 1"
    "lookup0 0 (su_Children child_at_limit) ''p'' = 1"
    by (simp_all add: max_depth_def max_children_def child_at_limit_def)
  show ?thesis using Dispatch_limits [OF d] d m by simp
qed

section \<open>Pipelines and the child limit\<close>

text \<open>Every step of a pipeline is a child of the same parent.\<close>

lemma run_steps_results:
  "run_steps dispatch s results out sts = ((r, err), s') \<Longrightarrow>
     \<exists>n \<le> length sts. length (pr_Results r) = length (pr_Results out) + n \<and> (err = None \<longrightarrow> n = length sts) \<and>
       (err = None \<longrightarrow> pr_Status r = pr_Status out) \<and> (err \<noteq> None \<longrightarrow> pr_Status r = ''error'')"
proof (induction sts arbitrary: s results out)
  case (Cons st sts)
  obtain res err1 s1 where d: "dispatch s \<lparr> sq_Role = ps_Role st, sq_Task = step_task results st, sq_OutputSchema = [] \<rparr> =
      ((res, err1), s1)" by (metis prod.exhaust)
  show ?case
  proof (cases err1)
    case None
    with Cons.prems d have "run_steps dispatch s1 (results(ps_ID st \<mapsto> res))
        (out\<lparr> pr_Results := pr_Results out @ [res] \<rparr>) sts = ((r, err), s')" by (simp add: Let_def)
    from Cons.IH [OF this] obtain n where "n \<le> length sts" "length (pr_Results r) = length (pr_Results out) + 1 + n"
      "err = None \<longrightarrow> n = length sts" "err = None \<longrightarrow> pr_Status r = pr_Status out" "err \<noteq> None \<longrightarrow> pr_Status r = ''error''"
      by auto
    then show ?thesis by (intro exI [of _ "Suc n"]) simp
  next
    case (Some e)
    with Cons.prems d show ?thesis by (intro exI [of _ 1]) (auto simp: Let_def)
  qed
qed auto

lemma run_steps_count:
  assumes "run_steps (\<lambda>(s, w) req. Dispatch (Some RunChild) new_id s w parent trace user model 0 req) (s, w) results out sts =
      ((r, err), (s', w'))"
    and "lookup0 0 (su_Children s) parent \<le> max_children s"
  shows "lookup0 0 (su_Children s') parent \<le> max_children s \<and>
    (err = None \<longrightarrow> lookup0 0 (su_Children s') parent = lookup0 0 (su_Children s) parent + int (length sts))"
  using assms
proof (induction sts arbitrary: s w results out)
  case (Cons st sts)
  let ?req = "\<lparr> sq_Role = ps_Role st, sq_Task = step_task results st, sq_OutputSchema = [] \<rparr>"
  obtain res err1 s1 w1 where d: "Dispatch (Some RunChild) new_id s w parent trace user model 0 ?req = ((res, err1), s1, w1)"
    by (metis prod.exhaust)
  have md: "0 < max_depth s" by (simp add: max_depth_def)
  show ?case
  proof (cases "lookup0 0 (su_Children s) parent < max_children s")
    case False
    then have "lookup0 0 (su_Children s) parent \<ge> max_children s" by simp
    from Dispatch_refused(2) [OF md this, of RunChild new_id w trace user model ?req] d
    have "err1 = Some ErrMaxChildren" "s1 = s" by (metis prod.inject)+
    then show ?thesis using Cons.prems d by (auto simp: Let_def)
  next
    case True
    have s1: "s1 = s\<lparr> su_Children := (su_Children s)(parent \<mapsto> lookup0 0 (su_Children s) parent + 1) \<rparr>"
      using Dispatch_accepted [OF md True d] by blast
    have c1: "lookup0 0 (su_Children s1) parent = lookup0 0 (su_Children s) parent + 1"
      "max_children s1 = max_children s" by (simp_all add: s1 lookup0_def max_children_def)
    show ?thesis
    proof (cases err1)
      case None
      with Cons.prems d have "run_steps (\<lambda>(s, w) req. Dispatch (Some RunChild) new_id s w parent trace user model 0 req)
          (s1, w1) (results(ps_ID st \<mapsto> res)) (out\<lparr> pr_Results := pr_Results out @ [res] \<rparr>) sts = ((r, err), (s', w'))"
        by (simp add: Let_def)
      from Cons.IH [OF this] c1 True show ?thesis by simp
    next
      case (Some e)
      with Cons.prems d c1 True show ?thesis by (auto simp: Let_def)
    qed
  qed
qed simp

text \<open>A pipeline run reports one result per step it started, in order, and is ok exactly when it ran every
  step; all its steps count as children of one parent run, so a run that succeeds has at most MaxChildren steps (4
  when it is not configured), whatever the child runner does.\<close>

theorem RunPipeline_results:
  assumes run: "RunPipeline (Some RunChild) new_id s w p parent trace user model = ((r, err), s', w')"
    and cnt: "su_Children s parent = None"
  shows "length (pr_Results r) \<le> length (pl_Steps p) \<and>
    (err = None \<longleftrightarrow> pr_Status r = ''ok'') \<and>
    (err = None \<longrightarrow> length (pr_Results r) = length (pl_Steps p) \<and> int (length (pl_Steps p)) \<le> max_children s)"
proof (cases "TopologicalOrder p")
  case (Inl e)
  then show ?thesis using run by (auto simp: RunPipeline_def)
next
  case (Inr ordered)
  have len: "length ordered = length (pl_Steps p)"
    using Inr by (auto simp: TopologicalOrder_def Let_def split: option.splits if_splits)
  have steps: "run_steps (\<lambda>(s, w) req. Dispatch (Some RunChild) new_id s w parent trace user model 0 req) (s, w) Map.empty
      \<lparr> pr_Name = pl_Name p, pr_Results = [], pr_Status = ''ok'', pr_Error = [] \<rparr> ordered = ((r, err), (s', w'))"
    using run Inr by (simp add: RunPipeline_def)
  have c0: "lookup0 0 (su_Children s) parent = 0" "0 \<le> max_children s"
    using cnt by (simp_all add: max_children_def)
  from run_steps_results [OF steps] obtain n where n: "n \<le> length ordered" "length (pr_Results r) = n"
    "err = None \<longrightarrow> n = length ordered" "err = None \<longrightarrow> pr_Status r = ''ok''" "err \<noteq> None \<longrightarrow> pr_Status r = ''error''"
    by auto
  have "err = None \<longrightarrow> int (length ordered) \<le> max_children s"
    using run_steps_count [OF steps] c0 by auto
  then show ?thesis using n len by auto
qed

theorem RunPipeline_results_witness:
  "\<exists>r err s' w'. RunPipeline (Some (\<lambda>w t r. (Inr zero_subresult, w + 1))) (\<lambda>w. (''c'', w))
       \<lparr> su_MaxDepth = 0, su_MaxChildren = 3, su_Timeout = 0, su_Children = Map.empty \<rparr> (0 :: nat) diamond
       ''p'' [] [] [] = ((r, err), s', w') \<and> err \<noteq> None \<and> length (pr_Results r) \<le> 4"
proof -
  let ?s = "\<lparr> su_MaxDepth = 0, su_MaxChildren = 3, su_Timeout = 0, su_Children = Map.empty \<rparr>"
  obtain r err s' w' where r: "RunPipeline (Some (\<lambda>w t r. (Inr zero_subresult, w + 1))) (\<lambda>w. (''c'', w))
       ?s (0 :: nat) diamond ''p'' [] [] [] = ((r, err), s', w')" by (metis prod.exhaust)
  have "length (pl_Steps diamond) = 4" "max_children ?s = 3" by (simp_all add: diamond_def max_children_def)
  then show ?thesis using RunPipeline_results [OF r] r by (intro exI [of _ r] exI [of _ err] exI) auto
qed

end
