(* ===== verification/Agent.thy ===== *)
theory Agent
  imports Tools Llm Skill Rag Orchestrator
begin

text \<open>
  internal/agent: the run state machine (state.go) and the runner that executes one run (runner.go). Everything the
  runner calls - history, provider, event bus, tools, skills, retrieval, hooks, ids, clock - works on a world of type 'w.
  A ghost trace records, in order, the events published, the requests sent to the model and the tool calls executed.
\<close>

section \<open>States\<close>

definition StatePending :: string where "StatePending = ''PENDING''"
definition StateRunning :: string where "StateRunning = ''RUNNING''"
definition StateWaitingTool :: string where "StateWaitingTool = ''WAITING_TOOL''"
definition StateCompacting :: string where "StateCompacting = ''COMPACTING''"
definition StateDone :: string where "StateDone = ''DONE''"
definition StateFailed :: string where "StateFailed = ''FAILED''"

lemmas state_names = StatePending_def StateRunning_def StateWaitingTool_def StateCompacting_def StateDone_def StateFailed_def

definition validTransitions :: "string \<rightharpoonup> (string \<rightharpoonup> bool)" where
  "validTransitions =
     [StatePending \<mapsto> [StateRunning \<mapsto> True, StateFailed \<mapsto> True],
      StateRunning \<mapsto> [StateWaitingTool \<mapsto> True, StateCompacting \<mapsto> True, StateDone \<mapsto> True, StateFailed \<mapsto> True],
      StateWaitingTool \<mapsto> [StateRunning \<mapsto> True, StateFailed \<mapsto> True],
      StateCompacting \<mapsto> [StateRunning \<mapsto> True, StateFailed \<mapsto> True]]"

definition CanTransit :: "string \<Rightarrow> string \<Rightarrow> bool" where
  "CanTransit f t =
     (if f = t then False
      else (case validTransitions f of Some m \<Rightarrow> lookup0 False m t | None \<Rightarrow> False))"

definition MustTransit :: "string \<Rightarrow> string \<Rightarrow> string option" where
  "MustTransit f t = (if CanTransit f t then None else Some (''invalid state transition: '' @ f @ '' -> '' @ t))"

section \<open>The runner and its environment\<close>

record 'w HistoryStore =
  hs_Append :: "'w \<Rightarrow> string \<Rightarrow> HMessage \<Rightarrow> (string, string) result \<times> 'w"
  hs_Render :: "'w \<Rightarrow> string \<Rightarrow> (string, HMessage list) result \<times> 'w"
  hs_Fold :: "'w \<Rightarrow> string \<Rightarrow> string \<Rightarrow> string \<Rightarrow> string \<Rightarrow> (string, string) result \<times> 'w"

text \<open>A *tool.Runner as the agent uses it: its registry's List (None for a nil registry), Execute and
  ExecuteInWorkspace.\<close>

record 'w AgentTools =
  at_List :: "Descriptor list option"
  at_Execute :: "'w \<Rightarrow> string \<Rightarrow> string \<Rightarrow> string \<Rightarrow> string \<Rightarrow> int \<Rightarrow> (string, ToolResultEvent) result \<times> 'w"
  at_ExecuteInWorkspace :: "'w \<Rightarrow> string \<Rightarrow> string \<Rightarrow> string \<Rightarrow> string \<Rightarrow> string \<Rightarrow> int \<Rightarrow> (string, ToolResultEvent) result \<times> 'w"

definition agent_tools :: "ToolEnv \<Rightarrow> 'w ToolRunner \<Rightarrow> 'w AgentTools" where
  "agent_tools V r = \<lparr> at_List = map_option Registry_List (tn_Registry r), at_Execute = Tool_Execute V r,
     at_ExecuteInWorkspace = ExecuteInWorkspace V r \<rparr>"

text \<open>The fields of Runner but the children map, which is part of the state below; ar_publish is Events.Publish,
  ar_new_id the id generator, ar_since the milliseconds of a tool call so far, ar_json_err the text of a
  json.Unmarshal error.\<close>

record 'w AgentRunner =
  ar_U :: Unicode
  ar_History :: "'w HistoryStore"
  ar_Provider :: "'w provider"
  ar_publish :: "'w \<Rightarrow> string \<Rightarrow> Event \<Rightarrow> string option \<times> 'w"
  ar_ToolRunner :: "'w AgentTools option"
  ar_AgentToolRunner :: "'w AgentTools option"
  ar_ToolMaxSteps :: int
  ar_SkillSelector :: "('w \<Rightarrow> string \<Rightarrow> (string, Skill list) result \<times> 'w) option"
  ar_RAGRetriever :: "('w \<Rightarrow> string \<Rightarrow> string \<Rightarrow> int \<Rightarrow> rat \<Rightarrow> (string, RagResult list) result \<times> 'w) option"
  ar_RAGTenantID :: string
  ar_RAGTopK :: int
  ar_RAGMinScore :: rat
  ar_MultiAgentEnabled :: bool
  ar_SubagentMaxDepth :: int
  ar_SubagentMaxChildren :: int
  ar_SubagentTimeout :: int
  ar_Depth :: int
  ar_CompactPolicy :: CompactPolicy
  ar_HookClient :: "'w hook_client option"
  ar_HookFailClosed :: bool
  ar_new_id :: "'w \<Rightarrow> string \<times> 'w"
  ar_since :: "'w \<Rightarrow> nat \<times> 'w"
  ar_json_err :: "string \<Rightarrow> string"

datatype act =
    Publish string Event
  | CallLLM string LReq
  | CallTool string string string

record 'w rstate =
  st_world :: 'w
  st_children :: "string \<rightharpoonup> int"
  st_trace :: "act list"

definition log_act :: "act \<Rightarrow> 'w rstate \<Rightarrow> 'w rstate" where
  "log_act a s = s\<lparr> st_trace := st_trace s @ [a] \<rparr>"

text \<open>An operation of the environment on the world of the state.\<close>

definition on_world :: "('w \<Rightarrow> 'a \<times> 'w) \<Rightarrow> 'w rstate \<Rightarrow> 'a \<times> 'w rstate" where
  "on_world f s = (let (x, w) = f (st_world s) in (x, s\<lparr> st_world := w \<rparr>))"

section \<open>Publishing\<close>

definition publish :: "'w AgentRunner \<Rightarrow> 'w rstate \<Rightarrow> string \<Rightarrow> Event \<Rightarrow> string option \<times> 'w rstate" where
  "publish R s runID ev = on_world (\<lambda>w. ar_publish R w runID ev) (log_act (Publish runID ev) s)"

definition state_event :: "Task \<Rightarrow> string \<Rightarrow> string \<Rightarrow> Event" where
  "state_event t f to = zero_event\<lparr> e_RunID := t_RunID t, e_TraceID := t_TraceID t, e_Kind := EventState, e_From := f, e_State := to \<rparr>"

definition publishState :: "'w AgentRunner \<Rightarrow> 'w rstate \<Rightarrow> Task \<Rightarrow> string \<Rightarrow> string \<Rightarrow> string option \<times> 'w rstate" where
  "publishState R s t f to =
     (if \<not> CanTransit f to then (Some (''invalid transition '' @ f @ '' -> '' @ to), s)
      else publish R s (t_RunID t) (state_event t f to))"

definition error_event :: "Task \<Rightarrow> string \<Rightarrow> string \<Rightarrow> Event" where
  "error_event t code msg =
     zero_event\<lparr> e_RunID := t_RunID t, e_TraceID := t_TraceID t, e_Kind := EventError, e_Code := code, e_Message := msg \<rparr>"

definition fail :: "'w AgentRunner \<Rightarrow> 'w rstate \<Rightarrow> Task \<Rightarrow> string \<Rightarrow> string \<Rightarrow> string \<Rightarrow> 'w rstate" where
  "fail R s t f code msg =
     snd (publish R (snd (publishState R s t f StateFailed)) (t_RunID t) (error_event t code msg))"

definition tool_event :: "Task \<Rightarrow> string \<Rightarrow> string \<Rightarrow> string \<Rightarrow> string \<Rightarrow> string \<Rightarrow> bool \<Rightarrow> nat \<Rightarrow> Event" where
  "tool_event t callID toolName phase res runErr isError elapsedMS =
     zero_event\<lparr> e_RunID := t_RunID t, e_TraceID := t_TraceID t, e_Kind := EventTool, e_CallID := callID, e_ToolName := toolName,
       e_Phase := phase, e_Result := res, e_Message := runErr, e_IsError := isError, e_ElapsedMS := elapsedMS \<rparr>"

definition publishToolEvent :: "'w AgentRunner \<Rightarrow> 'w rstate \<Rightarrow> Task \<Rightarrow> string \<Rightarrow> string \<Rightarrow> string \<Rightarrow> string \<Rightarrow> string \<Rightarrow> bool \<Rightarrow> nat \<Rightarrow> 'w rstate" where
  "publishToolEvent R s t callID toolName phase res runErr isError elapsedMS =
     snd (publish R s (t_RunID t) (tool_event t callID toolName phase res runErr isError elapsedMS))"

text \<open>The suffix is the UTF-8 text of a new line, an ellipsis and the notice.\<close>

definition timeline_notice :: string where
  "timeline_notice = [CHR 0x0A, CHR 0xE2, CHR 0x80, CHR 0xA6] @ '' output truncated for the timeline''"

definition timelineText :: "string \<Rightarrow> string" where
  "timelineText value = (if length value \<le> 4096 then value else take 4096 value @ timeline_notice)"

section \<open>One model request\<close>

text \<open>The token counters are of type int64 and wrap; the count of tool rounds and the counts of children are compared with their limit
  before they are incremented, so they cannot.\<close>

fun stream_events :: "'w AgentRunner \<Rightarrow> 'w rstate \<Rightarrow> Task \<Rightarrow> string \<Rightarrow> ToolCall list \<Rightarrow> int \<Rightarrow> int \<Rightarrow> TokenEvent list \<Rightarrow>
    (string, string \<times> ToolCall list) result \<times> int \<times> int \<times> 'w rstate" where
  "stream_events R s t buf calls cnt idx [] = (Inr (buf, calls), cnt, idx, s)"
| "stream_events R s t buf calls cnt idx (ev # evs) =
     (case te_Err ev of
        Some e \<Rightarrow> (Inl e, cnt, idx, s)
      | None \<Rightarrow>
          (let calls1 = calls @ te_ToolCalls ev;
               (buf1, cnt1, idx1, s1) =
                 (if te_Token ev \<noteq> [] then
                    (buf @ te_Token ev, wrap64 (cnt + 1), wrap64 (idx + 1),
                     snd (publish R s (t_RunID t) (zero_event\<lparr> e_RunID := t_RunID t, e_TraceID := t_TraceID t, e_Kind := EventToken,
                       e_Text := te_Token ev, e_Index := idx \<rparr>)))
                  else (buf, cnt, idx, s))
           in if te_Done ev then (Inr (buf1, calls1), cnt1, idx1, s1)
              else stream_events R s1 t buf1 calls1 cnt1 idx1 evs))"

definition streamOnce :: "'w AgentRunner \<Rightarrow> 'w rstate \<Rightarrow> Task \<Rightarrow> LMessage list \<Rightarrow> ToolDefinition list \<Rightarrow> int \<Rightarrow>
    (string, string \<times> ToolCall list) result \<times> int \<times> int \<times> 'w rstate" where
  "streamOnce R s t msgs tools idx =
     (let req = \<lparr> lq_Model = t_Model t, lq_Messages = msgs, lq_Tools = tools, lq_MaxTokens = 0 \<rparr>;
          (r, s1) = on_world (\<lambda>w. ar_Provider R w req) (log_act (CallLLM (t_RunID t) req) s)
      in case r of
           Inl e \<Rightarrow> (Inl e, 0, idx, s1)
         | Inr evs \<Rightarrow> stream_events R s1 t [] [] 0 idx evs)"

definition toolRunnerFor :: "'w AgentRunner \<Rightarrow> Task \<Rightarrow> 'w AgentTools option" where
  "toolRunnerFor R t = (if t_AgentID t \<noteq> [] \<and> ar_AgentToolRunner R \<noteq> None then ar_AgentToolRunner R else ar_ToolRunner R)"

definition str_property :: "string \<Rightarrow> json" where
  "str_property desc = JObj [(''type'', JStr ''string''), (''description'', JStr desc)]"

definition dispatchSubagentTool :: ToolDefinition where
  "dispatchSubagentTool = \<lparr> td_Name = ''dispatch_subagent'',
     td_Description = ''Dispatch a local isolated subagent to complete a focused task and return a structured summary.'',
     td_Parameters = Some (JObj [
       (''type'', JStr ''object''),
       (''properties'', JObj [
          (''role'', str_property ''Subagent role, such as reviewer, researcher, planner''),
          (''task'', str_property ''Focused task for the child agent''),
          (''output_schema'', str_property ''Optional JSON schema the child should follow'')]),
       (''required'', JArr [JStr ''role'', JStr ''task'']),
       (''additionalProperties'', JBool False)]) \<rparr>"

definition llmTools :: "'w AgentRunner \<Rightarrow> Task \<Rightarrow> ToolDefinition list" where
  "llmTools R t =
     (case toolRunnerFor R t of
        None \<Rightarrow> []
      | Some tr \<Rightarrow> (case at_List tr of
          None \<Rightarrow> []
        | Some ds \<Rightarrow> map (\<lambda>d. \<lparr> td_Name = ds_Name d, td_Description = ds_Description d, td_Parameters = Some (ds_Schema d) \<rparr>) ds)) @
     (if ar_MultiAgentEnabled R then [dispatchSubagentTool] else [])"

definition hasOnlyDispatchSubagent :: "ToolCall list \<Rightarrow> bool" where
  "hasOnlyDispatchSubagent calls = (calls \<noteq> [] \<and> list_all (\<lambda>tc. tc_Name tc = ''dispatch_subagent'') calls)"

definition ToolCall_json :: "ToolCall \<Rightarrow> json" where
  "ToolCall_json tc = struct_obj [
     (''id'', tc_ID tc = [], JStr (tc_ID tc)), (''type'', tc_Type tc = [], JStr (tc_Type tc)),
     (''name'', tc_Name tc = [], JStr (tc_Name tc)), (''arguments'', tc_Arguments tc = [], JStr (tc_Arguments tc))]"

definition marshalToolCallsTag :: "ToolCall list \<Rightarrow> string" where
  "marshalToolCallsTag calls = Marshal (JArr (map ToolCall_json calls))"

text \<open>A nil slice of tool calls is written as null.\<close>

definition executePostLLMHook :: "'w AgentRunner \<Rightarrow> 'w rstate \<Rightarrow> Task \<Rightarrow> string \<Rightarrow> ToolCall list \<Rightarrow> 'w rstate" where
  "executePostLLMHook R s t text calls =
     (case ar_HookClient R of
        None \<Rightarrow> s
      | Some h \<Rightarrow>
          snd (on_world (\<lambda>w. h w \<lparr> hr_Event = EventPostLLM, hr_RunID = t_RunID t, hr_TraceID = t_TraceID t,
            hr_PayloadJSON = Marshal (JObj [(''assistant_text'', JStr text),
              (''tool_calls'', if calls = [] then JNull else JArr (map ToolCall_json calls))]) \<rparr>) s))"

section \<open>Child runs\<close>

definition new_message :: "string \<Rightarrow> string \<Rightarrow> string \<Rightarrow> tags \<Rightarrow> HMessage" where
  "new_message role content parent tg = \<lparr> h_ID = [], h_Role = role, h_Content = content, h_Visible = False, h_Version = 0,
     h_ParentID = parent, h_Tags = tg \<rparr>"

definition append_history :: "'w AgentRunner \<Rightarrow> 'w rstate \<Rightarrow> string \<Rightarrow> HMessage \<Rightarrow> (string, string) result \<times> 'w rstate" where
  "append_history R s runID m = on_world (\<lambda>w. hs_Append (ar_History R) w runID m) s"

definition done_event :: "Task \<Rightarrow> int \<Rightarrow> Event" where
  "done_event t tot = zero_event\<lparr> e_RunID := t_RunID t, e_TraceID := t_TraceID t, e_Kind := EventDone, e_Total := tot \<rparr>"

definition child_task :: "ChildRunRequest \<Rightarrow> Task" where
  "child_task req = \<lparr> t_RunID = cr_ChildRunID req, t_UserID = cr_UserID req, t_AgentID = [], t_Prompt = [], t_Model = cr_Model req,
     t_SystemPrompt = [], t_TraceID = cr_TraceID req, t_Attempt = 0 \<rparr>"

definition child_prompt :: "ChildRunRequest \<Rightarrow> string" where
  "child_prompt req =
     (let p = TrimSpace (cr_Task req) in
      if cr_Role req \<noteq> []
      then ''You are a subagent with role: '' @ cr_Role req @ ''.'' @ [CHR 0x0A, CHR 0x0A] @ ''Task:'' @ [CHR 0x0A] @ p
      else p)"

definition child_tags :: "ChildRunRequest \<Rightarrow> tags" where
  "child_tags req = [(''parent_run_id'', cr_ParentRunID req), (''subagent_role'', cr_Role req)]"

text \<open>The timeout is that of the child's context; what the environment does when it passes is part of the world.\<close>

definition RunChild :: "'w AgentRunner \<Rightarrow> 'w rstate \<Rightarrow> int \<Rightarrow> ChildRunRequest \<Rightarrow> (string, SubagentResult) result \<times> 'w rstate" where
  "RunChild R s timeout req =
     (let t = child_task req;
          s1 = snd (publishState R s t StatePending StateRunning);
          prompt = child_prompt req
      in case append_history R s1 (cr_ChildRunID req) (new_message RoleUser prompt [] (child_tags req)) of
           (Inl e, s2) \<Rightarrow> (Inl e, fail R s2 t StateRunning ''child_history_user'' e)
         | (Inr _, s2) \<Rightarrow>
             (case streamOnce R s2 t
                 [llm_message ''system'' ''You are an AgentForge subagent. Complete the delegated task and answer with a concise structured summary.'',
                  llm_message ''user'' prompt] [] 0 of
                (Inl e, cnt, idx, s3) \<Rightarrow> (Inl e, fail R s3 t StateRunning ''child_llm_chunk'' e)
              | (Inr (text, calls), cnt, idx, s3) \<Rightarrow>
                  (case append_history R s3 (cr_ChildRunID req) (new_message RoleAssistant text [] (child_tags req)) of
                     (Inl e, s4) \<Rightarrow> (Inl e, fail R s4 t StateRunning ''child_history_assistant'' e)
                   | (Inr _, s4) \<Rightarrow>
                       (let s5 = snd (publishState R s4 t StateRunning StateDone);
                            s6 = snd (publish R s5 (cr_ChildRunID req) (done_event t cnt))
                        in (Inr \<lparr> sr_ChildRunID = cr_ChildRunID req, sr_Role = cr_Role req, sr_Summary = TrimSpace text,
                              sr_Status = ''ok'', sr_Error = [] \<rparr>, s6)))))"

definition bad_subagent_args :: "Task \<Rightarrow> string \<Rightarrow> string \<Rightarrow> ToolResultEvent" where
  "bad_subagent_args t callID err =
     zero_result\<lparr> tr_CallID := callID, tr_TraceID := t_TraceID t,
       tr_Content := SubagentResult_Marshal (zero_subresult\<lparr> sr_Status := ''error'', sr_Error := err \<rparr>),
       tr_IsError := True, tr_ErrorCode := ''bad_subagent_args'' \<rparr>"

definition dispatchSubagent :: "'w AgentRunner \<Rightarrow> 'w rstate \<Rightarrow> Task \<Rightarrow> string \<Rightarrow> ToolCall \<Rightarrow> ToolResultEvent \<times> 'w rstate" where
  "dispatchSubagent R s t callID tc =
     (case Option.bind (json_parse (tc_Arguments tc)) SubagentRequest_of of
        None \<Rightarrow> (bad_subagent_args t callID (ar_json_err R (tc_Arguments tc)), s)
      | Some req \<Rightarrow>
          (let ((res, err), sup, s1) = Dispatch (Some (RunChild R)) (on_world (ar_new_id R))
                 \<lparr> su_MaxDepth = ar_SubagentMaxDepth R, su_MaxChildren = ar_SubagentMaxChildren R, su_Timeout = ar_SubagentTimeout R,
                   su_Children = st_children s \<rparr>
                 s (t_RunID t) (t_TraceID t) (t_UserID t) (t_Model t) (ar_Depth R) req;
               meta = CHR 0x7B # ''\"child_run_id\":'' @ Quote (ar_U R) (sr_ChildRunID res) @ '',\"role\":'' @
                 Quote (ar_U R) (sr_Role res) @ [CHR 0x7D];
               ev = zero_result\<lparr> tr_CallID := callID, tr_TraceID := t_TraceID t, tr_Content := SubagentResult_Marshal res,
                 tr_MetaJSON := meta \<rparr>
           in (if err \<noteq> None then ev\<lparr> tr_IsError := True, tr_ErrorCode := ''subagent_error'' \<rparr> else ev,
               s1\<lparr> st_children := su_Children sup \<rparr>)))"

definition executeToolCall :: "'w AgentRunner \<Rightarrow> 'w rstate \<Rightarrow> Task \<Rightarrow> string \<Rightarrow> ToolCall \<Rightarrow> (string, ToolResultEvent) result \<times> 'w rstate" where
  "executeToolCall R s t callID tc =
     (if tc_Name tc = ''dispatch_subagent'' \<and> ar_MultiAgentEnabled R
      then (let (ev, s1) = dispatchSubagent R s t callID tc in (Inr ev, s1))
      else
        (case toolRunnerFor R t of
           None \<Rightarrow> (Inl ''tool runtime is disabled'', s)
         | Some tr \<Rightarrow>
             (let s0 = log_act (CallTool callID (tc_Name tc) (tc_Arguments tc)) s in
              if t_AgentID t \<noteq> [] \<and> ar_AgentToolRunner R \<noteq> None
              then on_world (\<lambda>w. at_ExecuteInWorkspace tr w (t_AgentID t) callID (t_TraceID t) (tc_Name tc) (tc_Arguments tc) 0) s0
              else on_world (\<lambda>w. at_Execute tr w callID (t_TraceID t) (tc_Name tc) (tc_Arguments tc) 0) s0)))"

section \<open>Context of a run\<close>

definition compactHistory :: "'w AgentRunner \<Rightarrow> 'w rstate \<Rightarrow> Task \<Rightarrow> string \<Rightarrow> HMessage list \<Rightarrow> (string, bool) result \<times> 'w rstate" where
  "compactHistory R s t f prior =
     (let p = ar_CompactPolicy R in
      if \<not> cp_Enabled p then (Inr False, s)
      else
        (let maxChars = (if cp_MaxChars p \<le> 0 then 24000 else cp_MaxChars p);
             tot = (\<Sum>m\<leftarrow>prior. int (length (runes (h_Content m))));
             keepHead = (if cp_KeepHead p < 0 then 0 else cp_KeepHead p);
             keepTail = (if cp_KeepTail p \<le> 0 then 8 else cp_KeepTail p)
         in if tot \<le> maxChars \<or> int (length prior) \<le> keepHead + keepTail + 1 then (Inr False, s)
            else (case publishState R s t f StateCompacting of
                (Some e, s1) \<Rightarrow> (Inl e, s1)
              | (None, s1) \<Rightarrow>
                  on_world (\<lambda>w. CompactIfNeeded p (Some (hs_Fold (ar_History R))) w (t_RunID t) prior) s1)))"

definition skill_messages :: "'w AgentRunner \<Rightarrow> 'w rstate \<Rightarrow> Task \<Rightarrow> LMessage list \<times> 'w rstate" where
  "skill_messages R s t =
     (case ar_SkillSelector R of
        None \<Rightarrow> ([], s)
      | Some select \<Rightarrow>
          (let (r, s1) = on_world (\<lambda>w. select w (t_Prompt t)) s in
           (case r of
              Inl e \<Rightarrow> []
            | Inr sks \<Rightarrow> (let rendered = RenderSkills sks in if rendered \<noteq> [] then [llm_message ''system'' rendered] else []), s1)))"

definition rag_messages :: "'w AgentRunner \<Rightarrow> 'w rstate \<Rightarrow> Task \<Rightarrow> LMessage list \<times> 'w rstate" where
  "rag_messages R s t =
     (case ar_RAGRetriever R of
        None \<Rightarrow> ([], s)
      | Some retrieve \<Rightarrow>
          (let tenant = (if ar_RAGTenantID R = [] then ''default'' else ar_RAGTenantID R);
               (r, s1) = on_world (\<lambda>w. retrieve w tenant (t_Prompt t) (ar_RAGTopK R) (ar_RAGMinScore R)) s
           in (case r of
                 Inl e \<Rightarrow> []
               | Inr results \<Rightarrow>
                   (let rendered = RenderRag (ar_U R) results in if rendered \<noteq> [] then [llm_message ''system'' rendered] else []), s1)))"

definition hook_messages :: "'w AgentRunner \<Rightarrow> 'w rstate \<Rightarrow> Task \<Rightarrow> (string, LMessage list) result \<times> 'w rstate" where
  "hook_messages R s t =
     (case ar_HookClient R of
        None \<Rightarrow> (Inr [], s)
      | Some h \<Rightarrow>
          (let (r, s1) = on_world (\<lambda>w. h w \<lparr> hr_Event = EventPreLLM, hr_RunID = t_RunID t, hr_TraceID = t_TraceID t,
                 hr_PayloadJSON = [] \<rparr>) s
           in (case r of
                 Inl e \<Rightarrow> if ar_HookFailClosed R then Inl e else Inr []
               | Inr resp \<Rightarrow>
                   Inr (if hp_Allowed resp
                        then map (llm_message ''system'') (filter (\<lambda>c. TrimSpace c \<noteq> []) (hp_AppendSystemMessages resp)) else []), s1)))"

definition system_prompt :: "Task \<Rightarrow> string" where
  "system_prompt t = (if TrimSpace (t_SystemPrompt t) = []
     then ''You are AgentForge runtime, a helpful assistant. Answer concisely.'' else t_SystemPrompt t)"

definition history_message :: "HMessage \<Rightarrow> LMessage" where
  "history_message m = llm_message (h_Role m) (h_Content m)"

text \<open>The code and the error of a failure, or the history to send.\<close>

definition load_history :: "'w AgentRunner \<Rightarrow> 'w rstate \<Rightarrow> Task \<Rightarrow> (string \<times> string, HMessage list) result \<times> 'w rstate" where
  "load_history R s t =
     (case append_history R s (t_RunID t) (new_message RoleUser (t_Prompt t) [] []) of
        (Inl e, s1) \<Rightarrow> (Inl (''history_user'', e), s1)
      | (Inr _, s1) \<Rightarrow>
          (case on_world (\<lambda>w. hs_Render (ar_History R) w (t_RunID t)) s1 of
             (Inl e, s2) \<Rightarrow> (Inl (''history_render'', e), s2)
           | (Inr prior, s2) \<Rightarrow>
               (case compactHistory R s2 t StateRunning prior of
                  (Inl e, s3) \<Rightarrow> (Inr prior, s3)
                | (Inr False, s3) \<Rightarrow> (Inr prior, s3)
                | (Inr True, s3) \<Rightarrow>
                    (case on_world (\<lambda>w. hs_Render (ar_History R) w (t_RunID t)) s3 of
                       (Inl e, s4) \<Rightarrow> (Inl (''history_render_after_compact'', e), s4)
                     | (Inr prior2, s4) \<Rightarrow> (Inr prior2, snd (publishState R s4 t StateCompacting StateRunning))))))"

definition build_messages :: "'w AgentRunner \<Rightarrow> 'w rstate \<Rightarrow> Task \<Rightarrow> HMessage list \<Rightarrow> (string \<times> string, LMessage list) result \<times> 'w rstate" where
  "build_messages R s t prior =
     (let (sk, s1) = skill_messages R s t;
          (rg, s2) = rag_messages R s1 t;
          (hk, s3) = hook_messages R s2 t
      in case hk of
           Inl e \<Rightarrow> (Inl (''hook_pre_llm'', e), s3)
         | Inr hm \<Rightarrow> (Inr (llm_message ''system'' (system_prompt t) # sk @ rg @ hm @ map history_message prior), s3))"

section \<open>The loop\<close>

definition tool_tags :: "string \<Rightarrow> string \<Rightarrow> ToolResultEvent \<Rightarrow> tags" where
  "tool_tags callID name ev =
     (let t0 = [(''is_error'', if tr_IsError ev then ''true'' else ''false''), (''tool_call_id'', callID), (''tool_name'', name)];
          t1 = (if tr_ErrorCode ev \<noteq> [] then tag_put ''error_code'' (tr_ErrorCode ev) t0 else t0)
      in if tr_MetaJSON ev \<noteq> [] then tag_put ''metadata'' (tr_MetaJSON ev) t1 else t1)"

definition tool_message :: "string \<Rightarrow> string \<Rightarrow> string \<Rightarrow> LMessage" where
  "tool_message callID name content =
     \<lparr> lm_Role = ''tool'', lm_Content = content, lm_Name = name, lm_ToolCallID = callID, lm_ToolCalls = [] \<rparr>"

definition tool_error :: "ToolResultEvent \<Rightarrow> string" where
  "tool_error ev = (if tr_ErrorMsg ev = [] \<and> tr_IsError ev then tr_Content ev else tr_ErrorMsg ev)"

text \<open>One tool call: its events, its execution, its message and its history entry.\<close>

definition call_id :: "'w AgentRunner \<Rightarrow> 'w rstate \<Rightarrow> ToolCall \<Rightarrow> string \<times> 'w rstate" where
  "call_id R s tc = (if tc_ID tc = [] then on_world (ar_new_id R) s else (tc_ID tc, s))"

definition tool_step :: "'w AgentRunner \<Rightarrow> 'w rstate \<Rightarrow> Task \<Rightarrow> string \<Rightarrow> ToolCall \<Rightarrow> (string, LMessage) result \<times> 'w rstate" where
  "tool_step R s t assistantMsgID tc =
     (let (callID, s0) = call_id R s tc;
          s1 = publishToolEvent R s0 t callID (tc_Name tc) ''started'' [] [] False 0;
          (r, s2) = executeToolCall R s1 t callID tc
      in case r of
           Inl e \<Rightarrow>
             (let (ms, s3) = on_world (ar_since R) s2;
                  s4 = publishToolEvent R s3 t callID (tc_Name tc) ''failed'' [] e True ms
              in (Inl e, fail R s4 t StateWaitingTool ''tool_execute'' e))
         | Inr ev \<Rightarrow>
             (let s3 = publishToolEvent R s2 t callID (tc_Name tc) (if tr_IsError ev then ''failed'' else ''completed'')
                    (timelineText (tr_Content ev)) (timelineText (tool_error ev)) (tr_IsError ev) (nat (max (tr_ElapsedMS ev) 0));
                  s4 = snd (append_history R s3 (t_RunID t)
                    (new_message RoleTool (tr_Content ev) assistantMsgID (tool_tags callID (tc_Name tc) ev)))
              in (Inr (tool_message callID (tc_Name tc) (tr_Content ev)), s4)))"

fun tool_calls :: "'w AgentRunner \<Rightarrow> 'w rstate \<Rightarrow> Task \<Rightarrow> string \<Rightarrow> LMessage list \<Rightarrow> ToolCall list \<Rightarrow> (string, LMessage list) result \<times> 'w rstate" where
  "tool_calls R s t aid msgs [] = (Inr msgs, s)"
| "tool_calls R s t aid msgs (tc # tcs) =
     (case tool_step R s t aid tc of
        (Inl e, s1) \<Rightarrow> (Inl e, s1)
      | (Inr m, s1) \<Rightarrow> tool_calls R s1 t aid (msgs @ [m]) tcs)"

definition maxToolSteps :: "'w AgentRunner \<Rightarrow> int" where
  "maxToolSteps R = (if ar_ToolMaxSteps R \<le> 0 then 5 else ar_ToolMaxSteps R)"

definition assistant_message :: "string \<Rightarrow> ToolCall list \<Rightarrow> LMessage" where
  "assistant_message text calls =
     \<lparr> lm_Role = ''assistant'', lm_Content = text, lm_Name = [], lm_ToolCallID = [], lm_ToolCalls = calls \<rparr>"

definition save_assistant :: "'w AgentRunner \<Rightarrow> 'w rstate \<Rightarrow> Task \<Rightarrow> string \<Rightarrow> ToolCall list \<Rightarrow> string \<times> 'w rstate" where
  "save_assistant R s t text calls =
     (if text \<noteq> [] \<or> calls \<noteq> [] then
        (let (r, s1) = append_history R s (t_RunID t) (new_message RoleAssistant text []
               (if calls \<noteq> [] then [(''tool_calls'', marshalToolCallsTag calls)] else []))
         in (case r of Inl e \<Rightarrow> [] | Inr i \<Rightarrow> i, s1))
      else ([], s))"

definition tools_unavailable :: "'w AgentRunner \<Rightarrow> Task \<Rightarrow> ToolCall list \<Rightarrow> bool" where
  "tools_unavailable R t calls =
     ((case toolRunnerFor R t of None \<Rightarrow> True | Some tr \<Rightarrow> at_List tr = None) \<and>
      \<not> (ar_MultiAgentEnabled R \<and> hasOnlyDispatchSubagent calls))"

definition finish :: "'w AgentRunner \<Rightarrow> 'w rstate \<Rightarrow> Task \<Rightarrow> int \<Rightarrow> 'w rstate" where
  "finish R s t tot = snd (publish R (snd (publishState R s t StateRunning StateDone)) (t_RunID t) (done_event t tot))"

function run_loop :: "'w AgentRunner \<Rightarrow> 'w rstate \<Rightarrow> Task \<Rightarrow> LMessage list \<Rightarrow> int \<Rightarrow> int \<Rightarrow> int \<Rightarrow> string option \<times> 'w rstate" where
  "run_loop R s t msgs idx tokenCnt toolRounds =
     (case streamOnce R s t msgs (llmTools R t) idx of
        (Inl e, emitted, idx1, s1) \<Rightarrow> (Some e, fail R s1 t StateRunning ''llm_chunk'' e)
      | (Inr (text, calls), emitted, idx1, s1) \<Rightarrow>
          (let tot = wrap64 (tokenCnt + emitted);
               msgs1 = msgs @ [assistant_message text calls];
               (aid, s2) = save_assistant R s1 t text calls;
               s3 = executePostLLMHook R s2 t text calls
           in if calls = [] then (None, finish R s3 t tot)
              else if tools_unavailable R t calls then
                (let e = ''model requested tool calls but tool runtime is disabled'' in
                 (Some e, fail R s3 t StateRunning ''tool_unavailable'' e))
              else if toolRounds \<ge> maxToolSteps R then
                (let e = ''tool call loop exceeded max steps ('' @ Itoa (maxToolSteps R) @ '')'' in
                 (Some e, fail R s3 t StateRunning ''tool_loop_limit'' e))
              else
                (let s4 = snd (publishState R s3 t StateRunning StateWaitingTool) in
                 case tool_calls R s4 t aid msgs1 calls of
                   (Inl e, s5) \<Rightarrow> (Some e, s5)
                 | (Inr msgs2, s5) \<Rightarrow>
                     run_loop R (snd (publishState R s5 t StateWaitingTool StateRunning)) t msgs2 idx1 tot (toolRounds + 1))))"
  by pat_completeness auto
termination
  by (relation "measure (\<lambda>(R, s, t, msgs, idx, tokenCnt, toolRounds). nat (maxToolSteps R - toolRounds))") auto

declare run_loop.simps [simp del]

definition Run :: "'w AgentRunner \<Rightarrow> 'w rstate \<Rightarrow> Task \<Rightarrow> string option \<times> 'w rstate" where
  "Run R s t =
     (if t_RunID t = [] then (Some ''empty run id'', s)
      else
        (let s1 = snd (publishState R s t StatePending StateRunning) in
         case load_history R s1 t of
           (Inl (code, e), s2) \<Rightarrow> (Some e, fail R s2 t StateRunning code e)
         | (Inr prior, s2) \<Rightarrow>
             (case build_messages R s2 t prior of
                (Inl (code, e), s3) \<Rightarrow> (Some e, fail R s3 t StateRunning code e)
              | (Inr msgs, s3) \<Rightarrow> run_loop R s3 t msgs 0 0 0)))"

section \<open>What the operations do to the trace\<close>

lemma on_world_frame [simp]:
  "st_trace (snd (on_world f s)) = st_trace s" "st_children (snd (on_world f s)) = st_children s"
  by (simp_all add: on_world_def split: prod.splits)

lemma on_worldD: "on_world f s = (x, s') \<Longrightarrow> st_trace s' = st_trace s \<and> st_children s' = st_children s"
  using on_world_frame [of f s] by simp

lemma log_act_frame [simp]:
  "st_trace (log_act a s) = st_trace s @ [a]" "st_children (log_act a s) = st_children s"
  by (simp_all add: log_act_def)

lemma publish_frame [simp]:
  "st_trace (snd (publish R s r e)) = st_trace s @ [Publish r e]" "st_children (snd (publish R s r e)) = st_children s"
  by (simp_all add: publish_def)

lemma publishState_frame [simp]:
  "st_trace (snd (publishState R s t f to)) = st_trace s @ (if CanTransit f to then [Publish (t_RunID t) (state_event t f to)] else [])"
  "st_children (snd (publishState R s t f to)) = st_children s"
  by (simp_all add: publishState_def)

lemma fail_frame [simp]:
  "st_trace (fail R s t f code msg) =
     st_trace s @ (if CanTransit f StateFailed then [Publish (t_RunID t) (state_event t f StateFailed)] else []) @
     [Publish (t_RunID t) (error_event t code msg)]"
  "st_children (fail R s t f code msg) = st_children s"
  by (simp_all add: fail_def)

lemma publishToolEvent_frame [simp]:
  "st_trace (publishToolEvent R s t c n p x y b ms) = st_trace s @ [Publish (t_RunID t) (tool_event t c n p x y b ms)]"
  "st_children (publishToolEvent R s t c n p x y b ms) = st_children s"
  by (simp_all add: publishToolEvent_def)

lemma append_history_frame [simp]:
  "st_trace (snd (append_history R s r m)) = st_trace s" "st_children (snd (append_history R s r m)) = st_children s"
  by (simp_all add: append_history_def)

lemma append_historyD: "append_history R s r m = (x, s') \<Longrightarrow> st_trace s' = st_trace s \<and> st_children s' = st_children s"
  using append_history_frame [of R s r m] by simp

lemma executePostLLMHook_frame [simp]:
  "st_trace (executePostLLMHook R s t x cs) = st_trace s" "st_children (executePostLLMHook R s t x cs) = st_children s"
  by (simp_all add: executePostLLMHook_def split: option.splits)

lemma save_assistant_frame [simp]:
  "st_trace (snd (save_assistant R s t x cs)) = st_trace s" "st_children (snd (save_assistant R s t x cs)) = st_children s"
  by (simp_all add: save_assistant_def split_beta)

lemma call_id_frame [simp]:
  "st_trace (snd (call_id R s tc)) = st_trace s" "st_children (snd (call_id R s tc)) = st_children s"
  by (simp_all add: call_id_def)

lemma context_frame [simp]:
  "st_trace (snd (skill_messages R s t)) = st_trace s" "st_children (snd (skill_messages R s t)) = st_children s"
  "st_trace (snd (rag_messages R s t)) = st_trace s" "st_children (snd (rag_messages R s t)) = st_children s"
  "st_trace (snd (hook_messages R s t)) = st_trace s" "st_children (snd (hook_messages R s t)) = st_children s"
  by (simp_all add: skill_messages_def rag_messages_def hook_messages_def Let_def split_beta split: option.splits)

lemma build_messages_frame [simp]:
  "st_trace (snd (build_messages R s t prior)) = st_trace s" "st_children (snd (build_messages R s t prior)) = st_children s"
  by (simp_all add: build_messages_def Let_def split_beta split: sum.splits)

section \<open>The transition table\<close>

lemma state_names_distinct [simp]:
  "StatePending \<noteq> StateRunning" "StatePending \<noteq> StateWaitingTool" "StatePending \<noteq> StateCompacting" "StatePending \<noteq> StateDone"
  "StatePending \<noteq> StateFailed" "StateRunning \<noteq> StateWaitingTool" "StateRunning \<noteq> StateCompacting" "StateRunning \<noteq> StateDone"
  "StateRunning \<noteq> StateFailed" "StateWaitingTool \<noteq> StateCompacting" "StateWaitingTool \<noteq> StateDone" "StateWaitingTool \<noteq> StateFailed"
  "StateCompacting \<noteq> StateDone" "StateCompacting \<noteq> StateFailed" "StateDone \<noteq> StateFailed"
  by (simp_all add: state_names)

lemmas state_names_distinct' [simp] = state_names_distinct [symmetric]

definition legal_moves :: "(string \<times> string) set" where
  "legal_moves = {(StatePending, StateRunning), (StatePending, StateFailed), (StateRunning, StateWaitingTool),
     (StateRunning, StateCompacting), (StateRunning, StateDone), (StateRunning, StateFailed), (StateWaitingTool, StateRunning),
     (StateWaitingTool, StateFailed), (StateCompacting, StateRunning), (StateCompacting, StateFailed)}"

lemma CanTransit_iff: "CanTransit f t \<longleftrightarrow> (f, t) \<in> legal_moves"
  by (auto simp: CanTransit_def validTransitions_def legal_moves_def lookup0_def)

lemma CanTransit_simps [simp]:
  "CanTransit StatePending StateRunning" "CanTransit StateRunning StateWaitingTool" "CanTransit StateRunning StateCompacting"
  "CanTransit StateRunning StateDone" "CanTransit StateRunning StateFailed" "CanTransit StateWaitingTool StateRunning"
  "CanTransit StateWaitingTool StateFailed" "CanTransit StateCompacting StateRunning"
  by (simp_all add: CanTransit_iff legal_moves_def)

text \<open>The transition table: DONE and FAILED are final and the only final states, PENDING is never entered again, every other
  state can fail, and MustTransit refuses exactly what CanTransit refuses.\<close>

theorem CanTransit_table:
  "\<not> CanTransit StateDone t \<and> \<not> CanTransit StateFailed t \<and> \<not> CanTransit f StatePending \<and> \<not> CanTransit f f \<and>
   (CanTransit f StateFailed = (f \<in> {StatePending, StateRunning, StateWaitingTool, StateCompacting})) \<and>
   (CanTransit f StateDone = (f = StateRunning)) \<and> (MustTransit f t = None) = CanTransit f t"
  by (auto simp: CanTransit_iff legal_moves_def MustTransit_def)

section \<open>The event protocol\<close>

text \<open>What a client of the event stream of one run may rely on: state events form a chain through the table that starts at PENDING,
  tokens are numbered without gaps (as an int64) while the run is RUNNING, tool events come in pairs while it waits for tools, and a run ends with one
  done event carrying the number of tokens, or one error event.\<close>

record proto =
  pr_state :: string
  pr_idx :: int
  pr_tool :: "(string \<times> string) option"
  pr_over :: bool

definition proto0 :: proto where
  "proto0 = \<lparr> pr_state = StatePending, pr_idx = 0, pr_tool = None, pr_over = False \<rparr>"

definition proto_step :: "proto \<Rightarrow> Event \<Rightarrow> proto option" where
  "proto_step p e =
     (if pr_over p then None
      else if e_Kind e = EventState then
        (if e_From e = pr_state p \<and> CanTransit (e_From e) (e_State e) \<and> pr_tool p = None then Some (p\<lparr> pr_state := e_State e \<rparr>) else None)
      else if e_Kind e = EventToken then
        (if pr_state p = StateRunning \<and> e_Index e = pr_idx p \<and> e_Text e \<noteq> [] then Some (p\<lparr> pr_idx := wrap64 (pr_idx p + 1) \<rparr>) else None)
      else if e_Kind e = EventTool then
        (if pr_state p \<noteq> StateWaitingTool then None
         else if e_Phase e = ''started'' then
           (if pr_tool p = None then Some (p\<lparr> pr_tool := Some (e_CallID e, e_ToolName e) \<rparr>) else None)
         else if pr_tool p = Some (e_CallID e, e_ToolName e) \<and>
             e_Phase e = (if e_IsError e then ''failed'' else ''completed'') then Some (p\<lparr> pr_tool := None \<rparr>) else None)
      else if e_Kind e = EventDone then
        (if pr_state p = StateDone \<and> e_Total e = pr_idx p then Some (p\<lparr> pr_over := True \<rparr>) else None)
      else if e_Kind e = EventError then
        (if pr_state p = StateFailed then Some (p\<lparr> pr_over := True \<rparr>) else None)
      else None)"

fun proto_run :: "proto \<Rightarrow> Event list \<Rightarrow> proto option" where
  "proto_run p [] = Some p"
| "proto_run p (e # es) = Option.bind (proto_step p e) (\<lambda>q. proto_run q es)"

lemma proto_run_append: "proto_run p (es @ fs) = Option.bind (proto_run p es) (\<lambda>q. proto_run q fs)"
  by (induction es arbitrary: p) (auto split: Option.bind_splits)

text \<open>The events published for a run.\<close>

fun run_event :: "string \<Rightarrow> act \<Rightarrow> Event list" where
  "run_event rid (Publish r e) = (if r = rid then [e] else [])"
| "run_event rid _ = []"

definition run_events :: "string \<Rightarrow> act list \<Rightarrow> Event list" where
  "run_events rid tr = concat (map (run_event rid) tr)"

lemma run_events_simps [simp]: "run_events rid [] = []" "run_events rid (a @ b) = run_events rid a @ run_events rid b"
  "run_events rid (x # b) = run_event rid x @ run_events rid b"
  by (simp_all add: run_events_def)

text \<open>The state of the protocol after what has been published for the run so far.\<close>

definition proto_at :: "string \<Rightarrow> proto \<Rightarrow> 'w rstate \<Rightarrow> bool" where
  "proto_at rid p s = (proto_run proto0 (run_events rid (st_trace s)) = Some p)"

definition idle :: "proto \<Rightarrow> string \<Rightarrow> int \<Rightarrow> bool" where
  "idle p f idx = (pr_state p = f \<and> pr_tool p = None \<and> \<not> pr_over p \<and> pr_idx p = idx)"

lemma at_cong: "st_trace s' = st_trace s \<Longrightarrow> proto_at rid p s' = proto_at rid p s"
  by (simp add: proto_at_def)

lemma at_add:
  assumes "proto_at rid p s" "st_trace s' = st_trace s @ as" "proto_run p (run_events rid as) = Some q"
  shows "proto_at rid q s'"
  using assms by (simp add: proto_at_def proto_run_append)

lemma at_other: "proto_at rid p s \<Longrightarrow> st_trace s' = st_trace s @ as \<Longrightarrow> run_events rid as = [] \<Longrightarrow> proto_at rid p s'"
  using at_add [of rid p s s' as p] by simp

lemma at_state:
  assumes "proto_at (t_RunID t) p s" "idle p f idx" "CanTransit f to"
  shows "proto_at (t_RunID t) (p\<lparr> pr_state := to \<rparr>) (snd (publishState R s t f to))" "idle (p\<lparr> pr_state := to \<rparr>) to idx"
  using assms by (auto intro!: at_add [OF assms(1)] simp: proto_step_def state_event_def event_kinds idle_def)

definition over :: "proto \<Rightarrow> string \<Rightarrow> bool" where "over p f = (pr_over p \<and> pr_state p = f)"

lemma at_fail:
  assumes "proto_at (t_RunID t) p s" "idle p f idx" "CanTransit f StateFailed"
  shows "\<exists>q. proto_at (t_RunID t) q (fail R s t f code msg) \<and> over q StateFailed"
proof -
  have "proto_run p (run_events (t_RunID t) [Publish (t_RunID t) (state_event t f StateFailed), Publish (t_RunID t) (error_event t code msg)]) =
      Some (p\<lparr> pr_state := StateFailed, pr_over := True \<rparr>)"
    using assms(2,3) by (simp add: proto_step_def state_event_def error_event_def zero_event_def event_kinds idle_def)
  from at_add [OF assms(1) _ this, of "fail R s t f code msg"] assms(3) show ?thesis
    by (auto simp: over_def intro!: exI [of _ "p\<lparr> pr_state := StateFailed, pr_over := True \<rparr>"])
qed

section \<open>Streams\<close>

lemma wrap64_simps:
  "wrap64 (wrap64 i) = wrap64 i" "wrap64 (wrap64 i + j) = wrap64 (i + j)" "wrap64 (i + wrap64 j) = wrap64 (i + j)"
  "wrap64 (i - wrap64 j) = wrap64 (i - j)" "wrap64 (wrap64 i - j) = wrap64 (i - j)"
  "wrap64 (i + (wrap64 j - k)) = wrap64 (i + (j - k))" "wrap64 (i + 1 + (j - wrap64 (k + 1))) = wrap64 (i + (j - k))"
  by (simp_all add: wrap64_def)

text \<open>A segment of the trace that is invisible to a run.\<close>

definition unseen :: "string \<Rightarrow> 'w rstate \<Rightarrow> 'w rstate \<Rightarrow> bool" where
  "unseen rid s s' = (run_events rid (st_trace s') = run_events rid (st_trace s))"

lemma unseen_refl [simp]: "unseen rid s s" by (simp add: unseen_def)

lemma unseen_trans: "unseen rid s s' \<Longrightarrow> unseen rid s' s'' \<Longrightarrow> unseen rid s s''" by (simp add: unseen_def)

lemma unseen_at: "unseen rid s s' \<Longrightarrow> proto_at rid p s \<Longrightarrow> proto_at rid p s'" by (simp add: unseen_def proto_at_def)

lemma unseen_eq: "st_trace s' = st_trace s \<Longrightarrow> unseen rid s s'" by (simp add: unseen_def)

definition token_event :: "Task \<Rightarrow> string \<Rightarrow> int \<Rightarrow> Event" where
  "token_event t text idx =
     zero_event\<lparr> e_RunID := t_RunID t, e_TraceID := t_TraceID t, e_Kind := EventToken, e_Text := text, e_Index := idx \<rparr>"

text \<open>The loop of streamOnce, one event at a time.\<close>

lemma stream_events_Cons:
  "stream_events R s t buf calls cnt idx (ev # evs) =
     (case te_Err ev of
        Some e \<Rightarrow> (Inl e, cnt, idx, s)
      | None \<Rightarrow>
          if te_Token ev = [] then
            (if te_Done ev then (Inr (buf, calls @ te_ToolCalls ev), cnt, idx, s)
             else stream_events R s t buf (calls @ te_ToolCalls ev) cnt idx evs)
          else
            (let s1 = snd (publish R s (t_RunID t) (token_event t (te_Token ev) idx)) in
             if te_Done ev then (Inr (buf @ te_Token ev, calls @ te_ToolCalls ev), wrap64 (cnt + 1), wrap64 (idx + 1), s1)
             else stream_events R s1 t (buf @ te_Token ev) (calls @ te_ToolCalls ev) (wrap64 (cnt + 1)) (wrap64 (idx + 1)) evs))"
  by (simp add: Let_def token_event_def split: option.splits)

declare stream_events.simps(2) [simp del]

lemma stream_events_frame:
  assumes "stream_events R s t buf calls cnt idx evs = (r, cnt', idx', s')"
  shows "\<exists>tk. st_trace s' = st_trace s @ map (\<lambda>(x, i). Publish (t_RunID t) (token_event t x i)) tk \<and> st_children s' = st_children s"
  using assms
proof (induction evs arbitrary: s buf calls cnt idx)
  case Nil
  then show ?case by (intro exI [of _ "[]"]) simp
next
  case (Cons ev evs)
  show ?case
  proof (cases "te_Err ev = None \<and> te_Token ev \<noteq> []")
    case False
    then show ?thesis using Cons.prems Cons.IH
      by (cases "te_Err ev"; cases "te_Done ev") (auto simp: stream_events_Cons intro!: exI [of _ "[]"])
  next
    case True
    let ?s1 = "snd (publish R s (t_RunID t) (token_event t (te_Token ev) idx))"
    show ?thesis
    proof (cases "te_Done ev")
      case fin: True
      then show ?thesis using True Cons.prems
        by (auto simp: stream_events_Cons Let_def intro!: exI [of _ "[(te_Token ev, idx)]"])
    next
      case False
      then have "stream_events R ?s1 t (buf @ te_Token ev) (calls @ te_ToolCalls ev) (wrap64 (cnt + 1)) (wrap64 (idx + 1)) evs = (r, cnt', idx', s')"
        using True Cons.prems by (simp add: stream_events_Cons Let_def)
      from Cons.IH [OF this] obtain tk where
        "st_trace s' = st_trace ?s1 @ map (\<lambda>(x, i). Publish (t_RunID t) (token_event t x i)) tk" "st_children s' = st_children ?s1" by blast
      then show ?thesis by (intro exI [of _ "(te_Token ev, idx) # tk"]) simp
    qed
  qed
qed

lemma stream_events_at:
  assumes "stream_events R s t buf calls cnt idx evs = (r, cnt', idx', s')"
    and "proto_at (t_RunID t) p s" "idle p StateRunning idx" "wrap64 idx = idx"
  shows "wrap64 (idx + (cnt' - cnt)) = idx' \<and> (\<exists>q. proto_at (t_RunID t) q s' \<and> idle q StateRunning idx')"
  using assms
proof (induction evs arbitrary: s buf calls cnt idx p)
  case (Cons ev evs)
  show ?case
  proof (cases "te_Err ev = None \<and> te_Token ev \<noteq> []")
    case False
    then show ?thesis using Cons.prems Cons.IH
      by (cases "te_Err ev"; cases "te_Done ev") (auto simp: stream_events_Cons)
  next
    case True
    let ?s1 = "snd (publish R s (t_RunID t) (token_event t (te_Token ev) idx))"
    let ?p1 = "p\<lparr> pr_idx := wrap64 (idx + 1) \<rparr>"
    have at1: "proto_at (t_RunID t) ?p1 ?s1"
      using True Cons.prems(3)
      by (intro at_add [OF Cons.prems(2), where as = "[Publish (t_RunID t) (token_event t (te_Token ev) idx)]"])
        (simp_all add: proto_step_def token_event_def event_kinds idle_def)
    have idle1: "idle ?p1 StateRunning (wrap64 (idx + 1))" using Cons.prems(3) by (simp add: idle_def)
    show ?thesis
    proof (cases "te_Done ev")
      case fin: True
      then show ?thesis using True Cons.prems(1) at1 idle1 by (auto simp: stream_events_Cons Let_def wrap64_simps)
    next
      case False
      then have "stream_events R ?s1 t (buf @ te_Token ev) (calls @ te_ToolCalls ev) (wrap64 (cnt + 1)) (wrap64 (idx + 1)) evs = (r, cnt', idx', s')"
        using True Cons.prems(1) by (simp add: stream_events_Cons Let_def)
      from Cons.IH [OF this at1 idle1 wrap64_simps(1)] show ?thesis by (simp only: wrap64_simps(2,7))
    qed
  qed
qed auto

lemma streamOnce_frame:
  assumes "streamOnce R s t msgs tools idx = (r, cnt, idx', s')"
  shows "\<exists>req tk. st_trace s' = st_trace s @ CallLLM (t_RunID t) req # map (\<lambda>(x, i). Publish (t_RunID t) (token_event t x i)) tk \<and>
    st_children s' = st_children s"
proof -
  define req where "req = \<lparr> lq_Model = t_Model t, lq_Messages = msgs, lq_Tools = tools, lq_MaxTokens = 0 \<rparr>"
  obtain x s1 where o: "on_world (\<lambda>w. ar_Provider R w req) (log_act (CallLLM (t_RunID t) req) s) = (x, s1)" by fastforce
  note s1 = on_worldD [OF o]
  show ?thesis
  proof (cases x)
    case (Inl e)
    then show ?thesis using assms o s1 by (auto simp: streamOnce_def req_def intro!: exI [of _ "[]"])
  next
    case (Inr evs)
    then have "stream_events R s1 t [] [] 0 idx evs = (r, cnt, idx', s')" using assms o by (simp add: streamOnce_def req_def)
    from stream_events_frame [OF this] obtain tk where
      "st_trace s' = st_trace s1 @ map (\<lambda>(x, i). Publish (t_RunID t) (token_event t x i)) tk" "st_children s' = st_children s1" by blast
    then show ?thesis using s1 by (intro exI [of _ req] exI [of _ tk]) simp
  qed
qed

lemma run_events_tokens:
  "r \<noteq> rid \<Longrightarrow> run_events rid (map (\<lambda>(x, i). Publish r (f x i)) tk) = []"
  by (induction tk) auto

lemma streamOnce_unseen:
  assumes "streamOnce R s t msgs tools idx = (r, cnt, idx', s')" "t_RunID t \<noteq> rid"
  shows "unseen rid s s'"
  using streamOnce_frame [OF assms(1)] assms(2) by (auto simp: unseen_def run_events_tokens)

lemma streamOnce_at:
  assumes "streamOnce R s t msgs tools idx = (r, cnt, idx', s')" "proto_at (t_RunID t) p s" "idle p StateRunning idx" "wrap64 idx = idx"
  shows "wrap64 (idx + cnt) = idx' \<and> wrap64 idx' = idx' \<and> (\<exists>q. proto_at (t_RunID t) q s' \<and> idle q StateRunning idx')"
proof -
  define req where "req = \<lparr> lq_Model = t_Model t, lq_Messages = msgs, lq_Tools = tools, lq_MaxTokens = 0 \<rparr>"
  obtain x s1 where o: "on_world (\<lambda>w. ar_Provider R w req) (log_act (CallLLM (t_RunID t) req) s) = (x, s1)" by fastforce
  have at1: "proto_at (t_RunID t) p s1"
    by (rule at_other [OF assms(2), where as = "[CallLLM (t_RunID t) req]"]) (use on_worldD [OF o] in simp_all)
  show ?thesis
  proof (cases x)
    case (Inl e)
    then show ?thesis using assms(1,3,4) o at1 by (auto simp: streamOnce_def req_def)
  next
    case (Inr evs)
    then have "stream_events R s1 t [] [] 0 idx evs = (r, cnt, idx', s')" using assms(1) o by (simp add: streamOnce_def req_def)
    from stream_events_at [OF this at1 assms(3,4)] show ?thesis by (auto simp: wrap64_simps)
  qed
qed

section \<open>Child runs\<close>

lemma publishState_unseen: "t_RunID t \<noteq> rid \<Longrightarrow> unseen rid s (snd (publishState R s t f to))"
  by (simp add: unseen_def)

lemma fail_unseen: "t_RunID t \<noteq> rid \<Longrightarrow> unseen rid s (fail R s t f c m)"
  by (simp add: unseen_def)

text \<open>A child run asks the model at most once.\<close>

fun is_llm :: "act \<Rightarrow> bool" where "is_llm (CallLLM r q) = True" | "is_llm _ = False"

definition llm_calls :: "'w rstate \<Rightarrow> int" where
  "llm_calls s = int (length (filter is_llm (st_trace s)))"

lemma tokens_not_llm: "filter is_llm (map (\<lambda>(x, i). Publish r (f x i)) tk) = []"
  by (induction tk) auto

lemma streamOnce_llm:
  assumes "streamOnce R s t msgs tools idx = (r, cnt, idx', s')"
  shows "llm_calls s' = llm_calls s + 1 \<and> st_children s' = st_children s"
  using streamOnce_frame [OF assms] by (auto simp: llm_calls_def tokens_not_llm)

lemma RunChild_frame:
  "cr_ChildRunID req \<noteq> rid \<longrightarrow> unseen rid s (snd (RunChild R s timeout req))"
  "llm_calls (snd (RunChild R s timeout req)) \<le> llm_calls s + 1"
  "st_children (snd (RunChild R s timeout req)) = st_children s"
proof -
  let ?t = "child_task req"
  have tid: "t_RunID ?t = cr_ChildRunID req" by (simp add: child_task_def)
  let ?s1 = "snd (publishState R s ?t StatePending StateRunning)"
  obtain a s2 where a: "append_history R ?s1 (cr_ChildRunID req) (new_message RoleUser (child_prompt req) [] (child_tags req)) = (a, s2)"
    by fastforce
  note s2 = append_historyD [OF a]
  let ?P = "\<lambda>s'. (cr_ChildRunID req \<noteq> rid \<longrightarrow> unseen rid s s') \<and> llm_calls s' \<le> llm_calls s + 1 \<and> st_children s' = st_children s"
  have "?P (snd (RunChild R s timeout req))"
  proof (cases a)
    case (Inl e)
    then show ?thesis using a s2 by (simp add: RunChild_def tid unseen_def llm_calls_def Let_def)
  next
    case (Inr i)
    let ?msgs = "[llm_message ''system'' ''You are an AgentForge subagent. Complete the delegated task and answer with a concise structured summary.'',
                  llm_message ''user'' (child_prompt req)]"
    obtain r cnt idx s3 where st: "streamOnce R s2 ?t ?msgs [] 0 = (r, cnt, idx, s3)" by (metis prod_cases4)
    have s3: "cr_ChildRunID req \<noteq> rid \<longrightarrow> unseen rid s2 s3" "llm_calls s3 = llm_calls s2 + 1" "st_children s3 = st_children s2"
      using streamOnce_unseen [OF st, of rid] streamOnce_llm [OF st] by (simp_all add: tid)
    show ?thesis
    proof (cases r)
      case (Inl e)
      then show ?thesis using a Inr s2 st s3 by (simp add: RunChild_def tid unseen_def llm_calls_def Let_def)
    next
      case ok: (Inr x)
      obtain body calls where x: "x = (body, calls)" by (cases x)
      obtain b s4 where b: "append_history R s3 (cr_ChildRunID req) (new_message RoleAssistant body [] (child_tags req)) = (b, s4)"
        by fastforce
      note s4 = append_historyD [OF b]
      show ?thesis
      proof (cases b)
        case (Inl e)
        then show ?thesis using a Inr s2 st s3 ok x b s4 by (simp add: RunChild_def tid unseen_def llm_calls_def Let_def)
      next
        case (Inr j)
        then show ?thesis using a \<open>a = Inr i\<close> s2 st s3 ok x b s4 by (simp add: RunChild_def tid unseen_def llm_calls_def Let_def)
      qed
    qed
  qed
  then show "cr_ChildRunID req \<noteq> rid \<longrightarrow> unseen rid s (snd (RunChild R s timeout req))"
    "llm_calls (snd (RunChild R s timeout req)) \<le> llm_calls s + 1"
    "st_children (snd (RunChild R s timeout req)) = st_children s" by simp_all
qed

section \<open>Tool calls\<close>

definition kids :: "'w rstate \<Rightarrow> string \<Rightarrow> int" where "kids s rid = lookup0 0 (st_children s) rid"

definition child_limit :: "'w AgentRunner \<Rightarrow> int" where
  "child_limit R = (if ar_SubagentMaxChildren R \<le> 0 then 4 else ar_SubagentMaxChildren R)"

text \<open>At most n model requests of the run itself, and one more for each child it started.\<close>

definition spend :: "int \<Rightarrow> 'w AgentRunner \<Rightarrow> string \<Rightarrow> 'w rstate \<Rightarrow> 'w rstate \<Rightarrow> bool" where
  "spend n R rid s s' = (llm_calls s' - llm_calls s \<le> n + (kids s' rid - kids s rid) \<and> kids s rid \<le> kids s' rid \<and>
     kids s' rid \<le> max (child_limit R) (kids s rid))"

lemma spend_trans: "spend n R rid s s' \<Longrightarrow> spend m R rid s' s'' \<Longrightarrow> spend (n + m) R rid s s''"
  by (auto simp: spend_def)

lemma spend_0_trans: "spend 0 R rid s s' \<Longrightarrow> spend m R rid s' s'' \<Longrightarrow> spend m R rid s s''"
  using spend_trans [of 0 R rid s s' m s''] by simp

lemma spend_trans_0: "spend m R rid s s' \<Longrightarrow> spend 0 R rid s' s'' \<Longrightarrow> spend m R rid s s''"
  using spend_trans [of m R rid s s' 0 s''] by simp

lemma spend_frame:
  "st_trace s' = st_trace s @ as \<Longrightarrow> filter is_llm as = [] \<Longrightarrow> st_children s' = st_children s \<Longrightarrow> spend 0 R rid s s'"
  by (simp add: spend_def llm_calls_def kids_def)

lemma spend_mono: "spend n R rid s s' \<Longrightarrow> n \<le> m \<Longrightarrow> spend m R rid s s'"
  by (auto simp: spend_def)

definition fresh_ids :: "'w AgentRunner \<Rightarrow> string \<Rightarrow> bool" where
  "fresh_ids R rid = (\<forall>w. fst (ar_new_id R w) \<noteq> rid)"

lemma fresh_on_world: "fresh_ids R rid \<Longrightarrow> on_world (ar_new_id R) s = (i, s') \<Longrightarrow> i \<noteq> rid"
  unfolding fresh_ids_def on_world_def by (auto split: prod.splits) (metis fst_conv)

lemma dispatchSubagent_frame:
  assumes "dispatchSubagent R s t callID tc = (ev, s')"
  shows "(fresh_ids R (t_RunID t) \<longrightarrow> unseen (t_RunID t) s s') \<and> spend 0 R (t_RunID t) s s'"
proof (cases "Option.bind (json_parse (tc_Arguments tc)) SubagentRequest_of")
  case None
  then show ?thesis using assms by (auto simp: dispatchSubagent_def spend_def)
next
  case (Some req)
  let ?S = "\<lparr> su_MaxDepth = ar_SubagentMaxDepth R, su_MaxChildren = ar_SubagentMaxChildren R, su_Timeout = ar_SubagentTimeout R,
     su_Children = st_children s \<rparr>"
  obtain res err S' s1 where D: "Dispatch (Some (RunChild R)) (on_world (ar_new_id R)) ?S s (t_RunID t) (t_TraceID t) (t_UserID t)
      (t_Model t) (ar_Depth R) req = ((res, err), S', s1)" by (metis surj_pair)
  have s': "s' = s1\<lparr> st_children := su_Children S' \<rparr>"
    using assms Some D by (simp add: dispatchSubagent_def Let_def)
  consider "ar_Depth R \<ge> max_depth ?S" | "ar_Depth R < max_depth ?S" "kids s (t_RunID t) \<ge> max_children ?S"
    | "ar_Depth R < max_depth ?S" "kids s (t_RunID t) < max_children ?S" by linarith
  then show ?thesis
  proof cases
    case 1
    then have "S' = ?S" "s1 = s" using D by (auto simp: Dispatch_refused(1))
    then show ?thesis using s' by (simp add: unseen_def spend_def llm_calls_def kids_def)
  next
    case 2
    then have "S' = ?S" "s1 = s" using D by (auto simp: Dispatch_refused(2) kids_def)
    then show ?thesis using s' by (simp add: unseen_def spend_def llm_calls_def kids_def)
  next
    case 3
    obtain child s0 rr r to where i: "on_world (ar_new_id R) s = (child, s0)" and r: "RunChild R s0 to rr = (r, s1)"
      and rr: "cr_ChildRunID rr = child"
      and S': "S' = ?S\<lparr> su_Children := (st_children s)(t_RunID t \<mapsto> kids s (t_RunID t) + 1) \<rparr>"
      using Dispatch_accepted [OF 3(1) _ D] 3(2) by (auto simp: kids_def)
    have s0: "st_trace s0 = st_trace s" "st_children s0 = st_children s" using on_worldD [OF i] by simp_all
    have "unseen (t_RunID t) s s'" if "fresh_ids R (t_RunID t)"
      using RunChild_frame(1) [of rr "t_RunID t" s0 R to] r rr fresh_on_world [OF that i] s0 s' by (simp add: unseen_def)
    moreover have "llm_calls s' \<le> llm_calls s + 1"
      using RunChild_frame(2) [of R s0 to rr] r s0 s' by (simp add: llm_calls_def)
    moreover have "kids s' (t_RunID t) = kids s (t_RunID t) + 1" using s' S' by (simp add: kids_def)
    moreover have "kids s (t_RunID t) < child_limit R" using 3(2) by (auto simp: max_children_def child_limit_def split: if_splits)
    ultimately show ?thesis by (simp add: spend_def)
  qed
qed

lemma executeToolCall_frame:
  assumes "executeToolCall R s t callID tc = (r, s')"
  shows "(fresh_ids R (t_RunID t) \<longrightarrow> unseen (t_RunID t) s s') \<and> spend 0 R (t_RunID t) s s'"
proof (cases "tc_Name tc = ''dispatch_subagent'' \<and> ar_MultiAgentEnabled R")
  case True
  then show ?thesis using assms dispatchSubagent_frame [of R s t callID tc]
    by (auto simp: executeToolCall_def split: prod.splits)
next
  case False
  show ?thesis
  proof (cases "toolRunnerFor R t")
    case None
    then show ?thesis using assms False by (auto simp: executeToolCall_def spend_def)
  next
    case (Some tr)
    then have "st_trace s' = st_trace s @ [CallTool callID (tc_Name tc) (tc_Arguments tc)]" "st_children s' = st_children s"
      using assms False by (auto simp: executeToolCall_def Let_def dest!: on_worldD split: if_splits)
    then show ?thesis by (auto simp: unseen_def intro: spend_frame)
  qed
qed

lemma call_id_unseen: "unseen rid s (snd (call_id R s tc))" by (simp add: unseen_def)

lemma tool_step_spend:
  assumes "tool_step R s t aid tc = (r, s')"
  shows "spend 0 R (t_RunID t) s s'"
proof -
  obtain c s0 where c: "call_id R s tc = (c, s0)" by fastforce
  let ?s1 = "publishToolEvent R s0 t c (tc_Name tc) ''started'' [] [] False 0"
  obtain x s2 where x: "executeToolCall R ?s1 t c tc = (x, s2)" by fastforce
  have "spend 0 R (t_RunID t) s ?s1"
    by (rule spend_frame [where as = "[Publish (t_RunID t) (tool_event t c (tc_Name tc) ''started'' [] [] False 0)]"])
      (use call_id_frame [of R s tc] c in \<open>simp_all\<close>)
  note s2 = spend_0_trans [OF this conjunct2 [OF executeToolCall_frame [OF x]]]
  have "spend 0 R (t_RunID t) s2 s'"
  proof (cases x)
    case (Inl e)
    obtain ms s3 where o: "on_world (ar_since R) s2 = (ms, s3)" by fastforce
    then show ?thesis using assms c x Inl on_worldD [OF o]
      by (auto simp: tool_step_def Let_def intro!: spend_frame)
  next
    case (Inr ev)
    then show ?thesis using assms c x by (auto simp: tool_step_def Let_def intro!: spend_frame)
  qed
  then show ?thesis by (rule spend_0_trans [OF s2])
qed

lemma tool_calls_spend: "tool_calls R s t aid msgs tcs = (r, s') \<Longrightarrow> spend 0 R (t_RunID t) s s'"
proof (induction tcs arbitrary: s msgs)
  case Nil
  then show ?case by (simp add: spend_def)
next
  case (Cons tc tcs)
  obtain x s1 where x: "tool_step R s t aid tc = (x, s1)" by fastforce
  note s1 = tool_step_spend [OF x]
  show ?case
  proof (cases x)
    case (Inl e)
    then show ?thesis using Cons.prems x s1 by simp
  next
    case (Inr m)
    then show ?thesis using Cons.prems x Cons.IH [of s1 "msgs @ [m]"] spend_0_trans [OF s1] by simp
  qed
qed

text \<open>The events of one tool call: started, then completed or failed.\<close>

lemma at_started:
  assumes "proto_at (t_RunID t) p s" "idle p StateWaitingTool idx"
  shows "proto_at (t_RunID t) (p\<lparr> pr_tool := Some (c, n) \<rparr>) (publishToolEvent R s t c n ''started'' [] [] False 0)"
  by (rule at_add [OF assms(1), where as = "[Publish (t_RunID t) (tool_event t c n ''started'' [] [] False 0)]"])
    (use assms(2) in \<open>simp_all add: proto_step_def tool_event_def event_kinds idle_def\<close>)

lemma at_ended:
  assumes "proto_at (t_RunID t) (p\<lparr> pr_tool := Some (c, n) \<rparr>) s" "idle p StateWaitingTool idx"
    and "ph = (if b then ''failed'' else ''completed'')"
  shows "proto_at (t_RunID t) p (publishToolEvent R s t c n ph x y b ms)"
proof -
  have "p\<lparr> pr_tool := None \<rparr> = p" using assms(2) by (simp add: idle_def)
  then show ?thesis
    by (intro at_add [OF assms(1), where as = "[Publish (t_RunID t) (tool_event t c n ph x y b ms)]"])
      (use assms(2,3) in \<open>simp_all add: proto_step_def tool_event_def event_kinds idle_def\<close>)
qed

lemma tool_step_at:
  assumes "tool_step R s t aid tc = (r, s')" "fresh_ids R (t_RunID t)"
    and "proto_at (t_RunID t) p s" "idle p StateWaitingTool idx"
  shows "case r of Inr m \<Rightarrow> proto_at (t_RunID t) p s' | Inl e \<Rightarrow> \<exists>q. proto_at (t_RunID t) q s' \<and> over q StateFailed"
proof -
  obtain c s0 where c: "call_id R s tc = (c, s0)" by fastforce
  let ?s1 = "publishToolEvent R s0 t c (tc_Name tc) ''started'' [] [] False 0"
  obtain x s2 where x: "executeToolCall R ?s1 t c tc = (x, s2)" by fastforce
  have "proto_at (t_RunID t) p s0" using assms(3) call_id_unseen [of "t_RunID t" s R tc] c by (simp add: unseen_at)
  from at_started [OF this assms(4)] have at2: "proto_at (t_RunID t) (p\<lparr> pr_tool := Some (c, tc_Name tc) \<rparr>) s2"
    using executeToolCall_frame [OF x] assms(2) by (blast intro: unseen_at)
  show ?thesis
  proof (cases x)
    case (Inl e)
    obtain ms s3 where o: "on_world (ar_since R) s2 = (ms, s3)" by fastforce
    have at3: "proto_at (t_RunID t) (p\<lparr> pr_tool := Some (c, tc_Name tc) \<rparr>) s3"
      using at2 on_worldD [OF o] by (simp add: proto_at_def)
    let ?s4 = "publishToolEvent R s3 t c (tc_Name tc) ''failed'' [] e True ms"
    have "proto_at (t_RunID t) p ?s4" by (rule at_ended [OF at3 assms(4)]) simp
    from at_fail [OF this assms(4), of R "''tool_execute''" e] show ?thesis
      using assms(1) c x Inl o by (auto simp: tool_step_def Let_def)
  next
    case (Inr ev)
    let ?s3 = "publishToolEvent R s2 t c (tc_Name tc) (if tr_IsError ev then ''failed'' else ''completed'')
       (timelineText (tr_Content ev)) (timelineText (tool_error ev)) (tr_IsError ev) (nat (max (tr_ElapsedMS ev) 0))"
    have "proto_at (t_RunID t) p ?s3" by (rule at_ended [OF at2 assms(4)]) simp
    moreover have "st_trace s' = st_trace ?s3" "\<exists>m. r = Inr m"
      using assms(1) c x Inr by (auto simp: tool_step_def Let_def simp del: publishToolEvent_frame)
    ultimately show ?thesis by (auto simp: proto_at_def)
  qed
qed

lemma tool_calls_at:
  assumes "tool_calls R s t aid msgs tcs = (r, s')" "fresh_ids R (t_RunID t)"
    and "proto_at (t_RunID t) p s" "idle p StateWaitingTool idx"
  shows "case r of Inr m \<Rightarrow> proto_at (t_RunID t) p s' | Inl e \<Rightarrow> \<exists>q. proto_at (t_RunID t) q s' \<and> over q StateFailed"
  using assms
proof (induction tcs arbitrary: s msgs)
  case (Cons tc tcs)
  obtain x s1 where x: "tool_step R s t aid tc = (x, s1)" by fastforce
  note at1 = tool_step_at [OF x Cons.prems(2-4)]
  show ?case
  proof (cases x)
    case (Inl e)
    then show ?thesis using Cons.prems(1) x at1 by auto
  next
    case (Inr m)
    then have "tool_calls R s1 t aid (msgs @ [m]) tcs = (r, s')" using Cons.prems(1) x by simp
    from Cons.IH [OF this Cons.prems(2) _ Cons.prems(4)] at1 Inr show ?thesis by simp
  qed
qed auto

section \<open>Compaction\<close>

text \<open>The guard that compactHistory repeats is the one of CompactIfNeeded.\<close>

definition compaction_due :: "CompactPolicy \<Rightarrow> HMessage list \<Rightarrow> bool" where
  "compaction_due p prior = (cp_Enabled p \<and> total_chars prior > compact_maxChars p \<and>
     int (length prior) > compact_keepHead p + compact_keepTail p + 1)"

lemma CompactIfNeeded_due:
  "\<not> compaction_due p prior \<Longrightarrow> CompactIfNeeded p (Some fo) w rid prior = (Inr False, w)"
  "compaction_due p prior \<Longrightarrow> \<exists>f t sm. CompactIfNeeded p (Some fo) w rid prior =
     (case fo w rid f t sm of (Inl e, w1) \<Rightarrow> (Inl e, w1) | (Inr _, w1) \<Rightarrow> (Inr True, w1))"
proof -
  show "\<not> compaction_due p prior \<Longrightarrow> CompactIfNeeded p (Some fo) w rid prior = (Inr False, w)"
    by (auto simp: CompactIfNeeded_def compaction_due_def Let_def)
  assume "compaction_due p prior"
  then show "\<exists>f t sm. CompactIfNeeded p (Some fo) w rid prior =
     (case fo w rid f t sm of (Inl e, w1) \<Rightarrow> (Inl e, w1) | (Inr _, w1) \<Rightarrow> (Inr True, w1))"
    by (intro exI [of _ "h_ID (prior ! nat (compact_keepHead p))"]
        exI [of _ "h_ID (prior ! (length prior - nat (compact_keepTail p) - 1))"]
        exI [of _ "SummarizeMessages (drop (nat (compact_keepHead p)) (take (length prior - nat (compact_keepTail p)) prior))"])
      (simp add: compaction_due_def CompactIfNeeded_def Let_def)
qed

lemma compactHistory_due:
  "compactHistory R s t f prior =
     (if \<not> compaction_due (ar_CompactPolicy R) prior then (Inr False, s)
      else (case publishState R s t f StateCompacting of
          (Some e, s1) \<Rightarrow> (Inl e, s1)
        | (None, s1) \<Rightarrow> on_world (\<lambda>w. CompactIfNeeded (ar_CompactPolicy R) (Some (hs_Fold (ar_History R))) w (t_RunID t) prior) s1))"
  by (auto simp: compactHistory_def compaction_due_def total_chars_def compact_maxChars_def compact_keepHead_def compact_keepTail_def Let_def
      not_le not_less)

text \<open>CompactHistory announces a compaction exactly when the policy will then fold the history: below the limits neither touches
  anything, and above them the fold is called, and the result is its error or true, never a silent false after the announcement.\<close>

theorem compactHistory_announces:
  "(if compaction_due (ar_CompactPolicy R) prior
    then (\<exists>e s1. publishState R s t f StateCompacting = (Some e, s1) \<and> compactHistory R s t f prior = (Inl e, s1)) \<or>
         (\<exists>s1 x y sm. publishState R s t f StateCompacting = (None, s1) \<and>
            compactHistory R s t f prior =
              (let (r, s2) = on_world (\<lambda>w. hs_Fold (ar_History R) w (t_RunID t) x y sm) s1
               in (case r of Inl e \<Rightarrow> Inl e | Inr _ \<Rightarrow> Inr True, s2)))
    else compactHistory R s t f prior = (Inr False, s) \<and>
      CompactIfNeeded (ar_CompactPolicy R) (Some (hs_Fold (ar_History R))) w (t_RunID t) prior = (Inr False, w))"
proof (cases "compaction_due (ar_CompactPolicy R) prior")
  case False
  then show ?thesis by (simp add: compactHistory_due CompactIfNeeded_due(1))
next
  case True
  obtain e s1 where p: "publishState R s t f StateCompacting = (e, s1)" by fastforce
  show ?thesis
  proof (cases e)
    case (Some x)
    then show ?thesis using True p by (simp add: compactHistory_due)
  next
    case None
    obtain x y sm where c: "CompactIfNeeded (ar_CompactPolicy R) (Some (hs_Fold (ar_History R))) (st_world s1) (t_RunID t) prior =
       (case hs_Fold (ar_History R) (st_world s1) (t_RunID t) x y sm of (Inl e, w1) \<Rightarrow> (Inl e, w1) | (Inr _, w1) \<Rightarrow> (Inr True, w1))"
      using CompactIfNeeded_due(2) [OF True, of "hs_Fold (ar_History R)" "st_world s1" "t_RunID t"] by blast
    have "compactHistory R s t f prior =
              (let (r, s2) = on_world (\<lambda>w. hs_Fold (ar_History R) w (t_RunID t) x y sm) s1
               in (case r of Inl e \<Rightarrow> Inl e | Inr _ \<Rightarrow> Inr True, s2))"
      using True p None c by (simp add: compactHistory_due on_world_def split: prod.splits sum.splits)
    then show ?thesis using True p None by (intro if_P [THEN iffD2, OF True]) blast
  qed
qed

text \<open>Compaction is off, or neither the event bus nor the history fails.\<close>

definition compaction_safe :: "'w AgentRunner \<Rightarrow> bool" where
  "compaction_safe R = (cp_Enabled (ar_CompactPolicy R) \<longrightarrow>
     (\<forall>w r e. fst (ar_publish R w r e) = None) \<and> (\<forall>w r a b m. is_ok (fst (hs_Fold (ar_History R) w r a b m))) \<and>
     (\<forall>w r. is_ok (fst (hs_Render (ar_History R) w r))))"

lemma publish_ok: "(\<forall>w r e. fst (ar_publish R w r e) = None) \<Longrightarrow> fst (publish R s r e) = None"
  by (simp add: publish_def on_world_def split: prod.splits) (metis fst_conv)

lemma on_world_ok: "(\<forall>w. is_ok (fst (f w))) \<Longrightarrow> is_ok (fst (on_world f s))"
  by (simp add: on_world_def split: prod.splits) (metis fst_conv)

lemma compactHistory_children: "st_children (snd (compactHistory R s t f prior)) = st_children s"
proof (cases "compaction_due (ar_CompactPolicy R) prior")
  case True
  obtain e s1 where p: "publishState R s t f StateCompacting = (e, s1)" by fastforce
  then have "st_children s1 = st_children s" by (metis publishState_frame(2) snd_conv)
  then show ?thesis using True p by (cases e) (simp_all add: compactHistory_due)
qed (simp add: compactHistory_due)

lemma compactHistory_trace:
  "\<exists>as. st_trace (snd (compactHistory R s t f prior)) = st_trace s @ as \<and> filter is_llm as = []"
proof (cases "compaction_due (ar_CompactPolicy R) prior")
  case True
  obtain e s1 where p: "publishState R s t f StateCompacting = (e, s1)" by fastforce
  then have "st_trace s1 = st_trace s @ (if CanTransit f StateCompacting then [Publish (t_RunID t) (state_event t f StateCompacting)] else [])"
    by (metis publishState_frame(1) snd_conv)
  then show ?thesis using True p by (cases e) (auto simp: compactHistory_due)
qed (simp add: compactHistory_due)

text \<open>With safe compaction, loading the history keeps the protocol in step.\<close>

lemma compactHistory_at:
  assumes "compactHistory R s t StateRunning prior = (r, s')" "compaction_safe R" "proto_at (t_RunID t) p s" "idle p StateRunning idx"
  shows "(r = Inr False \<and> s' = s) \<or>
    (r = Inr True \<and> cp_Enabled (ar_CompactPolicy R) \<and> proto_at (t_RunID t) (p\<lparr> pr_state := StateCompacting \<rparr>) s')"
proof (cases "compaction_due (ar_CompactPolicy R) prior")
  case False
  then show ?thesis using assms(1) by (simp add: compactHistory_due)
next
  case True
  then have en: "cp_Enabled (ar_CompactPolicy R)" by (simp add: compaction_due_def)
  note safe = assms(2) [unfolded compaction_safe_def, rule_format, OF en]
  obtain e s1 where p: "publishState R s t StateRunning StateCompacting = (e, s1)" by fastforce
  have "e = None" using p publish_ok [of R s "t_RunID t"] safe by (auto simp: publishState_def) (metis fst_conv)
  have at1: "proto_at (t_RunID t) (p\<lparr> pr_state := StateCompacting \<rparr>) s1"
    using at_state(1) [OF assms(3,4), of StateCompacting R] p by simp
  have "\<forall>w. is_ok (fst (CompactIfNeeded (ar_CompactPolicy R) (Some (hs_Fold (ar_History R))) w (t_RunID t) prior)) \<and>
      fst (CompactIfNeeded (ar_CompactPolicy R) (Some (hs_Fold (ar_History R))) w (t_RunID t) prior) = Inr True"
  proof
    fix w
    obtain x y sm where c: "CompactIfNeeded (ar_CompactPolicy R) (Some (hs_Fold (ar_History R))) w (t_RunID t) prior =
       (case hs_Fold (ar_History R) w (t_RunID t) x y sm of (Inl e, w1) \<Rightarrow> (Inl e, w1) | (Inr _, w1) \<Rightarrow> (Inr True, w1))"
      using CompactIfNeeded_due(2) [OF True, of "hs_Fold (ar_History R)" w "t_RunID t"] by blast
    obtain z w1 where h: "hs_Fold (ar_History R) w (t_RunID t) x y sm = (z, w1)" by fastforce
    then have "is_ok z" using safe by (metis fst_conv)
    then show "is_ok (fst (CompactIfNeeded (ar_CompactPolicy R) (Some (hs_Fold (ar_History R))) w (t_RunID t) prior)) \<and>
      fst (CompactIfNeeded (ar_CompactPolicy R) (Some (hs_Fold (ar_History R))) w (t_RunID t) prior) = Inr True"
      using c h by (cases z) simp_all
  qed
  then have "r = Inr True" "st_trace s' = st_trace s1"
    using assms(1) True p \<open>e = None\<close> by (auto simp: compactHistory_due on_world_def split: prod.splits) (metis fst_conv)+
  then show ?thesis using at1 en by (simp add: proto_at_def)
qed

lemma load_history_at:
  assumes "load_history R s t = (r, s')" "compaction_safe R" "proto_at (t_RunID t) p s" "idle p StateRunning idx"
  shows "\<exists>q. proto_at (t_RunID t) q s' \<and> idle q StateRunning idx"
proof -
  obtain a s1 where a: "append_history R s (t_RunID t) (new_message RoleUser (t_Prompt t) [] []) = (a, s1)" by fastforce
  have at1: "proto_at (t_RunID t) p s1" using assms(3) append_historyD [OF a] by (simp add: proto_at_def)
  show ?thesis
  proof (cases a)
    case (Inl e)
    then show ?thesis using assms(1,4) a at1 by (auto simp: load_history_def)
  next
    case Inra: (Inr i)
    obtain b s2 where b: "on_world (\<lambda>w. hs_Render (ar_History R) w (t_RunID t)) s1 = (b, s2)" by fastforce
    have at2: "proto_at (t_RunID t) p s2" using at1 on_worldD [OF b] by (simp add: proto_at_def)
    show ?thesis
    proof (cases b)
      case (Inl e)
      then show ?thesis using assms(1,4) a Inra b at2 by (auto simp: load_history_def)
    next
      case Inrb: (Inr prior)
      obtain c s3 where c: "compactHistory R s2 t StateRunning prior = (c, s3)" by fastforce
      from compactHistory_at [OF c assms(2) at2 assms(4)] show ?thesis
      proof (elim disjE conjE)
        assume "c = Inr False" "s3 = s2"
        then show ?thesis using assms(1,4) a Inra b Inrb c at2 by (auto simp: load_history_def)
      next
        assume c': "c = Inr True" and en: "cp_Enabled (ar_CompactPolicy R)"
          and at3: "proto_at (t_RunID t) (p\<lparr> pr_state := StateCompacting \<rparr>) s3"
        obtain d s4 where d: "on_world (\<lambda>w. hs_Render (ar_History R) w (t_RunID t)) s3 = (d, s4)" by fastforce
        have at4: "proto_at (t_RunID t) (p\<lparr> pr_state := StateCompacting \<rparr>) s4" using at3 on_worldD [OF d] by (simp add: proto_at_def)
        have "is_ok d" using on_world_ok [of "\<lambda>w. hs_Render (ar_History R) w (t_RunID t)" s3] d assms(2) en
          by (simp add: compaction_safe_def)
        then obtain prior2 where "d = Inr prior2" by (cases d) simp_all
        moreover have "idle (p\<lparr> pr_state := StateCompacting \<rparr>) StateCompacting idx" using assms(4) by (simp add: idle_def)
        note st = at_state(1) [OF at4 this, of StateRunning R] at_state(2) [OF at4 this, of StateRunning]
        ultimately show ?thesis using assms(1) a Inra b Inrb c c' d st by (auto simp: load_history_def)
      qed
    qed
  qed
qed

lemma load_history_spend:
  assumes "load_history R s t = (r, s')"
  shows "spend 0 R (t_RunID t) s s'"
proof -
  obtain a s1 where a: "append_history R s (t_RunID t) (new_message RoleUser (t_Prompt t) [] []) = (a, s1)" by fastforce
  obtain b s2 where b: "on_world (\<lambda>w. hs_Render (ar_History R) w (t_RunID t)) s1 = (b, s2)" by fastforce
  have s1: "spend 0 R (t_RunID t) s s1" using append_historyD [OF a] by (auto intro: spend_frame)
  have s2: "spend 0 R (t_RunID t) s1 s2" using on_worldD [OF b] by (auto intro: spend_frame)
  note s12 = spend_0_trans [OF s1 s2]
  show ?thesis
  proof (cases "\<exists>i prior. a = Inr i \<and> b = Inr prior")
    case False
    then show ?thesis using assms a b s1 s12 by (cases a; cases b) (auto simp: load_history_def)
  next
    case True
    then obtain i prior where ab: "a = Inr i" "b = Inr prior" by blast
    obtain c s3 where c: "compactHistory R s2 t StateRunning prior = (c, s3)" by fastforce
    have "spend 0 R (t_RunID t) s2 s3"
      using compactHistory_trace [of R s2 t StateRunning prior] compactHistory_children [of R s2 t StateRunning prior] c
      by (auto intro: spend_frame)
    note s3 = spend_0_trans [OF s12 this]
    show ?thesis
    proof (cases "c = Inr True")
      case False
      then show ?thesis using assms a b ab c s3 by (cases c) (auto simp: load_history_def split: bool.splits)
    next
      case True
      obtain d s4 where d: "on_world (\<lambda>w. hs_Render (ar_History R) w (t_RunID t)) s3 = (d, s4)" by fastforce
      have "spend 0 R (t_RunID t) s3 s4" using on_worldD [OF d] by (auto intro: spend_frame)
      note s4 = spend_0_trans [OF s3 this]
      have "spend 0 R (t_RunID t) s4 (snd (publishState R s4 t StateCompacting StateRunning))" by (auto intro!: spend_frame)
      then show ?thesis using assms a b ab c True d s4 spend_0_trans [OF s4] by (cases d) (auto simp: load_history_def)
    qed
  qed
qed

section \<open>The loop\<close>

text \<open>The ways one round of the loop can go.\<close>

lemma run_loop_elim:
  assumes "run_loop R s t msgs idx cnt rounds = (r, s')"
  obtains
    (llm) e n idx1 s1 where "streamOnce R s t msgs (llmTools R t) idx = (Inl e, n, idx1, s1)" "r = Some e"
      "s' = fail R s1 t StateRunning ''llm_chunk'' e"
  | (finished) x n idx1 s1 s3 where "streamOnce R s t msgs (llmTools R t) idx = (Inr x, n, idx1, s1)"
      "st_trace s3 = st_trace s1" "st_children s3 = st_children s1" "r = None" "s' = finish R s3 t (wrap64 (cnt + n))"
  | (refused) x n idx1 s1 s3 code e where "streamOnce R s t msgs (llmTools R t) idx = (Inr x, n, idx1, s1)"
      "st_trace s3 = st_trace s1" "st_children s3 = st_children s1" "r = Some e" "s' = fail R s3 t StateRunning code e"
  | (tool_failed) x n idx1 s1 s3 aid msgs1 calls e where "streamOnce R s t msgs (llmTools R t) idx = (Inr x, n, idx1, s1)"
      "st_trace s3 = st_trace s1" "st_children s3 = st_children s1" "rounds < maxToolSteps R" "r = Some e"
      "tool_calls R (snd (publishState R s3 t StateRunning StateWaitingTool)) t aid msgs1 calls = (Inl e, s')"
  | (again) x n idx1 s1 s3 aid msgs1 calls msgs2 s5 where "streamOnce R s t msgs (llmTools R t) idx = (Inr x, n, idx1, s1)"
      "st_trace s3 = st_trace s1" "st_children s3 = st_children s1" "rounds < maxToolSteps R"
      "tool_calls R (snd (publishState R s3 t StateRunning StateWaitingTool)) t aid msgs1 calls = (Inr msgs2, s5)"
      "run_loop R (snd (publishState R s5 t StateWaitingTool StateRunning)) t msgs2 idx1 (wrap64 (cnt + n)) (rounds + 1) = (r, s')"
proof -
  obtain x n idx1 s1 where st: "streamOnce R s t msgs (llmTools R t) idx = (x, n, idx1, s1)" by (metis prod_cases4)
  show ?thesis
  proof (cases x)
    case (Inl e)
    then show ?thesis using assms st llm by (simp add: run_loop.simps [of R s])
  next
    case (Inr y)
    obtain body calls where y: "y = (body, calls)" by (cases y)
    obtain aid s2 where s2: "save_assistant R s1 t body calls = (aid, s2)" by fastforce
    define s3 where "s3 = executePostLLMHook R s2 t body calls"
    have "st_trace s2 = st_trace s1" "st_children s2 = st_children s1" using save_assistant_frame [of R s1 t body calls] s2 by simp_all
    then have fr: "st_trace s3 = st_trace s1" "st_children s3 = st_children s1" by (simp_all add: s3_def)
    note unf = assms [unfolded run_loop.simps [of R s] st Inr y Let_def s2 prod.case sum.case s3_def [symmetric]]
    note st' = st [unfolded Inr]
    show ?thesis
    proof (cases "calls = [] \<or> tools_unavailable R t calls \<or> rounds \<ge> maxToolSteps R")
      case True
      then show ?thesis using unf finished [OF st' fr] refused [OF st' fr] by (auto split: if_splits)
    next
      case False
      obtain q s5 where q: "tool_calls R (snd (publishState R s3 t StateRunning StateWaitingTool)) t aid (msgs @ [assistant_message body calls]) calls
          = (q, s5)" by fastforce
      show ?thesis
      proof (cases q)
        case (Inl e)
        then show ?thesis using unf False q tool_failed [OF st' fr] by auto
      next
        case (Inr msgs2)
        then show ?thesis using unf False q again [OF st' fr] by auto
      qed
    qed
  qed
qed

lemma at_finish:
  assumes "proto_at (t_RunID t) p s" "idle p StateRunning idx"
  shows "\<exists>q. proto_at (t_RunID t) q (finish R s t idx) \<and> over q StateDone"
proof -
  have "proto_run p (run_events (t_RunID t) [Publish (t_RunID t) (state_event t StateRunning StateDone), Publish (t_RunID t) (done_event t idx)]) =
      Some (p\<lparr> pr_state := StateDone, pr_over := True \<rparr>)"
    using assms(2) by (simp add: proto_step_def state_event_def done_event_def event_kinds idle_def)
  from at_add [OF assms(1) _ this, of "finish R s t idx"] show ?thesis
    by (auto simp: over_def finish_def intro!: exI [of _ "p\<lparr> pr_state := StateDone, pr_over := True \<rparr>"])
qed

lemma run_loop_at:
  assumes "run_loop R s t msgs idx idx rounds = (r, s')" "fresh_ids R (t_RunID t)"
    and "proto_at (t_RunID t) p s" "idle p StateRunning idx" "wrap64 idx = idx"
  shows "\<exists>q. proto_at (t_RunID t) q s' \<and> over q (if r = None then StateDone else StateFailed)"
  using assms
proof (induction "nat (maxToolSteps R - rounds)" arbitrary: s msgs idx rounds p rule: less_induct)
  case less
  from less.prems(1) show ?case
  proof (cases rule: run_loop_elim)
    case (llm e n idx1 s1)
    obtain q where q: "proto_at (t_RunID t) q s1" "idle q StateRunning idx1"
      using streamOnce_at [OF llm(1) less.prems(3,4,5)] by blast
    from at_fail [OF q] llm(2,3) show ?thesis by auto
  next
    case (finished x n idx1 s1 s3)
    obtain q where q: "proto_at (t_RunID t) q s1" "idle q StateRunning idx1" and n: "wrap64 (idx + n) = idx1" "wrap64 idx1 = idx1"
      using streamOnce_at [OF finished(1) less.prems(3,4,5)] by blast
    have "proto_at (t_RunID t) q s3" using q(1) finished(2) by (simp add: proto_at_def)
    from at_finish [OF this q(2), of R] finished(4,5) n show ?thesis by auto
  next
    case (refused x n idx1 s1 s3 code e)
    obtain q where q: "proto_at (t_RunID t) q s1" "idle q StateRunning idx1"
      using streamOnce_at [OF refused(1) less.prems(3,4,5)] by blast
    have "proto_at (t_RunID t) q s3" using q(1) refused(2) by (simp add: proto_at_def)
    from at_fail [OF this q(2)] refused(4,5) show ?thesis by auto
  next
    case (tool_failed x n idx1 s1 s3 aid msgs1 calls e)
    obtain q where q: "proto_at (t_RunID t) q s1" "idle q StateRunning idx1"
      using streamOnce_at [OF tool_failed(1) less.prems(3,4,5)] by blast
    have "proto_at (t_RunID t) q s3" using q(1) tool_failed(2) by (simp add: proto_at_def)
    from at_state(1) [OF this q(2), of StateWaitingTool R] at_state(2) [OF this q(2), of StateWaitingTool]
    show ?thesis using tool_calls_at [OF tool_failed(6) less.prems(2)] tool_failed(5) by fastforce
  next
    case (again x n idx1 s1 s3 aid msgs1 calls msgs2 s5)
    obtain q where q: "proto_at (t_RunID t) q s1" "idle q StateRunning idx1" and n: "wrap64 (idx + n) = idx1" "wrap64 idx1 = idx1"
      using streamOnce_at [OF again(1) less.prems(3,4,5)] by blast
    have at3: "proto_at (t_RunID t) q s3" using q(1) again(2) by (simp add: proto_at_def)
    let ?q = "q\<lparr> pr_state := StateWaitingTool \<rparr>"
    note w = at_state(1) [OF at3 q(2), of StateWaitingTool R] at_state(2) [OF at3 q(2), of StateWaitingTool]
    have iw: "idle ?q StateWaitingTool idx1" using w(2) by simp
    have at5: "proto_at (t_RunID t) ?q s5" using tool_calls_at [OF again(5) less.prems(2) _ iw] w(1) by simp
    note rs = at_state(1) [OF at5 iw, of StateRunning R] at_state(2) [OF at5 iw, of StateRunning]
    have loop: "run_loop R (snd (publishState R s5 t StateWaitingTool StateRunning)) t msgs2 idx1 idx1 (rounds + 1) = (r, s')"
      using again(6) n by simp
    have "nat (maxToolSteps R - (rounds + 1)) < nat (maxToolSteps R - rounds)" using again(4) by simp
    from less.hyps [OF this loop less.prems(2)] rs n show ?thesis by simp
  qed
qed

lemma publishState_spend: "spend 0 R rid s (snd (publishState R s t f to))"
  by (rule spend_frame) auto

lemma fail_spend: "spend 0 R rid s (fail R s t f c m)"
  by (auto intro!: spend_frame)

lemma finish_spend: "spend 0 R rid s (finish R s t n)"
  by (auto simp: finish_def intro!: spend_frame)

lemma streamOnce_spend:
  "streamOnce R s t msgs tools idx = (r, cnt, idx', s') \<Longrightarrow> st_trace s3 = st_trace s' \<Longrightarrow> st_children s3 = st_children s' \<Longrightarrow>
   spend 1 R rid s s3"
  by (auto simp: spend_def kids_def llm_calls_def dest!: streamOnce_llm)

lemma run_loop_spend:
  assumes "run_loop R s t msgs idx cnt rounds = (r, s')" "rounds \<le> maxToolSteps R"
  shows "spend (maxToolSteps R - rounds + 1) R (t_RunID t) s s'"
  using assms
proof (induction "nat (maxToolSteps R - rounds)" arbitrary: s msgs idx cnt rounds rule: less_induct)
  case less
  have up: "spend 1 R (t_RunID t) s s' \<Longrightarrow> ?case" using less.prems(2) by (auto intro: spend_mono)
  from less.prems(1) show ?case
  proof (cases rule: run_loop_elim)
    case (llm e n idx1 s1)
    show ?thesis unfolding llm(3) by (rule up [unfolded llm(3)], rule spend_trans_0 [OF streamOnce_spend [OF llm(1) refl refl] fail_spend])
  next
    case (finished x n idx1 s1 s3)
    show ?thesis unfolding finished(5) by (rule up [unfolded finished(5)], rule spend_trans_0 [OF streamOnce_spend [OF finished(1-3)] finish_spend])
  next
    case (refused x n idx1 s1 s3 code e)
    show ?thesis unfolding refused(5) by (rule up [unfolded refused(5)], rule spend_trans_0 [OF streamOnce_spend [OF refused(1-3)] fail_spend])
  next
    case (tool_failed x n idx1 s1 s3 aid msgs1 calls e)
    show ?thesis
      by (rule up, rule spend_trans_0 [OF spend_trans_0 [OF streamOnce_spend [OF tool_failed(1-3)] publishState_spend]
          tool_calls_spend [OF tool_failed(6)]])
  next
    case (again x n idx1 s1 s3 aid msgs1 calls msgs2 s5)
    have one: "spend 1 R (t_RunID t) s (snd (publishState R s5 t StateWaitingTool StateRunning))"
      by (rule spend_trans_0 [OF spend_trans_0 [OF spend_trans_0 [OF streamOnce_spend [OF again(1-3)] publishState_spend]
          tool_calls_spend [OF again(5)]] publishState_spend])
    have "nat (maxToolSteps R - (rounds + 1)) < nat (maxToolSteps R - rounds)" "rounds + 1 \<le> maxToolSteps R" using again(4) by simp_all
    from spend_trans [OF one less.hyps [OF this(1) again(6) this(2)]] show ?thesis by (simp add: add.commute)
  qed
qed

section \<open>Runs\<close>

lemma Run_follows:
  assumes "t_RunID t \<noteq> []" "fresh_ids R (t_RunID t)" "compaction_safe R" "run_events (t_RunID t) (st_trace s) = []"
    and "Run R s t = (r, s')"
  shows "\<exists>q. proto_run proto0 (run_events (t_RunID t) (st_trace s')) = Some q \<and> pr_over q \<and>
    pr_state q = (if r = None then StateDone else StateFailed)"
proof -
  have "proto_at (t_RunID t) proto0 s" "idle proto0 StatePending 0" using assms(4) by (simp_all add: proto_at_def proto0_def idle_def)
  note at1 = at_state(1) [OF this, of StateRunning R] at_state(2) [OF this, of StateRunning]
  let ?s1 = "snd (publishState R s t StatePending StateRunning)"
  obtain a s2 where a: "load_history R ?s1 t = (a, s2)" by fastforce
  obtain q where q: "proto_at (t_RunID t) q s2" "idle q StateRunning 0"
    using load_history_at [OF a assms(3) at1(1)] at1(2) by auto
  have "\<exists>q. proto_at (t_RunID t) q s' \<and> over q (if r = None then StateDone else StateFailed)"
  proof (cases a)
    case (Inl ce)
    obtain code e where "ce = (code, e)" by (cases ce)
    then show ?thesis using assms(1,5) a Inl at_fail [OF q] by (auto simp: Run_def)
  next
    case (Inr prior)
    obtain b s3 where b: "build_messages R s2 t prior = (b, s3)" by fastforce
    have at3: "proto_at (t_RunID t) q s3" using q(1) build_messages_frame(1) [of R s2 t prior] b by (simp add: proto_at_def)
    show ?thesis
    proof (cases b)
      case (Inl ce)
      obtain code e where "ce = (code, e)" by (cases ce)
      then show ?thesis using assms(1,5) a Inr b Inl at_fail [OF at3 q(2)] by (auto simp: Run_def)
    next
      case msgs: (Inr msgs)
      then have "run_loop R s3 t msgs 0 0 0 = (r, s')" using assms(1,5) a Inr b by (simp add: Run_def)
      from run_loop_at [OF this assms(2) at3 q(2)] show ?thesis by (simp add: wrap64_def)
    qed
  qed
  then show ?thesis by (simp add: proto_at_def over_def)
qed

text \<open>C1: the events a run publishes follow the protocol: a chain of legal state changes from PENDING, gap-free token numbers while RUNNING,
  paired tool events while WAITING_TOOL, and exactly one last event, which is done with the number of tokens when Run returns nil and an
  error when it returns one. (Ids of children differ from the run's, and compaction, when enabled, meets no error.)\<close>

theorem Run_protocol:
  assumes "t_RunID t \<noteq> []" "fresh_ids R (t_RunID t)" "compaction_safe R" "run_events (t_RunID t) (st_trace s) = []"
    and "Run R s t = (r, s')"
  shows "\<exists>q. proto_run proto0 (run_events (t_RunID t) (st_trace s')) = Some q \<and> pr_over q \<and>
    pr_state q = (if r = None then StateDone else StateFailed)"
  using assms by (rule Run_follows)

text \<open>C6: a run ends, and it asks the model at most maxToolSteps + 1 times itself and once for each child it starts; the children it has
  started never exceed the limit.\<close>

theorem Run_bounded:
  assumes "Run R s t = (r, s')"
  shows "llm_calls s' - llm_calls s \<le> maxToolSteps R + 1 + (kids s' (t_RunID t) - kids s (t_RunID t)) \<and>
    kids s' (t_RunID t) \<le> max (child_limit R) (kids s (t_RunID t))"
proof -
  have pos: "0 \<le> maxToolSteps R" by (simp add: maxToolSteps_def)
  have "spend (maxToolSteps R + 1) R (t_RunID t) s s'"
  proof (cases "t_RunID t = []")
    case True
    then show ?thesis using assms pos by (simp add: Run_def spend_def)
  next
    case ne: False
    let ?s1 = "snd (publishState R s t StatePending StateRunning)"
    obtain a s2 where a: "load_history R ?s1 t = (a, s2)" by fastforce
    note s2 = spend_0_trans [OF publishState_spend load_history_spend [OF a]]
    show ?thesis
    proof (cases a)
      case (Inl ce)
      obtain code e where "ce = (code, e)" by (cases ce)
      then have "s' = fail R s2 t StateRunning code e" using assms ne a Inl by (simp add: Run_def)
      then show ?thesis using spend_mono [OF spend_trans_0 [OF s2 fail_spend]] pos by simp
    next
      case (Inr prior)
      obtain b s3 where b: "build_messages R s2 t prior = (b, s3)" by fastforce
      have "spend 0 R (t_RunID t) s2 s3" using build_messages_frame [of R s2 t prior] b by (auto intro: spend_frame)
      note s3 = spend_0_trans [OF s2 this]
      show ?thesis
      proof (cases b)
        case (Inl ce)
        obtain code e where "ce = (code, e)" by (cases ce)
        then have "s' = fail R s3 t StateRunning code e" using assms ne a Inr b Inl by (simp add: Run_def)
        then show ?thesis using spend_mono [OF spend_trans_0 [OF s3 fail_spend]] pos by simp
      next
        case msgs: (Inr msgs)
        then have "run_loop R s3 t msgs 0 0 0 = (r, s')" using assms ne a Inr b by (simp add: Run_def)
        from spend_0_trans [OF s3 run_loop_spend [OF this pos]] show ?thesis by simp
      qed
    qed
  qed
  then show ?thesis by (auto simp: spend_def)
qed

section \<open>Examples\<close>

definition demo_call :: ToolCall where
  "demo_call = \<lparr> tc_ID = ''call1'', tc_Type = ''function'', tc_Name = ''bash'', tc_Arguments = ''{}'' \<rparr>"

text \<open>A world that counts the model requests: the first answer asks for a tool, the next one ends the run.\<close>

definition demo_provider :: "nat provider" where
  "demo_provider w req =
     (Inr (if w = 0 then [zero_tev\<lparr> te_Token := ''hm'' \<rparr>, zero_tev\<lparr> te_ToolCalls := [demo_call] \<rparr>, zero_tev\<lparr> te_Done := True \<rparr>]
           else [zero_tev\<lparr> te_Token := ''ok'' \<rparr>, zero_tev\<lparr> te_Done := True \<rparr>]), Suc w)"

definition demo_tools :: "nat AgentTools" where
  "demo_tools = \<lparr> at_List = Some [bash_descriptor],
     at_Execute = (\<lambda>w c tr n a ms. (Inr (zero_result\<lparr> tr_CallID := c, tr_Content := ''out'' \<rparr>), w)),
     at_ExecuteInWorkspace = (\<lambda>w ws c tr n a ms. (Inl ''no agent'', w)) \<rparr>"

definition demo_agent :: "nat AgentRunner" where
  "demo_agent = \<lparr> ar_U = ascii_unicode,
     ar_History = \<lparr> hs_Append = (\<lambda>w r m. (Inr ''id'', w)),
       hs_Render = (\<lambda>w r. (Inr [new_message RoleUser ''aa'' [] [], new_message RoleAssistant ''bb'' [] [], new_message RoleUser ''cc'' [] []], w)),
       hs_Fold = (\<lambda>w r a b m. (Inl ''redis'', w)) \<rparr>,
     ar_Provider = demo_provider, ar_publish = (\<lambda>w r e. (None, w)), ar_ToolRunner = Some demo_tools, ar_AgentToolRunner = None,
     ar_ToolMaxSteps = 0, ar_SkillSelector = None, ar_RAGRetriever = None, ar_RAGTenantID = [], ar_RAGTopK = 0, ar_RAGMinScore = 0,
     ar_MultiAgentEnabled = False, ar_SubagentMaxDepth = 0, ar_SubagentMaxChildren = 0, ar_SubagentTimeout = 0, ar_Depth = 0,
     ar_CompactPolicy = \<lparr> cp_Enabled = False, cp_MaxChars = 1, cp_KeepHead = 0, cp_KeepTail = 1 \<rparr>,
     ar_HookClient = None, ar_HookFailClosed = False, ar_new_id = (\<lambda>w. (''child'', w)), ar_since = (\<lambda>w. (0, w)), ar_json_err = id \<rparr>"

definition demo_task :: Task where
  "demo_task = \<lparr> t_RunID = ''run'', t_UserID = ''u'', t_AgentID = [], t_Prompt = ''hi'', t_Model = [], t_SystemPrompt = [], t_TraceID = ''t'',
     t_Attempt = 0 \<rparr>"

definition demo_start :: "nat rstate" where
  "demo_start = \<lparr> st_world = 0, st_children = Map.empty, st_trace = [] \<rparr>"

lemmas demo_defs = demo_call_def demo_provider_def demo_tools_def demo_agent_def demo_task_def demo_start_def zero_tev_def

lemmas run_defs = Run_def load_history_def append_history_def build_messages_def skill_messages_def rag_messages_def hook_messages_def
  streamOnce_def stream_events.simps(1) stream_events_Cons token_event_def publish_def publishState_def on_world_def log_act_def
  save_assistant_def executePostLLMHook_def tools_unavailable_def toolRunnerFor_def hasOnlyDispatchSubagent_def maxToolSteps_def
  tool_step_def call_id_def executeToolCall_def publishToolEvent_def finish_def fail_def Let_def

text \<open>A run with one tool round, evaluated: its outcome, its model requests and the kinds of its events.\<close>

lemma demo_run:
  "fst (Run demo_agent demo_start demo_task) = None \<and> llm_calls (snd (Run demo_agent demo_start demo_task)) = 2 \<and>
   map e_Kind (run_events ''run'' (st_trace (snd (Run demo_agent demo_start demo_task)))) =
     [EventState, EventToken, EventState, EventTool, EventTool, EventState, EventToken, EventState, EventDone]"
  by (simp add: demo_defs run_defs compactHistory_def run_loop.simps llm_calls_def tool_event_def state_event_def done_event_def zero_event_def
      zero_result_def event_kinds)

lemma demo_safe: "t_RunID demo_task \<noteq> []" "fresh_ids demo_agent (t_RunID demo_task)" "compaction_safe demo_agent"
  "run_events (t_RunID demo_task) (st_trace demo_start) = []"
  by (simp_all add: demo_defs fresh_ids_def compaction_safe_def run_events_def)

theorem Run_protocol_witness:
  "pr_state (the (proto_run proto0 (run_events ''run'' (st_trace (snd (Run demo_agent demo_start demo_task)))))) = StateDone"
  using Run_protocol [OF demo_safe, of "fst (Run demo_agent demo_start demo_task)" "snd (Run demo_agent demo_start demo_task)"] demo_run
  by (auto simp: demo_task_def)

theorem Run_bounded_witness:
  "llm_calls (snd (Run demo_agent demo_start demo_task)) - llm_calls demo_start
     \<le> 6 + (kids (snd (Run demo_agent demo_start demo_task)) ''run'' - kids demo_start ''run'')"
  using Run_bounded [of demo_agent demo_start demo_task "fst (Run demo_agent demo_start demo_task)" "snd (Run demo_agent demo_start demo_task)"]
  by (simp add: maxToolSteps_def demo_agent_def demo_task_def)

text \<open>The same run with compaction enabled and a store whose Fold fails.\<close>

definition demo_compacting :: "nat AgentRunner" where
  "demo_compacting = demo_agent\<lparr> ar_CompactPolicy := \<lparr> cp_Enabled = True, cp_MaxChars = 1, cp_KeepHead = 0, cp_KeepTail = 1 \<rparr> \<rparr>"

lemma demo_compacting_due:
  "compaction_due (ar_CompactPolicy demo_compacting)
     [new_message RoleUser ''aa'' [] [], new_message RoleAssistant ''bb'' [] [], new_message RoleUser ''cc'' [] []]"
  by (simp add: compaction_due_def demo_compacting_def demo_agent_def new_message_def total_chars_def compact_maxChars_def compact_keepHead_def
      compact_keepTail_def runes_def text_eval)

lemma demo_compacts:
  "compactHistory demo_compacting s t StateRunning
     [new_message RoleUser ''aa'' [] [], new_message RoleAssistant ''bb'' [] [], new_message RoleUser ''cc'' [] []] =
   (Inl ''redis'', log_act (Publish (t_RunID t) (state_event t StateRunning StateCompacting)) s)"
proof -
  have "CanTransit StateRunning StateCompacting" by (simp add: CanTransit_iff legal_moves_def)
  then have p: "publishState demo_compacting s t StateRunning StateCompacting =
     (None, log_act (Publish (t_RunID t) (state_event t StateRunning StateCompacting)) s)"
    by (simp add: publishState_def publish_def on_world_def log_act_def demo_compacting_def demo_agent_def)
  obtain x y sm where c: "CompactIfNeeded (ar_CompactPolicy demo_compacting) (Some (hs_Fold (ar_History demo_compacting))) (st_world s) (t_RunID t)
      [new_message RoleUser ''aa'' [] [], new_message RoleAssistant ''bb'' [] [], new_message RoleUser ''cc'' [] []] =
    (case hs_Fold (ar_History demo_compacting) (st_world s) (t_RunID t) x y sm of (Inl e, w1) \<Rightarrow> (Inl e, w1) | (Inr _, w1) \<Rightarrow> (Inr True, w1))"
    using CompactIfNeeded_due(2) [OF demo_compacting_due, of "hs_Fold (ar_History demo_compacting)" "st_world s" "t_RunID t"] by blast
  have "hs_Fold (ar_History demo_compacting) (st_world s) (t_RunID t) x y sm = (Inl ''redis'', st_world s)"
    by (simp add: demo_compacting_def demo_agent_def)
  with c p demo_compacting_due show ?thesis by (simp add: compactHistory_due on_world_def log_act_def)
qed

section \<open>A compaction that fails\<close>

text \<open>What is published for a run is only added to.\<close>

definition grows :: "string \<Rightarrow> 'w rstate \<Rightarrow> 'w rstate \<Rightarrow> bool" where
  "grows rid s s' = (\<exists>es. run_events rid (st_trace s') = run_events rid (st_trace s) @ es)"

lemma grows_trans: "grows rid s s' \<Longrightarrow> grows rid s' s'' \<Longrightarrow> grows rid s s''"
  by (auto simp: grows_def)

lemma grows_add: "st_trace s' = st_trace s @ as \<Longrightarrow> grows rid s s'"
  by (simp add: grows_def)

lemma unseen_grows: "unseen rid s s' \<Longrightarrow> grows rid s s'"
  by (simp add: unseen_def grows_def)

lemma tool_step_grows:
  assumes "tool_step R s t aid tc = (r, s')" "fresh_ids R (t_RunID t)"
  shows "grows (t_RunID t) s s'"
proof -
  obtain c s0 where c: "call_id R s tc = (c, s0)" by fastforce
  let ?s1 = "publishToolEvent R s0 t c (tc_Name tc) ''started'' [] [] False 0"
  obtain x s2 where x: "executeToolCall R ?s1 t c tc = (x, s2)" by fastforce
  have "grows (t_RunID t) s ?s1" using call_id_frame(1) [of R s tc] c by (intro grows_add) simp
  moreover have "grows (t_RunID t) ?s1 s2" using executeToolCall_frame [OF x] assms(2) unseen_grows by blast
  moreover have "grows (t_RunID t) s2 s'"
  proof (cases x)
    case (Inl e)
    obtain ms s3 where o: "on_world (ar_since R) s2 = (ms, s3)" by fastforce
    then show ?thesis using assms(1) c x Inl on_worldD [OF o] by (auto simp: tool_step_def Let_def intro!: grows_add)
  next
    case (Inr ev)
    then show ?thesis using assms(1) c x by (auto simp: tool_step_def Let_def intro!: grows_add)
  qed
  ultimately show ?thesis by (blast intro: grows_trans)
qed

lemma tool_calls_grows:
  "tool_calls R s t aid msgs tcs = (r, s') \<Longrightarrow> fresh_ids R (t_RunID t) \<Longrightarrow> grows (t_RunID t) s s'"
proof (induction tcs arbitrary: s msgs)
  case (Cons tc tcs)
  obtain x s1 where x: "tool_step R s t aid tc = (x, s1)" by fastforce
  note s1 = tool_step_grows [OF x Cons.prems(2)]
  show ?case using Cons.prems x s1 Cons.IH [of s1] by (cases x) (auto intro: grows_trans)
qed (simp add: grows_def)

lemma streamOnce_grows: "streamOnce R s t msgs tools idx = (r, n, idx1, s1) \<Longrightarrow> st_trace s3 = st_trace s1 \<Longrightarrow> grows (t_RunID t) s s3"
  using streamOnce_frame [of R s t msgs tools idx r n idx1 s1] by (auto intro: grows_add)

lemma publishState_grows: "grows rid s (snd (publishState R s t f to))"
  by (rule grows_add) simp

lemma finish_trace: "st_trace (finish R s t n) =
    st_trace s @ [Publish (t_RunID t) (state_event t StateRunning StateDone), Publish (t_RunID t) (done_event t n)]"
  by (simp add: finish_def)

lemma run_loop_grows:
  assumes "run_loop R s t msgs idx cnt rounds = (r, s')" "fresh_ids R (t_RunID t)"
  shows "grows (t_RunID t) s s'"
  using assms(1)
proof (induction "nat (maxToolSteps R - rounds)" arbitrary: s msgs idx cnt rounds rule: less_induct)
  case less
  from less.prems show ?case
  proof (cases rule: run_loop_elim)
    case (llm e n idx1 s1)
    show ?thesis unfolding llm(3) by (rule grows_trans [OF streamOnce_grows [OF llm(1) refl] grows_add]) simp
  next
    case (finished x n idx1 s1 s3)
    show ?thesis unfolding finished(5) by (rule grows_trans [OF streamOnce_grows [OF finished(1,2)] grows_add]) (simp add: finish_trace)
  next
    case (refused x n idx1 s1 s3 code e)
    show ?thesis unfolding refused(5) by (rule grows_trans [OF streamOnce_grows [OF refused(1,2)] grows_add]) simp
  next
    case (tool_failed x n idx1 s1 s3 aid msgs1 calls e)
    show ?thesis by (rule grows_trans [OF grows_trans [OF streamOnce_grows [OF tool_failed(1,2)] publishState_grows]
          tool_calls_grows [OF tool_failed(6) assms(2)]])
  next
    case (again x n idx1 s1 s3 aid msgs1 calls msgs2 s5)
    have "grows (t_RunID t) s (snd (publishState R s5 t StateWaitingTool StateRunning))"
      by (rule grows_trans [OF grows_trans [OF grows_trans [OF streamOnce_grows [OF again(1,2)] publishState_grows]
          tool_calls_grows [OF again(5) assms(2)]] publishState_grows])
    moreover have "nat (maxToolSteps R - (rounds + 1)) < nat (maxToolSteps R - rounds)" using again(4) by simp
    ultimately show ?thesis using less.hyps again(6) by (blast intro: grows_trans)
  qed
qed

text \<open>The next event published for the run is one that only a RUNNING run may publish.\<close>

definition runs_on :: "string \<Rightarrow> 'w rstate \<Rightarrow> 'w rstate \<Rightarrow> bool" where
  "runs_on rid s s' = (\<exists>e es. run_events rid (st_trace s') = run_events rid (st_trace s) @ e # es \<and>
     (e_Kind e = EventToken \<or> e_Kind e = EventState \<and> e_From e = StateRunning))"

lemma runs_on_grows: "runs_on rid s s' \<Longrightarrow> grows rid s' s'' \<Longrightarrow> runs_on rid s s''"
  by (force simp: runs_on_def grows_def)

lemma runs_on_state:
  "CanTransit StateRunning to \<Longrightarrow> runs_on (t_RunID t) s (snd (publishState R s t StateRunning to))"
  by (simp add: runs_on_def state_event_def)

lemma runs_on_fail: "runs_on (t_RunID t) s (fail R s t StateRunning c m)"
  by (simp add: runs_on_def state_event_def)

lemma runs_on_finish: "runs_on (t_RunID t) s (finish R s t n)"
  by (simp add: runs_on_def finish_trace state_event_def)

lemma streamOnce_runs_on:
  assumes "streamOnce R s t msgs tools idx = (r, n, idx1, s1)" "st_trace s3 = st_trace s1" "runs_on (t_RunID t) s3 s'"
  shows "runs_on (t_RunID t) s s'"
proof -
  obtain req tk where "st_trace s1 = st_trace s @ CallLLM (t_RunID t) req # map (\<lambda>(x, i). Publish (t_RunID t) (token_event t x i)) tk"
    using streamOnce_frame [OF assms(1)] by blast
  with assms(2,3) show ?thesis
    by (cases tk) (auto simp: runs_on_def token_event_def split: prod.splits)
qed

lemma run_loop_runs_on:
  assumes "run_loop R s t msgs idx cnt rounds = (r, s')" "fresh_ids R (t_RunID t)"
  shows "runs_on (t_RunID t) s s'"
  using assms(1)
proof (cases rule: run_loop_elim)
  case (llm e n idx1 s1)
  show ?thesis unfolding llm(3) by (rule streamOnce_runs_on [OF llm(1) refl runs_on_fail])
next
  case (finished x n idx1 s1 s3)
  show ?thesis unfolding finished(5) by (rule streamOnce_runs_on [OF finished(1,2) runs_on_finish])
next
  case (refused x n idx1 s1 s3 code e)
  show ?thesis unfolding refused(5) by (rule streamOnce_runs_on [OF refused(1,2) runs_on_fail])
next
  case (tool_failed x n idx1 s1 s3 aid msgs1 calls e)
  show ?thesis by (rule streamOnce_runs_on [OF tool_failed(1,2) runs_on_grows [OF runs_on_state tool_calls_grows [OF tool_failed(6) assms(2)]]])
      simp
next
  case (again x n idx1 s1 s3 aid msgs1 calls msgs2 s5)
  have "grows (t_RunID t) (snd (publishState R s3 t StateRunning StateWaitingTool)) s'"
    by (rule grows_trans [OF grows_trans [OF tool_calls_grows [OF again(5) assms(2)] publishState_grows] run_loop_grows [OF again(6) assms(2)]])
  then show ?thesis by (intro streamOnce_runs_on [OF again(1,2)] runs_on_grows [OF runs_on_state]) simp_all
qed

lemma failed_fold:
  assumes "compaction_due (ar_CompactPolicy R) prior" "publishState R s t StateRunning StateCompacting = (None, s1)"
    and "\<forall>w a b m. \<not> is_ok (fst (hs_Fold (ar_History R) w (t_RunID t) a b m))"
  obtains e s2 where "compactHistory R s t StateRunning prior = (Inl e, s2)" "st_trace s2 = st_trace s1"
proof -
  obtain x y sm where c: "CompactIfNeeded (ar_CompactPolicy R) (Some (hs_Fold (ar_History R))) (st_world s1) (t_RunID t) prior =
      (case hs_Fold (ar_History R) (st_world s1) (t_RunID t) x y sm of (Inl e, w1) \<Rightarrow> (Inl e, w1) | (Inr _, w1) \<Rightarrow> (Inr True, w1))"
    using CompactIfNeeded_due(2) [OF assms(1), of "hs_Fold (ar_History R)" "st_world s1" "t_RunID t"] by blast
  obtain z w1 where f: "hs_Fold (ar_History R) (st_world s1) (t_RunID t) x y sm = (z, w1)" by fastforce
  have "\<not> is_ok z" using assms(3) f by (metis fst_conv)
  then obtain e where "z = Inl e" by (cases z) simp_all
  then show thesis using that [of e "s1\<lparr> st_world := w1 \<rparr>"] c f assms(1,2) by (simp add: compactHistory_due on_world_def)
qed

text \<open>C40: the protocol property needs its last hypothesis. Whenever the history is due for compaction and its Fold fails for the run,
  the run publishes COMPACTING after RUNNING and then goes on as if it had not: its next event is a token or a state event that
  starts at RUNNING, so the events are no longer a run of the protocol, whatever the rest of the run does.\<close>

theorem failed_fold_breaks_the_chain:
  assumes "t_RunID t \<noteq> []" "fresh_ids R (t_RunID t)" "run_events (t_RunID t) (st_trace s) = []"
    and "append_history R (snd (publishState R s t StatePending StateRunning)) (t_RunID t) (new_message RoleUser (t_Prompt t) [] []) = (Inr i, s1)"
    and "on_world (\<lambda>w. hs_Render (ar_History R) w (t_RunID t)) s1 = (Inr prior, s2)"
    and "compaction_due (ar_CompactPolicy R) prior" "publishState R s2 t StateRunning StateCompacting = (None, s3)"
    and "\<forall>w a b m. \<not> is_ok (fst (hs_Fold (ar_History R) w (t_RunID t) a b m))"
  shows "(\<exists>e es. run_events (t_RunID t) (st_trace (snd (Run R s t))) =
      [state_event t StatePending StateRunning, state_event t StateRunning StateCompacting] @ e # es \<and>
      (e_Kind e = EventToken \<or> e_Kind e = EventState \<and> e_From e = StateRunning)) \<and>
    proto_run proto0 (run_events (t_RunID t) (st_trace (snd (Run R s t)))) = None"
proof -
  obtain x s4 where c: "compactHistory R s2 t StateRunning prior = (Inl x, s4)" "st_trace s4 = st_trace s3"
    using failed_fold [OF assms(6-8)] by blast
  let ?s0 = "snd (publishState R s t StatePending StateRunning)"
  have "st_trace s1 = st_trace ?s0" "st_trace s2 = st_trace s1" using append_historyD [OF assms(4)] on_worldD [OF assms(5)] by simp_all
  then have s4: "run_events (t_RunID t) (st_trace s4) =
      [state_event t StatePending StateRunning, state_event t StateRunning StateCompacting]"
    using c(2) assms(3) arg_cong [OF assms(7), of "st_trace \<circ> snd", symmetric] by simp
  obtain b s5 where b: "build_messages R s4 t prior = (b, s5)" by fastforce
  have s5: "st_trace s5 = st_trace s4" using build_messages_frame(1) [of R s4 t prior] b by simp
  have run: "Run R s t = (case b of Inl (code, e) \<Rightarrow> (Some e, fail R s5 t StateRunning code e) | Inr msgs \<Rightarrow> run_loop R s5 t msgs 0 0 0)"
    using assms(1,4,5) c(1) b by (simp add: Run_def load_history_def)
  have "runs_on (t_RunID t) s5 (snd (Run R s t))"
    using run run_loop_runs_on [OF _ assms(2), of s5 _ 0 0 0] by (cases b) (auto simp: runs_on_fail prod_eq_iff)
  then obtain e es where e: "run_events (t_RunID t) (st_trace (snd (Run R s t))) =
      [state_event t StatePending StateRunning, state_event t StateRunning StateCompacting] @ e # es"
    "e_Kind e = EventToken \<or> e_Kind e = EventState \<and> e_From e = StateRunning"
    using s4 s5 by (auto simp: runs_on_def)
  from e(2) have "proto_step (proto0\<lparr> pr_state := StateCompacting \<rparr>) e = None"
    by (auto simp: proto_step_def proto0_def event_kinds)
  then have "proto_run proto0 (run_events (t_RunID t) (st_trace (snd (Run R s t)))) = None"
    unfolding e(1) by (simp add: proto_step_def proto0_def state_event_def event_kinds)
  with e show ?thesis by blast
qed

text \<open>The run of the example succeeds all the same.\<close>

lemma demo_compacting_ends: "fst (Run demo_compacting demo_start demo_task) = None"
  using demo_compacts
  by (simp add: demo_defs demo_compacting_def run_defs run_loop.simps tool_event_def state_event_def done_event_def zero_event_def
      zero_result_def event_kinds CanTransit_iff legal_moves_def state_names)

theorem failed_fold_breaks_the_chain_witness:
  "fst (Run demo_compacting demo_start demo_task) = None \<and>
   proto_run proto0 (run_events ''run'' (st_trace (snd (Run demo_compacting demo_start demo_task)))) = None"
  using failed_fold_breaks_the_chain [of demo_task demo_compacting demo_start "''id''"
      "snd (publishState demo_compacting demo_start demo_task StatePending StateRunning)"
      "[new_message RoleUser ''aa'' [] [], new_message RoleAssistant ''bb'' [] [], new_message RoleUser ''cc'' [] []]"
      "snd (publishState demo_compacting demo_start demo_task StatePending StateRunning)"
      "snd (publishState demo_compacting (snd (publishState demo_compacting demo_start demo_task StatePending StateRunning)) demo_task
         StateRunning StateCompacting)"]
    demo_compacting_due demo_compacting_ends
  by (simp add: demo_compacting_def demo_agent_def demo_task_def demo_start_def fresh_ids_def append_history_def on_world_def
      publishState_def publish_def log_act_def)

end
