(* ===== verification/Gateway.thy ===== *)
theory Gateway
  imports AcpProps Agent
begin

text \<open>
  cmd/gateway: the RPCs of the agent service (service.go), the dispatcher behind ACP sessions (acp_dispatcher.go), direct tool calls
  (tool_handler.go) and the RAG proxy (rag_handler.go). What the calls of the queue, the event bus, the id generator, the clock and the
  RPC stream do is a parameter on a state of type 's; the cases a select statement takes, in order, are a list.
\<close>

section \<open>Results\<close>

datatype rpc_code = InvalidArgument | NotFound | Internal | Unavailable | DeadlineExceeded

datatype rpc_error = Status rpc_code string | OtherError string

datatype recv_error = RecvEOF | RecvErr string

text \<open>One turn of a select over the deadline of the run and its event channel.\<close>

datatype 'e sel = HardDone | Chan 'e | ChanClosed

record 's GatewayEnv =
  gw_Recv :: "'s \<Rightarrow> (recv_error, RunRequest) result \<times> 's"
  gw_new_run :: "'s \<Rightarrow> string \<times> 's"
  gw_new_trace :: "'s \<Rightarrow> string \<times> 's"
  gw_Subscribe :: "'s \<Rightarrow> string \<Rightarrow> (string, Event sel list) result \<times> 's"
  gw_Publish :: "'s \<Rightarrow> Task \<Rightarrow> (string, string) result \<times> 's"
  gw_deadline :: "'s \<Rightarrow> int \<Rightarrow> 's"
  gw_hard_err :: "'s \<Rightarrow> string"
  gw_now :: "'s \<Rightarrow> int"
  gw_Send :: "'s \<Rightarrow> RunEvent \<Rightarrow> string option \<times> 's"
  gw_runTimeout :: int

definition stateEnum :: "string \<Rightarrow> RunState" where
  "stateEnum s =
     (if s = ''PENDING'' then RUN_STATE_PENDING
      else if s = ''RUNNING'' then RUN_STATE_RUNNING
      else if s = ''WAITING_TOOL'' then RUN_STATE_WAITING_TOOL
      else if s = ''COMPACTING'' then RUN_STATE_COMPACTING
      else if s = ''DONE'' then RUN_STATE_DONE
      else if s = ''FAILED'' then RUN_STATE_FAILED
      else RUN_STATE_UNSPECIFIED)"

definition mapEvent :: "string \<Rightarrow> string \<Rightarrow> int \<Rightarrow> Event \<Rightarrow> RunEvent option" where
  "mapEvent runID traceID now ev =
     map_option (\<lambda>p. \<lparr> ev_RunId = runID, ev_TraceId = traceID, ev_Payload = Some p \<rparr>)
       (if e_Kind ev = EventToken then Some (Token (e_Text ev) (e_Index ev))
        else if e_Kind ev = EventState then Some (StateChanged (stateEnum (e_From ev)) (stateEnum (e_State ev)) now)
        else if e_Kind ev = EventDone then Some (Done (e_Total ev) now)
        else if e_Kind ev = EventError then Some (Error (e_Code ev) (e_Message ev) False)
        else if e_Kind ev = EventTool then
          Some (Tool \<lparr> te_CallId = e_CallID ev, te_ToolName = e_ToolName ev, te_Phase = e_Phase ev, te_Result = e_Result ev,
            te_Error = e_Message ev, te_IsError = e_IsError ev, te_ElapsedMs = e_ElapsedMS ev \<rparr>)
        else None)"

definition gw_timeout :: "int \<Rightarrow> int" where
  "gw_timeout t = (if t \<le> 0 then 10 * 60 * 1000000000 else t)"

section \<open>RunAgent\<close>

definition timeout_event :: "string \<Rightarrow> string \<Rightarrow> RunEvent" where
  "timeout_event runID traceID = \<lparr> ev_RunId = runID, ev_TraceId = traceID, ev_Payload = Some (Error ''timeout'' ''run timeout'' True) \<rparr>"

text \<open>The loop over the events; None while it waits.\<close>

fun relay :: "'s GatewayEnv \<Rightarrow> string \<Rightarrow> string \<Rightarrow> 's \<Rightarrow> Event sel list \<Rightarrow> (rpc_error option \<times> 's) option" where
  "relay G runID traceID s [] = None"
| "relay G runID traceID s (HardDone # sels) =
     Some (Some (Status DeadlineExceeded ''run timeout''), snd (gw_Send G s (timeout_event runID traceID)))"
| "relay G runID traceID s (ChanClosed # sels) = Some (None, s)"
| "relay G runID traceID s (Chan ev # sels) =
     (case mapEvent runID traceID (gw_now G s) ev of
        None \<Rightarrow> relay G runID traceID s sels
      | Some out \<Rightarrow>
          (case gw_Send G s out of
             (Some e, s1) \<Rightarrow> Some (Some (OtherError e), s1)
           | (None, s1) \<Rightarrow>
               if e_Kind ev = EventDone \<or> e_Kind ev = EventError then Some (None, s1) else relay G runID traceID s1 sels))"

definition run_task :: "string \<Rightarrow> string \<Rightarrow> RunRequest \<Rightarrow> Task" where
  "run_task runID traceID req = \<lparr> t_RunID = runID, t_UserID = rq_UserId req, t_AgentID = rq_AgentId req, t_Prompt = rq_Prompt req,
     t_Model = rq_Model req, t_SystemPrompt = rq_SystemPrompt req, t_TraceID = traceID, t_Attempt = 0 \<rparr>"

text \<open>The ids of a request, generated where it has none.\<close>

definition request_ids :: "'s GatewayEnv \<Rightarrow> 's \<Rightarrow> RunRequest \<Rightarrow> string \<times> string \<times> 's" where
  "request_ids G s first =
     (let (runID, s1) = (if rq_RunId first = [] then gw_new_run G s else (rq_RunId first, s));
          (traceID, s2) = (if rq_TraceId first = [] then gw_new_trace G s1 else (rq_TraceId first, s1))
      in (runID, traceID, s2))"

definition RunAgent :: "'s GatewayEnv \<Rightarrow> 's \<Rightarrow> (rpc_error option \<times> 's) option" where
  "RunAgent G s =
     (case gw_Recv G s of
        (Inl RecvEOF, s1) \<Rightarrow> Some (None, s1)
      | (Inl (RecvErr e), s1) \<Rightarrow> Some (Some (Status InvalidArgument (''recv first: '' @ e)), s1)
      | (Inr first, s1) \<Rightarrow>
          if rq_Prompt first = [] then Some (Some (Status InvalidArgument ''empty prompt''), s1)
          else
            (let (runID, traceID, s3) = request_ids G s1 first
             in case gw_Subscribe G s3 runID of
                  (Inl e, s4) \<Rightarrow> Some (Some (Status Internal (''subscribe: '' @ e)), s4)
                | (Inr sels, s4) \<Rightarrow>
                    (case gw_Publish G s4 (run_task runID traceID first) of
                       (Inl e, s5) \<Rightarrow> Some (Some (Status Internal (''publish task: '' @ e)), s5)
                     | (Inr _, s5) \<Rightarrow> relay G runID traceID (gw_deadline G s5 (gw_timeout (gw_runTimeout G))) sels)))"

section \<open>The ACP dispatcher\<close>

definition mapQueueEventACP :: "Event \<Rightarrow> BusinessEvent" where
  "mapQueueEventACP ev =
     (if e_Kind ev = EventToken then zero_business\<lparr> be_Kind := ''token'', be_Text := e_Text ev, be_Index := e_Index ev \<rparr>
      else if e_Kind ev = EventState then zero_business\<lparr> be_Kind := ''state'', be_From := e_From ev, be_State := e_State ev \<rparr>
      else if e_Kind ev = EventDone then zero_business\<lparr> be_Kind := ''done'', be_Total := e_Total ev \<rparr>
      else if e_Kind ev = EventError then zero_business\<lparr> be_Kind := ''error'', be_Code := e_Code ev, be_Message := e_Message ev \<rparr>
      else zero_business)"

fun acp_relay :: "('s \<Rightarrow> BusinessEvent \<Rightarrow> string option \<times> 's) \<Rightarrow> 's \<Rightarrow> Event sel list \<Rightarrow> (string option \<times> 's) option" where
  "acp_relay em s [] = None"
| "acp_relay em s (HardDone # sels) =
     Some (None, snd (em s (zero_business\<lparr> be_Kind := ''error'', be_Code := ''timeout'', be_Message := ''run timeout'' \<rparr>)))"
| "acp_relay em s (ChanClosed # sels) = Some (None, s)"
| "acp_relay em s (Chan ev # sels) =
     (let be = mapQueueEventACP ev in
      if be_Kind be = [] then acp_relay em s sels
      else (case em s be of
              (Some e, s1) \<Rightarrow> Some (None, s1)
            | (None, s1) \<Rightarrow> if be_Kind be = ''done'' \<or> be_Kind be = ''error'' then Some (None, s1) else acp_relay em s1 sels))"

definition acp_task :: "RunInput \<Rightarrow> Task" where
  "acp_task ri = \<lparr> t_RunID = ri_RunID ri, t_UserID = ri_UserID ri, t_AgentID = [], t_Prompt = ri_Prompt ri, t_Model = ri_Model ri,
     t_SystemPrompt = [], t_TraceID = ri_TraceID ri, t_Attempt = 0 \<rparr>"

definition acpDispatcher_Run ::
    "'s GatewayEnv \<Rightarrow> ('s \<Rightarrow> BusinessEvent \<Rightarrow> string option \<times> 's) \<Rightarrow> 's \<Rightarrow> RunInput \<Rightarrow> (string option \<times> 's) option" where
  "acpDispatcher_Run G em s ri =
     (case gw_Subscribe G s (ri_RunID ri) of
        (Inl e, s1) \<Rightarrow> Some (Some (''subscribe: '' @ e), s1)
      | (Inr sels, s1) \<Rightarrow>
          (case gw_Publish G s1 (acp_task ri) of
             (Inl e, s2) \<Rightarrow> Some (Some (''publish task: '' @ e), s2)
           | (Inr _, s2) \<Rightarrow> acp_relay em (gw_deadline G s2 (gw_timeout (gw_runTimeout G))) sels))"

section \<open>Pipelines\<close>

fun collect_step :: "string \<Rightarrow> 's GatewayEnv \<Rightarrow> 's \<Rightarrow> Event sel list \<Rightarrow> (string \<times> string option) option" where
  "collect_step b G s [] = None"
| "collect_step b G s (HardDone # sels) = Some (b, Some (gw_hard_err G s))"
| "collect_step b G s (ChanClosed # sels) = Some (b, None)"
| "collect_step b G s (Chan ev # sels) =
     (if e_Kind ev = EventToken then collect_step (b @ e_Text ev) G s sels
      else if e_Kind ev = EventDone then Some (b, None)
      else if e_Kind ev = EventError then Some (b, Some (e_Code ev @ '': '' @ e_Message ev))
      else collect_step b G s sels)"

text \<open>The summary, the error and the state.\<close>

definition runPipelineStep ::
    "'s GatewayEnv \<Rightarrow> 's \<Rightarrow> string \<Rightarrow> string \<Rightarrow> string \<Rightarrow> string \<Rightarrow> string \<Rightarrow> ((string \<times> string option) \<times> 's) option" where
  "runPipelineStep G s runID traceID userID model prompt =
     (case gw_Subscribe G s runID of
        (Inl e, s1) \<Rightarrow> Some (([], Some e), s1)
      | (Inr sels, s1) \<Rightarrow>
          (case gw_Publish G s1 \<lparr> t_RunID = runID, t_UserID = userID, t_AgentID = [], t_Prompt = prompt, t_Model = model,
                t_SystemPrompt = [], t_TraceID = traceID, t_Attempt = 0 \<rparr> of
             (Inl e, s2) \<Rightarrow> Some (([], Some e), s2)
           | (Inr _, s2) \<Rightarrow>
               (let s3 = gw_deadline G s2 (gw_timeout (gw_runTimeout G))
                in map_option (\<lambda>r. (r, s3)) (collect_step [] G s3 sels))))"

record PipelineRequest =
  pq_UserId :: string
  pq_Model :: string
  pq_SpecYaml :: string
  pq_TraceId :: string

record PipelineStepResult =
  pr_StepId :: string
  pr_Role :: string
  pr_ChildRunId :: string
  pr_Summary :: string
  pr_Status :: string
  pr_Error :: string

record PipelineResponse =
  pp_Name :: string
  pp_Status :: string
  pp_Error :: string
  pp_Results :: "PipelineStepResult list"

definition pipeline_prompt :: "(string \<rightharpoonup> string) \<Rightarrow> PipelineStep \<Rightarrow> string" where
  "pipeline_prompt summaries st =
     (let nl = [CHR 0x0A];
          prompt = (if ps_Role st \<noteq> []
            then ''You are a pipeline subagent with role: '' @ ps_Role st @ ''.'' @ nl @ nl @ ''Task:'' @ nl @ ps_Task st else ps_Task st)
      in if ps_DependsOn st \<noteq> []
         then prompt @ nl @ nl @ ''Dependency outputs:'' @ nl @
           concat (map (\<lambda>d. ''- '' @ d @ '': '' @ lookup0 [] summaries d @ nl) (ps_DependsOn st))
         else prompt)"

definition step_result :: "PipelineStep \<Rightarrow> string \<Rightarrow> string \<Rightarrow> string option \<Rightarrow> PipelineStepResult" where
  "step_result st runID summary err =
     \<lparr> pr_StepId = ps_ID st, pr_Role = ps_Role st, pr_ChildRunId = runID, pr_Summary = summary,
       pr_Status = (if err = None then ''ok'' else ''error''), pr_Error = (case err of None \<Rightarrow> [] | Some e \<Rightarrow> e) \<rparr>"

fun pipeline_steps :: "'s GatewayEnv \<Rightarrow> string \<Rightarrow> string \<Rightarrow> string \<Rightarrow> (string \<rightharpoonup> string) \<Rightarrow> 's \<Rightarrow> PipelineStep list \<Rightarrow>
    ((PipelineStepResult list \<times> string option) \<times> 's) option" where
  "pipeline_steps G traceID userID model summaries s [] = Some (([], None), s)"
| "pipeline_steps G traceID userID model summaries s (st # sts) =
     (let (runID, s1) = gw_new_run G s in
      case runPipelineStep G s1 runID traceID userID model (pipeline_prompt summaries st) of
        None \<Rightarrow> None
      | Some ((summary, Some e), s2) \<Rightarrow> Some (([step_result st runID summary (Some e)], Some e), s2)
      | Some ((summary, None), s2) \<Rightarrow>
          map_option (\<lambda>((rs, err), s3). ((step_result st runID summary None # rs, err), s3))
            (pipeline_steps G traceID userID model (summaries(ps_ID st \<mapsto> summary)) s2 sts))"

definition GatewayRunPipeline ::
    "'s GatewayEnv \<Rightarrow> (pipe_error \<Rightarrow> string) \<Rightarrow> 's \<Rightarrow> PipelineRequest \<Rightarrow> ((rpc_error, PipelineResponse) result \<times> 's) option" where
  "GatewayRunPipeline G err_text s req =
     (if TrimSpace (pq_SpecYaml req) = [] then Some (Inl (Status InvalidArgument ''empty pipeline spec''), s)
      else (case ParsePipeline (pq_SpecYaml req) of
          (p, Some e) \<Rightarrow> Some (Inl (Status InvalidArgument (''parse pipeline: '' @ err_text e)), s)
        | (p, None) \<Rightarrow>
            (case TopologicalOrder p of
               Inl e \<Rightarrow> Some (Inl (Status InvalidArgument (''order pipeline: '' @ err_text e)), s)
             | Inr ordered \<Rightarrow>
                 (let (traceID, s1) = (if pq_TraceId req = [] then gw_new_trace G s else (pq_TraceId req, s));
                      userID = (if pq_UserId req = [] then ''pipeline'' else pq_UserId req)
                  in map_option (\<lambda>((rs, err), s2).
                       (Inr \<lparr> pp_Name = pl_Name p, pp_Status = (if err = None then ''ok'' else ''error''),
                          pp_Error = (case err of None \<Rightarrow> [] | Some e \<Rightarrow> e), pp_Results = rs \<rparr>, s2))
                     (pipeline_steps G traceID userID (pq_Model req) Map.empty s1 ordered)))))"

section \<open>Tool calls\<close>

record 's ToolHandler =
  th_Registry :: "'s Registry"
  th_new_id :: "'s \<Rightarrow> string \<times> 's"
  th_new_trace :: "'s \<Rightarrow> string \<times> 's"
  th_Subscribe :: "'s \<Rightarrow> string \<Rightarrow> (string, ToolResultEvent sel list) result \<times> 's"
  th_Publish :: "'s \<Rightarrow> ToolTask \<Rightarrow> (string, string) result \<times> 's"
  th_deadline :: "'s \<Rightarrow> int \<Rightarrow> 's"
  th_timeout :: int
  th_U :: Unicode

record ExecToolRequest =
  xq_UserId :: string
  xq_Tool :: string
  xq_ArgsJson :: string
  xq_TimeoutMs :: nat
  xq_TraceId :: string

record ExecToolResponse =
  xp_CallId :: string
  xp_ContainerId :: string
  xp_ExitCode :: int
  xp_Content :: string
  xp_IsError :: bool
  xp_MetadataJson :: string
  xp_ElapsedMs :: nat
  xp_ErrorCode :: string
  xp_ErrorMessage :: string

definition int32 :: "int \<Rightarrow> int" where "int32 i = (i + 2 ^ 31) mod 2 ^ 32 - 2 ^ 31"
definition uint64 :: "int \<Rightarrow> nat" where "uint64 i = nat (i mod 2 ^ 64)"

definition call_timeout :: "int \<Rightarrow> nat \<Rightarrow> int" where
  "call_timeout t ms =
     (let t0 = (if t \<le> 0 then 60 * 1000000000 else t); want = int ms * 1000000 + 5 * 1000000000
      in if ms > 0 \<and> want > t0 then want else t0)"

definition exec_response :: "ToolResultEvent \<Rightarrow> ExecToolResponse" where
  "exec_response ev = \<lparr> xp_CallId = tr_CallID ev, xp_ContainerId = tr_ContainerID ev, xp_ExitCode = int32 (tr_ExitCode ev),
     xp_Content = tr_Content ev, xp_IsError = tr_IsError ev,
     xp_MetadataJson = (if tr_MetaJSON ev \<noteq> [] then tr_MetaJSON ev else Marshal (JObj [])),
     xp_ElapsedMs = uint64 (tr_ElapsedMS ev), xp_ErrorCode = tr_ErrorCode ev, xp_ErrorMessage = tr_ErrorMsg ev \<rparr>"

definition execTool :: "'s ToolHandler \<Rightarrow> 's \<Rightarrow> ExecToolRequest \<Rightarrow> ((rpc_error, ExecToolResponse) result \<times> 's) option" where
  "execTool H s req =
     (if xq_Tool req = [] then Some (Inl (Status InvalidArgument ''tool is required''), s)
      else if Registry_Get (th_Registry H) (xq_Tool req) = None
      then Some (Inl (Status NotFound (''unknown tool '' @ Quote (th_U H) (xq_Tool req))), s)
      else
        (let (callID, s1) = th_new_id H s;
             (traceID, s2) = (if xq_TraceId req = [] then th_new_trace H s1 else (xq_TraceId req, s1))
         in case th_Subscribe H s2 callID of
              (Inl e, s3) \<Rightarrow> Some (Inl (Status Internal (''subscribe: '' @ e)), s3)
            | (Inr sels, s3) \<Rightarrow>
                (case th_Publish H s3 \<lparr> tt_CallID = callID, tt_UserID = xq_UserId req, tt_Tool = xq_Tool req, tt_ArgsJSON = xq_ArgsJson req,
                      tt_TimeoutMS = int (xq_TimeoutMs req), tt_TraceID = traceID, tt_Attempt = 0 \<rparr> of
                   (Inl e, s4) \<Rightarrow> Some (Inl (Status Internal (''publish tool task: '' @ e)), s4)
                 | (Inr _, s4) \<Rightarrow>
                     (let s5 = th_deadline H s4 (call_timeout (th_timeout H) (xq_TimeoutMs req)) in
                      case sels of
                        [] \<Rightarrow> None
                      | HardDone # _ \<Rightarrow> Some (Inl (Status DeadlineExceeded ''tool call timeout (gateway side)''), s5)
                      | ChanClosed # _ \<Rightarrow> Some (Inl (Status Internal ''tool result channel closed''), s5)
                      | Chan ev # _ \<Rightarrow> Some (Inr (exec_response ev), s5)))))"

text \<open>The name, the description and the schema of each tool.\<close>

definition listTools :: "'s ToolHandler \<Rightarrow> (string \<times> string \<times> json) list" where
  "listTools H = map (\<lambda>d. (ds_Name d, ds_Description d, ds_Schema d)) (Registry_List (th_Registry H))"

definition ExecTool :: "'s ToolHandler option \<Rightarrow> 's \<Rightarrow> ExecToolRequest \<Rightarrow> ((rpc_error, ExecToolResponse) result \<times> 's) option" where
  "ExecTool h s req = (case h of None \<Rightarrow> Some (Inl (Status Unavailable ''tool service disabled on this gateway''), s) | Some H \<Rightarrow> execTool H s req)"

definition ListTools :: "'s ToolHandler option \<Rightarrow> (string \<times> string \<times> json) list" where
  "ListTools h = (case h of None \<Rightarrow> [] | Some H \<Rightarrow> listTools H)"

section \<open>The RAG proxy\<close>

text \<open>A call of the RAG service, forwarded when there is a client.\<close>

definition rag_call :: "('s \<Rightarrow> 'q \<Rightarrow> (rpc_error, 'p) result \<times> 's) option \<Rightarrow> 's \<Rightarrow> 'q \<Rightarrow> (rpc_error, 'p) result \<times> 's" where
  "rag_call cli s req = (case cli of None \<Rightarrow> (Inl (Status Unavailable ''rag service disabled on this gateway''), s) | Some f \<Rightarrow> f s req)"

definition IngestRAG :: "('s \<Rightarrow> 'q \<Rightarrow> (rpc_error, 'p) result \<times> 's) option option \<Rightarrow> 's \<Rightarrow> 'q \<Rightarrow> (rpc_error, 'p) result \<times> 's" where
  "IngestRAG h s req =
     (case h of None \<Rightarrow> (Inl (Status Unavailable ''rag service disabled on this gateway''), s) | Some cli \<Rightarrow> rag_call cli s req)"

definition QueryRAG :: "('s \<Rightarrow> 'q \<Rightarrow> (rpc_error, 'p) result \<times> 's) option option \<Rightarrow> 's \<Rightarrow> 'q \<Rightarrow> (rpc_error, 'p) result \<times> 's" where
  "QueryRAG h s req =
     (case h of None \<Rightarrow> (Inl (Status Unavailable ''rag service disabled on this gateway''), s) | Some cli \<Rightarrow> rag_call cli s req)"

end
