(* ===== verification/GatewayProps.thy ===== *)
theory GatewayProps
  imports Gateway
begin

text \<open>
  What the gateway guarantees: the clients of RunAgent and of ACP sessions get the events of the run the worker executes, and the
  steps of a pipeline run in order with the outputs they depend on.
\<close>

section \<open>Complete event streams\<close>

definition terminal :: "Event \<Rightarrow> bool" where
  "terminal e = (e_Kind e = EventDone \<or> e_Kind e = EventError)"

text \<open>Known kinds only, and the last event is the only one that ends the stream.\<close>

fun stream_ok :: "Event list \<Rightarrow> bool" where
  "stream_ok [] = False"
| "stream_ok (e # es) =
     (e_Kind e \<in> {EventState, EventToken, EventTool, EventDone, EventError} \<and> (if terminal e then es = [] else stream_ok es))"

lemma proto_run_over: "pr_over p \<Longrightarrow> proto_run p es = Some q \<Longrightarrow> es = [] \<and> q = p"
  by (cases es) (auto simp: proto_step_def)

lemma proto_stream:
  assumes "proto_run p es = Some q" "pr_over q" "\<not> pr_over p"
  shows "stream_ok es \<and> e_Kind (last es) = (if pr_state q = StateDone then EventDone else EventError)"
  using assms(1,3)
proof (induction es arbitrary: p)
  case Nil
  then show ?case using assms(2) by simp
next
  case (Cons e es)
  obtain p1 where p1: "proto_step p e = Some p1" "proto_run p1 es = Some q"
    using Cons.prems(1) by (auto split: Option.bind_splits)
  have k: "e_Kind e \<in> {EventState, EventToken, EventTool, EventDone, EventError}"
    using p1(1) by (auto simp: proto_step_def split: if_splits)
  show ?case
  proof (cases "pr_over p1")
    case True
    then have "es = []" "q = p1" using proto_run_over p1(2) by blast+
    moreover have "e_Kind e = (if pr_state p1 = StateDone then EventDone else EventError)" "terminal e"
      using p1(1) True Cons.prems(2) by (auto simp: proto_step_def terminal_def event_kinds state_names split: if_splits)
    ultimately show ?thesis using k by simp
  next
    case False
    have "\<not> terminal e" using p1(1) False by (auto simp: proto_step_def terminal_def event_kinds split: if_splits)
    moreover have "es \<noteq> []" using False p1(2) assms(2) by (cases es) auto
    ultimately show ?thesis using Cons.IH [OF p1(2) False] k by simp
  qed
qed

section \<open>RunAgent\<close>

text \<open>A stream that accepts every event, sent being what it has carried; the other operations send nothing.\<close>

definition stream_laws :: "'s GatewayEnv \<Rightarrow> ('s \<Rightarrow> RunEvent list) \<Rightarrow> bool" where
  "stream_laws G sent =
     (\<forall>s. (\<forall>ev. fst (gw_Send G s ev) = None \<and> sent (snd (gw_Send G s ev)) = sent s @ [ev]) \<and>
        sent (snd (gw_Recv G s)) = sent s \<and> sent (snd (gw_new_run G s)) = sent s \<and> sent (snd (gw_new_trace G s)) = sent s \<and>
        (\<forall>r. sent (snd (gw_Subscribe G s r)) = sent s) \<and> (\<forall>t. sent (snd (gw_Publish G s t)) = sent s) \<and>
        (\<forall>d. sent (gw_deadline G s d) = sent s))"

lemma stream_lawsD:
  assumes "stream_laws G sent"
  shows "\<exists>s1. gw_Send G s ev = (None, s1) \<and> sent s1 = sent s @ [ev]"
    and "gw_Recv G s = (a, t) \<Longrightarrow> sent t = sent s" "gw_Subscribe G s r = (b, t) \<Longrightarrow> sent t = sent s"
    and "gw_Publish G s tk = (c, t) \<Longrightarrow> sent t = sent s" "sent (gw_deadline G s d) = sent s"
    and "request_ids G s first = (rid, tid, t) \<Longrightarrow> sent t = sent s"
  using assms unfolding stream_laws_def request_ids_def
  by (auto split: prod.splits if_splits) (metis fst_conv snd_conv prod.collapse)+

text \<open>An event and what a client gets for it, up to the time stamp.\<close>

definition shown_as :: "string \<Rightarrow> string \<Rightarrow> Event \<Rightarrow> RunEvent \<Rightarrow> bool" where
  "shown_as rid tid e out = (\<exists>now. mapEvent rid tid now e = Some out)"

lemma relay_stream:
  assumes "stream_laws G sent" "stream_ok es"
  shows "\<exists>s1 outs. relay G rid tid s (map Chan es @ rest) = Some (None, s1) \<and> sent s1 = sent s @ outs \<and> list_all2 (shown_as rid tid) es outs"
  using assms(2)
proof (induction es arbitrary: s)
  case (Cons e es)
  have "mapEvent rid tid (gw_now G s) e \<noteq> None" using Cons.prems by (auto simp: mapEvent_def)
  then obtain x where x: "mapEvent rid tid (gw_now G s) e = Some x" by blast
  obtain s1 where s1: "gw_Send G s x = (None, s1)" "sent s1 = sent s @ [x]" using stream_lawsD(1) [OF assms(1)] by blast
  have sh: "shown_as rid tid e x" using x unfolding shown_as_def by blast
  show ?case
  proof (cases "terminal e")
    case True
    then show ?thesis using x s1 sh Cons.prems by (intro exI [of _ s1] exI [of _ "[x]"]) (simp add: terminal_def)
  next
    case False
    then obtain s2 outs where "relay G rid tid s1 (map Chan es @ rest) = Some (None, s2)" "sent s2 = sent s1 @ outs"
      "list_all2 (shown_as rid tid) es outs" using Cons.IH [of s1] Cons.prems by auto
    then show ?thesis using x s1 sh False by (intro exI [of _ s2] exI [of _ "x # outs"]) (simp add: terminal_def)
  qed
qed simp

fun is_done_event :: "RunPayload option \<Rightarrow> bool" where
  "is_done_event (Some (Done n ts)) = True"
| "is_done_event _ = False"

fun is_error_event :: "RunPayload option \<Rightarrow> bool" where
  "is_error_event (Some (Error c m r)) = True"
| "is_error_event _ = False"

lemma shown_last:
  assumes "shown_as rid tid e out"
  shows "e_Kind e = EventDone \<Longrightarrow> is_done_event (ev_Payload out)" "e_Kind e = EventError \<Longrightarrow> is_error_event (ev_Payload out)"
  using assms by (auto simp: shown_as_def mapEvent_def event_kinds)

lemma RunAgent_relays:
  assumes "stream_laws G sent" "gw_Recv G s0 = (Inr first, s1)" "rq_Prompt first \<noteq> []" "request_ids G s1 first = (rid, tid, s2)"
    and "gw_Subscribe G s2 rid = (Inr (map Chan (run_events rid (st_trace w')) @ rest), s3)"
    and "gw_Publish G s3 (run_task rid tid first) = (Inr i, s4)"
    and "Run R w (run_task rid tid first) = (r, w')" "rid \<noteq> []" "fresh_ids R rid" "compaction_safe R" "run_events rid (st_trace w) = []"
  shows "\<exists>s5 outs. RunAgent G s0 = Some (None, s5) \<and> sent s5 = sent s0 @ outs \<and>
    list_all2 (shown_as rid tid) (run_events rid (st_trace w')) outs \<and> outs \<noteq> [] \<and>
    (if r = None then is_done_event (ev_Payload (last outs)) else is_error_event (ev_Payload (last outs)))"
proof -
  let ?es = "run_events rid (st_trace w')"
  have tr: "t_RunID (run_task rid tid first) = rid" by (simp add: run_task_def)
  obtain q where q: "proto_run proto0 ?es = Some q" "pr_over q" "pr_state q = (if r = None then StateDone else StateFailed)"
    using Run_follows [of "run_task rid tid first" R w r w'] assms(7-11) unfolding tr by blast
  then have es: "stream_ok ?es" "e_Kind (last ?es) = (if r = None then EventDone else EventError)"
    using proto_stream [OF q(1,2)] by (auto simp: proto0_def state_names split: if_splits)
  obtain s5 outs where o: "relay G rid tid (gw_deadline G s4 (gw_timeout (gw_runTimeout G))) (map Chan ?es @ rest) = Some (None, s5)"
    "sent s5 = sent (gw_deadline G s4 (gw_timeout (gw_runTimeout G))) @ outs" "list_all2 (shown_as rid tid) ?es outs"
    using relay_stream [OF assms(1) es(1)] by blast
  have "RunAgent G s0 = Some (None, s5)" using assms(2-6) o(1) by (simp add: RunAgent_def)
  moreover have "sent s5 = sent s0 @ outs" using o(2) stream_lawsD [OF assms(1)] assms(2,4-6) by metis
  moreover have ne: "?es \<noteq> []" "outs \<noteq> []" using es(1) o(3) by (cases ?es, auto)+
  moreover have "shown_as rid tid (last ?es) (last outs)"
    using o(3) ne by (metis list_all2_conv_all_nth last_conv_nth diff_less length_greater_0_conv zero_less_one)
  ultimately show ?thesis using o(3) es(2) shown_last [of rid tid "last ?es" "last outs"]
    by (intro exI [of _ s5] exI [of _ outs]) auto
qed

text \<open>What the client is to get for an event, said in the event's own fields: the ids of the run, and for a token its text and number, for
  a change of state the names of both states, for a tool event the call, its phase, result, error and duration, for the last event the
  number of tokens, or the code and message of the error.\<close>

fun tells :: "RunPayload option \<Rightarrow> Event \<Rightarrow> bool" where
  "tells (Some (Token x i)) e = (e_Kind e = ''token'' \<and> x = e_Text e \<and> i = e_Index e)"
| "tells (Some (StateChanged f t now)) e = (e_Kind e = ''state'' \<and> state_label f = e_From e \<and> state_label t = e_State e)"
| "tells (Some (Tool x)) e = (e_Kind e = ''tool'' \<and> te_CallId x = e_CallID e \<and> te_ToolName x = e_ToolName e \<and> te_Phase x = e_Phase e \<and>
     te_Result x = e_Result e \<and> te_Error x = e_Message e \<and> te_IsError x = e_IsError e \<and> te_ElapsedMs x = e_ElapsedMS e)"
| "tells (Some (Done n now)) e = (e_Kind e = ''done'' \<and> n = e_Total e)"
| "tells (Some (Error c m retriable)) e = (e_Kind e = ''error'' \<and> c = e_Code e \<and> m = e_Message e \<and> \<not> retriable)"
| "tells _ e = False"

definition client_gets :: "string \<Rightarrow> string \<Rightarrow> Event \<Rightarrow> RunEvent \<Rightarrow> bool" where
  "client_gets rid tid e out = (ev_RunId out = rid \<and> ev_TraceId out = tid \<and> tells (ev_Payload out) e)"

lemma state_label_names [simp]:
  "state_label (stateEnum StatePending) = StatePending" "state_label (stateEnum StateRunning) = StateRunning"
  "state_label (stateEnum StateWaitingTool) = StateWaitingTool" "state_label (stateEnum StateCompacting) = StateCompacting"
  "state_label (stateEnum StateDone) = StateDone" "state_label (stateEnum StateFailed) = StateFailed"
  by (simp_all add: stateEnum_def state_names)

lemma state_label_enum: "CanTransit f t \<Longrightarrow> state_label (stateEnum f) = f \<and> state_label (stateEnum t) = t"
  by (auto simp: CanTransit_iff legal_moves_def)

lemma shown_client_gets:
  assumes "shown_as rid tid e out" "e_Kind e = EventState \<Longrightarrow> CanTransit (e_From e) (e_State e)"
  shows "client_gets rid tid e out"
proof -
  obtain now where m: "mapEvent rid tid now e = Some out" using assms(1) by (auto simp: shown_as_def)
  then consider "e_Kind e = EventToken" | "e_Kind e = EventState" | "e_Kind e = EventDone" | "e_Kind e = EventError" | "e_Kind e = EventTool"
    by (auto simp: mapEvent_def split: if_splits)
  then show ?thesis
  proof cases
    case 2
    then show ?thesis using m state_label_enum [OF assms(2)] by (auto simp: mapEvent_def client_gets_def event_kinds)
  qed (use m in \<open>auto simp: mapEvent_def client_gets_def event_kinds\<close>)
qed

lemma proto_run_states:
  "proto_run p es = Some q \<Longrightarrow> e \<in> set es \<Longrightarrow> e_Kind e = EventState \<Longrightarrow> CanTransit (e_From e) (e_State e)"
  by (induction es arbitrary: p) (auto simp: proto_step_def split: Option.bind_splits if_splits)

text \<open>C3: the client of RunAgent sees its run: when the worker executes the task the RPC published and the event channel carries the
  events of that run, the RPC returns OK, having sent for each event of the run, in order and with the run's ids, one message with that
  event's contents - tool events included - and last a done message if Run returned nil, an error message if it did not.
  (The stream accepts what is sent, Recv, Subscribe and Publish succeed, new ids are fresh and compaction meets no error.)\<close>

theorem RunAgent_relays_run:
  assumes "stream_laws G sent" "gw_Recv G s0 = (Inr first, s1)" "rq_Prompt first \<noteq> []" "request_ids G s1 first = (rid, tid, s2)"
    and "gw_Subscribe G s2 rid = (Inr (map Chan (run_events rid (st_trace w')) @ rest), s3)"
    and "gw_Publish G s3 (run_task rid tid first) = (Inr i, s4)"
    and "Run R w (run_task rid tid first) = (r, w')" "rid \<noteq> []" "fresh_ids R rid" "compaction_safe R" "run_events rid (st_trace w) = []"
  shows "\<exists>s5 outs. RunAgent G s0 = Some (None, s5) \<and> sent s5 = sent s0 @ outs \<and>
    list_all2 (client_gets rid tid) (run_events rid (st_trace w')) outs \<and> outs \<noteq> [] \<and>
    (if r = None then is_done_event (ev_Payload (last outs)) else is_error_event (ev_Payload (last outs)))"
proof -
  have tr: "t_RunID (run_task rid tid first) = rid" by (simp add: run_task_def)
  obtain q where q: "proto_run proto0 (run_events rid (st_trace w')) = Some q"
    using Run_follows [of "run_task rid tid first" R w r w'] assms(7-11) unfolding tr by blast
  obtain s5 outs where o: "RunAgent G s0 = Some (None, s5)" "sent s5 = sent s0 @ outs"
    "list_all2 (shown_as rid tid) (run_events rid (st_trace w')) outs" "outs \<noteq> []"
    "if r = None then is_done_event (ev_Payload (last outs)) else is_error_event (ev_Payload (last outs))"
    using RunAgent_relays [OF assms] by blast
  have "list_all2 (client_gets rid tid) (run_events rid (st_trace w')) outs"
    using o(3) by (rule list.rel_mono_strong) (use shown_client_gets proto_run_states [OF q] in blast)
  with o show ?thesis by blast
qed

section \<open>ACP sessions\<close>

text \<open>The events an ACP client gets: all but the tool events.\<close>

definition acp_events :: "Event list \<Rightarrow> BusinessEvent list" where
  "acp_events es = map mapQueueEventACP (filter (\<lambda>e. e_Kind e \<noteq> EventTool) es)"

lemma acp_relay_emits:
  assumes "stream_ok es"
  shows "acp_relay (emit A) s (map Chan es @ rest) = Some (None, snd (emits A s (acp_events es)))"
  using assms
proof (induction es arbitrary: s)
  case (Cons e es)
  show ?case
  proof (cases "e_Kind e = EventTool")
    case True
    then show ?thesis using Cons
      by (simp add: acp_events_def mapQueueEventACP_def event_kinds zero_business_def terminal_def)
  next
    case False
    then have k: "be_Kind (mapQueueEventACP e) = e_Kind e" "e_Kind e \<noteq> []"
      using Cons.prems by (auto simp: mapQueueEventACP_def event_kinds zero_business_def)
    obtain x t where x: "emit A s (mapQueueEventACP e) = (x, t)" by fastforce
    show ?thesis using Cons False k x by (cases x) (auto simp: acp_events_def terminal_def event_kinds)
  qed
qed simp

text \<open>The ACP dispatcher hands a session the events of the run in order, but drops the tool events the gRPC client gets: when the
  channel carries the events of the run, Run has the effect of emitting exactly the others and returns nil.\<close>

theorem acpDispatcher_emits:
  assumes "gw_Subscribe G s (ri_RunID ri) = (Inr (map Chan (run_events (ri_RunID ri) (st_trace w')) @ rest), s1)"
    and "gw_Publish G s1 (acp_task ri) = (Inr i, s2)" "Run R w (acp_task ri) = (r, w')"
    and "ri_RunID ri \<noteq> []" "fresh_ids R (ri_RunID ri)" "compaction_safe R" "run_events (ri_RunID ri) (st_trace w) = []"
  shows "acpDispatcher_Run G (emit A) s ri =
    Some (None, snd (emits A (gw_deadline G s2 (gw_timeout (gw_runTimeout G))) (acp_events (run_events (ri_RunID ri) (st_trace w')))))"
proof -
  have tr: "t_RunID (acp_task ri) = ri_RunID ri" by (simp add: acp_task_def)
  obtain q where q: "proto_run proto0 (run_events (ri_RunID ri) (st_trace w')) = Some q" "pr_over q"
    using Run_follows [of "acp_task ri" R w r w'] assms(3-7) unfolding tr by blast
  have "stream_ok (run_events (ri_RunID ri) (st_trace w'))"
    using proto_stream [OF q] by (simp add: proto0_def)
  then show ?thesis using assms(1,2) by (simp add: acpDispatcher_Run_def acp_relay_emits)
qed

section \<open>Pipelines\<close>

lemma ParsePipeline_wf:
  assumes "ParsePipeline raw = (p, None)"
  shows "steps_wf (pl_Steps p)"
proof -
  have "ValidatePipeline p = None" using assms by (auto simp: ParsePipeline_def Let_def split: if_splits)
  then obtain seen where "validate_steps {} (pl_Steps p) = Inr seen" "validate_all_deps seen (pl_Steps p) = None"
    by (auto simp: ValidatePipeline_def split: sum.splits option.splits)
  then show ?thesis by (auto simp: validate_steps_ok validate_all_deps_ok steps_wf_def)
qed

text \<open>Subscribing and publishing succeed, tasks being what has been published.\<close>

definition task_laws :: "'s GatewayEnv \<Rightarrow> ('s \<Rightarrow> Task list) \<Rightarrow> bool" where
  "task_laws G tasks =
     (\<forall>s. tasks (snd (gw_new_run G s)) = tasks s \<and> tasks (snd (gw_new_trace G s)) = tasks s \<and>
        (\<forall>r. is_ok (fst (gw_Subscribe G s r)) \<and> tasks (snd (gw_Subscribe G s r)) = tasks s) \<and>
        (\<forall>t. is_ok (fst (gw_Publish G s t)) \<and> tasks (snd (gw_Publish G s t)) = tasks s @ [t]) \<and>
        (\<forall>d. tasks (gw_deadline G s d) = tasks s))"

text \<open>The outputs of the steps that have run.\<close>

definition outputs :: "PipelineStepResult list \<Rightarrow> string \<rightharpoonup> string" where
  "outputs rs = map_of (rev (map (\<lambda>r. (pr_StepId r, pr_Summary r)) rs))"

lemma outputs_simps [simp]: "outputs [] = Map.empty" "outputs (r # rs) = [pr_StepId r \<mapsto> pr_Summary r] ++ outputs rs"
  by (simp_all add: outputs_def)

lemma runPipelineStep_task:
  assumes "task_laws G tasks" "runPipelineStep G s rid tid u m prompt = Some (x, s')"
  shows "tasks s' = tasks s @ [\<lparr> t_RunID = rid, t_UserID = u, t_AgentID = [], t_Prompt = prompt, t_Model = m,
    t_SystemPrompt = [], t_TraceID = tid, t_Attempt = 0 \<rparr>]"
proof -
  let ?t = "\<lparr> t_RunID = rid, t_UserID = u, t_AgentID = [], t_Prompt = prompt, t_Model = m, t_SystemPrompt = [], t_TraceID = tid, t_Attempt = 0 \<rparr>"
  note l = spec [OF assms(1) [unfolded task_laws_def]]
  obtain a s1 where a: "gw_Subscribe G s rid = (a, s1)" by fastforce
  obtain b s2 where b: "gw_Publish G s1 ?t = (b, s2)" by fastforce
  have "is_ok a" "tasks s1 = tasks s" using l [of s] a by (metis fst_conv, metis snd_conv)
  moreover have "is_ok b" "tasks s2 = tasks s1 @ [?t]" using l [of s1] b by (metis fst_conv, metis snd_conv)
  moreover have "tasks (gw_deadline G s2 d) = tasks s2" for d using l [of s2] by blast
  ultimately show ?thesis using assms(2) a b by (cases a; cases b) (auto simp: runPipelineStep_def Let_def)
qed

lemma pipeline_steps_run:
  assumes "task_laws G tasks" "pipeline_steps G tid u m sm s sts = Some ((rs, err), s')"
  shows "\<exists>ts. tasks s' = tasks s @ ts \<and> length ts = length rs \<and> length rs \<le> length sts \<and> map pr_StepId rs = take (length rs) (map ps_ID sts) \<and>
    (\<forall>i<length rs. t_Prompt (ts ! i) = pipeline_prompt (sm ++ outputs (take i rs)) (sts ! i) \<and> t_RunID (ts ! i) = pr_ChildRunId (rs ! i)) \<and>
    (if err = None then length rs = length sts \<and> (\<forall>r\<in>set rs. pr_Status r = ''ok'')
     else rs \<noteq> [] \<and> (\<forall>r\<in>set (butlast rs). pr_Status r = ''ok'') \<and> pr_Status (last rs) = ''error'')"
  using assms(2)
proof (induction sts arbitrary: sm s rs)
  case (Cons st sts)
  obtain rid s1 where rid: "gw_new_run G s = (rid, s1)" by fastforce
  have t1: "tasks s1 = tasks s" using spec [OF assms(1) [unfolded task_laws_def], of s] rid by (metis snd_conv)
  let ?p = "pipeline_prompt sm st"
  let ?t = "\<lparr> t_RunID = rid, t_UserID = u, t_AgentID = [], t_Prompt = ?p, t_Model = m, t_SystemPrompt = [], t_TraceID = tid, t_Attempt = 0 \<rparr>"
  obtain summary e s2 where st: "runPipelineStep G s1 rid tid u m ?p = Some ((summary, e), s2)"
    using Cons.prems rid by (auto split: option.splits)
  have t2: "tasks s2 = tasks s @ [?t]" using runPipelineStep_task [OF assms(1) st] t1 by simp
  show ?case
  proof (cases e)
    case (Some x)
    then show ?thesis using Cons.prems rid st t2 by (intro exI [of _ "[?t]"]) (auto simp: step_result_def)
  next
    case None
    obtain rs' where r: "rs = step_result st rid summary None # rs'"
      and rest: "pipeline_steps G tid u m (sm(ps_ID st \<mapsto> summary)) s2 sts = Some ((rs', err), s')"
      using Cons.prems rid st None by auto
    have o: "sm ++ outputs (take (Suc i) rs) = (sm(ps_ID st \<mapsto> summary)) ++ outputs (take i rs')" for i
      by (simp add: r step_result_def)
    from Cons.IH [OF rest] obtain ts where ts: "tasks s' = tasks s2 @ ts" "length ts = length rs'" "length rs' \<le> length sts"
      "map pr_StepId rs' = take (length rs') (map ps_ID sts)"
      "\<forall>i<length rs'. t_Prompt (ts ! i) = pipeline_prompt ((sm(ps_ID st \<mapsto> summary)) ++ outputs (take i rs')) (sts ! i) \<and>
         t_RunID (ts ! i) = pr_ChildRunId (rs' ! i)"
      "if err = None then length rs' = length sts \<and> (\<forall>r\<in>set rs'. pr_Status r = ''ok'')
       else rs' \<noteq> [] \<and> (\<forall>r\<in>set (butlast rs'). pr_Status r = ''ok'') \<and> pr_Status (last rs') = ''error''" by blast
    have "\<forall>i<length rs. t_Prompt ((?t # ts) ! i) = pipeline_prompt (sm ++ outputs (take i rs)) ((st # sts) ! i) \<and>
        t_RunID ((?t # ts) ! i) = pr_ChildRunId (rs ! i)"
    proof (intro allI impI)
      fix i assume "i < length rs"
      then show "t_Prompt ((?t # ts) ! i) = pipeline_prompt (sm ++ outputs (take i rs)) ((st # sts) ! i) \<and>
          t_RunID ((?t # ts) ! i) = pr_ChildRunId (rs ! i)"
        using ts(5) o by (cases i) (simp_all add: r step_result_def)
    qed
    moreover have "if err = None then length rs = length (st # sts) \<and> (\<forall>r\<in>set rs. pr_Status r = ''ok'')
       else rs \<noteq> [] \<and> (\<forall>r\<in>set (butlast rs). pr_Status r = ''ok'') \<and> pr_Status (last rs) = ''error''"
      using ts(6) by (auto simp: r step_result_def split: if_splits)
    ultimately show ?thesis using ts(1-4) t2 by (intro exI [of _ "?t # ts"]) (simp add: r step_result_def)
  qed
qed simp

text \<open>The text a child run streamed on its channel.\<close>

definition streamed :: "'s GatewayEnv \<Rightarrow> string \<Rightarrow> string \<Rightarrow> bool" where
  "streamed G rid text =
     (\<exists>s es rest. fst (gw_Subscribe G s rid) = Inr (map Chan es @ rest) \<and> text = concat (map e_Text (filter (\<lambda>e. e_Kind e = ''token'') es)))"

lemma collect_step_text:
  "collect_step b G s sels = Some (x, err) \<Longrightarrow>
   \<exists>es rest. sels = map Chan es @ rest \<and> x = b @ concat (map e_Text (filter (\<lambda>e. e_Kind e = EventToken) es))"
proof (induction b G s sels rule: collect_step.induct)
  case (4 b G s ev sels)
  show ?case
  proof (cases "e_Kind ev = EventDone \<or> e_Kind ev = EventError")
    case True
    then show ?thesis using 4(3) by (intro exI [of _ "[ev]"] exI [of _ sels]) (auto simp: event_kinds split: if_splits)
  next
    case False
    then obtain es rest where "sels = map Chan es @ rest"
      "x = (if e_Kind ev = EventToken then b @ e_Text ev else b) @ concat (map e_Text (filter (\<lambda>e. e_Kind e = EventToken) es))"
      using 4 by (cases "e_Kind ev = EventToken") auto
    then show ?thesis by (intro exI [of _ "ev # es"] exI [of _ rest]) auto
  qed
qed (auto intro: exI [of _ "[]"])

lemma runPipelineStep_streamed:
  assumes "runPipelineStep G s rid tid u m prompt = Some ((x, None), s')"
  shows "streamed G rid x"
proof -
  obtain sels s3 where c: "fst (gw_Subscribe G s rid) = Inr sels" "collect_step [] G s3 sels = Some (x, None)"
    using assms by (auto simp: runPipelineStep_def Let_def split: prod.splits sum.splits)
  obtain es rest where "sels = map Chan es @ rest" "x = concat (map e_Text (filter (\<lambda>e. e_Kind e = ''token'') es))"
    using collect_step_text [OF c(2)] by (auto simp: EventToken_def)
  then show ?thesis using c(1) unfolding streamed_def by (intro exI [of _ s] exI [of _ es] exI [of _ rest]) simp
qed

lemma pipeline_steps_streamed:
  "pipeline_steps G tid u m sm s sts = Some ((rs, err), s') \<Longrightarrow> r \<in> set rs \<Longrightarrow> pr_Status r = ''ok'' \<Longrightarrow>
   streamed G (pr_ChildRunId r) (pr_Summary r)"
proof (induction sts arbitrary: sm s rs)
  case (Cons st sts)
  then show ?case
    by (auto simp: step_result_def runPipelineStep_streamed split: prod.splits option.splits)
qed simp

text \<open>What a prompt is to hold: the role, the task and, if the step depends on others, one line with the name and the output of each of them,
  among the results of the steps that have run.\<close>

definition carries :: "PipelineStepResult list \<Rightarrow> PipelineStep \<Rightarrow> string \<Rightarrow> bool" where
  "carries before st prompt =
     (\<exists>intro tail. prompt = intro @ ps_Task st @ tail \<and>
        intro = (if ps_Role st = [] then []
          else ''You are a pipeline subagent with role: '' @ ps_Role st @ [CHR ''.'', CHR 0x0A, CHR 0x0A] @ ''Task:'' @ [CHR 0x0A]) \<and>
        (if ps_DependsOn st = [] then tail = []
         else \<exists>ls. tail = [CHR 0x0A, CHR 0x0A] @ ''Dependency outputs:'' @ [CHR 0x0A] @ concat ls \<and>
           list_all2 (\<lambda>d l. \<exists>r\<in>set before. pr_StepId r = d \<and> l = ''- '' @ d @ '': '' @ pr_Summary r @ [CHR 0x0A]) (ps_DependsOn st) ls))"

lemma outputs_member: "d \<in> pr_StepId ` set rs \<Longrightarrow> \<exists>r\<in>set rs. pr_StepId r = d \<and> lookup0 [] (outputs rs) d = pr_Summary r"
proof -
  assume "d \<in> pr_StepId ` set rs"
  then have "outputs rs d \<noteq> None" by (auto simp: outputs_def map_of_eq_None_iff image_iff)
  then obtain x where x: "outputs rs d = Some x" by blast
  then have "(d, x) \<in> set (map (\<lambda>r. (pr_StepId r, pr_Summary r)) rs)" unfolding outputs_def by (auto dest: map_of_SomeD)
  then show ?thesis using x by (auto simp: lookup0_def)
qed

lemma pipeline_prompt_carries:
  assumes "set (ps_DependsOn st) \<subseteq> pr_StepId ` set rs"
  shows "carries rs st (pipeline_prompt (outputs rs) st)"
proof -
  define ls where "ls = map (\<lambda>d. ''- '' @ d @ '': '' @ lookup0 [] (outputs rs) d @ [CHR 0x0A]) (ps_DependsOn st)"
  define hd where "hd = (if ps_Role st = [] then []
      else ''You are a pipeline subagent with role: '' @ ps_Role st @ [CHR ''.'', CHR 0x0A, CHR 0x0A] @ ''Task:'' @ [CHR 0x0A])"
  define tl where "tl = (if ps_DependsOn st = [] then [] else [CHR 0x0A, CHR 0x0A] @ ''Dependency outputs:'' @ [CHR 0x0A] @ concat ls)"
  have l: "list_all2 (\<lambda>d l. \<exists>r\<in>set rs. pr_StepId r = d \<and> l = ''- '' @ d @ '': '' @ pr_Summary r @ [CHR 0x0A]) (ps_DependsOn st) ls"
    unfolding ls_def list.rel_map
  proof (rule list.rel_refl_strong)
    fix d assume "d \<in> set (ps_DependsOn st)"
    then obtain r where "r \<in> set rs" "pr_StepId r = d" "lookup0 [] (outputs rs) d = pr_Summary r" using assms outputs_member by blast
    then show "\<exists>r\<in>set rs. pr_StepId r = d \<and>
        ''- '' @ d @ '': '' @ lookup0 [] (outputs rs) d @ [CHR 0x0A] = ''- '' @ d @ '': '' @ pr_Summary r @ [CHR 0x0A]" by metis
  qed
  have "if ps_DependsOn st = [] then tl = []
     else \<exists>ls. tl = [CHR 0x0A, CHR 0x0A] @ ''Dependency outputs:'' @ [CHR 0x0A] @ concat ls \<and>
       list_all2 (\<lambda>d l. \<exists>r\<in>set rs. pr_StepId r = d \<and> l = ''- '' @ d @ '': '' @ pr_Summary r @ [CHR 0x0A]) (ps_DependsOn st) ls"
  proof (cases "ps_DependsOn st = []")
    case False
    show ?thesis unfolding if_not_P [OF False] by (intro exI [of _ ls] conjI l) (simp only: tl_def if_not_P [OF False])
  qed (simp add: tl_def)
  moreover have "pipeline_prompt (outputs rs) st = hd @ ps_Task st @ tl" by (simp add: pipeline_prompt_def hd_def tl_def ls_def)
  ultimately show ?thesis unfolding carries_def hd_def by (intro exI [of _ hd] exI [of _ tl] conjI) (simp_all only: hd_def)
qed


section \<open>Examples\<close>

definition demo_request :: RunRequest where
  "demo_request = \<lparr> rq_RunId = ''run'', rq_UserId = ''u'', rq_Prompt = ''hi'', rq_Model = [], rq_TraceId = ''t'', rq_AgentId = [], rq_SystemPrompt = [] \<rparr>"

definition demo_channel :: "Event sel list" where
  "demo_channel = map Chan (run_events ''run'' (st_trace (snd (Run demo_agent demo_start demo_task)))) @ []"

definition demo_gateway :: "RunEvent list GatewayEnv" where
  "demo_gateway = \<lparr> gw_Recv = (\<lambda>s. (Inr demo_request, s)), gw_new_run = Pair ''run'', gw_new_trace = Pair ''t'',
     gw_Subscribe = (\<lambda>s r. (Inr demo_channel, s)), gw_Publish = (\<lambda>s t. (Inr ''1-0'', s)), gw_deadline = (\<lambda>s d. s), gw_hard_err = (\<lambda>s. []),
     gw_now = (\<lambda>s. 0), gw_Send = (\<lambda>s ev. (None, s @ [ev])), gw_runTimeout = 0 \<rparr>"

lemma demo_run_safe: "''run'' \<noteq> []" "fresh_ids demo_agent ''run''" "compaction_safe demo_agent" "run_events ''run'' (st_trace demo_start) = []"
  using demo_safe by (simp_all add: demo_task_def)

lemma demo_events_count:
  "length (run_events ''run'' (st_trace (snd (Run demo_agent demo_start demo_task)))) = 9"
  using arg_cong [where f = length, OF conjunct2 [OF conjunct2 [OF demo_run]]] by simp

theorem RunAgent_relays_run_witness:
  "\<exists>outs. RunAgent demo_gateway [] = Some (None, outs) \<and> length outs = 9 \<and> is_done_event (ev_Payload (last outs))"
proof -
  have t: "run_task ''run'' ''t'' demo_request = demo_task" by (simp add: run_task_def demo_request_def demo_task_def)
  have r: "Run demo_agent demo_start (run_task ''run'' ''t'' demo_request) = (None, snd (Run demo_agent demo_start demo_task))"
    using demo_run by (simp add: t prod_eq_iff)
  have "stream_laws demo_gateway id" by (simp add: stream_laws_def demo_gateway_def)
  from RunAgent_relays_run [OF this _ _ _ _ _ r demo_run_safe, of "[]" "[]" "[]" "[]" "[]" "''1-0''" "[]"] obtain outs
    where "RunAgent demo_gateway [] = Some (None, outs)"
      "list_all2 (client_gets ''run'' ''t'') (run_events ''run'' (st_trace (snd (Run demo_agent demo_start demo_task)))) outs"
      "is_done_event (ev_Payload (last outs))"
    by (auto simp: demo_gateway_def demo_request_def request_ids_def demo_channel_def)
  then show ?thesis using demo_events_count by (auto dest: list_all2_lengthD)
qed

definition demo_input :: RunInput where
  "demo_input = \<lparr> ri_RunID = ''run'', ri_TraceID = ''t'', ri_UserID = ''u'', ri_Prompt = ''hi'', ri_Model = [] \<rparr>"

definition demo_acp_gateway :: "byte list session GatewayEnv" where
  "demo_acp_gateway = \<lparr> gw_Recv = (\<lambda>s. (Inr demo_request, s)), gw_new_run = Pair ''run'', gw_new_trace = Pair ''t'',
     gw_Subscribe = (\<lambda>s r. (Inr demo_channel, s)), gw_Publish = (\<lambda>s t. (Inr ''1-0'', s)), gw_deadline = (\<lambda>s d. s), gw_hard_err = (\<lambda>s. []),
     gw_now = (\<lambda>s. 0), gw_Send = (\<lambda>s ev. (None, s)), gw_runTimeout = 0 \<rparr>"

theorem acpDispatcher_emits_witness:
  "acpDispatcher_Run demo_acp_gateway (emit echo_env) (newSession [] []) demo_input =
     Some (None, snd (emits echo_env (newSession [] []) (acp_events (run_events ''run'' (st_trace (snd (Run demo_agent demo_start demo_task))))))) \<and>
   map be_Kind (acp_events (run_events ''run'' (st_trace (snd (Run demo_agent demo_start demo_task))))) =
     [''state'', ''token'', ''state'', ''state'', ''token'', ''state'', ''done'']"
proof -
  have t: "acp_task demo_input = demo_task" by (simp add: acp_task_def demo_input_def demo_task_def)
  have r: "Run demo_agent demo_start (acp_task demo_input) = (None, snd (Run demo_agent demo_start demo_task))"
    using demo_run by (simp add: t prod_eq_iff)
  have i: "ri_RunID demo_input = ''run''" by (simp add: demo_input_def)
  have "acpDispatcher_Run demo_acp_gateway (emit echo_env) (newSession [] []) demo_input =
     Some (None, snd (emits echo_env (gw_deadline demo_acp_gateway (newSession [] []) (gw_timeout (gw_runTimeout demo_acp_gateway)))
       (acp_events (run_events (ri_RunID demo_input) (st_trace (snd (Run demo_agent demo_start demo_task)))))))"
    by (rule acpDispatcher_emits [OF _ _ r]) (use demo_run_safe in \<open>simp_all add: i demo_acp_gateway_def demo_channel_def\<close>)
  moreover have "be_Kind (mapQueueEventACP e) = (if e_Kind e = EventTool then [] else e_Kind e)"
    if "e \<in> set (run_events ''run'' (st_trace (snd (Run demo_agent demo_start demo_task))))" for e
  proof -
    have "e_Kind e \<in> set [EventState, EventToken, EventState, EventTool, EventTool, EventState, EventToken, EventState, EventDone]"
      unfolding conjunct2 [OF conjunct2 [OF demo_run], symmetric] using that by simp
    then show ?thesis by (auto simp: mapQueueEventACP_def event_kinds zero_business_def)
  qed
  then have "map be_Kind (acp_events (run_events ''run'' (st_trace (snd (Run demo_agent demo_start demo_task))))) =
      filter (\<lambda>k. k \<noteq> EventTool) (map e_Kind (run_events ''run'' (st_trace (snd (Run demo_agent demo_start demo_task)))))"
    by (simp add: acp_events_def filter_map o_def)
  ultimately show ?thesis using demo_run by (simp add: i demo_acp_gateway_def event_kinds)
qed

definition demo_yaml :: string where
  "demo_yaml = ''steps:'' @ [CHR 0x0A] @ ''- id: a'' @ [CHR 0x0A] @ ''  task: t'' @ [CHR 0x0A] @ ''- id: b'' @ [CHR 0x0A] @ ''  task: u'' @ [CHR 0x0A] @
     ''  depends_on: [a]''"

definition demo_a :: PipelineStep where
  "demo_a = \<lparr> ps_ID = ''a'', ps_Role = [], ps_Task = ''t'', ps_DependsOn = [] \<rparr>"

definition demo_b :: PipelineStep where
  "demo_b = \<lparr> ps_ID = ''b'', ps_Role = [], ps_Task = ''u'', ps_DependsOn = [''a''] \<rparr>"

lemma demo_lines: "scan_raw_lines demo_yaml = [''steps:'', ''- id: a'', ''  task: t'', ''- id: b'', ''  task: u'', ''  depends_on: [a]'']"
  by code_simp

lemma demo_line1: "parse_line s ''steps:'' = s"
  by (simp add: parse_line_def text_eval Let_def)

lemma demo_line2:
  "parse_line s ''- id: a'' = s\<lparr> pz_Steps := flush_cur s, pz_cur := Some (zero_step\<lparr> ps_ID := ''a'' \<rparr>) \<rparr>"
  "parse_line s ''- id: b'' = s\<lparr> pz_Steps := flush_cur s, pz_cur := Some (zero_step\<lparr> ps_ID := ''b'' \<rparr>) \<rparr>"
  by (simp_all add: parse_line_def text_eval Let_def cleanYAMLValue_def)

lemma demo_line3:
  "pz_cur s = Some c \<Longrightarrow> parse_line s ''  task: t'' = s\<lparr> pz_cur := Some (c\<lparr> ps_Task := ''t'' \<rparr>) \<rparr>"
  "pz_cur s = Some c \<Longrightarrow> parse_line s ''  task: u'' = s\<lparr> pz_cur := Some (c\<lparr> ps_Task := ''u'' \<rparr>) \<rparr>"
  by (simp_all add: parse_line_def text_eval Let_def cleanYAMLValue_def)

lemma demo_line4: "pz_cur s = Some c \<Longrightarrow> parse_line s ''  depends_on: [a]'' = s\<lparr> pz_cur := Some (c\<lparr> ps_DependsOn := [''a''] \<rparr>) \<rparr>"
  by (simp add: parse_line_def text_eval Let_def parseList_def cleanYAMLValue_def)

lemma demo_topo: "TopologicalOrder \<lparr> pl_Name = ''pipeline'', pl_Steps = [demo_a, demo_b] \<rparr> = Inr [demo_a, demo_b]"
  by (simp add: TopologicalOrder_def topo_ids_def demo_a_def demo_b_def children_of_def indeg_of_def byID_def)

lemma demo_pipeline_parse:
  "ParsePipeline demo_yaml = (\<lparr> pl_Name = ''pipeline'', pl_Steps = [demo_a, demo_b] \<rparr>, None)"
proof -
  have "foldl parse_line \<lparr> pz_Name = [], pz_Steps = [], pz_cur = None \<rparr> (map drop_cr (scan_raw_lines demo_yaml)) =
      \<lparr> pz_Name = [], pz_Steps = [demo_a], pz_cur = Some demo_b \<rparr>"
    by (simp add: demo_lines drop_cr_def demo_line1 demo_line2 demo_line3 demo_line4 flush_cur_def zero_step_def demo_a_def demo_b_def)
  moreover have "ValidatePipeline \<lparr> pl_Name = ''pipeline'', pl_Steps = [demo_a, demo_b] \<rparr> = None"
    by (simp add: ValidatePipeline_def demo_topo)
      (simp add: demo_a_def demo_b_def text_eval demo_topo [unfolded demo_a_def demo_b_def])
  ultimately show ?thesis
    by (simp add: ParsePipeline_def Let_def flush_cur_def) (simp add: demo_lines MaxScanTokenSize_def)
qed

definition demo_pipe_gateway :: "Task list GatewayEnv" where
  "demo_pipe_gateway = \<lparr> gw_Recv = (\<lambda>s. (Inr demo_request, s)), gw_new_run = Pair ''run'', gw_new_trace = Pair ''t'',
     gw_Subscribe = (\<lambda>s r. (Inr [Chan (zero_event\<lparr> e_Kind := EventToken, e_Text := ''ok'' \<rparr>), Chan (zero_event\<lparr> e_Kind := EventDone \<rparr>)], s)),
     gw_Publish = (\<lambda>s t. (Inr ''1-0'', s @ [t])), gw_deadline = (\<lambda>s d. s), gw_hard_err = (\<lambda>s. []),
     gw_now = (\<lambda>s. 0), gw_Send = (\<lambda>s ev. (None, s)), gw_runTimeout = 0 \<rparr>"

definition demo_pipe_request :: PipelineRequest where
  "demo_pipe_request = \<lparr> pq_UserId = ''u'', pq_Model = [], pq_SpecYaml = demo_yaml, pq_TraceId = ''t'' \<rparr>"


end
