(* ===== verification/Scheduler.thy ===== *)
theory Scheduler
  imports History GoNumber "HOL-Library.Product_Lexorder"
begin

text \<open>
  internal/scheduler: the registry of live workers (scheduler.go, inmemory.go). Every worker is a JSON document under a key that expires,
  and a member of one set. Redis is outside: an environment record with the commands the code sends and the laws sched_laws; the
  passing of time is the step that lets keys expire.
\<close>

section \<open>Workers\<close>

text \<open>A time.Time is the text encoding/json gives it. Labels is None for a nil map.\<close>

record WorkerInfo =
  wi_WorkerID :: string
  wi_Addr :: string
  wi_Concurrency :: int
  wi_Labels :: "tags option"
  wi_UpdatedAt :: string
  wi_InFlight :: int
  wi_Load :: rat

definition zero_worker :: WorkerInfo where
  "zero_worker = \<lparr> wi_WorkerID = [], wi_Addr = [], wi_Concurrency = 0, wi_Labels = None, wi_UpdatedAt = ''0001-01-01T00:00:00Z'',
     wi_InFlight = 0, wi_Load = 0 \<rparr>"

text \<open>A load as the RPC carries it.\<close>

datatype float64 = Finite rat | Infinite bool | NotANumber

definition labels_json :: "tags option \<Rightarrow> json" where
  "labels_json l = (case l of None \<Rightarrow> JNull | Some ts \<Rightarrow> JObj (map (\<lambda>(k, v). (k, JStr v)) ts))"

definition WorkerInfo_fields :: "WorkerInfo \<Rightarrow> (string \<times> bool \<times> json) list" where
  "WorkerInfo_fields w = [
     (''WorkerID'', False, JStr (wi_WorkerID w)),
     (''Addr'', False, JStr (wi_Addr w)),
     (''Concurrency'', False, enc_int (wi_Concurrency w)),
     (''Labels'', False, labels_json (wi_Labels w)),
     (''UpdatedAt'', False, JStr (wi_UpdatedAt w)),
     (''InFlight'', False, enc_int (wi_InFlight w)),
     (''Load'', False, JNum (json_float (wi_Load w)))]"

definition WorkerInfo_Marshal :: "WorkerInfo \<Rightarrow> string" where
  "WorkerInfo_Marshal w = Marshal (struct_obj (WorkerInfo_fields w))"

definition dec_int32 :: "json \<Rightarrow> int option" where
  "dec_int32 j = (case dec_int j of None \<Rightarrow> None | Some i \<Rightarrow> if - (2 ^ 31) \<le> i \<and> i < 2 ^ 31 then Some i else None)"

definition dec_labels :: "json \<Rightarrow> tags option option" where
  "dec_labels j = map_option Some (dec_tags j)"

definition dec_time :: "(string \<Rightarrow> bool) \<Rightarrow> json \<Rightarrow> string option" where
  "dec_time T j = (case j of JStr s \<Rightarrow> if T s then Some s else None | _ \<Rightarrow> None)"

definition dec_float :: "json \<Rightarrow> rat option" where
  "dec_float j = (case j of JNum l \<Rightarrow> ParseFloat64 l | _ \<Rightarrow> None)"

text \<open>T says which texts UnmarshalJSON of time.Time accepts.\<close>

definition WorkerInfo_of :: "(string \<Rightarrow> bool) \<Rightarrow> json \<Rightarrow> WorkerInfo option" where
  "WorkerInfo_of T j = Option.bind (members j) (\<lambda>m.
     Option.bind (field dec_str m ''WorkerID'' []) (\<lambda>x0.
     Option.bind (field dec_str m ''Addr'' []) (\<lambda>x1.
     Option.bind (field dec_int32 m ''Concurrency'' 0) (\<lambda>x2.
     Option.bind (field dec_labels m ''Labels'' None) (\<lambda>x3.
     Option.bind (field (dec_time T) m ''UpdatedAt'' (wi_UpdatedAt zero_worker)) (\<lambda>x4.
     Option.bind (field dec_int32 m ''InFlight'' 0) (\<lambda>x5.
     Option.bind (field dec_float m ''Load'' 0) (\<lambda>x6.
     Some \<lparr> wi_WorkerID = x0, wi_Addr = x1, wi_Concurrency = x2, wi_Labels = x3, wi_UpdatedAt = x4, wi_InFlight = x5, wi_Load = x6 \<rparr>))))))))"

definition WorkerInfo_Unmarshal :: "(string \<Rightarrow> bool) \<Rightarrow> string \<Rightarrow> WorkerInfo option" where
  "WorkerInfo_Unmarshal T s = Option.bind (json_parse s) (WorkerInfo_of T)"

section \<open>The registry\<close>

datatype sched_cmd =
    SetEx string string int
  | SAdd string string
  | SRem string string

record 'r SchedEnv =
  sc_now :: "'r \<Rightarrow> string"
  sc_time_ok :: "string \<Rightarrow> bool"
  sc_exec :: "'r \<Rightarrow> sched_cmd list \<Rightarrow> string option \<times> 'r"
  sc_get :: "'r \<Rightarrow> string \<Rightarrow> (string, string option) result"
  sc_smembers :: "'r \<Rightarrow> string \<Rightarrow> (string, string list) result"

datatype sched_error =
    SchedRedis string
  | RedisNil
  | SchedDecode string
  | NoLiveWorkers

definition worker_ttl :: "int \<Rightarrow> int" where
  "worker_ttl ttl = (if ttl \<le> 0 then 15 * 1000000000 else ttl)"

definition RedisScheduler_Register :: "'r SchedEnv \<Rightarrow> 'r \<Rightarrow> WorkerInfo \<Rightarrow> int \<Rightarrow> sched_error option \<times> 'r" where
  "RedisScheduler_Register E r info0 ttl =
     (let info = info0\<lparr> wi_UpdatedAt := sc_now E r \<rparr>;
          (err, r1) = sc_exec E r [SetEx (WorkerKey (wi_WorkerID info)) (WorkerInfo_Marshal info) (worker_ttl ttl),
                                   SAdd WorkerSet (wi_WorkerID info)]
      in (map_option SchedRedis err, r1))"

text \<open>A load encoding/json cannot write makes Marshal fail; its error is dropped and the payload is empty.\<close>

definition heartbeat_payload :: "WorkerInfo \<Rightarrow> float64 \<Rightarrow> string" where
  "heartbeat_payload info ld = (case ld of Finite x \<Rightarrow> WorkerInfo_Marshal (info\<lparr> wi_Load := x \<rparr>) | _ \<Rightarrow> [])"

definition RedisScheduler_Heartbeat :: "'r SchedEnv \<Rightarrow> 'r \<Rightarrow> string \<Rightarrow> int \<Rightarrow> float64 \<Rightarrow> int \<Rightarrow> sched_error option \<times> 'r" where
  "RedisScheduler_Heartbeat E r workerID inFlight ld ttl =
     (let key = WorkerKey workerID in
      case sc_get E r key of
        Inl e \<Rightarrow> (Some (SchedRedis e), r)
      | Inr None \<Rightarrow> (Some RedisNil, r)
      | Inr (Some raw) \<Rightarrow>
          (case WorkerInfo_Unmarshal (sc_time_ok E) raw of
             None \<Rightarrow> (Some (SchedDecode raw), r)
           | Some info \<Rightarrow>
               (let (err, r1) = sc_exec E r [SetEx key
                      (heartbeat_payload (info\<lparr> wi_InFlight := inFlight, wi_UpdatedAt := sc_now E r \<rparr>) ld) (worker_ttl ttl)]
                in (map_option SchedRedis err, r1))))"

text \<open>The loop over the members: a key that cannot be read is taken for expired and its member removed.\<close>

fun list_workers :: "'r SchedEnv \<Rightarrow> 'r \<Rightarrow> string list \<Rightarrow> WorkerInfo list \<times> 'r" where
  "list_workers E r [] = ([], r)"
| "list_workers E r (i # ids) =
     (case sc_get E r (WorkerKey i) of
        Inr (Some raw) \<Rightarrow>
          (let (ws, r1) = list_workers E r ids
           in (case WorkerInfo_Unmarshal (sc_time_ok E) raw of None \<Rightarrow> ws | Some info \<Rightarrow> info # ws, r1))
      | _ \<Rightarrow> list_workers E (snd (sc_exec E r [SRem WorkerSet i])) ids)"

definition RedisScheduler_List :: "'r SchedEnv \<Rightarrow> 'r \<Rightarrow> (sched_error, WorkerInfo list) result \<times> 'r" where
  "RedisScheduler_List E r =
     (case sc_smembers E r WorkerSet of
        Inl e \<Rightarrow> (Inl (SchedRedis e), r)
      | Inr ids \<Rightarrow> (let (ws, r1) = list_workers E r ids in (Inr ws, r1)))"

text \<open>The order of Pick: least load, least in flight, most concurrency, least id. Workers it does not tell apart have the same id, so
  that the order sort.Slice leaves them in does not matter.\<close>

definition rank :: "WorkerInfo \<Rightarrow> rat \<times> int \<times> int \<times> string" where
  "rank w = (wi_Load w, wi_InFlight w, - wi_Concurrency w, wi_WorkerID w)"

definition RedisScheduler_Pick :: "'r SchedEnv \<Rightarrow> 'r \<Rightarrow> string \<Rightarrow> (sched_error, string) result \<times> 'r" where
  "RedisScheduler_Pick E r runID =
     (case RedisScheduler_List E r of
        (Inl e, r1) \<Rightarrow> (Inl e, r1)
      | (Inr ws, r1) \<Rightarrow> if ws = [] then (Inl NoLiveWorkers, r1) else (Inr (wi_WorkerID (hd (sort_key rank ws))), r1))"

section \<open>The codec\<close>

definition WorkerInfo_ok :: "(string \<Rightarrow> bool) \<Rightarrow> WorkerInfo \<Rightarrow> bool" where
  "WorkerInfo_ok T w = (ValidString (wi_WorkerID w) \<and> ValidString (wi_Addr w) \<and>
     - (2 ^ 31) \<le> wi_Concurrency w \<and> wi_Concurrency w < 2 ^ 31 \<and>
     (\<forall>ts. wi_Labels w = Some ts \<longrightarrow> tags_wf ts \<and> list_all (\<lambda>(k, v). ValidString k \<and> ValidString v) ts) \<and>
     ValidString (wi_UpdatedAt w) \<and> T (wi_UpdatedAt w) \<and> - (2 ^ 31) \<le> wi_InFlight w \<and> wi_InFlight w < 2 ^ 31 \<and>
     f64 (wi_Load w) = wi_Load w \<and> \<bar>wi_Load w\<bar> \<le> max_float)"

lemma WorkerInfo_tags: "tags_distinct (map fst (WorkerInfo_fields w))"
  by (simp add: WorkerInfo_fields_def tags_distinct_ascii upper_ascii_def ord_def)

lemma labels_json_ok: "(\<forall>ts. l = Some ts \<longrightarrow> list_all (\<lambda>(k, v). ValidString k \<and> ValidString v) ts) \<Longrightarrow> json_ok (labels_json l)"
  by (auto simp: labels_json_def list_all_iff split: option.splits)

lemma WorkerInfo_json_ok: "WorkerInfo_ok T w \<Longrightarrow> json_ok (struct_obj (WorkerInfo_fields w))"
  by (rule json_ok_struct)
    (simp add: WorkerInfo_ok_def WorkerInfo_fields_def ValidString_ascii ord_def labels_json_ok num_ok_json_float)

lemma WorkerInfo_names: "map fst (WorkerInfo_fields w) =
  [''WorkerID'', ''Addr'', ''Concurrency'', ''Labels'', ''UpdatedAt'', ''InFlight'', ''Load'']"
  by (simp add: WorkerInfo_fields_def)

lemma dec_int32_enc: "- (2 ^ 31) \<le> i \<Longrightarrow> i < 2 ^ 31 \<Longrightarrow> dec_int32 (enc_int i) = Some i"
  by (simp add: dec_int32_def dec_int_enc int64_def)

lemma struct_get_worker:
  "- (2 ^ 31) \<le> i \<Longrightarrow> i < 2 ^ 31 \<Longrightarrow> struct_get dec_int32 ((t, False, enc_int i) # fs) t j = Some i"
  "(\<forall>ts. l = Some ts \<longrightarrow> tags_wf ts) \<Longrightarrow> struct_get dec_labels ((t, False, labels_json l) # fs) t None = Some l"
  "T u \<Longrightarrow> struct_get (dec_time T) ((t, False, JStr u) # fs) t v = Some u"
  "f64 x = x \<Longrightarrow> \<bar>x\<bar> \<le> max_float \<Longrightarrow> struct_get dec_float ((t, False, JNum (json_float x)) # fs) t y = Some x"
  by (auto simp: struct_get.simps(2) dec_int32_enc labels_json_def dec_labels_def dec_tags_enc dec_time_def dec_float_def
      ParseFloat64_json_float split: option.splits)

lemma WorkerInfo_of_json: "WorkerInfo_ok T w \<Longrightarrow> WorkerInfo_of T (struct_obj (WorkerInfo_fields w)) = Some w"
  by (simp add: WorkerInfo_of_def members_struct_obj field_struct [OF WorkerInfo_tags] WorkerInfo_names)
    (simp add: WorkerInfo_fields_def WorkerInfo_ok_def struct_get_rules struct_get_worker)

lemma WorkerInfo_roundtrip: "WorkerInfo_ok T w \<Longrightarrow> WorkerInfo_Unmarshal T (WorkerInfo_Marshal w) = Some w"
  by (simp add: WorkerInfo_Unmarshal_def WorkerInfo_Marshal_def json_parse_Marshal WorkerInfo_json_ok WorkerInfo_of_json)

end
