(* ===== verification/SchedulerProps.thy ===== *)
theory SchedulerProps
  imports Scheduler
begin

text \<open>
  What the registry guarantees: after any sequence of requests and expiries Pick returns a least-loaded worker among the live ones, and
  what a failed read does to a worker.
\<close>

section \<open>Redis\<close>

type_synonym keys = "string \<rightharpoonup> string"
type_synonym sets = "string \<Rightarrow> string set"

fun apply_sched :: "keys \<times> sets \<Rightarrow> sched_cmd \<Rightarrow> keys \<times> sets" where
  "apply_sched (kv, ss) (SetEx k v ttl) = (kv(k \<mapsto> v), ss)"
| "apply_sched (kv, ss) (SAdd k m) = (kv, ss(k := insert m (ss k)))"
| "apply_sched (kv, ss) (SRem k m) = (kv, ss(k := ss k - {m}))"

text \<open>Redis on the keys that have not expired, as kv and ss show them. A transaction that reports an error was executed or not.\<close>

definition sched_laws :: "'r SchedEnv \<Rightarrow> ('r \<Rightarrow> keys) \<Rightarrow> ('r \<Rightarrow> sets) \<Rightarrow> bool" where
  "sched_laws E kv ss \<longleftrightarrow>
     (\<forall>r k v. sc_get E r k = Inr v \<longrightarrow> v = kv r k) \<and>
     (\<forall>r k ids. sc_smembers E r k = Inr ids \<longrightarrow> distinct ids \<and> set ids = ss r k) \<and>
     (\<forall>r cs r'. sc_exec E r cs = (None, r') \<longrightarrow> (kv r', ss r') = foldl apply_sched (kv r, ss r) cs) \<and>
     (\<forall>r cs e r'. sc_exec E r cs = (Some e, r') \<longrightarrow> (kv r', ss r') = (kv r, ss r) \<or> (kv r', ss r') = foldl apply_sched (kv r, ss r) cs) \<and>
     (\<forall>r. sc_time_ok E (sc_now E r) \<and> ValidString (sc_now E r))"

definition reads_succeed :: "'r SchedEnv \<Rightarrow> bool" where
  "reads_succeed E \<longleftrightarrow> (\<forall>r k. is_ok (sc_get E r k)) \<and> (\<forall>r k. is_ok (sc_smembers E r k))"

text \<open>The workers that are members and whose key is there.\<close>

definition live :: "'r SchedEnv \<Rightarrow> ('r \<Rightarrow> keys) \<Rightarrow> ('r \<Rightarrow> sets) \<Rightarrow> 'r \<Rightarrow> string \<rightharpoonup> WorkerInfo" where
  "live E kv ss r i = (if i \<in> ss r WorkerSet then Option.bind (kv r (WorkerKey i)) (WorkerInfo_Unmarshal (sc_time_ok E)) else None)"

text \<open>Every worker key holds the document of the worker it is named after, or nothing readable.\<close>

definition reg_inv :: "'r SchedEnv \<Rightarrow> ('r \<Rightarrow> keys) \<Rightarrow> 'r \<Rightarrow> bool" where
  "reg_inv E kv r \<longleftrightarrow> (\<forall>i raw. kv r (WorkerKey i) = Some raw \<longrightarrow>
     raw = [] \<or> (\<exists>w. raw = WorkerInfo_Marshal w \<and> WorkerInfo_ok (sc_time_ok E) w \<and> wi_WorkerID w = i))"

lemma WorkerKey_inj [simp]: "WorkerKey i = WorkerKey j \<longleftrightarrow> i = j"
  by (simp add: WorkerKey_def)

lemma Unmarshal_empty [simp]: "WorkerInfo_Unmarshal T [] = None"
  by (simp add: WorkerInfo_Unmarshal_def json_parse_def skip_ws_def)

lemma live_Some:
  assumes "reg_inv E kv r" "live E kv ss r i = Some w"
  shows "wi_WorkerID w = i \<and> WorkerInfo_ok (sc_time_ok E) w \<and> i \<in> ss r WorkerSet \<and> kv r (WorkerKey i) = Some (WorkerInfo_Marshal w)"
proof -
  obtain raw where raw: "i \<in> ss r WorkerSet" "kv r (WorkerKey i) = Some raw" "WorkerInfo_Unmarshal (sc_time_ok E) raw = Some w"
    using assms(2) by (auto simp: live_def bind_eq_Some_conv split: if_splits)
  then obtain v where "raw = WorkerInfo_Marshal v" "WorkerInfo_ok (sc_time_ok E) v" "wi_WorkerID v = i"
    using assms(1) unfolding reg_inv_def by fastforce
  then show ?thesis using raw WorkerInfo_roundtrip by auto
qed

section \<open>Interface\<close>

text \<open>The contract of List as Pick and the RPC service use it.\<close>

locale worker_listing =
  fixes inv :: "'r \<Rightarrow> bool"
    and workers :: "'r \<Rightarrow> string \<rightharpoonup> WorkerInfo"
    and listing :: "'r \<Rightarrow> (sched_error, WorkerInfo list) result \<times> 'r"
  assumes id_law: "inv r \<Longrightarrow> workers r i = Some w \<Longrightarrow> wi_WorkerID w = i"
    and list_ok: "inv r \<Longrightarrow> \<exists>ws r'. listing r = (Inr ws, r')"
    and list_law: "inv r \<Longrightarrow> listing r = (Inr ws, r') \<Longrightarrow> inv r' \<and> workers r' = workers r \<and> set ws = ran (workers r)"
begin

lemma least_worker:
  assumes "inv r" "listing r = (Inr ws, r')" "ws \<noteq> []"
  shows "\<exists>w. workers r (wi_WorkerID (hd (sort_key rank ws))) = Some w \<and> (\<forall>i v. workers r i = Some v \<longrightarrow> rank w \<le> rank v)"
proof -
  have "sort_key rank ws \<noteq> []" using assms(3) by (metis length_sort length_0_conv)
  then obtain w rest where w: "sort_key rank ws = w # rest" by (cases "sort_key rank ws") auto
  have s: "set (sort_key rank ws) = ran (workers r)" using list_law [OF assms(1,2)] by simp
  have "rank w \<le> rank v" if "v \<in> set ws" for v
    using sorted_sort_key [of rank ws] that set_sort [of rank ws] unfolding w by auto
  then have "\<forall>i v. workers r i = Some v \<longrightarrow> rank w \<le> rank v" using list_law [OF assms(1,2)] by (metis ranI)
  moreover have "w \<in> ran (workers r)" using s w by auto
  ultimately show ?thesis using id_law [OF assms(1)] w by (auto simp: ran_def)
qed

lemma no_worker: "inv r \<Longrightarrow> listing r = (Inr ws, r') \<Longrightarrow> ws = [] \<longleftrightarrow> workers r = Map.empty"
  by (drule (1) list_law) (auto simp: ran_def fun_eq_iff simp flip: set_empty)

end

section \<open>The registry keeps the contract\<close>

lemma sched_lawsD:
  assumes "sched_laws E kv ss"
  shows "sc_get E r k = Inr v \<Longrightarrow> v = kv r k"
    and "sc_smembers E r k = Inr ids \<Longrightarrow> distinct ids \<and> set ids = ss r k"
    and "sc_exec E r cs = (None, r') \<Longrightarrow> (kv r', ss r') = foldl apply_sched (kv r, ss r) cs"
    and "sc_exec E r cs = (err, r') \<Longrightarrow> (kv r', ss r') = (kv r, ss r) \<or> (kv r', ss r') = foldl apply_sched (kv r, ss r) cs"
    and "sc_time_ok E (sc_now E r) \<and> ValidString (sc_now E r)"
  using assms unfolding sched_laws_def by (blast, blast, blast, (cases err, blast, blast), blast)

text \<open>What the loop of List does to Redis, whatever fails.\<close>

lemma list_workers_frame:
  assumes "sched_laws E kv ss" "list_workers E r ids = (ws, r')"
  shows "kv r' = kv r \<and> ss r' WorkerSet \<subseteq> ss r WorkerSet"
  using assms(2)
proof (induction ids arbitrary: r ws)
  case (Cons i ids)
  have rem: "kv r1 = kv r \<and> ss r1 WorkerSet \<subseteq> ss r WorkerSet" if "sc_exec E r [SRem WorkerSet i] = (e, r1)" for e r1
    using sched_lawsD(4) [OF assms(1) that] by auto
  show ?case
  proof (cases "\<exists>raw. sc_get E r (WorkerKey i) = Inr (Some raw)")
    case True
    then obtain ws1 where "list_workers E r ids = (ws1, r')" using Cons.prems by (auto split: prod.splits)
    then show ?thesis by (rule Cons.IH)
  next
    case False
    obtain e r1 where x: "sc_exec E r [SRem WorkerSet i] = (e, r1)" by fastforce
    have "list_workers E r1 ids = (ws, r')"
      using Cons.prems False x by (auto split: sum.splits option.splits)
    from Cons.IH [OF this] show ?thesis using rem [OF x] by auto
  qed
qed simp

lemma list_workers_live:
  assumes "sched_laws E kv ss" "reads_succeed E" "list_workers E r ids = (ws, r')"
  shows "ws = List.map_filter (\<lambda>i. Option.bind (kv r (WorkerKey i)) (WorkerInfo_Unmarshal (sc_time_ok E))) ids \<and>
    (\<forall>i. i \<in> ss r WorkerSet \<longrightarrow> kv r (WorkerKey i) \<noteq> None \<longrightarrow> i \<in> ss r' WorkerSet)"
  using assms(3)
proof (induction ids arbitrary: r ws)
  case (Cons i ids)
  obtain v where g: "sc_get E r (WorkerKey i) = Inr v"
    using assms(2) unfolding reads_succeed_def by (cases "sc_get E r (WorkerKey i)") (metis is_ok_simps(1), blast)
  have v: "v = kv r (WorkerKey i)" by (rule sched_lawsD(1) [OF assms(1) g])
  show ?case
  proof (cases v)
    case None
    obtain e r1 where x: "sc_exec E r [SRem WorkerSet i] = (e, r1)" by fastforce
    have f: "kv r1 = kv r" "\<forall>j. j \<in> ss r WorkerSet \<longrightarrow> j \<noteq> i \<longrightarrow> j \<in> ss r1 WorkerSet" using sched_lawsD(4) [OF assms(1) x] by auto
    have "list_workers E r1 ids = (ws, r')" using Cons.prems g None x by simp
    from Cons.IH [OF this] show ?thesis using f v None by (auto simp: map_filter_simps)
  next
    case (Some raw)
    obtain ws1 where w: "list_workers E r ids = (ws1, r')"
      using Cons.prems g Some by (auto split: prod.splits)
    then have "ws = (case WorkerInfo_Unmarshal (sc_time_ok E) raw of None \<Rightarrow> ws1 | Some info \<Rightarrow> info # ws1)"
      using Cons.prems g Some by simp
    moreover have "kv r (WorkerKey i) = Some raw" using v Some by simp
    ultimately show ?thesis using Cons.IH [OF w] by (auto simp: map_filter_simps split: option.splits)
  qed
qed (simp add: map_filter_simps)

lemma ListWorkers_law:
  assumes "sched_laws E kv ss" "reads_succeed E" "RedisScheduler_List E r = (Inr ws, r')"
  shows "kv r' = kv r \<and> live E kv ss r' = live E kv ss r \<and> set ws = ran (live E kv ss r)"
proof -
  obtain ids where ids: "sc_smembers E r WorkerSet = Inr ids" "list_workers E r ids = (ws, r')"
    using assms(3) by (auto simp: RedisScheduler_List_def split: sum.splits prod.splits)
  have s: "set ids = ss r WorkerSet" using sched_lawsD(2) [OF assms(1) ids(1)] by simp
  note f = list_workers_frame [OF assms(1) ids(2)] list_workers_live [OF assms(1,2) ids(2)]
  have "live E kv ss r' i = live E kv ss r i" for i
    using f by (cases "kv r (WorkerKey i)") (auto simp: live_def)
  moreover have "set ws = ran (live E kv ss r)"
    using f(2) s by (force simp: ran_def live_def map_filter_def image_iff)
  ultimately show ?thesis using f(1) by auto
qed

locale sched_redis =
  fixes E :: "'r SchedEnv" and kv :: "'r \<Rightarrow> keys" and ss :: "'r \<Rightarrow> sets"
  assumes laws: "sched_laws E kv ss" and reads: "reads_succeed E"

sublocale sched_redis \<subseteq> worker_listing "reg_inv E kv" "live E kv ss" "RedisScheduler_List E"
proof
  show "wi_WorkerID w = i" if "reg_inv E kv r" "live E kv ss r i = Some w" for r i w
    using live_Some [OF that] by simp
  show "\<exists>ws r'. RedisScheduler_List E r = (Inr ws, r')" for r
    using reads unfolding reads_succeed_def
    by (cases "sc_smembers E r WorkerSet") (metis is_ok_simps(1), simp add: RedisScheduler_List_def split: prod.splits)
  show "reg_inv E kv r' \<and> live E kv ss r' = live E kv ss r \<and> set ws = ran (live E kv ss r)"
    if "reg_inv E kv r" "RedisScheduler_List E r = (Inr ws, r')" for r ws r'
    using ListWorkers_law [OF laws reads that(2)] that(1) by (simp add: reg_inv_def)
qed


context sched_redis
begin

lemma Pick_cases:
  assumes "reg_inv E kv r" "RedisScheduler_Pick E r runID = (x, r')"
  shows "kv r' = kv r \<and> (case x of
      Inl e \<Rightarrow> e = NoLiveWorkers \<and> live E kv ss r = Map.empty
    | Inr i \<Rightarrow> \<exists>w. live E kv ss r i = Some w \<and> (\<forall>j v. live E kv ss r j = Some v \<longrightarrow> rank w \<le> rank v))"
proof -
  obtain ws r1 where l: "RedisScheduler_List E r = (Inr ws, r1)" using list_ok [OF assms(1)] by blast
  have "kv r1 = kv r" using ListWorkers_law [OF laws reads l] by simp
  then show ?thesis
    using assms(2) l least_worker [OF assms(1) l] no_worker [OF assms(1) l] by (auto simp: RedisScheduler_Pick_def split: if_splits)
qed

end

section \<open>Histories of requests\<close>

datatype sched_label =
    LRegister WorkerInfo int
  | LHeartbeat string int float64 int
  | LList
  | LPick string
  | LExpire

text \<open>What a registration and a heartbeat can carry: the fields of protobuf messages.\<close>

definition registrable :: "WorkerInfo \<Rightarrow> bool" where
  "registrable w = (ValidString (wi_WorkerID w) \<and> ValidString (wi_Addr w) \<and>
     - (2 ^ 31) \<le> wi_Concurrency w \<and> wi_Concurrency w < 2 ^ 31 \<and>
     (\<forall>ts. wi_Labels w = Some ts \<longrightarrow> tags_wf ts \<and> list_all (\<lambda>(k, v). ValidString k \<and> ValidString v) ts) \<and>
     wi_InFlight w = 0 \<and> wi_Load w = 0)"

definition double :: "float64 \<Rightarrow> bool" where
  "double l = (case l of Finite x \<Rightarrow> f64 x = x \<and> \<bar>x\<bar> \<le> max_float | _ \<Rightarrow> True)"

inductive sched_step :: "'r SchedEnv \<Rightarrow> ('r \<Rightarrow> keys) \<Rightarrow> ('r \<Rightarrow> sets) \<Rightarrow> 'r \<Rightarrow> sched_label \<Rightarrow> 'r \<Rightarrow> bool" for E kv ss where
  register: "registrable info \<Longrightarrow> RedisScheduler_Register E r info ttl = (e, r') \<Longrightarrow> sched_step E kv ss r (LRegister info ttl) r'"
| heartbeat: "- (2 ^ 31) \<le> n \<Longrightarrow> n < 2 ^ 31 \<Longrightarrow> double ld \<Longrightarrow> RedisScheduler_Heartbeat E r i n ld ttl = (e, r') \<Longrightarrow>
    sched_step E kv ss r (LHeartbeat i n ld ttl) r'"
| list: "RedisScheduler_List E r = (x, r') \<Longrightarrow> sched_step E kv ss r LList r'"
| pick: "RedisScheduler_Pick E r runID = (x, r') \<Longrightarrow> sched_step E kv ss r (LPick runID) r'"
| expire: "kv r' \<subseteq>\<^sub>m kv r \<Longrightarrow> ss r' = ss r \<Longrightarrow> sched_step E kv ss r LExpire r'"

definition document :: "'r SchedEnv \<Rightarrow> string \<Rightarrow> string \<Rightarrow> bool" where
  "document E i raw \<longleftrightarrow> raw = [] \<or> (\<exists>w. raw = WorkerInfo_Marshal w \<and> WorkerInfo_ok (sc_time_ok E) w \<and> wi_WorkerID w = i)"

lemma reg_inv_update:
  assumes "reg_inv E kv r" "kv r' = kv r \<or> kv r' = (kv r)(WorkerKey i \<mapsto> d)" "document E i d"
  shows "reg_inv E kv r'"
  using assms unfolding reg_inv_def document_def [symmetric] by (elim disjE) (simp_all split: if_splits)

lemma Register_inv:
  assumes "sched_laws E kv ss" "reg_inv E kv r" "registrable info" "RedisScheduler_Register E r info ttl = (e, r')"
  shows "reg_inv E kv r' \<and> ss r' WorkerSet \<subseteq> insert (wi_WorkerID info) (ss r WorkerSet)"
proof -
  define w where "w = info\<lparr> wi_UpdatedAt := sc_now E r \<rparr>"
  have ok: "WorkerInfo_ok (sc_time_ok E) w"
    using assms(3) sched_lawsD(5) [OF assms(1), of r] by (simp add: registrable_def WorkerInfo_ok_def w_def f64_def round_to_def max_float_def)
  obtain err where x: "sc_exec E r [SetEx (WorkerKey (wi_WorkerID w)) (WorkerInfo_Marshal w) (worker_ttl ttl), SAdd WorkerSet (wi_WorkerID w)] = (err, r')"
    using assms(4) by (auto simp: RedisScheduler_Register_def w_def Let_def split: prod.splits)
  from sched_lawsD(4) [OF assms(1) x]
  have "kv r' = kv r \<or> kv r' = (kv r)(WorkerKey (wi_WorkerID w) \<mapsto> WorkerInfo_Marshal w)"
    "ss r' WorkerSet \<subseteq> insert (wi_WorkerID w) (ss r WorkerSet)" by auto
  moreover have "document E (wi_WorkerID w) (WorkerInfo_Marshal w)" using ok by (auto simp: document_def)
  ultimately show ?thesis using reg_inv_update [OF assms(2)] by (simp add: w_def)
qed

lemma Heartbeat_inv:
  assumes "sched_laws E kv ss" "reg_inv E kv r" "- (2 ^ 31) \<le> n" "n < 2 ^ 31" "double ld" "RedisScheduler_Heartbeat E r i n ld ttl = (e, r')"
  shows "reg_inv E kv r' \<and> ss r' = ss r"
proof (cases "\<exists>raw w. sc_get E r (WorkerKey i) = Inr (Some raw) \<and> WorkerInfo_Unmarshal (sc_time_ok E) raw = Some w")
  case True
  then obtain raw w where g: "sc_get E r (WorkerKey i) = Inr (Some raw)" "WorkerInfo_Unmarshal (sc_time_ok E) raw = Some w" by blast
  define v where "v = w\<lparr> wi_InFlight := n, wi_UpdatedAt := sc_now E r \<rparr>"
  obtain err where x: "sc_exec E r [SetEx (WorkerKey i) (heartbeat_payload v ld) (worker_ttl ttl)] = (err, r')"
    using assms(6) g by (auto simp: RedisScheduler_Heartbeat_def v_def Let_def split: prod.splits)
  obtain u where u: "raw = WorkerInfo_Marshal u" "WorkerInfo_ok (sc_time_ok E) u" "wi_WorkerID u = i"
    using assms(2) g sched_lawsD(1) [OF assms(1) g(1)] unfolding reg_inv_def by (metis Unmarshal_empty option.distinct(1))
  then have wu: "w = u" using g(2) WorkerInfo_roundtrip [OF u(2)] by simp
  have doc: "document E i (heartbeat_payload v ld)"
  proof (cases ld)
    case (Finite y)
    have "WorkerInfo_ok (sc_time_ok E) (v\<lparr> wi_Load := y \<rparr>)" "wi_WorkerID (v\<lparr> wi_Load := y \<rparr>) = i"
      using u(2,3) assms(3-5) Finite sched_lawsD(5) [OF assms(1), of r] by (auto simp: WorkerInfo_ok_def v_def wu double_def)
    then show ?thesis using Finite by (auto simp: heartbeat_payload_def document_def)
  qed (simp_all add: heartbeat_payload_def document_def)
  from sched_lawsD(4) [OF assms(1) x]
  have "kv r' = kv r \<or> kv r' = (kv r)(WorkerKey i \<mapsto> heartbeat_payload v ld)" "ss r' = ss r" by auto
  then show ?thesis using reg_inv_update [OF assms(2) _ doc] by blast
qed (use assms in \<open>auto simp: RedisScheduler_Heartbeat_def Let_def split: sum.splits option.splits\<close>)

lemma ListWorkers_frame: "sched_laws E kv ss \<Longrightarrow> RedisScheduler_List E r = (x, r') \<Longrightarrow> kv r' = kv r \<and> ss r' WorkerSet \<subseteq> ss r WorkerSet"
  using list_workers_frame by (fastforce simp: RedisScheduler_List_def split: sum.splits prod.splits)

lemma Pick_frame: "sched_laws E kv ss \<Longrightarrow> RedisScheduler_Pick E r runID = (x, r') \<Longrightarrow> kv r' = kv r \<and> ss r' WorkerSet \<subseteq> ss r WorkerSet"
  using ListWorkers_frame by (fastforce simp: RedisScheduler_Pick_def split: sum.splits prod.splits if_splits)

definition registered :: "sched_label list \<Rightarrow> string set" where
  "registered ls = {wi_WorkerID info | info ttl. LRegister info ttl \<in> set ls}"

lemma registered_simps [simp]:
  "registered [] = {}" "registered (LRegister info ttl # ls) = insert (wi_WorkerID info) (registered ls)"
  "registered (LHeartbeat i n ld ttl # ls) = registered ls" "registered (LList # ls) = registered ls"
  "registered (LPick j # ls) = registered ls" "registered (LExpire # ls) = registered ls"
  by (auto simp: registered_def)

lemma sched_step_inv:
  assumes "sched_laws E kv ss" "sched_step E kv ss r l r'" "reg_inv E kv r"
  shows "reg_inv E kv r' \<and> ss r' WorkerSet \<subseteq> ss r WorkerSet \<union> registered [l]"
  using assms(2)
proof cases
  case register
  then show ?thesis using Register_inv [OF assms(1,3)] by auto
next
  case heartbeat
  then show ?thesis using Heartbeat_inv [OF assms(1,3)] by auto
next
  case list
  then show ?thesis using ListWorkers_frame [OF assms(1)] assms(3) by (auto simp: reg_inv_def)
next
  case pick
  then show ?thesis using Pick_frame [OF assms(1)] assms(3) by (auto simp: reg_inv_def)
next
  case expire
  then show ?thesis using assms(3) by (auto simp: reg_inv_def map_le_def dom_def)
qed

sublocale sched_redis \<subseteq> runs: transition_system "\<lambda>r. kv r = Map.empty \<and> ss r WorkerSet = {}" "sched_step E kv ss" "reg_inv E kv"
  using sched_step_inv [OF laws] by unfold_locales (auto simp: reg_inv_def)

lemma registered_Cons: "registered (l # ls) = registered [l] \<union> registered ls"
  by (cases l) auto

context sched_redis
begin

lemma path_reg_inv: "reg_inv E kv r \<Longrightarrow> runs.path r ls r' \<Longrightarrow> reg_inv E kv r'"
  by (rule runs.path_inv)

lemma path_members: "runs.path r ls r' \<Longrightarrow> reg_inv E kv r \<Longrightarrow> ss r' WorkerSet \<subseteq> ss r WorkerSet \<union> registered ls"
proof (induction rule: runs.path.induct)
  case (path_cons s l s' ls s'')
  then show ?case using sched_step_inv [OF laws path_cons.hyps(1)] registered_Cons [of l ls] by blast
qed simp

end

lemma failed_read_drops:
  assumes "sched_laws E kv ss" "\<forall>r1. \<exists>e. sc_get E r1 (WorkerKey i) = Inl e" "\<forall>r1 cs. fst (sc_exec E r1 cs) = None"
    and "list_workers E r ids = (ws, r')" "i \<in> set ids"
  shows "i \<notin> ss r' WorkerSet"
  using assms(4,5)
proof (induction ids arbitrary: r ws)
  case (Cons j ids)
  show ?case
  proof (cases "i = j")
    case True
    obtain e where e: "sc_get E r (WorkerKey i) = Inl e" using assms(2) by blast
    obtain r1 where x: "sc_exec E r [SRem WorkerSet i] = (None, r1)" using assms(3) by (metis prod.collapse)
    have "list_workers E r1 ids = (ws, r')" using Cons.prems(1) True e x by simp
    then have "ss r' WorkerSet \<subseteq> ss r1 WorkerSet" using list_workers_frame [OF assms(1)] by blast
    moreover have "i \<notin> ss r1 WorkerSet" using sched_lawsD(3) [OF assms(1) x] by simp
    ultimately show ?thesis by blast
  next
    case False
    then have "i \<in> set ids" using Cons.prems(2) by simp
    then show ?thesis using Cons.IH Cons.prems(1) by (auto split: sum.splits option.splits prod.splits)
  qed
qed simp

section \<open>Properties\<close>

text \<open>After any sequence of registrations, heartbeats, listings, picks and expiries of keys, Pick fails only when no worker is live, and
  otherwise returns a worker that registered and that no live worker precedes in the order of load, runs in flight, concurrency and id.
  (Redis behaves as documented and answers.)\<close>

theorem Pick_least:
  assumes "sched_laws E kv ss" "reads_succeed E" "kv r0 = Map.empty" "ss r0 WorkerSet = {}"
    and "transition_system.path (sched_step E kv ss) r0 ls r" "RedisScheduler_Pick E r runID = (x, r')"
  shows "case x of
      Inl e \<Rightarrow> e = NoLiveWorkers \<and> live E kv ss r = Map.empty
    | Inr i \<Rightarrow> i \<in> registered ls \<and> (\<exists>w. live E kv ss r i = Some w \<and> (\<forall>j v. live E kv ss r j = Some v \<longrightarrow> rank w \<le> rank v))"
proof -
  note R = sched_redis.intro [OF assms(1,2)]
  have inv0: "reg_inv E kv r0" using assms(3) by (simp add: reg_inv_def)
  have inv: "reg_inv E kv r" by (rule sched_redis.path_reg_inv [OF R inv0 assms(5)])
  have "ss r WorkerSet \<subseteq> registered ls" using sched_redis.path_members [OF R assms(5) inv0] assms(4) by simp
  moreover have "i \<in> ss r WorkerSet" if "live E kv ss r i = Some w" for i w using live_Some [OF inv that] by simp
  ultimately show ?thesis using sched_redis.Pick_cases [OF R inv assms(6)] by (auto split: sum.splits)
qed


text \<open>When the read of a live worker's key fails while the workers are listed, the worker is removed from the set: its document is
  kept, but from then on, whatever heartbeats it sends, it is not live again before it registers anew.\<close>

theorem failed_read_loses_worker:
  assumes "sched_laws E kv ss" "\<forall>r1. \<exists>e. sc_get E r1 (WorkerKey i) = Inl e" "\<forall>r1 cs. fst (sc_exec E r1 cs) = None"
    and "\<forall>r1. is_ok (sc_smembers E r1 WorkerSet)"
    and "RedisScheduler_List E r = (x, r1)" "i \<in> ss r WorkerSet" "reg_inv E kv r"
    and "sched_laws E' kv ss" "reads_succeed E'" "sc_time_ok E' = sc_time_ok E"
    and "transition_system.path (sched_step E' kv ss) r1 ls r2" "i \<notin> registered ls"
  shows "kv r1 = kv r \<and> live E' kv ss r2 i = None"
proof -
  obtain ids where ids: "sc_smembers E r WorkerSet = Inr ids"
    using assms(4) by (cases "sc_smembers E r WorkerSet") (metis is_ok_simps(1), blast)
  obtain ws where w: "list_workers E r ids = (ws, r1)"
    using assms(5) ids by (auto simp: RedisScheduler_List_def split: prod.splits)
  have "i \<in> set ids" using sched_lawsD(2) [OF assms(1) ids] assms(6) by simp
  then have i: "i \<notin> ss r1 WorkerSet" by (rule failed_read_drops [OF assms(1-3) w])
  have k: "kv r1 = kv r" using ListWorkers_frame [OF assms(1,5)] by simp
  then have "reg_inv E' kv r1" using assms(7,10) by (simp add: reg_inv_def)
  then have "ss r2 WorkerSet \<subseteq> ss r1 WorkerSet \<union> registered ls"
    by (rule sched_redis.path_members [OF sched_redis.intro [OF assms(8,9)] assms(11)])
  then show ?thesis using i assms(12) k by (auto simp: live_def)
qed

text \<open>A heartbeat whose load is not a finite number is accepted, and erases the worker: it is not live any more.\<close>

theorem infinite_load_erases_worker:
  assumes "sched_laws E kv ss" "RedisScheduler_Heartbeat E r i n ld ttl = (None, r')" "ld = NotANumber \<or> ld = Infinite neg"
  shows "kv r' (WorkerKey i) = Some [] \<and> live E kv ss r' i = None"
proof -
  obtain v where x: "sc_exec E r [SetEx (WorkerKey i) (heartbeat_payload v ld) (worker_ttl ttl)] = (None, r')"
    using assms(2) by (auto simp: RedisScheduler_Heartbeat_def Let_def split: sum.splits option.splits prod.splits)
  have "heartbeat_payload v ld = []" using assms(3) by (auto simp: heartbeat_payload_def)
  then have "kv r' (WorkerKey i) = Some []" using sched_lawsD(3) [OF assms(1) x] by simp
  then show ?thesis by (simp add: live_def)
qed

section \<open>A Redis in memory\<close>

type_synonym mem_redis = "keys \<times> (string \<Rightarrow> string list)"

fun mem_sched_cmd :: "mem_redis \<Rightarrow> sched_cmd \<Rightarrow> mem_redis" where
  "mem_sched_cmd (kv, ss) (SetEx k v ttl) = (kv(k \<mapsto> v), ss)"
| "mem_sched_cmd (kv, ss) (SAdd k m) = (kv, ss(k := List.insert m (ss k)))"
| "mem_sched_cmd (kv, ss) (SRem k m) = (kv, ss(k := removeAll m (ss k)))"

definition mem_sched :: "mem_redis SchedEnv" where
  "mem_sched = \<lparr> sc_now = (\<lambda>r. ''2025-01-01T00:00:00Z''), sc_time_ok = (\<lambda>s. True),
     sc_exec = (\<lambda>r cs. (None, foldl mem_sched_cmd r cs)), sc_get = (\<lambda>r k. Inr (fst r k)),
     sc_smembers = (\<lambda>r k. Inr (remdups (snd r k))) \<rparr>"

definition mem_keys :: "mem_redis \<Rightarrow> keys" where "mem_keys r = fst r"
definition mem_sets :: "mem_redis \<Rightarrow> sets" where "mem_sets r k = set (snd r k)"

lemma mem_sched_apply: "foldl apply_sched (mem_keys r, mem_sets r) cs = (mem_keys (foldl mem_sched_cmd r cs), mem_sets (foldl mem_sched_cmd r cs))"
proof (induction cs arbitrary: r)
  case (Cons c cs)
  have "apply_sched (mem_keys r, mem_sets r) c = (mem_keys (mem_sched_cmd r c), mem_sets (mem_sched_cmd r c))"
    by (cases r; cases c) (auto simp: mem_keys_def mem_sets_def fun_eq_iff)
  then show ?case using Cons.IH [of "mem_sched_cmd r c"] by simp
qed simp

lemma mem_sched_laws: "sched_laws mem_sched mem_keys mem_sets"
proof -
  have "ValidString ''2025-01-01T00:00:00Z''" by (simp add: ValidString_ascii ord_def)
  then show ?thesis unfolding sched_laws_def mem_sched_def
    by (simp add: mem_sched_apply) (simp add: mem_keys_def mem_sets_def)
qed

lemma mem_sched_reads: "reads_succeed mem_sched"
  by (simp add: reads_succeed_def mem_sched_def)

interpretation mem_registry: sched_redis mem_sched mem_keys mem_sets
  by unfold_locales (rule mem_sched_laws, rule mem_sched_reads)

text \<open>The same Redis while it cannot read keys.\<close>

definition deaf_sched :: "mem_redis SchedEnv" where
  "deaf_sched = mem_sched\<lparr> sc_get := (\<lambda>r k. Inl ''timeout'') \<rparr>"

lemma deaf_sched_laws: "sched_laws deaf_sched mem_keys mem_sets"
  using mem_sched_laws by (simp add: sched_laws_def deaf_sched_def)

definition demo_worker :: WorkerInfo where
  "demo_worker = zero_worker\<lparr> wi_WorkerID := ''w1'', wi_Addr := ''w1'', wi_Concurrency := 4 \<rparr>"

definition demo_registry :: mem_redis where
  "demo_registry = snd (RedisScheduler_Register mem_sched (Map.empty, \<lambda>k. []) demo_worker 0)"

lemma demo_registry_path: "transition_system.path (sched_step mem_sched mem_keys mem_sets) (Map.empty, \<lambda>k. []) [LRegister demo_worker 0] demo_registry"
proof -
  have "registrable demo_worker" by (simp add: registrable_def demo_worker_def zero_worker_def ValidString_ascii ord_def)
  then have "sched_step mem_sched mem_keys mem_sets (Map.empty, \<lambda>k. []) (LRegister demo_worker 0) demo_registry"
    using sched_step.register [of demo_worker mem_sched "(Map.empty, \<lambda>k. [])" 0] unfolding demo_registry_def by (metis prod.collapse)
  then show ?thesis by (rule mem_registry.runs.path_cons) (rule mem_registry.runs.path_nil)
qed

lemma demo_registry_members: "mem_sets demo_registry WorkerSet = {''w1''}"
  by (simp add: demo_registry_def RedisScheduler_Register_def mem_sched_def mem_sets_def demo_worker_def zero_worker_def Let_def)

lemma demo_registry_doc:
  "\<exists>w. mem_keys demo_registry (WorkerKey ''w1'') = Some (WorkerInfo_Marshal w) \<and> WorkerInfo_ok (\<lambda>s. True) w"
proof -
  let ?w = "demo_worker\<lparr> wi_UpdatedAt := ''2025-01-01T00:00:00Z'' \<rparr>"
  have "WorkerInfo_ok (\<lambda>s. True) ?w"
    by (simp add: WorkerInfo_ok_def demo_worker_def zero_worker_def ValidString_ascii ord_def f64_def round_to_def max_float_def)
  moreover have "mem_keys demo_registry (WorkerKey ''w1'') = Some (WorkerInfo_Marshal ?w)"
    by (simp add: demo_registry_def RedisScheduler_Register_def mem_sched_def mem_keys_def demo_worker_def zero_worker_def Let_def)
  ultimately show ?thesis by blast
qed

lemma demo_registry_live: "live mem_sched mem_keys mem_sets demo_registry ''w1'' \<noteq> None"
  using demo_registry_doc demo_registry_members WorkerInfo_roundtrip by (fastforce simp: live_def mem_sched_def)

theorem Pick_least_witness: "fst (RedisScheduler_Pick mem_sched demo_registry ''run'') = Inr ''w1''"
proof -
  obtain x r' where p: "RedisScheduler_Pick mem_sched demo_registry ''run'' = (x, r')" by (cases "RedisScheduler_Pick mem_sched demo_registry ''run''")
  have e: "mem_keys (Map.empty, \<lambda>k. []) = Map.empty" "mem_sets (Map.empty, \<lambda>k. []) WorkerSet = {}"
    by (simp_all add: mem_keys_def mem_sets_def)
  note l = Pick_least [OF mem_sched_laws mem_sched_reads e demo_registry_path p]
  show ?thesis using l p demo_registry_live by (auto simp: demo_worker_def zero_worker_def split: sum.splits)
qed

theorem failed_read_loses_worker_witness:
  "live mem_sched mem_keys mem_sets (snd (RedisScheduler_Heartbeat mem_sched (snd (RedisScheduler_List deaf_sched demo_registry)) ''w1'' 0 (Finite 0) 0)) ''w1'' = None"
proof -
  obtain x r1 where l: "RedisScheduler_List deaf_sched demo_registry = (x, r1)" by (cases "RedisScheduler_List deaf_sched demo_registry")
  obtain e r2 where h: "RedisScheduler_Heartbeat mem_sched r1 ''w1'' 0 (Finite 0) 0 = (e, r2)" by (cases "RedisScheduler_Heartbeat mem_sched r1 ''w1'' 0 (Finite 0) 0")
  have inv: "reg_inv deaf_sched mem_keys demo_registry"
    using mem_registry.path_reg_inv [OF _ demo_registry_path] by (simp add: reg_inv_def mem_keys_def deaf_sched_def)
  have "sched_step mem_sched mem_keys mem_sets r1 (LHeartbeat ''w1'' 0 (Finite 0) 0) r2"
    by (rule sched_step.heartbeat [OF _ _ _ h]) (simp_all add: double_def f64_def round_to_def max_float_def)
  then have p: "transition_system.path (sched_step mem_sched mem_keys mem_sets) r1 [LHeartbeat ''w1'' 0 (Finite 0) 0] r2"
    by (rule mem_registry.runs.path_cons) (rule mem_registry.runs.path_nil)
  have "live mem_sched mem_keys mem_sets r2 ''w1'' = None"
    using failed_read_loses_worker [OF deaf_sched_laws _ _ _ l _ inv mem_sched_laws mem_sched_reads _ p, of "''w1''"] demo_registry_members
    by (simp add: deaf_sched_def mem_sched_def)
  then show ?thesis by (simp add: l h)
qed

theorem infinite_load_erases_worker_witness:
  "live mem_sched mem_keys mem_sets (snd (RedisScheduler_Heartbeat mem_sched demo_registry ''w1'' 0 NotANumber 0)) ''w1'' = None"
proof -
  obtain w where w: "mem_keys demo_registry (WorkerKey ''w1'') = Some (WorkerInfo_Marshal w)" "WorkerInfo_ok (\<lambda>s. True) w"
    using demo_registry_doc by blast
  then have "\<exists>r'. RedisScheduler_Heartbeat mem_sched demo_registry ''w1'' 0 NotANumber 0 = (None, r')"
    using WorkerInfo_roundtrip [OF w(2)] by (simp add: RedisScheduler_Heartbeat_def mem_sched_def mem_keys_def Let_def)
  then obtain r' where h: "RedisScheduler_Heartbeat mem_sched demo_registry ''w1'' 0 NotANumber 0 = (None, r')" by blast
  show ?thesis using infinite_load_erases_worker [OF mem_sched_laws h] by (simp add: h)
qed

end
