(* ===== verification/Discovery.thy ===== *)
theory Discovery
  imports History
begin

text \<open>
  internal/discovery (etcd.go): the registration of a service instance under a lease, and the election of the scheduler's leader. The etcd
  client is outside: the operations of an environment record for the registration, and for the election the steps that the candidates'
  keys can take. The goroutine of an Elector and the RPCs that ask it interleave as the steps of elect_step.
\<close>

section \<open>Registration\<close>

definition servicePrefix :: string where "servicePrefix = ''/agentforge/services''"
definition schedulerLeader :: string where "schedulerLeader = ''/agentforge/scheduler/leader''"

record Instance =
  in_Service :: string
  in_ID :: string
  in_Addr :: string
  in_Metadata :: tags
  in_UpdatedAt :: int

definition Instance_Marshal :: "Instance \<Rightarrow> string" where
  "Instance_Marshal i = Marshal (struct_obj [
     (''service'', False, JStr (in_Service i)),
     (''id'', False, JStr (in_ID i)),
     (''addr'', False, JStr (in_Addr i)),
     (''metadata'', in_Metadata i = [], JObj (map (\<lambda>(k, v). (k, JStr v)) (in_Metadata i))),
     (''updated_at'', False, enc_int (in_UpdatedAt i))])"

datatype discovery_error =
    InstanceIncomplete
  | SchedulerIncomplete
  | NoEndpoints
  | EtcdError string

text \<open>What the goroutine of a registration sees: its context ends, a keep-alive is answered, the answers end.\<close>

datatype ka_event = KaDone | KaAnswer | KaClosed

record 'w EtcdEnv =
  et_new :: "'w \<Rightarrow> string list \<Rightarrow> string option \<times> 'w"
  et_close :: "'w \<Rightarrow> 'w"
  et_grant :: "'w \<Rightarrow> int \<Rightarrow> (string, int) result \<times> 'w"
  et_put :: "'w \<Rightarrow> string \<Rightarrow> string \<Rightarrow> int \<Rightarrow> string option \<times> 'w"
  et_keepalive :: "'w \<Rightarrow> int \<Rightarrow> (string, ka_event list) result \<times> 'w"
  et_revoke :: "'w \<Rightarrow> int \<Rightarrow> 'w"
  et_now :: "'w \<Rightarrow> int"

definition newClient :: "'w EtcdEnv \<Rightarrow> 'w \<Rightarrow> string list \<Rightarrow> discovery_error option \<times> 'w" where
  "newClient E w endpoints =
     (if endpoints = [] then (Some NoEndpoints, w)
      else (let (e, w1) = et_new E w endpoints in (map_option EtcdError e, w1)))"

text \<open>The lease and the events of the goroutine that keeps it.\<close>

definition Discovery_Register ::
    "'w EtcdEnv \<Rightarrow> 'w \<Rightarrow> string list \<Rightarrow> Instance \<Rightarrow> int \<Rightarrow> (discovery_error, int \<times> ka_event list) result \<times> 'w" where
  "Discovery_Register E w endpoints inst ttl =
     (if in_Service inst = [] \<or> in_ID inst = [] \<or> in_Addr inst = [] then (Inl InstanceIncomplete, w)
      else (case newClient E w endpoints of
          (Some e, w1) \<Rightarrow> (Inl e, w1)
        | (None, w1) \<Rightarrow>
            (case et_grant E w1 (if ttl \<le> 0 then 10 else ttl) of
               (Inl e, w2) \<Rightarrow> (Inl (EtcdError e), et_close E w2)
             | (Inr lease, w2) \<Rightarrow>
                 (case et_put E w2 (servicePrefix @ ''/'' @ in_Service inst @ ''/'' @ in_ID inst)
                     (Instance_Marshal (inst\<lparr> in_UpdatedAt := et_now E w2 \<rparr>)) lease of
                    (Some e, w3) \<Rightarrow> (Inl (EtcdError e), et_close E w3)
                  | (None, w3) \<Rightarrow>
                      (case et_keepalive E w3 lease of
                         (Inl e, w4) \<Rightarrow> (Inl (EtcdError e), et_close E w4)
                       | (Inr evs, w4) \<Rightarrow> (Inr (lease, evs), w4))))))"

text \<open>The goroutine; None while it runs.\<close>

fun keep_lease :: "'w EtcdEnv \<Rightarrow> 'w \<Rightarrow> int \<Rightarrow> ka_event list \<Rightarrow> 'w option" where
  "keep_lease E w lease [] = None"
| "keep_lease E w lease (KaDone # evs) = Some (et_close E (et_revoke E w lease))"
| "keep_lease E w lease (KaClosed # evs) = Some (et_close E w)"
| "keep_lease E w lease (KaAnswer # evs) = keep_lease E w lease evs"

text \<open>Clients opened and not closed, as n counts them.\<close>

definition counts_clients :: "'w EtcdEnv \<Rightarrow> ('w \<Rightarrow> int) \<Rightarrow> bool" where
  "counts_clients E n \<longleftrightarrow>
     (\<forall>w eps. n (snd (et_new E w eps)) = n w + (if fst (et_new E w eps) = None then 1 else 0)) \<and>
     (\<forall>w. n (et_close E w) = n w - 1) \<and>
     (\<forall>w t. n (snd (et_grant E w t)) = n w) \<and> (\<forall>w k v l. n (snd (et_put E w k v l)) = n w) \<and>
     (\<forall>w l. n (snd (et_keepalive E w l)) = n w) \<and> (\<forall>w l. n (et_revoke E w l) = n w)"

text \<open>A registration that fails has closed the client it opened; one that succeeds closes it when its goroutine ends.\<close>

lemma Discovery_Register_balanced:
  assumes "counts_clients E n" "Discovery_Register E w eps inst ttl = (x, w')"
  shows "case x of
      Inl e \<Rightarrow> n w' = n w
    | Inr (lease, evs) \<Rightarrow> \<forall>w2. keep_lease E w' lease evs = Some w2 \<longrightarrow> n w2 = n w"
proof -
  have e: "n w2 = n v - 1" if "keep_lease E v lease evs = Some w2" for v w2 lease evs
    using that assms(1) by (induction E v lease evs rule: keep_lease.induct) (auto simp: counts_clients_def)
  note c = assms(1) [unfolded counts_clients_def]
  have "fst (et_new E w eps) = None \<Longrightarrow> n (snd (et_new E w eps)) = n w + 1"
    "fst (et_new E w eps) \<noteq> None \<Longrightarrow> n (snd (et_new E w eps)) = n w"
    "\<And>w. n (et_close E w) = n w - 1" "\<And>w t. n (snd (et_grant E w t)) = n w"
    "\<And>w k v l. n (snd (et_put E w k v l)) = n w" "\<And>w l. n (snd (et_keepalive E w l)) = n w" using c by simp_all
  note c' = this
  show ?thesis
    using assms(2) e unfolding Discovery_Register_def newClient_def
    by (auto split: if_splits prod.splits sum.splits option.splits)
       (use c' in \<open>fastforce dest: arg_cong [where f = snd]\<close>)+
qed

section \<open>Leaders\<close>

record LeaderInfo =
  li_ID :: string
  li_Addr :: string

definition LeaderInfo_fields :: "LeaderInfo \<Rightarrow> (string \<times> bool \<times> json) list" where
  "LeaderInfo_fields l = [
     (''id'', False, JStr (li_ID l)),
     (''addr'', False, JStr (li_Addr l))]"

definition LeaderInfo_json :: "LeaderInfo \<Rightarrow> json" where "LeaderInfo_json l = struct_obj (LeaderInfo_fields l)"

definition LeaderInfo_of :: "json \<Rightarrow> LeaderInfo option" where
  "LeaderInfo_of j = Option.bind (members j) (\<lambda>m.
     Option.bind (field dec_str m ''id'' []) (\<lambda>x0.
     Option.bind (field dec_str m ''addr'' []) (\<lambda>x1.
     Some \<lparr> li_ID = x0, li_Addr = x1 \<rparr>)))"

definition LeaderInfo_Marshal :: "LeaderInfo \<Rightarrow> string" where "LeaderInfo_Marshal l = Marshal (LeaderInfo_json l)"
definition LeaderInfo_Unmarshal :: "string \<Rightarrow> LeaderInfo option" where
  "LeaderInfo_Unmarshal s = Option.bind (json_parse s) LeaderInfo_of"

definition LeaderInfo_ok :: "LeaderInfo \<Rightarrow> bool" where
  "LeaderInfo_ok l = (ValidString (li_ID l) \<and>
     ValidString (li_Addr l))"

lemma LeaderInfo_tags: "tags_distinct (map fst (LeaderInfo_fields l))"
  by (simp add: LeaderInfo_fields_def tags_distinct_ascii upper_ascii_def ord_def)

lemma LeaderInfo_json_ok: "LeaderInfo_ok l \<Longrightarrow> json_ok (LeaderInfo_json l)"
  unfolding LeaderInfo_json_def by (rule json_ok_struct)
    (simp add: LeaderInfo_ok_def LeaderInfo_fields_def ValidString_ascii ord_def)

lemma LeaderInfo_names: "map fst (LeaderInfo_fields l) =
  [''id'', ''addr'']"
  by (simp add: LeaderInfo_fields_def)

lemma LeaderInfo_of_json: "LeaderInfo_ok l \<Longrightarrow> LeaderInfo_of (LeaderInfo_json l) = Some l"
  by (simp add: LeaderInfo_of_def LeaderInfo_json_def members_struct_obj field_struct [OF LeaderInfo_tags] LeaderInfo_names)
    (simp add: LeaderInfo_fields_def LeaderInfo_ok_def struct_get_rules)

lemma LeaderInfo_roundtrip: "LeaderInfo_ok l \<Longrightarrow> LeaderInfo_Unmarshal (LeaderInfo_Marshal l) = Some l"
  by (simp add: LeaderInfo_Unmarshal_def LeaderInfo_Marshal_def json_parse_Marshal LeaderInfo_json_ok LeaderInfo_of_json)

definition split_leader :: "string \<Rightarrow> LeaderInfo option" where
  "split_leader raw =
     (case SplitN raw ''|'' 2 of
        [i, a] \<Rightarrow> if i \<noteq> [] then Some \<lparr> li_ID = i, li_Addr = a \<rparr> else None
      | _ \<Rightarrow> None)"

definition no_leader :: LeaderInfo where "no_leader = \<lparr> li_ID = [], li_Addr = [] \<rparr>"

definition decodeLeader :: "string \<Rightarrow> LeaderInfo option" where
  "decodeLeader raw =
     (case LeaderInfo_Unmarshal raw of
        Some info \<Rightarrow> if li_ID info \<noteq> [] then Some info else split_leader raw
      | None \<Rightarrow> split_leader raw)"

record Elector =
  el_id :: string
  el_addr :: string
  el_leader :: LeaderInfo
  el_isLeader :: bool

definition self_info :: "Elector \<Rightarrow> LeaderInfo" where
  "self_info e = \<lparr> li_ID = el_id e, li_Addr = el_addr e \<rparr>"

definition StartSchedulerElection :: "'w EtcdEnv \<Rightarrow> 'w \<Rightarrow> string list \<Rightarrow> string \<Rightarrow> string \<Rightarrow> (discovery_error, Elector) result \<times> 'w" where
  "StartSchedulerElection E w endpoints i addr =
     (if i = [] \<or> addr = [] then (Inl SchedulerIncomplete, w)
      else (case newClient E w endpoints of
          (Some e, w1) \<Rightarrow> (Inl e, w1)
        | (None, w1) \<Rightarrow> (Inr \<lparr> el_id = i, el_addr = addr, el_leader = no_leader, el_isLeader = False \<rparr>, w1)))"

definition setLeader :: "Elector \<Rightarrow> LeaderInfo \<Rightarrow> bool \<Rightarrow> Elector" where
  "setLeader e info b = e\<lparr> el_leader := info, el_isLeader := b \<rparr>"

definition IsLeader :: "Elector \<Rightarrow> bool" where "IsLeader e = el_isLeader e"

definition cachedLeader :: "Elector \<Rightarrow> LeaderInfo option" where
  "cachedLeader e = (if li_ID (el_leader e) = [] then None else Some (el_leader e))"

text \<open>What Leader reads: the values of the first key under the prefix.\<close>

definition read_leader :: "(string, string list) result \<Rightarrow> LeaderInfo option" where
  "read_leader resp = (case resp of Inl e \<Rightarrow> None | Inr [] \<Rightarrow> None | Inr (v # _) \<Rightarrow> decodeLeader v)"

definition store_leader :: "Elector \<Rightarrow> LeaderInfo \<Rightarrow> Elector" where
  "store_leader e info = setLeader e info (el_id e = li_ID info)"

text \<open>Leader, when nothing happens between its reading and its storing; None for a nil elector.\<close>

definition Elector_Leader :: "Elector option \<Rightarrow> (string, string list) result \<Rightarrow> LeaderInfo option \<times> Elector option" where
  "Elector_Leader eo resp =
     (case eo of
        None \<Rightarrow> (None, None)
      | Some e \<Rightarrow>
          (case cachedLeader e of
             Some info \<Rightarrow> (Some info, eo)
           | None \<Rightarrow>
               (case read_leader resp of
                  None \<Rightarrow> (None, eo)
                | Some info \<Rightarrow> (Some info, Some (store_leader e info)))))"

section \<open>The election\<close>

text \<open>Where the goroutine of the elector is: between sessions, in Campaign, leading until its session ends, or giving the leadership back;
  the candidates' keys under the prefix, oldest first, each with its owner; the calls of Leader that found nothing cached, and the answers
  that calls of Leader have read and not yet stored.\<close>

datatype elect_pc = Between | Campaigning | Leading | Resigning | Ended

record election =
  en_elector :: Elector
  en_pc :: elect_pc
  en_keys :: "(string \<times> string) list"
  en_calls :: nat
  en_reads :: "LeaderInfo list"

definition key_values :: "election \<Rightarrow> string list" where
  "key_values s = map snd (en_keys s)"

definition without_own :: "election \<Rightarrow> (string \<times> string) list" where
  "without_own s = filter (\<lambda>kv. fst kv \<noteq> el_id (en_elector s)) (en_keys s)"

definition candidate :: "Elector \<Rightarrow> string \<times> string" where
  "candidate e = (el_id e, LeaderInfo_Marshal (self_info e))"

definition start_election :: "Elector \<Rightarrow> election" where
  "start_election e = \<lparr> en_elector = e, en_pc = Between, en_keys = [], en_calls = 0, en_reads = [] \<rparr>"

datatype elect_label =
    ECampaign | ECampaignFails | EWins | ESessionEnds | EResigns | EStops
  | ELeaderCall | ELeaderReads LeaderInfo | ELeaderMisses | ELeaderStores LeaderInfo
  | EOthers "(string \<times> string) list" | ELeaseExpires

text \<open>The other candidates delete their keys and create new ones behind those that are there.\<close>

inductive elect_step :: "election \<Rightarrow> elect_label \<Rightarrow> election \<Rightarrow> bool" where
  campaign: "en_pc s = Between \<Longrightarrow>
    elect_step s ECampaign (s\<lparr> en_pc := Campaigning, en_keys := without_own s @ [candidate (en_elector s)] \<rparr>)"
| campaign_fails: "en_pc s = Campaigning \<Longrightarrow>
    elect_step s ECampaignFails (s\<lparr> en_pc := Between, en_keys := without_own s \<rparr>)"
| wins: "en_pc s = Campaigning \<Longrightarrow> en_keys s = candidate (en_elector s) # ks \<Longrightarrow>
    elect_step s EWins (s\<lparr> en_pc := Leading, en_elector := setLeader (en_elector s) (self_info (en_elector s)) True \<rparr>)"
| session_ends: "en_pc s = Leading \<Longrightarrow>
    elect_step s ESessionEnds (s\<lparr> en_pc := Resigning, en_elector := setLeader (en_elector s) no_leader False \<rparr>)"
| resigns: "en_pc s = Resigning \<Longrightarrow> elect_step s EResigns (s\<lparr> en_pc := Between, en_keys := without_own s \<rparr>)"
| stops: "en_pc s = Between \<Longrightarrow> elect_step s EStops (s\<lparr> en_pc := Ended \<rparr>)"
| leader_call: "cachedLeader (en_elector s) = None \<Longrightarrow> elect_step s ELeaderCall (s\<lparr> en_calls := Suc (en_calls s) \<rparr>)"
| leader_reads: "en_calls s = Suc n \<Longrightarrow> read_leader (Inr (take 1 (key_values s))) = Some info \<Longrightarrow>
    elect_step s (ELeaderReads info) (s\<lparr> en_calls := n, en_reads := en_reads s @ [info] \<rparr>)"
| leader_misses: "en_calls s = Suc n \<Longrightarrow> elect_step s ELeaderMisses (s\<lparr> en_calls := n \<rparr>)"
| leader_stores: "info \<in> set (en_reads s) \<Longrightarrow>
    elect_step s (ELeaderStores info) (s\<lparr> en_reads := remove1 info (en_reads s), en_elector := store_leader (en_elector s) info \<rparr>)"
| others: "\<forall>kv\<in>set (en_keys s). fst kv = el_id (en_elector s) \<longrightarrow> P kv \<Longrightarrow> \<forall>kv\<in>set new. fst kv \<noteq> el_id (en_elector s) \<Longrightarrow>
    elect_step s (EOthers new) (s\<lparr> en_keys := filter P (en_keys s) @ new \<rparr>)"
| lease_expires: "elect_step s ELeaseExpires (s\<lparr> en_keys := without_own s \<rparr>)"

inductive_cases elect_stepE: "elect_step s l s'"

section \<open>What an elector believes\<close>

text \<open>The flag and the cached leader agree.\<close>

definition elector_ok :: "Elector \<Rightarrow> bool" where
  "elector_ok e \<longleftrightarrow> el_id e \<noteq> [] \<and> (el_isLeader e \<longleftrightarrow> li_ID (el_leader e) = el_id e)"

definition election_inv :: "election \<Rightarrow> bool" where
  "election_inv s \<longleftrightarrow> elector_ok (en_elector s) \<and> (\<forall>i\<in>set (en_reads s). li_ID i \<noteq> [])"

lemmas elector_simps = setLeader_def store_leader_def self_info_def no_leader_def IsLeader_def cachedLeader_def

lemma decodeLeader_id: "decodeLeader raw = Some info \<Longrightarrow> li_ID info \<noteq> []"
  by (auto simp: decodeLeader_def split_leader_def split: option.splits if_splits list.splits)

lemma read_leader_id: "read_leader r = Some info \<Longrightarrow> li_ID info \<noteq> []"
  by (auto simp: read_leader_def decodeLeader_id split: sum.splits list.splits)

lemma elect_step_id: "elect_step s l s' \<Longrightarrow> el_id (en_elector s') = el_id (en_elector s) \<and> el_addr (en_elector s') = el_addr (en_elector s)"
  by (erule elect_stepE) (simp_all add: elector_simps)

lemma elect_step_inv: "elect_step s l s' \<Longrightarrow> election_inv s \<Longrightarrow> election_inv s'"
  by (erule elect_stepE)
    (auto simp: election_inv_def elector_ok_def elector_simps dest: read_leader_id set_remove1_subset [THEN subsetD])

definition new_elector :: "election \<Rightarrow> bool" where
  "new_elector s \<longleftrightarrow> (\<exists>e. s = start_election e \<and> el_id e \<noteq> [] \<and> el_leader e = no_leader \<and> \<not> el_isLeader e)"

interpretation elections: transition_system new_elector elect_step election_inv
proof unfold_locales
  show "election_inv s" if "new_elector s" for s
    using that by (auto simp: new_elector_def election_inv_def elector_ok_def start_election_def no_leader_def)
  show "election_inv s'" if "election_inv s" "elect_step s l s'" for s l s' by (rule elect_step_inv [OF that(2,1)])
qed

text \<open>Without calls of Leader in flight the elector believes what the goroutine has seen.\<close>

definition quiet :: "election \<Rightarrow> bool" where
  "quiet s \<longleftrightarrow> en_calls s = 0 \<and> en_reads s = [] \<and> (IsLeader (en_elector s) \<longleftrightarrow> en_pc s = Leading)"

lemma quiet_step: "elect_step s l s' \<Longrightarrow> quiet s \<Longrightarrow> l \<noteq> ELeaderCall \<Longrightarrow> quiet s'"
  by (erule elect_stepE) (auto simp: quiet_def elector_simps)

lemma quiet_path: "elections.path s ls s' \<Longrightarrow> quiet s \<Longrightarrow> ELeaderCall \<notin> set ls \<Longrightarrow> quiet s'"
  by (induction rule: elections.path.induct) (auto intro: quiet_step)

text \<open>Once something is cached and no call is in flight, only a victory of the node changes what it believes.\<close>

definition settled :: "election \<Rightarrow> bool" where
  "settled s \<longleftrightarrow> en_calls s = 0 \<and> en_reads s = [] \<and> cachedLeader (en_elector s) \<noteq> None \<and> en_pc s \<noteq> Leading"

lemma settled_step: "elect_step s l s' \<Longrightarrow> settled s \<Longrightarrow> l \<noteq> EWins \<Longrightarrow> settled s' \<and> en_elector s' = en_elector s"
  by (erule elect_stepE) (auto simp: settled_def)

lemma settled_path: "elections.path s ls s' \<Longrightarrow> settled s \<Longrightarrow> EWins \<notin> set ls \<Longrightarrow> en_elector s' = en_elector s"
  by (induction rule: elections.path.induct) (auto dest: settled_step)

text \<open>The run in which a node takes itself for the leader after it has resigned.\<close>

definition stale_labels :: "Elector \<Rightarrow> Elector \<Rightarrow> elect_label list" where
  "stale_labels e f = [ECampaign, EWins, EOthers [candidate f], ESessionEnds, ELeaderCall, ELeaderReads (self_info e),
     EResigns, ELeaderStores (self_info e), ECampaign]"

definition stale_state :: "Elector \<Rightarrow> Elector \<Rightarrow> election" where
  "stale_state e f = \<lparr> en_elector = setLeader e (self_info e) True, en_pc = Campaigning, en_keys = [candidate f, candidate e],
     en_calls = 0, en_reads = [] \<rparr>"

lemma read_own: "LeaderInfo_ok (self_info e) \<Longrightarrow> el_id e \<noteq> [] \<Longrightarrow> read_leader (Inr (snd (candidate e) # vs)) = Some (self_info e)"
  by (simp add: read_leader_def decodeLeader_def candidate_def LeaderInfo_roundtrip) (simp add: self_info_def)


lemma stale_path:
  assumes "LeaderInfo_ok (self_info e)" "el_id e \<noteq> []" "el_leader e = no_leader" "\<not> el_isLeader e" "el_id f \<noteq> el_id e"
  shows "elections.path (start_election e) (stale_labels e f) (stale_state e f)"
proof -
  have e: "setLeader e no_leader False = e" using assms(3,4) by (simp add: setLeader_def)
  have no: "cachedLeader e = None" using assms(3) by (simp add: cachedLeader_def no_leader_def)
  have own: "el_id e = fst (candidate e)" "fst (candidate f) \<noteq> el_id e" using assms(5) by (simp_all add: candidate_def)
  note read = read_own [OF assms(1,2), of "[]"]
  let ?w = "setLeader e (self_info e) True"
  have w: "el_id ?w = el_id e" "setLeader ?w no_leader False = e" "store_leader e (self_info e) = ?w" "candidate ?w = candidate e"
    using e by (simp_all add: elector_simps candidate_def)
  let ?s = "\<lambda>x pc ks c rs. \<lparr> en_elector = x, en_pc = pc, en_keys = ks, en_calls = c, en_reads = rs \<rparr>"
  have 1: "elect_step (?s e Between [] 0 []) ECampaign (?s e Campaigning [candidate e] 0 [])"
    using elect_step.campaign [of "?s e Between [] 0 []"] by (simp add: without_own_def)
  have 2: "elect_step (?s e Campaigning [candidate e] 0 []) EWins (?s ?w Leading [candidate e] 0 [])"
    using elect_step.wins [of "?s e Campaigning [candidate e] 0 []" "[]"] by simp
  have 3: "elect_step (?s ?w Leading [candidate e] 0 []) (EOthers [candidate f]) (?s ?w Leading [candidate e, candidate f] 0 [])"
    using elect_step.others [of "?s ?w Leading [candidate e] 0 []" "\<lambda>kv. True" "[candidate f]"] own w(1) by simp
  have 4: "elect_step (?s ?w Leading [candidate e, candidate f] 0 []) ESessionEnds (?s e Resigning [candidate e, candidate f] 0 [])"
    using elect_step.session_ends [of "?s ?w Leading [candidate e, candidate f] 0 []"] w(2) by simp
  have 5: "elect_step (?s e Resigning [candidate e, candidate f] 0 []) ELeaderCall (?s e Resigning [candidate e, candidate f] 1 [])"
    using elect_step.leader_call [of "?s e Resigning [candidate e, candidate f] 0 []"] no by simp
  have 6: "elect_step (?s e Resigning [candidate e, candidate f] 1 []) (ELeaderReads (self_info e)) (?s e Resigning [candidate e, candidate f] 0 [self_info e])"
    using elect_step.leader_reads [of "?s e Resigning [candidate e, candidate f] 1 []" 0 "self_info e"] read by (simp add: key_values_def)
  have 7: "elect_step (?s e Resigning [candidate e, candidate f] 0 [self_info e]) EResigns (?s e Between [candidate f] 0 [self_info e])"
    using elect_step.resigns [of "?s e Resigning [candidate e, candidate f] 0 [self_info e]"] own by (simp add: without_own_def)
  have 8: "elect_step (?s e Between [candidate f] 0 [self_info e]) (ELeaderStores (self_info e)) (?s ?w Between [candidate f] 0 [])"
    using elect_step.leader_stores [of "self_info e" "?s e Between [candidate f] 0 [self_info e]"] w(3) by simp
  have 9: "elect_step (?s ?w Between [candidate f] 0 []) ECampaign (?s ?w Campaigning [candidate f, candidate e] 0 [])"
    using elect_step.campaign [of "?s ?w Between [candidate f] 0 []"] own w(1,4) by (simp add: without_own_def)
  show ?thesis unfolding start_election_def stale_labels_def stale_state_def
    by (intro elections.path_cons [OF 1] elections.path_cons [OF 2] elections.path_cons [OF 3] elections.path_cons [OF 4]
        elections.path_cons [OF 5] elections.path_cons [OF 6] elections.path_cons [OF 7] elections.path_cons [OF 8]
        elections.path_cons [OF 9] elections.path_nil)
qed

section \<open>Properties\<close>

text \<open>C26: whatever interleaves, the flag IsLeader of an elector is set exactly when the leader it has cached carries its own id; and as long
  as nobody has called Leader, it is set exactly while the goroutine leads.\<close>

theorem IsLeader_cached:
  assumes "el_id e \<noteq> []" "el_leader e = no_leader" "\<not> el_isLeader e" "transition_system.path elect_step (start_election e) ls s"
  shows "(IsLeader (en_elector s) \<longleftrightarrow> map_option li_ID (cachedLeader (en_elector s)) = Some (el_id e)) \<and>
    (ELeaderCall \<notin> set ls \<longrightarrow> (IsLeader (en_elector s) \<longleftrightarrow> en_pc s = Leading))"
proof -
  have "new_elector (start_election e)" using assms(1-3) by (auto simp: new_elector_def)
  then have "election_inv s" by (rule elections.reach_inv [OF _ assms(4)])
  moreover have "el_id (en_elector s) = el_id (en_elector (start_election e))"
    using assms(4) by (induction rule: elections.path.induct) (simp_all add: elect_step_id)
  moreover have "quiet (start_election e)" using assms(3) by (simp add: quiet_def start_election_def IsLeader_def)
  ultimately show ?thesis using quiet_path [OF assms(4)]
    by (auto simp: election_inv_def elector_ok_def IsLeader_def cachedLeader_def quiet_def start_election_def)
qed

text \<open>C37: a call of Leader between the end of a session and the resignation makes a node cache itself: it then takes itself for the leader
  although the oldest key, and so the leadership, is another node's, and goes on doing so whatever happens until it wins again.\<close>

theorem stale_leader:
  assumes "LeaderInfo_ok (self_info e)" "el_id e \<noteq> []" "el_leader e = no_leader" "\<not> el_isLeader e" "el_id f \<noteq> el_id e"
  shows "\<exists>ls s. transition_system.path elect_step (start_election e) ls s \<and>
    en_keys s = [candidate f, candidate e] \<and> en_pc s = Campaigning \<and>
    (\<forall>ls' s'. transition_system.path elect_step s ls' s' \<and> EWins \<notin> set ls' \<longrightarrow>
       IsLeader (en_elector s') \<and> (\<forall>resp. fst (Elector_Leader (Some (en_elector s')) resp) = Some (self_info e)))"
proof (intro exI conjI allI impI)
  show "elections.path (start_election e) (stale_labels e f) (stale_state e f)" by (rule stale_path [OF assms])
  fix ls' s' resp assume p: "elections.path (stale_state e f) ls' s' \<and> EWins \<notin> set ls'"
  have "settled (stale_state e f)" using assms(2) by (simp add: settled_def stale_state_def elector_simps)
  then have "en_elector s' = setLeader e (self_info e) True" using settled_path p by (simp add: stale_state_def) (metis election.select_convs(1))
  then show "IsLeader (en_elector s')" "fst (Elector_Leader (Some (en_elector s')) resp) = Some (self_info e)"
    using assms(2) by (simp_all add: elector_simps Elector_Leader_def)
qed (simp_all add: stale_state_def)

definition demo_elector :: "string \<Rightarrow> Elector" where
  "demo_elector i = \<lparr> el_id = i, el_addr = ''h:1'', el_leader = no_leader, el_isLeader = False \<rparr>"

theorem IsLeader_cached_witness:
  "IsLeader (en_elector (stale_state (demo_elector ''a'') (demo_elector ''b''))) \<and>
   map_option li_ID (cachedLeader (en_elector (stale_state (demo_elector ''a'') (demo_elector ''b'')))) = Some ''a''"
proof -
  have p: "elections.path (start_election (demo_elector ''a'')) (stale_labels (demo_elector ''a'') (demo_elector ''b''))
      (stale_state (demo_elector ''a'') (demo_elector ''b''))"
    by (rule stale_path) (simp_all add: demo_elector_def LeaderInfo_ok_def self_info_def ValidString_ascii ord_def)
  have "IsLeader (en_elector (stale_state (demo_elector ''a'') (demo_elector ''b'')))" by (simp add: stale_state_def elector_simps)
  then show ?thesis using IsLeader_cached [OF _ _ _ p] by (simp add: demo_elector_def)
qed

theorem stale_leader_witness:
  "\<exists>ls s. transition_system.path elect_step (start_election (demo_elector ''a'')) ls s \<and>
    en_keys s = [candidate (demo_elector ''b''), candidate (demo_elector ''a'')] \<and> IsLeader (en_elector s)"
proof -
  have "\<exists>ls s. elections.path (start_election (demo_elector ''a'')) ls s \<and>
      en_keys s = [candidate (demo_elector ''b''), candidate (demo_elector ''a'')] \<and> en_pc s = Campaigning \<and>
      (\<forall>ls' s'. elections.path s ls' s' \<and> EWins \<notin> set ls' \<longrightarrow>
         IsLeader (en_elector s') \<and> (\<forall>resp. fst (Elector_Leader (Some (en_elector s')) resp) = Some (self_info (demo_elector ''a''))))"
    by (rule stale_leader) (simp_all add: demo_elector_def LeaderInfo_ok_def self_info_def ValidString_ascii ord_def)
  then show ?thesis using elections.path_nil by (metis empty_iff list.set(1))
qed

end
