(* ===== verification/Config.thy ===== *)
theory Config
  imports Llm GoFloat
begin

text \<open>
  internal/config (config.go): the configuration of every process, read from its environment variables, and the checks of the loaders. The
  library that fills a struct from its tags is outside: one reader per type of field, which gets the name of the variable and its default
  and gives the value, or None when the text is not a value of the type. Durations are in nanoseconds.
\<close>

section \<open>Structures\<close>

record EnvLib =
  env_string :: "string \<Rightarrow> string option \<Rightarrow> string option"
  env_int :: "string \<Rightarrow> string option \<Rightarrow> int option"
  env_bool :: "string \<Rightarrow> string option \<Rightarrow> bool option"
  env_float :: "string \<Rightarrow> string option \<Rightarrow> rat option"
  env_duration :: "string \<Rightarrow> string option \<Rightarrow> int option"
  env_strings :: "string \<Rightarrow> string option \<Rightarrow> string list option"
  env_error :: string

record CommonConfig =
  cm_LogLevel :: string
  cm_LogFormat :: string
  cm_RedisAddr :: string
  cm_RedisPassword :: string
  cm_RedisDB :: int
  cm_PostgresDSN :: string
  cm_RAGEnabled :: bool
  cm_RAGEmbedDim :: int
  cm_RAGTopK :: int
  cm_RAGTenantID :: string
  cm_RAGMinScore :: rat
  cm_MultiAgentEnabled :: bool
  cm_SubagentMaxDepth :: int
  cm_SubagentMaxChildren :: int
  cm_SubagentTimeout :: int
  cm_ContextCompactEnabled :: bool
  cm_ContextCompactMaxChars :: int
  cm_ContextCompactKeepHead :: int
  cm_ContextCompactKeepTail :: int
  cm_DiscoveryEnabled :: bool
  cm_EtcdEndpoints :: "string list"
  cm_SkillServiceAddr :: string
  cm_RAGServiceAddr :: string
  cm_HookServiceAddr :: string
  cm_HookEnabled :: bool
  cm_HookRoot :: string
  cm_HookFailClosed :: bool
  cm_HookMaxStdoutBytes :: int
  cm_HookTimeout :: int
  cm_OTELEnabled :: bool
  cm_OTELServiceName :: string
  cm_OTELExporterOTLPEndpoint :: string
  cm_MetricsEnabled :: bool
  cm_MetricsAddr :: string
  cm_MetricsPath :: string

definition parse_Common :: "EnvLib \<Rightarrow> CommonConfig option" where
  "parse_Common L =
     Option.bind (env_string L ''LOG_LEVEL'' (Some ''info'')) (\<lambda>x0.
     Option.bind (env_string L ''LOG_FORMAT'' (Some ''json'')) (\<lambda>x1.
     Option.bind (env_string L ''REDIS_ADDR'' (Some ''redis:6379'')) (\<lambda>x2.
     Option.bind (env_string L ''REDIS_PASSWORD'' None) (\<lambda>x3.
     Option.bind (env_int L ''REDIS_DB'' (Some ''0'')) (\<lambda>x4.
     Option.bind (env_string L ''POSTGRES_DSN'' None) (\<lambda>x5.
     Option.bind (env_bool L ''RAG_ENABLED'' (Some ''false'')) (\<lambda>x6.
     Option.bind (env_int L ''RAG_EMBED_DIM'' (Some ''384'')) (\<lambda>x7.
     Option.bind (env_int L ''RAG_TOP_K'' (Some ''5'')) (\<lambda>x8.
     Option.bind (env_string L ''RAG_TENANT_ID'' (Some ''default'')) (\<lambda>x9.
     Option.bind (env_float L ''RAG_MIN_SCORE'' (Some ''0'')) (\<lambda>x10.
     Option.bind (env_bool L ''MULTI_AGENT_ENABLED'' (Some ''false'')) (\<lambda>x11.
     Option.bind (env_int L ''SUBAGENT_MAX_DEPTH'' (Some ''2'')) (\<lambda>x12.
     Option.bind (env_int L ''SUBAGENT_MAX_CHILDREN'' (Some ''4'')) (\<lambda>x13.
     Option.bind (env_duration L ''SUBAGENT_TIMEOUT'' (Some ''2m'')) (\<lambda>x14.
     Option.bind (env_bool L ''CONTEXT_COMPACT_ENABLED'' (Some ''true'')) (\<lambda>x15.
     Option.bind (env_int L ''CONTEXT_COMPACT_MAX_CHARS'' (Some ''24000'')) (\<lambda>x16.
     Option.bind (env_int L ''CONTEXT_COMPACT_KEEP_HEAD'' (Some ''4'')) (\<lambda>x17.
     Option.bind (env_int L ''CONTEXT_COMPACT_KEEP_TAIL'' (Some ''8'')) (\<lambda>x18.
     Option.bind (env_bool L ''DISCOVERY_ENABLED'' (Some ''false'')) (\<lambda>x19.
     Option.bind (env_strings L ''ETCD_ENDPOINTS'' (Some ''etcd:2379'')) (\<lambda>x20.
     Option.bind (env_string L ''SKILL_SERVICE_ADDR'' (Some ''skilld:8084'')) (\<lambda>x21.
     Option.bind (env_string L ''RAG_SERVICE_ADDR'' (Some ''ragd:8085'')) (\<lambda>x22.
     Option.bind (env_string L ''HOOK_SERVICE_ADDR'' (Some ''hookd:8083'')) (\<lambda>x23.
     Option.bind (env_bool L ''HOOK_ENABLED'' (Some ''false'')) (\<lambda>x24.
     Option.bind (env_string L ''HOOK_ROOT'' (Some ''hooks'')) (\<lambda>x25.
     Option.bind (env_bool L ''HOOK_FAIL_CLOSED'' (Some ''false'')) (\<lambda>x26.
     Option.bind (env_int L ''HOOK_MAX_STDOUT_BYTES'' (Some ''65536'')) (\<lambda>x27.
     Option.bind (env_duration L ''HOOK_TIMEOUT'' (Some ''10ms'')) (\<lambda>x28.
     Option.bind (env_bool L ''OTEL_ENABLED'' (Some ''true'')) (\<lambda>x29.
     Option.bind (env_string L ''OTEL_SERVICE_NAME'' None) (\<lambda>x30.
     Option.bind (env_string L ''OTEL_EXPORTER_OTLP_ENDPOINT'' (Some ''otel-collector:4317'')) (\<lambda>x31.
     Option.bind (env_bool L ''METRICS_ENABLED'' (Some ''true'')) (\<lambda>x32.
     Option.bind (env_string L ''METRICS_ADDR'' (Some '':9090'')) (\<lambda>x33.
     Option.bind (env_string L ''METRICS_PATH'' (Some ''/metrics'')) (\<lambda>x34.
     Some \<lparr> cm_LogLevel = x0, cm_LogFormat = x1, cm_RedisAddr = x2, cm_RedisPassword = x3, cm_RedisDB = x4, cm_PostgresDSN = x5,
       cm_RAGEnabled = x6, cm_RAGEmbedDim = x7, cm_RAGTopK = x8, cm_RAGTenantID = x9, cm_RAGMinScore = x10, cm_MultiAgentEnabled = x11,
       cm_SubagentMaxDepth = x12, cm_SubagentMaxChildren = x13, cm_SubagentTimeout = x14, cm_ContextCompactEnabled = x15,
       cm_ContextCompactMaxChars = x16, cm_ContextCompactKeepHead = x17, cm_ContextCompactKeepTail = x18, cm_DiscoveryEnabled = x19,
       cm_EtcdEndpoints = x20, cm_SkillServiceAddr = x21, cm_RAGServiceAddr = x22, cm_HookServiceAddr = x23, cm_HookEnabled = x24,
       cm_HookRoot = x25, cm_HookFailClosed = x26, cm_HookMaxStdoutBytes = x27, cm_HookTimeout = x28, cm_OTELEnabled = x29,
       cm_OTELServiceName = x30, cm_OTELExporterOTLPEndpoint = x31, cm_MetricsEnabled = x32, cm_MetricsAddr = x33, cm_MetricsPath = x34 \<rparr>)))))))))))))))))))))))))))))))))))"

record GatewayConfig =
  gc_Common :: CommonConfig
  gc_GRPCAddr :: string
  gc_ACPAddr :: string
  gc_ACPReadTimeout :: int
  gc_ACPMaxConnections :: int
  gc_ACPCacheTTL :: int
  gc_RunTimeout :: int
  gc_ToolCallTimeout :: int

definition parse_Gateway :: "EnvLib \<Rightarrow> GatewayConfig option" where
  "parse_Gateway L =
     Option.bind (parse_Common L) (\<lambda>x0.
     Option.bind (env_string L ''GATEWAY_GRPC_ADDR'' (Some '':8080'')) (\<lambda>x1.
     Option.bind (env_string L ''GATEWAY_ACP_ADDR'' (Some '':8090'')) (\<lambda>x2.
     Option.bind (env_duration L ''GATEWAY_ACP_READ_TIMEOUT'' (Some ''30s'')) (\<lambda>x3.
     Option.bind (env_int L ''GATEWAY_ACP_MAX_CONNECTIONS'' (Some ''4096'')) (\<lambda>x4.
     Option.bind (env_duration L ''GATEWAY_ACP_CACHE_TTL'' (Some ''1h'')) (\<lambda>x5.
     Option.bind (env_duration L ''GATEWAY_RUN_TIMEOUT'' (Some ''10m'')) (\<lambda>x6.
     Option.bind (env_duration L ''GATEWAY_TOOL_CALL_TIMEOUT'' (Some ''60s'')) (\<lambda>x7.
     Some \<lparr> gc_Common = x0, gc_GRPCAddr = x1, gc_ACPAddr = x2, gc_ACPReadTimeout = x3, gc_ACPMaxConnections = x4,
       gc_ACPCacheTTL = x5, gc_RunTimeout = x6, gc_ToolCallTimeout = x7 \<rparr>))))))))"

record SchedulerConfig =
  sd_Common :: CommonConfig
  sd_GRPCAddr :: string
  sd_HTTPAddr :: string
  sd_NodeID :: string
  sd_AdvertiseAddr :: string
  sd_RaftEnabled :: bool

definition parse_Scheduler :: "EnvLib \<Rightarrow> SchedulerConfig option" where
  "parse_Scheduler L =
     Option.bind (parse_Common L) (\<lambda>x0.
     Option.bind (env_string L ''SCHEDULER_GRPC_ADDR'' (Some '':8081'')) (\<lambda>x1.
     Option.bind (env_string L ''SCHEDULER_HTTP_ADDR'' (Some '':8082'')) (\<lambda>x2.
     Option.bind (env_string L ''SCHEDULER_NODE_ID'' (Some ''scheduler-1'')) (\<lambda>x3.
     Option.bind (env_string L ''SCHEDULER_ADVERTISE_ADDR'' (Some ''scheduler:8081'')) (\<lambda>x4.
     Option.bind (env_bool L ''SCHEDULER_RAFT_ENABLED'' (Some ''false'')) (\<lambda>x5.
     Some \<lparr> sd_Common = x0, sd_GRPCAddr = x1, sd_HTTPAddr = x2, sd_NodeID = x3, sd_AdvertiseAddr = x4, sd_RaftEnabled = x5 \<rparr>))))))"

record WorkerConfig =
  wc_Common :: CommonConfig
  wc_Concurrency :: int
  wc_ConsumerGroup :: string
  wc_HeartbeatInterval :: int
  wc_MaxRetry :: int
  wc_SchedulerDial :: string
  wc_LLMProvider :: string
  wc_ModelScopeBaseURL :: string
  wc_ModelScopeAccessToken :: string
  wc_ModelScopeModel :: string
  wc_ModelScopeMaxTokens :: int
  wc_ModelScopeTimeout :: int
  wc_SandboxDriver :: string
  wc_SandboxImage :: string
  wc_SandboxPoolSize :: int
  wc_SandboxWorkspaceRoot :: string
  wc_SandboxMemoryMB :: int
  wc_SandboxCPUQuotaUS :: int
  wc_SandboxPidsLimit :: int
  wc_SandboxExecHard :: int
  wc_SandboxAcquireTimeout :: int
  wc_ToolConsumerGroup :: string
  wc_ToolConcurrency :: int
  wc_ToolHTTPMaxBytes :: int
  wc_ToolHTTPAllowList :: "string list"
  wc_AgentToolMaxSteps :: int
  wc_SkillEnabled :: bool
  wc_SkillRoot :: string
  wc_SkillTopK :: int
  wc_SkillCacheTTL :: int
  wc_SkillCacheSize :: int

definition parse_Worker :: "EnvLib \<Rightarrow> WorkerConfig option" where
  "parse_Worker L =
     Option.bind (parse_Common L) (\<lambda>x0.
     Option.bind (env_int L ''WORKER_CONCURRENCY'' (Some ''4'')) (\<lambda>x1.
     Option.bind (env_string L ''WORKER_CONSUMER_GROUP'' (Some ''workers'')) (\<lambda>x2.
     Option.bind (env_duration L ''WORKER_HEARTBEAT_SECONDS'' (Some ''5s'')) (\<lambda>x3.
     Option.bind (env_int L ''WORKER_MAX_RETRY'' (Some ''3'')) (\<lambda>x4.
     Option.bind (env_string L ''SCHEDULER_DIAL_ADDR'' (Some ''scheduler:8081'')) (\<lambda>x5.
     Option.bind (env_string L ''LLM_PROVIDER'' (Some ''modelscope'')) (\<lambda>x6.
     Option.bind (env_string L ''MODELSCOPE_BASE_URL'' (Some ''https://api-inference.modelscope.cn/v1'')) (\<lambda>x7.
     Option.bind (env_string L ''MODELSCOPE_ACCESS_TOKEN'' None) (\<lambda>x8.
     Option.bind (env_string L ''MODELSCOPE_MODEL'' (Some ''Qwen/Qwen3.5-35B-A3B'')) (\<lambda>x9.
     Option.bind (env_int L ''MODELSCOPE_MAX_TOKENS'' (Some ''0'')) (\<lambda>x10.
     Option.bind (env_duration L ''MODELSCOPE_TIMEOUT_SECONDS'' (Some ''60s'')) (\<lambda>x11.
     Option.bind (env_string L ''SANDBOX_DRIVER'' (Some ''docker'')) (\<lambda>x12.
     Option.bind (env_string L ''SANDBOX_IMAGE'' (Some ''alpine:3.19'')) (\<lambda>x13.
     Option.bind (env_int L ''SANDBOX_POOL_SIZE'' (Some ''4'')) (\<lambda>x14.
     Option.bind (env_string L ''SANDBOX_WORKSPACE_ROOT'' (Some ''/tmp/agentforge'')) (\<lambda>x15.
     Option.bind (env_int L ''SANDBOX_MEMORY_MB'' (Some ''256'')) (\<lambda>x16.
     Option.bind (env_int L ''SANDBOX_CPU_QUOTA_US'' (Some ''50000'')) (\<lambda>x17.
     Option.bind (env_int L ''SANDBOX_PIDS_LIMIT'' (Some ''256'')) (\<lambda>x18.
     Option.bind (env_duration L ''SANDBOX_EXEC_HARD'' (Some ''60s'')) (\<lambda>x19.
     Option.bind (env_duration L ''SANDBOX_ACQUIRE_TIMEOUT'' (Some ''30s'')) (\<lambda>x20.
     Option.bind (env_string L ''TOOL_CONSUMER_GROUP'' (Some ''tool-runtime'')) (\<lambda>x21.
     Option.bind (env_int L ''TOOL_CONCURRENCY'' (Some ''4'')) (\<lambda>x22.
     Option.bind (env_int L ''TOOL_HTTP_MAX_BYTES'' (Some ''1048576'')) (\<lambda>x23.
     Option.bind (env_strings L ''TOOL_HTTP_ALLOW_LIST'' None) (\<lambda>x24.
     Option.bind (env_int L ''AGENT_TOOL_MAX_STEPS'' (Some ''5'')) (\<lambda>x25.
     Option.bind (env_bool L ''SKILL_ENABLED'' (Some ''true'')) (\<lambda>x26.
     Option.bind (env_string L ''SKILL_ROOT'' (Some ''skills'')) (\<lambda>x27.
     Option.bind (env_int L ''SKILL_TOP_K'' (Some ''3'')) (\<lambda>x28.
     Option.bind (env_duration L ''SKILL_CACHE_TTL'' (Some ''10m'')) (\<lambda>x29.
     Option.bind (env_int L ''SKILL_CACHE_SIZE'' (Some ''1024'')) (\<lambda>x30.
     Some \<lparr> wc_Common = x0, wc_Concurrency = x1, wc_ConsumerGroup = x2, wc_HeartbeatInterval = x3, wc_MaxRetry = x4,
       wc_SchedulerDial = x5, wc_LLMProvider = x6, wc_ModelScopeBaseURL = x7, wc_ModelScopeAccessToken = x8, wc_ModelScopeModel = x9,
       wc_ModelScopeMaxTokens = x10, wc_ModelScopeTimeout = x11, wc_SandboxDriver = x12, wc_SandboxImage = x13, wc_SandboxPoolSize = x14,
       wc_SandboxWorkspaceRoot = x15, wc_SandboxMemoryMB = x16, wc_SandboxCPUQuotaUS = x17, wc_SandboxPidsLimit = x18,
       wc_SandboxExecHard = x19, wc_SandboxAcquireTimeout = x20, wc_ToolConsumerGroup = x21, wc_ToolConcurrency = x22,
       wc_ToolHTTPMaxBytes = x23, wc_ToolHTTPAllowList = x24, wc_AgentToolMaxSteps = x25, wc_SkillEnabled = x26, wc_SkillRoot = x27,
       wc_SkillTopK = x28, wc_SkillCacheTTL = x29, wc_SkillCacheSize = x30 \<rparr>)))))))))))))))))))))))))))))))"

record AgentCtlConfig =
  ctl_Common :: CommonConfig
  ctl_GatewayDial :: string
  ctl_GatewayACPDial :: string
  ctl_SchedulerDial :: string
  ctl_Proto :: string

definition parse_AgentCtl :: "EnvLib \<Rightarrow> AgentCtlConfig option" where
  "parse_AgentCtl L =
     Option.bind (parse_Common L) (\<lambda>x0.
     Option.bind (env_string L ''GATEWAY_DIAL_ADDR'' (Some ''localhost:8080'')) (\<lambda>x1.
     Option.bind (env_string L ''GATEWAY_ACP_DIAL_ADDR'' (Some ''localhost:8090'')) (\<lambda>x2.
     Option.bind (env_string L ''SCHEDULER_DIAL_ADDR'' (Some ''localhost:8081'')) (\<lambda>x3.
     Option.bind (env_string L ''AGENTCTL_PROTO'' (Some ''grpc'')) (\<lambda>x4.
     Some \<lparr> ctl_Common = x0, ctl_GatewayDial = x1, ctl_GatewayACPDial = x2, ctl_SchedulerDial = x3, ctl_Proto = x4 \<rparr>)))))"

record HookConfig =
  hk_Common :: CommonConfig
  hk_HookGRPCAddr :: string

definition parse_Hook :: "EnvLib \<Rightarrow> HookConfig option" where
  "parse_Hook L =
     Option.bind (parse_Common L) (\<lambda>x0.
     Option.bind (env_string L ''HOOK_GRPC_ADDR'' (Some '':8083'')) (\<lambda>x1.
     Some \<lparr> hk_Common = x0, hk_HookGRPCAddr = x1 \<rparr>))"

record SkillConfig =
  sk_Common :: CommonConfig
  sk_SkillGRPCAddr :: string
  sk_SkillEnabled :: bool
  sk_SkillRoot :: string
  sk_SkillTopK :: int

definition parse_Skill :: "EnvLib \<Rightarrow> SkillConfig option" where
  "parse_Skill L =
     Option.bind (parse_Common L) (\<lambda>x0.
     Option.bind (env_string L ''SKILL_GRPC_ADDR'' (Some '':8084'')) (\<lambda>x1.
     Option.bind (env_bool L ''SKILL_ENABLED'' (Some ''true'')) (\<lambda>x2.
     Option.bind (env_string L ''SKILL_ROOT'' (Some ''skills'')) (\<lambda>x3.
     Option.bind (env_int L ''SKILL_TOP_K'' (Some ''3'')) (\<lambda>x4.
     Some \<lparr> sk_Common = x0, sk_SkillGRPCAddr = x1, sk_SkillEnabled = x2, sk_SkillRoot = x3, sk_SkillTopK = x4 \<rparr>)))))"

record RAGConfig =
  rc_Common :: CommonConfig
  rc_RAGGRPCAddr :: string

definition parse_RAG :: "EnvLib \<Rightarrow> RAGConfig option" where
  "parse_RAG L =
     Option.bind (parse_Common L) (\<lambda>x0.
     Option.bind (env_string L ''RAG_GRPC_ADDR'' (Some '':8085'')) (\<lambda>x1.
     Some \<lparr> rc_Common = x0, rc_RAGGRPCAddr = x1 \<rparr>))"

record ControlPlaneConfig =
  cpc_Common :: CommonConfig
  cpc_HTTPAddr :: string
  cpc_GatewayDial :: string
  cpc_AgentDefaultImage :: string
  cpc_WebDistDir :: string

definition parse_ControlPlane :: "EnvLib \<Rightarrow> ControlPlaneConfig option" where
  "parse_ControlPlane L =
     Option.bind (parse_Common L) (\<lambda>x0.
     Option.bind (env_string L ''CONTROLPLANE_HTTP_ADDR'' (Some '':8086'')) (\<lambda>x1.
     Option.bind (env_string L ''GATEWAY_DIAL_ADDR'' (Some ''gateway:8080'')) (\<lambda>x2.
     Option.bind (env_string L ''AGENT_DEFAULT_IMAGE'' (Some ''alpine:3.19'')) (\<lambda>x3.
     Option.bind (env_string L ''WEB_DIST_DIR'' (Some ''/web'')) (\<lambda>x4.
     Some \<lparr> cpc_Common = x0, cpc_HTTPAddr = x1, cpc_GatewayDial = x2, cpc_AgentDefaultImage = x3, cpc_WebDistDir = x4 \<rparr>)))))"

section \<open>Loaders\<close>

definition parsed :: "EnvLib \<Rightarrow> string \<Rightarrow> 'c option \<Rightarrow> (string, 'c) result" where
  "parsed L name c = (case c of None \<Rightarrow> Inl (''parse '' @ name @ '' env: '' @ env_error L) | Some x \<Rightarrow> Inr x)"

definition LoadGateway :: "EnvLib \<Rightarrow> (string, GatewayConfig) result" where
  "LoadGateway L = parsed L ''gateway'' (parse_Gateway L)"

definition LoadScheduler :: "EnvLib \<Rightarrow> (string, SchedulerConfig) result" where
  "LoadScheduler L = parsed L ''scheduler'' (parse_Scheduler L)"

definition LoadWorker :: "EnvLib \<Rightarrow> (string, WorkerConfig) result" where
  "LoadWorker L =
     (case parsed L ''worker'' (parse_Worker L) of
        Inl e \<Rightarrow> Inl e
      | Inr c \<Rightarrow>
          if wc_LLMProvider c \<noteq> ''modelscope'' \<and> wc_LLMProvider c \<noteq> ''mock'' then Inl ''LLM_PROVIDER must be modelscope or mock''
          else if wc_LLMProvider c = ''modelscope'' \<and> wc_ModelScopeAccessToken c = []
            then Inl ''MODELSCOPE_ACCESS_TOKEN is required when LLM_PROVIDER=modelscope''
          else Inr (if wc_Concurrency c \<le> 0 then c\<lparr> wc_Concurrency := 1 \<rparr> else c))"

definition LoadAgentCtl :: "EnvLib \<Rightarrow> (string, AgentCtlConfig) result" where
  "LoadAgentCtl L = parsed L ''agentctl'' (parse_AgentCtl L)"

definition LoadHook :: "EnvLib \<Rightarrow> (string, HookConfig) result" where
  "LoadHook L = parsed L ''hook'' (parse_Hook L)"

definition LoadSkill :: "EnvLib \<Rightarrow> (string, SkillConfig) result" where
  "LoadSkill L = parsed L ''skill'' (parse_Skill L)"

definition LoadRAG :: "EnvLib \<Rightarrow> (string, RAGConfig) result" where
  "LoadRAG L = parsed L ''rag'' (parse_RAG L)"

definition LoadControlPlane :: "EnvLib \<Rightarrow> (string, ControlPlaneConfig) result" where
  "LoadControlPlane L =
     (case parsed L ''controlplane'' (parse_ControlPlane L) of
        Inl e \<Rightarrow> Inl e
      | Inr c \<Rightarrow> if cm_PostgresDSN (cpc_Common c) = [] then Inl ''POSTGRES_DSN is required for controlplane'' else Inr c)"

section \<open>What a loaded configuration is\<close>

definition WorkerConfig_ok :: "WorkerConfig \<Rightarrow> bool" where
  "WorkerConfig_ok c \<longleftrightarrow>
     wc_Concurrency c \<ge> 1 \<and> (wc_LLMProvider c = ''mock'' \<or> wc_LLMProvider c = ''modelscope'' \<and> wc_ModelScopeAccessToken c \<noteq> [])"

lemma LoadWorker_ok: "LoadWorker L = Inr c \<Longrightarrow> WorkerConfig_ok c"
  by (auto simp: LoadWorker_def WorkerConfig_ok_def split: sum.splits if_splits)

section \<open>An environment\<close>

text \<open>Variables set in an environment, and readers that know the texts used below.\<close>

definition env_text :: "(string \<rightharpoonup> string) \<Rightarrow> string \<Rightarrow> string option \<Rightarrow> string" where
  "env_text vars k d = (case vars k of Some t \<Rightarrow> t | None \<Rightarrow> (case d of Some t \<Rightarrow> t | None \<Rightarrow> []))"

definition simple_duration :: "string \<Rightarrow> int option" where
  "simple_duration s =
     (let d = takeWhile is_digit s; u = dropWhile is_digit s;
          f = map_of [(''ms'', 1000000), (''s'', 1000000000), (''m'', 60 * 1000000000), (''h'', 3600 * 1000000000)] u
      in case f of None \<Rightarrow> None | Some m \<Rightarrow> map_option (\<lambda>n. int n * m) (Atou d))"

definition simple_env :: "(string \<rightharpoonup> string) \<Rightarrow> EnvLib" where
  "simple_env vars = \<lparr> env_string = (\<lambda>k d. Some (env_text vars k d)),
     env_int = (\<lambda>k d. ParseInt64 (env_text vars k d)),
     env_bool = (\<lambda>k d. if env_text vars k d = ''true'' then Some True else if env_text vars k d = ''false'' then Some False else None),
     env_float = (\<lambda>k d. map_option of_int (ParseInt64 (env_text vars k d))),
     env_duration = (\<lambda>k d. simple_duration (env_text vars k d)),
     env_strings = (\<lambda>k d. Some (Split (env_text vars k d) '','')),
     env_error = ''not a value'' \<rparr>"

lemmas config_eval = parsed_def simple_env_def env_text_def ParseInt64_def Atou_def dec_value_def is_digit_def ord_def simple_duration_def

end
