(* ===== verification/SchedulerService.thy ===== *)
theory SchedulerService
  imports SchedulerProps Discovery Config
begin

text \<open>
  cmd/scheduler/service.go: the RPCs of the scheduler, over the registry (theory Scheduler) and, in raft mode, an elector (theory
  Discovery). Every handler takes the registry, the service with its elector, and what etcd answers when the handler asks it.
\<close>

record RegisterRequest =
  rq_WorkerId :: string
  rq_Addr :: string
  rq_Concurrency :: int
  rq_Labels :: "tags option"

record HeartbeatRequest =
  hb_WorkerId :: string
  hb_InFlight :: int
  hb_Load :: float64

record PickResponse =
  pk_WorkerId :: string
  pk_Addr :: string
  pk_IsLeader :: bool
  pk_LeaderId :: string
  pk_LeaderAddr :: string
  pk_Reason :: string

record LeaderResponse =
  lr_LeaderId :: string
  lr_LeaderAddr :: string
  lr_IsLeader :: bool

record schedulerService =
  sv_nodeID :: string
  sv_advertise :: string
  sv_raftEnabled :: bool
  sv_elector :: "Elector option"

definition fifteen_seconds :: int where "fifteen_seconds = 15 * 1000000000"

definition register_info :: "RegisterRequest \<Rightarrow> WorkerInfo" where
  "register_info req = zero_worker\<lparr> wi_WorkerID := rq_WorkerId req, wi_Addr := rq_Addr req, wi_Concurrency := rq_Concurrency req,
     wi_Labels := rq_Labels req \<rparr>"

text \<open>The session and its time to live in seconds.\<close>

definition rpc_Register :: "'r SchedEnv \<Rightarrow> 'r \<Rightarrow> RegisterRequest \<Rightarrow> (sched_error, string \<times> int) result \<times> 'r" where
  "rpc_Register E r req =
     (case RedisScheduler_Register E r (register_info req) fifteen_seconds of
        (Some e, r1) \<Rightarrow> (Inl e, r1)
      | (None, r1) \<Rightarrow> (Inr (rq_WorkerId req, fifteen_seconds div 1000000000), r1))"

definition rpc_Heartbeat :: "'r SchedEnv \<Rightarrow> 'r \<Rightarrow> HeartbeatRequest \<Rightarrow> (sched_error, bool) result \<times> 'r" where
  "rpc_Heartbeat E r req =
     (case RedisScheduler_Heartbeat E r (hb_WorkerId req) (hb_InFlight req) (hb_Load req) fifteen_seconds of
        (Some e, r1) \<Rightarrow> (Inl e, r1)
      | (None, r1) \<Rightarrow> (Inr True, r1))"

definition leaderInfo :: "schedulerService \<Rightarrow> (string, string list) result \<Rightarrow> LeaderInfo \<times> schedulerService" where
  "leaderInfo sv etcd =
     (case Elector_Leader (sv_elector sv) etcd of
        (Some info, el) \<Rightarrow> (info, sv\<lparr> sv_elector := el \<rparr>)
      | (None, el) \<Rightarrow> (\<lparr> li_ID = sv_nodeID sv, li_Addr = sv_advertise sv \<rparr>, sv\<lparr> sv_elector := el \<rparr>))"

definition not_leader :: "schedulerService \<Rightarrow> bool" where
  "not_leader sv = (sv_raftEnabled sv \<and> (case sv_elector sv of None \<Rightarrow> False | Some e \<Rightarrow> \<not> IsLeader e))"

definition rpc_Pick :: "'r SchedEnv \<Rightarrow> schedulerService \<Rightarrow> (string, string list) result \<Rightarrow> 'r \<Rightarrow> string \<Rightarrow>
    (sched_error, PickResponse) result \<times> schedulerService \<times> 'r" where
  "rpc_Pick E sv0 etcd r runID =
     (let (leader, sv) = leaderInfo sv0 etcd in
      if not_leader sv
      then (Inr \<lparr> pk_WorkerId = [], pk_Addr = [], pk_IsLeader = False, pk_LeaderId = li_ID leader, pk_LeaderAddr = li_Addr leader,
                 pk_Reason = ''not_leader'' \<rparr>, sv, r)
      else (case RedisScheduler_Pick E r runID of
          (Inl e, r1) \<Rightarrow> (Inl e, sv, r1)
        | (Inr workerID, r1) \<Rightarrow>
            (let (l, r2) = RedisScheduler_List E r1;
                 ws = (case l of Inl e \<Rightarrow> [] | Inr ws \<Rightarrow> ws);
                 picked = (case find (\<lambda>w. wi_WorkerID w = workerID) ws of None \<Rightarrow> zero_worker | Some w \<Rightarrow> w)
             in (Inr \<lparr> pk_WorkerId = workerID, pk_Addr = wi_Addr picked, pk_IsLeader = True, pk_LeaderId = li_ID leader,
                       pk_LeaderAddr = li_Addr leader, pk_Reason = ''lowest_load'' \<rparr>, sv, r2))))"

definition rpc_Leader :: "schedulerService \<Rightarrow> (string, string list) result \<Rightarrow> LeaderResponse \<times> schedulerService" where
  "rpc_Leader sv0 etcd =
     (let (leader, sv) = leaderInfo sv0 etcd
      in (\<lparr> lr_LeaderId = li_ID leader, lr_LeaderAddr = li_Addr leader,
            lr_IsLeader = (case sv_elector sv of None \<Rightarrow> True | Some e \<Rightarrow> IsLeader e) \<rparr>, sv))"

section \<open>What main builds\<close>

text \<open>The elector of main: nil when raft mode is off, and also when the election cannot be started, which is only logged.\<close>

definition scheduler_main :: "'w EtcdEnv \<Rightarrow> 'w \<Rightarrow> SchedulerConfig \<Rightarrow> schedulerService \<times> 'w" where
  "scheduler_main E w cfg =
     (let sv = \<lparr> sv_nodeID = sd_NodeID cfg, sv_advertise = sd_AdvertiseAddr cfg, sv_raftEnabled = sd_RaftEnabled cfg, sv_elector = None \<rparr>;
          w1 = (if cm_DiscoveryEnabled (sd_Common cfg)
                then snd (Discovery_Register E w (cm_EtcdEndpoints (sd_Common cfg))
                  \<lparr> in_Service = ''scheduler'', in_ID = sd_NodeID cfg, in_Addr = sd_AdvertiseAddr cfg, in_Metadata = [], in_UpdatedAt = 0 \<rparr> 10)
                else w)
      in if sd_RaftEnabled cfg \<and> cm_DiscoveryEnabled (sd_Common cfg)
         then (case StartSchedulerElection E w1 (cm_EtcdEndpoints (sd_Common cfg)) (sd_NodeID cfg) (sd_AdvertiseAddr cfg) of
             (Inl e, w2) \<Rightarrow> (sv, w2)
           | (Inr el, w2) \<Rightarrow> (sv\<lparr> sv_elector := Some el \<rparr>, w2))
         else (sv, w1))"

section \<open>Properties\<close>

lemma find_worker:
  assumes "set ws = ran m" "\<And>i w. m i = Some w \<Longrightarrow> wi_WorkerID w = i" "m i = Some w"
  shows "find (\<lambda>w. wi_WorkerID w = i) ws = Some w"
proof -
  have w: "w \<in> set ws" using assms(1,3) by (auto simp: ran_def)
  then obtain v where v: "find (\<lambda>w. wi_WorkerID w = i) ws = Some v"
    using assms(2) [OF assms(3)] by (cases "find (\<lambda>w. wi_WorkerID w = i) ws") (auto simp: find_None_iff)
  then have "v \<in> set ws" "wi_WorkerID v = i" by (auto simp: find_Some_iff)
  then have "v = w" using assms by (auto simp: ran_def)
  then show ?thesis using v by simp
qed

context sched_redis
begin

lemma rpc_Pick_cases:
  assumes "reg_inv E kv r" "rpc_Pick E sv etcd r runID = (x, sv', r')"
  shows "case x of
      Inl e \<Rightarrow> e = NoLiveWorkers \<and> live E kv ss r = Map.empty \<and> \<not> not_leader sv'
    | Inr p \<Rightarrow> if pk_IsLeader p
        then \<not> not_leader sv' \<and> (\<exists>w. live E kv ss r (pk_WorkerId p) = Some w \<and> pk_Addr p = wi_Addr w \<and>
          (\<forall>j v. live E kv ss r j = Some v \<longrightarrow> rank w \<le> rank v))
        else not_leader sv' \<and> pk_WorkerId p = [] \<and> r' = r"
proof (cases "not_leader (snd (leaderInfo sv etcd))")
  case True
  then show ?thesis using assms(2) by (auto simp: rpc_Pick_def split: prod.splits)
next
  case False
  obtain ws r0 where l0: "RedisScheduler_List E r = (Inr ws, r0)" using list_ok [OF assms(1)] by blast
  obtain y r1 where p: "RedisScheduler_Pick E r runID = (y, r1)" by (cases "RedisScheduler_Pick E r runID")
  note c = Pick_cases [OF assms(1) p]
  have r1: "r1 = r0" using p l0 by (auto simp: RedisScheduler_Pick_def split: if_splits)
  have inv1: "reg_inv E kv r1" and live1: "live E kv ss r1 = live E kv ss r" using list_law [OF assms(1) l0] r1 by simp_all
  obtain ws2 r2 where l: "RedisScheduler_List E r1 = (Inr ws2, r2)" using list_ok [OF inv1] by blast
  have s: "set ws2 = ran (live E kv ss r)" using list_law [OF inv1 l] live1 by simp
  show ?thesis
  proof (cases y)
    case (Inl e)
    then show ?thesis using assms(2) False p c by (auto simp: rpc_Pick_def split: prod.splits)
  next
    case (Inr i)
    then obtain w where w: "live E kv ss r i = Some w" "\<forall>j v. live E kv ss r j = Some v \<longrightarrow> rank w \<le> rank v" using c by auto
    have "find (\<lambda>w. wi_WorkerID w = i) ws2 = Some w" by (rule find_worker [OF s id_law [OF assms(1)] w(1)])
    then show ?thesis using assms(2) False p l Inr w by (auto simp: rpc_Pick_def split: prod.splits)
  qed
qed

end

text \<open>C8: whatever the registry has been through, the Pick RPC of a node that is not the leader names no worker and leaves the registry alone;
  otherwise it answers a worker no live worker precedes, with that worker's own address, and fails only when none is live. (Redis
  answers.)\<close>

theorem rpc_Pick_answer:
  assumes "sched_laws E kv ss" "reads_succeed E" "kv r0 = Map.empty" "ss r0 WorkerSet = {}"
    and "transition_system.path (sched_step E kv ss) r0 ls r" "rpc_Pick E sv etcd r runID = (x, sv', r')"
  shows "case x of
      Inl e \<Rightarrow> e = NoLiveWorkers \<and> live E kv ss r = Map.empty \<and> \<not> not_leader sv'
    | Inr p \<Rightarrow> if pk_IsLeader p
        then \<not> not_leader sv' \<and> (\<exists>w. live E kv ss r (pk_WorkerId p) = Some w \<and> pk_Addr p = wi_Addr w \<and>
          (\<forall>j v. live E kv ss r j = Some v \<longrightarrow> rank w \<le> rank v))
        else not_leader sv' \<and> pk_WorkerId p = [] \<and> r' = r"
proof -
  note R = sched_redis.intro [OF assms(1,2)]
  have "reg_inv E kv r0" using assms(3) by (simp add: reg_inv_def)
  then have inv: "reg_inv E kv r" by (rule sched_redis.path_reg_inv [OF R _ assms(5)])
  show ?thesis by (rule sched_redis.rpc_Pick_cases [OF R inv assms(6)])
qed

lemma no_election: "\<forall>w eps. fst (et_new F w eps) \<noteq> None \<Longrightarrow> \<exists>e w2. StartSchedulerElection F w eps i a = (Inl e, w2)"
  by (cases "et_new F w eps"; cases "fst (et_new F w eps)") (auto simp: StartSchedulerElection_def newClient_def dest!: spec [of _ w] spec [of _ eps])

text \<open>C38: in raft mode a node whose election could not be started has no elector and acts as the leader: it answers every Pick itself and
  names itself as the leader, whoever leads.\<close>

theorem failed_election_leads:
  assumes "sd_RaftEnabled cfg" "cm_DiscoveryEnabled (sd_Common cfg)" "\<forall>w eps. fst (et_new F w eps) \<noteq> None"
  shows "sv_elector (fst (scheduler_main F w cfg)) = None \<and>
    (let (res, _, r') = rpc_Pick E (fst (scheduler_main F w cfg)) etcd r runID in
       (case res of Inl e \<Rightarrow> fst (RedisScheduler_Pick E r runID) = Inl e
        | Inr p \<Rightarrow> pk_IsLeader p \<and> fst (RedisScheduler_Pick E r runID) = Inr (pk_WorkerId p) \<and> pk_LeaderId p = sd_NodeID cfg)) \<and>
    fst (rpc_Leader (fst (scheduler_main F w cfg)) etcd) =
      \<lparr> lr_LeaderId = sd_NodeID cfg, lr_LeaderAddr = sd_AdvertiseAddr cfg, lr_IsLeader = True \<rparr>"
proof -
  have "\<exists>e w2. StartSchedulerElection F w1 (cm_EtcdEndpoints (sd_Common cfg)) (sd_NodeID cfg) (sd_AdvertiseAddr cfg) = (Inl e, w2)" for w1
    by (rule no_election [OF assms(3)])
  then obtain e w2 where "StartSchedulerElection F (snd (Discovery_Register F w (cm_EtcdEndpoints (sd_Common cfg))
      \<lparr> in_Service = ''scheduler'', in_ID = sd_NodeID cfg, in_Addr = sd_AdvertiseAddr cfg, in_Metadata = [], in_UpdatedAt = 0 \<rparr> 10))
      (cm_EtcdEndpoints (sd_Common cfg)) (sd_NodeID cfg) (sd_AdvertiseAddr cfg) = (Inl e, w2)" by blast
  then have m: "fst (scheduler_main F w cfg) =
      \<lparr> sv_nodeID = sd_NodeID cfg, sv_advertise = sd_AdvertiseAddr cfg, sv_raftEnabled = True, sv_elector = None \<rparr>"
    using assms(1,2) by (simp add: scheduler_main_def Let_def)
  show ?thesis unfolding m
    by (auto simp: rpc_Pick_def rpc_Leader_def leaderInfo_def Elector_Leader_def not_leader_def Let_def split: prod.splits sum.splits)
qed

theorem rpc_Pick_answer_witness:
  "\<exists>p. fst (rpc_Pick mem_sched \<lparr> sv_nodeID = ''n'', sv_advertise = ''h:1'', sv_raftEnabled = False, sv_elector = None \<rparr> (Inr []) demo_registry ''run'') = Inr p \<and>
     (pk_IsLeader p \<longrightarrow> live mem_sched mem_keys mem_sets demo_registry (pk_WorkerId p) \<noteq> None)"
proof -
  let ?sv = "\<lparr> sv_nodeID = ''n'', sv_advertise = ''h:1'', sv_raftEnabled = False, sv_elector = None \<rparr>"
  obtain x sv' r' where p: "rpc_Pick mem_sched ?sv (Inr []) demo_registry ''run'' = (x, sv', r')" by (cases "rpc_Pick mem_sched ?sv (Inr []) demo_registry ''run''")
  have e: "mem_keys (Map.empty, \<lambda>k. []) = Map.empty" "mem_sets (Map.empty, \<lambda>k. []) WorkerSet = {}"
    by (simp_all add: mem_keys_def mem_sets_def)
  show ?thesis using rpc_Pick_answer [OF mem_sched_laws mem_sched_reads e demo_registry_path p] p demo_registry_live
    by (auto split: sum.splits if_splits)
qed

definition deaf_etcd :: "unit EtcdEnv" where
  "deaf_etcd = \<lparr> et_new = (\<lambda>w eps. (Some ''no endpoint'', w)), et_close = (\<lambda>w. w), et_grant = (\<lambda>w t. (Inr 1, w)), et_put = (\<lambda>w k v l. (None, w)),
     et_keepalive = (\<lambda>w l. (Inr [], w)), et_revoke = (\<lambda>w l. w), et_now = (\<lambda>w. 0) \<rparr>"

definition raft_vars :: "string \<rightharpoonup> string" where
  "raft_vars = [''DISCOVERY_ENABLED'' \<mapsto> ''true'', ''SCHEDULER_RAFT_ENABLED'' \<mapsto> ''true'']"

lemma raft_config: "\<exists>c. LoadScheduler (simple_env raft_vars) = Inr c \<and> sd_RaftEnabled c \<and> cm_DiscoveryEnabled (sd_Common c)"
  by (simp add: LoadScheduler_def parse_Scheduler_def parse_Common_def raft_vars_def config_eval)

theorem failed_election_leads_witness:
  "\<exists>c. LoadScheduler (simple_env raft_vars) = Inr c \<and> lr_IsLeader (fst (rpc_Leader (fst (scheduler_main deaf_etcd () c)) (Inr [''x|y''])))"
proof -
  obtain c where c: "LoadScheduler (simple_env raft_vars) = Inr c" "sd_RaftEnabled c" "cm_DiscoveryEnabled (sd_Common c)"
    using raft_config by blast
  have "\<forall>w eps. fst (et_new deaf_etcd w eps) \<noteq> None" by (simp add: deaf_etcd_def)
  then show ?thesis using failed_election_leads [OF c(2,3), of deaf_etcd "()" mem_sched "Inr [''x|y'']" demo_registry "''run''"] c(1) by auto
qed

end
