(* ===== verification/ControlStore.thy ===== *)
theory ControlStore
  imports Tools
begin

text \<open>
  internal/controlplane: the data of the control plane (types.go) and its tables (store.go). PostgreSQL is outside: the statements the
  code sends are a datatype, their meaning under the schema of EnsureSchema is apply_sql, and what an environment does with them is a
  parameter with the laws pg_laws. The state of every component of the control plane is one world of type 'w.
\<close>

section \<open>Errors\<close>

datatype cp_error = ErrNoRows | ErrText string

definition err_text :: "cp_error \<Rightarrow> string" where
  "err_text e = (case e of ErrNoRows \<Rightarrow> ''sql: no rows in result set'' | ErrText t \<Rightarrow> t)"

text \<open>The loop of contains, from position i on.\<close>

function contains_from :: "nat \<Rightarrow> string \<Rightarrow> string \<Rightarrow> bool" where
  "contains_from i s sub =
     (if i + length sub \<le> length s then take (length sub) (drop i s) = sub \<or> contains_from (Suc i) s sub else False)"
  by pat_completeness auto

termination by (relation "measure (\<lambda>(i, s, sub). Suc (length s) - i)") auto

declare contains_from.simps [simp del]

definition cp_contains :: "string \<Rightarrow> string \<Rightarrow> bool" where "cp_contains s sub = contains_from 0 s sub"

definition IsConflict :: "cp_error option \<Rightarrow> bool" where
  "IsConflict err =
     (case err of
        None \<Rightarrow> False
      | Some e \<Rightarrow> err_text e \<noteq> [] \<and> (cp_contains (err_text e) ''agent_runs_one_active_idx'' \<or> cp_contains (err_text e) ''duplicate key''))"

section \<open>Agents and runs\<close>

definition ModelScopeAgentModel :: string where "ModelScopeAgentModel = ''Qwen/Qwen3.5-35B-A3B''"
definition DefaultAgentModel :: string where "DefaultAgentModel = ModelScopeAgentModel"
definition StatusProvisioning :: string where "StatusProvisioning = ''provisioning''"
definition StatusRunning :: string where "StatusRunning = ''running''"
definition StatusStopped :: string where "StatusStopped = ''stopped''"
definition StatusFailed :: string where "StatusFailed = ''failed''"

lemmas agent_status = StatusProvisioning_def StatusRunning_def StatusStopped_def StatusFailed_def

text \<open>Slices are None when nil; a time is its number of nanoseconds.\<close>

record AgentSpec =
  as_ID :: string
  as_Name :: string
  as_Role :: string
  as_SystemPrompt :: string
  as_Model :: string
  as_Image :: string
  as_CPUQuotaUS :: int
  as_MemoryMB :: int
  as_PidsLimit :: int
  as_Tools :: "string list option"
  as_WorkspacePolicy :: string
  as_Status :: string
  as_VolumeName :: string
  as_ContainerID :: string
  as_LastError :: string
  as_CreatedAt :: int
  as_UpdatedAt :: int

definition zero_time :: int where "zero_time = - 62135596800000000000"

definition zero_agent :: AgentSpec where
  "zero_agent = \<lparr> as_ID = [], as_Name = [], as_Role = [], as_SystemPrompt = [], as_Model = [], as_Image = [], as_CPUQuotaUS = 0,
     as_MemoryMB = 0, as_PidsLimit = 0, as_Tools = None, as_WorkspacePolicy = [], as_Status = [], as_VolumeName = [], as_ContainerID = [],
     as_LastError = [], as_CreatedAt = zero_time, as_UpdatedAt = zero_time \<rparr>"

record AgentRun =
  ar_RunID :: string
  ar_AgentID :: string
  ar_TraceID :: string
  ar_Prompt :: string
  ar_Status :: string
  ar_Error :: string
  ar_Summary :: string
  ar_CreatedAt :: int
  ar_UpdatedAt :: int

record CreateAgentInput =
  ci_Name :: string
  ci_Role :: string
  ci_SystemPrompt :: string
  ci_Model :: string
  ci_Image :: string
  ci_CPUQuotaUS :: int
  ci_MemoryMB :: int
  ci_PidsLimit :: int
  ci_Tools :: "string list option"
  ci_WorkspacePolicy :: string

definition isSupportedAgentModel :: "string \<Rightarrow> bool" where
  "isSupportedAgentModel model = (model = DefaultAgentModel)"

definition Validate_input :: "Unicode \<Rightarrow> CreateAgentInput \<Rightarrow> string \<Rightarrow> cp_error option" where
  "Validate_input U i defaultImage =
     (if length (TrimSpace (ci_Name i)) < 2 \<or> length (ci_Name i) > 80 then Some (ErrText ''name must contain 2-80 characters'')
      else if length (TrimSpace (ci_Role i)) = 0 \<or> length (ci_Role i) > 120
        then Some (ErrText ''role is required and must not exceed 120 characters'')
      else if length (ci_SystemPrompt i) > 12000 then Some (ErrText ''systemPrompt must not exceed 12000 characters'')
      else if ci_Model i \<noteq> [] \<and> \<not> isSupportedAgentModel (ci_Model i)
        then Some (ErrText (''unsupported model '' @ Quote U (ci_Model i) @ ''; supported model is '' @ Quote U DefaultAgentModel))
      else if ci_Image i \<noteq> [] \<and> ci_Image i \<noteq> defaultImage then Some (ErrText (''image '' @ Quote U (ci_Image i) @ '' is not allowed''))
      else if ci_CPUQuotaUS i < 0 \<or> ci_MemoryMB i < 0 \<or> ci_PidsLimit i < 0 then Some (ErrText ''resource limits cannot be negative'')
      else if ci_WorkspacePolicy i \<noteq> [] \<and> ci_WorkspacePolicy i \<noteq> ''retain'' \<and> ci_WorkspacePolicy i \<noteq> ''delete''
        then Some (ErrText ''workspacePolicy must be retain or delete'')
      else None)"

definition normalizeCreate :: "CreateAgentInput \<Rightarrow> string \<Rightarrow> CreateAgentInput" where
  "normalizeCreate i defaultImage =
     i\<lparr> ci_Name := TrimSpace (ci_Name i), ci_Role := TrimSpace (ci_Role i),
        ci_Image := (if ci_Image i = [] then defaultImage else ci_Image i),
        ci_Model := (if ci_Model i = [] then DefaultAgentModel else ci_Model i),
        ci_CPUQuotaUS := (if ci_CPUQuotaUS i = 0 then 50000 else ci_CPUQuotaUS i),
        ci_MemoryMB := (if ci_MemoryMB i = 0 then 256 else ci_MemoryMB i),
        ci_PidsLimit := (if ci_PidsLimit i = 0 then 256 else ci_PidsLimit i),
        ci_WorkspacePolicy := (if ci_WorkspacePolicy i = [] then ''retain'' else ci_WorkspacePolicy i) \<rparr>"

section \<open>Tables\<close>

text \<open>A row of agents: the spec without its tools, and the column tools_json.\<close>

type_synonym agent_row = "AgentSpec \<times> json"

record tables =
  tb_agents :: "agent_row list"
  tb_runs :: "AgentRun list"

datatype sql_stmt =
    EnsureTables
  | InsertAgent agent_row
  | SetRuntime string string string string
  | DeleteAgentRow string
  | InsertRun string string string string string
  | SetRunResult string string string string

datatype violation = Duplicate string | ForeignKey string

definition row_id :: "agent_row \<Rightarrow> string" where "row_id r = as_ID (fst r)"
definition row_name :: "agent_row \<Rightarrow> string" where "row_name r = as_Name (fst r)"

definition active_run :: "AgentRun \<Rightarrow> bool" where "active_run r = (ar_Status r = ''running'')"

definition set_runtime :: "int \<Rightarrow> string \<Rightarrow> string \<Rightarrow> string \<Rightarrow> string \<Rightarrow> agent_row \<Rightarrow> agent_row" where
  "set_runtime now i status cid err r =
     (if row_id r = i then ((fst r)\<lparr> as_Status := status, as_ContainerID := cid, as_LastError := err, as_UpdatedAt := now \<rparr>, snd r) else r)"

definition set_result :: "int \<Rightarrow> string \<Rightarrow> string \<Rightarrow> string \<Rightarrow> string \<Rightarrow> AgentRun \<Rightarrow> AgentRun" where
  "set_result now i status summary err r =
     (if ar_RunID r = i then r\<lparr> ar_Status := status, ar_Summary := summary, ar_Error := err, ar_UpdatedAt := now \<rparr> else r)"

definition migrate_model :: "int \<Rightarrow> agent_row \<Rightarrow> agent_row" where
  "migrate_model now r =
     (if as_Model (fst r) = ''Qwen/Qwen3.6-27B'' then ((fst r)\<lparr> as_Model := ''Qwen/Qwen3.5-35B-A3B'', as_UpdatedAt := now \<rparr>, snd r) else r)"

fun apply_sql :: "int \<Rightarrow> tables \<Rightarrow> sql_stmt \<Rightarrow> (violation, tables) result" where
  "apply_sql now tb EnsureTables = Inr (tb\<lparr> tb_agents := map (migrate_model now) (tb_agents tb) \<rparr>)"
| "apply_sql now tb (InsertAgent r) =
     (if row_id r \<in> set (map row_id (tb_agents tb)) then Inl (Duplicate ''agents_pkey'')
      else if row_name r \<in> set (map row_name (tb_agents tb)) then Inl (Duplicate ''agents_name_key'')
      else Inr (tb\<lparr> tb_agents := tb_agents tb @ [((fst r)\<lparr> as_CreatedAt := now, as_UpdatedAt := now \<rparr>, snd r)] \<rparr>))"
| "apply_sql now tb (SetRuntime i status cid err) = Inr (tb\<lparr> tb_agents := map (set_runtime now i status cid err) (tb_agents tb) \<rparr>)"
| "apply_sql now tb (DeleteAgentRow i) =
     Inr (tb\<lparr> tb_agents := filter (\<lambda>r. row_id r \<noteq> i) (tb_agents tb), tb_runs := filter (\<lambda>r. ar_AgentID r \<noteq> i) (tb_runs tb) \<rparr>)"
| "apply_sql now tb (InsertRun i aid tid prompt status) =
     (if i \<in> set (map ar_RunID (tb_runs tb)) then Inl (Duplicate ''agent_runs_pkey'')
      else if status = ''running'' \<and> (\<exists>r\<in>set (tb_runs tb). active_run r \<and> ar_AgentID r = aid) then Inl (Duplicate ''agent_runs_one_active_idx'')
      else if aid \<notin> set (map row_id (tb_agents tb)) then Inl (ForeignKey ''agent_runs_agent_id_fkey'')
      else Inr (tb\<lparr> tb_runs := tb_runs tb @ [\<lparr> ar_RunID = i, ar_AgentID = aid, ar_TraceID = tid, ar_Prompt = prompt, ar_Status = status,
             ar_Error = [], ar_Summary = [], ar_CreatedAt = now, ar_UpdatedAt = now \<rparr>] \<rparr>))"
| "apply_sql now tb (SetRunResult i status summary err) =
     (if status = ''running'' \<and>
         (\<exists>r\<in>set (tb_runs tb). ar_RunID r = i \<and> (\<exists>q\<in>set (tb_runs tb). active_run q \<and> ar_AgentID q = ar_AgentID r \<and> ar_RunID q \<noteq> i))
      then Inl (Duplicate ''agent_runs_one_active_idx'')
      else Inr (tb\<lparr> tb_runs := map (set_result now i status summary err) (tb_runs tb) \<rparr>))"

text \<open>What PostgreSQL says of a violated constraint.\<close>

definition violation_text :: "violation \<Rightarrow> string" where
  "violation_text v =
     (case v of
        Duplicate c \<Rightarrow> ''duplicate key value violates unique constraint '' @ [CHR 0x22] @ c @ [CHR 0x22]
      | ForeignKey c \<Rightarrow> ''insert or update on table '' @ [CHR 0x22] @ ''agent_runs'' @ [CHR 0x22] @
          '' violates foreign key constraint '' @ [CHR 0x22] @ c @ [CHR 0x22])"

record 'w PgEnv =
  pg_open :: "'w \<Rightarrow> string \<Rightarrow> string option \<times> 'w"
  pg_ping :: "'w \<Rightarrow> string option"
  pg_close :: "'w \<Rightarrow> 'w"
  pg_exec :: "'w \<Rightarrow> sql_stmt \<Rightarrow> string option \<times> 'w"
  pg_agent :: "'w \<Rightarrow> string \<Rightarrow> (string, agent_row option) result"
  pg_agents :: "'w \<Rightarrow> (string, agent_row list) result"
  pg_run :: "'w \<Rightarrow> string \<Rightarrow> (string, AgentRun option) result"
  pg_runs :: "'w \<Rightarrow> string option \<Rightarrow> (string, AgentRun list) result"
  pg_count :: "'w \<Rightarrow> (string, int) result"

section \<open>The store\<close>

definition Store_exec :: "'w PgEnv \<Rightarrow> 'w \<Rightarrow> sql_stmt \<Rightarrow> cp_error option \<times> 'w" where
  "Store_exec E w st = (let (err, w1) = pg_exec E w st in (map_option ErrText err, w1))"

definition OpenStore :: "'w PgEnv \<Rightarrow> 'w \<Rightarrow> string \<Rightarrow> cp_error option \<times> 'w" where
  "OpenStore E w dsn =
     (case pg_open E w dsn of
        (Some e, w1) \<Rightarrow> (Some (ErrText e), w1)
      | (None, w1) \<Rightarrow>
          (case pg_ping E w1 of
             Some e \<Rightarrow> (Some (ErrText e), pg_close E w1)
           | None \<Rightarrow>
               (case Store_exec E w1 EnsureTables of
                  (Some e, w2) \<Rightarrow> (Some e, pg_close E w2)
                | (None, w2) \<Rightarrow> (None, w2))))"

text \<open>Tools are written as JSON, a nil slice as null.\<close>

definition tools_json :: "string list option \<Rightarrow> json" where
  "tools_json ts = (case ts of None \<Rightarrow> JNull | Some l \<Rightarrow> JArr (map JStr l))"

definition Store_Create :: "'w PgEnv \<Rightarrow> 'w \<Rightarrow> AgentSpec \<Rightarrow> cp_error option \<times> 'w" where
  "Store_Create E w a = Store_exec E w (InsertAgent (a\<lparr> as_Tools := None \<rparr>, tools_json (as_Tools a)))"

definition UpdateRuntime :: "'w PgEnv \<Rightarrow> 'w \<Rightarrow> string \<Rightarrow> string \<Rightarrow> string \<Rightarrow> string \<Rightarrow> cp_error option \<times> 'w" where
  "UpdateRuntime E w i status cid lastError = Store_exec E w (SetRuntime i status cid lastError)"

text \<open>Only the code writes the column: it holds null or an array of strings.\<close>

definition scanAgent :: "agent_row \<Rightarrow> AgentSpec" where
  "scanAgent r = (fst r)\<lparr> as_Tools := dec_array dec_str [] (snd r) \<rparr>"

definition Store_Get :: "'w PgEnv \<Rightarrow> 'w \<Rightarrow> string \<Rightarrow> (cp_error, AgentSpec) result" where
  "Store_Get E w i =
     (case pg_agent E w i of
        Inl e \<Rightarrow> Inl (ErrText e)
      | Inr None \<Rightarrow> Inl ErrNoRows
      | Inr (Some r) \<Rightarrow> Inr (scanAgent r))"

text \<open>The slice of an empty table is nil.\<close>

definition Store_List :: "'w PgEnv \<Rightarrow> 'w \<Rightarrow> (cp_error, AgentSpec list option) result" where
  "Store_List E w =
     (case pg_agents E w of
        Inl e \<Rightarrow> Inl (ErrText e)
      | Inr rs \<Rightarrow> Inr (if rs = [] then None else Some (map scanAgent rs)))"

definition Store_Delete :: "'w PgEnv \<Rightarrow> 'w \<Rightarrow> string \<Rightarrow> cp_error option \<times> 'w" where
  "Store_Delete E w i = Store_exec E w (DeleteAgentRow i)"

definition CreateRun :: "'w PgEnv \<Rightarrow> 'w \<Rightarrow> AgentRun \<Rightarrow> cp_error option \<times> 'w" where
  "CreateRun E w r = Store_exec E w (InsertRun (ar_RunID r) (ar_AgentID r) (ar_TraceID r) (ar_Prompt r) (ar_Status r))"

definition FinishRun :: "'w PgEnv \<Rightarrow> 'w \<Rightarrow> string \<Rightarrow> string \<Rightarrow> string \<Rightarrow> string \<Rightarrow> cp_error option \<times> 'w" where
  "FinishRun E w i status summary runErr = Store_exec E w (SetRunResult i status summary runErr)"

definition ListRuns :: "'w PgEnv \<Rightarrow> 'w \<Rightarrow> string \<Rightarrow> (cp_error, AgentRun list) result" where
  "ListRuns E w agentID =
     (case pg_runs E w (if agentID \<noteq> [] then Some agentID else None) of Inl e \<Rightarrow> Inl (ErrText e) | Inr rs \<Rightarrow> Inr rs)"

definition ActiveRunCount :: "'w PgEnv \<Rightarrow> 'w \<Rightarrow> (cp_error, int) result" where
  "ActiveRunCount E w = (case pg_count E w of Inl e \<Rightarrow> Inl (ErrText e) | Inr n \<Rightarrow> Inr n)"

definition GetRun :: "'w PgEnv \<Rightarrow> 'w \<Rightarrow> string \<Rightarrow> (cp_error, AgentRun) result" where
  "GetRun E w i =
     (case pg_run E w i of
        Inl e \<Rightarrow> Inl (ErrText e)
      | Inr None \<Rightarrow> Inl ErrNoRows
      | Inr (Some r) \<Rightarrow> Inr r)"

section \<open>What PostgreSQL promises\<close>

text \<open>A statement that succeeds has its effect; one that fails has its effect or none. A query that succeeds reads the tables.\<close>

definition newest_first :: "('r \<Rightarrow> int) \<Rightarrow> 'r list \<Rightarrow> 'r list \<Rightarrow> bool" where
  "newest_first t rs xs \<longleftrightarrow> mset rs = mset xs \<and> sorted_wrt (\<lambda>a b. t b \<le> t a) rs"

definition run_matches :: "string option \<Rightarrow> AgentRun \<Rightarrow> bool" where
  "run_matches f r = (case f of None \<Rightarrow> True | Some i \<Rightarrow> ar_AgentID r = i)"

definition pg_laws :: "'w PgEnv \<Rightarrow> ('w \<Rightarrow> tables) \<Rightarrow> bool" where
  "pg_laws E tb \<longleftrightarrow>
     (\<forall>w st w'. pg_exec E w st = (None, w') \<longrightarrow> (\<exists>now. apply_sql now (tb w) st = Inr (tb w'))) \<and>
     (\<forall>w st e w'. pg_exec E w st = (Some e, w') \<longrightarrow> tb w' = tb w \<or> (\<exists>now. apply_sql now (tb w) st = Inr (tb w'))) \<and>
     (\<forall>w i r. pg_agent E w i = Inr r \<longrightarrow> r = find (\<lambda>r. row_id r = i) (tb_agents (tb w))) \<and>
     (\<forall>w rs. pg_agents E w = Inr rs \<longrightarrow> newest_first (\<lambda>r. as_CreatedAt (fst r)) rs (tb_agents (tb w))) \<and>
     (\<forall>w i r. pg_run E w i = Inr r \<longrightarrow> r = find (\<lambda>r. ar_RunID r = i) (tb_runs (tb w))) \<and>
     (\<forall>w f rs. pg_runs E w f = Inr rs \<longrightarrow> (\<exists>xs. newest_first ar_CreatedAt xs (filter (run_matches f) (tb_runs (tb w))) \<and> rs = take 100 xs)) \<and>
     (\<forall>w n. pg_count E w = Inr n \<longrightarrow> n = int (length (filter active_run (tb_runs (tb w)))))"

text \<open>PostgreSQL answers: it executes what violates no constraint, and reports what does. A text value cannot hold a zero byte.\<close>

fun stmt_texts :: "sql_stmt \<Rightarrow> string list" where
  "stmt_texts EnsureTables = []"
| "stmt_texts (InsertAgent (a, tools)) = [as_ID a, as_Name a, as_Role a, as_SystemPrompt a, as_Model a, as_Image a, as_WorkspacePolicy a,
     as_Status a, as_VolumeName a, as_ContainerID a, as_LastError a] @ (case tools of JArr vs \<Rightarrow> map (\<lambda>v. case v of JStr t \<Rightarrow> t | _ \<Rightarrow> []) vs | _ \<Rightarrow> [])"
| "stmt_texts (SetRuntime i status cid err) = [i, status, cid, err]"
| "stmt_texts (DeleteAgentRow i) = [i]"
| "stmt_texts (InsertRun i aid tid prompt status) = [i, aid, tid, prompt, status]"
| "stmt_texts (SetRunResult i status summary err) = [i, status, summary, err]"

definition nul_free :: "string list \<Rightarrow> bool" where "nul_free ts = (\<forall>t\<in>set ts. CHR 0x00 \<notin> set t)"

definition pg_up :: "'w PgEnv \<Rightarrow> ('w \<Rightarrow> tables) \<Rightarrow> bool" where
  "pg_up E tb \<longleftrightarrow>
     (\<forall>w st now v. nul_free (stmt_texts st) \<longrightarrow> apply_sql now (tb w) st = Inl v \<longrightarrow>
        (\<exists>pre post. fst (pg_exec E w st) = Some (pre @ violation_text v @ post))) \<and>
     (\<forall>w st now tb'. nul_free (stmt_texts st) \<longrightarrow> apply_sql now (tb w) st = Inr tb' \<longrightarrow> fst (pg_exec E w st) = None) \<and>
     (\<forall>w i. is_ok (pg_agent E w i)) \<and> (\<forall>w. is_ok (pg_agents E w)) \<and> (\<forall>w i. is_ok (pg_run E w i)) \<and> (\<forall>w f. is_ok (pg_runs E w f)) \<and>
     (\<forall>w. is_ok (pg_count E w))"

section \<open>The invariant of the tables\<close>

definition tables_ok :: "tables \<Rightarrow> bool" where
  "tables_ok tb \<longleftrightarrow>
     distinct (map row_id (tb_agents tb)) \<and> distinct (map row_name (tb_agents tb)) \<and> distinct (map ar_RunID (tb_runs tb)) \<and>
     ar_AgentID ` set (tb_runs tb) \<subseteq> row_id ` set (tb_agents tb) \<and>
     distinct (map ar_AgentID (filter active_run (tb_runs tb)))"

lemma contains_from_iff: "contains_from i s sub \<longleftrightarrow> (\<exists>k\<ge>i. k + length sub \<le> length s \<and> take (length sub) (drop k s) = sub)"
proof (induction i s sub rule: contains_from.induct)
  case (1 i s sub)
  show ?case
  proof (cases "i + length sub \<le> length s")
    case True
    have "k \<ge> i \<longleftrightarrow> k = i \<or> k \<ge> Suc i" for k by auto
    then have "(\<exists>k\<ge>i. P k) \<longleftrightarrow> P i \<or> (\<exists>k\<ge>Suc i. P k)" for P by auto
    then show ?thesis using 1 True by (subst contains_from.simps) simp
  next
    case False
    then show ?thesis by (subst contains_from.simps) auto
  qed
qed

lemma cp_contains: "cp_contains s sub \<longleftrightarrow> Contains s sub"
proof -
  have "take (length sub) (drop k s) = sub \<longleftrightarrow> (\<exists>b. drop k s = sub @ b)" for k
    by (metis append_eq_conv_conj append_take_drop_id)
  moreover have "(\<exists>a b. s = a @ sub @ b) \<longleftrightarrow> (\<exists>k\<le>length s. \<exists>b. drop k s = sub @ b)"
    by (metis append_eq_conv_conj append_take_drop_id le_add1 length_append)
  moreover have "k + length sub \<le> length s" if "drop k s = sub @ b" "k \<le> length s" for k b
    using that by (metis add.commute diff_add_inverse2 le_add1 le_diff_conv2 length_append length_drop)
  ultimately show ?thesis unfolding cp_contains_def contains_from_iff Contains_iff by (metis add_leD1 le0)
qed

lemma conflict_text: "IsConflict (Some (ErrText (pre @ violation_text (Duplicate c) @ post)))"
proof -
  have "Contains (pre @ violation_text (Duplicate c) @ post) ''duplicate key''" unfolding Contains_iff violation_text_def
    by (rule exI [of _ pre], rule exI [of _ "'' value violates unique constraint '' @ [CHR 0x22] @ c @ [CHR 0x22] @ post"]) simp
  then show ?thesis by (simp add: IsConflict_def err_text_def cp_contains violation_text_def)
qed

lemma row_maps [simp]:
  "row_id (set_runtime now i status cid err r) = row_id r" "row_name (set_runtime now i status cid err r) = row_name r"
  "row_id (migrate_model now r) = row_id r" "row_name (migrate_model now r) = row_name r"
  by (simp_all add: set_runtime_def migrate_model_def row_id_def row_name_def)

lemma run_maps [simp]:
  "ar_RunID (set_result now i status summary err r) = ar_RunID r" "ar_AgentID (set_result now i status summary err r) = ar_AgentID r"
  by (simp_all add: set_result_def)

lemma map_row_maps [simp]:
  "map row_id (map (set_runtime now i status cid err) rs) = map row_id rs"
  "map row_name (map (set_runtime now i status cid err) rs) = map row_name rs"
  "map row_id (map (migrate_model now) rs) = map row_id rs" "map row_name (map (migrate_model now) rs) = map row_name rs"
  "map ar_RunID (map (set_result now i status summary err) qs) = map ar_RunID qs"
  by simp_all

lemma row_images [simp]:
  "row_id ` (set_runtime now i status cid err ` S) = row_id ` S" "row_id ` (migrate_model now ` S) = row_id ` S"
  "ar_AgentID ` (set_result now i status summary err ` Q) = ar_AgentID ` Q"
  by (simp_all add: image_image)

lemma active_set_result:
  assumes "status \<noteq> ''running''"
  shows "map ar_AgentID (filter active_run (map (set_result now i status summary err) rs)) =
    map ar_AgentID (filter (\<lambda>r. ar_RunID r \<noteq> i) (filter active_run rs))"
  using assms by (induction rs) (auto simp: set_result_def active_run_def)

lemma active_set_running:
  assumes "distinct (map ar_AgentID (filter active_run rs))" "distinct (map ar_RunID rs)"
    and "\<forall>r\<in>set rs. ar_RunID r = i \<longrightarrow> (\<forall>q\<in>set rs. active_run q \<longrightarrow> ar_AgentID q = ar_AgentID r \<longrightarrow> ar_RunID q = i)"
  shows "distinct (map ar_AgentID (filter active_run (map (set_result now i ''running'' summary err) rs)))"
  using assms
proof (induction rs)
  case (Cons r rs)
  have act: "active_run (set_result now i ''running'' summary err q) \<longleftrightarrow> active_run q \<or> ar_RunID q = i" for q
    by (simp add: set_result_def active_run_def)
  let ?f = "set_result now i ''running'' summary err"
  have new: "ar_AgentID q \<noteq> ar_AgentID r" if "active_run r \<or> ar_RunID r = i" "q \<in> set rs" "active_run q \<or> ar_RunID q = i" for q
  proof (cases "ar_RunID r = i")
    case True
    then have "ar_RunID q \<noteq> i" using that(2) Cons.prems(2) by (metis distinct.simps(2) imageI list.set_map list.simps(9))
    then show ?thesis using that True Cons.prems(3) by (metis list.set_intros)
  next
    case False
    then have r: "active_run r" using that(1) by simp
    show ?thesis
    proof (cases "ar_RunID q = i")
      case True
      then have "ar_AgentID r = ar_AgentID q \<longrightarrow> ar_RunID r = i" using Cons.prems(3) [rule_format, of q r] r that(2) by simp
      then show ?thesis using False by metis
    next
      case False
      then have "ar_AgentID q \<in> set (map ar_AgentID (filter active_run rs))" using that(2,3) by simp
      then show ?thesis using Cons.prems(1) r by (metis distinct.simps(2) filter.simps(2) list.simps(9))
    qed
  qed
  have d: "distinct (map ar_AgentID (filter active_run (map ?f rs)))"
  proof (rule Cons.IH)
    show "distinct (map ar_AgentID (filter active_run rs))" using Cons.prems(1) by (cases "active_run r") simp_all
    show "distinct (map ar_RunID rs)" using Cons.prems(2) by simp
    show "\<forall>r\<in>set rs. ar_RunID r = i \<longrightarrow> (\<forall>q\<in>set rs. active_run q \<longrightarrow> ar_AgentID q = ar_AgentID r \<longrightarrow> ar_RunID q = i)"
      using Cons.prems(3) by (meson list.set_intros(2))
  qed
  show ?case
  proof (cases "active_run r \<or> ar_RunID r = i")
    case True
    then have "filter active_run (map ?f (r # rs)) = ?f r # filter active_run (map ?f rs)" by (simp add: act)
    moreover have "ar_AgentID r \<notin> set (map ar_AgentID (filter active_run (map ?f rs)))"
      using new [OF True] by (fastforce simp: act)
    ultimately show ?thesis using d by (simp only: list.map distinct.simps run_maps simp_thms not_False_eq_True)
  next
    case False
    then show ?thesis using d by (simp add: act)
  qed
qed simp

lemma filter_swap: "filter P (filter Q xs) = filter Q (filter P xs)"
  by (induction xs) simp_all

lemma apply_sql_ok:
  assumes "tables_ok tb" "apply_sql now tb st = Inr tb'"
  shows "tables_ok tb'"
proof (cases st)
  case (DeleteAgentRow i)
  have "distinct (map ar_AgentID (filter active_run (filter (\<lambda>r. ar_AgentID r \<noteq> i) (tb_runs tb))))"
    unfolding filter_swap [of active_run] using assms(1) by (simp add: tables_ok_def distinct_map_filter del: filter_filter)
  moreover have "ar_AgentID ` {r \<in> set (tb_runs tb). ar_AgentID r \<noteq> i} \<subseteq> row_id ` {r \<in> set (tb_agents tb). row_id r \<noteq> i}"
  proof
    fix a assume "a \<in> ar_AgentID ` {r \<in> set (tb_runs tb). ar_AgentID r \<noteq> i}"
    then have "a \<in> ar_AgentID ` set (tb_runs tb)" "a \<noteq> i" by auto
    then have "a \<in> row_id ` set (tb_agents tb)" "a \<noteq> i" using assms(1) by (auto simp: tables_ok_def)
    then show "a \<in> row_id ` {r \<in> set (tb_agents tb). row_id r \<noteq> i}" by auto
  qed
  moreover have tb': "tb' = tb\<lparr> tb_agents := filter (\<lambda>r. row_id r \<noteq> i) (tb_agents tb), tb_runs := filter (\<lambda>r. ar_AgentID r \<noteq> i) (tb_runs tb) \<rparr>"
    using assms(2) DeleteAgentRow by simp
  ultimately show ?thesis unfolding tb' using assms(1) by (simp add: tables_ok_def distinct_map_filter)
next
  case (SetRunResult i status summary err)
  let ?rs = "map (set_result now i status summary err) (tb_runs tb)"
  have "distinct (map ar_AgentID (filter active_run ?rs))"
  proof (cases "status = ''running''")
    case True
    have "\<forall>r\<in>set (tb_runs tb). ar_RunID r = i \<longrightarrow> (\<forall>q\<in>set (tb_runs tb). active_run q \<longrightarrow> ar_AgentID q = ar_AgentID r \<longrightarrow> ar_RunID q = i)"
      using assms(2) unfolding SetRunResult True by (simp split: if_splits)
    with assms(1) show ?thesis unfolding True tables_ok_def by (elim conjE) (rule active_set_running)
  next
    case False
    have "distinct (map ar_AgentID (filter active_run (tb_runs tb)))" using assms(1) by (simp add: tables_ok_def)
    then show ?thesis unfolding active_set_result [OF False] by (rule distinct_map_filter)
  qed
  moreover have tb': "tb' = tb\<lparr> tb_runs := ?rs \<rparr>" using assms(2) SetRunResult by (simp split: if_splits)
  ultimately show ?thesis unfolding tb' using assms(1) by (simp add: tables_ok_def del: filter_map map_map)
next
  case (InsertRun i aid tid prompt status)
  let ?r = "\<lparr> ar_RunID = i, ar_AgentID = aid, ar_TraceID = tid, ar_Prompt = prompt, ar_Status = status,
     ar_Error = [], ar_Summary = [], ar_CreatedAt = now, ar_UpdatedAt = now \<rparr>"
  have c: "i \<notin> set (map ar_RunID (tb_runs tb))" "aid \<in> set (map row_id (tb_agents tb))"
    "status = ''running'' \<longrightarrow> (\<forall>r\<in>set (tb_runs tb). active_run r \<longrightarrow> ar_AgentID r \<noteq> aid)" "tb' = tb\<lparr> tb_runs := tb_runs tb @ [?r] \<rparr>"
    using assms(2) unfolding InsertRun by (simp_all split: if_splits)
  then show ?thesis unfolding c(4) using assms(1) by (auto simp: tables_ok_def active_run_def)
next
  case (InsertAgent r)
  let ?r = "((fst r)\<lparr> as_CreatedAt := now, as_UpdatedAt := now \<rparr>, snd r)"
  have c: "row_id r \<notin> set (map row_id (tb_agents tb))" "row_name r \<notin> set (map row_name (tb_agents tb))"
    "tb' = tb\<lparr> tb_agents := tb_agents tb @ [?r] \<rparr>" using assms(2) unfolding InsertAgent by (simp_all split: if_splits)
  have "row_id ?r = row_id r" "row_name ?r = row_name r" by (simp_all add: row_id_def row_name_def)
  then show ?thesis unfolding c(3) using assms(1) c(1,2) by (simp add: tables_ok_def subset_insertI2)
next
  case EnsureTables
  then have "tb' = tb\<lparr> tb_agents := map (migrate_model now) (tb_agents tb) \<rparr>" using assms(2) by simp
  then show ?thesis using assms(1) by (simp add: tables_ok_def del: map_map)
next
  case (SetRuntime i status cid err)
  then have "tb' = tb\<lparr> tb_agents := map (set_runtime now i status cid err) (tb_agents tb) \<rparr>" using assms(2) by simp
  then show ?thesis using assms(1) by (simp add: tables_ok_def del: map_map)
qed

end
