(* ===== verification/Workspace.thy ===== *)
theory Workspace
  imports ControlStore GoPath
begin

text \<open>
  internal/controlplane/docker.go: the container and the workspace volume of a durable agent. The Docker client is outside: the operations
  of an environment; a tar stream is the list of its entries and how it ends.
\<close>

section \<open>Containers\<close>

datatype docker_error = DockerError (de_text: string) (de_notfound: bool)

record ContainerConfig =
  cc_Name :: string
  cc_Image :: string
  cc_Cmd :: "string list"
  cc_WorkingDir :: string
  cc_Labels :: tags
  cc_ReadonlyRootfs :: bool
  cc_NetworkMode :: string
  cc_SecurityOpt :: "string list"
  cc_CapDrop :: "string list"
  cc_Mounts :: "(string \<times> string) list"
  cc_Memory :: int
  cc_CPUQuota :: int
  cc_CPUPeriod :: int
  cc_PidsLimit :: int

record tar_entry =
  tr_Name :: string
  tr_Dir :: bool
  tr_Size :: int
  tr_Data :: string

text \<open>The error a stream ends with, None for EOF.\<close>

type_synonym tar = "tar_entry list \<times> string option"

record 'w DockerEnv =
  dk_ping :: "'w \<Rightarrow> docker_error option"
  dk_inspect_image :: "'w \<Rightarrow> string \<Rightarrow> docker_error option"
  dk_pull :: "'w \<Rightarrow> string \<Rightarrow> docker_error option \<times> 'w"
  dk_download :: "'w \<Rightarrow> string \<Rightarrow> docker_error option \<times> 'w"
  dk_volume_create :: "'w \<Rightarrow> string \<Rightarrow> tags \<Rightarrow> docker_error option \<times> 'w"
  dk_create :: "'w \<Rightarrow> ContainerConfig \<Rightarrow> (docker_error, string) result \<times> 'w"
  dk_start :: "'w \<Rightarrow> string \<Rightarrow> docker_error option \<times> 'w"
  dk_stop :: "'w \<Rightarrow> string \<Rightarrow> int \<Rightarrow> docker_error option \<times> 'w"
  dk_remove :: "'w \<Rightarrow> string \<Rightarrow> docker_error option \<times> 'w"
  dk_volume_remove :: "'w \<Rightarrow> string \<Rightarrow> docker_error option \<times> 'w"
  dk_copy_from :: "'w \<Rightarrow> string \<Rightarrow> string \<Rightarrow> (docker_error, tar) result"

definition docker_text :: "docker_error \<Rightarrow> cp_error" where "docker_text e = ErrText (de_text e)"

definition docker_wrap :: "string \<Rightarrow> docker_error \<Rightarrow> cp_error" where "docker_wrap what e = ErrText (what @ '': '' @ de_text e)"

definition Docker_ensureImage :: "Unicode \<Rightarrow> 'w DockerEnv \<Rightarrow> 'w \<Rightarrow> string \<Rightarrow> cp_error option \<times> 'w" where
  "Docker_ensureImage U D w ref =
     (case dk_inspect_image D w ref of
        None \<Rightarrow> (None, w)
      | Some e \<Rightarrow>
          if \<not> de_notfound e then (Some (docker_wrap ''inspect agent image'' e), w)
          else (case dk_pull D w ref of
              (Some e, w1) \<Rightarrow> (Some (docker_wrap (''pull agent image '' @ Quote U ref) e), w1)
            | (None, w1) \<Rightarrow>
                (case dk_download D w1 ref of
                   (Some e, w2) \<Rightarrow> (Some (docker_wrap (''download agent image '' @ Quote U ref) e), w2)
                 | (None, w2) \<Rightarrow> (None, w2))))"

definition agent_container :: "AgentSpec \<Rightarrow> ContainerConfig" where
  "agent_container a = \<lparr> cc_Name = ''agentforge-agent-'' @ as_ID a, cc_Image = as_Image a, cc_Cmd = [''sleep'', ''infinity''],
     cc_WorkingDir = ''/workspace'', cc_Labels = [(''agentforge.role'', ''persistent-agent''), (''agentforge.agent_id'', as_ID a)],
     cc_ReadonlyRootfs = True, cc_NetworkMode = ''none'', cc_SecurityOpt = [''no-new-privileges:true''], cc_CapDrop = [''ALL''],
     cc_Mounts = [(as_VolumeName a, ''/workspace'')], cc_Memory = wrap64 (wrap64 (as_MemoryMB a * 1024) * 1024), cc_CPUQuota = as_CPUQuotaUS a,
     cc_CPUPeriod = 100000, cc_PidsLimit = as_PidsLimit a \<rparr>"

definition Docker_Create :: "Unicode \<Rightarrow> 'w DockerEnv \<Rightarrow> 'w \<Rightarrow> AgentSpec \<Rightarrow> (cp_error, string) result \<times> 'w" where
  "Docker_Create U D w a =
     (case Docker_ensureImage U D w (as_Image a) of
        (Some e, w1) \<Rightarrow> (Inl e, w1)
      | (None, w1) \<Rightarrow>
          (case dk_volume_create D w1 (as_VolumeName a) [(''agentforge.agent_id'', as_ID a)] of
             (Some e, w2) \<Rightarrow> (Inl (docker_wrap ''create workspace volume'' e), w2)
           | (None, w2) \<Rightarrow>
               (case dk_create D w2 (agent_container a) of
                  (Inl e, w3) \<Rightarrow> (Inl (docker_text e), w3)
                | (Inr cid, w3) \<Rightarrow>
                    (case dk_start D w3 cid of
                       (Some e, w4) \<Rightarrow> (Inl (docker_text e), w4)
                     | (None, w4) \<Rightarrow> (Inr cid, w4)))))"

definition Docker_Start :: "'w DockerEnv \<Rightarrow> 'w \<Rightarrow> string \<Rightarrow> cp_error option \<times> 'w" where
  "Docker_Start D w cid = (let (e, w1) = dk_start D w cid in (map_option docker_text e, w1))"

definition Docker_Stop :: "'w DockerEnv \<Rightarrow> 'w \<Rightarrow> string \<Rightarrow> cp_error option \<times> 'w" where
  "Docker_Stop D w cid = (let (e, w1) = dk_stop D w cid 10 in (map_option docker_text e, w1))"

definition real_failure :: "docker_error option \<Rightarrow> docker_error option" where
  "real_failure e = (case e of None \<Rightarrow> None | Some d \<Rightarrow> if de_notfound d then None else Some d)"

definition Docker_Delete :: "'w DockerEnv \<Rightarrow> 'w \<Rightarrow> AgentSpec \<Rightarrow> cp_error option \<times> 'w" where
  "Docker_Delete D w a =
     (let (e1, w1) = (if as_ContainerID a \<noteq> [] then dk_remove D w (as_ContainerID a) else (None, w)) in
      case real_failure e1 of
        Some e \<Rightarrow> (Some (docker_wrap ''remove agent container'' e), w1)
      | None \<Rightarrow>
          if as_WorkspacePolicy a = ''delete''
          then (let (e2, w2) = dk_volume_remove D w1 (as_VolumeName a)
                in (map_option (docker_wrap ''remove agent workspace'') (real_failure e2), w2))
          else (None, w1))"

section \<open>Workspace files\<close>

definition safeWorkspacePath :: "string \<Rightarrow> string option" where
  "safeWorkspacePath p =
     (if ''..'' \<in> set (FieldsFunc (\<lambda>r. r = 47 \<or> r = 92) p) then None
      else (let q = TrimPrefix (path_Clean (slash @ p)) slash in Some (if q = ''.'' then [] else q)))"

record WorkspaceEntry =
  we_Path :: string
  we_Name :: string
  we_Directory :: bool
  we_Size :: int

definition path_Base :: "string \<Rightarrow> string" where
  "path_Base p =
     (if p = [] then ''.''
      else (let q = rev (dropWhile (\<lambda>c. c = CHR ''/'') (rev p));
                b = rev (takeWhile (\<lambda>c. c \<noteq> CHR ''/'') (rev q))
            in if b = [] then slash else b))"

definition workspace_entry :: "string \<Rightarrow> string \<Rightarrow> tar_entry \<Rightarrow> WorkspaceEntry option" where
  "workspace_entry dir archiveRoot h =
     (let name = TrimPrefix (path_Clean (tr_Name h)) ''./'' in
      if name = archiveRoot \<or> \<not> HasPrefix name (archiveRoot @ slash) then None
      else (let rel = TrimPrefix name (archiveRoot @ slash) in
        if Contains rel slash then None
        else Some \<lparr> we_Path = path_Join [dir, rel], we_Name = rel, we_Directory = tr_Dir h, we_Size = tr_Size h \<rparr>))"

definition readWorkspaceEntries :: "tar \<Rightarrow> string \<Rightarrow> string \<Rightarrow> (cp_error, WorkspaceEntry list) result" where
  "readWorkspaceEntries t dir archiveRoot =
     (case snd t of
        Some e \<Rightarrow> Inl (ErrText e)
      | None \<Rightarrow> Inr (List.map_filter (workspace_entry dir archiveRoot) (fst t)))"

definition invalid_path :: cp_error where "invalid_path = ErrText ''invalid workspace path''"

definition ListWorkspace :: "'w DockerEnv \<Rightarrow> 'w \<Rightarrow> AgentSpec \<Rightarrow> string \<Rightarrow> (cp_error, WorkspaceEntry list) result" where
  "ListWorkspace D w a dir =
     (case safeWorkspacePath dir of
        None \<Rightarrow> Inl invalid_path
      | Some p \<Rightarrow>
          (let target = path_Join [''/workspace'', p] in
           case dk_copy_from D w (as_ContainerID a) target of
             Inl e \<Rightarrow> Inl (docker_text e)
           | Inr t \<Rightarrow> readWorkspaceEntries t p (path_Base target)))"

text \<open>A stream that breaks off before the size of its first entry gives the error its end gives.\<close>

definition preview_limit :: int where "preview_limit = 256 * 1024"

definition preview :: "tar \<Rightarrow> (cp_error, string) result" where
  "preview t =
     (case fst t of
        [] \<Rightarrow> Inl (ErrText (case snd t of None \<Rightarrow> ''EOF'' | Some e \<Rightarrow> e))
      | h # _ \<Rightarrow>
          if tr_Size h > preview_limit then Inl (ErrText ''file exceeds 256 KiB preview limit'')
          else if int (length (tr_Data h)) < tr_Size h then Inl (ErrText (case snd t of None \<Rightarrow> ''EOF'' | Some e \<Rightarrow> e))
          else (let b = take (nat (tr_Size h)) (tr_Data h) in
            if CHR 0x00 \<in> set b then Inl (ErrText ''binary files cannot be previewed'') else Inr b))"

definition ReadWorkspaceFile :: "'w DockerEnv \<Rightarrow> 'w \<Rightarrow> AgentSpec \<Rightarrow> string \<Rightarrow> (cp_error, string) result" where
  "ReadWorkspaceFile D w a file =
     (case safeWorkspacePath file of
        None \<Rightarrow> Inl (ErrText ''invalid workspace file'')
      | Some p \<Rightarrow>
          if p = [] then Inl (ErrText ''invalid workspace file'')
          else (case dk_copy_from D w (as_ContainerID a) (path_Join [''/workspace'', p]) of
              Inl e \<Rightarrow> Inl (docker_text e)
            | Inr t \<Rightarrow> preview t))"

section \<open>Cleaned paths\<close>

text \<open>A cleaned relative path climbs first and descends then.\<close>

definition climbs :: "string list \<Rightarrow> bool" where
  "climbs cs \<longleftrightarrow> (\<exists>n ds. cs = replicate n ''..'' @ ds \<and> list_all comp_ok ds)"

lemma climbs_ok: "list_all comp_ok ds \<Longrightarrow> climbs ds"
  unfolding climbs_def by (rule exI [of _ 0]) simp

lemma climbs_no_sep: "climbs cs \<Longrightarrow> list_all (\<lambda>c. CHR ''/'' \<notin> set c) cs"
proof -
  assume "climbs cs"
  then obtain n ds where cs: "cs = replicate n ''..'' @ ds" "list_all comp_ok ds" unfolding climbs_def by blast
  have "list_all (\<lambda>c. CHR ''/'' \<notin> set c) (replicate n ''..'')" by (induction n) simp_all
  moreover have "list_all (\<lambda>c. CHR ''/'' \<notin> set c) ds" using cs(2) by (rule list.pred_mono_strong) (simp add: comp_ok_def)
  ultimately show ?thesis by (simp add: cs(1))
qed

lemma climbs_no_dot: "climbs cs \<Longrightarrow> ''.'' \<notin> set cs"
proof -
  assume "climbs cs"
  then obtain n ds where cs: "cs = replicate n ''..'' @ ds" "list_all comp_ok ds" unfolding climbs_def by blast
  have "''.'' \<notin> set ds"
  proof
    assume "''.'' \<in> set ds"
    then have "comp_ok ''.''" using cs(2) by (simp add: list_all_iff)
    then show False by (simp add: comp_ok_def)
  qed
  moreover have "''.'' \<notin> set (replicate n ''..'')" by (induction n) simp_all
  ultimately show ?thesis by (simp add: cs(1))
qed

lemma clean_comps_climbs:
  "climbs (rev out) \<Longrightarrow> list_all (\<lambda>c. CHR ''/'' \<notin> set c) cs \<Longrightarrow> climbs (clean_comps False out cs)"
proof (induction cs arbitrary: out)
  case (Cons c cs)
  note IH = Cons.IH [OF _ Cons.prems(2) [simplified, THEN conjunct2]]
  have push: "climbs (rev (c # out))" if "c \<noteq> []" "c \<noteq> ''.''" "c \<noteq> ''..''"
  proof -
    have "comp_ok c" using that Cons.prems(2) by (simp add: comp_ok_def)
    then show ?thesis using Cons.prems(1) by (fastforce simp: climbs_def)
  qed
  consider "c = [] \<or> c = ''.''" | "c = ''..''" "out = []" | d ds where "c = ''..''" "out = d # ds" | "c \<noteq> []" "c \<noteq> ''.''" "c \<noteq> ''..''"
    by (cases out) blast+
  then show ?case
  proof cases
    case 1
    then have "clean_comps False out (c # cs) = clean_comps False out cs" by auto
    then show ?thesis using IH Cons.prems(1) by simp
  next
    case 2
    have "climbs (rev [''..''])" unfolding climbs_def by (rule exI [of _ 1]) simp
    then show ?thesis using IH 2 by simp
  next
    case 3
    obtain n es where e: "rev ds @ [d] = replicate n ''..'' @ es" "list_all comp_ok es"
      using Cons.prems(1) 3 by (auto simp: climbs_def)
    show ?thesis
    proof (cases es rule: rev_cases)
      case Nil
      then obtain m where m: "n = Suc m" using e(1) by (cases n) auto
      then have "replicate n ''..'' = replicate m ''..'' @ [''..'']" by (simp add: replicate_append_same)
      then have "d = ''..''" "rev ds = replicate m ''..''" using e(1) Nil by auto
      then have "climbs (rev (c # out))" unfolding climbs_def using 3 m
        by (intro exI [of _ "Suc n"]) (simp add: replicate_append_same)
      then show ?thesis using IH 3 \<open>d = ''..''\<close> by simp
    next
      case (snoc fs f)
      then have "comp_ok d" "rev ds = replicate n ''..'' @ fs" "list_all comp_ok fs" using e by auto
      moreover have "climbs (rev ds)" using calculation(2,3) by (auto simp: climbs_def)
      moreover have "d \<noteq> ''..''" using calculation(1) by (auto simp: comp_ok_def)
      ultimately show ?thesis using IH 3 by simp
    qed
  next
    case 4
    then show ?thesis using IH push by simp
  qed
qed (simp add: clean_comps.simps)

lemma clean_forms:
  "path_Clean p = ''.'' \<or> (\<exists>cs. path_Clean p = slash @ Join cs slash) \<or> (\<exists>cs. climbs cs \<and> cs \<noteq> [] \<and> path_Clean p = Join cs slash)"
proof (cases "IsAbs p")
  case False
  have "climbs (clean_comps False [] (Split p slash))"
    by (rule clean_comps_climbs) (simp_all add: climbs_def slash_def Split_no_sep)
  then show ?thesis using False by (auto simp: path_Clean_def Let_def)
qed (auto simp: path_Clean_def Let_def)

text \<open>What lies below a proper component in a cleaned path is a path of proper components.\<close>

lemma clean_below:
  assumes "path_Clean p = r @ slash @ rel" "comp_ok r" "CHR ''/'' \<notin> set rel"
  shows "comp_ok rel"
proof -
  obtain x xs where r: "r = x # xs" using assms(2) by (cases r) (auto simp: comp_ok_def)
  have nr: "CHR ''/'' \<notin> set r" "r \<noteq> ''..''" using assms(2) by (simp_all add: comp_ok_def)
  have "path_Clean p \<noteq> ''.''" using assms(1,2) r by (auto simp: slash_def)
  moreover have "path_Clean p \<noteq> slash @ Join cs slash" for cs using assms(1) r nr by (auto simp: slash_def)
  ultimately obtain cs where cs: "climbs cs" "cs \<noteq> []" "path_Clean p = Join cs slash" using clean_forms [of p] by blast
  have nosep: "list_all (\<lambda>c. CHR ''/'' \<notin> set c) cs" by (rule climbs_no_sep [OF cs(1)])
  have "Split (Join cs slash) slash = cs" unfolding slash_def by (rule Split_Join [OF cs(2) nosep])
  moreover have "Split (Join [r, rel] slash) slash = [r, rel]"
    unfolding slash_def by (rule Split_Join) (use nr(1) assms(3) in simp_all)
  ultimately have "cs = [r, rel]" using cs(3) assms(1) by simp
  then obtain n ds where "[r, rel] = replicate n ''..'' @ ds" "list_all comp_ok ds" using cs(1) by (auto simp: climbs_def)
  then show ?thesis using nr(2) by (cases n) (auto simp: Cons_eq_append_conv)
qed

section \<open>Confinement\<close>

lemma Join_trim: "TrimPrefix (slash @ x) slash = x"
  by (simp add: TrimPrefix_def HasPrefix_def slash_def)

lemma Join_not_dot: "list_all comp_ok cs \<Longrightarrow> Join cs slash \<noteq> ''.''"
proof
  assume a: "list_all comp_ok cs" "Join cs slash = ''.''"
  then have "cs \<noteq> []" by auto
  then have "Split (Join cs slash) slash = cs" unfolding slash_def by (rule Split_Join) (use a in \<open>auto simp: list_all_iff comp_ok_def\<close>)
  moreover have "Split ''.'' slash = [''.'']" by (simp add: Split_def slash_def Index_char)
  ultimately show False using a by (auto simp: comp_ok_def)
qed

lemma safe_path:
  assumes "safeWorkspacePath p = Some q"
  shows "\<exists>cs. list_all comp_ok cs \<and> q = Join cs slash"
proof -
  have "IsAbs (slash @ p)" by (simp add: IsAbs_def)
  then obtain cs where cs: "list_all comp_ok cs" "path_Clean (slash @ p) = slash @ Join cs slash" using clean_abs by blast
  then have "q = Join cs slash"
    using assms Join_not_dot [OF cs(1)] by (simp add: safeWorkspacePath_def Join_trim split: if_splits)
  then show ?thesis using cs(1) by blast
qed

lemma clean_proper:
  assumes "list_all comp_ok cs"
  shows "path_Clean (slash @ Join cs slash) = slash @ Join cs slash"
proof (cases cs)
  case Nil
  then show ?thesis by (simp add: path_Clean_def slash_def IsAbs_def HasPrefix_def Split_def Index_char)
next
  case (Cons c ds)
  have "slash @ Join cs slash = Join ([] # cs) slash" using Cons by simp
  moreover have "Split (Join ([] # cs) slash) slash = [] # cs"
    unfolding slash_def by (rule Split_Join) (use assms in \<open>auto simp: list_all_iff comp_ok_def\<close>)
  ultimately have s: "Split (slash @ Join cs slash) slash = [] # cs" by simp
  have "IsAbs (slash @ Join cs slash)" "slash \<noteq> []" by (simp_all add: IsAbs_def) (simp add: slash_def)
  moreover have "clean_comps True [] ([] # cs) = cs" using clean_comps_id [OF assms, of True "[]"] by simp
  ultimately show ?thesis unfolding path_Clean_def Let_def s by simp
qed

lemma target_path:
  assumes "list_all comp_ok cs"
  shows "path_Join [''/workspace'', Join cs slash] = slash @ Join (''workspace'' # cs) slash"
proof (cases cs)
  case Nil
  have "path_Clean (slash @ Join [''workspace''] slash) = slash @ Join [''workspace''] slash"
    by (rule clean_proper) (simp add: comp_ok_def)
  then show ?thesis using Nil by (simp add: path_Join_def slash_def)
next
  case (Cons c ds)
  have "Join cs slash \<noteq> []" using assms Cons by (cases ds) (auto simp: comp_ok_def)
  moreover have "Join [''/workspace'', Join cs slash] slash = slash @ Join (''workspace'' # cs) slash"
    using Cons by (simp add: slash_def)
  moreover have "path_Clean (slash @ Join (''workspace'' # cs) slash) = slash @ Join (''workspace'' # cs) slash"
    by (rule clean_proper) (use assms in \<open>simp add: comp_ok_def\<close>)
  ultimately show ?thesis by (simp add: path_Join_def)
qed

lemma Base_last:
  assumes "list_all comp_ok cs" "cs \<noteq> []"
  shows "path_Base (slash @ Join cs slash) = last cs"
proof -
  obtain ds d where cs: "cs = ds @ [d]" using assms(2) by (cases cs rule: rev_cases) auto
  have "\<exists>x. slash @ Join (ds @ [d]) slash = x @ slash @ d" for ds
  proof (induction ds)
    case (Cons e es)
    then obtain x where "slash @ Join (es @ [d]) slash = x @ slash @ d" by blast
    then have "slash @ Join ((e # es) @ [d]) slash = (slash @ e @ x) @ slash @ d" by (simp add: Join_Cons)
    then show ?case by blast
  qed simp
  then obtain x where x: "slash @ Join cs slash = x @ slash @ d" using cs by blast
  have d: "d \<noteq> []" "\<forall>c\<in>set (rev d). c \<noteq> CHR ''/''" using assms(1) cs by (auto simp: comp_ok_def)
  then obtain y ys where y: "rev d = y # ys" "y \<noteq> CHR ''/''" by (cases "rev d") auto
  have "dropWhile (\<lambda>c. c = CHR ''/'') (rev (x @ slash @ d)) = rev (x @ slash @ d)" using y by simp
  moreover have "takeWhile (\<lambda>c. c \<noteq> CHR ''/'') (rev d @ rev (x @ slash)) = rev d" by (subst takeWhile_append2) (use d(2) in \<open>auto simp: slash_def\<close>)
  moreover have "x @ slash @ d \<noteq> []" by (simp add: slash_def)
  moreover have l: "last cs = d" by (simp add: cs)
  ultimately show ?thesis unfolding x l path_Base_def Let_def using d(1) by simp
qed

lemma clean_proper_rel:
  assumes "list_all comp_ok cs" "cs \<noteq> []"
  shows "path_Clean (Join cs slash) = Join cs slash"
proof -
  obtain c ds where cs: "cs = c # ds" using assms(2) by (cases cs) auto
  then obtain x xs where c: "c = x # xs" "x \<noteq> CHR ''/''" using assms(1) by (cases c) (auto simp: comp_ok_def)
  have j: "\<exists>ys. Join cs slash = x # ys" using cs c by (cases ds) auto
  then have "\<not> IsAbs (Join cs slash)" "Join cs slash \<noteq> []" using c(2) by (auto simp: IsAbs_def slash_def HasPrefix_def)
  moreover have "Split (Join cs slash) slash = cs"
    unfolding slash_def by (rule Split_Join [OF assms(2)]) (use assms(1) in \<open>auto simp: list_all_iff comp_ok_def\<close>)
  moreover have "clean_comps False [] cs = cs" using clean_comps_id [OF assms(1), of False "[]"] by simp
  ultimately show ?thesis using assms(2) by (simp add: path_Clean_def)
qed

lemma Join_nonempty: "list_all comp_ok cs \<Longrightarrow> cs \<noteq> [] \<Longrightarrow> Join cs slash \<noteq> []"
  by (cases cs rule: list.exhaust; cases "tl cs") (auto simp: comp_ok_def)

lemma Join_snoc: "cs \<noteq> [] \<Longrightarrow> Join (cs @ [c]) slash = Join cs slash @ slash @ c"
proof (induction cs)
  case (Cons d ds)
  then show ?case by (cases "ds = []") (simp_all add: Join_Cons)
qed simp

lemma join_proper:
  assumes "list_all comp_ok cs" "comp_ok c"
  shows "path_Join [Join cs slash, c] = Join (cs @ [c]) slash"
proof -
  have ok: "list_all comp_ok (cs @ [c])" using assms by simp
  have c: "c \<noteq> []" using assms(2) by (simp add: comp_ok_def)
  have "Join (filter (\<lambda>x. x \<noteq> []) [Join cs slash, c]) slash = Join (cs @ [c]) slash"
  proof (cases "cs = []")
    case False
    have "Join (cs @ [c]) slash = Join cs slash @ slash @ c" by (rule Join_snoc [OF False])
    then show ?thesis using Join_nonempty [OF assms(1) False] c by simp
  qed (use c in simp)
  then show ?thesis using clean_proper_rel [OF ok] c by (simp add: path_Join_def Let_def split: if_splits)
qed

lemma workspace_entry_child:
  assumes "workspace_entry (Join cs slash) r h = Some e" "list_all comp_ok cs" "comp_ok r"
  shows "comp_ok (we_Name e) \<and> we_Path e = Join (cs @ [we_Name e]) slash \<and> path_Clean (tr_Name h) = r @ slash @ we_Name e"
proof -
  let ?n = "TrimPrefix (path_Clean (tr_Name h)) ''./''"
  have c: "HasPrefix ?n (r @ slash)" using assms(1) by (simp add: workspace_entry_def Let_def split: if_splits)
  then obtain rel where n: "?n = (r @ slash) @ rel" unfolding HasPrefix_iff by blast
  then have rel: "?n = r @ slash @ rel" "\<not> Contains rel slash" "we_Name e = rel" "we_Path e = path_Join [Join cs slash, rel]"
    using assms(1) c unfolding workspace_entry_def Let_def n TrimPrefix_append by (auto split: if_splits)
  have "path_Clean (tr_Name h) \<noteq> ''./'' @ y" for y
  proof
    assume y: "path_Clean (tr_Name h) = ''./'' @ y"
    then obtain ds where ds: "climbs ds" "ds \<noteq> []" "Join ds slash = ''./'' @ y" using clean_forms [of "tr_Name h"] by (auto simp: slash_def)
    have a: "Split (Join ds slash) slash = ds" unfolding slash_def by (rule Split_Join [OF ds(2) climbs_no_sep [OF ds(1)]])
    have b: "Split (Join (''.'' # Split y slash) slash) slash = ''.'' # Split y slash"
      unfolding slash_def by (rule Split_Join) (use Split_no_sep in simp_all)
    have n: "Split y slash \<noteq> []" by (simp add: Split_def del: SplitN.simps)
    have c: "Join (''.'' # Split y slash) slash = ''./'' @ y" unfolding Join_Cons [OF n] Join_Split by (simp add: slash_def)
    have "ds = ''.'' # Split y slash" using a unfolding ds(3) c [symmetric] b by (rule sym)
    then have "''.'' \<in> set ds" by simp
    then show False using climbs_no_dot [OF ds(1)] by simp
  qed
  then have m: "path_Clean (tr_Name h) = r @ slash @ rel" using rel(1) by (simp add: TrimPrefix_def HasPrefix_iff split: if_splits)
  have "CHR ''/'' \<notin> set rel"
  proof
    assume "CHR ''/'' \<in> set rel"
    then obtain a b where "rel = a @ slash @ b" unfolding slash_def by (auto dest: split_list)
    then show False using rel(2) unfolding Contains_iff by blast
  qed
  then have ok: "comp_ok rel" by (rule clean_below [OF m assms(3)])
  have "path_Join [Join cs slash, rel] = Join (cs @ [rel]) slash" by (rule join_proper [OF assms(2) ok])
  then show ?thesis using ok m rel by simp
qed

lemma preview_ok:
  assumes "preview t = Inr b"
  shows "\<exists>h es e. t = (h # es, e) \<and> b = take (nat (tr_Size h)) (tr_Data h) \<and> int (length b) \<le> 256 * 1024 \<and> CHR 0x00 \<notin> set b"
  using assms by (cases t; cases "fst t") (auto simp: preview_def preview_limit_def Let_def split: if_splits option.splits)

lemma listed_entries:
  assumes "safeWorkspacePath p = Some (Join cs slash)" "list_all comp_ok cs" "ListWorkspace D w a p = Inr es"
  shows "\<exists>hs. dk_copy_from D w (as_ContainerID a) (slash @ Join (''workspace'' # cs) slash) = Inr (hs, None) \<and>
    list_all (\<lambda>e. comp_ok (we_Name e) \<and> we_Path e = Join (cs @ [we_Name e]) slash \<and>
      (\<exists>h\<in>set hs. we_Directory e = tr_Dir h \<and> we_Size e = tr_Size h)) es"
proof -
  have t: "path_Join [''/workspace'', Join cs slash] = slash @ Join (''workspace'' # cs) slash" by (rule target_path [OF assms(2)])
  have w: "list_all comp_ok (''workspace'' # cs)" using assms(2) by (simp add: comp_ok_def)
  have base: "path_Base (slash @ Join (''workspace'' # cs) slash) = last (''workspace'' # cs)" by (rule Base_last [OF w]) simp
  have ok: "comp_ok (last (''workspace'' # cs))" using w by (metis last_in_set list.distinct(1) list_all_iff)
  obtain x where x: "dk_copy_from D w (as_ContainerID a) (slash @ Join (''workspace'' # cs) slash) = Inr x"
    "readWorkspaceEntries x (Join cs slash) (last (''workspace'' # cs)) = Inr es"
    using assms(1,3) by (auto simp: ListWorkspace_def Let_def t base split: sum.splits)
  obtain hs where hs: "x = (hs, None)" and es: "es = List.map_filter (workspace_entry (Join cs slash) (last (''workspace'' # cs))) hs"
    using x(2) by (cases x) (auto simp: readWorkspaceEntries_def split: option.splits)
  have "\<exists>h\<in>set hs. workspace_entry (Join cs slash) (last (''workspace'' # cs)) h = Some e" if "e \<in> set es" for e
    using that unfolding es by (auto simp: map_filter_def)
  moreover have "we_Directory e = tr_Dir h \<and> we_Size e = tr_Size h"
    if "workspace_entry (Join cs slash) (last (''workspace'' # cs)) h = Some e" for e h
    using that by (auto simp: workspace_entry_def Let_def split: if_splits)
  ultimately have "list_all (\<lambda>e. comp_ok (we_Name e) \<and> we_Path e = Join (cs @ [we_Name e]) slash \<and>
      (\<exists>h\<in>set hs. we_Directory e = tr_Dir h \<and> we_Size e = tr_Size h)) es"
    using workspace_entry_child [OF _ assms(2) ok] unfolding list_all_iff by blast
  then show ?thesis using x(1) hs by blast
qed


text \<open>A container with one file below /workspace, and what it answers for every other path.\<close>

definition archive_docker :: "(docker_error, tar) result \<Rightarrow> unit DockerEnv" where
  "archive_docker other = \<lparr> dk_ping = (\<lambda>w. None), dk_inspect_image = (\<lambda>w i. None), dk_pull = (\<lambda>w i. (None, w)), dk_download = (\<lambda>w i. (None, w)),
     dk_volume_create = (\<lambda>w n l. (None, w)), dk_create = (\<lambda>w c. (Inr ''c1'', w)), dk_start = (\<lambda>w i. (None, w)), dk_stop = (\<lambda>w i t. (None, w)),
     dk_remove = (\<lambda>w i. (None, w)), dk_volume_remove = (\<lambda>w n. (None, w)),
     dk_copy_from = (\<lambda>w i q. if q = ''/workspace/a'' then Inr ([\<lparr> tr_Name = ''a'', tr_Dir = False, tr_Size = 2, tr_Data = ''hi'' \<rparr>], None)
       else other) \<rparr>"

definition no_file :: "(docker_error, tar) result" where
  "no_file = Inl (DockerError ''no such file'' True)"

definition secret_file :: "(docker_error, tar) result" where
  "secret_file = Inr ([\<lparr> tr_Name = ''a'', tr_Dir = False, tr_Size = 6, tr_Data = ''secret'' \<rparr>], None)"

lemma demo_safe_path: "safeWorkspacePath ''/a'' = Some ''a''"
  by code_simp


end
