(* ===== verification/ControlPlane.thy ===== *)
theory ControlPlane
  imports Workspace Scheduler Gateway
begin

text \<open>
  internal/controlplane/service.go: the event log of a run in Redis, the operations on agents, and the goroutine that follows a run at the
  gateway and records it. Redis, the clock, the id generator and the gateway's stream are operations of the environment CpEnv, beside
  the environments of PostgreSQL (theory ControlStore) and Docker (theory Workspace).
\<close>

section \<open>The environment\<close>

datatype ui_cmd = RPush string string | Expire string int

record 'w CpEnv =
  cp_U :: Unicode
  cp_pg :: "'w PgEnv"
  cp_docker :: "'w DockerEnv"
  cp_image :: string
  cp_ulid :: "'w \<Rightarrow> string \<times> 'w"
  cp_now :: "'w \<Rightarrow> string"
  cp_time_ok :: "string \<Rightarrow> bool"
  rd_ping :: "'w \<Rightarrow> string option"
  rd_incr :: "'w \<Rightarrow> string \<Rightarrow> (string, int) result \<times> 'w"
  rd_pipe :: "'w \<Rightarrow> ui_cmd list \<Rightarrow> string option \<times> 'w"
  rd_lrange :: "'w \<Rightarrow> string \<Rightarrow> (string, string list) result"
  ag_health :: "'w \<Rightarrow> string option"
  ag_RunAgent :: "'w \<Rightarrow> string option \<times> 'w"
  ag_Send :: "'w \<Rightarrow> RunRequest \<Rightarrow> string option \<times> 'w"
  ag_CloseSend :: "'w \<Rightarrow> string option \<times> 'w"
  ag_Recv :: "'w \<Rightarrow> (string, RunEvent) result list"

section \<open>The event log\<close>

record UIEvent =
  ui_ID :: int
  ui_Type :: string
  ui_Data :: json
  ui_CreatedAt :: string

definition UIEvent_fields :: "UIEvent \<Rightarrow> (string \<times> bool \<times> json) list" where
  "UIEvent_fields e = [
     (''id'', False, enc_int (ui_ID e)),
     (''type'', False, JStr (ui_Type e)),
     (''data'', False, ui_Data e),
     (''createdAt'', False, JStr (ui_CreatedAt e))]"

definition UIEvent_Marshal :: "UIEvent \<Rightarrow> string" where
  "UIEvent_Marshal e = Marshal (struct_obj (UIEvent_fields e))"

text \<open>Decoding into any: maps and float64 numbers; a number no float64 is near to is an error.\<close>

fun floats_ok :: "json \<Rightarrow> bool" where
  "floats_ok (JNum l) = (ParseFloat64 l \<noteq> None)"
| "floats_ok (JArr vs) = list_all floats_ok vs"
| "floats_ok (JObj kvs) = list_all (\<lambda>(k, v). floats_ok v) kvs"
| "floats_ok _ = True"

definition dec_any :: "json \<Rightarrow> json option" where
  "dec_any j = (if floats_ok j then Some (any_json float_literal j) else None)"

definition UIEvent_of :: "(string \<Rightarrow> bool) \<Rightarrow> json \<Rightarrow> UIEvent option" where
  "UIEvent_of T j = Option.bind (members j) (\<lambda>m.
     Option.bind (field dec_int m ''id'' 0) (\<lambda>i.
     Option.bind (field dec_str m ''type'' []) (\<lambda>k.
     Option.bind (field dec_any m ''data'' JNull) (\<lambda>d.
     Option.bind (field (dec_time T) m ''createdAt'' (wi_UpdatedAt zero_worker)) (\<lambda>c.
     Some \<lparr> ui_ID = i, ui_Type = k, ui_Data = d, ui_CreatedAt = c \<rparr>)))))"

definition UIEvent_Unmarshal :: "(string \<Rightarrow> bool) \<Rightarrow> string \<Rightarrow> UIEvent option" where
  "UIEvent_Unmarshal T s = Option.bind (json_parse s) (UIEvent_of T)"

definition events_key :: "string \<Rightarrow> string" where "events_key runID = ''ui:run_events:'' @ runID"
definition seqKey :: "string \<Rightarrow> string" where "seqKey runID = ''ui:run_event_seq:'' @ runID"

definition one_day :: int where "one_day = 24 * 3600 * 1000000000"

definition Events_Append :: "'w CpEnv \<Rightarrow> 'w \<Rightarrow> string \<Rightarrow> string \<Rightarrow> json \<Rightarrow> (cp_error, UIEvent) result \<times> 'w" where
  "Events_Append E w runID kind data =
     (case rd_incr E w (seqKey runID) of
        (Inl e, w1) \<Rightarrow> (Inl (ErrText e), w1)
      | (Inr i, w1) \<Rightarrow>
          (let ev = \<lparr> ui_ID = i, ui_Type = kind, ui_Data = data, ui_CreatedAt = cp_now E w1 \<rparr> in
           case rd_pipe E w1 [RPush (events_key runID) (UIEvent_Marshal ev), Expire (events_key runID) one_day, Expire (seqKey runID) one_day] of
             (Some e, w2) \<Rightarrow> (Inl (ErrText e), w2)
           | (None, w2) \<Rightarrow> (Inr ev, w2)))"

definition Events_After :: "'w CpEnv \<Rightarrow> 'w \<Rightarrow> string \<Rightarrow> int \<Rightarrow> (cp_error, UIEvent list) result" where
  "Events_After E w runID last_id =
     (case rd_lrange E w (events_key runID) of
        Inl e \<Rightarrow> Inl (ErrText e)
      | Inr raw \<Rightarrow> Inr (filter (\<lambda>ev. ui_ID ev > last_id) (List.map_filter (UIEvent_Unmarshal (cp_time_ok E)) raw)))"

section \<open>Health\<close>

record HealthStatus =
  hs_Status :: string
  hs_ActiveRuns :: int
  hs_Checks :: tags

definition health_check :: "string \<Rightarrow> 'e option \<Rightarrow> string \<times> string" where
  "health_check name err = (name, if err = None then ''ok'' else ''failed'')"

definition Service_Health :: "'w CpEnv \<Rightarrow> 'w \<Rightarrow> HealthStatus" where
  "Service_Health E w =
     (let active = ActiveRunCount (cp_pg E) w;
          checks = go_entries [
            health_check ''postgres'' (pg_ping (cp_pg E) w),
            health_check ''redis'' (rd_ping E w),
            health_check ''docker'' (map_option de_text (dk_ping (cp_docker E) w)),
            health_check ''gateway'' (ag_health E w),
            health_check ''runStore'' (case active of Inl e \<Rightarrow> Some (err_text e) | Inr _ \<Rightarrow> None)]
      in \<lparr> hs_Status = (if list_all (\<lambda>(k, v). v = ''ok'') checks then ''ok'' else ''degraded''),
           hs_ActiveRuns = (case active of Inl _ \<Rightarrow> 0 | Inr n \<Rightarrow> n), hs_Checks = checks \<rparr>)"

section \<open>Agents\<close>

definition new_agent :: "CreateAgentInput \<Rightarrow> string \<Rightarrow> AgentSpec" where
  "new_agent i aid = zero_agent\<lparr> as_ID := aid, as_Name := ci_Name i, as_Role := ci_Role i, as_SystemPrompt := ci_SystemPrompt i,
     as_Model := ci_Model i, as_Image := ci_Image i, as_CPUQuotaUS := ci_CPUQuotaUS i, as_MemoryMB := ci_MemoryMB i,
     as_PidsLimit := ci_PidsLimit i, as_Tools := ci_Tools i, as_WorkspacePolicy := ci_WorkspacePolicy i, as_Status := StatusProvisioning,
     as_VolumeName := ''agentforge-workspace-'' @ aid \<rparr>"

definition Service_Create :: "'w CpEnv \<Rightarrow> 'w \<Rightarrow> CreateAgentInput \<Rightarrow> (cp_error, AgentSpec) result \<times> 'w" where
  "Service_Create E w i0 =
     (case Validate_input (cp_U E) i0 (cp_image E) of
        Some e \<Rightarrow> (Inl e, w)
      | None \<Rightarrow>
          (let (u, w1) = cp_ulid E w;
               a = new_agent (normalizeCreate i0 (cp_image E)) (ToLower (uc_lower (cp_U E)) u)
           in case Store_Create (cp_pg E) w1 a of
                (Some e, w2) \<Rightarrow> (Inl e, w2)
              | (None, w2) \<Rightarrow>
                  (case Docker_Create (cp_U E) (cp_docker E) w2 a of
                     (Inl e, w3) \<Rightarrow>
                       (let (_, w4) = UpdateRuntime (cp_pg E) w3 (as_ID a) StatusFailed [] (err_text e)
                        in (Store_Get (cp_pg E) w4 (as_ID a), w4))
                   | (Inr cid, w3) \<Rightarrow>
                       (case UpdateRuntime (cp_pg E) w3 (as_ID a) StatusRunning cid [] of
                          (Some e, w4) \<Rightarrow> (Inl e, w4)
                        | (None, w4) \<Rightarrow> (Store_Get (cp_pg E) w4 (as_ID a), w4)))))"

text \<open>What StartAgent and StopAgent share: the Docker call, the text of an error that is as good as success, the new status.\<close>

definition set_running_state :: "'w CpEnv \<Rightarrow> 'w \<Rightarrow> string \<Rightarrow> (string \<Rightarrow> cp_error option \<times> 'w) \<Rightarrow> string \<Rightarrow> string \<Rightarrow> (cp_error, AgentSpec) result \<times> 'w" where
  "set_running_state E w i call harmless status =
     (case Store_Get (cp_pg E) w i of
        Inl e \<Rightarrow> (Inl e, w)
      | Inr a \<Rightarrow>
          (let (e1, w1) = call (as_ContainerID a) in
           if (case e1 of None \<Rightarrow> False | Some e \<Rightarrow> \<not> Contains (err_text e) harmless) then (Inl (the e1), w1)
           else (case UpdateRuntime (cp_pg E) w1 i status (as_ContainerID a) [] of
               (Some e, w2) \<Rightarrow> (Inl e, w2)
             | (None, w2) \<Rightarrow> (Store_Get (cp_pg E) w2 i, w2))))"

definition StartAgent :: "'w CpEnv \<Rightarrow> 'w \<Rightarrow> string \<Rightarrow> (cp_error, AgentSpec) result \<times> 'w" where
  "StartAgent E w i = set_running_state E w i (Docker_Start (cp_docker E) w) ''already started'' StatusRunning"

definition StopAgent :: "'w CpEnv \<Rightarrow> 'w \<Rightarrow> string \<Rightarrow> (cp_error, AgentSpec) result \<times> 'w" where
  "StopAgent E w i = set_running_state E w i (Docker_Stop (cp_docker E) w) ''is not running'' StatusStopped"

definition Service_DeleteAgent :: "'w CpEnv \<Rightarrow> 'w \<Rightarrow> string \<Rightarrow> cp_error option \<times> 'w" where
  "Service_DeleteAgent E w i =
     (case Store_Get (cp_pg E) w i of
        Inl e \<Rightarrow> (Some e, w)
      | Inr a \<Rightarrow>
          (case Docker_Delete (cp_docker E) w a of
             (Some e, w1) \<Rightarrow> (Some e, w1)
           | (None, w1) \<Rightarrow> Store_Delete (cp_pg E) w1 i))"

text \<open>Deleted ids, and failures with their messages.\<close>

record BatchDeleteResult =
  bd_DeletedIDs :: "string list"
  bd_Failed :: "(string \<times> string) list"

fun delete_each :: "'w CpEnv \<Rightarrow> string set \<Rightarrow> 'w \<Rightarrow> string list \<Rightarrow> BatchDeleteResult \<times> 'w" where
  "delete_each E seen w [] = (\<lparr> bd_DeletedIDs = [], bd_Failed = [] \<rparr>, w)"
| "delete_each E seen w (raw # ids) =
     (let i = TrimSpace raw in
      if i = [] then
        (let (res, w1) = delete_each E seen w ids in (res\<lparr> bd_Failed := ([], ''agent id is required'') # bd_Failed res \<rparr>, w1))
      else if i \<in> seen then delete_each E seen w ids
      else (case Service_DeleteAgent E w i of
          (Some e, w1) \<Rightarrow>
            (let (res, w2) = delete_each E (insert i seen) w1 ids in (res\<lparr> bd_Failed := (i, err_text e) # bd_Failed res \<rparr>, w2))
        | (None, w1) \<Rightarrow>
            (let (res, w2) = delete_each E (insert i seen) w1 ids in (res\<lparr> bd_DeletedIDs := i # bd_DeletedIDs res \<rparr>, w2))))"

definition DeleteAgents :: "'w CpEnv \<Rightarrow> 'w \<Rightarrow> string list \<Rightarrow> (cp_error, BatchDeleteResult) result \<times> 'w" where
  "DeleteAgents E w ids =
     (if ids = [] then (Inl (ErrText ''at least one agent id is required''), w)
      else (let (res, w1) = delete_each E {} w ids in (Inr res, w1)))"

section \<open>Runs\<close>

text \<open>The run, when its goroutine has been started, with the agent it was started for.\<close>

definition StartRun :: "'w CpEnv \<Rightarrow> 'w \<Rightarrow> string \<Rightarrow> string \<Rightarrow> (cp_error, AgentRun \<times> AgentSpec) result \<times> 'w" where
  "StartRun E w agentID prompt =
     (if TrimSpace prompt = [] then (Inl (ErrText ''prompt is required''), w)
      else (case Store_Get (cp_pg E) w agentID of
          Inl e \<Rightarrow> (Inl e, w)
        | Inr a \<Rightarrow>
            if as_Status a \<noteq> StatusRunning then (Inl (ErrText (''agent is '' @ as_Status a)), w)
            else
              (let (rid, w1) = cp_ulid E w; (tid, w2) = cp_ulid E w1;
                   r = \<lparr> ar_RunID = rid, ar_AgentID = as_ID a, ar_TraceID = tid, ar_Prompt = prompt, ar_Status = ''running'', ar_Error = [],
                         ar_Summary = [], ar_CreatedAt = zero_time, ar_UpdatedAt = zero_time \<rparr>
               in case CreateRun (cp_pg E) w2 r of
                    (Some e, w3) \<Rightarrow> (Inl (if IsConflict (Some e) then ErrText ''agent already has an active run'' else e), w3)
                  | (None, w3) \<Rightarrow> (Inr (r, a), w3))))"

definition RunState_String :: "RunState \<Rightarrow> string" where
  "RunState_String s =
     (case s of
        RUN_STATE_UNSPECIFIED \<Rightarrow> ''RUN_STATE_UNSPECIFIED''
      | RUN_STATE_PENDING \<Rightarrow> ''RUN_STATE_PENDING''
      | RUN_STATE_RUNNING \<Rightarrow> ''RUN_STATE_RUNNING''
      | RUN_STATE_WAITING_TOOL \<Rightarrow> ''RUN_STATE_WAITING_TOOL''
      | RUN_STATE_COMPACTING \<Rightarrow> ''RUN_STATE_COMPACTING''
      | RUN_STATE_DONE \<Rightarrow> ''RUN_STATE_DONE''
      | RUN_STATE_FAILED \<Rightarrow> ''RUN_STATE_FAILED'')"

text \<open>Kind, data, whether the event ends the run, and the status it ends with.\<close>

definition convertEvent :: "RunEvent \<Rightarrow> string \<times> json \<times> bool \<times> string" where
  "convertEvent ev =
     (case ev_Payload ev of
        Some (StateChanged f t ts) \<Rightarrow>
          (''state'', JObj (go_entries [(''from'', JStr (RunState_String f)), (''to'', JStr (RunState_String t))]), False, [])
      | Some (Token tx i) \<Rightarrow> (''token'', JObj (go_entries [(''text'', JStr tx), (''index'', enc_int i)]), False, [])
      | Some (Done n ts) \<Rightarrow> (''done'', JObj (go_entries [(''totalTokens'', enc_int n)]), True, ''completed'')
      | Some (Error c m r) \<Rightarrow> (''error'', JObj (go_entries [(''code'', JStr c), (''message'', JStr m)]), True, ''failed'')
      | Some (Tool t) \<Rightarrow>
          (''tool'', JObj (go_entries [(''callId'', JStr (te_CallId t)), (''toolName'', JStr (te_ToolName t)), (''phase'', JStr (te_Phase t)),
             (''result'', JStr (te_Result t)), (''error'', JStr (te_Error t)), (''isError'', JBool (te_IsError t)),
             (''elapsedMs'', enc_nat (te_ElapsedMs t))]), False, [])
      | None \<Rightarrow> (''unknown'', JObj [], False, []))"

definition finishRun :: "'w CpEnv \<Rightarrow> 'w \<Rightarrow> string \<Rightarrow> string \<Rightarrow> string \<Rightarrow> string \<Rightarrow> 'w" where
  "finishRun E w i status summary runErr = snd (FinishRun (cp_pg E) w i status summary runErr)"

definition token_text :: "string \<Rightarrow> json \<Rightarrow> string" where
  "token_text kind data =
     (if kind = ''token''
      then (case data of JObj kvs \<Rightarrow> (case map_of kvs ''text'' of Some (JStr t) \<Rightarrow> t | _ \<Rightarrow> []) | _ \<Rightarrow> [])
      else [])"

text \<open>The loop over the stream; None while it waits.\<close>

fun consume :: "'w CpEnv \<Rightarrow> string \<Rightarrow> 'w \<Rightarrow> string \<Rightarrow> (string, RunEvent) result list \<Rightarrow> 'w option" where
  "consume E runID w summary [] = None"
| "consume E runID w summary (Inl e # rs) =
     Some (finishRun E w runID ''failed'' summary (if e = ''EOF'' then ''gateway stream ended without terminal event'' else e))"
| "consume E runID w summary (Inr ev # rs) =
     (let (kind, data, terminal, status) = convertEvent ev;
          summary1 = summary @ token_text kind data
      in case Events_Append E w runID kind data of
           (Inl _, w1) \<Rightarrow> consume E runID w1 summary1 rs
         | (Inr _, w1) \<Rightarrow> if terminal then Some (finishRun E w1 runID status summary1 []) else consume E runID w1 summary1 rs)"

definition run_request :: "AgentRun \<Rightarrow> AgentSpec \<Rightarrow> RunRequest" where
  "run_request r a = \<lparr> rq_RunId = ar_RunID r, rq_UserId = ''local-dev'', rq_Prompt = ar_Prompt r, rq_Model = as_Model a,
     rq_TraceId = ar_TraceID r, rq_AgentId = as_ID a, rq_SystemPrompt = as_SystemPrompt a \<rparr>"

definition consumeRun :: "'w CpEnv \<Rightarrow> 'w \<Rightarrow> AgentRun \<Rightarrow> AgentSpec \<Rightarrow> 'w option" where
  "consumeRun E w r a =
     (let (e1, w1) = ag_RunAgent E w;
          (e2, w2) = (if e1 = None then ag_Send E w1 (run_request r a) else (e1, w1));
          (e3, w3) = (if e2 = None then ag_CloseSend E w2 else (e2, w2))
      in case e3 of
           Some e \<Rightarrow> Some (finishRun E w3 (ar_RunID r) ''failed'' [] e)
         | None \<Rightarrow> consume E (ar_RunID r) w3 [] (ag_Recv E w3))"

end
