(* ===== verification/ControlPlaneProps.thy ===== *)
theory ControlPlaneProps
  imports ControlPlane GatewayProps
begin

text \<open>
  What the control plane guarantees (internal/controlplane): the event log gives back what was appended, a run that is followed is
  recorded, and the end of a run reaches the tables, or does not.
\<close>

lemma Run_stream:
  assumes "Run R w (run_task rid tid first) = (r, w')" "rid \<noteq> []" "fresh_ids R rid" "compaction_safe R" "run_events rid (st_trace w) = []"
  shows "stream_ok (run_events rid (st_trace w'))"
proof -
  have tr: "t_RunID (run_task rid tid first) = rid" by (simp add: run_task_def)
  obtain q where q: "proto_run proto0 (run_events rid (st_trace w')) = Some q" "pr_over q" "pr_state q = (if r = None then StateDone else StateFailed)"
    using Run_follows [of "run_task rid tid first" R w r w'] assms unfolding tr by blast
  then show ?thesis using proto_stream [OF q(1,2)] by (auto simp: proto0_def)
qed

section \<open>The event codec\<close>

definition event_strings :: "RunEvent \<Rightarrow> string list" where
  "event_strings ev =
     (case ev_Payload ev of
        Some (Token tx i) \<Rightarrow> [tx]
      | Some (Error c m r) \<Rightarrow> [c, m]
      | Some (Tool t) \<Rightarrow> [te_CallId t, te_ToolName t, te_Phase t, te_Result t, te_Error t]
      | _ \<Rightarrow> [])"

definition event_ints :: "RunEvent \<Rightarrow> int list" where
  "event_ints ev =
     (case ev_Payload ev of
        Some (Token tx i) \<Rightarrow> [i]
      | Some (Done n ts) \<Rightarrow> [n]
      | Some (Tool t) \<Rightarrow> [int (te_ElapsedMs t)]
      | _ \<Rightarrow> [])"

text \<open>Texts as protobuf carries them; numbers that a float64 holds exactly.\<close>

definition event_ok :: "RunEvent \<Rightarrow> bool" where
  "event_ok ev \<longleftrightarrow> (\<forall>s\<in>set (event_strings ev). ValidString s) \<and> (\<forall>i\<in>set (event_ints ev). \<bar>i\<bar> < 2 ^ 53)"

definition event_kind :: "RunEvent \<Rightarrow> string" where "event_kind ev = fst (convertEvent ev)"
definition event_data :: "RunEvent \<Rightarrow> json" where "event_data ev = fst (snd (convertEvent ev))"
definition event_terminal :: "RunEvent \<Rightarrow> bool" where "event_terminal ev = fst (snd (snd (convertEvent ev)))"
definition event_status :: "RunEvent \<Rightarrow> string" where "event_status ev = snd (snd (snd (convertEvent ev)))"
definition event_text :: "RunEvent \<Rightarrow> string" where "event_text ev = token_text (event_kind ev) (event_data ev)"

lemmas event_parts = event_kind_def event_data_def event_terminal_def event_status_def

lemma convertEvent_parts: "convertEvent ev = (event_kind ev, event_data ev, event_terminal ev, event_status ev)"
  by (simp add: event_parts)

lemma map_order:
  "go_entries [(''from'', a), (''to'', b)] = [(''from'', a), (''to'', b)]"
  "go_entries [(''text'', a), (''index'', b)] = [(''index'', b), (''text'', a)]"
  "go_entries [(''index'', b), (''text'', a)] = [(''index'', b), (''text'', a)]"
  "go_entries [(''totalTokens'', a)] = [(''totalTokens'', a)]"
  "go_entries [(''code'', a), (''message'', b)] = [(''code'', a), (''message'', b)]"
  "go_entries [] = []"
  by (simp_all add: go_entries_def less_list_code)

lemma map_order_tool:
  "go_entries [(''callId'', a), (''toolName'', b), (''phase'', c), (''result'', d), (''error'', e), (''isError'', f), (''elapsedMs'', g)] =
     [(''callId'', a), (''elapsedMs'', g), (''error'', e), (''isError'', f), (''phase'', c), (''result'', d), (''toolName'', b)]"
  "go_entries [(''callId'', a), (''elapsedMs'', g), (''error'', e), (''isError'', f), (''phase'', c), (''result'', d), (''toolName'', b)] =
     [(''callId'', a), (''elapsedMs'', g), (''error'', e), (''isError'', f), (''phase'', c), (''result'', d), (''toolName'', b)]"
  by (simp_all add: go_entries_def less_list_code)

lemma int_data: "\<bar>i\<bar> < 2 ^ 53 \<Longrightarrow> floats_ok (enc_int i) \<and> any_json float_literal (enc_int i) = enc_int i"
  by (simp add: enc_int_def float_literal_Itoa ParseFloat64_Itoa)

lemma nat_data: "n < 2 ^ 53 \<Longrightarrow> floats_ok (enc_nat n) \<and> any_json float_literal (enc_nat n) = enc_nat n"
  using int_data [of "int n"] by (simp add: enc_int_def enc_nat_def Itoa_def)

text \<open>The data of an event survives the log: it is written, and read back as a map of float64 numbers, unchanged.\<close>

lemma event_data_kept:
  assumes "event_ok ev"
  shows "dec_any (event_data ev) = Some (event_data ev) \<and> json_ok (event_data ev) \<and> event_data ev \<noteq> JNull"
proof (cases "ev_Payload ev")
  case None
  then show ?thesis by (simp add: event_parts convertEvent_def dec_any_def map_order)
next
  case (Some p)
  have v: "ValidString ''from''" "ValidString ''to''" "ValidString ''index''" "ValidString ''text''" "ValidString ''totalTokens''"
    "ValidString ''code''" "ValidString ''message''" "ValidString ''callId''" "ValidString ''elapsedMs''" "ValidString ''error''"
    "ValidString ''isError''" "ValidString ''phase''" "ValidString ''result''" "ValidString ''toolName''"
    by (simp_all add: ValidString_ascii ord_def)
  have s: "ValidString (RunState_String s)" for s by (cases s) (simp_all add: RunState_String_def ValidString_ascii ord_def)
  show ?thesis using Some assms
    by (cases p) (auto simp: event_parts convertEvent_def dec_any_def map_order map_order_tool int_data nat_data v s event_ok_def event_strings_def
        event_ints_def)
qed

lemma event_kind_valid: "ValidString (event_kind ev)"
  by (auto simp: event_kind_def convertEvent_def ValidString_ascii ord_def split: option.splits RunPayload.splits)

definition UIEvent_ok :: "(string \<Rightarrow> bool) \<Rightarrow> UIEvent \<Rightarrow> bool" where
  "UIEvent_ok T u \<longleftrightarrow> int64 (ui_ID u) \<and> ValidString (ui_Type u) \<and> ValidString (ui_CreatedAt u) \<and> T (ui_CreatedAt u) \<and>
     json_ok (ui_Data u) \<and> dec_any (ui_Data u) = Some (ui_Data u) \<and> ui_Data u \<noteq> JNull"

lemma UIEvent_tags: "tags_distinct (map fst (UIEvent_fields u))"
  by (simp add: UIEvent_fields_def tags_distinct_ascii upper_ascii_def ord_def)

lemma UIEvent_names: "map fst (UIEvent_fields u) = [''id'', ''type'', ''data'', ''createdAt'']"
  by (simp add: UIEvent_fields_def)

lemma UIEvent_json_ok: "UIEvent_ok T u \<Longrightarrow> json_ok (struct_obj (UIEvent_fields u))"
  by (rule json_ok_struct) (simp add: UIEvent_ok_def UIEvent_fields_def ValidString_ascii ord_def)

lemma struct_get_any: "dec_any d = Some d \<Longrightarrow> d \<noteq> JNull \<Longrightarrow> struct_get dec_any ((t, False, d) # fs) t v = Some d"
  by (simp add: struct_get.simps(2))

lemma UIEvent_roundtrip: "UIEvent_ok T u \<Longrightarrow> UIEvent_Unmarshal T (UIEvent_Marshal u) = Some u"
proof -
  assume u: "UIEvent_ok T u"
  have "UIEvent_of T (struct_obj (UIEvent_fields u)) = Some u"
    using u by (simp add: UIEvent_of_def members_struct_obj field_struct [OF UIEvent_tags] UIEvent_names)
      (simp add: UIEvent_fields_def UIEvent_ok_def struct_get_rules struct_get_any struct_get_worker)
  then show ?thesis using UIEvent_json_ok [OF u] by (simp add: UIEvent_Unmarshal_def UIEvent_Marshal_def json_parse_Marshal)
qed

section \<open>What Redis and the gateway's connection promise\<close>

fun apply_ui :: "(string \<Rightarrow> string list) \<Rightarrow> ui_cmd \<Rightarrow> (string \<Rightarrow> string list)" where
  "apply_ui lg (RPush k v) = lg(k := lg k @ [v])"
| "apply_ui lg (Expire k d) = lg"

text \<open>Redis executes what it answers; the tables, the lists and the counters are changed by their own operations only; no key expires.\<close>

definition cp_laws :: "'w CpEnv \<Rightarrow> ('w \<Rightarrow> tables) \<Rightarrow> ('w \<Rightarrow> string \<Rightarrow> string list) \<Rightarrow> ('w \<Rightarrow> string \<Rightarrow> int) \<Rightarrow> bool" where
  "cp_laws E tb lg sq \<longleftrightarrow> pg_laws (cp_pg E) tb \<and>
     (\<forall>w st. lg (snd (pg_exec (cp_pg E) w st)) = lg w \<and> sq (snd (pg_exec (cp_pg E) w st)) = sq w) \<and>
     (\<forall>w k. tb (snd (rd_incr E w k)) = tb w \<and> lg (snd (rd_incr E w k)) = lg w) \<and>
     (\<forall>w k i w'. rd_incr E w k = (Inr i, w') \<longrightarrow> i = sq w k + 1 \<and> sq w' = (sq w)(k := i)) \<and>
     (\<forall>w cs. tb (snd (rd_pipe E w cs)) = tb w \<and> sq (snd (rd_pipe E w cs)) = sq w) \<and>
     (\<forall>w cs w'. rd_pipe E w cs = (None, w') \<longrightarrow> lg w' = foldl apply_ui (lg w) cs) \<and>
     (\<forall>w k raw. rd_lrange E w k = Inr raw \<longrightarrow> raw = lg w k) \<and>
     (\<forall>w. let w' = snd (ag_RunAgent E w) in tb w' = tb w \<and> lg w' = lg w \<and> sq w' = sq w) \<and>
     (\<forall>w r. let w' = snd (ag_Send E w r) in tb w' = tb w \<and> lg w' = lg w \<and> sq w' = sq w) \<and>
     (\<forall>w. let w' = snd (ag_CloseSend E w) in tb w' = tb w \<and> lg w' = lg w \<and> sq w' = sq w) \<and>
     (\<forall>w. let w' = snd (cp_ulid E w) in tb w' = tb w \<and> lg w' = lg w \<and> sq w' = sq w) \<and>
     (\<forall>w. cp_time_ok E (cp_now E w) \<and> ValidString (cp_now E w))"

definition redis_up :: "'w CpEnv \<Rightarrow> bool" where
  "redis_up E \<longleftrightarrow> (\<forall>w k. is_ok (fst (rd_incr E w k))) \<and> (\<forall>w cs. fst (rd_pipe E w cs) = None) \<and> (\<forall>w k. is_ok (rd_lrange E w k))"

lemma cp_lawsD:
  assumes "cp_laws E tb lg sq"
  shows "pg_laws (cp_pg E) tb"
    and "pg_exec (cp_pg E) w st = (e, w') \<Longrightarrow> lg w' = lg w \<and> sq w' = sq w"
    and "rd_incr E w k = (r, w') \<Longrightarrow> tb w' = tb w \<and> lg w' = lg w"
    and "rd_incr E w k = (Inr i, w') \<Longrightarrow> i = sq w k + 1 \<and> sq w' = (sq w)(k := i)"
    and "rd_pipe E w cs = (r2, w') \<Longrightarrow> tb w' = tb w \<and> sq w' = sq w"
    and "rd_pipe E w cs = (None, w') \<Longrightarrow> lg w' = foldl apply_ui (lg w) cs"
    and "rd_lrange E w k = Inr raw \<Longrightarrow> raw = lg w k"
    and "cp_time_ok E (cp_now E w) \<and> ValidString (cp_now E w)"
  using assms unfolding cp_laws_def by (blast, metis snd_conv, metis snd_conv, blast, metis snd_conv, blast, blast, blast)

lemma cp_laws_conn:
  assumes "cp_laws E tb lg sq"
  shows "ag_RunAgent E w = (e, w') \<Longrightarrow> tb w' = tb w \<and> lg w' = lg w \<and> sq w' = sq w"
    and "ag_Send E w req = (e, w') \<Longrightarrow> tb w' = tb w \<and> lg w' = lg w \<and> sq w' = sq w"
    and "ag_CloseSend E w = (e, w') \<Longrightarrow> tb w' = tb w \<and> lg w' = lg w \<and> sq w' = sq w"
    and "cp_ulid E w = (u, w') \<Longrightarrow> tb w' = tb w \<and> lg w' = lg w \<and> sq w' = sq w"
  using assms unfolding cp_laws_def Let_def by (metis snd_conv)+

lemma pg_lawsD:
  assumes "pg_laws P tb"
  shows "pg_exec P w st = (None, w') \<Longrightarrow> \<exists>now. apply_sql now (tb w) st = Inr (tb w')"
    and "pg_exec P w st = (Some e, w') \<Longrightarrow> tb w' = tb w \<or> (\<exists>now. apply_sql now (tb w) st = Inr (tb w'))"
    and "pg_agent P w i = Inr r \<Longrightarrow> r = find (\<lambda>r. row_id r = i) (tb_agents (tb w))"
  using assms unfolding pg_laws_def by blast+

lemma redis_upD:
  assumes "redis_up E"
  shows "\<exists>i w'. rd_incr E w k = (Inr i, w')" "\<exists>w'. rd_pipe E w cs = (None, w')" "\<exists>raw. rd_lrange E w k = Inr raw"
proof -
  note u = assms [unfolded redis_up_def]
  show "\<exists>i w'. rd_incr E w k = (Inr i, w')" using u by (cases "rd_incr E w k"; cases "fst (rd_incr E w k)") (auto, metis fst_conv is_ok_simps(1))
  show "\<exists>w'. rd_pipe E w cs = (None, w')" using u by (metis prod.collapse)
  show "\<exists>raw. rd_lrange E w k = Inr raw" using u by (cases "rd_lrange E w k") (metis is_ok_simps(1), blast)
qed

lemma keys_differ [simp]: "events_key i \<noteq> seqKey j" "events_key i = events_key j \<longleftrightarrow> i = j"
  by (simp_all add: events_key_def seqKey_def)

section \<open>Following a run\<close>

definition logged :: "'w CpEnv \<Rightarrow> RunEvent \<Rightarrow> UIEvent \<Rightarrow> bool" where
  "logged E ev u \<longleftrightarrow> ui_Type u = event_kind ev \<and> ui_Data u = event_data ev \<and> cp_time_ok E (ui_CreatedAt u) \<and> ValidString (ui_CreatedAt u)"

definition numbered :: "int \<Rightarrow> UIEvent list \<Rightarrow> bool" where
  "numbered n us \<longleftrightarrow> map ui_ID us = map (\<lambda>k. n + 1 + int k) [0..<length us]"

lemma numbered_Cons: "numbered n (u # us) \<longleftrightarrow> ui_ID u = n + 1 \<and> numbered (n + 1) us"
proof -
  have "map (\<lambda>k. n + 1 + int k) [0..<Suc m] = (n + 1) # map (\<lambda>k. n + 1 + 1 + int k) [0..<m]" for m
    unfolding upt_conv_Cons [OF zero_less_Suc] by (simp add: map_Suc_upt [symmetric] o_def algebra_simps del: upt_Suc map_Suc_upt)
  then show ?thesis by (simp add: numbered_def del: upt_Suc)
qed

lemma Append_ok:
  assumes "cp_laws E tb lg sq" "redis_up E"
  shows "\<exists>u w1. Events_Append E w rid (event_kind ev) (event_data ev) = (Inr u, w1) \<and> logged E ev u \<and> ui_ID u = sq w (seqKey rid) + 1 \<and>
    tb w1 = tb w \<and> lg w1 = (lg w)(events_key rid := lg w (events_key rid) @ [UIEvent_Marshal u]) \<and>
    sq w1 = (sq w)(seqKey rid := sq w (seqKey rid) + 1)"
proof -
  obtain i w0 where i: "rd_incr E w (seqKey rid) = (Inr i, w0)" using redis_upD(1) [OF assms(2)] by blast
  let ?u = "\<lparr> ui_ID = i, ui_Type = event_kind ev, ui_Data = event_data ev, ui_CreatedAt = cp_now E w0 \<rparr>"
  let ?cs = "[RPush (events_key rid) (UIEvent_Marshal ?u), Expire (events_key rid) one_day, Expire (seqKey rid) one_day]"
  obtain w1 where p: "rd_pipe E w0 ?cs = (None, w1)" using redis_upD(2) [OF assms(2)] by blast
  have "Events_Append E w rid (event_kind ev) (event_data ev) = (Inr ?u, w1)" by (simp add: Events_Append_def i p)
  then show ?thesis
    using cp_lawsD(3,4) [OF assms(1) i] cp_lawsD(5,6) [OF assms(1) p] cp_lawsD(8) [OF assms(1), of w0]
    by (intro exI [of _ ?u] exI [of _ w1]) (simp add: logged_def)
qed

text \<open>A stream that ends: events that do not end the run, and one that does.\<close>

definition ending_stream :: "RunEvent list \<Rightarrow> bool" where
  "ending_stream evs \<longleftrightarrow> evs \<noteq> [] \<and> event_terminal (last evs) \<and> list_all (\<lambda>ev. \<not> event_terminal ev) (butlast evs)"

lemma ending_stream_Cons: "ending_stream (ev # evs) \<longleftrightarrow> (if evs = [] then event_terminal ev else \<not> event_terminal ev \<and> ending_stream evs)"
  by (auto simp: ending_stream_def)

lemma consume_stream:
  assumes "cp_laws E tb lg sq" "redis_up E" "ending_stream evs"
  shows "\<exists>w1 us. consume E rid w sm (map Inr evs @ rest) =
      Some (finishRun E w1 rid (event_status (last evs)) (sm @ concat (map event_text evs)) []) \<and>
    tb w1 = tb w \<and> list_all2 (logged E) evs us \<and> numbered (sq w (seqKey rid)) us \<and>
    lg w1 = (lg w)(events_key rid := lg w (events_key rid) @ map UIEvent_Marshal us)"
  using assms(3)
proof (induction evs arbitrary: w sm)
  case (Cons ev evs)
  obtain u w1 where a: "Events_Append E w rid (event_kind ev) (event_data ev) = (Inr u, w1)" "logged E ev u"
    "ui_ID u = sq w (seqKey rid) + 1" "tb w1 = tb w" "lg w1 = (lg w)(events_key rid := lg w (events_key rid) @ [UIEvent_Marshal u])"
    "sq w1 = (sq w)(seqKey rid := sq w (seqKey rid) + 1)"
    using Append_ok [OF assms(1,2)] by blast
  show ?case
  proof (cases "evs = []")
    case True
    then have "event_terminal ev" using Cons.prems by (simp add: ending_stream_Cons)
    then show ?thesis using a True
      by (intro exI [of _ w1] exI [of _ "[u]"]) (simp add: convertEvent_parts event_text_def numbered_def)
  next
    case False
    then have "\<not> event_terminal ev" "ending_stream evs" using Cons.prems by (simp_all add: ending_stream_Cons)
    then obtain w2 us where o: "consume E rid w1 (sm @ event_text ev) (map Inr evs @ rest) =
        Some (finishRun E w2 rid (event_status (last evs)) ((sm @ event_text ev) @ concat (map event_text evs)) [])"
      "tb w2 = tb w1" "list_all2 (logged E) evs us" "numbered (sq w1 (seqKey rid)) us"
      "lg w2 = (lg w1)(events_key rid := lg w1 (events_key rid) @ map UIEvent_Marshal us)"
      using Cons.IH [of w1 "sm @ event_text ev"] by blast
    have "consume E rid w sm (map Inr (ev # evs) @ rest) = consume E rid w1 (sm @ event_text ev) (map Inr evs @ rest)"
      using a(1) \<open>\<not> event_terminal ev\<close> by (simp add: convertEvent_parts event_text_def)
    then show ?thesis using a o False
      by (intro exI [of _ w2] exI [of _ "u # us"]) (simp add: numbered_Cons)
  qed
qed (simp add: ending_stream_def)

section \<open>Recording\<close>

lemma finishRun_recorded:
  assumes "cp_laws E tb lg sq" "pg_up (cp_pg E) tb" "nul_free [rid, status, summary, err]" "status \<noteq> ''running''"
  shows "\<exists>now. tb (finishRun E w rid status summary err) = (tb w)\<lparr> tb_runs := map (set_result now rid status summary err) (tb_runs (tb w)) \<rparr> \<and>
    lg (finishRun E w rid status summary err) = lg w"
proof -
  obtain e w' where x: "pg_exec (cp_pg E) w (SetRunResult rid status summary err) = (e, w')" by (cases "pg_exec (cp_pg E) w (SetRunResult rid status summary err)")
  have a: "apply_sql now (tb w) (SetRunResult rid status summary err) =
      Inr ((tb w)\<lparr> tb_runs := map (set_result now rid status summary err) (tb_runs (tb w)) \<rparr>)" for now
    using assms(4) by simp
  have "e = None" using assms(2,3) a x unfolding pg_up_def by (metis fst_conv stmt_texts.simps(6))
  then obtain now where "apply_sql now (tb w) (SetRunResult rid status summary err) = Inr (tb w')"
    using pg_lawsD(1) [OF cp_lawsD(1) [OF assms(1)]] x by blast
  then have "tb w' = (tb w)\<lparr> tb_runs := map (set_result now rid status summary err) (tb_runs (tb w)) \<rparr>" unfolding a by simp
  moreover have "finishRun E w rid status summary err = w'" by (simp add: finishRun_def FinishRun_def Store_exec_def x)
  ultimately show ?thesis using cp_lawsD(2) [OF assms(1) x] by auto
qed

lemma terminal_status: "event_terminal ev \<Longrightarrow> event_status ev = (if is_done_event (ev_Payload ev) then ''completed'' else ''failed'')"
  by (auto simp: event_parts convertEvent_def split: option.splits RunPayload.splits)

lemma numbered_bounds:
  assumes "numbered 0 us" "k < length us"
  shows "ui_ID (us ! k) = 1 + int k"
proof -
  have "map ui_ID us ! k = map (\<lambda>k. 0 + 1 + int k) [0..<length us] ! k" using assms(1) by (simp add: numbered_def)
  then show ?thesis using assms(2) by simp
qed

lemma numbered_after: "numbered m us \<Longrightarrow> filter (\<lambda>u. ui_ID u > m + int n) us = drop n us"
proof (induction us arbitrary: m n)
  case (Cons u us)
  show ?case
  proof (cases n)
    case 0
    have "filter (\<lambda>u. ui_ID u > m + int 0) us = us"
    proof (rule filter_True, rule ballI)
      fix v assume "v \<in> set us"
      then obtain k where k: "k < length us" "v = us ! k" by (auto simp: in_set_conv_nth)
      have "numbered (m + 1) us" using Cons.prems by (simp add: numbered_Cons)
      then have "map ui_ID us ! k = map (\<lambda>k. (m + 1) + 1 + int k) [0..<length us] ! k" unfolding numbered_def by (rule arg_cong)
      then show "ui_ID v > m + int 0" using k by simp
    qed
    then show ?thesis using Cons.prems 0 by (simp add: numbered_Cons)
  next
    case (Suc j)
    have "filter (\<lambda>u. ui_ID u > (m + 1) + int j) us = drop j us" by (rule Cons.IH) (use Cons.prems in \<open>simp add: numbered_Cons\<close>)
    moreover have "(m + 1) + int j = m + int n" using Suc by simp
    ultimately have "filter (\<lambda>u. ui_ID u > m + int n) us = drop j us" by (simp only:)
    then show ?thesis using Cons.prems Suc by (simp add: numbered_Cons)
  qed
qed simp

lemma log_read:
  assumes "cp_laws E tb lg sq" "redis_up E" "lg w (events_key rid) = map UIEvent_Marshal us" "\<forall>u\<in>set us. UIEvent_ok (cp_time_ok E) u" "numbered 0 us"
  shows "Events_After E w rid (int n) = Inr (drop n us)"
proof -
  obtain raw where r: "rd_lrange E w (events_key rid) = Inr raw" using redis_upD(3) [OF assms(2)] by blast
  have "List.map_filter (UIEvent_Unmarshal (cp_time_ok E)) (map UIEvent_Marshal us) = us"
    using assms(4) by (induction us) (simp_all add: map_filter_simps UIEvent_roundtrip)
  then show ?thesis
    using r cp_lawsD(7) [OF assms(1) r] assms(3) numbered_after [OF assms(5), of n] by (simp add: Events_After_def)
qed

text \<open>C7: a run whose stream at the gateway ends with a done or an error event is recorded: its row gets the status completed or failed and the
  texts of its tokens joined as the summary, no other row changes, and its log holds one entry per event, in order and with the event's
  data, so that reading after the n-th entry gives exactly the later ones. (PostgreSQL and Redis answer, numbers are below 2 ^ 53, the
  texts have no zero byte.)\<close>

theorem consumeRun_records:
  assumes "cp_laws E tb lg sq" "redis_up E" "pg_up (cp_pg E) tb"
    and "ag_RunAgent E w = (None, w1)" "ag_Send E w1 (run_request r a) = (None, w2)" "ag_CloseSend E w2 = (None, w3)"
    and "ag_Recv E w3 = map Inr evs @ rest" "ending_stream evs" "list_all event_ok evs" "length evs < 2 ^ 63"
    and "nul_free (ar_RunID r # map event_text evs)" "lg w (events_key (ar_RunID r)) = []" "sq w (seqKey (ar_RunID r)) = 0"
  shows "\<exists>w' us now. consumeRun E w r a = Some w' \<and>
    tb w' = (tb w)\<lparr> tb_runs := map (set_result now (ar_RunID r) (if is_done_event (ev_Payload (last evs)) then ''completed'' else ''failed'')
      (concat (map event_text evs)) []) (tb_runs (tb w)) \<rparr> \<and>
    list_all2 (\<lambda>ev u. ui_Type u = event_kind ev \<and> ui_Data u = event_data ev) evs us \<and>
    (\<forall>n. Events_After E w' (ar_RunID r) (int n) = Inr (drop n us))"
proof -
  let ?rid = "ar_RunID r" and ?sm = "concat (map event_text evs)" and ?st = "event_status (last evs)"
  have same: "tb w3 = tb w" "lg w3 = lg w" "sq w3 = sq w"
    using cp_laws_conn(1) [OF assms(1,4)] cp_laws_conn(2) [OF assms(1,5)] cp_laws_conn(3) [OF assms(1,6)] by simp_all
  obtain w4 us where o: "consume E ?rid w3 [] (map Inr evs @ rest) = Some (finishRun E w4 ?rid ?st ([] @ ?sm) [])"
    "tb w4 = tb w3" "list_all2 (logged E) evs us" "numbered (sq w3 (seqKey ?rid)) us"
    "lg w4 = (lg w3)(events_key ?rid := lg w3 (events_key ?rid) @ map UIEvent_Marshal us)"
    using consume_stream [OF assms(1,2,8), where w = w3 and sm = "[]" and rid = ?rid and rest = rest] by blast
  have st: "?st = (if is_done_event (ev_Payload (last evs)) then ''completed'' else ''failed'')"
    using assms(8) terminal_status by (simp add: ending_stream_def)
  have "nul_free [?rid, ?st, ?sm, []]" using assms(11) unfolding st by (auto simp: nul_free_def)
  moreover have "?st \<noteq> ''running''" unfolding st by simp
  ultimately obtain now where f: "tb (finishRun E w4 ?rid ?st ?sm []) = (tb w4)\<lparr> tb_runs := map (set_result now ?rid ?st ?sm []) (tb_runs (tb w4)) \<rparr>"
    "lg (finishRun E w4 ?rid ?st ?sm []) = lg w4" using finishRun_recorded [OF assms(1,3)] by blast
  have num: "numbered 0 us" using o(4) same assms(13) by simp
  have len: "length us = length evs" using o(3) by (simp add: list_all2_lengthD)
  have ok: "UIEvent_ok (cp_time_ok E) (us ! k)" if "k < length us" for k
  proof -
    have "logged E (evs ! k) (us ! k)" "event_ok (evs ! k)"
      using o(3) assms(9) that len by (auto simp: list_all2_conv_all_nth list_all_length)
    moreover have "int64 (ui_ID (us ! k))" using numbered_bounds [OF num that] that len assms(10) by (simp add: int64_def)
    ultimately show ?thesis using event_data_kept [of "evs ! k"] event_kind_valid [of "evs ! k"] by (simp add: UIEvent_ok_def logged_def)
  qed
  then have "\<forall>u\<in>set us. UIEvent_ok (cp_time_ok E) u" by (auto simp: in_set_conv_nth)
  moreover have "lg (finishRun E w4 ?rid ?st ?sm []) (events_key ?rid) = map UIEvent_Marshal us" using f(2) o(5) same assms(12) by simp
  ultimately have "\<forall>n. Events_After E (finishRun E w4 ?rid ?st ?sm []) ?rid (int n) = Inr (drop n us)"
    using log_read [OF assms(1,2) _ _ num] by blast
  moreover have "consumeRun E w r a = Some (finishRun E w4 ?rid ?st ?sm [])" using assms(4-7) o(1) by (simp add: consumeRun_def)
  moreover have "list_all2 (\<lambda>ev u. ui_Type u = event_kind ev \<and> ui_Data u = event_data ev) evs us"
    using o(3) by (rule list_all2_mono) (simp add: logged_def)
  ultimately show ?thesis using f(1) o(2) same unfolding st by (intro exI conjI) auto
qed

section \<open>From the worker to the tables\<close>

text \<open>The text a run streamed.\<close>

definition run_text :: "Event list \<Rightarrow> string" where
  "run_text es = concat (map e_Text (filter (\<lambda>e. e_Kind e = EventToken) es))"

lemma shown_convert:
  assumes "shown_as rid tid e out"
  shows "event_terminal out = terminal e" "event_text out = (if e_Kind e = EventToken then e_Text e else [])"
    "is_done_event (ev_Payload out) = (e_Kind e = EventDone)"
  using assms
  by (auto simp: shown_as_def mapEvent_def event_parts event_text_def convertEvent_def token_text_def map_order terminal_def event_kinds split: if_splits)

lemma shown_stream:
  "stream_ok es \<Longrightarrow> list_all2 (shown_as rid tid) es outs \<Longrightarrow> ending_stream outs \<and> concat (map event_text outs) = run_text es"
proof (induction es arbitrary: outs)
  case (Cons e es)
  obtain x xs where x: "outs = x # xs" "shown_as rid tid e x" "list_all2 (shown_as rid tid) es xs"
    using Cons.prems(2) by (auto simp: list_all2_Cons1)
  note c = shown_convert [OF x(2)]
  show ?case
  proof (cases "terminal e")
    case True
    then show ?thesis using Cons.prems x c by (simp add: ending_stream_Cons run_text_def)
  next
    case False
    then have "stream_ok es" "xs \<noteq> []" using Cons.prems x(3) by (cases es, auto)+
    then show ?thesis using Cons.IH [OF _ x(3)] c False x(1) by (simp add: ending_stream_Cons run_text_def)
  qed
qed simp

text \<open>C2: from the worker to the tables: when the gateway serves the request the control plane sends, the worker executes the task the gateway
  queues, and the event channel and the stream between gateway and control plane carry what is put in, then the run's row ends as completed
  exactly when the worker's Run returned nil, failed otherwise, with everything the model streamed as its summary. (PostgreSQL and Redis
  execute what they are asked, and neither the run id nor the streamed text has a zero byte, which PostgreSQL refuses: C36 is the case where one does.
  The calls of the two streams, Subscribe and Publish succeed, new ids are fresh and compaction meets no error.)\<close>

theorem worker_run_recorded:
  assumes "cp_laws E tb lg sq" "redis_up E" "pg_up (cp_pg E) tb"
    and "ag_RunAgent E w = (None, w1)" "ag_Send E w1 (run_request r a) = (None, w2)" "ag_CloseSend E w2 = (None, w3)"
    and "stream_laws G sent" "gw_Recv G s0 = (Inr (run_request r a), s1)" "ar_Prompt r \<noteq> []"
    and "request_ids G s1 (run_request r a) = (ar_RunID r, tid, s2)"
    and "gw_Subscribe G s2 (ar_RunID r) = (Inr (map Chan (run_events (ar_RunID r) (st_trace x')) @ rest), s3)"
    and "gw_Publish G s3 (run_task (ar_RunID r) tid (run_request r a)) = (Inr i, s4)"
    and "Run R x (run_task (ar_RunID r) tid (run_request r a)) = (res, x')" "ar_RunID r \<noteq> []" "fresh_ids R (ar_RunID r)" "compaction_safe R"
    and "run_events (ar_RunID r) (st_trace x) = []"
    and "RunAgent G s0 = Some (None, s5)" "ag_Recv E w3 = map Inr (drop (length (sent s0)) (sent s5)) @ [Inl ''EOF'']"
    and "nul_free [ar_RunID r, run_text (run_events (ar_RunID r) (st_trace x'))]"
  shows "\<exists>w' now. consumeRun E w r a = Some w' \<and>
    tb w' = (tb w)\<lparr> tb_runs := map (set_result now (ar_RunID r) (if res = None then ''completed'' else ''failed'')
      (run_text (run_events (ar_RunID r) (st_trace x'))) []) (tb_runs (tb w)) \<rparr>"
proof -
  let ?rid = "ar_RunID r" and ?es = "run_events (ar_RunID r) (st_trace x')"
  have p: "rq_Prompt (run_request r a) \<noteq> []" using assms(9) by (simp add: run_request_def)
  obtain s6 outs where g: "RunAgent G s0 = Some (None, s6)" "sent s6 = sent s0 @ outs" "list_all2 (shown_as ?rid tid) ?es outs" "outs \<noteq> []"
    "if res = None then is_done_event (ev_Payload (last outs)) else is_error_event (ev_Payload (last outs))"
    using RunAgent_relays [OF assms(7,8) p assms(10-17)] by blast
  have es: "stream_ok ?es" by (rule Run_stream [OF assms(13-17)])
  have e: "ending_stream outs" "concat (map event_text outs) = run_text ?es" using shown_stream [OF es g(3)] by simp_all
  have recv: "ag_Recv E w3 = map Inr outs @ [Inl ''EOF'']" using assms(18,19) g(1,2) by simp
  have same: "tb w3 = tb w"
    using cp_laws_conn(1) [OF assms(1,4)] cp_laws_conn(2) [OF assms(1,5)] cp_laws_conn(3) [OF assms(1,6)] by simp
  obtain w4 where o: "consume E ?rid w3 [] (map Inr outs @ [Inl ''EOF'']) = Some (finishRun E w4 ?rid (event_status (last outs)) (run_text ?es) [])"
    "tb w4 = tb w3"
    using consume_stream [OF assms(1,2) e(1), where w = w3 and sm = "[]" and rid = ?rid and rest = "[Inl ''EOF'']"] e(2) by auto
  have d: "is_done_event (ev_Payload (last outs)) = (res = None)"
    using g(5) by (cases "ev_Payload (last outs)" rule: is_done_event.cases) (auto split: if_splits)
  have st: "event_status (last outs) = (if res = None then ''completed'' else ''failed'')"
    using e(1) terminal_status d by (simp add: ending_stream_def)
  have "nul_free [?rid, event_status (last outs), run_text ?es, []]" using assms(20) unfolding st by (auto simp: nul_free_def)
  moreover have "event_status (last outs) \<noteq> ''running''" unfolding st by simp
  ultimately obtain now where "tb (finishRun E w4 ?rid (event_status (last outs)) (run_text ?es) []) =
      (tb w4)\<lparr> tb_runs := map (set_result now ?rid (event_status (last outs)) (run_text ?es) []) (tb_runs (tb w4)) \<rparr>"
    using finishRun_recorded [OF assms(1,3)] by blast
  moreover have "consumeRun E w r a = Some (finishRun E w4 ?rid (event_status (last outs)) (run_text ?es) [])"
    using assms(4-6) o(1) recv by (simp add: consumeRun_def)
  ultimately show ?thesis using o(2) same st by auto
qed

section \<open>Runs and the tables\<close>

text \<open>One statement: it has its effect, or none.\<close>

definition sql_step :: "tables \<Rightarrow> sql_stmt \<Rightarrow> tables \<Rightarrow> bool" where
  "sql_step tb st tb' \<longleftrightarrow> tb' = tb \<or> (\<exists>now. apply_sql now tb st = Inr tb')"

interpretation statements: transition_system "\<lambda>tb. tb = \<lparr> tb_agents = [], tb_runs = [] \<rparr>" sql_step tables_ok
proof unfold_locales
  show "tables_ok tb" if "tb = \<lparr> tb_agents = [], tb_runs = [] \<rparr>" for tb using that by (simp add: tables_ok_def)
  show "tables_ok tb'" if "tables_ok tb" "sql_step tb st tb'" for tb st tb' using that apply_sql_ok by (auto simp: sql_step_def)
qed

lemma pg_upD:
  assumes "pg_up P tb" "nul_free (stmt_texts st)"
  shows "apply_sql now (tb w) st = Inl v \<Longrightarrow> \<exists>pre post. fst (pg_exec P w st) = Some (pre @ violation_text v @ post)"
    and "apply_sql now (tb w) st = Inr tb' \<Longrightarrow> fst (pg_exec P w st) = None"
  using assms unfolding pg_up_def by blast+

lemma exec_step: "pg_laws P tb \<Longrightarrow> pg_exec P w st = (e, w') \<Longrightarrow> sql_step (tb w) st (tb w')"
  by (cases e) (metis pg_lawsD(1) sql_step_def, metis pg_lawsD(2) sql_step_def)

definition run_active :: "tables \<Rightarrow> string \<Rightarrow> string \<Rightarrow> bool" where
  "run_active tb rid aid \<longleftrightarrow> (\<exists>q\<in>set (tb_runs tb). ar_RunID q = rid \<and> ar_AgentID q = aid \<and> active_run q)"

text \<open>The statements that can end a run: its result, and the deletion of its agent.\<close>

definition ends_run :: "string \<Rightarrow> string \<Rightarrow> sql_stmt \<Rightarrow> bool" where
  "ends_run rid aid st \<longleftrightarrow> st = DeleteAgentRow aid \<or> (\<exists>s x y. st = SetRunResult rid s x y)"

lemma run_active_step: "sql_step tb st tb' \<Longrightarrow> run_active tb rid aid \<Longrightarrow> \<not> ends_run rid aid st \<Longrightarrow> run_active tb' rid aid"
proof -
  assume a: "sql_step tb st tb'" "run_active tb rid aid" "\<not> ends_run rid aid st"
  obtain q where q: "q \<in> set (tb_runs tb)" "ar_RunID q = rid" "ar_AgentID q = aid" "active_run q" using a(2) by (auto simp: run_active_def)
  have "q \<in> set (tb_runs tb')" if t: "apply_sql now tb st = Inr tb'" for now
  proof (cases st)
    case (DeleteAgentRow i)
    then have "i \<noteq> aid" using a(3) by (simp add: ends_run_def)
    then show ?thesis using t DeleteAgentRow q by auto
  next
    case (SetRunResult i s x y)
    then have "i \<noteq> rid" using a(3) by (auto simp: ends_run_def)
    then have "set_result now i s x y q = q" using q(2) by (simp add: set_result_def)
    then have "q \<in> set_result now i s x y ` set (tb_runs tb)" using q(1) by (metis imageI)
    moreover have "tb' = tb\<lparr> tb_runs := map (set_result now i s x y) (tb_runs tb) \<rparr>" using t SetRunResult by (simp split: if_splits)
    ultimately show ?thesis by simp
  qed (use t q(1) in \<open>auto split: if_splits\<close>)
  then have "q \<in> set (tb_runs tb')" using a(1) q(1) by (auto simp: sql_step_def)
  then show ?thesis using q(2-) by (auto simp: run_active_def)
qed

lemma run_active_path:
  "statements.path tb sts tb' \<Longrightarrow> run_active tb rid aid \<Longrightarrow> \<forall>st\<in>set sts. \<not> ends_run rid aid st \<Longrightarrow> run_active tb' rid aid"
  by (induction rule: statements.path.induct) (auto intro: run_active_step)

lemma Get_row: "pg_laws P tb \<Longrightarrow> Store_Get P w i = Inr a \<Longrightarrow> as_ID a = i \<and> (\<exists>r\<in>set (tb_agents (tb w)). row_id r = i \<and> as_Status (fst r) = as_Status a)"
  using pg_lawsD(3) [of P tb w i]
  by (auto simp: Store_Get_def scanAgent_def row_id_def find_Some_iff split: sum.splits option.splits)

lemma Get_found:
  assumes "pg_laws P tb" "pg_up P tb" "row \<in> set (tb_agents (tb w))" "row_id row = i"
  shows "\<exists>a. Store_Get P w i = Inr a"
proof -
  obtain r where r: "pg_agent P w i = Inr r" using assms(2) unfolding pg_up_def by (cases "pg_agent P w i") (metis is_ok_simps(1), blast)
  then have f: "r = find (\<lambda>r. row_id r = i) (tb_agents (tb w))" by (rule pg_lawsD(3) [OF assms(1)])
  have "r \<noteq> None" unfolding f find_None_iff using assms(3,4) by blast
  then show ?thesis using r by (auto simp: Store_Get_def)
qed

text \<open>What StartRun does after the agent has been read.\<close>

lemma StartRun_cases:
  assumes "cp_laws E tb lg sq" "StartRun E w aid prompt = (res, w')"
  shows "(tb w' = tb w \<and> (\<exists>e. res = Inl e) \<and> (TrimSpace prompt = [] \<or> (\<forall>a. Store_Get (cp_pg E) w aid = Inr a \<longrightarrow> as_Status a \<noteq> StatusRunning))) \<or>
    (\<exists>a r w2 e. Store_Get (cp_pg E) w aid = Inr a \<and> as_Status a = StatusRunning \<and> tb w2 = tb w \<and> ar_AgentID r = aid \<and>
       ar_Status r = ''running'' \<and> ar_Prompt r = prompt \<and> (\<exists>v. ar_RunID r = fst (cp_ulid E v)) \<and> (\<exists>v. ar_TraceID r = fst (cp_ulid E v)) \<and>
       pg_exec (cp_pg E) w2 (InsertRun (ar_RunID r) aid (ar_TraceID r) prompt ''running'') = (e, w') \<and>
       (case e of None \<Rightarrow> res = Inr (r, a)
        | Some t \<Rightarrow> res = Inl (if IsConflict (Some (ErrText t)) then ErrText ''agent already has an active run'' else ErrText t)))"
proof (cases "\<exists>a. TrimSpace prompt \<noteq> [] \<and> Store_Get (cp_pg E) w aid = Inr a \<and> as_Status a = StatusRunning")
  case True
  then obtain a where a: "TrimSpace prompt \<noteq> []" "Store_Get (cp_pg E) w aid = Inr a" "as_Status a = StatusRunning" by blast
  obtain rid w1 tid w2 where u: "cp_ulid E w = (rid, w1)" "cp_ulid E w1 = (tid, w2)" by (metis prod.exhaust)
  have id: "as_ID a = aid" using Get_row [OF cp_lawsD(1) [OF assms(1)] a(2)] by simp
  let ?r = "\<lparr> ar_RunID = rid, ar_AgentID = aid, ar_TraceID = tid, ar_Prompt = prompt, ar_Status = ''running'', ar_Error = [],
     ar_Summary = [], ar_CreatedAt = zero_time, ar_UpdatedAt = zero_time \<rparr>"
  obtain e w3 where x: "pg_exec (cp_pg E) w2 (InsertRun rid aid tid prompt ''running'') = (e, w3)" by fastforce
  have "tb w2 = tb w" using cp_laws_conn(4) [OF assms(1) u(1)] cp_laws_conn(4) [OF assms(1) u(2)] by simp
  moreover have "w3 = w'" "case e of None \<Rightarrow> res = Inr (?r, a)
      | Some t \<Rightarrow> res = Inl (if IsConflict (Some (ErrText t)) then ErrText ''agent already has an active run'' else ErrText t)"
    using assms(2) a u id x by (auto simp: StartRun_def CreateRun_def Store_exec_def split: option.splits)
  ultimately show ?thesis using a x u by (intro disjI2 exI [of _ a] exI [of _ ?r] exI [of _ w2] exI [of _ e]) (auto intro: exI [of _ w] exI [of _ w1])
next
  case False
  then show ?thesis using assms(2) by (auto simp: StartRun_def split: sum.splits if_splits)
qed

lemma StartRun_blocked:
  assumes "cp_laws E tb lg sq" "run_active (tb w) rid aid"
  shows "\<not> is_ok (fst (StartRun E w aid prompt))"
proof -
  obtain res w' where s: "StartRun E w aid prompt = (res, w')" by (cases "StartRun E w aid prompt")
  show ?thesis
  proof (cases res)
    case (Inr p)
    obtain a r w2 e where c: "tb w2 = tb w" "pg_exec (cp_pg E) w2 (InsertRun (ar_RunID r) aid (ar_TraceID r) prompt ''running'') = (e, w')"
      "case e of None \<Rightarrow> res = Inr (r, a)
       | Some t \<Rightarrow> res = Inl (if IsConflict (Some (ErrText t)) then ErrText ''agent already has an active run'' else ErrText t)"
      using StartRun_cases [OF assms(1) s] Inr by blast
    then have "e = None" using Inr by (cases e) simp_all
    note c = c(1,2) this
    obtain now where "apply_sql now (tb w) (InsertRun (ar_RunID r) aid (ar_TraceID r) prompt ''running'') = Inr (tb w')"
      using pg_lawsD(1) [OF cp_lawsD(1) [OF assms(1)] c(2) [unfolded c(3)]] c(1) by auto
    then show ?thesis using assms(2) by (auto simp: run_active_def split: if_splits)
  qed (simp add: s)
qed

text \<open>C36: a token with a zero byte, which a text column cannot hold, makes the recording of a finished run fail; the error is dropped, the run
  stays active, and from then on no run of its agent can be started, whatever else happens in the tables, until the agent is deleted or
  somebody else records a result.\<close>

theorem nul_token_blocks_agent:
  assumes "cp_laws E tb lg sq" "redis_up E"
    and "\<forall>w st. \<not> nul_free (stmt_texts st) \<longrightarrow> (\<exists>e w'. pg_exec (cp_pg E) w st = (Some e, w') \<and> tb w' = tb w)"
    and "ag_RunAgent E w = (None, w1)" "ag_Send E w1 (run_request r a) = (None, w2)" "ag_CloseSend E w2 = (None, w3)"
    and "ag_Recv E w3 = map Inr evs @ rest" "ending_stream evs" "ev \<in> set evs" "CHR 0x00 \<in> set (event_text ev)"
    and "run_active (tb w) (ar_RunID r) aid"
  shows "\<exists>w'. consumeRun E w r a = Some w' \<and>
    (\<forall>sts w'' prompt. transition_system.path sql_step (tb w') sts (tb w'') \<and> (\<forall>st\<in>set sts. \<not> ends_run (ar_RunID r) aid st) \<longrightarrow>
       \<not> is_ok (fst (StartRun E w'' aid prompt)))"
proof -
  let ?rid = "ar_RunID r" and ?sm = "concat (map event_text evs)"
  have same: "tb w3 = tb w"
    using cp_laws_conn(1) [OF assms(1,4)] cp_laws_conn(2) [OF assms(1,5)] cp_laws_conn(3) [OF assms(1,6)] by simp
  obtain w4 where o: "consume E ?rid w3 [] (map Inr evs @ rest) = Some (finishRun E w4 ?rid (event_status (last evs)) ([] @ ?sm) [])" "tb w4 = tb w3"
    using consume_stream [OF assms(1,2,8), where w = w3 and sm = "[]" and rid = ?rid and rest = rest] by blast
  have c: "consumeRun E w r a = Some (finishRun E w4 ?rid (event_status (last evs)) ?sm [])" using assms(4-7) o(1) by (simp add: consumeRun_def)
  have "CHR 0x00 \<in> set ?sm" using assms(9,10) by auto
  then have "\<not> nul_free (stmt_texts (SetRunResult ?rid (event_status (last evs)) ?sm []))" unfolding nul_free_def by (simp only: stmt_texts.simps) simp
  then obtain e w5 where x: "pg_exec (cp_pg E) w4 (SetRunResult ?rid (event_status (last evs)) ?sm []) = (Some e, w5)" "tb w5 = tb w4"
    using assms(3) by blast
  then have "finishRun E w4 ?rid (event_status (last evs)) ?sm [] = w5" by (simp add: finishRun_def FinishRun_def Store_exec_def)
  then have "tb (finishRun E w4 ?rid (event_status (last evs)) ?sm []) = tb w" using x(2) o(2) same by simp
  then have act: "run_active (tb (finishRun E w4 ?rid (event_status (last evs)) ?sm [])) ?rid aid" using assms(11) by simp
  show ?thesis using c run_active_path [OF _ act] StartRun_blocked [OF assms(1)] by blast
qed

text \<open>An agent that has a row is found with its status.\<close>

lemma Get_status:
  assumes "cp_laws E tb lg sq" "pg_up (cp_pg E) tb" "tables_ok (tb w)" "rw \<in> set (tb_agents (tb w))" "row_id rw = aid"
  shows "\<exists>a. Store_Get (cp_pg E) w aid = Inr a \<and> as_Status a = as_Status (fst rw)"
proof -
  note P = cp_lawsD(1) [OF assms(1)]
  obtain a where a: "Store_Get (cp_pg E) w aid = Inr a" using Get_found [OF P assms(2,4,5)] by blast
  obtain q where q: "q \<in> set (tb_agents (tb w))" "row_id q = aid" "as_Status (fst q) = as_Status a" using Get_row [OF P a] by blast
  have "q = rw" using q(1,2) assms(3-5) by (simp add: tables_ok_def) (metis distinct_map inj_onD)
  then show ?thesis using a q(3) by simp
qed

lemma InsertRun_accepted:
  assumes "apply_sql now tb (InsertRun rid aid tid prompt ''running'') = Inr tb'"
  shows "\<not> run_active tb x aid" "run_active tb' x aid \<longleftrightarrow> x = rid"
proof -
  have free: "\<forall>q\<in>set (tb_runs tb). active_run q \<longrightarrow> ar_AgentID q \<noteq> aid" using assms by (auto split: if_splits)
  then show "\<not> run_active tb x aid" by (auto simp: run_active_def)
  have "tb' = tb\<lparr> tb_runs := tb_runs tb @ [\<lparr> ar_RunID = rid, ar_AgentID = aid, ar_TraceID = tid, ar_Prompt = prompt,
      ar_Status = ''running'', ar_Error = [], ar_Summary = [], ar_CreatedAt = now, ar_UpdatedAt = now \<rparr>] \<rparr>"
    using assms by (simp split: if_splits)
  then show "run_active tb' x aid \<longleftrightarrow> x = rid" using free by (auto simp: run_active_def active_run_def)
qed

lemma InsertRun_refused:
  assumes "pg_laws (cp_pg E) tb" "pg_up (cp_pg E) tb" "nul_free (stmt_texts (InsertRun rid aid tid prompt ''running''))"
    and "pg_exec (cp_pg E) w (InsertRun rid aid tid prompt ''running'') = (Some t, w')"
  shows "tb w' = tb w" "run_active (tb w) x aid \<Longrightarrow> IsConflict (Some (ErrText t))"
proof -
  let ?ins = "\<lambda>now. apply_sql now (tb w) (InsertRun rid aid tid prompt ''running'')"
  have "?ins 0 \<noteq> Inr tb'" for tb'
  proof
    assume "?ins 0 = Inr tb'"
    then have "fst (pg_exec (cp_pg E) w (InsertRun rid aid tid prompt ''running'')) = None" using pg_upD(2) [OF assms(2,3)] by metis
    then show False using assms(4) by simp
  qed
  then obtain v where "?ins 0 = Inl v" by (cases "?ins 0") blast+
  then have v: "?ins now = Inl v" for now by (auto split: if_splits)
  show "tb w' = tb w" using pg_lawsD(2) [OF assms(1)] assms(4) v by (metis Inl_Inr_False)
  show "IsConflict (Some (ErrText t))" if act: "run_active (tb w) x aid"
  proof -
    have "\<exists>c. v = Duplicate c" using v [of 0] act by (auto simp: run_active_def split: if_splits)
    then show ?thesis using pg_upD(1) [OF assms(2,3)] v [of 0] assms(4) by (metis conflict_text fst_conv option.inject)
  qed
qed

text \<open>C5: StartRun is exclusive: when it succeeds, the agent exists and is running, had no active run before, and the new run is its only one
  after; when it fails the tables are as they were, and when that is because the agent has an active run the error says so. (PostgreSQL
  answers, texts have no zero byte.)\<close>

theorem StartRun_exclusive:
  assumes "cp_laws E tb lg sq" "pg_up (cp_pg E) tb" "tables_ok (tb w)" "StartRun E w aid prompt = (res, w')"
    and "nul_free [aid, prompt]" "\<forall>v. nul_free [fst (cp_ulid E v)]"
  shows "tables_ok (tb w') \<and>
    (case res of
       Inl e \<Rightarrow> tb w' = tb w \<and>
         ((\<exists>rid. run_active (tb w) rid aid) \<and> TrimSpace prompt \<noteq> [] \<and>
            (\<exists>row\<in>set (tb_agents (tb w)). row_id row = aid \<and> as_Status (fst row) = ''running'') \<longrightarrow>
          e = ErrText ''agent already has an active run'')
     | Inr (r, a) \<Rightarrow> as_ID a = aid \<and> as_Status a = ''running'' \<and> (\<forall>rid. \<not> run_active (tb w) rid aid) \<and>
         (\<forall>rid. run_active (tb w') rid aid \<longleftrightarrow> rid = ar_RunID r))"
proof -
  note P = cp_lawsD(1) [OF assms(1)]
  consider "tb w' = tb w" "\<exists>e. res = Inl e" "TrimSpace prompt = [] \<or> (\<forall>a. Store_Get (cp_pg E) w aid = Inr a \<longrightarrow> as_Status a \<noteq> StatusRunning)"
    | a r w2 e where "Store_Get (cp_pg E) w aid = Inr a" "as_Status a = StatusRunning" "tb w2 = tb w" "ar_AgentID r = aid"
       "\<exists>v. ar_RunID r = fst (cp_ulid E v)" "\<exists>v. ar_TraceID r = fst (cp_ulid E v)"
       "pg_exec (cp_pg E) w2 (InsertRun (ar_RunID r) aid (ar_TraceID r) prompt ''running'') = (e, w')"
       "case e of None \<Rightarrow> res = Inr (r, a)
        | Some t \<Rightarrow> res = Inl (if IsConflict (Some (ErrText t)) then ErrText ''agent already has an active run'' else ErrText t)"
    using StartRun_cases [OF assms(1,4)] by blast
  then show ?thesis
  proof cases
    case 1
    then show ?thesis using Get_status [OF assms(1-3)] assms(3) by (fastforce simp: StatusRunning_def)
  next
    case 2
    have tok: "tables_ok (tb w')" using statements.step_inv [OF assms(3)] exec_step [OF P 2(7)] 2(3) by simp
    have nf: "nul_free (stmt_texts (InsertRun (ar_RunID r) aid (ar_TraceID r) prompt ''running''))"
      using assms(5,6) 2(5,6) by (auto simp: nul_free_def)
    show ?thesis
    proof (cases e)
      case None
      obtain now where "apply_sql now (tb w) (InsertRun (ar_RunID r) aid (ar_TraceID r) prompt ''running'') = Inr (tb w')"
        using pg_lawsD(1) [OF P] 2(3,7) None by metis
      from InsertRun_accepted [OF this] show ?thesis using 2(2,8) None tok Get_row [OF P 2(1)] by (simp add: StatusRunning_def)
    next
      case (Some t)
      note ref = InsertRun_refused [OF P assms(2) nf 2(7) [unfolded Some]]
      show ?thesis using ref 2(3,8) Some tok by auto
    qed
  qed
qed

section \<open>A control plane in memory\<close>

text \<open>Tables, event lists and counters; the gateway answers with the given stream; Docker is always ready.\<close>

type_synonym mem_world = "tables \<times> (string \<Rightarrow> string list) \<times> (string \<Rightarrow> int)"

definition mem_pg :: "mem_world PgEnv" where
  "mem_pg = \<lparr> pg_open = (\<lambda>w dsn. (None, w)), pg_ping = (\<lambda>w. None), pg_close = (\<lambda>w. w),
     pg_exec = (\<lambda>(tb, rest) st.
       if \<not> nul_free (stmt_texts st) then (Some ''invalid byte sequence'', (tb, rest))
       else (case apply_sql 0 tb st of Inl v \<Rightarrow> (Some (violation_text v), (tb, rest)) | Inr tb' \<Rightarrow> (None, (tb', rest)))),
     pg_agent = (\<lambda>(tb, rest) i. Inr (find (\<lambda>r. row_id r = i) (tb_agents tb))),
     pg_agents = (\<lambda>(tb, rest). Inr (sort_key (\<lambda>r. - as_CreatedAt (fst r)) (tb_agents tb))),
     pg_run = (\<lambda>(tb, rest) i. Inr (find (\<lambda>r. ar_RunID r = i) (tb_runs tb))),
     pg_runs = (\<lambda>(tb, rest) f. Inr (take 100 (sort_key (\<lambda>r. - ar_CreatedAt r) (filter (run_matches f) (tb_runs tb))))),
     pg_count = (\<lambda>(tb, rest). Inr (int (length (filter active_run (tb_runs tb))))) \<rparr>"

definition mem_docker :: "mem_world DockerEnv" where
  "mem_docker = \<lparr> dk_ping = (\<lambda>w. None), dk_inspect_image = (\<lambda>w i. None), dk_pull = (\<lambda>w i. (None, w)), dk_download = (\<lambda>w i. (None, w)),
     dk_volume_create = (\<lambda>w n l. (None, w)), dk_create = (\<lambda>w c. (Inr (cc_Name c), w)), dk_start = (\<lambda>w c. (None, w)),
     dk_stop = (\<lambda>w c t. (None, w)), dk_remove = (\<lambda>w c. (None, w)), dk_volume_remove = (\<lambda>w v. (None, w)),
     dk_copy_from = (\<lambda>w c p. Inr ([], None)) \<rparr>"

definition mem_cp :: "(string, RunEvent) result list \<Rightarrow> mem_world CpEnv" where
  "mem_cp recv = \<lparr> cp_U = ascii_unicode, cp_pg = mem_pg, cp_docker = mem_docker, cp_image = ''alpine:3.19'', cp_ulid = Pair ''01'',
     cp_now = (\<lambda>w. ''2025-01-01T00:00:00Z''), cp_time_ok = (\<lambda>s. True), rd_ping = (\<lambda>w. None),
     rd_incr = (\<lambda>(tb, lg, sq) k. (Inr (sq k + 1), (tb, lg, sq(k := sq k + 1)))),
     rd_pipe = (\<lambda>(tb, lg, sq) cs. (None, (tb, foldl apply_ui lg cs, sq))), rd_lrange = (\<lambda>(tb, lg, sq) k. Inr (lg k)),
     ag_health = (\<lambda>w. None), ag_RunAgent = (\<lambda>w. (None, w)), ag_Send = (\<lambda>w r. (None, w)), ag_CloseSend = (\<lambda>w. (None, w)),
     ag_Recv = (\<lambda>w. recv) \<rparr>"

definition mem_log :: "mem_world \<Rightarrow> string \<Rightarrow> string list" where "mem_log w = fst (snd w)"
definition mem_seq :: "mem_world \<Rightarrow> string \<Rightarrow> int" where "mem_seq w = snd (snd w)"

lemma newest_first_sort: "newest_first t (sort_key (\<lambda>r. - t r) xs) xs"
proof -
  have "sorted (map (\<lambda>r. - t r) (sort_key (\<lambda>r. - t r) xs))" by simp
  then show ?thesis by (simp add: newest_first_def sorted_wrt_map)
qed

lemma mem_pg_laws: "pg_laws mem_pg fst"
proof -
  have "\<exists>xs. newest_first ar_CreatedAt xs ys \<and> take 100 (sort_key (\<lambda>r. - ar_CreatedAt r) ys) = take 100 xs" for ys
    using newest_first_sort by blast
  then show ?thesis unfolding pg_laws_def mem_pg_def by (auto simp: newest_first_sort split: if_splits sum.splits prod.splits)
qed

lemma apply_sql_time: "apply_sql now tb st = Inl v \<Longrightarrow> apply_sql 0 tb st = Inl v"
  by (cases st) (auto split: if_splits)

lemma mem_pg_up: "pg_up mem_pg fst"
proof -
  have "fst (pg_exec mem_pg w st) = Some ([] @ violation_text v @ [])" if "nul_free (stmt_texts st)" "apply_sql now (fst w) st = Inl v" for w st now v
    using that(1) apply_sql_time [OF that(2)] by (cases w) (simp add: mem_pg_def)
  moreover have "fst (pg_exec mem_pg w st) = None" if "nul_free (stmt_texts st)" "apply_sql now (fst w) st = Inr tb'" for w st now tb'
  proof -
    have "apply_sql 0 (fst w) st \<noteq> Inl v" for v
    proof
      assume "apply_sql 0 (fst w) st = Inl v"
      then have "apply_sql now (fst w) st = Inl v" by (cases st) (auto split: if_splits)
      then show False using that(2) by simp
    qed
    then show ?thesis using that(1) by (cases w; cases "apply_sql 0 (fst w) st") (auto simp: mem_pg_def)
  qed
  ultimately have "\<forall>w st now v. nul_free (stmt_texts st) \<longrightarrow> apply_sql now (fst w) st = Inl v \<longrightarrow>
      (\<exists>pre post. fst (pg_exec mem_pg w st) = Some (pre @ violation_text v @ post))"
    "\<forall>w st now tb'. nul_free (stmt_texts st) \<longrightarrow> apply_sql now (fst w) st = Inr tb' \<longrightarrow> fst (pg_exec mem_pg w st) = None" by blast+
  then show ?thesis unfolding pg_up_def by (simp add: mem_pg_def split_beta)
qed

lemma mem_cp_laws: "cp_laws (mem_cp recv) fst mem_log mem_seq"
proof -
  have "pg_laws (cp_pg (mem_cp recv)) fst" using mem_pg_laws by (simp add: mem_cp_def)
  moreover have "ValidString ''2025-01-01T00:00:00Z''" by (simp add: ValidString_ascii ord_def)
  ultimately show ?thesis unfolding cp_laws_def
    by (simp add: mem_cp_def mem_log_def mem_seq_def mem_pg_def split_beta Let_def split: sum.splits)
qed

lemma mem_cp_up: "redis_up (mem_cp recv)"
  by (simp add: redis_up_def mem_cp_def split_beta)

lemma mem_cp_sel [simp]: "cp_pg (mem_cp recv) = mem_pg" "cp_docker (mem_cp recv) = mem_docker" "ag_Recv (mem_cp recv) w = recv"
  "ag_RunAgent (mem_cp recv) w = (None, w)" "ag_Send (mem_cp recv) w r = (None, w)" "ag_CloseSend (mem_cp recv) w = (None, w)"
  "cp_ulid (mem_cp recv) w = (''01'', w)"
  by (simp_all add: mem_cp_def)

definition demo_spec :: AgentSpec where
  "demo_spec = zero_agent\<lparr> as_ID := ''a1'', as_Name := ''ada'', as_Status := ''running'' \<rparr>"

definition demo_run_row :: "string \<Rightarrow> AgentRun" where
  "demo_run_row i = \<lparr> ar_RunID = i, ar_AgentID = ''a1'', ar_TraceID = ''t'', ar_Prompt = ''hi'', ar_Status = ''running'', ar_Error = [],
     ar_Summary = [], ar_CreatedAt = 0, ar_UpdatedAt = 0 \<rparr>"

definition demo_world :: "AgentRun list \<Rightarrow> mem_world" where
  "demo_world rs = (\<lparr> tb_agents = [(demo_spec, JNull)], tb_runs = rs \<rparr>, \<lambda>k. [], \<lambda>k. 0)"

definition demo_stream :: "string \<Rightarrow> RunEvent list" where
  "demo_stream tx = [\<lparr> ev_RunId = ''run'', ev_TraceId = ''t'', ev_Payload = Some (Token tx 0) \<rparr>,
     \<lparr> ev_RunId = ''run'', ev_TraceId = ''t'', ev_Payload = Some (Done 1 0) \<rparr>]"

lemma demo_stream_ends: "ending_stream (demo_stream tx)" "map event_text (demo_stream tx) = [tx, []]"
  "is_done_event (ev_Payload (last (demo_stream tx)))"
  by (simp_all add: demo_stream_def ending_stream_def event_text_def event_parts convertEvent_def token_text_def map_order)

lemma demo_stream_ok: "ValidString tx \<Longrightarrow> list_all event_ok (demo_stream tx)"
  by (simp add: demo_stream_def event_ok_def event_strings_def event_ints_def)

theorem consumeRun_records_witness:
  "\<exists>w'. consumeRun (mem_cp (map Inr (demo_stream ''hello''))) (demo_world [demo_run_row ''run'']) (demo_run_row ''run'') demo_spec = Some w' \<and>
     map ar_Status (tb_runs (fst w')) = [''completed''] \<and> map ar_Summary (tb_runs (fst w')) = [''hello''] \<and>
     (\<exists>us. Events_After (mem_cp (map Inr (demo_stream ''hello''))) w' ''run'' 1 = Inr us \<and> map ui_Type us = [''done''])"
proof -
  let ?E = "mem_cp (map Inr (demo_stream ''hello''))" and ?w = "demo_world [demo_run_row ''run'']" and ?evs = "demo_stream ''hello''"
  have h: "ar_RunID (demo_run_row ''run'') = ''run''" "nul_free (ar_RunID (demo_run_row ''run'') # map event_text ?evs)" "length ?evs < 2 ^ 63"
    "mem_log ?w (events_key (ar_RunID (demo_run_row ''run''))) = []" "mem_seq ?w (seqKey (ar_RunID (demo_run_row ''run''))) = 0"
    "ValidString ''hello''" "pg_up (cp_pg ?E) fst" "ag_Recv ?E ?w = map Inr ?evs @ []"
    using mem_pg_up by (simp_all add: demo_run_row_def nul_free_def demo_stream_ends demo_world_def mem_log_def mem_seq_def ValidString_ascii ord_def)
      (simp add: demo_stream_def)
  obtain w' us now where r: "consumeRun ?E ?w (demo_run_row ''run'') demo_spec = Some w'"
    "fst w' = (fst ?w)\<lparr> tb_runs := map (set_result now ''run'' (if is_done_event (ev_Payload (last ?evs)) then ''completed'' else ''failed'')
      (concat (map event_text ?evs)) []) (tb_runs (fst ?w)) \<rparr>"
    "list_all2 (\<lambda>ev u. ui_Type u = event_kind ev \<and> ui_Data u = event_data ev) ?evs us" "\<forall>n. Events_After ?E w' ''run'' (int n) = Inr (drop n us)"
    using consumeRun_records [of ?E fst mem_log mem_seq ?w ?w "demo_run_row ''run''" demo_spec ?w ?w ?evs "[]", OF mem_cp_laws mem_cp_up h(7) mem_cp_sel(4) mem_cp_sel(5) mem_cp_sel(6) h(8) demo_stream_ends(1)
      demo_stream_ok [OF h(6)] h(3,2,4,5)] unfolding h(1) by blast
  have "map ui_Type (drop 1 us) = [''done'']"
    using r(3) by (auto simp: demo_stream_def list_all2_Cons1 event_parts convertEvent_def)
  moreover have "Events_After ?E w' ''run'' 1 = Inr (drop 1 us)" using r(4) [rule_format, of 1] by simp
  ultimately show ?thesis using r(1,2) demo_stream_ends(2,3) by (simp add: demo_world_def set_result_def demo_run_row_def)
qed

theorem StartRun_exclusive_witness:
  "fst (StartRun (mem_cp []) (demo_world [demo_run_row ''run'']) ''a1'' ''hi'') = Inl (ErrText ''agent already has an active run'')"
proof -
  obtain res w' where s: "StartRun (mem_cp []) (demo_world [demo_run_row ''run'']) ''a1'' ''hi'' = (res, w')"
    by (cases "StartRun (mem_cp []) (demo_world [demo_run_row ''run'']) ''a1'' ''hi''")
  have ok: "tables_ok (fst (demo_world [demo_run_row ''run'']))"
    by (simp add: tables_ok_def demo_world_def demo_run_row_def demo_spec_def row_id_def)
  have nf: "nul_free [''a1'', ''hi'']" "\<forall>v. nul_free [fst (cp_ulid (mem_cp []) v)]" by (simp_all add: nul_free_def)
  have up: "pg_up (cp_pg (mem_cp [])) fst" using mem_pg_up by simp
  have act: "run_active (fst (demo_world [demo_run_row ''run''])) ''run'' ''a1''"
    by (simp add: run_active_def demo_world_def demo_run_row_def active_run_def)
  have row: "\<exists>row\<in>set (tb_agents (fst (demo_world [demo_run_row ''run'']))). row_id row = ''a1'' \<and> as_Status (fst row) = ''running''"
    by (simp add: demo_world_def demo_spec_def row_id_def)
  have "TrimSpace ''hi'' \<noteq> []" by (simp add: text_eval)
  then show ?thesis using StartRun_exclusive [OF mem_cp_laws up ok s nf] act row s by (auto split: sum.splits)
qed

theorem nul_token_blocks_agent_witness:
  "\<exists>w'. consumeRun (mem_cp (map Inr (demo_stream [CHR 0x00]))) (demo_world [demo_run_row ''run'']) (demo_run_row ''run'') demo_spec = Some w' \<and>
     \<not> is_ok (fst (StartRun (mem_cp (map Inr (demo_stream [CHR 0x00]))) w' ''a1'' ''hi''))"
proof -
  let ?E = "mem_cp (map Inr (demo_stream [CHR 0x00]))" and ?w = "demo_world [demo_run_row ''run'']" and ?evs = "demo_stream [CHR 0x00]"
  have rej: "\<forall>w st. \<not> nul_free (stmt_texts st) \<longrightarrow> (\<exists>e w'. pg_exec (cp_pg ?E) w st = (Some e, w') \<and> fst w' = fst w)"
    by (simp add: mem_pg_def split_beta)
  have h: "ag_Recv ?E ?w = map Inr ?evs @ []" "hd ?evs \<in> set ?evs" "CHR 0x00 \<in> set (event_text (hd ?evs))"
    using demo_stream_ends(2) [of "[CHR 0x00]"] by (simp_all add: demo_stream_def)
  have act: "run_active (fst ?w) (ar_RunID (demo_run_row ''run'')) ''a1''"
    by (simp add: run_active_def demo_world_def demo_run_row_def active_run_def)
  show ?thesis
    using nul_token_blocks_agent [OF mem_cp_laws mem_cp_up rej mem_cp_sel(4) mem_cp_sel(5) mem_cp_sel(6) h(1) demo_stream_ends(1) h(2,3) act]
    by (metis empty_iff list.set(1) statements.path_nil)
qed

text \<open>The run of theory Agent's example, as the control plane asks for it.\<close>

definition cp_task :: Task where
  "cp_task = \<lparr> t_RunID = ''run'', t_UserID = ''local-dev'', t_AgentID = ''a1'', t_Prompt = ''hi'', t_Model = [], t_SystemPrompt = [],
     t_TraceID = ''t'', t_Attempt = 0 \<rparr>"

definition cp_events :: "Event list" where "cp_events = run_events ''run'' (st_trace (snd (Run demo_agent demo_start cp_task)))"

lemma cp_demo_run: "fst (Run demo_agent demo_start cp_task) = None \<and> nul_free [''run'', run_text cp_events]"
  unfolding cp_events_def cp_task_def run_text_def nul_free_def
  by (simp add: demo_defs run_defs compactHistory_def run_loop.simps llm_calls_def tool_event_def state_event_def done_event_def zero_event_def
      zero_result_def event_kinds)

definition cp_gateway :: "RunEvent list GatewayEnv" where
  "cp_gateway = demo_gateway\<lparr> gw_Recv := (\<lambda>s. (Inr (run_request (demo_run_row ''run'') demo_spec), s)),
     gw_Subscribe := (\<lambda>s r. (Inr (map Chan cp_events @ []), s)) \<rparr>"

theorem worker_run_recorded_witness:
  "\<exists>s5 w'. RunAgent cp_gateway [] = Some (None, s5) \<and>
     consumeRun (mem_cp (map Inr s5 @ [Inl ''EOF''])) (demo_world [demo_run_row ''run'']) (demo_run_row ''run'') demo_spec = Some w' \<and>
     map ar_Status (tb_runs (fst w')) = [''completed'']"
proof -
  let ?r = "demo_run_row ''run''" and ?x = "snd (Run demo_agent demo_start cp_task)"
  have rid: "ar_RunID ?r = ''run''" "ar_Prompt ?r \<noteq> []" by (simp_all add: demo_run_row_def)
  have t: "run_task ''run'' ''t'' (run_request ?r demo_spec) = cp_task"
    by (simp add: run_task_def run_request_def demo_run_row_def demo_spec_def zero_agent_def cp_task_def)
  have run: "Run demo_agent demo_start (run_task (ar_RunID ?r) ''t'' (run_request ?r demo_spec)) = (None, ?x)"
    using cp_demo_run by (simp add: t rid prod_eq_iff)
  have g: "stream_laws cp_gateway id" "gw_Recv cp_gateway [] = (Inr (run_request ?r demo_spec), [])"
    "request_ids cp_gateway [] (run_request ?r demo_spec) = (ar_RunID ?r, ''t'', [])"
    "gw_Subscribe cp_gateway [] (ar_RunID ?r) = (Inr (map Chan (run_events (ar_RunID ?r) (st_trace ?x)) @ []), [])"
    "gw_Publish cp_gateway [] (run_task (ar_RunID ?r) ''t'' (run_request ?r demo_spec)) = (Inr ''1-0'', [])"
    by (simp_all add: cp_gateway_def demo_gateway_def stream_laws_def request_ids_def run_request_def demo_run_row_def cp_events_def)
  have safe: "ar_RunID ?r \<noteq> []" "fresh_ids demo_agent (ar_RunID ?r)" "run_events (ar_RunID ?r) (st_trace demo_start) = []"
    using demo_run_safe by (simp_all add: rid)
  have p: "rq_Prompt (run_request ?r demo_spec) \<noteq> []" by (simp add: run_request_def demo_run_row_def)
  obtain s5 where s5: "RunAgent cp_gateway [] = Some (None, s5)"
    using RunAgent_relays [OF g(1,2) p g(3,4,5) run safe(1,2) demo_run_safe(3) safe(3)] by blast
  have recv: "ag_Recv (mem_cp (map Inr s5 @ [Inl ''EOF''])) (demo_world [?r]) = map Inr (drop (length (id [])) (id s5)) @ [Inl ''EOF'']" by simp
  have nf: "nul_free [ar_RunID ?r, run_text (run_events (ar_RunID ?r) (st_trace ?x))]" using cp_demo_run by (simp add: rid cp_events_def)
  have up: "pg_up (cp_pg (mem_cp (map Inr s5 @ [Inl ''EOF'']))) fst" using mem_pg_up by simp
  obtain w' now where w': "consumeRun (mem_cp (map Inr s5 @ [Inl ''EOF''])) (demo_world [?r]) ?r demo_spec = Some w'"
    "fst w' = (fst (demo_world [?r]))\<lparr> tb_runs := map (set_result now (ar_RunID ?r) (if (None :: string option) = None then ''completed'' else ''failed'')
      (run_text (run_events (ar_RunID ?r) (st_trace ?x))) []) (tb_runs (fst (demo_world [?r]))) \<rparr>"
    using worker_run_recorded [OF mem_cp_laws mem_cp_up up mem_cp_sel(4) mem_cp_sel(5) mem_cp_sel(6) g(1,2) rid(2) g(3,4,5) run safe(1,2)
      demo_run_safe(3) safe(3) s5 recv nf] by auto
  have "map ar_Status (tb_runs (fst w')) = [''completed'']" unfolding w'(2) by (simp add: demo_world_def set_result_def)
  then show ?thesis using s5 w'(1) by (intro exI [of _ s5] exI [of _ w'] conjI)
qed

end
