(* ===== verification/ControlAgents.thy ===== *)
theory ControlAgents
  imports ControlPlaneProps
begin

text \<open>
  What becomes of agents and their containers (internal/controlplane): the containers Create makes, the outcome of a batch deletion, and
  the container a failed Create leaves behind.
\<close>

section \<open>What Docker promises\<close>

type_synonym containers = "(string \<times> ContainerConfig) list"

text \<open>Containers are made and removed by their own operations only.\<close>

definition docker_laws :: "'w CpEnv \<Rightarrow> ('w \<Rightarrow> containers) \<Rightarrow> bool" where
  "docker_laws E cs \<longleftrightarrow>
     (\<forall>w c. case dk_create (cp_docker E) w c of (Inl e, w') \<Rightarrow> cs w' = cs w | (Inr cid, w') \<Rightarrow> cs w' = cs w @ [(cid, c)]) \<and>
     (\<forall>w i. cs (snd (dk_remove (cp_docker E) w i)) = cs w \<or> cs (snd (dk_remove (cp_docker E) w i)) = filter (\<lambda>c. fst c \<noteq> i) (cs w)) \<and>
     (\<forall>w i. cs (snd (dk_pull (cp_docker E) w i)) = cs w) \<and> (\<forall>w i. cs (snd (dk_download (cp_docker E) w i)) = cs w) \<and>
     (\<forall>w n l. cs (snd (dk_volume_create (cp_docker E) w n l)) = cs w) \<and> (\<forall>w n. cs (snd (dk_volume_remove (cp_docker E) w n)) = cs w) \<and>
     (\<forall>w i. cs (snd (dk_start (cp_docker E) w i)) = cs w) \<and> (\<forall>w i t. cs (snd (dk_stop (cp_docker E) w i t)) = cs w) \<and>
     (\<forall>w st. cs (snd (pg_exec (cp_pg E) w st)) = cs w) \<and> (\<forall>w. cs (snd (cp_ulid E w)) = cs w)"

lemma docker_lawsD:
  assumes "docker_laws E cs"
  shows "dk_create (cp_docker E) w c = (Inr cid, w') \<Longrightarrow> cs w' = cs w @ [(cid, c)]"
    and "dk_create (cp_docker E) w c = (Inl e, w') \<Longrightarrow> cs w' = cs w"
    and "dk_pull (cp_docker E) w i = (e1, w') \<Longrightarrow> cs w' = cs w"
    and "dk_download (cp_docker E) w i = (e2, w') \<Longrightarrow> cs w' = cs w"
    and "dk_volume_create (cp_docker E) w n l = (e3, w') \<Longrightarrow> cs w' = cs w"
    and "dk_volume_remove (cp_docker E) w n = (e4, w') \<Longrightarrow> cs w' = cs w"
    and "dk_start (cp_docker E) w i = (e5, w') \<Longrightarrow> cs w' = cs w"
    and "pg_exec (cp_pg E) w st = (e6, w') \<Longrightarrow> cs w' = cs w"
    and "cp_ulid E w = (u, w') \<Longrightarrow> cs w' = cs w"
  using assms unfolding docker_laws_def
  by ((metis (mono_tags, lifting) case_prod_conv sum.simps(6)), (metis (mono_tags, lifting) case_prod_conv sum.simps(5)), (metis snd_conv)+)

section \<open>Creation\<close>

lemma ensureImage_frame: "docker_laws E cs \<Longrightarrow> Docker_ensureImage U (cp_docker E) w ref = (e, w') \<Longrightarrow> cs w' = cs w"
  using docker_lawsD(3,4) by (fastforce simp: Docker_ensureImage_def split: option.splits prod.splits if_splits)

lemma Store_frame:
  assumes "docker_laws E cs"
  shows "Store_Create (cp_pg E) w a = (e, w') \<Longrightarrow> cs w' = cs w"
    and "UpdateRuntime (cp_pg E) w i st c le = (e, w') \<Longrightarrow> cs w' = cs w"
    and "Store_Delete (cp_pg E) w i = (e, w') \<Longrightarrow> cs w' = cs w"
  using docker_lawsD(8) [OF assms] by (auto simp: Store_Create_def UpdateRuntime_def Store_Delete_def Store_exec_def split: prod.splits)

lemma Docker_Create_frame:
  assumes "docker_laws E cs" "Docker_Create U (cp_docker E) w a = (res, w')"
  shows "cs w' = cs w \<or> (\<exists>cid. cs w' = cs w @ [(cid, agent_container a)])"
proof -
  let ?D = "cp_docker E"
  obtain e1 w1 where 1: "Docker_ensureImage U ?D w (as_Image a) = (e1, w1)" by fastforce
  note f1 = ensureImage_frame [OF assms(1) 1]
  obtain e2 w2 where 2: "dk_volume_create ?D w1 (as_VolumeName a) [(''agentforge.agent_id'', as_ID a)] = (e2, w2)" by fastforce
  note f2 = docker_lawsD(5) [OF assms(1) 2]
  obtain r3 w3 where 3: "dk_create ?D w2 (agent_container a) = (r3, w3)" by fastforce
  show ?thesis
  proof (cases "e1 = None \<and> e2 = None")
    case True
    show ?thesis
    proof (cases r3)
      case (Inl e)
      then show ?thesis using assms(2) 1 2 3 True f1 f2 docker_lawsD(2) [OF assms(1)] by (auto simp: Docker_Create_def)
    next
      case (Inr cid)
      obtain e4 w4 where 4: "dk_start ?D w3 cid = (e4, w4)" by fastforce
      have "w' = w4" using assms(2) 1 2 3 4 True Inr by (auto simp: Docker_Create_def split: option.splits)
      then show ?thesis using f1 f2 docker_lawsD(1) [OF assms(1) 3 [unfolded Inr]] docker_lawsD(7) [OF assms(1) 4] by auto
    qed
  next
    case False
    then show ?thesis using assms(2) 1 2 f1 f2 by (auto simp: Docker_Create_def split: option.splits)
  qed
qed

text \<open>A container an agent may run in.\<close>

definition sandboxed :: "string \<Rightarrow> CreateAgentInput \<Rightarrow> ContainerConfig \<Rightarrow> bool" where
  "sandboxed img i c \<longleftrightarrow> cc_Image c = img \<and> cc_NetworkMode c = ''none'' \<and> cc_ReadonlyRootfs c \<and> cc_CapDrop c = [''ALL''] \<and>
     ''no-new-privileges:true'' \<in> set (cc_SecurityOpt c) \<and> map snd (cc_Mounts c) = [''/workspace''] \<and>
     (\<exists>aid. cc_Name c = ''agentforge-agent-'' @ aid \<and> map fst (cc_Mounts c) = [''agentforge-workspace-'' @ aid]) \<and>
     0 < cc_PidsLimit c \<and> 0 < cc_CPUQuota c \<and> (ci_MemoryMB i < 2 ^ 43 \<longrightarrow> 0 < cc_Memory c)"

lemma wrap64_id: "- (2 ^ 63) \<le> i \<Longrightarrow> i < 2 ^ 63 \<Longrightarrow> wrap64 i = i"
  by (simp add: wrap64_def sint_uint unsigned_of_int signed_take_bit_take_bit signed_take_bit_int_eq_self)

lemma new_agent_sandboxed:
  assumes "Validate_input U i img = None"
  shows "sandboxed img i (agent_container (new_agent (normalizeCreate i img) aid))"
proof -
  have v: "ci_Image i = [] \<or> ci_Image i = img" "0 \<le> ci_CPUQuotaUS i" "0 \<le> ci_MemoryMB i" "0 \<le> ci_PidsLimit i"
    using assms by (auto simp: Validate_input_def split: if_splits)
  let ?m = "if ci_MemoryMB i = 0 then 256 else ci_MemoryMB i"
  have "0 < wrap64 (wrap64 (?m * 1024) * 1024)" if "ci_MemoryMB i < 2 ^ 43"
  proof -
    have "0 < ?m" "?m < 2 ^ 43" using v(3) that by simp_all
    then have "wrap64 (?m * 1024) = ?m * 1024" "wrap64 (?m * 1024 * 1024) = ?m * 1024 * 1024" by (intro wrap64_id; simp)+
    then show ?thesis using \<open>0 < ?m\<close> by simp
  qed
  then show ?thesis using v by (auto simp: sandboxed_def agent_container_def new_agent_def normalizeCreate_def zero_agent_def)
qed

lemma Create_frame:
  assumes "docker_laws E cs" "Service_Create E w i = (res, w')"
  shows "cs w' = cs w \<or> (\<exists>cid c. cs w' = cs w @ [(cid, c)] \<and> sandboxed (cp_image E) i c)"
proof (cases "Validate_input (cp_U E) i (cp_image E)")
  case None
  obtain u w1 where u: "cp_ulid E w = (u, w1)" by fastforce
  let ?a = "new_agent (normalizeCreate i (cp_image E)) (ToLower (uc_lower (cp_U E)) u)"
  have box: "sandboxed (cp_image E) i (agent_container ?a)" by (rule new_agent_sandboxed [OF None])
  obtain e2 w2 where 2: "Store_Create (cp_pg E) w1 ?a = (e2, w2)" by fastforce
  obtain r3 w3 where 3: "Docker_Create (cp_U E) (cp_docker E) w2 ?a = (r3, w3)" by fastforce
  have s: "cs w2 = cs w" using docker_lawsD(9) [OF assms(1) u] Store_frame(1) [OF assms(1) 2] by simp
  show ?thesis
  proof (cases e2)
    case None2: None
    have "cs w' = cs w3"
      using assms(2) None u 2 3 None2 Store_frame(2) [OF assms(1)]
      by (auto simp: Service_Create_def Let_def split: sum.splits option.splits prod.splits)
    then show ?thesis using Docker_Create_frame [OF assms(1) 3] s box by auto
  next
    case (Some e)
    then show ?thesis using assms(2) None u 2 s by (auto simp: Service_Create_def)
  qed
qed (use assms(2) in \<open>auto simp: Service_Create_def\<close>)

text \<open>C16: whatever is sent to Create, and however Docker and PostgreSQL behave, at most one container is made, and it is sandboxed: the
  configured img, no network, a read-only root, no capabilities, no new privileges, its own workspace volume as the only mount, and
  positive limits of processes and CPU. Its memory limit is positive for a request of fewer than 2^43 megabytes; from there on the product
  wraps, and 2^44 megabytes give no limit (memory_limit_wraps).\<close>

theorem Create_sandboxed:
  assumes "docker_laws E cs" "Service_Create E w i = (res, w')"
  shows "cs w' = cs w \<or> (\<exists>cid c. cs w' = cs w @ [(cid, c)] \<and> sandboxed (cp_image E) i c)"
  by (rule Create_frame [OF assms])

text \<open>The memory limit is computed in bytes without a check: an agent that asks for 2 ^ 44 megabytes passes validation, and its container
  has memory limit 0, which Docker takes for no limit.\<close>

theorem memory_limit_wraps:
  "Validate_input U (i\<lparr> ci_MemoryMB := 2 ^ 44 \<rparr>) img = Validate_input U (i\<lparr> ci_MemoryMB := 256 \<rparr>) img \<and>
   cc_Memory (agent_container (new_agent (normalizeCreate (i\<lparr> ci_MemoryMB := 2 ^ 44 \<rparr>) img) aid)) = 0"
proof -
  have "wrap64 (2 ^ 44 * 1024) = 2 ^ 54" by (subst wrap64_id) simp_all
  moreover have "wrap64 (2 ^ 54 * 1024) = 0" by (simp add: wrap64_def)
  ultimately show ?thesis by (simp add: Validate_input_def agent_container_def new_agent_def normalizeCreate_def zero_agent_def)
qed

section \<open>Docker leaves the tables alone\<close>

definition docker_keeps :: "'w DockerEnv \<Rightarrow> ('w \<Rightarrow> 'a) \<Rightarrow> bool" where
  "docker_keeps D f \<longleftrightarrow>
     (\<forall>w i. f (snd (dk_pull D w i)) = f w) \<and> (\<forall>w i. f (snd (dk_download D w i)) = f w) \<and> (\<forall>w n l. f (snd (dk_volume_create D w n l)) = f w) \<and>
     (\<forall>w c. f (snd (dk_create D w c)) = f w) \<and> (\<forall>w i. f (snd (dk_start D w i)) = f w) \<and> (\<forall>w i t. f (snd (dk_stop D w i t)) = f w) \<and>
     (\<forall>w i. f (snd (dk_remove D w i)) = f w) \<and> (\<forall>w n. f (snd (dk_volume_remove D w n)) = f w)"

lemma Docker_Delete_keeps: "docker_keeps D f \<Longrightarrow> Docker_Delete D w a = (e, w') \<Longrightarrow> f w' = f w"
  unfolding docker_keeps_def Docker_Delete_def Let_def
  by (auto split: prod.splits option.splits if_splits) (metis snd_conv)+

lemma ensureImage_keeps: "docker_keeps D f \<Longrightarrow> Docker_ensureImage U D w ref = (e, w') \<Longrightarrow> f w' = f w"
  unfolding docker_keeps_def Docker_ensureImage_def by (auto split: option.splits prod.splits if_splits) (metis snd_conv)+

lemma Docker_Create_keeps: "docker_keeps D f \<Longrightarrow> Docker_Create U D w a = (r, w') \<Longrightarrow> f w' = f w"
proof -
  assume k: "docker_keeps D f" and r: "Docker_Create U D w a = (r, w')"
  obtain e1 w1 where 1: "Docker_ensureImage U D w (as_Image a) = (e1, w1)" by fastforce
  have "f w1 = f w" by (rule ensureImage_keeps [OF k 1])
  then show "f w' = f w" using r 1 k unfolding docker_keeps_def Docker_Create_def
    by (auto split: option.splits prod.splits sum.splits) (metis snd_conv)+
qed

section \<open>Deletion\<close>

definition without_agent :: "string \<Rightarrow> tables \<Rightarrow> tables" where
  "without_agent i tb = tb\<lparr> tb_agents := filter (\<lambda>r. row_id r \<noteq> i) (tb_agents tb), tb_runs := filter (\<lambda>r. ar_AgentID r \<noteq> i) (tb_runs tb) \<rparr>"

lemma DeleteAgent_effect:
  assumes "cp_laws E tb lg sq" "docker_keeps (cp_docker E) tb" "Service_DeleteAgent E w i = (e, w')"
  shows "tb w' = without_agent i (tb w) \<or> (e \<noteq> None \<and> tb w' = tb w)"
proof (cases "Store_Get (cp_pg E) w i")
  case (Inr a)
  obtain e1 w1 where 1: "Docker_Delete (cp_docker E) w a = (e1, w1)" by fastforce
  have k: "tb w1 = tb w" by (rule Docker_Delete_keeps [OF assms(2) 1])
  obtain e2 w2 where 2: "pg_exec (cp_pg E) w1 (DeleteAgentRow i) = (e2, w2)" by fastforce
  show ?thesis
  proof (cases e1)
    case None
    then have r: "e = map_option ErrText e2" "w' = w2" using assms(3) Inr 1 2 by (simp_all add: Service_DeleteAgent_def Store_Delete_def Store_exec_def)
    show ?thesis
    proof (cases e2)
      case None
      then show ?thesis using pg_lawsD(1) [OF cp_lawsD(1) [OF assms(1)] 2 [unfolded None]] k r by (auto simp: without_agent_def)
    next
      case (Some t)
      then show ?thesis using pg_lawsD(2) [OF cp_lawsD(1) [OF assms(1)] 2 [unfolded Some]] k r by (auto simp: without_agent_def)
    qed
  qed (use assms(3) Inr 1 k in \<open>auto simp: Service_DeleteAgent_def\<close>)
qed (use assms(3) in \<open>auto simp: Service_DeleteAgent_def\<close>)

text \<open>Failures with an id, in order.\<close>

definition failed_ids :: "BatchDeleteResult \<Rightarrow> string list" where
  "failed_ids res = filter (\<lambda>i. i \<noteq> []) (map fst (bd_Failed res))"

definition requested :: "string list \<Rightarrow> string set" where "requested ids = TrimSpace ` set ids - {[]}"

definition gone :: "string \<Rightarrow> tables \<Rightarrow> bool" where
  "gone i tb \<longleftrightarrow> i \<notin> row_id ` set (tb_agents tb) \<and> i \<notin> ar_AgentID ` set (tb_runs tb)"

definition kept :: "string set \<Rightarrow> tables \<Rightarrow> tables \<Rightarrow> bool" where
  "kept S tb tb' \<longleftrightarrow> set (tb_agents tb') \<subseteq> set (tb_agents tb) \<and> set (tb_runs tb') \<subseteq> set (tb_runs tb) \<and>
     (\<forall>r\<in>set (tb_agents tb). row_id r \<notin> S \<longrightarrow> r \<in> set (tb_agents tb')) \<and> (\<forall>q\<in>set (tb_runs tb). ar_AgentID q \<notin> S \<longrightarrow> q \<in> set (tb_runs tb'))"

lemma kept_without: "kept {i} tb (without_agent i tb) \<and> gone i (without_agent i tb)"
  by (auto simp: kept_def gone_def without_agent_def)

lemma kept_refl: "kept S a a"
  by (simp add: kept_def)

lemma kept_trans: "kept S a b \<Longrightarrow> kept T b c \<Longrightarrow> kept (S \<union> T) a c"
  unfolding kept_def by blast

lemma gone_kept: "gone i a \<Longrightarrow> kept S a b \<Longrightarrow> gone i b"
  unfolding gone_def kept_def by blast

lemma delete_each_result:
  assumes "cp_laws E tb lg sq" "docker_keeps (cp_docker E) tb" "delete_each E seen w ids = (res, w')"
  shows "distinct (bd_DeletedIDs res @ failed_ids res) \<and> set (bd_DeletedIDs res @ failed_ids res) = requested ids - seen \<and>
    (\<forall>i\<in>set (bd_DeletedIDs res). gone i (tb w')) \<and> kept (requested ids) (tb w) (tb w')"
  using assms(3)
proof (induction ids arbitrary: seen w res)
  case Nil
  then show ?case by (auto simp: failed_ids_def requested_def kept_def)
next
  case (Cons raw ids)
  let ?i = "TrimSpace raw"
  have req: "requested (raw # ids) = (if ?i = [] then requested ids else insert ?i (requested ids))" by (auto simp: requested_def)
  consider "?i = []" | "?i \<noteq> []" "?i \<in> seen" | "?i \<noteq> []" "?i \<notin> seen" by blast
  then show ?case
  proof cases
    case 1
    obtain r1 where r: "delete_each E seen w ids = (r1, w')" "res = r1\<lparr> bd_Failed := ([], ''agent id is required'') # bd_Failed r1 \<rparr>"
      using Cons.prems 1 by (auto split: prod.splits)
    then show ?thesis using Cons.IH [OF r(1)] 1 unfolding req by (simp add: failed_ids_def)
  next
    case 2
    then have "delete_each E seen w ids = (res, w')" using Cons.prems by simp
    then show ?thesis using Cons.IH [of seen w res] 2 unfolding req by (auto simp: kept_def)
  next
    case 3
    obtain e w1 where d: "Service_DeleteAgent E w ?i = (e, w1)" by fastforce
    obtain r1 where r: "delete_each E (insert ?i seen) w1 ids = (r1, w')"
      "res = (case e of None \<Rightarrow> r1\<lparr> bd_DeletedIDs := ?i # bd_DeletedIDs r1 \<rparr> | Some x \<Rightarrow> r1\<lparr> bd_Failed := (?i, err_text x) # bd_Failed r1 \<rparr>)"
      using Cons.prems 3 d by (cases e) (auto simp: Let_def split: prod.splits)
    note ih = Cons.IH [OF r(1)]
    note eff = DeleteAgent_effect [OF assms(1,2) d]
    have k: "kept {?i} (tb w) (tb w1)" using eff kept_without kept_refl by metis
    have "kept ({?i} \<union> requested ids) (tb w) (tb w')" using kept_trans [OF k] ih by blast
    moreover have "gone ?i (tb w')" if "e = None" using eff that kept_without gone_kept ih by metis
    ultimately show ?thesis using ih r(2) 3 unfolding req by (cases e) (auto simp: failed_ids_def)
  qed
qed

text \<open>C18: a batch deletion answers for every distinct id that was asked for exactly once, as deleted or as failed; the deleted agents have
  no row and no run left, and the rows and runs of agents that were not asked for are untouched.\<close>

theorem DeleteAgents_partition:
  assumes "cp_laws E tb lg sq" "docker_keeps (cp_docker E) tb" "DeleteAgents E w ids = (Inr res, w')"
  shows "distinct (bd_DeletedIDs res @ failed_ids res) \<and> set (bd_DeletedIDs res @ failed_ids res) = requested ids \<and>
    (\<forall>i\<in>set (bd_DeletedIDs res). gone i (tb w')) \<and> kept (requested ids) (tb w) (tb w')"
proof -
  have "delete_each E {} w ids = (res, w')" using assms(3) by (auto simp: DeleteAgents_def split: if_splits prod.splits)
  from delete_each_result [OF assms(1,2) this] show ?thesis by simp
qed

section \<open>A container left behind\<close>

lemma find_new: "i \<notin> set (map row_id rs) \<Longrightarrow> row_id r = i \<Longrightarrow> find (\<lambda>r. row_id r = i) (rs @ [r]) = Some r"
  by (induction rs) auto

lemma find_set_runtime:
  "find (\<lambda>r. row_id r = i) (map (set_runtime now i st c e) rs) = map_option (set_runtime now i st c e) (find (\<lambda>r. row_id r = i) rs)"
  by (induction rs) auto

lemma failed_Create_row:
  assumes "cp_laws E tb lg sq" "docker_keeps (cp_docker E) tb" "Service_Create E w i = (Inr a, w')"
    and "\<And>v b. \<not> is_ok (fst (Docker_Create (cp_U E) (cp_docker E) v b))"
  shows "as_ContainerID a = [] \<and> (\<exists>r. find (\<lambda>r. row_id r = as_ID a) (tb_agents (tb w')) = Some r \<and> as_ContainerID (fst r) = [])"
proof -
  note P = cp_lawsD(1) [OF assms(1)]
  have v: "Validate_input (cp_U E) i (cp_image E) = None" using assms(3) by (auto simp: Service_Create_def split: option.splits)
  obtain u w1 where u: "cp_ulid E w = (u, w1)" by fastforce
  define b where "b = new_agent (normalizeCreate i (cp_image E)) (ToLower (uc_lower (cp_U E)) u)"
  let ?row = "(b\<lparr> as_Tools := None \<rparr>, tools_json (as_Tools b))"
  have b: "as_ContainerID b = []" by (simp add: b_def new_agent_def zero_agent_def)
  obtain e2 w2 where 2: "pg_exec (cp_pg E) w1 (InsertAgent ?row) = (e2, w2)" by fastforce
  have e2: "e2 = None" using assms(3) v u 2 by (auto simp: Service_Create_def Let_def Store_Create_def Store_exec_def b_def split: option.splits)
  obtain r3 w3 where 3: "Docker_Create (cp_U E) (cp_docker E) w2 b = (r3, w3)" by fastforce
  obtain e3 where r3: "r3 = Inl e3" using assms(4) [of w2 b] 3 by (cases r3) auto
  obtain e4 where 4: "pg_exec (cp_pg E) w3 (SetRuntime (as_ID b) StatusFailed [] (err_text e3)) = (e4, w')"
    and get: "Store_Get (cp_pg E) w' (as_ID b) = Inr a"
    using assms(3) v u 2 e2 3 r3
    by (auto simp: Service_Create_def Let_def Store_Create_def UpdateRuntime_def Store_exec_def b_def [symmetric] split: prod.splits)
  obtain now where now: "apply_sql now (tb w1) (InsertAgent ?row) = Inr (tb w2)" using pg_lawsD(1) [OF P 2 [unfolded e2]] by blast
  let ?new = "((fst ?row)\<lparr> as_CreatedAt := now, as_UpdatedAt := now \<rparr>, snd ?row)"
  have fresh: "row_id ?new \<notin> set (map row_id (tb_agents (tb w1)))" and t2: "tb_agents (tb w2) = tb_agents (tb w1) @ [?new]"
  proof -
    show "row_id ?new \<notin> set (map row_id (tb_agents (tb w1)))" using now by (simp add: row_id_def split: if_splits)
    have "tb w2 = (tb w1)\<lparr> tb_agents := tb_agents (tb w1) @ [?new] \<rparr>" using now by (simp split: if_splits)
    then show "tb_agents (tb w2) = tb_agents (tb w1) @ [?new]" by simp
  qed
  have "row_id ?new = as_ID b" by (simp add: row_id_def)
  then have f2: "find (\<lambda>r. row_id r = as_ID b) (tb_agents (tb w2)) = Some ?new" unfolding t2 using find_new [OF fresh refl] by simp
  have t3: "tb w3 = tb w2" by (rule Docker_Create_keeps [OF assms(2) 3])
  have "tb w' = tb w3 \<or> (\<exists>now. tb w' = (tb w3)\<lparr> tb_agents := map (set_runtime now (as_ID b) StatusFailed [] (err_text e3)) (tb_agents (tb w3)) \<rparr>)"
    using exec_step [OF P 4] unfolding sql_step_def apply_sql.simps by (metis Inr_inject)
  then have f: "\<exists>r. find (\<lambda>r. row_id r = as_ID b) (tb_agents (tb w')) = Some r \<and> as_ContainerID (fst r) = []"
    using f2 t3 b by (auto simp: find_set_runtime set_runtime_def)
  then obtain r where r: "find (\<lambda>r. row_id r = as_ID b) (tb_agents (tb w')) = Some r" "as_ContainerID (fst r) = []" by blast
  obtain x where x: "pg_agent (cp_pg E) w' (as_ID b) = Inr x" using get by (cases "pg_agent (cp_pg E) w' (as_ID b)") (auto simp: Store_Get_def)
  then have "x = Some r" using pg_lawsD(3) [OF P x] r(1) by simp
  then have "a = scanAgent r" using get x by (simp add: Store_Get_def)
  then show ?thesis using r Get_row [OF P get] by (auto simp: scanAgent_def)
qed

text \<open>When Docker makes the container of a new agent but cannot start it, Create drops the container's id: the agent is stored without
  one, so that deleting the agent reports success and leaves the container where it is.\<close>

theorem failed_start_leaks_container:
  assumes "cp_laws E tb lg sq" "docker_laws E cs" "docker_keeps (cp_docker E) tb"
    and "\<forall>v c. fst (dk_start (cp_docker E) v c) \<noteq> None" "\<forall>v c. is_ok (fst (dk_create (cp_docker E) v c))"
    and "\<forall>v n l. fst (dk_volume_create (cp_docker E) v n l) = None" "\<forall>v n. dk_inspect_image (cp_docker E) v n = None"
    and "Service_Create E w i = (Inr a, w')"
  shows "length (cs w') = Suc (length (cs w)) \<and> as_ContainerID a = [] \<and>
    (\<forall>w2 w3. tb w2 = tb w' \<and> Service_DeleteAgent E w2 (as_ID a) = (None, w3) \<longrightarrow> cs w3 = cs w2)"
proof -
  note P = cp_lawsD(1) [OF assms(1)]
  have fails: "\<exists>e cid w1. Docker_Create (cp_U E) (cp_docker E) v b = (Inl e, w1) \<and> cs w1 = cs v @ [(cid, agent_container b)]" for v b
  proof -
    obtain w1 where 1: "dk_volume_create (cp_docker E) v (as_VolumeName b) [(''agentforge.agent_id'', as_ID b)] = (None, w1)"
      using assms(6) by (metis prod.collapse)
    obtain cid w2 where 2: "dk_create (cp_docker E) w1 (agent_container b) = (Inr cid, w2)"
      using assms(5) by (cases "dk_create (cp_docker E) w1 (agent_container b)"; cases "fst (dk_create (cp_docker E) w1 (agent_container b))") 
        (auto, metis fst_conv is_ok_simps(1))
    obtain e w3 where 3: "dk_start (cp_docker E) w2 cid = (Some e, w3)" using assms(4) by (metis not_None_eq prod.collapse)
    have "cs w3 = cs v @ [(cid, agent_container b)]"
      using docker_lawsD(5) [OF assms(2) 1] docker_lawsD(1) [OF assms(2) 2] docker_lawsD(7) [OF assms(2) 3] by simp
    then show ?thesis using assms(7) 1 2 3 by (auto simp: Docker_Create_def Docker_ensureImage_def)
  qed
  then have bad: "\<not> is_ok (fst (Docker_Create (cp_U E) (cp_docker E) v b))" for v b by (metis fst_conv is_ok_simps(1))
  note row = failed_Create_row [OF assms(1,3,8) bad]
  have "cs w3 = cs w2" if t: "tb w2 = tb w'" "Service_DeleteAgent E w2 (as_ID a) = (None, w3)" for w2 w3
  proof -
    obtain c where c: "Store_Get (cp_pg E) w2 (as_ID a) = Inr c" using t(2) by (auto simp: Service_DeleteAgent_def split: sum.splits)
    obtain x where x: "pg_agent (cp_pg E) w2 (as_ID a) = Inr x" using c by (cases "pg_agent (cp_pg E) w2 (as_ID a)") (auto simp: Store_Get_def)
    have "as_ContainerID c = []" using c x pg_lawsD(3) [OF P x] row t(1) by (auto simp: Store_Get_def scanAgent_def)
    then obtain w4 where d: "Docker_Delete (cp_docker E) w2 c = (None, w4)" "cs w4 = cs w2" "Store_Delete (cp_pg E) w4 (as_ID a) = (None, w3)"
      using t(2) c docker_lawsD(6) [OF assms(2)]
      by (auto simp: Service_DeleteAgent_def Docker_Delete_def Let_def real_failure_def split: option.splits prod.splits if_splits)
    show ?thesis using Store_frame(3) [OF assms(2) d(3)] d(2) by simp
  qed
  moreover have "length (cs w') = Suc (length (cs w))"
  proof -
    obtain u w1 where u: "cp_ulid E w = (u, w1)" by fastforce
    let ?b = "new_agent (normalizeCreate i (cp_image E)) (ToLower (uc_lower (cp_U E)) u)"
    obtain e2 w2 where 2: "Store_Create (cp_pg E) w1 ?b = (e2, w2)" by fastforce
    obtain e cid w3 where 3: "Docker_Create (cp_U E) (cp_docker E) w2 ?b = (Inl e, w3)" "cs w3 = cs w2 @ [(cid, agent_container ?b)]" using fails by blast
    obtain e4 w4 where 4: "UpdateRuntime (cp_pg E) w3 (as_ID ?b) StatusFailed [] (err_text e) = (e4, w4)" by fastforce
    have "w' = w4" using assms(8) u 2 3(1) 4 by (auto simp: Service_Create_def Let_def split: option.splits)
    then show ?thesis
      using docker_lawsD(9) [OF assms(2) u] Store_frame(1) [OF assms(2) 2] Store_frame(2) [OF assms(2) 4] 3(2) by simp
  qed
  ultimately show ?thesis using row by blast
qed

section \<open>Examples\<close>

definition mem_containers :: "mem_world \<times> containers \<Rightarrow> containers" where "mem_containers w = snd w"

text \<open>The control plane in memory with a list of containers; b says whether containers start.\<close>

definition box_docker :: "bool \<Rightarrow> (mem_world \<times> containers) DockerEnv" where
  "box_docker b = \<lparr> dk_ping = (\<lambda>w. None), dk_inspect_image = (\<lambda>w i. None), dk_pull = (\<lambda>w i. (None, w)), dk_download = (\<lambda>w i. (None, w)),
     dk_volume_create = (\<lambda>w n l. (None, w)), dk_create = (\<lambda>(w, cs) c. (Inr (cc_Name c), (w, cs @ [(cc_Name c, c)]))),
     dk_start = (\<lambda>w c. (if b then None else Some (DockerError ''cannot start'' False), w)),
     dk_stop = (\<lambda>w c t. (None, w)), dk_remove = (\<lambda>(w, cs) i. (None, (w, filter (\<lambda>c. fst c \<noteq> i) cs))), dk_volume_remove = (\<lambda>w v. (None, w)),
     dk_copy_from = (\<lambda>w c p. Inr ([], None)) \<rparr>"

definition box_pg :: "(mem_world \<times> containers) PgEnv" where
  "box_pg = \<lparr> pg_open = (\<lambda>w dsn. (None, w)), pg_ping = (\<lambda>w. None), pg_close = (\<lambda>w. w),
     pg_exec = (\<lambda>(w, cs) st. apsnd (\<lambda>w'. (w', cs)) (pg_exec mem_pg w st)), pg_agent = pg_agent mem_pg \<circ> fst,
     pg_agents = pg_agents mem_pg \<circ> fst, pg_run = pg_run mem_pg \<circ> fst, pg_runs = pg_runs mem_pg \<circ> fst, pg_count = pg_count mem_pg \<circ> fst \<rparr>"

definition box_cp :: "bool \<Rightarrow> (mem_world \<times> containers) CpEnv" where
  "box_cp b = \<lparr> cp_U = ascii_unicode, cp_pg = box_pg, cp_docker = box_docker b, cp_image = ''alpine:3.19'', cp_ulid = Pair ''01'',
     cp_now = cp_now (mem_cp []) \<circ> fst, cp_time_ok = (\<lambda>s. True), rd_ping = (\<lambda>w. None),
     rd_incr = (\<lambda>(w, cs) k. apsnd (\<lambda>w'. (w', cs)) (rd_incr (mem_cp []) w k)),
     rd_pipe = (\<lambda>(w, cs) c. apsnd (\<lambda>w'. (w', cs)) (rd_pipe (mem_cp []) w c)), rd_lrange = rd_lrange (mem_cp []) \<circ> fst,
     ag_health = (\<lambda>w. None), ag_RunAgent = (\<lambda>w. (None, w)), ag_Send = (\<lambda>w r. (None, w)), ag_CloseSend = (\<lambda>w. (None, w)),
     ag_Recv = (\<lambda>w. []) \<rparr>"

lemma box_exec: "pg_exec box_pg w st = (e, w') \<Longrightarrow> pg_exec mem_pg (fst w) st = (e, fst w')"
  by (cases w; cases "pg_exec mem_pg (fst w) st") (auto simp: box_pg_def)

lemma box_sel:
  "pg_agent box_pg w i = pg_agent mem_pg (fst w) i" "pg_agents box_pg w = pg_agents mem_pg (fst w)" "pg_run box_pg w i = pg_run mem_pg (fst w) i"
  "pg_runs box_pg w f = pg_runs mem_pg (fst w) f" "pg_count box_pg w = pg_count mem_pg (fst w)"
  by (simp_all add: box_pg_def)

lemma box_pg_laws: "pg_laws box_pg (fst \<circ> fst)"
proof -
  note m = mem_pg_laws [unfolded pg_laws_def]
  have "(\<forall>w st w'. pg_exec box_pg w st = (None, w') \<longrightarrow> (\<exists>now. apply_sql now (fst (fst w)) st = Inr (fst (fst w'))))"
    by (intro allI impI, drule box_exec) (use m in blast)
  moreover have "(\<forall>w st e w'. pg_exec box_pg w st = (Some e, w') \<longrightarrow>
      fst (fst w') = fst (fst w) \<or> (\<exists>now. apply_sql now (fst (fst w)) st = Inr (fst (fst w'))))"
    by (intro allI impI, drule box_exec) (use m in blast)
  ultimately show ?thesis unfolding pg_laws_def o_def box_sel using m by simp
qed

lemma box_laws: "cp_laws (box_cp b) (fst \<circ> fst) (mem_log \<circ> fst) (mem_seq \<circ> fst)"
  using mem_cp_laws [of "[]"] box_pg_laws unfolding cp_laws_def
  by (simp add: box_cp_def box_pg_def split_beta Let_def) (simp add: mem_cp_def split_beta)

lemma box_docker_laws: "docker_laws (box_cp b) mem_containers"
  by (simp add: docker_laws_def box_cp_def box_docker_def box_pg_def mem_containers_def split_beta)

lemma box_keeps: "docker_keeps (cp_docker (box_cp b)) (fst \<circ> fst)"
  by (simp add: docker_keeps_def box_cp_def box_docker_def split_beta)

definition demo_create :: CreateAgentInput where
  "demo_create = \<lparr> ci_Name = ''ada'', ci_Role = ''ops'', ci_SystemPrompt = [], ci_Model = [], ci_Image = [], ci_CPUQuotaUS = 0, ci_MemoryMB = 0,
     ci_PidsLimit = 0, ci_Tools = None, ci_WorkspacePolicy = [] \<rparr>"

definition box_empty :: "mem_world \<times> containers" where
  "box_empty = ((\<lparr> tb_agents = [], tb_runs = [] \<rparr>, \<lambda>k. [], \<lambda>k. 0), [])"

lemma demo_created:
  "is_ok (fst (Service_Create (box_cp False) box_empty demo_create))"
  "length (mem_containers (snd (Service_Create (box_cp False) box_empty demo_create))) = 1"
proof -
  let ?E = "box_cp False"
  define b where "b = new_agent (normalizeCreate demo_create ''alpine:3.19'') ''01''"
  have v: "Validate_input (cp_U ?E) demo_create (cp_image ?E) = None" by (simp add: Validate_input_def demo_create_def text_eval)
  have l: "ToLower (uc_lower (cp_U ?E)) ''01'' = ''01''"
    by (rule ToLower_id) (simp_all add: box_cp_def ascii_unicode_def lower_ascii_def ord_def ascii_def)
  have i: "as_ID b = ''01''" by (simp add: b_def new_agent_def)
  have n: "nul_free (stmt_texts (InsertAgent (b\<lparr> as_Tools := None \<rparr>, tools_json (as_Tools b))))"
    by (simp add: b_def new_agent_def normalizeCreate_def demo_create_def zero_agent_def nul_free_def tools_json_def text_eval agent_status
        DefaultAgentModel_def ModelScopeAgentModel_def)
  let ?a = "b\<lparr> as_Tools := None, as_CreatedAt := 0, as_UpdatedAt := 0 \<rparr>"
  let ?w2 = "((\<lparr> tb_agents = [(?a, tools_json (as_Tools b))], tb_runs = [] \<rparr>, \<lambda>k. [], \<lambda>k. 0), [])"
  have 2: "Store_Create box_pg box_empty b = (None, ?w2)"
    using n by (simp add: Store_Create_def Store_exec_def box_pg_def mem_pg_def box_empty_def)
  obtain e w3 where 3: "Docker_Create (cp_U ?E) (box_docker False) ?w2 b = (Inl e, w3)" "fst w3 = fst ?w2" "length (snd w3) = 1"
    by (simp add: Docker_Create_def box_docker_def Docker_ensureImage_def)
  obtain e4 w4 where 4: "UpdateRuntime box_pg w3 ''01'' StatusFailed [] (err_text e) = (e4, w4)"
    by (cases "UpdateRuntime box_pg w3 ''01'' StatusFailed [] (err_text e)")
  have "\<exists>r. find (\<lambda>r. row_id r = ''01'') (tb_agents (fst (fst w4))) = Some r"
    using 4 3(2) i by (cases w3) (auto simp: UpdateRuntime_def Store_exec_def box_pg_def mem_pg_def row_id_def set_runtime_def split: if_splits)
  then have "is_ok (Store_Get box_pg w4 ''01'')" by (auto simp: Store_Get_def box_pg_def mem_pg_def split_beta)
  moreover have "Service_Create ?E box_empty demo_create = (Store_Get box_pg w4 ''01'', w4)"
    unfolding Service_Create_def v using l 2 3(1) 4 i by (simp add: box_cp_def Let_def b_def)
  moreover have "snd w4 = snd w3"
    using 4 by (cases w3) (auto simp: UpdateRuntime_def Store_exec_def box_pg_def mem_pg_def split: if_splits)
  ultimately show "is_ok (fst (Service_Create ?E box_empty demo_create))" "length (mem_containers (snd (Service_Create ?E box_empty demo_create))) = 1"
    using 3(3) by (simp_all add: mem_containers_def)
qed

theorem Create_sandboxed_witness:
  "\<exists>cid c. mem_containers (snd (Service_Create (box_cp False) box_empty demo_create)) = [(cid, c)] \<and> cc_NetworkMode c = ''none''"
proof -
  obtain res w' where r: "Service_Create (box_cp False) box_empty demo_create = (res, w')" by (cases "Service_Create (box_cp False) box_empty demo_create")
  show ?thesis using Create_sandboxed [OF box_docker_laws r] demo_created(2) r by (auto simp: mem_containers_def box_empty_def sandboxed_def)
qed

theorem failed_start_leaks_container_witness:
  "\<exists>a w'. Service_Create (box_cp False) box_empty demo_create = (Inr a, w') \<and> length (mem_containers w') = 1 \<and> as_ContainerID a = []"
proof -
  obtain a where "fst (Service_Create (box_cp False) box_empty demo_create) = Inr a"
    using demo_created(1) by (cases "fst (Service_Create (box_cp False) box_empty demo_create)") simp_all
  then obtain w' where r: "Service_Create (box_cp False) box_empty demo_create = (Inr a, w')" by (metis prod.collapse)
  have h: "\<forall>v c. fst (dk_start (cp_docker (box_cp False)) v c) \<noteq> None" "\<forall>v c. is_ok (fst (dk_create (cp_docker (box_cp False)) v c))"
    "\<forall>v n l. fst (dk_volume_create (cp_docker (box_cp False)) v n l) = None" "\<forall>v n. dk_inspect_image (cp_docker (box_cp False)) v n = None"
    by (simp_all add: box_cp_def box_docker_def split_beta)
  show ?thesis using failed_start_leaks_container [OF box_laws box_docker_laws box_keeps h r] r by (auto simp: mem_containers_def box_empty_def)
qed

theorem DeleteAgents_partition_witness:
  "\<exists>res. fst (DeleteAgents (box_cp True) box_empty [''a1'', '' a1 '']) = Inr res \<and> set (bd_DeletedIDs res @ failed_ids res) = {''a1''}"
proof -
  have "\<exists>res w'. DeleteAgents (box_cp True) box_empty [''a1'', '' a1 ''] = (Inr res, w')" by (auto simp: DeleteAgents_def split: prod.splits)
  then obtain res w' where r: "DeleteAgents (box_cp True) box_empty [''a1'', '' a1 ''] = (Inr res, w')" by blast
  have "requested [''a1'', '' a1 ''] = {''a1''}" by (auto simp: requested_def text_eval)
  then show ?thesis using DeleteAgents_partition [OF box_laws box_keeps r] r by simp
qed

end
