(* ===== verification/ControlHttp.thy ===== *)
theory ControlHttp
  imports ControlAgents
begin

text \<open>
  internal/controlplane/http.go: the routes of the management API, what every handler answers and does, and the stream of a run's events.
  A request is its method, path, body and the two values the handlers read beside them; an answer is a status and a JSON document, a file,
  or a stream. The format of a time and the texts of the JSON decoder's errors are parameters.
\<close>

section \<open>Requests and answers\<close>

record http_request =
  hq_Method :: string
  hq_Path :: string
  hq_Body :: string
  hq_QueryPath :: string
  hq_LastEventID :: string

datatype http_reply =
    ReplyJSON int json
  | ReplyStatus int
  | ReplyFile string
  | ReplyNotFound
  | ReplyStream string int

record 'w HTTPServer =
  hs_cp :: "'w CpEnv"
  hs_StaticDir :: string
  hs_index :: "'w \<Rightarrow> string \<Rightarrow> bool"
  hs_time :: "int \<Rightarrow> string"
  hs_json_error :: "string \<Rightarrow> string"

section \<open>JSON\<close>

definition strings_json :: "string list option \<Rightarrow> json" where
  "strings_json l = (case l of None \<Rightarrow> JNull | Some xs \<Rightarrow> JArr (map JStr xs))"

definition AgentSpec_json :: "(int \<Rightarrow> string) \<Rightarrow> AgentSpec \<Rightarrow> json" where
  "AgentSpec_json F a = struct_obj [
     (''id'', False, JStr (as_ID a)), (''name'', False, JStr (as_Name a)), (''role'', False, JStr (as_Role a)),
     (''systemPrompt'', False, JStr (as_SystemPrompt a)), (''model'', False, JStr (as_Model a)), (''image'', False, JStr (as_Image a)),
     (''cpuQuotaUs'', False, enc_int (as_CPUQuotaUS a)), (''memoryMb'', False, enc_int (as_MemoryMB a)),
     (''pidsLimit'', False, enc_int (as_PidsLimit a)), (''tools'', False, strings_json (as_Tools a)),
     (''workspacePolicy'', False, JStr (as_WorkspacePolicy a)), (''status'', False, JStr (as_Status a)),
     (''volumeName'', False, JStr (as_VolumeName a)), (''containerId'', False, JStr (as_ContainerID a)),
     (''lastError'', as_LastError a = [], JStr (as_LastError a)),
     (''createdAt'', False, JStr (F (as_CreatedAt a))), (''updatedAt'', False, JStr (F (as_UpdatedAt a)))]"

definition AgentRun_json :: "(int \<Rightarrow> string) \<Rightarrow> AgentRun \<Rightarrow> json" where
  "AgentRun_json F r = struct_obj [
     (''runId'', False, JStr (ar_RunID r)), (''agentId'', False, JStr (ar_AgentID r)), (''traceId'', False, JStr (ar_TraceID r)),
     (''prompt'', False, JStr (ar_Prompt r)), (''status'', False, JStr (ar_Status r)), (''error'', ar_Error r = [], JStr (ar_Error r)),
     (''summary'', ar_Summary r = [], JStr (ar_Summary r)),
     (''createdAt'', False, JStr (F (ar_CreatedAt r))), (''updatedAt'', False, JStr (F (ar_UpdatedAt r)))]"

definition HealthStatus_json :: "HealthStatus \<Rightarrow> json" where
  "HealthStatus_json h = struct_obj [
     (''status'', False, JStr (hs_Status h)), (''activeRuns'', False, enc_int (hs_ActiveRuns h)),
     (''checks'', False, JObj (map (\<lambda>(k, v). (k, JStr v)) (hs_Checks h)))]"

definition BatchDeleteResult_json :: "BatchDeleteResult \<Rightarrow> json" where
  "BatchDeleteResult_json r = struct_obj [
     (''deletedIds'', False, JArr (map JStr (bd_DeletedIDs r))),
     (''failed'', False, JArr (map (\<lambda>(i, m). struct_obj [(''agentId'', False, JStr i), (''message'', False, JStr m)]) (bd_Failed r)))]"

definition WorkspaceEntry_json :: "WorkspaceEntry \<Rightarrow> json" where
  "WorkspaceEntry_json e = struct_obj [
     (''path'', False, JStr (we_Path e)), (''name'', False, JStr (we_Name e)), (''directory'', False, JBool (we_Directory e)),
     (''size'', False, enc_int (we_Size e))]"

definition dec_strings :: "json \<Rightarrow> string list option option" where
  "dec_strings j = map_option Some (dec_array dec_str [] j)"

definition CreateAgentInput_of :: "json \<Rightarrow> CreateAgentInput option" where
  "CreateAgentInput_of j = Option.bind (members j) (\<lambda>m.
     Option.bind (field dec_str m ''name'' []) (\<lambda>x0.
     Option.bind (field dec_str m ''role'' []) (\<lambda>x1.
     Option.bind (field dec_str m ''systemPrompt'' []) (\<lambda>x2.
     Option.bind (field dec_str m ''model'' []) (\<lambda>x3.
     Option.bind (field dec_str m ''image'' []) (\<lambda>x4.
     Option.bind (field dec_int m ''cpuQuotaUs'' 0) (\<lambda>x5.
     Option.bind (field dec_int m ''memoryMb'' 0) (\<lambda>x6.
     Option.bind (field dec_int m ''pidsLimit'' 0) (\<lambda>x7.
     Option.bind (field dec_strings m ''tools'' None) (\<lambda>x8.
     Option.bind (field dec_str m ''workspacePolicy'' []) (\<lambda>x9.
     Some \<lparr> ci_Name = x0, ci_Role = x1, ci_SystemPrompt = x2, ci_Model = x3, ci_Image = x4, ci_CPUQuotaUS = x5, ci_MemoryMB = x6,
       ci_PidsLimit = x7, ci_Tools = x8, ci_WorkspacePolicy = x9 \<rparr>)))))))))))"

text \<open>A Decoder reads the first document of the first megabyte and ignores what follows it.\<close>

definition http_decode :: "string \<Rightarrow> json option" where
  "http_decode body = (let s = take (2 ^ 20) body in map_option fst (pval (2 * length s + 2) s))"

lemma http_decode_Marshal:
  assumes "json_ok j" "length (Marshal j) \<le> 2 ^ 20"
  shows "http_decode (Marshal j) = Some j"
proof -
  have "pval (2 * length (Marshal j) + 2) (Marshal j @ []) = Some (j, [])"
    by (rule pval_Marshal [OF assms(1)]) (simp_all add: delim_def)
  then show ?thesis using assms(2) by (simp add: http_decode_def Let_def)
qed

section \<open>Errors\<close>

definition writeError :: "int \<Rightarrow> string \<Rightarrow> string \<Rightarrow> http_reply" where
  "writeError status code msg = ReplyJSON status (JObj (go_entries [(''code'', JStr code), (''message'', JStr msg)]))"

definition writeServiceError :: "cp_error \<Rightarrow> http_reply" where
  "writeServiceError e =
     (if e = ErrNoRows then writeError 404 ''not_found'' ''resource not found''
      else if IsConflict (Some e) \<or> Contains (err_text e) ''active run'' then writeError 409 ''conflict'' (err_text e)
      else writeError 400 ''request_failed'' (err_text e))"

definition reply :: "(cp_error, json) result \<Rightarrow> http_reply" where
  "reply r = (case r of Inl e \<Rightarrow> writeServiceError e | Inr v \<Rightarrow> ReplyJSON 200 v)"

definition invalid_json :: "'w HTTPServer \<Rightarrow> http_request \<Rightarrow> http_reply" where
  "invalid_json H q = writeError 400 ''invalid_json'' (hs_json_error H (hq_Body q))"

section \<open>Handlers\<close>

text \<open>Each gives the answer, the world after it, and the run whose goroutine it has started.\<close>

type_synonym 'w handled = "http_reply \<times> 'w \<times> (AgentRun \<times> AgentSpec) option"

definition map_ok :: "('a \<Rightarrow> 'b) \<Rightarrow> ('e, 'a) result \<Rightarrow> ('e, 'b) result" where
  "map_ok f r = (case r of Inl e \<Rightarrow> Inl e | Inr a \<Rightarrow> Inr (f a))"

definition http_health :: "'w HTTPServer \<Rightarrow> 'w \<Rightarrow> http_reply" where
  "http_health H w =
     (let status = Service_Health (hs_cp H) w
      in ReplyJSON (if hs_Status status \<noteq> ''ok'' then 503 else 200) (HealthStatus_json status))"

definition listAgents :: "'w HTTPServer \<Rightarrow> 'w \<Rightarrow> http_reply" where
  "listAgents H w =
     reply (map_ok (\<lambda>l. case l of None \<Rightarrow> JNull | Some as \<Rightarrow> JArr (map (AgentSpec_json (hs_time H)) as)) (Store_List (cp_pg (hs_cp H)) w))"

definition getAgent :: "'w HTTPServer \<Rightarrow> 'w \<Rightarrow> string \<Rightarrow> http_reply" where
  "getAgent H w i = reply (map_ok (AgentSpec_json (hs_time H)) (Store_Get (cp_pg (hs_cp H)) w i))"

definition createAgent :: "'w HTTPServer \<Rightarrow> 'w \<Rightarrow> http_request \<Rightarrow> http_reply \<times> 'w" where
  "createAgent H w q =
     (case Option.bind (http_decode (hq_Body q)) CreateAgentInput_of of
        None \<Rightarrow> (invalid_json H q, w)
      | Some i \<Rightarrow>
          (case Service_Create (hs_cp H) w i of
             (Inl e, w1) \<Rightarrow> (writeServiceError e, w1)
           | (Inr a, w1) \<Rightarrow> (ReplyJSON 201 (AgentSpec_json (hs_time H) a), w1)))"

definition http_action :: "'w HTTPServer \<Rightarrow> 'w \<Rightarrow> http_request \<Rightarrow> string \<Rightarrow> string \<Rightarrow> http_reply \<times> 'w" where
  "http_action H w q i act =
     (let E = hs_cp H;
          finish = (\<lambda>(r, w1). (case r of Inl e \<Rightarrow> writeServiceError e | Inr a \<Rightarrow> ReplyJSON 200 (AgentSpec_json (hs_time H) a), w1))
      in if hq_Method q \<noteq> ''POST'' then (writeError 405 ''method_not_allowed'' [], w)
         else if act = ''start'' then finish (StartAgent E w i)
         else if act = ''stop'' then finish (StopAgent E w i)
         else if act = ''delete'' then
           (case Service_DeleteAgent E w i of (None, w1) \<Rightarrow> (ReplyStatus 204, w1) | (Some e, w1) \<Rightarrow> (writeServiceError e, w1))
         else (writeError 404 ''not_found'' ''unknown action'', w))"

definition batchDeleteAgents :: "'w HTTPServer \<Rightarrow> 'w \<Rightarrow> http_request \<Rightarrow> http_reply \<times> 'w" where
  "batchDeleteAgents H w q =
     (case Option.bind (http_decode (hq_Body q)) (\<lambda>j. Option.bind (members j) (\<lambda>m. field (dec_array dec_str []) m ''agentIds'' [])) of
        None \<Rightarrow> (invalid_json H q, w)
      | Some ids \<Rightarrow>
          (case DeleteAgents (hs_cp H) w ids of
             (Inl e, w1) \<Rightarrow> (writeServiceError e, w1)
           | (Inr r, w1) \<Rightarrow> (ReplyJSON 200 (BatchDeleteResult_json r), w1)))"

definition http_listRuns :: "'w HTTPServer \<Rightarrow> 'w \<Rightarrow> string \<Rightarrow> http_reply" where
  "http_listRuns H w i = reply (map_ok (\<lambda>rs. JArr (map (AgentRun_json (hs_time H)) rs)) (ListRuns (cp_pg (hs_cp H)) w i))"

definition http_startRun :: "'w HTTPServer \<Rightarrow> 'w \<Rightarrow> http_request \<Rightarrow> string \<Rightarrow> 'w handled" where
  "http_startRun H w q i =
     (case Option.bind (http_decode (hq_Body q)) (\<lambda>j. Option.bind (members j) (\<lambda>m. field dec_str m ''prompt'' [])) of
        None \<Rightarrow> (invalid_json H q, w, None)
      | Some prompt \<Rightarrow>
          (case StartRun (hs_cp H) w i prompt of
             (Inl e, w1) \<Rightarrow> (writeServiceError e, w1, None)
           | (Inr (r, a), w1) \<Rightarrow> (ReplyJSON 202 (AgentRun_json (hs_time H) r), w1, Some (r, a))))"

definition http_workspace :: "'w HTTPServer \<Rightarrow> 'w \<Rightarrow> http_request \<Rightarrow> string \<Rightarrow> http_reply" where
  "http_workspace H w q i =
     (case Store_Get (cp_pg (hs_cp H)) w i of
        Inl e \<Rightarrow> writeServiceError e
      | Inr a \<Rightarrow> reply (map_ok (\<lambda>es. JArr (map WorkspaceEntry_json es)) (ListWorkspace (cp_docker (hs_cp H)) w a (hq_QueryPath q))))"

definition http_workspaceFile :: "'w HTTPServer \<Rightarrow> 'w \<Rightarrow> http_request \<Rightarrow> string \<Rightarrow> http_reply" where
  "http_workspaceFile H w q i =
     (case Store_Get (cp_pg (hs_cp H)) w i of
        Inl e \<Rightarrow> writeServiceError e
      | Inr a \<Rightarrow> reply (map_ok (\<lambda>c. JObj [(''content'', JStr c)]) (ReadWorkspaceFile (cp_docker (hs_cp H)) w a (hq_QueryPath q))))"

text \<open>strconv.ParseInt with its error dropped: 0 for what is no number, the nearest bound for what is out of range.\<close>

definition last_event_id :: "string \<Rightarrow> int" where
  "last_event_id s =
     (let (neg, d) = (case s of c # r \<Rightarrow> if c = CHR 0x2D then (True, r) else if c = CHR 0x2B then (False, r) else (False, s) | [] \<Rightarrow> (False, []))
      in if d = [] \<or> \<not> list_all is_digit d then 0
         else if neg then max (- (2 ^ 63)) (- int (dec_value d)) else min (2 ^ 63 - 1) (int (dec_value d)))"

section \<open>Routes\<close>

datatype route =
    RHealth | RListAgents | RCreateAgent | RBatchDelete | RListRuns string | REvents string | RGetAgent string
  | RAction string string | RStartRun string | RWorkspace string | RWorkspaceFile string | RNone

definition agent_route :: "string \<Rightarrow> string list \<Rightarrow> string \<Rightarrow> route" where
  "agent_route m parts i =
     (if length parts = 2 \<and> m = ''GET'' then RGetAgent i
      else if length parts = 2 \<and> Contains i '':'' then (let x = SplitN i '':'' 2 in RAction (x ! 0) (x ! 1))
      else if length parts = 3 \<and> parts ! 2 = ''runs'' \<and> m = ''GET'' then RListRuns i
      else if length parts = 3 \<and> parts ! 2 = ''runs'' \<and> m = ''POST'' then RStartRun i
      else if length parts = 3 \<and> parts ! 2 = ''workspace'' \<and> m = ''GET'' then RWorkspace i
      else if length parts = 4 \<and> parts ! 2 = ''workspace'' \<and> parts ! 3 = ''file'' \<and> m = ''GET'' then RWorkspaceFile i
      else RNone)"

definition api_route :: "string \<Rightarrow> string \<Rightarrow> route" where
  "api_route m path =
     (let p = TrimPrefix path ''/api/v1/'';
          parts = Split (Trim p ''/'') ''/''
      in if p = ''status'' \<and> m = ''GET'' then RHealth
         else if p = ''agents'' \<and> m = ''GET'' then RListAgents
         else if p = ''agents'' \<and> m = ''POST'' then RCreateAgent
         else if p = ''agents:batch-delete'' \<and> m = ''POST'' then RBatchDelete
         else if p = ''runs'' \<and> m = ''GET'' then RListRuns []
         else if length parts = 3 \<and> parts ! 0 = ''runs'' \<and> parts ! 2 = ''events'' \<and> m = ''GET'' then REvents (parts ! 1)
         else if length parts \<ge> 2 \<and> parts ! 0 = ''agents'' then agent_route m parts (parts ! 1)
         else RNone)"

definition http_api :: "'w HTTPServer \<Rightarrow> 'w \<Rightarrow> http_request \<Rightarrow> 'w handled" where
  "http_api H w q =
     (let quiet = (\<lambda>r. (r, w, None)); change = (\<lambda>(r, w1). (r, w1, None))
      in case api_route (hq_Method q) (hq_Path q) of
           RHealth \<Rightarrow> quiet (http_health H w)
         | RListAgents \<Rightarrow> quiet (listAgents H w)
         | RCreateAgent \<Rightarrow> change (createAgent H w q)
         | RBatchDelete \<Rightarrow> change (batchDeleteAgents H w q)
         | RListRuns i \<Rightarrow> quiet (http_listRuns H w i)
         | REvents i \<Rightarrow> quiet (ReplyStream i (last_event_id (hq_LastEventID q)))
         | RGetAgent i \<Rightarrow> quiet (getAgent H w i)
         | RAction i act \<Rightarrow> change (http_action H w q i act)
         | RStartRun i \<Rightarrow> http_startRun H w q i
         | RWorkspace i \<Rightarrow> quiet (http_workspace H w q i)
         | RWorkspaceFile i \<Rightarrow> quiet (http_workspaceFile H w q i)
         | RNone \<Rightarrow> quiet (writeError 404 ''not_found'' ''route not found''))"

definition serveHTTP :: "'w HTTPServer \<Rightarrow> 'w \<Rightarrow> http_request \<Rightarrow> 'w handled" where
  "serveHTTP H w q =
     (if hq_Path q = ''/healthz'' then (http_health H w, w, None)
      else if HasPrefix (hq_Path q) ''/api/v1/'' then http_api H w q
      else if hs_StaticDir H \<noteq> [] \<and> hs_index H w (path_Join [hs_StaticDir H, ''index.html''])
        then (ReplyFile (path_Join [hs_StaticDir H, ''index.html'']), w, None)
      else (ReplyNotFound, w, None))"

section \<open>The event stream\<close>

datatype sse_chunk = SseEvent UIEvent | SseKeepalive

definition nl :: string where "nl = [CHR 0x0A]"

definition chunk_text :: "sse_chunk \<Rightarrow> string" where
  "chunk_text c =
     (case c of
        SseEvent ev \<Rightarrow> ''id: '' @ Itoa (ui_ID ev) @ nl @ ''event: '' @ ui_Type ev @ nl @ ''data: '' @ Marshal (ui_Data ev) @ nl @ nl
      | SseKeepalive \<Rightarrow> '': keepalive'' @ nl @ nl)"

definition ends_stream :: "UIEvent \<Rightarrow> bool" where "ends_stream ev = (ui_Type ev = ''done'' \<or> ui_Type ev = ''error'')"

text \<open>The events of one reading: what is written, the last id, and whether the stream is over.\<close>

fun sse_write :: "int \<Rightarrow> UIEvent list \<Rightarrow> sse_chunk list \<times> int \<times> bool" where
  "sse_write last_id [] = ([], last_id, False)"
| "sse_write last_id (ev # evs) =
     (if ends_stream ev then ([SseEvent ev], ui_ID ev, True)
      else (let (cs, l, over) = sse_write (ui_ID ev) evs in (SseEvent ev # cs, l, over)))"

text \<open>The loop: the worlds its readings find, each with whether the client has gone when the reading is done. The flag says whether the
  handler has returned.\<close>

fun sse_loop :: "('w \<Rightarrow> int \<Rightarrow> (cp_error, UIEvent list) result) \<Rightarrow> int \<Rightarrow> ('w \<times> bool) list \<Rightarrow> sse_chunk list \<times> bool" where
  "sse_loop rd last_id [] = ([], False)"
| "sse_loop rd last_id ((w, gone_away) # polls) =
     (case rd w last_id of
        Inl e \<Rightarrow> ([], True)
      | Inr evs \<Rightarrow>
          (let (cs, l, over) = sse_write last_id evs
           in if over \<or> gone_away then (cs, True)
              else (let (cs1, over1) = sse_loop rd l polls in (cs @ SseKeepalive # cs1, over1))))"

definition http_events :: "'w HTTPServer \<Rightarrow> string \<Rightarrow> int \<Rightarrow> ('w \<times> bool) list \<Rightarrow> sse_chunk list \<times> bool" where
  "http_events H runID last_id polls = sse_loop (\<lambda>w l. Events_After (hs_cp H) w runID l) last_id polls"

section \<open>The log as the stream reads it\<close>

text \<open>Up to and including the first event that ends the stream.\<close>

fun upto_end :: "UIEvent list \<Rightarrow> UIEvent list" where
  "upto_end [] = []"
| "upto_end (ev # evs) = (if ends_stream ev then [ev] else ev # upto_end evs)"

definition chunk_events :: "sse_chunk list \<Rightarrow> UIEvent list" where
  "chunk_events cs = List.map_filter (\<lambda>c. case c of SseEvent ev \<Rightarrow> Some ev | SseKeepalive \<Rightarrow> None) cs"

lemma chunk_events_simps [simp]:
  "chunk_events [] = []" "chunk_events (SseEvent ev # cs) = ev # chunk_events cs" "chunk_events (SseKeepalive # cs) = chunk_events cs"
  by (simp_all add: chunk_events_def map_filter_simps)

lemma chunk_events_append [simp]: "chunk_events (xs @ ys) = chunk_events xs @ chunk_events ys"
  by (induction xs) (auto simp: chunk_events_def map_filter_simps split: sse_chunk.splits option.splits)

lemma upto_end_prefix: "\<exists>ev\<in>set xs. ends_stream ev \<Longrightarrow> upto_end (xs @ ys) = upto_end xs"
  by (induction xs) auto

lemma upto_end_append: "\<forall>ev\<in>set xs. \<not> ends_stream ev \<Longrightarrow> upto_end (xs @ ys) = xs @ upto_end ys"
  by (induction xs) auto

lemma sse_write_result:
  "sse_write l evs = (cs, l', ovr) \<Longrightarrow> chunk_events cs = upto_end evs \<and> (ovr \<longleftrightarrow> (\<exists>ev\<in>set evs. ends_stream ev)) \<and>
    (\<not> ovr \<longrightarrow> upto_end evs = evs \<and> l' = (if evs = [] then l else ui_ID (last evs)))"
  by (induction evs arbitrary: l cs) (auto split: if_splits prod.splits)

locale event_log =
  fixes rd :: "'w \<Rightarrow> int \<Rightarrow> (cp_error, UIEvent list) result"
    and entries :: "'w \<Rightarrow> UIEvent list"
    and good :: "'w \<Rightarrow> bool"
  assumes entries_numbered: "good w \<Longrightarrow> numbered 0 (entries w)"
    and read_law: "good w \<Longrightarrow> rd w (int n) = Inr (drop n (entries w))"
begin

lemma last_number: "good w \<Longrightarrow> n < length (entries w) \<Longrightarrow> ui_ID (last (drop n (entries w))) = int (length (entries w))"
  using numbered_bounds [OF entries_numbered, of w "length (entries w) - 1"] by (simp add: last_conv_nth)

lemma stream_delivers:
  assumes "\<forall>p\<in>set polls. good (fst p) \<and> \<not> snd p \<and> (\<exists>more. lg0 = entries (fst p) @ more)" "polls \<noteq> []" "entries (fst (last polls)) = lg0"
    and "\<exists>ev\<in>set (drop n lg0). ends_stream ev"
  shows "\<exists>cs. sse_loop rd (int n) polls = (cs, True) \<and> chunk_events cs = upto_end (drop n lg0)"
  using assms
proof (induction polls arbitrary: n)
  case (Cons p polls)
  obtain w where p: "p = (w, False)" "good w" using Cons.prems(1) by (cases p) auto
  obtain more where more: "lg0 = entries w @ more" using Cons.prems(1) p by auto
  let ?evs = "drop n (entries w)"
  have r: "rd w (int n) = Inr ?evs" by (rule read_law [OF p(2)])
  obtain cs l ovr where s: "sse_write (int n) ?evs = (cs, l, ovr)" by (cases "sse_write (int n) ?evs")
  note res = sse_write_result [OF s]
  show ?case
  proof (cases ovr)
    case True
    then have "upto_end (drop n lg0) = upto_end ?evs" using res more upto_end_prefix by simp
    then show ?thesis using r s res True p(1) by simp
  next
    case False
    let ?m = "max n (length (entries w))"
    have none: "\<forall>ev\<in>set ?evs. \<not> ends_stream ev" using res False by blast
    have d: "drop n lg0 = ?evs @ drop ?m lg0" by (simp add: more max_def)
    have "polls \<noteq> []" using Cons.prems(3,4) none p(1) by auto
    moreover from this have "entries (fst (last polls)) = lg0" using Cons.prems(3) by simp
    moreover have "\<exists>ev\<in>set (drop ?m lg0). ends_stream ev" using Cons.prems(4) none unfolding d by auto
    ultimately obtain cs1 where cs1: "sse_loop rd (int ?m) polls = (cs1, True)" "chunk_events cs1 = upto_end (drop ?m lg0)"
      using Cons.IH [of ?m] Cons.prems(1) by auto
    have "l = int ?m" using res False last_number [OF p(2), of n] by (auto simp: max_def)
    then have "sse_loop rd (int n) (p # polls) = (cs @ SseKeepalive # cs1, True)" using r s False cs1(1) p(1) by simp
    moreover have "upto_end (drop n lg0) = ?evs @ upto_end (drop ?m lg0)" unfolding d by (rule upto_end_append [OF none])
    ultimately show ?thesis using res False cs1(2) by simp
  qed
qed simp

end

text \<open>The log of a run in Redis: what Append has written.\<close>

definition log_entries :: "'w CpEnv \<Rightarrow> ('w \<Rightarrow> string \<Rightarrow> string list) \<Rightarrow> string \<Rightarrow> 'w \<Rightarrow> UIEvent list" where
  "log_entries E lg rid w = List.map_filter (UIEvent_Unmarshal (cp_time_ok E)) (lg w (events_key rid))"

definition log_good :: "'w CpEnv \<Rightarrow> ('w \<Rightarrow> string \<Rightarrow> string list) \<Rightarrow> string \<Rightarrow> 'w \<Rightarrow> bool" where
  "log_good E lg rid w \<longleftrightarrow>
     (\<exists>us. lg w (events_key rid) = map UIEvent_Marshal us \<and> (\<forall>u\<in>set us. UIEvent_ok (cp_time_ok E) u) \<and> numbered 0 us)"

locale redis_log =
  fixes E :: "'w CpEnv" and tb :: "'w \<Rightarrow> tables" and lg :: "'w \<Rightarrow> string \<Rightarrow> string list" and sq :: "'w \<Rightarrow> string \<Rightarrow> int" and rid :: string
  assumes laws: "cp_laws E tb lg sq" and up: "redis_up E"

sublocale redis_log \<subseteq> event_log "\<lambda>w l. Events_After E w rid l" "log_entries E lg rid" "log_good E lg rid"
proof
  have e: "log_entries E lg rid w = us" if "lg w (events_key rid) = map UIEvent_Marshal us" "\<forall>u\<in>set us. UIEvent_ok (cp_time_ok E) u" for w us
    unfolding log_entries_def that(1) using that(2) by (induction us) (simp_all add: map_filter_simps UIEvent_roundtrip)
  show "numbered 0 (log_entries E lg rid w)" if g: "log_good E lg rid w" for w
    using g e by (auto simp: log_good_def)
  show "Events_After E w rid (int n) = Inr (drop n (log_entries E lg rid w))" if g: "log_good E lg rid w" for w n
    using g e log_read [OF laws up] by (auto simp: log_good_def)
qed

context redis_log
begin

lemma delivers:
  assumes "\<forall>p\<in>set polls. log_good E lg rid (fst p) \<and> \<not> snd p \<and> (\<exists>more. lg0 = log_entries E lg rid (fst p) @ more)"
    and "polls \<noteq> []" "log_entries E lg rid (fst (last polls)) = lg0" "\<exists>ev\<in>set (drop n lg0). ends_stream ev"
  shows "\<exists>cs. sse_loop (\<lambda>w l. Events_After E w rid l) (int n) polls = (cs, True) \<and> chunk_events cs = upto_end (drop n lg0)"
  using assms by (rule stream_delivers)

end

interpretation memory_log: redis_log "mem_cp []" fst mem_log mem_seq "''run''"
  by unfold_locales (rule mem_cp_laws, rule mem_cp_up)

section \<open>Properties\<close>

text \<open>C11: the event stream delivers exactly once and in order: a client that has seen the first n entries of a run's log and connects with
  that number gets, over any number of readings of the growing log, precisely the later entries up to the one that ends the run, and
  then the handler returns.\<close>

theorem sse_exactly_once:
  assumes "cp_laws (hs_cp H) tb lg sq" "redis_up (hs_cp H)" "n < 2 ^ 63"
    and "\<forall>p\<in>set polls. log_good (hs_cp H) lg rid (fst p) \<and> \<not> snd p \<and> (\<exists>more. lg0 = log_entries (hs_cp H) lg rid (fst p) @ more)"
    and "polls \<noteq> []" "log_entries (hs_cp H) lg rid (fst (last polls)) = lg0" "\<exists>ev\<in>set (drop n lg0). ends_stream ev"
  shows "\<exists>cs. http_events H rid (last_event_id (digits n)) polls = (cs, True) \<and> chunk_events cs = upto_end (drop n lg0)"
proof -
  note R = redis_log.intro [OF assms(1,2)]
  have "last_event_id (digits n) = int n"
  proof -
    obtain c t where ct: "digits n = c # t" "is_digit c" using digits_head by blast
    then have "c \<noteq> CHR 0x2D" "c \<noteq> CHR 0x2B" by (auto simp: is_digit_def ord_def)
    moreover have "int n \<le> 2 ^ 63 - 1" using assms(3) by simp
    ultimately show ?thesis using ct digits_are_digits [of n] dec_value_digits [of n] unfolding last_event_id_def Let_def ct(1) by simp
  qed
  then show ?thesis
    using redis_log.delivers [OF R assms(4-7)] by (simp add: http_events_def)
qed

lemma route_changes:
  "api_route m path \<in> {RCreateAgent, RBatchDelete} \<or> (\<exists>i. api_route m path = RStartRun i) \<Longrightarrow> m = ''POST''"
  by (auto simp: api_route_def agent_route_def Let_def split: if_splits)

text \<open>A request that is not a POST changes nothing and starts no run, whatever its path and body; an action asked for with another method
  than GET or POST is answered with status 405.\<close>

theorem only_POST_changes:
  assumes "hq_Method q \<noteq> ''POST''"
  shows "snd (serveHTTP H w q) = (w, None) \<and>
    (hq_Method q \<noteq> ''GET'' \<and> hq_Path q \<noteq> ''/healthz'' \<and> HasPrefix (hq_Path q) ''/api/v1/'' \<and> (\<exists>i act. api_route (hq_Method q) (hq_Path q) = RAction i act) \<longrightarrow>
       fst (serveHTTP H w q) = writeError 405 ''method_not_allowed'' [])"
  using assms route_changes [of "hq_Method q" "hq_Path q"]
  by (cases "api_route (hq_Method q) (hq_Path q)") (auto simp: serveHTTP_def http_api_def http_action_def Let_def)

lemma Create_gets:
  assumes "Service_Create E w i = (Inr a, w')"
  shows "\<exists>v. Store_Get (cp_pg E) w' (ToLower (uc_lower (cp_U E)) (fst (cp_ulid E v))) = Inr a"
proof -
  obtain u w1 where u: "cp_ulid E w = (u, w1)" by (cases "cp_ulid E w")
  have "Store_Get (cp_pg E) w' (ToLower (uc_lower (cp_U E)) u) = Inr a"
    using assms u by (auto simp: Service_Create_def Let_def new_agent_def split: option.splits prod.splits sum.splits)
  then show ?thesis using u by (metis fst_conv)
qed

text \<open>A path segment that is an agent's id.\<close>

definition plain_id :: "string \<Rightarrow> bool" where "plain_id i \<longleftrightarrow> i \<noteq> [] \<and> CHR ''/'' \<notin> set i"

definition get_agent_request :: "string \<Rightarrow> http_request" where
  "get_agent_request i = \<lparr> hq_Method = ''GET'', hq_Path = ''/api/v1/agents/'' @ i, hq_Body = [], hq_QueryPath = [], hq_LastEventID = [] \<rparr>"

lemma get_agent_route:
  assumes "plain_id i"
  shows "api_route ''GET'' (''/api/v1/agents/'' @ i) = RGetAgent i"
proof -
  have p: "TrimPrefix (''/api/v1/agents/'' @ i) ''/api/v1/'' = ''agents/'' @ i" by (simp add: TrimPrefix_def HasPrefix_def)
  have i: "i \<noteq> []" "CHR ''/'' \<notin> set i" using assms by (simp_all add: plain_id_def)
  then obtain y ys where y: "rev i = y # ys" "y \<noteq> CHR ''/''" by (cases "rev i") (auto dest: arg_cong [of _ _ set])
  have t: "Trim (''agents/'' @ i) ''/'' = ''agents/'' @ i"
    using y by (simp add: Trim_def TrimLeft_def TrimRight_def)
  have j: "''agents/'' @ i = Join [''agents'', i] ''/''" by simp
  have s: "Split (''agents/'' @ i) ''/'' = [''agents'', i]" unfolding j by (rule Split_Join) (use i in simp_all)
  show ?thesis unfolding api_route_def p Let_def t s by (simp add: agent_route_def)
qed

text \<open>An agent whose creation is answered with status 201 is found: getting it by its id at once is answered with status 200 and the same
  document, and creation stored it once, under that id. (Ids have no slash.)\<close>

theorem created_agent_found:
  assumes "pg_laws (cp_pg (hs_cp H)) tb" "createAgent H w q = (ReplyJSON 201 j, w1)"
    and "\<forall>v. plain_id (ToLower (uc_lower (cp_U (hs_cp H))) (fst (cp_ulid (hs_cp H) v)))"
  shows "\<exists>i. serveHTTP H w1 (get_agent_request i) = (ReplyJSON 200 j, w1, None) \<and> i \<in> row_id ` set (tb_agents (tb w1))"
proof -
  have no: "writeServiceError e \<noteq> ReplyJSON 201 j" for e by (simp add: writeServiceError_def writeError_def)
  obtain i a where a: "Service_Create (hs_cp H) w i = (Inr a, w1)" "j = AgentSpec_json (hs_time H) a"
    using assms(2) no
    by (auto simp: createAgent_def invalid_json_def writeError_def split: option.splits prod.splits sum.splits)
  obtain v where v: "Store_Get (cp_pg (hs_cp H)) w1 (ToLower (uc_lower (cp_U (hs_cp H))) (fst (cp_ulid (hs_cp H) v))) = Inr a"
    using Create_gets [OF a(1)] by blast
  let ?i = "ToLower (uc_lower (cp_U (hs_cp H))) (fst (cp_ulid (hs_cp H) v))"
  have r: "api_route ''GET'' (''/api/v1/agents/'' @ ?i) = RGetAgent ?i" using get_agent_route assms(3) by blast
  have "serveHTTP H w1 (get_agent_request ?i) = (getAgent H w1 ?i, w1, None)"
    using r by (simp add: serveHTTP_def get_agent_request_def http_api_def HasPrefix_def)
  moreover have "getAgent H w1 ?i = ReplyJSON 200 j" using v a(2) by (simp add: getAgent_def reply_def map_ok_def)
  moreover have "?i \<in> row_id ` set (tb_agents (tb w1))" using Get_row [OF assms(1) v] by force
  ultimately show ?thesis by auto
qed

section \<open>Examples\<close>

definition demo_server :: "bool \<Rightarrow> (mem_world \<times> containers) HTTPServer" where
  "demo_server b = \<lparr> hs_cp = box_cp b, hs_StaticDir = [], hs_index = (\<lambda>w p. False), hs_time = (\<lambda>t. Itoa t), hs_json_error = (\<lambda>s. ''EOF'') \<rparr>"

definition mem_server :: "mem_world HTTPServer" where
  "mem_server = \<lparr> hs_cp = mem_cp [], hs_StaticDir = [], hs_index = (\<lambda>w p. False), hs_time = (\<lambda>t. Itoa t), hs_json_error = (\<lambda>s. ''EOF'') \<rparr>"

theorem only_POST_changes_witness:
  "snd (serveHTTP mem_server (demo_world []) (get_agent_request ''a1'')) = (demo_world [], None)"
  using only_POST_changes [of "get_agent_request ''a1''" mem_server "demo_world []"] by (simp add: get_agent_request_def)

definition demo_body :: string where
  "demo_body = Marshal (struct_obj [(''name'', False, JStr ''ada''), (''role'', False, JStr ''ops'')])"

definition demo_entry :: "int \<Rightarrow> string \<Rightarrow> UIEvent" where
  "demo_entry i k = \<lparr> ui_ID = i, ui_Type = k, ui_Data = JObj [], ui_CreatedAt = ''2025-01-01T00:00:00Z'' \<rparr>"

definition demo_log :: "UIEvent list \<Rightarrow> mem_world" where
  "demo_log us = (\<lparr> tb_agents = [], tb_runs = [] \<rparr>, \<lambda>k. if k = events_key ''run'' then map UIEvent_Marshal us else [], \<lambda>k. 0)"

lemma demo_entry_ok: "int64 i \<Longrightarrow> ValidString k \<Longrightarrow> UIEvent_ok (\<lambda>s. True) (demo_entry i k)"
  by (simp add: UIEvent_ok_def demo_entry_def dec_any_def go_entries_def ValidString_ascii ord_def)

lemma demo_log_good:
  assumes "\<forall>u\<in>set us. UIEvent_ok (\<lambda>s. True) u" "numbered 0 us"
  shows "log_good (mem_cp []) mem_log ''run'' (demo_log us) \<and> log_entries (mem_cp []) mem_log ''run'' (demo_log us) = us"
proof -
  have t: "cp_time_ok (mem_cp []) = (\<lambda>s. True)" by (simp add: mem_cp_def)
  have "List.map_filter (UIEvent_Unmarshal (\<lambda>s. True)) (map UIEvent_Marshal us) = us"
    using assms(1) by (induction us) (simp_all add: map_filter_simps UIEvent_roundtrip)
  moreover have "mem_log (demo_log us) (events_key ''run'') = map UIEvent_Marshal us" by (simp add: mem_log_def demo_log_def)
  ultimately show ?thesis using assms by (auto simp: log_good_def log_entries_def t)
qed

theorem sse_exactly_once_witness:
  "\<exists>cs. http_events mem_server ''run'' (last_event_id (digits 1))
      [(demo_log [demo_entry 1 ''token''], False), (demo_log [demo_entry 1 ''token'', demo_entry 2 ''done''], False)] = (cs, True) \<and>
    chunk_events cs = [demo_entry 2 ''done'']"
proof -
  let ?us = "[demo_entry 1 ''token'', demo_entry 2 ''done'']" and ?vs = "[demo_entry 1 ''token'']"
  have ok: "\<forall>u\<in>set ?us. UIEvent_ok (\<lambda>s. True) u" by (simp add: demo_entry_ok int64_def ValidString_ascii ord_def)
  have n: "numbered 0 ?us" "numbered 0 ?vs" by (simp_all add: numbered_def demo_entry_def)
  have g: "log_good (mem_cp []) mem_log ''run'' (demo_log ?us)" "log_entries (mem_cp []) mem_log ''run'' (demo_log ?us) = ?us"
    using demo_log_good [OF ok n(1)] by simp_all
  have h: "log_good (mem_cp []) mem_log ''run'' (demo_log ?vs)" "log_entries (mem_cp []) mem_log ''run'' (demo_log ?vs) = ?vs"
    using demo_log_good [OF _ n(2)] ok by simp_all
  let ?polls = "[(demo_log ?vs, False), (demo_log ?us, False)]"
  have s: "hs_cp mem_server = mem_cp []" by (simp add: mem_server_def)
  have laws: "cp_laws (hs_cp mem_server) fst mem_log mem_seq" "redis_up (hs_cp mem_server)" unfolding s by (rule mem_cp_laws, rule mem_cp_up)
  have p: "\<forall>p\<in>set ?polls. log_good (hs_cp mem_server) mem_log ''run'' (fst p) \<and> \<not> snd p \<and>
      (\<exists>more. ?us = log_entries (hs_cp mem_server) mem_log ''run'' (fst p) @ more)"
    unfolding s using g h by simp
  have e: "log_entries (hs_cp mem_server) mem_log ''run'' (fst (last ?polls)) = ?us" unfolding s using g by simp
  have t: "\<exists>ev\<in>set (drop 1 ?us). ends_stream ev" by (simp add: ends_stream_def demo_entry_def)
  have u: "upto_end (drop 1 ?us) = [demo_entry 2 ''done'']" by (simp add: ends_stream_def demo_entry_def)
  show ?thesis using sse_exactly_once [OF laws _ p _ e t] unfolding u by simp
qed

theorem created_agent_found_witness:
  "\<exists>i j. serveHTTP (demo_server False) (snd (createAgent (demo_server False) box_empty
      \<lparr> hq_Method = ''POST'', hq_Path = ''/api/v1/agents'', hq_Body = demo_body, hq_QueryPath = [], hq_LastEventID = [] \<rparr>)) (get_agent_request i) =
     (ReplyJSON 200 j, snd (createAgent (demo_server False) box_empty
      \<lparr> hq_Method = ''POST'', hq_Path = ''/api/v1/agents'', hq_Body = demo_body, hq_QueryPath = [], hq_LastEventID = [] \<rparr>), None)"
proof -
  let ?q = "\<lparr> hq_Method = ''POST'', hq_Path = ''/api/v1/agents'', hq_Body = demo_body, hq_QueryPath = [], hq_LastEventID = [] \<rparr>"
  have d: "Option.bind (http_decode demo_body) CreateAgentInput_of = Some demo_create"
  proof -
    let ?fs = "[(''name'', False, JStr ''ada''), (''role'', False, JStr ''ops'')]"
    have "json_ok (struct_obj ?fs)" by (simp add: struct_obj_def struct_members_def omitempty_def ValidString_ascii ord_def)
    moreover have "length demo_body \<le> 2 ^ 20" by (simp add: demo_body_def marshal_eval)
    ultimately have "http_decode demo_body = Some (struct_obj ?fs)" unfolding demo_body_def by (rule http_decode_Marshal)
    then show ?thesis
      by (simp add: CreateAgentInput_of_def members_struct_obj demo_create_def dec_str_def struct_members_def omitempty_def name_match_ascii ascii_def ord_def upper_ascii_def)
  qed
  obtain a where "fst (Service_Create (box_cp False) box_empty demo_create) = Inr a"
    using demo_created by (cases "fst (Service_Create (box_cp False) box_empty demo_create)") simp_all
  then obtain w1 where a: "Service_Create (box_cp False) box_empty demo_create = (Inr a, w1)" by (metis prod.collapse)
  have h: "hs_cp (demo_server False) = box_cp False" by (simp add: demo_server_def)
  have c: "createAgent (demo_server False) box_empty ?q = (ReplyJSON 201 (AgentSpec_json (hs_time (demo_server False)) a), w1)"
    using d a by (simp add: createAgent_def h)
  have l: "ToLower (uc_lower (cp_U (box_cp False))) ''01'' = ''01''"
    by (rule ToLower_id) (simp_all add: ord_def)
  have i: "\<forall>v. plain_id (ToLower (uc_lower (cp_U (hs_cp (demo_server False)))) (fst (cp_ulid (hs_cp (demo_server False)) v)))"
    unfolding h using l by (simp add: box_cp_def plain_id_def)
  have p: "pg_laws (cp_pg (hs_cp (demo_server False))) (fst \<circ> fst)" unfolding h using box_pg_laws by (simp add: box_cp_def)
  show ?thesis using created_agent_found [OF p c i] c by auto
qed

end
