(* ===== verification/WorkerMain.thy ===== *)
theory WorkerMain
  imports Config Gateway SchedulerService StreamQueue
begin

text \<open>
  cmd/worker/main.go: what a worker process builds from its configuration - sandbox driver, tool runners, agent runner, hook, skill and
  retrieval clients, consumers - and the goroutine that keeps it registered at the scheduler. The constructors of the parts that talk to
  other processes are operations of an environment on one world; telemetry and logging are left out.
\<close>

section \<open>Environment\<close>

text \<open>Dialling gives an error or a connection; the stubs of the services are the clients over it. we_cache reads and we_set_cache writes the
  entries of the skill cache.\<close>

record 'w WorkerEnv =
  we_U :: Unicode
  we_tool_env :: ToolEnv
  we_hostname :: string
  we_NewTraceID :: "'w \<Rightarrow> string \<times> 'w"
  we_etcd :: "'w EtcdEnv"
  we_redis :: "'w \<Rightarrow> string \<Rightarrow> string \<Rightarrow> int \<Rightarrow> string option \<times> 'w"
  we_open_ai :: "OpenAIProvider \<Rightarrow> 'w provider"
  we_stream :: "'w built_provider \<Rightarrow> 'w provider"
  we_create_group :: "'w \<Rightarrow> string \<Rightarrow> string \<Rightarrow> string option \<times> 'w"
  we_memory :: "'w \<Rightarrow> string \<Rightarrow> int \<Rightarrow> (string, 'w Driver) result \<times> 'w"
  we_docker :: "'w \<Rightarrow> DockerOptions \<Rightarrow> (string, 'w Driver) result \<times> 'w"
  we_agent_docker :: "'w \<Rightarrow> int \<Rightarrow> (string, 'w Driver) result \<times> 'w"
  we_close_driver :: "'w \<Rightarrow> 'w Driver \<Rightarrow> 'w"
  we_dial :: "'w \<Rightarrow> string \<Rightarrow> string option \<times> 'w"
  we_close_conn :: "'w \<Rightarrow> string \<Rightarrow> 'w"
  we_skill :: "'w \<Rightarrow> string \<times> nat \<Rightarrow> (string, (string \<times> string \<times> string \<times> string \<times> string) list) result \<times> 'w"
  we_now :: "'w \<Rightarrow> int"
  we_map_order :: "entries \<Rightarrow> entries"
  we_cache :: "'w \<Rightarrow> entries"
  we_set_cache :: "entries \<Rightarrow> 'w \<Rightarrow> 'w"
  we_rag :: "'w \<Rightarrow> string \<Rightarrow> string \<Rightarrow> nat \<Rightarrow> rat \<Rightarrow> (string, pb_chunk list) result \<times> 'w"
  we_hook :: "'w \<Rightarrow> pb_hook_event \<Rightarrow> string \<Rightarrow> string \<Rightarrow> string \<Rightarrow> (string, HookResponse) result \<times> 'w"
  we_history :: "'w HistoryStore"
  we_publish :: "'w \<Rightarrow> string \<Rightarrow> Event \<Rightarrow> string option \<times> 'w"
  we_parse_url :: "string \<Rightarrow> (string, string \<times> string) result"
  we_http :: "'w \<Rightarrow> string \<Rightarrow> string \<Rightarrow> tags \<Rightarrow> string \<Rightarrow> int \<Rightarrow> (string, HttpResponse) result \<times> 'w"
  we_deadline :: "'w \<Rightarrow> int \<Rightarrow> 'w"
  we_elapsed :: "'w \<Rightarrow> int \<times> 'w"
  we_since :: "'w \<Rightarrow> nat \<times> 'w"
  we_bus_publish :: "'w \<Rightarrow> string \<Rightarrow> ToolResultEvent \<Rightarrow> (string \<times> bool) option \<times> 'w"
  we_json_err :: "string \<Rightarrow> string"

section \<open>Parts\<close>

definition worker_id :: "'w WorkerEnv \<Rightarrow> 'w \<Rightarrow> string \<times> 'w" where
  "worker_id E w = (if we_hostname E = [] then we_NewTraceID E w else (we_hostname E, w))"

definition worker_instance :: "WorkerConfig \<Rightarrow> string \<Rightarrow> Instance" where
  "worker_instance cfg i = \<lparr> in_Service = ''worker'', in_ID = i, in_Addr = i, in_Metadata = [(''concurrency'', Itoa (wc_Concurrency cfg))],
     in_UpdatedAt = 0 \<rparr>"

definition factory_config :: "WorkerConfig \<Rightarrow> FactoryConfig" where
  "factory_config cfg = \<lparr> fc_Provider = wc_LLMProvider cfg, fc_BaseURL = wc_ModelScopeBaseURL cfg,
     fc_AccessToken = wc_ModelScopeAccessToken cfg, fc_Model = wc_ModelScopeModel cfg, fc_MaxTokens = wc_ModelScopeMaxTokens cfg,
     fc_Timeout = wc_ModelScopeTimeout cfg \<rparr>"

definition docker_options :: "WorkerConfig \<Rightarrow> DockerOptions" where
  "docker_options cfg = \<lparr> do_Image = wc_SandboxImage cfg, do_PoolSize = wc_SandboxPoolSize cfg,
     do_AcquireTimeout = wc_SandboxAcquireTimeout cfg, do_WorkspaceRoot = wc_SandboxWorkspaceRoot cfg,
     do_MemoryBytes = wrap64 (wrap64 (wc_SandboxMemoryMB cfg * 1024) * 1024), do_CPUQuota = wc_SandboxCPUQuotaUS cfg, do_CPUPeriod = 0,
     do_PidsLimit = wc_SandboxPidsLimit cfg, do_ExecTimeoutHard = wc_SandboxExecHard cfg, do_User = [], do_TmpfsSize = [] \<rparr>"

definition makeSandboxDriver :: "'w WorkerEnv \<Rightarrow> WorkerConfig \<Rightarrow> 'w \<Rightarrow> (string, 'w Driver) result \<times> 'w" where
  "makeSandboxDriver E cfg w =
     (if wc_SandboxDriver cfg = [] \<or> wc_SandboxDriver cfg = ''disabled'' then (Inl ''sandbox driver disabled by config'', w)
      else if wc_SandboxDriver cfg = ''memory'' then we_memory E w (wc_SandboxWorkspaceRoot cfg) (wc_SandboxPoolSize cfg)
      else if wc_SandboxDriver cfg = ''docker'' then we_docker E w (docker_options cfg)
      else (Inl (''unknown sandbox driver: '' @ wc_SandboxDriver cfg), w))"

definition opt_driver :: "(string, 'w Driver) result \<Rightarrow> 'w Driver option" where
  "opt_driver r = (case r of Inl e \<Rightarrow> None | Inr d \<Rightarrow> Some d)"

definition worker_registry :: "'w WorkerEnv \<Rightarrow> WorkerConfig \<Rightarrow> 'w Registry" where
  "worker_registry E cfg = Builtins (we_tool_env E)
     \<lparr> hf_AllowList = wc_ToolHTTPAllowList cfg, hf_MaxBytes = wc_ToolHTTPMaxBytes cfg, hf_parse = we_parse_url E, hf_do = we_http E \<rparr>"

text \<open>A tool runner over a driver. The runner for persistent agents gets no bus, and nothing publishes through it.\<close>

definition tool_runner :: "'w WorkerEnv \<Rightarrow> WorkerConfig \<Rightarrow> 'w hook_client option \<Rightarrow> 'w Driver \<Rightarrow> 'w ToolRunner" where
  "tool_runner E cfg hook drv = \<lparr> tn_Registry = Some (worker_registry E cfg), tn_Driver = Some drv, tn_HardTimeout = wc_SandboxExecHard cfg,
     tn_HookClient = hook, tn_HookFailClosed = (hook \<noteq> None \<and> cm_HookFailClosed (wc_Common cfg)), tn_deadline = we_deadline E,
     tn_elapsed = we_elapsed E, tn_publish = we_bus_publish E \<rparr>"

text \<open>A service that is switched on is dialled; when that fails the worker goes on without it.\<close>

definition dial_if :: "'w WorkerEnv \<Rightarrow> bool \<Rightarrow> string \<Rightarrow> 'w \<Rightarrow> bool \<times> 'w" where
  "dial_if E enabled addr w = (if enabled then (let (e, w1) = we_dial E w addr in (e = None, w1)) else (False, w))"

definition cached_selector :: "'w WorkerEnv \<Rightarrow> WorkerConfig \<Rightarrow> 'w \<Rightarrow> string \<Rightarrow> (string, Skill list) result \<times> 'w" where
  "cached_selector E cfg w query =
     (let c = \<lparr> cs_TTL = wc_SkillCacheTTL cfg, cs_Capacity = wc_SkillCacheSize cfg, cs_entries = we_cache E w \<rparr>;
          (res, c1, w1) = CachedSelector_Select (we_U E) (we_map_order E) (Some (GRPCSelector_Select (Some (we_skill E)) (wc_SkillTopK cfg)))
            (we_now E w) c w query
      in (res, we_set_cache E (cs_entries c1) w1))"

definition compact_policy :: "CommonConfig \<Rightarrow> CompactPolicy" where
  "compact_policy c = \<lparr> cp_Enabled = cm_ContextCompactEnabled c, cp_MaxChars = cm_ContextCompactMaxChars c,
     cp_KeepHead = cm_ContextCompactKeepHead c, cp_KeepTail = cm_ContextCompactKeepTail c \<rparr>"

text \<open>The agent runner, given the tool runners and which services are connected.\<close>

definition agent_runner ::
    "'w WorkerEnv \<Rightarrow> WorkerConfig \<Rightarrow> 'w provider \<Rightarrow> 'w ToolRunner option \<Rightarrow> 'w ToolRunner option \<Rightarrow> bool \<Rightarrow> bool \<Rightarrow> 'w hook_client option \<Rightarrow>
     'w AgentRunner" where
  "agent_runner E cfg provider tools agent_tls skills rag hook =
     (let c = wc_Common cfg in
      \<lparr> ar_U = we_U E, ar_History = we_history E, ar_Provider = provider, ar_publish = we_publish E,
        ar_ToolRunner = map_option (agent_tools (we_tool_env E)) tools, ar_AgentToolRunner = map_option (agent_tools (we_tool_env E)) agent_tls,
        ar_ToolMaxSteps = wc_AgentToolMaxSteps cfg,
        ar_SkillSelector = (if skills then Some (cached_selector E cfg) else None),
        ar_RAGRetriever = (if rag then Some (GRPCRetrieve (Some (we_rag E))) else None),
        ar_RAGTenantID = (if rag then cm_RAGTenantID c else []), ar_RAGTopK = (if rag then cm_RAGTopK c else 0),
        ar_RAGMinScore = (if rag then cm_RAGMinScore c else 0),
        ar_MultiAgentEnabled = cm_MultiAgentEnabled c, ar_SubagentMaxDepth = cm_SubagentMaxDepth c,
        ar_SubagentMaxChildren = cm_SubagentMaxChildren c, ar_SubagentTimeout = cm_SubagentTimeout c, ar_Depth = 0,
        ar_CompactPolicy = compact_policy c, ar_HookClient = hook, ar_HookFailClosed = (hook \<noteq> None \<and> cm_HookFailClosed c),
        ar_new_id = we_NewTraceID E, ar_since = we_since E, ar_json_err = we_json_err E \<rparr>)"

section \<open>The process\<close>

record 'w worker =
  wk_ID :: string
  wk_Config :: WorkerConfig
  wk_Runner :: "'w AgentRunner"
  wk_Tools :: "'w ToolRunner option"
  wk_AgentTools :: "'w ToolRunner option"
  wk_Conns :: "string list"
  wk_Consumers :: "string list"
  wk_ToolConsumers :: "string list"

datatype 'w startup = Panics string | Exits string | Serves "'w worker"

definition worker_names :: "string \<Rightarrow> string \<Rightarrow> int \<Rightarrow> string list" where
  "worker_names wid infix_text n = map (\<lambda>k. wid @ infix_text @ Itoa (int k)) [0..<nat n]"

definition ensure_group :: "'w WorkerEnv \<Rightarrow> 'w \<Rightarrow> string \<Rightarrow> string \<Rightarrow> string option \<times> 'w" where
  "ensure_group E w stream grp = (let (e, w1) = we_create_group E w stream grp in (EnsureGroup e, w1))"

definition agent_driver :: "'w WorkerEnv \<Rightarrow> WorkerConfig \<Rightarrow> 'w Driver option \<Rightarrow> 'w \<Rightarrow> 'w Driver option \<times> 'w" where
  "agent_driver E cfg drv w =
     (if drv \<noteq> None \<and> wc_SandboxDriver cfg = ''docker''
      then (let (r, w1) = we_agent_docker E w (wc_SandboxExecHard cfg) in (opt_driver r, w1))
      else (None, w))"

text \<open>The process put together, given the drivers and which services are connected; it has no tool consumers yet.\<close>

definition build_worker ::
    "'w WorkerEnv \<Rightarrow> WorkerConfig \<Rightarrow> string \<Rightarrow> 'w provider \<Rightarrow> 'w Driver option \<Rightarrow> 'w Driver option \<Rightarrow> bool \<Rightarrow> bool \<Rightarrow> bool \<Rightarrow> 'w worker" where
  "build_worker E cfg wid provider drv adrv skills rag hooks =
     (let c = wc_Common cfg;
          hook = (if hooks then Some (GRPC_Execute (Some (we_hook E))) else None);
          tools = map_option (tool_runner E cfg hook) drv;
          agent_tls = map_option (tool_runner E cfg hook) adrv
      in \<lparr> wk_ID = wid, wk_Config = cfg, wk_Runner = agent_runner E cfg provider tools agent_tls skills rag hook,
           wk_Tools = tools, wk_AgentTools = agent_tls,
           wk_Conns = (if skills then [cm_SkillServiceAddr c] else []) @ (if rag then [cm_RAGServiceAddr c] else []) @
             (if hooks then [cm_HookServiceAddr c] else []),
           wk_Consumers = worker_names wid ''-'' (wc_Concurrency cfg), wk_ToolConsumers = [] \<rparr>)"

definition tool_concurrency :: "WorkerConfig \<Rightarrow> int" where
  "tool_concurrency cfg = (if wc_ToolConcurrency cfg \<le> 0 then wc_Concurrency cfg else wc_ToolConcurrency cfg)"

text \<open>From the connection to Redis on, with the agent consumers' group in place: everything that can fail is left out of the worker, but
  the consumer group of the tool queue.\<close>

definition assemble :: "'w WorkerEnv \<Rightarrow> WorkerConfig \<Rightarrow> string \<Rightarrow> 'w provider \<Rightarrow> 'w \<Rightarrow> 'w startup \<times> 'w" where
  "assemble E cfg wid provider w =
     (let c = wc_Common cfg;
          (dr, w1) = makeSandboxDriver E cfg w;
          drv = opt_driver dr;
          (adrv, w2) = agent_driver E cfg drv w1;
          (skills, w3) = dial_if E (wc_SkillEnabled cfg) (cm_SkillServiceAddr c) w2;
          (rag, w4) = dial_if E (cm_RAGEnabled c) (cm_RAGServiceAddr c) w3;
          (hooks, w5) = dial_if E (cm_HookEnabled c) (cm_HookServiceAddr c) w4;
          k = build_worker E cfg wid provider drv adrv skills rag hooks
      in if drv = None then (Serves k, w5)
         else (case ensure_group E w5 (q_stream NewToolStream) (wc_ToolConsumerGroup cfg) of
             (Some e, w6) \<Rightarrow> (Exits e, w6)
           | (None, w6) \<Rightarrow> (Serves (k\<lparr> wk_ToolConsumers := worker_names wid ''-tool-'' (tool_concurrency cfg) \<rparr>), w6)))"

definition worker_main :: "'w WorkerEnv \<Rightarrow> EnvLib \<Rightarrow> 'w \<Rightarrow> 'w startup \<times> 'w" where
  "worker_main E L w =
     (case LoadWorker L of
        Inl e \<Rightarrow> (Panics e, w)
      | Inr cfg \<Rightarrow>
          (let c = wc_Common cfg;
               (wid, w1) = worker_id E w;
               w2 = (if cm_DiscoveryEnabled c then snd (Discovery_Register (we_etcd E) w1 (cm_EtcdEndpoints c) (worker_instance cfg wid) 10) else w1)
           in case we_redis E w2 (cm_RedisAddr c) (cm_RedisPassword c) (cm_RedisDB c) of
                (Some e, w3) \<Rightarrow> (Exits e, w3)
              | (None, w3) \<Rightarrow>
                  (case NewFromConfig (we_U E) (we_open_ai E) (factory_config cfg) of
                     Inl e \<Rightarrow> (Exits e, w3)
                   | Inr p \<Rightarrow>
                       (case ensure_group E w3 (q_stream NewStream) (wc_ConsumerGroup cfg) of
                          (Some e, w4) \<Rightarrow> (Exits e, w4)
                        | (None, w4) \<Rightarrow> assemble E cfg wid (we_stream E p) w4))))"

text \<open>What a consumer does with a delivery.\<close>

definition agent_consumer :: "(string \<Rightarrow> string) \<Rightarrow> 'w worker \<Rightarrow> 'w rstate \<Rightarrow> Message \<Rightarrow> redis_cmd list \<times> 'w rstate" where
  "agent_consumer jerr k = StreamQueue_handle jerr NewStream (wc_ConsumerGroup (wk_Config k)) (task_maxRetry (wc_MaxRetry (wk_Config k)))
     (\<lambda>s _ t. Run (wk_Runner k) s t)"

definition tool_consumer :: "(string \<Rightarrow> string) \<Rightarrow> ToolEnv \<Rightarrow> 'w worker \<Rightarrow> 'w ToolRunner \<Rightarrow> 'w \<Rightarrow> Message \<Rightarrow> redis_cmd list \<times> 'w" where
  "tool_consumer jerr V k r = ToolStreamQueue_handle jerr NewToolStream (wc_ToolConsumerGroup (wk_Config k)) (tool_maxRetry 1)
     (\<lambda>w _ t. Tool_Handle V r w t)"

definition worker_stop :: "'w WorkerEnv \<Rightarrow> 'w worker \<Rightarrow> 'w \<Rightarrow> 'w" where
  "worker_stop E k w =
     (let close = (\<lambda>r w. case Option.bind r tn_Driver of None \<Rightarrow> w | Some d \<Rightarrow> we_close_driver E w d)
      in foldl (we_close_conn E) (close (wk_AgentTools k) (close (wk_Tools k) w)) (wk_Conns k))"

section \<open>Registration at the scheduler\<close>

record 'w SchedulerClient =
  scl_dial :: "'w \<Rightarrow> string \<Rightarrow> string option \<times> 'w"
  scl_Register :: "'w \<Rightarrow> RegisterRequest \<Rightarrow> string option \<times> 'w"
  scl_Heartbeat :: "'w \<Rightarrow> HeartbeatRequest \<Rightarrow> string option \<times> 'w"
  scl_close :: "'w \<Rightarrow> 'w"

definition register_request :: "WorkerConfig \<Rightarrow> string \<Rightarrow> RegisterRequest" where
  "register_request cfg i = \<lparr> rq_WorkerId = i, rq_Addr = i, rq_Concurrency = int32 (wc_Concurrency cfg), rq_Labels = None \<rparr>"

definition beat_request :: "string \<Rightarrow> HeartbeatRequest" where
  "beat_request i = \<lparr> hb_WorkerId = i, hb_InFlight = 0, hb_Load = Finite 0 \<rparr>"

datatype beat = BeatTick | BeatDone

datatype beating = StillBeating | BeatReturned | BeatPanics

text \<open>The loop of the ticker; an error of a heartbeat is only logged.\<close>

fun heartbeats :: "'w SchedulerClient \<Rightarrow> string \<Rightarrow> 'w \<Rightarrow> beat list \<Rightarrow> beating \<times> 'w" where
  "heartbeats C i w [] = (StillBeating, w)"
| "heartbeats C i w (BeatDone # bs) = (BeatReturned, scl_close C w)"
| "heartbeats C i w (BeatTick # bs) = heartbeats C i (snd (scl_Heartbeat C w (beat_request i))) bs"

text \<open>A ticker with an interval that is not positive panics, and with it the process.\<close>

definition runScheduler :: "'w SchedulerClient \<Rightarrow> WorkerConfig \<Rightarrow> string \<Rightarrow> 'w \<Rightarrow> beat list \<Rightarrow> beating \<times> 'w" where
  "runScheduler C cfg i w bs =
     (case scl_dial C w (wc_SchedulerDial cfg) of
        (Some e, w1) \<Rightarrow> (BeatReturned, w1)
      | (None, w1) \<Rightarrow>
          (case scl_Register C w1 (register_request cfg i) of
             (Some e, w2) \<Rightarrow> (BeatReturned, scl_close C w2)
           | (None, w2) \<Rightarrow>
               if wc_HeartbeatInterval cfg \<le> 0 then (BeatPanics, scl_close C w2) else heartbeats C i w2 bs))"

section \<open>A worker is wired as configured\<close>

lemma Itoa_nat_inj: "Itoa (int i) = Itoa (int j) \<Longrightarrow> i = j"
  by (simp add: Itoa_def digits_inj)

lemma Itoa_head: "\<exists>c t. Itoa (int i) = c # t \<and> is_digit c"
  using digits_head [of i] by (auto simp: Itoa_def)

lemma worker_names_distinct: "distinct (worker_names wid ''-'' n @ worker_names wid ''-tool-'' m)"
proof -
  have d: "distinct (worker_names wid x n)" for x n
    unfolding worker_names_def by (auto simp: distinct_map inj_on_def dest: Itoa_nat_inj)
  have "wid @ ''-'' @ Itoa (int i) \<noteq> wid @ ''-tool-'' @ Itoa (int j)" for i j
    using Itoa_head [of i] by (auto simp: is_digit_def ord_def)
  then have "set (worker_names wid ''-'' n) \<inter> set (worker_names wid ''-tool-'' m) = {}" by (auto simp: worker_names_def)
  then show ?thesis using d by simp
qed

lemma worker_names_empty [simp]: "worker_names wid x n = [] \<longleftrightarrow> n \<le> 0"
  by (auto simp: worker_names_def)

text \<open>The tool runners of a worker have its agent runner's hook client, and it has them.\<close>

definition wired :: "'w WorkerEnv \<Rightarrow> 'w worker \<Rightarrow> bool" where
  "wired E k \<longleftrightarrow>
     ar_ToolRunner (wk_Runner k) = map_option (agent_tools (we_tool_env E)) (wk_Tools k) \<and>
     ar_AgentToolRunner (wk_Runner k) = map_option (agent_tools (we_tool_env E)) (wk_AgentTools k) \<and>
     (wk_AgentTools k \<noteq> None \<longrightarrow> wk_Tools k \<noteq> None \<and> wc_SandboxDriver (wk_Config k) = ''docker'') \<and>
     (\<forall>r \<in> set_option (wk_Tools k) \<union> set_option (wk_AgentTools k). tn_Driver r \<noteq> None \<and> tn_Registry r \<noteq> None \<and>
        tn_HookClient r = ar_HookClient (wk_Runner k) \<and> tn_HookFailClosed r = ar_HookFailClosed (wk_Runner k)) \<and>
     (ar_HookFailClosed (wk_Runner k) \<longrightarrow> ar_HookClient (wk_Runner k) \<noteq> None)"

text \<open>What a started worker is built from.\<close>

definition built_as :: "'w WorkerEnv \<Rightarrow> WorkerConfig \<Rightarrow> 'w provider \<Rightarrow> 'w worker \<Rightarrow> bool" where
  "built_as E cfg p k \<longleftrightarrow> (\<exists>wid drv adrv skills rag hooks.
     k = (build_worker E cfg wid p drv adrv skills rag hooks)\<lparr> wk_ToolConsumers :=
       (if drv = None then [] else worker_names wid ''-tool-'' (tool_concurrency cfg)) \<rparr> \<and>
     (adrv \<noteq> None \<longrightarrow> drv \<noteq> None \<and> wc_SandboxDriver cfg = ''docker'') \<and>
     (hooks \<longrightarrow> (\<exists>v. fst (we_dial E v (cm_HookServiceAddr (wc_Common cfg))) = None)))"

lemma agent_driver_docker: "agent_driver E cfg drv w = (Some d, w') \<Longrightarrow> drv \<noteq> None \<and> wc_SandboxDriver cfg = ''docker''"
  by (auto simp: agent_driver_def split: if_splits)

lemma dial_if_dialled: "dial_if E b addr w = (True, w') \<Longrightarrow> \<exists>v. fst (we_dial E v addr) = None"
  by (auto simp: dial_if_def split: if_splits prod.splits) (metis fst_conv)

lemma assemble_built:
  assumes "assemble E cfg wid p w = (Serves k, w')"
  shows "built_as E cfg p k"
proof -
  obtain dr w1 where 1: "makeSandboxDriver E cfg w = (dr, w1)" by (cases "makeSandboxDriver E cfg w")
  define drv where "drv = opt_driver dr"
  obtain adrv w2 where 2: "agent_driver E cfg drv w1 = (adrv, w2)" by (cases "agent_driver E cfg drv w1")
  obtain skills w3 where 3: "dial_if E (wc_SkillEnabled cfg) (cm_SkillServiceAddr (wc_Common cfg)) w2 = (skills, w3)" by (rule prod.exhaust)
  obtain rag w4 where 4: "dial_if E (cm_RAGEnabled (wc_Common cfg)) (cm_RAGServiceAddr (wc_Common cfg)) w3 = (rag, w4)" by (rule prod.exhaust)
  obtain hooks w5 where 5: "dial_if E (cm_HookEnabled (wc_Common cfg)) (cm_HookServiceAddr (wc_Common cfg)) w4 = (hooks, w5)" by (rule prod.exhaust)
  define k0 where "k0 = build_worker E cfg wid p drv adrv skills rag hooks"
  have n: "k0\<lparr> wk_ToolConsumers := [] \<rparr> = k0" by (simp add: k0_def build_worker_def Let_def)
  note r = assms [unfolded assemble_def Let_def 1 prod.case, folded drv_def, unfolded 2 3 4 5 prod.case, folded k0_def]
  have "k = k0\<lparr> wk_ToolConsumers := (if drv = None then [] else worker_names wid ''-tool-'' (tool_concurrency cfg)) \<rparr>"
  proof (cases "drv = None")
    case True
    then have "k = k0" using r by simp
    then show ?thesis using True n by simp
  next
    case False
    obtain e w6 where g: "ensure_group E w5 (q_stream NewToolStream) (wc_ToolConsumerGroup cfg) = (e, w6)" by (rule prod.exhaust)
    show ?thesis
    proof (cases e)
      case None
      then have "k0\<lparr> wk_ToolConsumers := worker_names wid ''-tool-'' (tool_concurrency cfg) \<rparr> = k" using r False by (simp add: g)
      then show ?thesis by (simp only: if_not_P [OF False])
    qed (use r False in \<open>simp add: g\<close>)
  qed
  moreover have "adrv \<noteq> None \<longrightarrow> drv \<noteq> None \<and> wc_SandboxDriver cfg = ''docker''"
    using agent_driver_docker [of E cfg drv w1 _ w2] 2 by (cases adrv) blast+
  moreover have "hooks \<longrightarrow> (\<exists>v. fst (we_dial E v (cm_HookServiceAddr (wc_Common cfg))) = None)" using dial_if_dialled [of E "cm_HookEnabled (wc_Common cfg)" "cm_HookServiceAddr (wc_Common cfg)" w4 w5] 5 by simp
  ultimately show ?thesis unfolding built_as_def k0_def by blast
qed

lemma built_wired:
  assumes "built_as E cfg p k" "WorkerConfig_ok cfg"
  shows "wk_Config k = cfg" "wired E k" "ar_Provider (wk_Runner k) = p" "wk_Consumers k \<noteq> []"
    "distinct (wk_Consumers k @ wk_ToolConsumers k)" "wk_ToolConsumers k \<noteq> [] \<longleftrightarrow> wk_Tools k \<noteq> None"
proof -
  have n: "wc_Concurrency cfg \<ge> 1" "tool_concurrency cfg \<ge> 1" using assms(2) by (auto simp: WorkerConfig_ok_def tool_concurrency_def)
  have "distinct (worker_names wid ''-'' m)" for wid m using worker_names_distinct [of wid m 0] by (simp add: worker_names_def)
  note d = this worker_names_distinct
  note parts = build_worker_def Let_def agent_runner_def
  obtain wid drv adrv skills rag hooks where k:
    "k = (build_worker E cfg wid p drv adrv skills rag hooks)\<lparr> wk_ToolConsumers :=
       (if drv = None then [] else worker_names wid ''-tool-'' (tool_concurrency cfg)) \<rparr>"
    and a: "adrv \<noteq> None \<longrightarrow> drv \<noteq> None \<and> wc_SandboxDriver cfg = ''docker''"
    using assms(1) unfolding built_as_def by blast
  show "wk_Config k = cfg" "ar_Provider (wk_Runner k) = p" by (simp_all add: k parts)
  show "wk_Consumers k \<noteq> []" "wk_ToolConsumers k \<noteq> [] \<longleftrightarrow> wk_Tools k \<noteq> None" using n by (simp_all add: k parts)
  show "distinct (wk_Consumers k @ wk_ToolConsumers k)" using d by (cases drv) (simp_all add: k parts)
  show "wired E k" using a by (cases drv; cases adrv) (simp_all add: k parts wired_def tool_runner_def)
qed

lemma worker_main_serves:
  assumes "worker_main E L w = (Serves k, w')"
  obtains cfg p where "LoadWorker L = Inr cfg" "WorkerConfig_ok cfg"
    "NewFromConfig (we_U E) (we_open_ai E) (factory_config cfg) = Inr p" "built_as E cfg (we_stream E p) k"
proof -
  obtain cfg where c: "LoadWorker L = Inr cfg" using assms by (auto simp: worker_main_def split: sum.splits)
  obtain p wid v where "NewFromConfig (we_U E) (we_open_ai E) (factory_config cfg) = Inr p" "assemble E cfg wid (we_stream E p) v = (Serves k, w')"
    using assms c by (simp add: worker_main_def Let_def split: sum.splits prod.splits option.splits)
  then have "NewFromConfig (we_U E) (we_open_ai E) (factory_config cfg) = Inr p" "built_as E cfg (we_stream E p) k"
    by (simp_all add: assemble_built)
  then show ?thesis by (rule that [OF c LoadWorker_ok [OF c]])
qed

text \<open>C9: a worker that starts is put together as configured: it has a checked configuration and the model provider of that configuration,
  at least one agent consumer, tool consumers exactly when it has a sandbox driver, all under different names, the persistent agents' runner
  only with Docker, and one hook client, or none, shared by the agent runner and its tool runners.\<close>

theorem worker_wired:
  assumes "worker_main E L w = (Serves k, w')"
  shows "\<exists>p. LoadWorker L = Inr (wk_Config k) \<and> WorkerConfig_ok (wk_Config k) \<and>
    NewFromConfig (we_U E) (we_open_ai E) (factory_config (wk_Config k)) = Inr p \<and> ar_Provider (wk_Runner k) = we_stream E p \<and>
    wired E k \<and> wk_Consumers k \<noteq> [] \<and> distinct (wk_Consumers k @ wk_ToolConsumers k) \<and> (wk_ToolConsumers k \<noteq> [] \<longleftrightarrow> wk_Tools k \<noteq> None)"
proof -
  obtain cfg p where c: "LoadWorker L = Inr cfg" "WorkerConfig_ok cfg"
    "NewFromConfig (we_U E) (we_open_ai E) (factory_config cfg) = Inr p" "built_as E cfg (we_stream E p) k" by (rule worker_main_serves [OF assms])
  show ?thesis using c(1-3) built_wired [OF c(4,2)] by blast
qed

section \<open>Failing open\<close>

text \<open>C35: when the hook service cannot be reached at start-up the worker runs without hooks, although it was told to fail closed: every
  tool call then passes the hook stage with its arguments unchanged.\<close>

theorem unreachable_hooks_fail_open:
  assumes "worker_main E L w = (Serves k, w')" "cm_HookEnabled (wc_Common (wk_Config k))" "cm_HookFailClosed (wc_Common (wk_Config k))"
    and "\<forall>v. fst (we_dial E v (cm_HookServiceAddr (wc_Common (wk_Config k)))) \<noteq> None"
  shows "ar_HookClient (wk_Runner k) = None \<and> \<not> ar_HookFailClosed (wk_Runner k) \<and>
    (\<forall>r \<in> set_option (wk_Tools k) \<union> set_option (wk_AgentTools k). \<forall>v callID traceID name args.
       executePreToolHook r v callID traceID name args = (Inr (UseArgs args), v))"
proof -
  obtain cfg p where c: "WorkerConfig_ok cfg" "built_as E cfg (we_stream E p) k" by (rule worker_main_serves [OF assms(1)])
  note b = built_wired [OF c(2,1)]
  have "ar_HookClient (wk_Runner k) = None"
    using c(2) assms(4) unfolding b(1) built_as_def by (auto simp: build_worker_def Let_def agent_runner_def)
  then show ?thesis using b(2) unfolding wired_def executePreToolHook_def by auto
qed

section \<open>What the registry knows of a worker\<close>

text \<open>What a worker's goroutine makes the scheduler do; requests of other workers, listings, picks and expiries may come in between.\<close>

definition sends :: "WorkerConfig \<Rightarrow> string \<Rightarrow> sched_label \<Rightarrow> bool" where
  "sends cfg i l =
     (case l of
        LRegister info ttl \<Rightarrow> wi_WorkerID info = i \<longrightarrow> info = register_info (register_request cfg i)
      | LHeartbeat j n ld ttl \<Rightarrow> j = i \<longrightarrow> n = hb_InFlight (beat_request i) \<and> ld = hb_Load (beat_request i)
      | _ \<Rightarrow> True)"

definition idle_document :: "'r SchedEnv \<Rightarrow> WorkerConfig \<Rightarrow> string \<Rightarrow> string \<Rightarrow> bool" where
  "idle_document E cfg i raw \<longleftrightarrow>
     (\<exists>w. raw = WorkerInfo_Marshal w \<and> WorkerInfo_ok (sc_time_ok E) w \<and> wi_Load w = 0 \<and> wi_InFlight w = 0 \<and>
        wi_Concurrency w = int32 (wc_Concurrency cfg))"

lemma beat_keeps_idle:
  assumes "sched_laws E kv ss" "\<forall>raw. kv r (WorkerKey i) = Some raw \<longrightarrow> idle_document E cfg i raw"
    and "RedisScheduler_Heartbeat E r i 0 (Finite 0) ttl = (e, r')" "kv r' (WorkerKey i) = Some raw"
  shows "idle_document E cfg i raw"
proof (cases "\<exists>raw0 w. sc_get E r (WorkerKey i) = Inr (Some raw0) \<and> WorkerInfo_Unmarshal (sc_time_ok E) raw0 = Some w")
  case True
  then obtain raw0 w where g: "sc_get E r (WorkerKey i) = Inr (Some raw0)" "WorkerInfo_Unmarshal (sc_time_ok E) raw0 = Some w" by blast
  have k: "kv r (WorkerKey i) = Some raw0" using sched_lawsD(1) [OF assms(1) g(1)] by simp
  then obtain u where u: "raw0 = WorkerInfo_Marshal u" "WorkerInfo_ok (sc_time_ok E) u" "wi_Load u = 0" "wi_InFlight u = 0"
    "wi_Concurrency u = int32 (wc_Concurrency cfg)" using assms(2) unfolding idle_document_def by blast
  have wu: "w = u" using g(2) u(1) WorkerInfo_roundtrip [OF u(2)] by simp
  define v where "v = u\<lparr> wi_InFlight := 0, wi_UpdatedAt := sc_now E r, wi_Load := 0 \<rparr>"
  obtain err where x: "sc_exec E r [SetEx (WorkerKey i) (WorkerInfo_Marshal v) (worker_ttl ttl)] = (err, r')"
    using assms(3) g by (auto simp: RedisScheduler_Heartbeat_def heartbeat_payload_def v_def wu Let_def split: prod.splits)
  have "idle_document E cfg i (WorkerInfo_Marshal v)"
    unfolding idle_document_def
    by (rule exI [of _ v]) (use u sched_lawsD(5) [OF assms(1), of r] in \<open>simp add: v_def WorkerInfo_ok_def f64_def round_to_def max_float_def\<close>)
  moreover have "kv r' = kv r \<or> kv r' = (kv r)(WorkerKey i \<mapsto> WorkerInfo_Marshal v)" using sched_lawsD(4) [OF assms(1) x] by auto
  ultimately show ?thesis using assms(2,4) by auto
next
  case False
  then have "r' = r" using assms(3) by (auto simp: RedisScheduler_Heartbeat_def Let_def split: sum.splits option.splits)
  then show ?thesis using assms(2,4) by blast
qed

lemma Heartbeat_other:
  assumes "sched_laws E kv ss" "RedisScheduler_Heartbeat E r j n ld ttl = (e, r')" "j \<noteq> i"
  shows "kv r' (WorkerKey i) = kv r (WorkerKey i)"
proof (cases "\<exists>raw w. sc_get E r (WorkerKey j) = Inr (Some raw) \<and> WorkerInfo_Unmarshal (sc_time_ok E) raw = Some w")
  case True
  then obtain err d where x: "sc_exec E r [SetEx (WorkerKey j) d (worker_ttl ttl)] = (err, r')"
    using assms(2) by (auto simp: RedisScheduler_Heartbeat_def Let_def split: prod.splits)
  show ?thesis using sched_lawsD(4) [OF assms(1) x] assms(3) by auto
qed (use assms(2) in \<open>auto simp: RedisScheduler_Heartbeat_def Let_def split: sum.splits option.splits\<close>)

lemma Heartbeat_absent:
  assumes "sched_laws E kv ss" "RedisScheduler_Heartbeat E r j n ld ttl = (e, r')" "kv r (WorkerKey i) = None"
  shows "kv r' (WorkerKey i) = None"
proof (cases "j = i")
  case True
  have "sc_get E r (WorkerKey i) \<noteq> Inr (Some raw)" for raw using sched_lawsD(1) [OF assms(1), of r "WorkerKey i" "Some raw"] assms(3) by auto
  then have "r' = r" using assms(2) unfolding True by (auto simp: RedisScheduler_Heartbeat_def Let_def split: sum.splits option.splits)
  then show ?thesis using assms(3) by simp
next
  case False
  then show ?thesis using Heartbeat_other [OF assms(1,2)] assms(3) by simp
qed

lemma Register_key:
  assumes "sched_laws E kv ss" "RedisScheduler_Register E r info ttl = (e, r')"
  shows "kv r' = kv r \<or> kv r' = (kv r)(WorkerKey (wi_WorkerID info) \<mapsto> WorkerInfo_Marshal (info\<lparr> wi_UpdatedAt := sc_now E r \<rparr>))"
proof -
  obtain err where x: "sc_exec E r [SetEx (WorkerKey (wi_WorkerID info)) (WorkerInfo_Marshal (info\<lparr> wi_UpdatedAt := sc_now E r \<rparr>)) (worker_ttl ttl),
      SAdd WorkerSet (wi_WorkerID info)] = (err, r')"
    using assms(2) by (auto simp: RedisScheduler_Register_def Let_def split: prod.splits)
  show ?thesis using sched_lawsD(4) [OF assms(1) x] by auto
qed

definition idle_key :: "'r SchedEnv \<Rightarrow> ('r \<Rightarrow> keys) \<Rightarrow> WorkerConfig \<Rightarrow> string \<Rightarrow> 'r \<Rightarrow> bool" where
  "idle_key E kv cfg i r \<longleftrightarrow> (\<forall>raw. kv r (WorkerKey i) = Some raw \<longrightarrow> idle_document E cfg i raw)"

lemma sends_step:
  assumes "sched_laws E kv ss" "sched_step E kv ss r l r'" "sends cfg i l" "idle_key E kv cfg i r"
  shows "idle_key E kv cfg i r'"
  using assms(2)
proof cases
  case (register info ttl e)
  show ?thesis
  proof (cases "wi_WorkerID info = i")
    case True
    define w where "w = info\<lparr> wi_UpdatedAt := sc_now E r \<rparr>"
    have info: "info = register_info (register_request cfg i)" using assms(3) register True by (simp add: sends_def)
    have "WorkerInfo_ok (sc_time_ok E) w"
      using register(2) sched_lawsD(5) [OF assms(1), of r] by (simp add: registrable_def WorkerInfo_ok_def w_def f64_def round_to_def max_float_def)
    moreover have "wi_Load w = 0" "wi_InFlight w = 0" "wi_Concurrency w = int32 (wc_Concurrency cfg)"
      by (simp_all add: w_def info register_info_def register_request_def zero_worker_def)
    ultimately have "idle_document E cfg i (WorkerInfo_Marshal w)" unfolding idle_document_def by blast
    then show ?thesis using Register_key [OF assms(1) register(3)] assms(4) True by (auto simp: idle_key_def w_def)
  next
    case False
    then show ?thesis using Register_key [OF assms(1) register(3)] assms(4) by (auto simp: idle_key_def)
  qed
next
  case (heartbeat n ld j ttl e)
  show ?thesis
  proof (cases "j = i")
    case True
    then have "n = 0" "ld = Finite 0" using assms(3) heartbeat(1) by (simp_all add: sends_def beat_request_def)
    then show ?thesis using beat_keeps_idle [OF assms(1)] assms(4) heartbeat(5) True unfolding idle_key_def by blast
  qed (use Heartbeat_other [OF assms(1) heartbeat(5)] assms(4) in \<open>simp add: idle_key_def\<close>)
next
  case list
  then show ?thesis using ListWorkers_frame [OF assms(1)] assms(4) by (simp add: idle_key_def)
next
  case pick
  then show ?thesis using Pick_frame [OF assms(1)] assms(4) by (simp add: idle_key_def)
next
  case expire
  then show ?thesis using assms(4) by (auto simp: idle_key_def map_le_def dom_def)
qed

lemma absent_step:
  assumes "sched_laws E kv ss" "sched_step E kv ss r l r'" "i \<notin> registered [l]" "kv r (WorkerKey i) = None"
  shows "kv r' (WorkerKey i) = None"
  using assms(2)
proof cases
  case (register info ttl e)
  then show ?thesis using Register_key [OF assms(1) register(3)] assms(3,4) by auto
next
  case heartbeat
  then show ?thesis using Heartbeat_absent [OF assms(1)] assms(4) by blast
next
  case list
  then show ?thesis using ListWorkers_frame [OF assms(1)] assms(4) by simp
next
  case pick
  then show ?thesis using Pick_frame [OF assms(1)] assms(4) by simp
next
  case expire
  then show ?thesis using assms(4) by (auto simp: map_le_def dom_def)
qed

context sched_redis
begin

lemma sends_path: "runs.path r ls r' \<Longrightarrow> \<forall>l\<in>set ls. sends cfg i l \<Longrightarrow> idle_key E kv cfg i r \<Longrightarrow> idle_key E kv cfg i r'"
  by (induction rule: runs.path.induct) (auto intro: sends_step [OF laws])

lemma absent_path: "runs.path r ls r' \<Longrightarrow> i \<notin> registered ls \<Longrightarrow> kv r (WorkerKey i) = None \<Longrightarrow> kv r' (WorkerKey i) = None"
proof (induction rule: runs.path.induct)
  case (path_cons s l s' ls s'')
  have n: "i \<notin> registered [l]" "i \<notin> registered ls" using path_cons.prems(1) registered_Cons [of l ls] by auto
  show ?case by (rule path_cons.IH [OF n(2) absent_step [OF laws path_cons.hyps(1) n(1) path_cons.prems(2)]])
qed simp

lemma idle_and_lost:
  assumes "kv r0 (WorkerKey i) = None" "runs.path r0 ls r" "\<forall>l\<in>set ls. sends cfg i l"
  shows "(\<forall>w. live E kv ss r i = Some w \<longrightarrow> wi_Load w = 0 \<and> wi_InFlight w = 0 \<and> wi_Concurrency w = int32 (wc_Concurrency cfg)) \<and>
    (kv r (WorkerKey i) = None \<longrightarrow> (\<forall>ls' r'. runs.path r ls' r' \<and> i \<notin> registered ls' \<longrightarrow> live E kv ss r' i = None))"
proof -
  have k: "idle_key E kv cfg i r" using sends_path [OF assms(2,3)] assms(1) by (simp add: idle_key_def)
  have "wi_Load w = 0 \<and> wi_InFlight w = 0 \<and> wi_Concurrency w = int32 (wc_Concurrency cfg)" if l: "live E kv ss r i = Some w" for w
  proof -
    obtain raw where raw: "kv r (WorkerKey i) = Some raw" "WorkerInfo_Unmarshal (sc_time_ok E) raw = Some w"
      using l by (auto simp: live_def bind_eq_Some_conv split: if_splits)
    then obtain u where "raw = WorkerInfo_Marshal u" "WorkerInfo_ok (sc_time_ok E) u" "wi_Load u = 0" "wi_InFlight u = 0"
      "wi_Concurrency u = int32 (wc_Concurrency cfg)" using k unfolding idle_key_def idle_document_def by blast
    then show ?thesis using raw(2) WorkerInfo_roundtrip [of "sc_time_ok E" u] by simp
  qed
  moreover have "live E kv ss r' i = None" if "kv r (WorkerKey i) = None" "runs.path r ls' r'" "i \<notin> registered ls'" for ls' r'
    using absent_path [OF that(2,3,1)] by (simp add: live_def)
  ultimately show ?thesis by blast
qed

end

text \<open>C34: whatever else happens at the scheduler, a worker that registers and sends heartbeats as runScheduler does is never known with a load
  or a run in flight: only its concurrency and id tell it apart. And once its key has expired its heartbeats do not bring it back: it is
  not live again before it registers, which its goroutine never does a second time.\<close>

theorem heartbeats_idle_and_lost:
  assumes "sched_laws E kv ss" "reads_succeed E" "kv r0 (WorkerKey i) = None"
    and "transition_system.path (sched_step E kv ss) r0 ls r" "\<forall>l\<in>set ls. sends cfg i l"
  shows "(\<forall>w. live E kv ss r i = Some w \<longrightarrow> wi_Load w = 0 \<and> wi_InFlight w = 0 \<and> wi_Concurrency w = int32 (wc_Concurrency cfg)) \<and>
    (kv r (WorkerKey i) = None \<longrightarrow>
      (\<forall>ls' r'. transition_system.path (sched_step E kv ss) r ls' r' \<and> i \<notin> registered ls' \<longrightarrow> live E kv ss r' i = None))"
  by (rule sched_redis.idle_and_lost [OF sched_redis.intro [OF assms(1,2)] assms(3-5)])

section \<open>Examples\<close>

definition demo_driver :: "unit Driver" where
  "demo_driver = \<lparr> dr_Acquire = (\<lambda>w i. (Inl ''no slot'', w)), dr_Release = (\<lambda>w sb. (None, w)),
     dr_Stats = (\<lambda>w. \<lparr> ss_PoolSize = 0, ss_PoolReady = 0, ss_InFlight = 0, ss_SpawnCount = 0, ss_DestroyCount = 0, ss_AcquireWaitMicros = 0 \<rparr>) \<rparr>"

text \<open>A machine where nothing can be dialled.\<close>

definition demo_worker_env :: "unit WorkerEnv" where
  "demo_worker_env = \<lparr> we_U = ascii_unicode, we_tool_env = \<lparr> tv_U = ascii_unicode, tv_json_err = id, tv_float = id \<rparr>, we_hostname = ''w1'',
     we_NewTraceID = (\<lambda>w. (''t'', w)), we_etcd = deaf_etcd, we_redis = (\<lambda>w a p d. (None, w)), we_open_ai = (\<lambda>p w req. (Inr [], w)),
     we_stream = (\<lambda>p w req. (Inr [], w)), we_create_group = (\<lambda>w s g. (None, w)), we_memory = (\<lambda>w root n. (Inr demo_driver, w)),
     we_docker = (\<lambda>w opt. (Inl ''no docker'', w)), we_agent_docker = (\<lambda>w n. (Inl ''no docker'', w)), we_close_driver = (\<lambda>w d. w),
     we_dial = (\<lambda>w a. (Some ''refused'', w)), we_close_conn = (\<lambda>w a. w), we_skill = (\<lambda>w q. (Inr [], w)), we_now = (\<lambda>w. 0),
     we_map_order = id, we_cache = (\<lambda>w. []), we_set_cache = (\<lambda>es w. w), we_rag = (\<lambda>w t q n x. (Inr [], w)),
     we_hook = (\<lambda>w e r t p. (Inl ''refused'', w)),
     we_history = \<lparr> hs_Append = (\<lambda>w r m. (Inr ''m'', w)), hs_Render = (\<lambda>w r. (Inr [], w)), hs_Fold = (\<lambda>w r a b c. (Inr ''f'', w)) \<rparr>,
     we_publish = (\<lambda>w r e. (None, w)), we_parse_url = (\<lambda>u. Inl ''bad url''), we_http = (\<lambda>w a b c d n. (Inl ''refused'', w)),
     we_deadline = (\<lambda>w n. w), we_elapsed = (\<lambda>w. (0, w)), we_since = (\<lambda>w. (0, w)), we_bus_publish = (\<lambda>w c e. (None, w)), we_json_err = id \<rparr>"

definition worker_vars :: "string \<rightharpoonup> string" where
  "worker_vars = [''LLM_PROVIDER'' \<mapsto> ''mock'', ''SANDBOX_DRIVER'' \<mapsto> ''memory'', ''HOOK_ENABLED'' \<mapsto> ''true'', ''HOOK_FAIL_CLOSED'' \<mapsto> ''true'']"

lemma worker_config:
  "\<exists>c. LoadWorker (simple_env worker_vars) = Inr c \<and> wc_LLMProvider c = ''mock'' \<and> wc_SandboxDriver c = ''memory'' \<and>
     cm_HookEnabled (wc_Common c) \<and> cm_HookFailClosed (wc_Common c) \<and> wc_Concurrency c = 4"
  by (simp add: LoadWorker_def parse_Worker_def parse_Common_def worker_vars_def config_eval)

lemma demo_worker_parts:
  "dial_if demo_worker_env b addr w = (False, ())"
  "wc_SandboxDriver c = ''memory'' \<Longrightarrow> makeSandboxDriver demo_worker_env c w = (Inr demo_driver, ())"
  "wc_SandboxDriver c = ''memory'' \<Longrightarrow> agent_driver demo_worker_env c d w = (None, ())"
  "ensure_group demo_worker_env w strm grp = (None, ())"
  "we_redis demo_worker_env w ad pw d2 = (None, ())"
  "we_stream demo_worker_env p = (\<lambda>w req. (Inr [], w))"
  "worker_id demo_worker_env w = (''w1'', ())"
  "we_open_ai demo_worker_env = (\<lambda>p w req. (Inr [], w))" "we_U demo_worker_env = ascii_unicode"
  by (simp_all add: dial_if_def makeSandboxDriver_def agent_driver_def ensure_group_def EnsureGroup_def worker_id_def demo_worker_env_def)

lemma demo_worker_serves:
  "\<exists>k c. worker_main demo_worker_env (simple_env worker_vars) () = (Serves k, ()) \<and> wk_Tools k \<noteq> None \<and> wk_Config k = c \<and>
     cm_HookEnabled (wc_Common c) \<and> cm_HookFailClosed (wc_Common c)"
proof -
  obtain c where c: "LoadWorker (simple_env worker_vars) = Inr c" "wc_LLMProvider c = ''mock''" "wc_SandboxDriver c = ''memory''"
    "cm_HookEnabled (wc_Common c)" "cm_HookFailClosed (wc_Common c)" using worker_config by blast
  have p: "NewFromConfig ascii_unicode f (factory_config c) = Inr (MockProvider (mock_tokens []))" for f :: "OpenAIProvider \<Rightarrow> unit provider"
    using c(2) by (simp add: NewFromConfig_def factory_config_def ToLower_id ord_def ascii_unicode_def)
  let ?k = "build_worker demo_worker_env c ''w1'' (\<lambda>w req. (Inr [], w)) (Some demo_driver) None False False False"
  have a: "assemble demo_worker_env c ''w1'' (\<lambda>w req. (Inr [], w)) () =
      (Serves (?k\<lparr> wk_ToolConsumers := worker_names ''w1'' ''-tool-'' (tool_concurrency c) \<rparr>), ())"
    by (simp add: assemble_def demo_worker_parts c(3) opt_driver_def Let_def)
  have "worker_main demo_worker_env (simple_env worker_vars) () = assemble demo_worker_env c ''w1'' (\<lambda>w req. (Inr [], w)) ()"
    using p by (simp add: worker_main_def c(1) demo_worker_parts Let_def)
  then show ?thesis unfolding a using c(4,5) by (simp add: build_worker_def Let_def)
qed

theorem worker_wired_witness:
  "\<exists>k. worker_main demo_worker_env (simple_env worker_vars) () = (Serves k, ()) \<and> WorkerConfig_ok (wk_Config k) \<and> wk_ToolConsumers k \<noteq> [] \<and> wired demo_worker_env k"
proof -
  obtain k c where k: "worker_main demo_worker_env (simple_env worker_vars) () = (Serves k, ())" "wk_Tools k \<noteq> None"
    using demo_worker_serves by blast
  show ?thesis using worker_wired [OF k(1)] k by blast
qed

theorem unreachable_hooks_fail_open_witness:
  "\<exists>k. worker_main demo_worker_env (simple_env worker_vars) () = (Serves k, ()) \<and> cm_HookFailClosed (wc_Common (wk_Config k)) \<and>
     ar_HookClient (wk_Runner k) = None"
proof -
  obtain k where k: "worker_main demo_worker_env (simple_env worker_vars) () = (Serves k, ())"
    "cm_HookEnabled (wc_Common (wk_Config k))" "cm_HookFailClosed (wc_Common (wk_Config k))"
    using demo_worker_serves by blast
  have "\<forall>v. fst (we_dial demo_worker_env v (cm_HookServiceAddr (wc_Common (wk_Config k)))) \<noteq> None" by (simp add: demo_worker_env_def)
  then show ?thesis using unreachable_hooks_fail_open [OF k] k by blast
qed

theorem heartbeats_idle_and_lost_witness:
  "\<exists>c. LoadWorker (simple_env worker_vars) = Inr c \<and>
    map_option wi_Concurrency (live mem_sched mem_keys mem_sets (snd (RedisScheduler_Register mem_sched (Map.empty, \<lambda>k. [])
      (register_info (register_request c ''w1'')) fifteen_seconds)) ''w1'') = Some 4"
proof -
  obtain c where c: "LoadWorker (simple_env worker_vars) = Inr c" "wc_Concurrency c = 4" using worker_config by blast
  define info where "info = register_info (register_request c ''w1'')"
  define r where "r = snd (RedisScheduler_Register mem_sched (Map.empty, \<lambda>k. []) info fifteen_seconds)"
  have i: "registrable info"
    by (simp add: info_def registrable_def register_info_def register_request_def zero_worker_def ValidString_ascii ord_def c(2) int32_def)
  obtain e where e: "RedisScheduler_Register mem_sched (Map.empty, \<lambda>k. []) info fifteen_seconds = (e, r)"
    unfolding r_def by (metis prod.collapse)
  have "sched_step mem_sched mem_keys mem_sets (Map.empty, \<lambda>k. []) (LRegister info fifteen_seconds) r"
    by (rule sched_step.register [OF i e])
  then have p: "transition_system.path (sched_step mem_sched mem_keys mem_sets) (Map.empty, \<lambda>k. []) [LRegister info fifteen_seconds] r"
    by (rule mem_registry.runs.path_cons) (rule mem_registry.runs.path_nil)
  have s: "\<forall>l\<in>set [LRegister info fifteen_seconds]. sends c ''w1'' l" by (simp add: sends_def info_def)
  have m: "mem_keys (Map.empty, \<lambda>k. []) (WorkerKey ''w1'') = None" by (simp add: mem_keys_def)
  note h = heartbeats_idle_and_lost [OF mem_sched_laws mem_sched_reads m p s]
  let ?w = "info\<lparr> wi_UpdatedAt := ''2025-01-01T00:00:00Z'' \<rparr>"
  have "WorkerInfo_ok (\<lambda>s. True) ?w"
    using i by (simp add: WorkerInfo_ok_def registrable_def ValidString_ascii ord_def f64_def round_to_def max_float_def)
  moreover have "mem_keys r (WorkerKey ''w1'') = Some (WorkerInfo_Marshal ?w)" "mem_sets r WorkerSet = {''w1''}"
    by (simp_all add: r_def RedisScheduler_Register_def mem_sched_def mem_keys_def mem_sets_def info_def register_info_def register_request_def Let_def)
  ultimately have "live mem_sched mem_keys mem_sets r ''w1'' = Some ?w"
    using WorkerInfo_roundtrip by (simp add: live_def mem_sched_def)
  then show ?thesis using h c by (auto simp: r_def [symmetric] info_def [symmetric] int32_def)
qed

end
