(* ===== verification/Processes.thy ===== *)
theory Processes
  imports ControlHttp Rag Skill WorkerMain
begin

text \<open>
  The start of the other processes - cmd/gateway/main.go, cmd/ragd, cmd/hookd, cmd/skilld, cmd/controlplane and the HTTP views of
  cmd/scheduler/main.go - and the RPCs of ragd. A start ends in a panic, an exit, or a process that serves what was built from its
  configuration. Telemetry, logging, signals and graceful stops are left out.
\<close>

section \<open>Environment\<close>

record 'w ProcEnv =
  pv_lib :: EnvLib
  pv_U :: Unicode
  pv_hostname :: "(string, string) result"
  pv_etcd :: "'w EtcdEnv"
  pv_redis :: "'w \<Rightarrow> string \<Rightarrow> string \<Rightarrow> int \<Rightarrow> string option \<times> 'w"
  pv_create_group :: "'w \<Rightarrow> string \<Rightarrow> string \<Rightarrow> string option \<times> 'w"
  pv_dial :: "'w \<Rightarrow> string \<Rightarrow> string option \<times> 'w"
  pv_listen :: "'w \<Rightarrow> string \<Rightarrow> string option \<times> 'w"
  pv_cache :: "'w EventCache"
  pv_pg_open :: "'w \<Rightarrow> string \<Rightarrow> string option \<times> 'w"
  pv_pg_exec :: "'w \<Rightarrow> pg_stmt \<Rightarrow> pg_arg list \<Rightarrow> string option \<times> 'w"
  pv_pg_close :: "'w \<Rightarrow> 'w"
  pv_rag_store :: "'w RagStore"
  pv_walk :: "string \<Rightarrow> (string \<times> string \<times> bool \<times> string option) list"
  pv_files :: FileSystem
  pv_docker :: "'w \<Rightarrow> string option \<times> 'w"
  pv_client :: "'w \<Rightarrow> string \<Rightarrow> string option \<times> 'w"
  pv_cp :: "'w CpEnv"
  pv_index :: "'w \<Rightarrow> string \<Rightarrow> bool"
  pv_time :: "int \<Rightarrow> string"
  pv_json_error :: "string \<Rightarrow> string"
  pv_err :: "cp_error \<Rightarrow> string"

datatype 'p boot = BootPanics string | BootExits string | BootServes 'p

text \<open>The name of a process on this host, and its registration, whose error is only logged.\<close>

definition hostnameID :: "'w ProcEnv \<Rightarrow> string \<Rightarrow> string" where
  "hostnameID E pre = (case pv_hostname E of Inl e \<Rightarrow> pre | Inr name \<Rightarrow> if name = [] then pre else pre @ ''-'' @ name)"

definition register_self :: "'w ProcEnv \<Rightarrow> CommonConfig \<Rightarrow> string \<Rightarrow> string \<Rightarrow> 'w \<Rightarrow> 'w" where
  "register_self E c service addr w =
     (if cm_DiscoveryEnabled c
      then snd (Discovery_Register (pv_etcd E) w (cm_EtcdEndpoints c)
        \<lparr> in_Service = service, in_ID = hostnameID E service, in_Addr = addr, in_Metadata = [], in_UpdatedAt = 0 \<rparr> 10)
      else w)"

section \<open>The gateway\<close>

text \<open>Whether the RAG proxy is connected; where ACP is served, and by which server; the cache of its events; the time limits.\<close>

record 'w gateway =
  gp_RAG :: bool
  gp_ACPAddr :: "string option"
  gp_ACPServer :: Server
  gp_Cache :: "'w EventCache"
  gp_Tools :: "'w Registry"
  gp_RunTimeout :: int
  gp_ToolTimeout :: int

definition newRAGHandler :: "'w ProcEnv \<Rightarrow> 'w \<Rightarrow> string \<Rightarrow> string option \<times> 'w" where
  "newRAGHandler E w addr = (if addr = [] then (Some ''RAG_SERVICE_ADDR is required when RAG_ENABLED=true'', w) else pv_dial E w addr)"

definition gateway_proc :: "'w ProcEnv \<Rightarrow> ToolEnv \<Rightarrow> 'w HTTPFetchTool \<Rightarrow> GatewayConfig \<Rightarrow> bool \<Rightarrow> 'w gateway" where
  "gateway_proc E V http cfg rag =
     \<lparr> gp_RAG = rag, gp_ACPAddr = (if gc_ACPAddr cfg = [] then None else Some (gc_ACPAddr cfg)),
        gp_ACPServer = NewServer \<lparr> sc_ReadTimeout = gc_ACPReadTimeout cfg, sc_WriteTimeout = 0, sc_MaxConnections = gc_ACPMaxConnections cfg,
          sc_ShutdownTimeout = 0 \<rparr>,
        gp_Cache = NewEventCache (pv_cache E) (gc_ACPCacheTTL cfg), gp_Tools = Builtins V http,
        gp_RunTimeout = gc_RunTimeout cfg, gp_ToolTimeout = gc_ToolCallTimeout cfg \<rparr>"

definition make_group :: "'w ProcEnv \<Rightarrow> 'w \<Rightarrow> string \<Rightarrow> string \<Rightarrow> string option \<times> 'w" where
  "make_group E w stream grp = (let (e, w1) = pv_create_group E w stream grp in (EnsureGroup e, w1))"

definition gateway_main :: "'w ProcEnv \<Rightarrow> ToolEnv \<Rightarrow> 'w HTTPFetchTool \<Rightarrow> 'w \<Rightarrow> 'w gateway boot \<times> 'w" where
  "gateway_main E V http w =
     (case LoadGateway (pv_lib E) of
        Inl e \<Rightarrow> (BootPanics e, w)
      | Inr cfg \<Rightarrow>
          (let c = gc_Common cfg; w1 = register_self E c ''gateway'' (gc_GRPCAddr cfg) w
           in case pv_redis E w1 (cm_RedisAddr c) (cm_RedisPassword c) (cm_RedisDB c) of
                (Some e, w2) \<Rightarrow> (BootExits e, w2)
              | (None, w2) \<Rightarrow>
                  (case make_group E w2 (q_stream NewStream) ''workers'' of
                     (Some e, w3) \<Rightarrow> (BootExits e, w3)
                   | (None, w3) \<Rightarrow>
                       (case make_group E w3 (q_stream NewToolStream) ''tool-runtime'' of
                          (Some e, w4) \<Rightarrow> (BootExits e, w4)
                        | (None, w4) \<Rightarrow>
                            (let (rag, w5) = (if cm_RAGEnabled c then (let (e, v) = newRAGHandler E w4 (cm_RAGServiceAddr c) in (e = None, v)) else (False, w4))
                             in case pv_listen E w5 (gc_GRPCAddr cfg) of
                                  (Some e, w6) \<Rightarrow> (BootExits e, w6)
                                | (None, w6) \<Rightarrow> (BootServes (gateway_proc E V http cfg rag), w6))))))"

section \<open>ragd\<close>

text \<open>The service: a store, and the dimension of its embedder.\<close>

definition newRAGService :: "'w ProcEnv \<Rightarrow> 'w \<Rightarrow> string \<Rightarrow> int \<Rightarrow> (rag_error, int) result \<times> 'w" where
  "newRAGService E w dsn ndim =
     (if dsn = [] then (Inl (StoreError ''POSTGRES_DSN is required''), w)
      else (case NewHashEmbedder ndim of
          Inl e \<Rightarrow> (Inl e, w)
        | Inr d \<Rightarrow>
            (case pv_pg_open E w dsn of
               (Some e, w1) \<Rightarrow> (Inl (StoreError e), w1)
             | (None, w1) \<Rightarrow>
                 (case EnsureSchema (pv_pg_exec E) w1 d of
                    (Some e, w2) \<Rightarrow> (Inl e, pv_pg_close E w2)
                  | (None, w2) \<Rightarrow> (Inr d, w2)))))"

definition ragd_main :: "'w ProcEnv \<Rightarrow> 'w \<Rightarrow> int boot \<times> 'w" where
  "ragd_main E w =
     (case LoadRAG (pv_lib E) of
        Inl e \<Rightarrow> (BootPanics e, w)
      | Inr cfg \<Rightarrow>
          (let c = rc_Common cfg
           in case newRAGService E w (cm_PostgresDSN c) (cm_RAGEmbedDim c) of
                (Inl e, w1) \<Rightarrow> (BootExits ''rag init'', w1)
              | (Inr d, w1) \<Rightarrow>
                  (case pv_listen E w1 (rc_RAGGRPCAddr cfg) of
                     (Some e, w2) \<Rightarrow> (BootExits e, w2)
                   | (None, w2) \<Rightarrow> (BootServes d, register_self E c ''ragd'' (rc_RAGGRPCAddr cfg) w2))))"

definition toPBChunks :: "RagResult list \<Rightarrow> pb_chunk list" where
  "toPBChunks results = map (\<lambda>r. (ck_TenantID r, ck_Source r, ck_ChunkID r, ck_Ordinal r mod 2 ^ 32, ck_Content r,
     rr_Score r, rr_VectorScore r, rr_TextScore r)) results"

definition ragd_embed :: "'w ProcEnv \<Rightarrow> int \<Rightarrow> (string \<Rightarrow> (rag_error, rat list) result) option" where
  "ragd_embed E d = Some (Embed (pv_U E) d)"

text \<open>The answer names the tenant and the source of the first chunk; indexing a list of no chunks would panic.\<close>

definition ragd_IngestRAG :: "'w ProcEnv \<Rightarrow> int \<Rightarrow> 'w \<Rightarrow> string \<Rightarrow> string \<Rightarrow> string \<Rightarrow>
    ((rag_error, string \<times> string \<times> nat \<times> string list) result outcome \<times> 'w) option" where
  "ragd_IngestRAG E d w tenantID source content =
     map_option (\<lambda>(r, w1). (case r of
           Panicked \<Rightarrow> Panicked
         | Returned (Inl e) \<Rightarrow> Returned (Inl e)
         | Returned (Inr []) \<Rightarrow> Panicked
         | Returned (Inr (c # cs)) \<Rightarrow> Returned (Inr (ck_TenantID c, ck_Source c, nat (int (length (c # cs)) mod 2 ^ 32), map ck_ChunkID (c # cs))), w1))
       (IngestText (Some (pv_rag_store E)) (ragd_embed E d) w tenantID source content)"

definition ragd_Retrieve :: "'w ProcEnv \<Rightarrow> int \<Rightarrow> 'w \<Rightarrow> string \<Rightarrow> string \<Rightarrow> nat \<Rightarrow> rat \<Rightarrow> (rag_error, RagResult list) result \<times> 'w" where
  "ragd_Retrieve E d w tenantID query topK minScore =
     Retrieve (Some (pv_rag_store E)) (ragd_embed E d) (Some (Rerank (pv_U E))) w tenantID query (int topK) minScore"

definition ragd_QueryRAG :: "'w ProcEnv \<Rightarrow> int \<Rightarrow> 'w \<Rightarrow> string \<Rightarrow> string \<Rightarrow> nat \<Rightarrow> rat \<Rightarrow> (rag_error, pb_chunk list) result \<times> 'w" where
  "ragd_QueryRAG E d w tenantID query topK minScore =
     (let (r, w1) = ragd_Retrieve E d w tenantID query topK minScore in (map_sum id toPBChunks r, w1))"

definition ragd_RetrieveContext :: "'w ProcEnv \<Rightarrow> int \<Rightarrow> 'w \<Rightarrow> string \<Rightarrow> string \<Rightarrow> nat \<Rightarrow> rat \<Rightarrow> (rag_error, pb_chunk list \<times> string) result \<times> 'w" where
  "ragd_RetrieveContext E d w tenantID query topK minScore =
     (let (r, w1) = ragd_Retrieve E d w tenantID query topK minScore in (map_sum id (\<lambda>rs. (toPBChunks rs, RenderRag (pv_U E) rs)) r, w1))"

section \<open>hookd, skilld and the control plane\<close>

definition hookd_main :: "'w ProcEnv \<Rightarrow> 'w \<Rightarrow> Engine boot \<times> 'w" where
  "hookd_main E w =
     (case LoadHook (pv_lib E) of
        Inl e \<Rightarrow> (BootPanics e, w)
      | Inr cfg \<Rightarrow>
          (let c = hk_Common cfg; engine = LoadWithConfig (cm_HookRoot c) (cm_HookTimeout c) (cm_HookMaxStdoutBytes c) (pv_walk E)
           in case pv_listen E w (hk_HookGRPCAddr cfg) of
                (Some e, w1) \<Rightarrow> (BootExits e, w1)
              | (None, w1) \<Rightarrow> (BootServes engine, register_self E c ''hookd'' (hk_HookGRPCAddr cfg) w1)))"

text \<open>A directory that cannot be indexed gives an empty index.\<close>

definition skilld_main :: "'w ProcEnv \<Rightarrow> 'w \<Rightarrow> (SkillIndex \<times> int) boot \<times> 'w" where
  "skilld_main E w =
     (case LoadSkill (pv_lib E) of
        Inl e \<Rightarrow> (BootPanics e, w)
      | Inr cfg \<Rightarrow>
          (let ix = (case Indexer_Load (pv_U E) (pv_files E) (sk_SkillRoot cfg) of Inl e \<Rightarrow> empty_index | Inr ix \<Rightarrow> ix);
               topK = (if sk_SkillTopK cfg \<le> 0 then 3 else sk_SkillTopK cfg)
           in case pv_listen E w (sk_SkillGRPCAddr cfg) of
                (Some e, w1) \<Rightarrow> (BootExits e, w1)
              | (None, w1) \<Rightarrow> (BootServes (ix, topK), register_self E (sk_Common cfg) ''skilld'' (sk_SkillGRPCAddr cfg) w1)))"

definition controlplane_main :: "'w ProcEnv \<Rightarrow> 'w \<Rightarrow> 'w HTTPServer boot \<times> 'w" where
  "controlplane_main E w =
     (case LoadControlPlane (pv_lib E) of
        Inl e \<Rightarrow> (BootExits e, w)
      | Inr cfg \<Rightarrow>
          (let c = cpc_Common cfg
           in case OpenStore (cp_pg (pv_cp E)) w (cm_PostgresDSN c) of
                (Some e, w1) \<Rightarrow> (BootExits (''controlplane postgres: '' @ pv_err E e), w1)
              | (None, w1) \<Rightarrow>
                  (case pv_redis E w1 (cm_RedisAddr c) (cm_RedisPassword c) (cm_RedisDB c) of
                     (Some e, w2) \<Rightarrow> (BootExits (''controlplane redis: '' @ e), w2)
                   | (None, w2) \<Rightarrow>
                       (case pv_docker E w2 of
                          (Some e, w3) \<Rightarrow> (BootExits (''controlplane docker: '' @ e), w3)
                        | (None, w3) \<Rightarrow>
                            (case pv_client E w3 (cpc_GatewayDial cfg) of
                               (Some e, w4) \<Rightarrow> (BootExits (''controlplane gateway: '' @ e), w4)
                             | (None, w4) \<Rightarrow>
                                 (BootServes \<lparr> hs_cp = (pv_cp E)\<lparr> cp_image := cpc_AgentDefaultImage cfg \<rparr>, hs_StaticDir = cpc_WebDistDir cfg,
                                    hs_index = pv_index E, hs_time = pv_time E, hs_json_error = pv_json_error E \<rparr>, w4))))))"

section \<open>The HTTP views of the scheduler\<close>

text \<open>Status and body.\<close>

definition http_workers :: "(sched_error \<Rightarrow> string) \<Rightarrow> 'r SchedEnv \<Rightarrow> 'r \<Rightarrow> (int \<times> string) \<times> 'r" where
  "http_workers err E r =
     (case RedisScheduler_List E r of
        (Inl e, r1) \<Rightarrow> ((500, err e @ [CHR 0x0A]), r1)
      | (Inr ws, r1) \<Rightarrow> ((200, Marshal (JArr (map (\<lambda>w. struct_obj (WorkerInfo_fields w)) ws)) @ [CHR 0x0A]), r1))"

definition http_leader :: "schedulerService \<Rightarrow> (string, string list) result \<Rightarrow> string \<times> schedulerService" where
  "http_leader sv0 etcd =
     (let (leader, sv) = leaderInfo sv0 etcd
      in (Marshal (JObj [(''is_leader'', JBool (case sv_elector sv of None \<Rightarrow> True | Some e \<Rightarrow> IsLeader e)), (''leader_addr'', JStr (li_Addr leader)),
            (''leader_id'', JStr (li_ID leader)), (''raft_mode'', JBool (sv_raftEnabled sv))]) @ [CHR 0x0A], sv))"

section \<open>Retrieval over the wire\<close>

text \<open>What the wire keeps of a result: not its embedding, and its ordinal as a 32-bit number.\<close>

definition over_wire :: "RagResult \<Rightarrow> RagResult" where
  "over_wire r = r\<lparr> ck_Embedding := [], ck_Ordinal := ck_Ordinal r mod 2 ^ 32 \<rparr>"

lemma ResultsFromPB_toPBChunks: "ResultsFromPB (toPBChunks rs) = map over_wire rs"
  by (simp add: ResultsFromPB_def toPBChunks_def over_wire_def)

lemma RenderRag_over_wire: "RenderRag U (map over_wire rs) = RenderRag U rs"
proof -
  have "map (\<lambda>(i, r). [CHR 0x0A] @ ''<untrusted source='' @ Quote U (ck_Source r) @ '' chunk_id='' @ Quote U (ck_ChunkID r) @
          '' score='' @ fmt4 (rr_Score r) @ '' index='' @ Itoa (int i) @ ''>'' @ [CHR 0x0A] @
          TrimSpace (ck_Content r) @ [CHR 0x0A] @ ''</untrusted>'' @ [CHR 0x0A]) (enumerate n (map over_wire rs)) =
        map (\<lambda>(i, r). [CHR 0x0A] @ ''<untrusted source='' @ Quote U (ck_Source r) @ '' chunk_id='' @ Quote U (ck_ChunkID r) @
          '' score='' @ fmt4 (rr_Score r) @ '' index='' @ Itoa (int i) @ ''>'' @ [CHR 0x0A] @
          TrimSpace (ck_Content r) @ [CHR 0x0A] @ ''</untrusted>'' @ [CHR 0x0A]) (enumerate n rs)" for n
    by (induction rs arbitrary: n) (simp_all add: over_wire_def)
  then show ?thesis by (simp add: RenderRag_def)
qed

text \<open>The retriever of a worker that is connected to ragd.\<close>

definition rag_client :: "'w ProcEnv \<Rightarrow> int \<Rightarrow> (rag_error \<Rightarrow> string) \<Rightarrow> 'w \<Rightarrow> string \<Rightarrow> string \<Rightarrow> nat \<Rightarrow> rat \<Rightarrow> (string, pb_chunk list) result \<times> 'w" where
  "rag_client E d err w tenantID query topK minScore =
     (let (r, w1) = ragd_RetrieveContext E d w tenantID query topK minScore in (map_sum err fst r, w1))"

text \<open>C24: a worker that retrieves through ragd gets what ragd retrieves: the same error, or results from which the agent renders exactly the
  context ragd renders; and ragd and its ingestion never panic: an accepted text has at least one chunk.\<close>

theorem rag_over_grpc:
  "(\<exists>r w'. ragd_IngestRAG E d w t s c = Some (Returned r, w')) \<and>
   (case ragd_RetrieveContext E d w t q (nat (k mod 2 ^ 32)) m of
      (Inl e, w1) \<Rightarrow> GRPCRetrieve (Some (rag_client E d err)) w t q k m = (Inl (err e), w1)
    | (Inr (chunks, rendered), w1) \<Rightarrow>
        GRPCRetrieve (Some (rag_client E d err)) w t q k m = (Inr (ResultsFromPB chunks), w1) \<and>
        RenderRag (pv_U E) (ResultsFromPB chunks) = rendered)"
proof
  obtain x where C: "ChunkText t s c (Embed (pv_U E) d) = Some x" and ok: "\<And>cs. x = Inr cs \<Longrightarrow> chunks_ok (ingest_tenant t) (ingest_source s) cs"
    using ChunkText_ok by blast
  show "\<exists>r w'. ragd_IngestRAG E d w t s c = Some (Returned r, w')"
  proof (cases x)
    case (Inl e)
    then show ?thesis by (simp add: ragd_IngestRAG_def ragd_embed_def IngestText_def C)
  next
    case (Inr cs)
    then obtain c0 cs0 where "cs = c0 # cs0" using ok by (cases cs) (auto simp: chunks_ok_def)
    then show ?thesis
      by (auto simp: ragd_IngestRAG_def ragd_embed_def IngestText_def C Inr split: prod.splits option.splits)
  qed
  obtain r w1 where "ragd_Retrieve E d w t q (nat (k mod 2 ^ 32)) m = (r, w1)" by (rule prod.exhaust)
  then show "case ragd_RetrieveContext E d w t q (nat (k mod 2 ^ 32)) m of
      (Inl e, w1) \<Rightarrow> GRPCRetrieve (Some (rag_client E d err)) w t q k m = (Inl (err e), w1)
    | (Inr (chunks, rendered), w1) \<Rightarrow>
        GRPCRetrieve (Some (rag_client E d err)) w t q k m = (Inr (ResultsFromPB chunks), w1) \<and>
        RenderRag (pv_U E) (ResultsFromPB chunks) = rendered"
    by (cases r) (simp_all add: GRPCRetrieve_def rag_client_def ragd_RetrieveContext_def ResultsFromPB_toPBChunks RenderRag_over_wire)
qed

text \<open>A worker that selects through skilld gets what skilld's selector selects, however many skills it asks for.\<close>

lemma skills_over_grpc:
  "GRPCSelector_Select (Some (\<lambda>w req. (Inr (SelectSkills U ix k req), w))) n w q = (Inr (RuleSelector_Select U ix k q), w)"
proof -
  have "map ((\<lambda>(n, d, h, p, c). \<lparr> sk_Name = n, sk_Description = d, sk_SHA256 = h, sk_Path = p, sk_Content = c \<rparr>) \<circ>
      (\<lambda>s. (sk_Name s, sk_Description s, sk_SHA256 s, sk_Path s, sk_Content s))) xs = xs" for xs :: "Skill list"
    by (rule map_idI) simp
  then show ?thesis by (simp add: GRPCSelector_Select_def SelectSkills_def)
qed

end
