(* ===== verification/RedisClient.thy ===== *)
theory RedisClient
  imports Prelude
begin

text \<open>
  internal/storage/redis/client.go: the connection to Redis that every process opens first. The client, the clock and the context are
  operations of an environment on a world; durations are in nanoseconds.
\<close>

text \<open>A ping ends after two seconds at the latest. Waiting gives the error of the context when that is over first.\<close>

record 'w PingEnv =
  pe_now :: "'w \<Rightarrow> int"
  pe_ping :: "'w \<Rightarrow> string option \<times> 'w"
  pe_wait :: "'w \<Rightarrow> int \<Rightarrow> string option \<times> 'w"
  pe_close :: "'w \<Rightarrow> 'w"

abbreviation millisecond :: int where "millisecond \<equiv> 1000000"

definition next_backoff :: "int \<Rightarrow> int" where
  "next_backoff b = (if b < 2000 * millisecond then 2 * b else b)"

text \<open>The loop has no end of its own: None is that it never returns.\<close>

partial_function (option) ping_loop :: "'w PingEnv \<Rightarrow> int \<Rightarrow> int \<Rightarrow> 'w \<Rightarrow> ((string, unit) result \<times> 'w) option" where
  "ping_loop E deadline b w =
     (case pe_ping E w of
        (None, w1) \<Rightarrow> Some (Inr (), w1)
      | (Some e, w1) \<Rightarrow>
          if pe_now E w1 > deadline then Some (Inl (''redis ping after retries: '' @ e), pe_close E w1)
          else (case pe_wait E w1 b of
              (Some e2, w2) \<Rightarrow> Some (Inl e2, pe_close E w2)
            | (None, w2) \<Rightarrow> ping_loop E deadline (next_backoff b) w2))"

definition redis_New :: "'w PingEnv \<Rightarrow> 'w \<Rightarrow> ((string, unit) result \<times> 'w) option" where
  "redis_New E w = ping_loop E (pe_now E w + 30000 * millisecond) (200 * millisecond) w"

text \<open>The clock does not go back, a wait that is not cut short lasts as long as asked, and pings counts the pings.\<close>

definition ping_laws :: "'w PingEnv \<Rightarrow> ('w \<Rightarrow> nat) \<Rightarrow> bool" where
  "ping_laws E pings \<longleftrightarrow>
     (\<forall>w. pe_now E w \<le> pe_now E (snd (pe_ping E w)) \<and> pings (snd (pe_ping E w)) = pings w + 1) \<and>
     (\<forall>w b. fst (pe_wait E w b) = None \<longrightarrow> pe_now E w + b \<le> pe_now E (snd (pe_wait E w b))) \<and>
     (\<forall>w b. pings (snd (pe_wait E w b)) = pings w) \<and> (\<forall>w. pings (pe_close E w) = pings w)"

text \<open>The time of the first n waits.\<close>

fun waited :: "int \<Rightarrow> nat \<Rightarrow> int" where
  "waited b 0 = 0"
| "waited b (Suc n) = b + waited (next_backoff b) n"

lemma ping_loop_returns:
  assumes "ping_laws E pings" "deadline < pe_now E w + waited b n"
  shows "\<exists>r w'. ping_loop E deadline b w = Some (r, w') \<and> pings w' \<le> pings w + n + 1 \<and> (\<forall>u. r = Inr u \<longrightarrow> (\<exists>v. pe_ping E v = (None, w')))"
  using assms(2)
proof (induction n arbitrary: b w)
  case 0
  obtain e w1 where p: "pe_ping E w = (e, w1)" by (rule prod.exhaust)
  have l: "pe_now E w \<le> pe_now E w1" "pings w1 = pings w + 1" using assms(1) p unfolding ping_laws_def by (metis snd_conv)+
  have c: "pings (pe_close E w1) = pings w1" using assms(1) unfolding ping_laws_def by blast
  show ?case using 0 p l c by (subst ping_loop.simps) (auto split: option.splits)
next
  case (Suc n)
  obtain e w1 where p: "pe_ping E w = (e, w1)" by (rule prod.exhaust)
  obtain e2 w2 where q: "pe_wait E w1 b = (e2, w2)" by (rule prod.exhaust)
  have l: "pe_now E w \<le> pe_now E w1" "pings w1 = pings w + 1" using assms(1) p unfolding ping_laws_def by (metis snd_conv)+
  have c: "pings (pe_close E v) = pings v" for v using assms(1) unfolding ping_laws_def by blast
  have m: "pings w2 = pings w1" using assms(1) q unfolding ping_laws_def by (metis snd_conv)
  have t: "pe_now E w1 + b \<le> pe_now E w2" if "e2 = None" using assms(1) q that unfolding ping_laws_def by (metis fst_conv snd_conv)
  show ?case
  proof (cases "e \<noteq> None \<and> \<not> pe_now E w1 > deadline \<and> e2 = None")
    case True
    have "deadline < pe_now E w2 + waited (next_backoff b) n" using Suc.prems l(1) t True by simp
    then obtain r w' where "ping_loop E deadline (next_backoff b) w2 = Some (r, w')" "pings w' \<le> pings w2 + n + 1"
      "\<forall>u. r = Inr u \<longrightarrow> (\<exists>v. pe_ping E v = (None, w'))" using Suc.IH by blast
    then show ?thesis using True p q l m by (subst ping_loop.simps) auto
  next
    case False
    then show ?thesis using p q l m c by (subst ping_loop.simps) (auto split: option.splits)
  qed
qed

text \<open>C33: the connection to Redis is never waited for without end: after at most fourteen pings redis_New returns, and it returns a client
  only when the last ping was answered.\<close>

theorem redis_New_returns:
  assumes "ping_laws E pings"
  shows "\<exists>r w'. redis_New E w = Some (r, w') \<and> pings w' \<le> pings w + 14 \<and> (\<forall>u. r = Inr u \<longrightarrow> (\<exists>v. pe_ping E v = (None, w')))"
  using ping_loop_returns [OF assms, of "pe_now E w + 30000 * millisecond" w "200 * millisecond" 13]
  by (simp add: redis_New_def next_backoff_def eval_nat_numeral)

section \<open>Examples\<close>

text \<open>A server that is down: the clock, and the number of pings. The bound is reached.\<close>

definition down_env :: "(int \<times> nat) PingEnv" where
  "down_env = \<lparr> pe_now = fst, pe_ping = (\<lambda>(t, n). (Some ''refused'', (t, n + 1))), pe_wait = (\<lambda>(t, n) b. (None, (t + b, n))), pe_close = id \<rparr>"

theorem redis_New_returns_witness:
  "\<exists>w'. redis_New down_env (0, 0) = Some (Inl ''redis ping after retries: refused'', w') \<and> snd w' = 14"
proof -
  have "ping_laws down_env snd" by (auto simp: ping_laws_def down_env_def)
  note h = redis_New_returns [OF this, of "(0, 0)"]
  have "redis_New down_env (0, 0) = Some (Inl ''redis ping after retries: refused'', (31800 * millisecond, 14))"
    by (simp add: redis_New_def down_env_def ping_loop.simps next_backoff_def)
  then show ?thesis using h by auto
qed

end
