(* ===== verification/GoFmt.thy ===== *)
theory GoFmt
  imports GoJson GoFloat GoText
begin

text \<open>
  What the command line tools use of Go's standard library to print: text/tabwriter with the settings of the code, json.MarshalIndent,
  time.Duration's String and Round, and the verbs of fmt for fixed point numbers, padded texts, booleans and slices. The escape byte
  0xff of text/tabwriter, which no valid text has, is not modelled.
\<close>

section \<open>Columns of text\<close>

fun split_on :: "(char \<Rightarrow> bool) \<Rightarrow> string \<Rightarrow> string list" where
  "split_on p [] = [[]]"
| "split_on p (c # s) = (if p c then [] # split_on p s else (c # hd (split_on p s)) # tl (split_on p s))"

abbreviation tab :: char where "tab \<equiv> CHR 0x09"
abbreviation newline :: char where "newline \<equiv> CHR 0x0A"

text \<open>A cell is followed by a tab (or a vertical tab), so the last one of a line is in no column. The column of a cell is made of the lines
  above and below that have a cell there without a gap, and is as wide as its widest cell and two spaces.\<close>

definition rune_count :: "string \<Rightarrow> nat" where "rune_count s = length (runes s)"

definition in_column :: "nat \<Rightarrow> string list \<Rightarrow> bool" where "in_column j line \<longleftrightarrow> j + 1 < length line"

definition column_block :: "string list list \<Rightarrow> nat \<Rightarrow> nat \<Rightarrow> string list list" where
  "column_block ls i j = takeWhile (in_column j) (drop i ls) @ takeWhile (in_column j) (rev (take i ls))"

definition column_width :: "string list list \<Rightarrow> nat \<Rightarrow> nat \<Rightarrow> nat" where
  "column_width ls i j = foldr max (map (\<lambda>l. rune_count (l ! j)) (column_block ls i j)) 0 + 2"

definition tab_cell :: "string list list \<Rightarrow> nat \<Rightarrow> nat \<Rightarrow> string" where
  "tab_cell ls i j = (let c = ls ! i ! j in if in_column j (ls ! i) then c @ replicate (column_width ls i j - rune_count c) (CHR '' '') else c)"

definition tab_line :: "string list list \<Rightarrow> nat \<Rightarrow> string" where
  "tab_line ls i = concat (map (tab_cell ls i) [0..<length (ls ! i)])"

definition tab_lines :: "string list list \<Rightarrow> string" where
  "tab_lines ls = Join (map (tab_line ls) [0..<length ls]) [newline]"

text \<open>A form feed ends a line and all columns.\<close>

definition tab_text :: "string \<Rightarrow> string" where
  "tab_text s = Join (map (\<lambda>part. tab_lines (map (split_on (\<lambda>c. c = tab \<or> c = CHR 0x0B)) (split_on ((=) newline) part)))
     (split_on ((=) (CHR 0x0C)) s)) [newline]"

section \<open>Indented JSON\<close>

definition indent_line :: "nat \<Rightarrow> string" where "indent_line n = newline # replicate (2 * n) (CHR '' '')"

definition indent_block :: "nat \<Rightarrow> char \<Rightarrow> char \<Rightarrow> string list \<Rightarrow> string" where
  "indent_block n opening closing items =
     (if items = [] then [opening, closing]
      else opening # indent_line (n + 1) @ Join items (CHR '','' # indent_line (n + 1)) @ indent_line n @ [closing])"

fun json_indent :: "nat \<Rightarrow> json \<Rightarrow> string" where
  "json_indent n (JArr vs) = indent_block n (CHR ''['') (CHR '']'') (map (json_indent (n + 1)) vs)"
| "json_indent n (JObj kvs) = indent_block n (CHR 0x7B) (CHR 0x7D) (map (\<lambda>(k, v). json_string k @ '': '' @ json_indent (n + 1) v) kvs)"
| "json_indent n j = Marshal j"

section \<open>Verbs of fmt\<close>

definition zero_padded :: "nat \<Rightarrow> nat \<Rightarrow> string" where
  "zero_padded n k = replicate (n - length (digits k)) (CHR ''0'') @ digits k"

text \<open>A number with n digits after the point, rounded half to even on its exact value.\<close>

definition fmt_fixed :: "nat \<Rightarrow> rat \<Rightarrow> string" where
  "fmt_fixed n q =
     (let k = nat (round_even (\<bar>q\<bar> * 10 ^ n))
      in (if q < 0 then ''-'' else []) @ digits (k div 10 ^ n) @ (if n = 0 then [] else CHR ''.'' # zero_padded n (k mod 10 ^ n)))"

definition pad_right :: "nat \<Rightarrow> string \<Rightarrow> string" where
  "pad_right n s = s @ replicate (n - rune_count s) (CHR '' '')"

definition fmt_bool :: "bool \<Rightarrow> string" where "fmt_bool b = (if b then ''true'' else ''false'')"

definition fmt_strings :: "string list \<Rightarrow> string" where "fmt_strings ss = ''['' @ Join ss '' '' @ '']''"

section \<open>Durations\<close>

text \<open>The last digits of a number as a fraction, without zeros at its end, and what is before them.\<close>

definition fmt_frac :: "nat \<Rightarrow> nat \<Rightarrow> string \<times> nat" where
  "fmt_frac v prec =
     (let f = rev (dropWhile ((=) (CHR ''0'')) (rev (zero_padded prec (v mod 10 ^ prec))))
      in (if prec = 0 \<or> f = [] then [] else CHR ''.'' # f, v div 10 ^ prec))"

definition Duration_String :: "int \<Rightarrow> string" where
  "Duration_String d =
     (let u = nat \<bar>d\<bar>; sign = (if d < 0 then ''-'' else [])
      in if u = 0 then ''0s''
         else if u < 10 ^ 9 then
           (let (prec, unt) = (if u < 10 ^ 3 then (0, ''ns'') else if u < 10 ^ 6 then (3, [CHR 0xC2, CHR 0xB5, CHR ''s'']) else (6, ''ms''));
                (frac, n) = fmt_frac u prec
            in sign @ digits n @ frac @ unt)
         else
           (let (frac, secs) = fmt_frac u 9; mins = secs div 60; hours = mins div 60
            in sign @ (if hours > 0 then digits hours @ ''h'' else []) @ (if mins > 0 then digits (mins mod 60) @ ''m'' else []) @
               digits (secs mod 60) @ frac @ ''s''))"

definition max_duration :: int where "max_duration = 2 ^ 63 - 1"

text \<open>Rounding to a multiple of m > 0, halves away from zero, saturated.\<close>

definition Duration_Round :: "int \<Rightarrow> int \<Rightarrow> int" where
  "Duration_Round d m =
     (let r = \<bar>d\<bar> mod m; k = (if 2 * r < m then \<bar>d\<bar> - r else \<bar>d\<bar> - r + m)
      in if d < 0 then max (- k) (- max_duration - 1) else min k max_duration)"

end
