(* ===== verification/AgentCtl.thy ===== *)
theory AgentCtl
  imports Config ControlPlaneProps GoFmt SchedulerService
begin

text \<open>
  cmd/agentctl: the command line client. A command takes the values of its flags and the world, and reports what it has printed to
  standard output and standard error and how it ended. The parser of the command line, the connections with the calls made over them,
  files and the clock are outside: the operations of an environment record.
\<close>

section \<open>Commands\<close>

text \<open>A command returns an error or nil, or ends the process itself.\<close>

datatype cli_end = RunE "string option" | OsExit int

record report =
  rp_out :: string
  rp_err :: string
  rp_end :: cli_end

abbreviation "fails e \<equiv> \<lparr> rp_out = [], rp_err = [], rp_end = RunE (Some e) \<rparr>"
abbreviation "prints s \<equiv> \<lparr> rp_out = s, rp_err = [], rp_end = RunE None \<rparr>"

definition after_text :: "string \<Rightarrow> string \<Rightarrow> report \<Rightarrow> report" where
  "after_text o1 e1 r = r\<lparr> rp_out := o1 @ rp_out r, rp_err := e1 @ rp_err r \<rparr>"

definition exit_code :: "report \<Rightarrow> int" where
  "exit_code r = (case rp_end r of RunE None \<Rightarrow> 0 | RunE (Some e) \<Rightarrow> 1 | OsExit n \<Rightarrow> n)"

text \<open>Contexts: after ct_deadline with d the calls are made under a context that ends d nanoseconds later. ct_Recv is what Recv will
  return on the open stream, ''EOF'' for io.EOF. Errors are their texts.\<close>

record 'w CtlEnv =
  ct_U :: Unicode
  ct_lib :: EnvLib
  ct_read_file :: "'w \<Rightarrow> string \<Rightarrow> (string, string) result"
  ct_stdin :: "'w \<Rightarrow> (string, string) result"
  ct_json_err :: "string \<Rightarrow> string"
  ct_since :: "'w \<Rightarrow> int"
  ct_deadline :: "'w \<Rightarrow> int \<Rightarrow> 'w"
  ct_dial :: "'w \<Rightarrow> string \<Rightarrow> string option \<times> 'w"
  ct_close :: "'w \<Rightarrow> 'w"
  ct_RunAgent :: "'w \<Rightarrow> string option \<times> 'w"
  ct_Send :: "'w \<Rightarrow> RunRequest \<Rightarrow> string option \<times> 'w"
  ct_CloseSend :: "'w \<Rightarrow> string option \<times> 'w"
  ct_Recv :: "'w \<Rightarrow> (string, RunEvent) result list"
  ct_acp :: "'w ClientEnv"
  ct_acp_text :: "client_error \<Rightarrow> string"
  ct_ListTools :: "'w \<Rightarrow> (string, (string \<times> string \<times> string) list) result \<times> 'w"
  ct_ExecTool :: "'w \<Rightarrow> ExecToolRequest \<Rightarrow> (string, ExecToolResponse) result \<times> 'w"
  ct_IngestRAG :: "'w \<Rightarrow> string \<times> string \<times> string \<Rightarrow> (string, string \<times> string \<times> nat \<times> string list) result \<times> 'w"
  ct_QueryRAG :: "'w \<Rightarrow> string \<times> string \<times> nat \<times> rat \<Rightarrow> (string, (string \<times> string \<times> rat \<times> string) list) result \<times> 'w"
  ct_RunPipeline :: "'w \<Rightarrow> string \<times> PipelineRequest \<Rightarrow> (string, PipelineResponse) result \<times> 'w"
  ct_ListHooks :: "'w \<Rightarrow> (string, (string \<times> pb_hook_event \<times> bool \<times> string \<times> string) list) result \<times> 'w"
  ct_ExecuteHook :: "'w \<Rightarrow> pb_hook_event \<times> string \<Rightarrow> (string, bool \<times> string \<times> string list \<times> string) result \<times> 'w"
  ct_Leader :: "'w \<Rightarrow> (string, LeaderResponse) result \<times> 'w"
  ct_Pick :: "'w \<Rightarrow> string \<Rightarrow> (string, PickResponse) result \<times> 'w"

section \<open>agentctl run\<close>

datatype printed = GoesOn | Terminal | Exits

text \<open>What is printed of an event, on standard output and standard error, and what it means for the command.\<close>

definition printEvent :: "RunEvent \<Rightarrow> string \<Rightarrow> string \<Rightarrow> string \<times> string \<times> printed" where
  "printEvent ev runID traceID =
     (case ev_Payload ev of
        Some (Token s i) \<Rightarrow> (s, [], GoesOn)
      | Some (Done n ts) \<Rightarrow> (newline # ''[DONE] run_id='' @ runID @ '' trace_id='' @ traceID @ '' tokens='' @ Itoa n @ [newline], [], Terminal)
      | Some (Error c m b) \<Rightarrow> ([], newline # ''[ERROR] '' @ c @ '': '' @ m @ '' (run='' @ runID @ '')'' @ [newline], Exits)
      | _ \<Rightarrow> ([], [], GoesOn))"

text \<open>The loop over the stream; None while it waits for ever.\<close>

fun grpc_loop :: "(string, RunEvent) result list \<Rightarrow> string \<Rightarrow> string \<Rightarrow> report option" where
  "grpc_loop [] runID traceID = None"
| "grpc_loop (Inl e # rs) runID traceID = Some (if e = ''EOF'' then prints [] else fails (''recv: '' @ e))"
| "grpc_loop (Inr ev # rs) runID traceID =
     (let (rid, tid) = (if runID = [] then (ev_RunId ev, ev_TraceId ev) else (runID, traceID));
          (s, e, p) = printEvent ev rid tid
      in case p of
           GoesOn \<Rightarrow> map_option (after_text s e) (grpc_loop rs rid tid)
         | Terminal \<Rightarrow> Some (after_text s e (prints []))
         | Exits \<Rightarrow> Some \<lparr> rp_out = s, rp_err = e, rp_end = OsExit 1 \<rparr>)"

definition cli_request :: "string \<Rightarrow> string \<Rightarrow> string \<Rightarrow> RunRequest" where
  "cli_request userID model prompt = \<lparr> rq_RunId = [], rq_UserId = userID, rq_Prompt = prompt, rq_Model = model, rq_TraceId = [],
     rq_AgentId = [], rq_SystemPrompt = [] \<rparr>"

definition runViaGRPC :: "'w CtlEnv \<Rightarrow> 'w \<Rightarrow> string \<Rightarrow> string \<Rightarrow> string \<Rightarrow> string \<Rightarrow> report option" where
  "runViaGRPC E w addr userID model prompt =
     (case ct_dial E w addr of
        (Some e, w1) \<Rightarrow> Some (fails (''dial gateway '' @ addr @ '': '' @ e))
      | (None, w1) \<Rightarrow>
          (case ct_RunAgent E w1 of
             (Some e, w2) \<Rightarrow> Some (fails (''open stream: '' @ e))
           | (None, w2) \<Rightarrow>
               (case ct_Send E w2 (cli_request userID model prompt) of
                  (Some e, w3) \<Rightarrow> Some (fails (''send: '' @ e))
                | (None, w3) \<Rightarrow>
                    (case ct_CloseSend E w3 of
                       (Some e, w4) \<Rightarrow> Some (fails (''close send: '' @ e))
                     | (None, w4) \<Rightarrow> grpc_loop (ct_Recv E w4) [] []))))"

text \<open>errors.Is with io.EOF: the errors of ReadFrame wrap the error of the reader.\<close>

fun acp_is_EOF :: "acp_error \<Rightarrow> bool" where
  "acp_is_EOF EOF = True"
| "acp_is_EOF (ReadLen e) = acp_is_EOF e"
| "acp_is_EOF (ReadPayload e) = acp_is_EOF e"
| "acp_is_EOF e = False"

definition cli_is_EOF :: "client_error \<Rightarrow> bool" where
  "cli_is_EOF e = (case e of FrameReadError a \<Rightarrow> acp_is_EOF a | _ \<Rightarrow> False)"

lemma NextEvent_shrinks: "NextEvent E c = (Inr r, c1) \<Longrightarrow> length (cl_in c1) < length (cl_in c)"
proof (induction E c rule: NextEvent.induct)
  case (1 E c)
  show ?case
  proof (cases "client_read c")
    case (Pair x c2)
    show ?thesis
    proof (cases x)
      case (Inl a)
      then show ?thesis using 1(2) Pair by (subst (asm) NextEvent.simps) simp
    next
      case (Inr f)
      have l: "length (cl_in c2) < length (cl_in c)" using Pair Inr by (simp add: client_read_shrinks)
      show ?thesis
      proof (cases "Frame_Type f = FrameEvent \<or> Frame_Type f = FrameError \<or> Frame_Type f = FrameClose")
        case True
        then show ?thesis using 1(2) Pair Inr l
          by (subst (asm) NextEvent.simps) (auto simp: Let_def split: if_splits sum.splits)
      next
        case False
        then have "NextEvent E c2 = (Inr r, c1)" using 1(2) Pair Inr by (subst (asm) NextEvent.simps) simp
        then show ?thesis using 1(1) [OF Pair [symmetric] Inr] False l by auto
      qed
    qed
  qed
qed

function acp_loop :: "'w CtlEnv \<Rightarrow> 'w Client \<Rightarrow> report" where
  "acp_loop E c =
     (case NextEvent (ct_acp E) c of
        (Inl e, c1) \<Rightarrow> (if cli_is_EOF e then prints [] else fails (''recv: '' @ ct_acp_text E e))
      | (Inr (ev, stop), c1) \<Rightarrow>
          (let (s, e, p) = (case ev of None \<Rightarrow> ([], [], GoesOn) | Some ev \<Rightarrow> printEvent ev (cl_runID c1) (cl_traceID c1))
           in case p of
                GoesOn \<Rightarrow> if stop then after_text s e (prints []) else after_text s e (acp_loop E c1)
              | Terminal \<Rightarrow> after_text s e (prints [])
              | Exits \<Rightarrow> \<lparr> rp_out = s, rp_err = e, rp_end = OsExit 1 \<rparr>))"
  by pat_completeness auto
termination
  by (relation "measure (\<lambda>(E, c). length (cl_in c))") (auto dest: NextEvent_shrinks [OF sym])

declare acp_loop.simps [simp del]

definition acp_options :: "string \<Rightarrow> string \<Rightarrow> DialOptions" where
  "acp_options addr userID = \<lparr> do_Addr = addr, do_UserID = userID, do_DialTimeout = 0, do_WriteTimeout = 0, do_ReadTimeout = 0 \<rparr>"

definition runViaACP :: "'w CtlEnv \<Rightarrow> 'w \<Rightarrow> string \<Rightarrow> string \<Rightarrow> string \<Rightarrow> string \<Rightarrow> report" where
  "runViaACP E w addr userID model prompt =
     (case Dial (ct_acp E) w (acp_options addr userID) of
        (Inl e, w1) \<Rightarrow> fails (''dial acp '' @ addr @ '': '' @ ct_acp_text E e)
      | (Inr c, w1) \<Rightarrow>
          (case SendRun (ct_acp E) c (cli_request userID model prompt) of
             (Some e, c1) \<Rightarrow> fails (''send run: '' @ ct_acp_text E e)
           | (None, c1) \<Rightarrow> acp_loop E c1))"

record run_flags =
  rf_prompt :: string
  rf_user :: string
  rf_model :: string
  rf_addr :: string
  rf_proto :: string
  rf_timeout :: int

definition default_run_flags :: run_flags where
  "default_run_flags = \<lparr> rf_prompt = [], rf_user = ''anonymous'', rf_model = [], rf_addr = [], rf_proto = [], rf_timeout = 5 * 60 * 1000000000 \<rparr>"

definition ctl_config :: "'w CtlEnv \<Rightarrow> AgentCtlConfig option" where
  "ctl_config E = (case LoadAgentCtl (ct_lib E) of Inl e \<Rightarrow> None | Inr c \<Rightarrow> Some c)"

text \<open>The protocol and the address a run uses.\<close>

definition run_target :: "AgentCtlConfig option \<Rightarrow> string \<Rightarrow> string \<Rightarrow> string \<times> string" where
  "run_target cfg prt adr =
     (let proto = (if prt = [] then (case cfg of Some c \<Rightarrow> ctl_Proto c | None \<Rightarrow> ''grpc'') else prt);
          addr1 = (if adr = [] then (case cfg of Some c \<Rightarrow> if proto = ''acp'' then ctl_GatewayACPDial c else ctl_GatewayDial c | None \<Rightarrow> [])
                   else adr);
          addr = (if addr1 = [] then if proto = ''acp'' then ''localhost:8090'' else ''localhost:8080'' else addr1)
      in (proto, addr))"

definition ctl_run :: "'w CtlEnv \<Rightarrow> run_flags \<Rightarrow> 'w \<Rightarrow> report option" where
  "ctl_run E f w =
     (if rf_prompt f = [] then Some (fails ''--prompt is required'')
      else (let (proto, addr) = run_target (ctl_config E) (rf_proto f) (rf_addr f);
                w1 = (if rf_timeout f > 0 then ct_deadline E w (rf_timeout f) else w)
            in if proto = ''grpc'' then runViaGRPC E w1 addr (rf_user f) (rf_model f) (rf_prompt f)
               else if proto = ''acp'' then Some (runViaACP E w1 addr (rf_user f) (rf_model f) (rf_prompt f))
               else Some (fails (''unknown --proto '' @ Quote (ct_U E) proto @ '' (want grpc|acp)''))))"

section \<open>agentctl resume\<close>

text \<open>The loop counts the events. An error event does not fail the command.\<close>

definition printReplayed :: "RunEvent \<Rightarrow> nat \<Rightarrow> string \<times> string" where
  "printReplayed ev got =
     (case ev_Payload ev of
        Some (Token s i) \<Rightarrow> (s, [])
      | Some (Done n ts) \<Rightarrow> (newline # ''[DONE] tokens='' @ Itoa n @ '' (replayed='' @ Itoa (int got) @ '')'' @ [newline], [])
      | Some (Error c m b) \<Rightarrow> ([], newline # ''[ERROR] '' @ c @ '': '' @ m @ [newline])
      | _ \<Rightarrow> ([], []))"

definition resume_done :: "nat \<Rightarrow> report" where
  "resume_done got = \<lparr> rp_out = [], rp_err = ''[resume done] events_replayed='' @ Itoa (int got) @ [newline], rp_end = RunE None \<rparr>"

function resume_loop :: "'w CtlEnv \<Rightarrow> 'w Client \<Rightarrow> nat \<Rightarrow> report" where
  "resume_loop E c got =
     (case NextEvent (ct_acp E) c of
        (Inl e, c1) \<Rightarrow> (if cli_is_EOF e then resume_done got else fails (''recv: '' @ ct_acp_text E e))
      | (Inr (ev, stop), c1) \<Rightarrow>
          (let (s, e, got1) = (case ev of None \<Rightarrow> ([], [], got) | Some ev \<Rightarrow> let (s, e) = printReplayed ev (got + 1) in (s, e, got + 1))
           in after_text s e (if stop then resume_done got1 else resume_loop E c1 got1)))"
  by pat_completeness auto
termination
  by (relation "measure (\<lambda>(E, c, got). length (cl_in c))") (auto dest: NextEvent_shrinks [OF sym])

declare resume_loop.simps [simp del]

definition ctl_resume :: "'w CtlEnv \<Rightarrow> string \<Rightarrow> nat \<Rightarrow> string \<Rightarrow> int \<Rightarrow> 'w \<Rightarrow> report" where
  "ctl_resume E runID lastSeq adr timeout w =
     (if runID = [] then fails ''--run-id is required''
      else (let addr = (if adr = [] then (case ctl_config E of
                   Some c \<Rightarrow> if ctl_GatewayACPDial c \<noteq> [] then ctl_GatewayACPDial c else ''localhost:8090'' | None \<Rightarrow> ''localhost:8090'') else adr);
                w1 = (if timeout > 0 then ct_deadline E w timeout else w)
            in case Dial (ct_acp E) w1 (acp_options addr ''resume'') of
                 (Inl e, w2) \<Rightarrow> fails (''dial acp '' @ addr @ '': '' @ ct_acp_text E e)
               | (Inr c, w2) \<Rightarrow>
                   (case SendResume (ct_acp E) c runID lastSeq of
                      (Some e, c1) \<Rightarrow> fails (''send resume: '' @ ct_acp_text E e)
                    | (None, c1) \<Rightarrow>
                        after_text [] (''[resume] run_id='' @ runID @ '' last_seq='' @ digits lastSeq @ [newline]) (resume_loop E c1 0))))"

section \<open>agentctl tool\<close>

definition dialGateway :: "'w CtlEnv \<Rightarrow> 'w \<Rightarrow> string \<Rightarrow> string option \<times> 'w" where
  "dialGateway E w adr =
     (let addr = (if adr = [] then (case ctl_config E of Some c \<Rightarrow> if ctl_GatewayDial c \<noteq> [] then ctl_GatewayDial c else ''localhost:8080''
                                   | None \<Rightarrow> ''localhost:8080'') else adr);
          (e, w1) = ct_dial E w addr
      in (map_option (\<lambda>e. ''dial gateway '' @ addr @ '': '' @ e) e, w1))"

text \<open>A call of a service: the connection, and what is reported of the answer.\<close>

definition with_conn :: "string option \<times> 'w \<Rightarrow> ('w \<Rightarrow> (string, 'a) result \<times> 'w) \<Rightarrow> string \<Rightarrow> ('a \<Rightarrow> 'w \<Rightarrow> report) \<Rightarrow> report" where
  "with_conn dialled call what k =
     (case dialled of
        (Some e, w1) \<Rightarrow> fails e
      | (None, w1) \<Rightarrow> (case call w1 of (Inl e, w2) \<Rightarrow> fails (what @ e) | (Inr x, w2) \<Rightarrow> k x w2))"

definition prettyJSON :: "string \<Rightarrow> string" where
  "prettyJSON src0 =
     (let src = TrimSpace src0
      in if src = [] then [] else (case Option.bind (json_parse src) dec_any of None \<Rightarrow> src | Some j \<Rightarrow> json_indent 0 j))"

definition tool_desc :: "string \<Rightarrow> string" where
  "tool_desc d0 = (let d = ReplaceAll d0 [newline] '' '' in if length d > 80 then take 77 d @ ''...'' else d)"

definition lines_of :: "string list \<Rightarrow> string" where "lines_of ls = concat (map (\<lambda>l. l @ [newline]) ls)"

definition tool_table :: "bool \<Rightarrow> (string \<times> string \<times> string) list \<Rightarrow> string" where
  "tool_table schema tools0 =
     (let tools = sort_key fst tools0
      in if schema
         then concat (map (\<lambda>(n, d, p). ''# '' @ n @ [newline] @ d @ [newline, newline] @ ''parameters:'' @ [newline] @ prettyJSON p @ [newline, newline]) tools)
         else tab_text (lines_of ((''NAME'' @ [tab] @ ''DESCRIPTION'') # map (\<lambda>(n, d, p). n @ [tab] @ tool_desc d) tools)))"

definition ctl_tool_list :: "'w CtlEnv \<Rightarrow> string \<Rightarrow> int \<Rightarrow> bool \<Rightarrow> 'w \<Rightarrow> report" where
  "ctl_tool_list E adr timeout schema w =
     with_conn (dialGateway E (ct_deadline E w timeout) adr) (ct_ListTools E) ''list tools: '' (\<lambda>tools w2. prints (tool_table schema tools))"

text \<open>The arguments go through a map of any: a number becomes a float64, null a nil map.\<close>

definition loadArgsJSON :: "'w CtlEnv \<Rightarrow> 'w \<Rightarrow> string \<Rightarrow> string \<Rightarrow> (string, string) result" where
  "loadArgsJSON E w inline file =
     (if inline \<noteq> [] \<and> file \<noteq> [] then Inl ''--args and --args-file are mutually exclusive''
      else if inline = [] \<and> file = [] then Inr [CHR 0x7B, CHR 0x7D]
      else
        (let raw = (if file = [] then Inr inline
                    else if file = ''-'' then (case ct_stdin E w of Inl e \<Rightarrow> Inl (''read stdin: '' @ e) | Inr b \<Rightarrow> Inr b)
                    else (case ct_read_file E w file of Inl e \<Rightarrow> Inl (''read '' @ file @ '': '' @ e) | Inr b \<Rightarrow> Inr b))
         in case raw of
              Inl e \<Rightarrow> Inl e
            | Inr b \<Rightarrow>
                (case Option.bind (json_parse b) (\<lambda>j. case j of JObj kvs \<Rightarrow> dec_any j | JNull \<Rightarrow> Some JNull | _ \<Rightarrow> None) of
                   None \<Rightarrow> Inl (''args is not a valid JSON object: '' @ ct_json_err E b)
                 | Some j \<Rightarrow> Inr (Marshal j))))"

record exec_flags =
  xf_args :: string
  xf_args_file :: string
  xf_user :: string
  xf_addr :: string
  xf_timeout :: int
  xf_dial_timeout :: int
  xf_raw :: bool

definition default_exec_flags :: exec_flags where
  "default_exec_flags = \<lparr> xf_args = [], xf_args_file = [], xf_user = ''agentctl'', xf_addr = [], xf_timeout = 60 * 1000000000,
     xf_dial_timeout = 5 * 1000000000, xf_raw = False \<rparr>"

text \<open>uint32 of the milliseconds; division of durations truncates.\<close>

definition timeout_ms :: "int \<Rightarrow> nat" where
  "timeout_ms d = nat ((sgn d * (\<bar>d\<bar> div 1000000)) mod 2 ^ 32)"

definition exec_report :: "bool \<Rightarrow> string \<Rightarrow> int \<Rightarrow> ExecToolResponse \<Rightarrow> report" where
  "exec_report raw toolName elapsed resp =
     (let ending = (if xp_IsError resp \<or> xp_ErrorCode resp \<noteq> [] then OsExit 1 else RunE None);
          meta = xp_MetadataJson resp
      in if raw then \<lparr> rp_out = xp_Content resp, rp_err = [], rp_end = ending \<rparr>
         else \<lparr> rp_out = xp_Content resp @ [newline],
           rp_err = lines_of
             ([''[tool] name='' @ toolName @ '' call_id='' @ xp_CallId resp @ '' container='' @ xp_ContainerId resp @ '' elapsed='' @
                 Duration_String (Duration_Round elapsed 1000000),
               ''[tool] exit_code='' @ Itoa (xp_ExitCode resp) @ '' is_error='' @ fmt_bool (xp_IsError resp)] @
              (if xp_ErrorCode resp \<noteq> [] then [''[tool] error: '' @ xp_ErrorCode resp @ '' '' @ xp_ErrorMessage resp] else []) @
              (if meta \<noteq> [] \<and> meta \<noteq> [CHR 0x7B, CHR 0x7D] then [''[tool] metadata: '' @ prettyJSON meta] else []) @
              [''----- content -----'']),
           rp_end = ending \<rparr>)"

definition ctl_tool_exec :: "'w CtlEnv \<Rightarrow> string \<Rightarrow> exec_flags \<Rightarrow> 'w \<Rightarrow> report" where
  "ctl_tool_exec E toolName f w =
     (case loadArgsJSON E w (xf_args f) (xf_args_file f) of
        Inl e \<Rightarrow> fails e
      | Inr args \<Rightarrow>
          with_conn (dialGateway E (ct_deadline E w (xf_dial_timeout f)) (xf_addr f))
            (\<lambda>w1. ct_ExecTool E (ct_deadline E w1 (xf_timeout f))
               \<lparr> xq_UserId = xf_user f, xq_Tool = toolName, xq_ArgsJson = args, xq_TimeoutMs = timeout_ms (xf_timeout f), xq_TraceId = [] \<rparr>)
            ''exec tool: '' (\<lambda>resp w2. exec_report (xf_raw f) toolName (ct_since E w2) resp))"

section \<open>agentctl rag\<close>

definition ctl_rag_ingest :: "'w CtlEnv \<Rightarrow> string \<Rightarrow> string \<Rightarrow> string \<Rightarrow> string \<Rightarrow> int \<Rightarrow> 'w \<Rightarrow> report" where
  "ctl_rag_ingest E path source tenant adr timeout w =
     (if path = [] then fails ''--path is required''
      else (case ct_read_file E w path of
          Inl e \<Rightarrow> fails (''read '' @ path @ '': '' @ e)
        | Inr raw \<Rightarrow>
            with_conn (dialGateway E (ct_deadline E w timeout) adr)
              (\<lambda>w1. ct_IngestRAG E w1 (tenant, if source = [] then path else source, raw)) ''ingest rag: ''
              (\<lambda>(t, s, n, ids) w2. prints (lines_of ((''[rag] tenant='' @ t @ '' source='' @ s @ '' chunks='' @ Itoa (int n)) # ids)))))"

definition rag_preview :: "string \<Rightarrow> string" where
  "rag_preview s = (let p = ReplaceAll (TrimSpace s) [newline] '' '' in if length (runes p) > 96 then of_runes (take 93 (runes p)) @ ''...'' else p)"

definition rag_table :: "bool \<Rightarrow> (string \<times> string \<times> rat \<times> string) list \<Rightarrow> string" where
  "rag_table raw results =
     (if raw
      then concat (map (\<lambda>(s, i, x, c). ''----- '' @ s @ '' '' @ i @ '' score='' @ fmt_fixed 4 x @ '' -----'' @ [newline] @ c @ [newline, newline]) results)
      else tab_text (lines_of ((''SCORE'' @ [tab] @ ''SOURCE'' @ [tab] @ ''CHUNK'' @ [tab] @ ''PREVIEW'') #
             map (\<lambda>(s, i, x, c). fmt_fixed 4 x @ [tab] @ s @ [tab] @ i @ [tab] @ rag_preview c) results)))"

definition ctl_rag_query :: "'w CtlEnv \<Rightarrow> string \<Rightarrow> string \<Rightarrow> string \<Rightarrow> nat \<Rightarrow> rat \<Rightarrow> int \<Rightarrow> bool \<Rightarrow> 'w \<Rightarrow> report" where
  "ctl_rag_query E query tenant adr topK minScore timeout raw w =
     (if TrimSpace query = [] then fails ''--query is required''
      else with_conn (dialGateway E (ct_deadline E w timeout) adr) (\<lambda>w1. ct_QueryRAG E w1 (tenant, query, topK, minScore)) ''query rag: ''
        (\<lambda>results w2. prints (rag_table raw results)))"

section \<open>agentctl pipeline\<close>

definition oneLine :: "string \<Rightarrow> int \<Rightarrow> string" where
  "oneLine s mx =
     (let out = concat (map (\<lambda>r. if r = 10 \<or> r = 13 \<or> r = 9 then '' '' else EncodeRune r) (runes s)); rs = runes out
      in if mx > 0 \<and> int (length rs) > mx
         then if mx \<le> 3 then of_runes (take (nat mx) rs) else of_runes (take (nat (mx - 3)) rs) @ ''...''
         else out)"

definition pipeline_report :: "PipelineResponse \<Rightarrow> report" where
  "pipeline_report resp =
     \<lparr> rp_out = tab_text (lines_of (Join [''STEP'', ''ROLE'', ''STATUS'', ''RUN_ID'', ''SUMMARY''] [tab] #
          map (\<lambda>r. Join [pr_StepId r, pr_Role r, pr_Status r, pr_ChildRunId r, oneLine (pr_Summary r) 120] [tab]) (pp_Results resp))),
       rp_err = lines_of ((''[pipeline] name='' @ pp_Name resp @ '' status='' @ pp_Status resp) #
          (if pp_Error resp \<noteq> [] then [''[pipeline] error='' @ pp_Error resp] else [])),
       rp_end = RunE (if pp_Status resp = ''error'' then Some (if pp_Error resp = [] then ''pipeline failed'' else pp_Error resp) else None) \<rparr>"

definition ctl_pipeline_run :: "'w CtlEnv \<Rightarrow> string \<Rightarrow> string \<Rightarrow> string \<Rightarrow> string \<Rightarrow> string \<Rightarrow> int \<Rightarrow> 'w \<Rightarrow> report" where
  "ctl_pipeline_run E file tenant userID model adr timeout w =
     (if file = [] then fails ''--file is required''
      else (case ct_read_file E w file of
          Inl e \<Rightarrow> fails (''read pipeline file: '' @ e)
        | Inr raw \<Rightarrow>
            with_conn (dialGateway E (ct_deadline E w timeout) adr)
              (\<lambda>w1. ct_RunPipeline E w1 (tenant, \<lparr> pq_UserId = userID, pq_Model = model, pq_SpecYaml = raw, pq_TraceId = [] \<rparr>)) ''run pipeline: ''
              (\<lambda>resp w2. pipeline_report resp)))"

section \<open>agentctl hook and scheduler\<close>

definition parseHookEvent :: "string \<Rightarrow> pb_hook_event" where
  "parseHookEvent s =
     (if s = ''PreLLM'' then HOOK_EVENT_PRE_LLM else if s = ''PostLLM'' then HOOK_EVENT_POST_LLM
      else if s = ''PreToolUse'' then HOOK_EVENT_PRE_TOOL_USE else if s = ''PostToolUse'' then HOOK_EVENT_POST_TOOL_USE
      else HOOK_EVENT_UNSPECIFIED)"

text \<open>The name protobuf gives a value.\<close>

definition HookEvent_String :: "pb_hook_event \<Rightarrow> string" where
  "HookEvent_String e =
     (case e of
        HOOK_EVENT_UNSPECIFIED \<Rightarrow> ''HOOK_EVENT_UNSPECIFIED''
      | HOOK_EVENT_PRE_LLM \<Rightarrow> ''HOOK_EVENT_PRE_LLM''
      | HOOK_EVENT_POST_LLM \<Rightarrow> ''HOOK_EVENT_POST_LLM''
      | HOOK_EVENT_PRE_TOOL_USE \<Rightarrow> ''HOOK_EVENT_PRE_TOOL_USE''
      | HOOK_EVENT_POST_TOOL_USE \<Rightarrow> ''HOOK_EVENT_POST_TOOL_USE''
      | HOOK_EVENT_OTHER n \<Rightarrow> Itoa n)"

abbreviation ten_seconds :: int where "ten_seconds \<equiv> 10 * 1000000000"

definition dialHook :: "'w CtlEnv \<Rightarrow> 'w \<Rightarrow> string \<Rightarrow> string option \<times> 'w" where
  "dialHook E w adr =
     (let a1 = (if adr = [] then (case ctl_config E of Some c \<Rightarrow> cm_HookServiceAddr (ctl_Common c) | None \<Rightarrow> []) else adr)
      in ct_dial E w (if a1 = [] then ''localhost:8083'' else a1))"

definition hook_table :: "(string \<times> pb_hook_event \<times> bool \<times> string \<times> string) list \<Rightarrow> string" where
  "hook_table hooks = tab_text (lines_of (Join [''ID'', ''EVENT'', ''ENABLED'', ''SOURCE'', ''DESCRIPTION''] [tab] #
     map (\<lambda>(i, e, b, s, d). Join [i, HookEvent_String e, fmt_bool b, s, d] [tab]) hooks))"

definition ctl_hook_list :: "'w CtlEnv \<Rightarrow> string \<Rightarrow> 'w \<Rightarrow> report" where
  "ctl_hook_list E adr w = with_conn (dialHook E (ct_deadline E w ten_seconds) adr) (ct_ListHooks E) [] (\<lambda>hooks w2. prints (hook_table hooks))"

definition ctl_hook_run :: "'w CtlEnv \<Rightarrow> string \<Rightarrow> string \<Rightarrow> string \<Rightarrow> 'w \<Rightarrow> report" where
  "ctl_hook_run E event file adr w =
     (if event = [] then fails ''--event is required''
      else (case (if file = [] then Inr [CHR 0x7B, CHR 0x7D] else ct_read_file E w file) of
          Inl e \<Rightarrow> fails e
        | Inr raw \<Rightarrow>
            with_conn (dialHook E (ct_deadline E w ten_seconds) adr) (\<lambda>w1. ct_ExecuteHook E w1 (parseHookEvent event, raw)) []
              (\<lambda>(allowed, reason, matched, payload) w2.
                 prints (lines_of [''allowed='' @ fmt_bool allowed @ '' reason='' @ Quote (ct_U E) reason @ '' matched='' @ fmt_strings matched, payload]))))"

definition dialScheduler :: "'w CtlEnv \<Rightarrow> 'w \<Rightarrow> string \<Rightarrow> string option \<times> 'w" where
  "dialScheduler E w adr =
     (let a1 = (if adr = [] then (case ctl_config E of Some c \<Rightarrow> ctl_SchedulerDial c | None \<Rightarrow> []) else adr)
      in ct_dial E w (if a1 = [] then ''localhost:8081'' else a1))"

definition ctl_scheduler_leader :: "'w CtlEnv \<Rightarrow> string \<Rightarrow> 'w \<Rightarrow> report" where
  "ctl_scheduler_leader E adr w =
     with_conn (dialScheduler E (ct_deadline E w ten_seconds) adr) (ct_Leader E) []
       (\<lambda>r w2. prints (lines_of [''leader_id='' @ lr_LeaderId r @ '' leader_addr='' @ lr_LeaderAddr r @ '' is_leader='' @ fmt_bool (lr_IsLeader r)]))"

definition ctl_scheduler_pick :: "'w CtlEnv \<Rightarrow> string \<Rightarrow> string \<Rightarrow> 'w \<Rightarrow> report" where
  "ctl_scheduler_pick E adr runID w =
     with_conn (dialScheduler E (ct_deadline E w ten_seconds) adr) (\<lambda>w1. ct_Pick E w1 (if runID = [] then ''demo'' else runID)) []
       (\<lambda>r w2. prints (lines_of [''worker_id='' @ pk_WorkerId r @ '' addr='' @ pk_Addr r @ '' reason='' @ pk_Reason r @ '' leader='' @ pk_LeaderId r]))"

section \<open>What a run shows\<close>

definition done_line :: "string \<Rightarrow> string \<Rightarrow> int \<Rightarrow> string" where
  "done_line rid tid n = newline # ''[DONE] run_id='' @ rid @ '' trace_id='' @ tid @ '' tokens='' @ Itoa n @ [newline]"

definition run_output :: "string \<Rightarrow> string \<Rightarrow> Event list \<Rightarrow> string" where
  "run_output rid tid es = run_text es @ (if e_Kind (last es) = EventDone then done_line rid tid (e_Total (last es)) else [])"

lemma printEvent_shown:
  assumes "shown_as rid tid e out"
  shows "ev_RunId out = rid" "ev_TraceId out = tid"
    "printEvent out r t =
      (if e_Kind e = EventToken then (e_Text e, [], GoesOn)
       else if e_Kind e = EventDone then (done_line r t (e_Total e), [], Terminal)
       else if e_Kind e = EventError
         then ([], newline # ''[ERROR] '' @ e_Code e @ '': '' @ e_Message e @ '' (run='' @ r @ '')'' @ [newline], Exits)
       else ([], [], GoesOn))"
  using assms by (auto simp: shown_as_def mapEvent_def printEvent_def done_line_def event_kinds split: if_splits)

lemma grpc_loop_shows:
  assumes "stream_ok es" "list_all2 (shown_as rid tid) es outs" "rid \<noteq> []" "runID = [] \<or> runID = rid \<and> traceID = tid"
  shows "\<exists>err. grpc_loop (map Inr outs @ rest) runID traceID = Some \<lparr> rp_out = run_output rid tid es, rp_err = err,
    rp_end = (if e_Kind (last es) = EventDone then RunE None else OsExit 1) \<rparr>"
  using assms(1,2,4)
proof (induction es arbitrary: outs runID traceID)
  case (Cons e es)
  obtain x xs where x: "outs = x # xs" "shown_as rid tid e x" "list_all2 (shown_as rid tid) es xs"
    using Cons.prems(2) by (auto simp: list_all2_Cons1)
  note pe = printEvent_shown [OF x(2)]
  have ids: "(if runID = [] then (ev_RunId x, ev_TraceId x) else (runID, traceID)) = (rid, tid)" using Cons.prems(3) pe(1,2) by auto
  show ?case
  proof (cases "terminal e")
    case True
    then have "es = []" using Cons.prems(1) by simp
    then show ?thesis using True x(1,3) ids
      by (auto simp: pe(3) terminal_def event_kinds run_output_def run_text_def after_text_def simp del: if_split)
  next
    case False
    then have es: "stream_ok es" "es \<noteq> []" using Cons.prems(1) by (cases es, auto)+
    obtain err where i: "grpc_loop (map Inr xs @ rest) rid tid = Some \<lparr> rp_out = run_output rid tid es, rp_err = err,
        rp_end = (if e_Kind (last es) = EventDone then RunE None else OsExit 1) \<rparr>"
      using Cons.IH [OF es(1) x(3), of rid tid] by blast
    have p: "printEvent x rid tid = (if e_Kind e = EventToken then e_Text e else [], [], GoesOn)"
      using False pe(3) [of rid tid] by (simp add: terminal_def)
    show ?thesis using es(2) i ids p x(1) by (simp add: after_text_def run_output_def run_text_def)
  qed
qed simp

text \<open>C4: from the worker to the terminal: when the gateway serves the request of agentctl run, the worker executes the task the gateway queues,
  and the event channel and the stream carry what is put in, then agentctl prints exactly what the model streamed, adds the DONE line with the ids
  and the number of tokens and exits with 0 when Run returned nil, and exits with 1 when it did not.\<close>

theorem ctl_run_shows_run:
  assumes "rf_prompt f \<noteq> []" "run_target (ctl_config E) (rf_proto f) (rf_addr f) = (''grpc'', addr)"
    and "ct_dial E (if rf_timeout f > 0 then ct_deadline E v (rf_timeout f) else v) addr = (None, v1)" "ct_RunAgent E v1 = (None, v2)"
    and "req = cli_request (rf_user f) (rf_model f) (rf_prompt f)" "ct_Send E v2 req = (None, v3)" "ct_CloseSend E v3 = (None, v4)"
    and "stream_laws G sent" "gw_Recv G s0 = (Inr req, s1)" "request_ids G s1 req = (rid, tid, s2)"
    and "gw_Subscribe G s2 rid = (Inr (map Chan (run_events rid (st_trace x')) @ rest), s3)" "gw_Publish G s3 (run_task rid tid req) = (Inr i, s4)"
    and "Run R x (run_task rid tid req) = (res, x')" "rid \<noteq> []" "fresh_ids R rid" "compaction_safe R" "run_events rid (st_trace x) = []"
    and "RunAgent G s0 = Some (None, s5)" "ct_Recv E v4 = map Inr (drop (length (sent s0)) (sent s5)) @ [Inl ''EOF'']"
  shows "\<exists>rep. ctl_run E f v = Some rep \<and> exit_code rep = (if res = None then 0 else 1) \<and>
    rp_out rep = run_text (run_events rid (st_trace x')) @
      (if res = None then done_line rid tid (e_Total (last (run_events rid (st_trace x')))) else [])"
proof -
  let ?es = "run_events rid (st_trace x')"
  have p: "rq_Prompt req \<noteq> []" using assms(1,5) by (simp add: cli_request_def)
  obtain s6 outs where g: "RunAgent G s0 = Some (None, s6)" "sent s6 = sent s0 @ outs" "list_all2 (shown_as rid tid) ?es outs" "outs \<noteq> []"
    "if res = None then is_done_event (ev_Payload (last outs)) else is_error_event (ev_Payload (last outs))"
    using RunAgent_relays [OF assms(8,9) p assms(10-17)] by blast
  have es: "stream_ok ?es" by (rule Run_stream [OF assms(13-17)])
  have ne: "?es \<noteq> []" using es by (cases ?es) auto
  have "shown_as rid tid (last ?es) (last outs)"
    using g(3) ne g(4) by (metis list_all2_conv_all_nth last_conv_nth diff_less length_greater_0_conv zero_less_one)
  then have k: "e_Kind (last ?es) = EventDone \<longleftrightarrow> res = None"
    using shown_convert(3) [of rid tid "last ?es" "last outs"] g(5)
    by (cases "ev_Payload (last outs)" rule: is_done_event.cases) (auto split: if_splits)
  obtain err where "grpc_loop (ct_Recv E v4) [] [] = Some \<lparr> rp_out = run_output rid tid ?es, rp_err = err,
      rp_end = (if e_Kind (last ?es) = EventDone then RunE None else OsExit 1) \<rparr>"
    using grpc_loop_shows [OF es g(3) assms(14), of "[]" "[]" "[Inl ''EOF'']"] assms(18,19) g(1,2) by auto
  moreover have "ctl_run E f v = grpc_loop (ct_Recv E v4) [] []"
    using assms(1-4,6,7) unfolding assms(5) by (simp add: ctl_run_def runViaGRPC_def Let_def)
  ultimately show ?thesis using k by (auto simp: exit_code_def run_output_def)
qed

section \<open>What becomes of arguments\<close>

text \<open>null is no object, but it is accepted and sent.\<close>

lemma loadArgs_null: "loadArgsJSON E w ''null'' [] = Inr ''null''"
proof -
  have "json_parse ''null'' = Some JNull" by code_simp
  then show ?thesis by (simp add: loadArgsJSON_def)
qed

section \<open>Examples\<close>

definition cli_gateway :: "RunEvent list GatewayEnv" where
  "cli_gateway = demo_gateway\<lparr> gw_Recv := (\<lambda>s. (Inr (cli_request ''u'' [] ''hi''), s)) \<rparr>"

text \<open>A client of that gateway; nothing else answers.\<close>

definition cli_env :: "unit CtlEnv" where
  "cli_env = \<lparr> ct_U = ascii_unicode, ct_lib = simple_env Map.empty, ct_read_file = (\<lambda>w p. Inl ''no file''), ct_stdin = (\<lambda>w. Inl ''closed''),
     ct_json_err = id, ct_since = (\<lambda>w. 0), ct_deadline = (\<lambda>w d. w), ct_dial = (\<lambda>w a. (None, w)), ct_close = id,
     ct_RunAgent = Pair None, ct_Send = (\<lambda>w r. (None, w)), ct_CloseSend = Pair None,
     ct_Recv = (\<lambda>w. (case RunAgent cli_gateway [] of None \<Rightarrow> [] | Some (e, outs) \<Rightarrow> map Inr outs @ [Inl ''EOF''])),
     ct_acp = \<lparr> ca_dial = (\<lambda>w a t. (Inl ''refused'', w)), ca_write = (\<lambda>w b. (None, w)), ca_close = id, ca_ctx = (\<lambda>w. None),
       ca_enc_request = (\<lambda>r. Inl ''none''), ca_dec_event = (\<lambda>b. Inl ''none''), ca_json_err = id \<rparr>,
     ct_acp_text = (\<lambda>e. ''acp''), ct_ListTools = Pair (Inr []), ct_ExecTool = (\<lambda>w q. (Inl ''none'', w)), ct_IngestRAG = (\<lambda>w q. (Inl ''none'', w)),
     ct_QueryRAG = (\<lambda>w q. (Inl ''none'', w)), ct_RunPipeline = (\<lambda>w q. (Inl ''none'', w)), ct_ListHooks = Pair (Inr []),
     ct_ExecuteHook = (\<lambda>w q. (Inl ''none'', w)), ct_Leader = Pair (Inl ''none''), ct_Pick = (\<lambda>w r. (Inl ''none'', w)) \<rparr>"

definition cli_flags :: run_flags where
  "cli_flags = default_run_flags\<lparr> rf_prompt := ''hi'', rf_user := ''u'', rf_proto := ''grpc'', rf_addr := ''gw:1'' \<rparr>"

theorem ctl_run_shows_run_witness:
  "\<exists>rep. ctl_run cli_env cli_flags () = Some rep \<and> exit_code rep = 0 \<and>
     (\<exists>s n. rp_out rep = s @ done_line ''run'' ''t'' n)"
proof -
  let ?req = "cli_request ''u'' [] ''hi''"
  have t: "run_task ''run'' ''t'' ?req = demo_task" by (simp add: run_task_def cli_request_def demo_task_def)
  have r: "Run demo_agent demo_start (run_task ''run'' ''t'' ?req) = (None, snd (Run demo_agent demo_start demo_task))"
    using demo_run by (simp add: t prod_eq_iff)
  have g: "stream_laws cli_gateway id" "gw_Recv cli_gateway [] = (Inr ?req, [])" "request_ids cli_gateway [] ?req = (''run'', ''t'', [])"
    "gw_Subscribe cli_gateway [] ''run'' = (Inr (map Chan (run_events ''run'' (st_trace (snd (Run demo_agent demo_start demo_task)))) @ []), [])"
    "gw_Publish cli_gateway [] (run_task ''run'' ''t'' ?req) = (Inr ''1-0'', [])"
    by (simp_all add: stream_laws_def cli_gateway_def demo_gateway_def demo_channel_def request_ids_def cli_request_def)
  obtain outs where o: "RunAgent cli_gateway [] = Some (None, outs)"
    using RunAgent_relays [OF g(1,2) _ g(3-5) r demo_run_safe] by (auto simp: cli_request_def)
  have c: "rf_prompt cli_flags \<noteq> []" "run_target (ctl_config cli_env) (rf_proto cli_flags) (rf_addr cli_flags) = (''grpc'', ''gw:1'')"
    "ct_dial cli_env (if rf_timeout cli_flags > 0 then ct_deadline cli_env () (rf_timeout cli_flags) else ()) ''gw:1'' = (None, ())"
    "ct_RunAgent cli_env () = (None, ())" "?req = cli_request (rf_user cli_flags) (rf_model cli_flags) (rf_prompt cli_flags)"
    "ct_Send cli_env () ?req = (None, ())" "ct_CloseSend cli_env () = (None, ())"
    by (simp_all add: cli_flags_def default_run_flags_def run_target_def cli_env_def)
  have v: "ct_Recv cli_env () = map Inr (drop (length (id [])) (id outs)) @ [Inl ''EOF'']" using o by (simp add: cli_env_def)
  show ?thesis using ctl_run_shows_run [OF c g r demo_run_safe o v] by auto
qed

end
