(* ===== verification/Bench.thy ===== *)
theory Bench
  imports AgentCtl
begin

text \<open>
  cmd/bench: the comparison of ACP and gRPC, and the load test of RunAgent. Connections, calls and the clock are operations of an
  environment. What the goroutines of a command do is a schedule: the order in which they make their calls, or the events of a load test.
\<close>

section \<open>Statistics\<close>

text \<open>The samples of a run, in nanoseconds: the percentiles, the average and their number. Division of durations truncates.\<close>

definition quot :: "int \<Rightarrow> int \<Rightarrow> int" where "quot a b = sgn a * sgn b * (\<bar>a\<bar> div \<bar>b\<bar>)"

definition Summary :: "int list \<Rightarrow> int \<times> int \<times> int \<times> int \<times> nat" where
  "Summary samples =
     (let n = length samples; s = sort samples in
      if n = 0 then (0, 0, 0, 0, 0)
      else (s ! (n * 50 div 100), s ! min (n * 95 div 100) (n - 1), s ! min (n * 99 div 100) (n - 1),
        quot (foldl (\<lambda>a v. wrap64 (a + v)) 0 s) (int n), n))"

definition ratio :: "int \<Rightarrow> int \<Rightarrow> string" where
  "ratio g a = (if a \<le> 0 then ''n/a'' else fmt_fixed 2 (f64 (f64 (of_int g) / f64 (of_int a))) @ ''x'')"

definition spaces :: "nat \<Rightarrow> string" where "spaces n = replicate n (CHR '' '')"

definition stats_header :: string where
  "stats_header = spaces 14 @ ''p50'' @ spaces 9 @ ''p95'' @ spaces 9 @ ''p99'' @ spaces 9 @ ''avg''"

definition row5 :: "string \<Rightarrow> string \<Rightarrow> string \<Rightarrow> string \<Rightarrow> string \<Rightarrow> string" where
  "row5 a b c d e = Join [pad_right 13 a, pad_right 11 b, pad_right 11 c, pad_right 11 d, pad_right 11 e] '' ''"

definition scenario_line :: "string \<Rightarrow> int \<Rightarrow> int \<Rightarrow> string" where
  "scenario_line scenario n c = ''Scenario: '' @ scenario @ '' (n='' @ Itoa n @ '', c='' @ Itoa c @ '')''"

definition stats_row :: "string \<Rightarrow> int \<times> int \<times> int \<times> int \<times> nat \<Rightarrow> string" where
  "stats_row name s = (let (p50, p95, p99, avg, n) = s in
     row5 name (Duration_String p50) (Duration_String p95) (Duration_String p99) (Duration_String avg))"

definition printCompare :: "string \<Rightarrow> int \<Rightarrow> int \<Rightarrow> int list \<Rightarrow> int list \<Rightarrow> string" where
  "printCompare scenario n c acp grpc =
     (let (a50, a95, a99, aavg, an) = Summary acp; (g50, g95, g99, gavg, gn) = Summary grpc
      in lines_of [[], scenario_line scenario n c, stats_header, stats_row ''ACP'' (Summary acp), stats_row ''gRPC'' (Summary grpc),
           row5 ''speedup'' (ratio g50 a50) (ratio g95 a95) (ratio g99 a99) (ratio gavg aavg)])"

text \<open>time.Duration's Seconds, and divisions that may divide by zero.\<close>

definition Seconds :: "int \<Rightarrow> rat" where
  "Seconds d = f64 (of_int (quot d (10 ^ 9)) + f64 (of_int (d - quot d (10 ^ 9) * 10 ^ 9) / 10 ^ 9))"

fun float_div :: "float64 \<Rightarrow> float64 \<Rightarrow> float64" where
  "float_div (Finite a) (Finite b) = (if b \<noteq> 0 then Finite (f64 (a / b)) else if a = 0 then NotANumber else Infinite (a < 0))"
| "float_div (Finite a) (Infinite m) = Finite 0"
| "float_div (Infinite m) (Finite b) = Infinite (m \<noteq> (b < 0))"
| "float_div _ _ = NotANumber"

definition fmt_float :: "nat \<Rightarrow> float64 \<Rightarrow> string" where
  "fmt_float n x = (case x of Finite q \<Rightarrow> fmt_fixed n q | Infinite m \<Rightarrow> if m then ''-Inf'' else ''+Inf'' | NotANumber \<Rightarrow> ''NaN'')"

definition float_pos :: "float64 \<Rightarrow> bool" where
  "float_pos x = (case x of Finite q \<Rightarrow> q > 0 | Infinite m \<Rightarrow> \<not> m | NotANumber \<Rightarrow> False)"

definition printThroughput :: "string \<Rightarrow> int \<Rightarrow> int \<Rightarrow> int \<Rightarrow> int \<Rightarrow> string" where
  "printThroughput scenario n c acpDur grpcDur =
     (let acpQPS = float_div (Finite (f64 (of_int n))) (Finite (Seconds acpDur));
          grpcQPS = float_div (Finite (f64 (of_int n))) (Finite (Seconds grpcDur))
      in lines_of ([[], scenario_line scenario n c,
           Join [pad_right 13 [], pad_right 15 ''duration'', pad_right 15 ''ops/sec''] '' '',
           Join [pad_right 13 ''ACP'', pad_right 15 (Duration_String acpDur), pad_right 15 (fmt_float 0 acpQPS)] '' '',
           Join [pad_right 13 ''gRPC'', pad_right 15 (Duration_String grpcDur), pad_right 15 (fmt_float 0 grpcQPS)] '' ''] @
           (if float_pos grpcQPS then [pad_right 13 ''speedup'' @ '' '' @ fmt_float 2 (float_div acpQPS grpcQPS) @ ''x''] else [])))"

section \<open>Workers with equal shares\<close>

text \<open>The calls each worker still has to make; an error ends its worker, and the first one is kept. None is a schedule that ends before
  the workers do.\<close>

fun equal_run :: "(nat \<Rightarrow> 'w \<Rightarrow> string option \<times> 'w) \<Rightarrow> nat list \<Rightarrow> string option \<Rightarrow> 'w \<Rightarrow> nat list \<Rightarrow> (string option \<times> 'w) option" where
  "equal_run op left err w [] = (if sum_list left = 0 then Some (err, w) else None)"
| "equal_run op left err w (i # sched) =
     (if sum_list left = 0 then Some (err, w)
      else if i < length left \<and> left ! i > 0 then
        (case op i w of
           (None, w1) \<Rightarrow> equal_run op (left[i := left ! i - 1]) err w1 sched
         | (Some e, w1) \<Rightarrow> equal_run op (left[i := 0]) (if err = None then Some e else err) w1 sched)
      else equal_run op left err w sched)"

definition per_worker :: "nat \<Rightarrow> int \<Rightarrow> nat" where
  "per_worker c n = (let per = quot n (int c) in if per = 0 then 1 else nat per)"

definition runEqualWorkers :: "('w \<Rightarrow> int) \<Rightarrow> nat \<Rightarrow> int \<Rightarrow> (nat \<Rightarrow> 'w \<Rightarrow> string option \<times> 'w) \<Rightarrow> 'w \<Rightarrow> nat list \<Rightarrow>
    ((string, int) result \<times> 'w) option" where
  "runEqualWorkers now c n op w sched =
     (case equal_run op (replicate c (per_worker c n)) None w sched of
        None \<Rightarrow> None
      | Some (Some e, w1) \<Rightarrow> Some (Inl e, w1)
      | Some (None, w1) \<Rightarrow> Some (Inr (now w1 - now w), w1))"

section \<open>Scenarios\<close>

record 'w BenchEnv =
  be_now :: "'w \<Rightarrow> int"
  be_dialACP :: "'w \<Rightarrow> nat \<Rightarrow> string option \<times> 'w"
  be_closeACP :: "'w \<Rightarrow> nat \<Rightarrow> string option \<times> 'w"
  be_Ping :: "'w \<Rightarrow> nat \<Rightarrow> (string, int) result \<times> 'w"
  be_dialGRPC :: "'w \<Rightarrow> nat \<Rightarrow> string option \<times> 'w"
  be_closeGRPC :: "'w \<Rightarrow> nat \<Rightarrow> string option \<times> 'w"
  be_Check :: "'w \<Rightarrow> nat \<Rightarrow> string option \<times> 'w"

text \<open>A call n times, measured; the first error ends it.\<close>

fun measured :: "('w \<Rightarrow> (string, int) result \<times> 'w) \<Rightarrow> nat \<Rightarrow> nat \<Rightarrow> 'w \<Rightarrow> (nat \<times> string, int list) result \<times> 'w" where
  "measured f k 0 w = (Inr [], w)"
| "measured f k (Suc n) w =
     (case f w of
        (Inl e, w1) \<Rightarrow> (Inl (k, e), w1)
      | (Inr d, w1) \<Rightarrow> (case measured f (k + 1) n w1 of (Inl x, w2) \<Rightarrow> (Inl x, w2) | (Inr ds, w2) \<Rightarrow> (Inr (d # ds), w2)))"

definition timed :: "('w \<Rightarrow> int) \<Rightarrow> ('w \<Rightarrow> string option \<times> 'w) \<Rightarrow> 'w \<Rightarrow> (string, int) result \<times> 'w" where
  "timed now f w = (let (e, w1) = f w in (case e of Some e \<Rightarrow> Inl e | None \<Rightarrow> Inr (now w1 - now w), w1))"

fun repeat :: "nat \<Rightarrow> ('w \<Rightarrow> 'w) \<Rightarrow> 'w \<Rightarrow> 'w" where
  "repeat 0 f w = w"
| "repeat (Suc n) f w = repeat n f (f w)"

definition bench_rtt :: "'w BenchEnv \<Rightarrow> int \<Rightarrow> int \<Rightarrow> 'w \<Rightarrow> report" where
  "bench_rtt E n warmup w =
     (case be_dialACP E w 0 of
        (Some e, w1) \<Rightarrow> fails (''acp dial: '' @ e)
      | (None, w1) \<Rightarrow>
          (case measured (\<lambda>w. be_Ping E w 0) 0 (nat n) (repeat (nat warmup) (\<lambda>w. snd (be_Ping E w 0)) w1) of
             (Inl (i, e), w2) \<Rightarrow> fails (''acp ping['' @ Itoa (int i) @ '']: '' @ e)
           | (Inr acp, w2) \<Rightarrow>
               (case be_dialGRPC E w2 0 of
                  (Some e, w3) \<Rightarrow> fails (''grpc dial: '' @ e)
                | (None, w3) \<Rightarrow>
                    (case measured (timed (be_now E) (\<lambda>w. be_Check E w 0)) 0 (nat n) (repeat (nat warmup) (\<lambda>w. snd (be_Check E w 0)) w3) of
                       (Inl (i, e), w4) \<Rightarrow> fails (''grpc check['' @ Itoa (int i) @ '']: '' @ e)
                     | (Inr grpc, w4) \<Rightarrow> prints (printCompare ''RTT'' n 1 acp grpc)))))"

text \<open>Connections are opened one after the other; the first error is reported with its number.\<close>

fun open_all :: "('w \<Rightarrow> nat \<Rightarrow> string option \<times> 'w) \<Rightarrow> nat list \<Rightarrow> 'w \<Rightarrow> (nat \<times> string) option \<times> 'w" where
  "open_all dial [] w = (None, w)"
| "open_all dial (i # is) w = (case dial w i of (Some e, w1) \<Rightarrow> (Some (i, e), w1) | (None, w1) \<Rightarrow> open_all dial is w1)"

definition bench_throughput :: "'w BenchEnv \<Rightarrow> int \<Rightarrow> int \<Rightarrow> nat list \<Rightarrow> nat list \<Rightarrow> 'w \<Rightarrow> report option" where
  "bench_throughput E n c0 sched1 sched2 w =
     (let c = (if c0 \<le> 0 then 1 else nat c0) in
      case open_all (be_dialACP E) [0..<c] w of
        (Some (i, e), w1) \<Rightarrow> Some (fails (''acp dial['' @ Itoa (int i) @ '']: '' @ e))
      | (None, w1) \<Rightarrow>
          (case runEqualWorkers (be_now E) c n
              (\<lambda>i w. let (r, w1) = be_Ping E w i in (case r of Inl e \<Rightarrow> Some e | Inr d \<Rightarrow> None, w1)) w1 sched1 of
             None \<Rightarrow> None
           | Some (Inl e, w2) \<Rightarrow> Some (fails (''acp run: '' @ e))
           | Some (Inr acpDur, w2) \<Rightarrow>
               (case open_all (be_dialGRPC E) [0..<c] w2 of
                  (Some (i, e), w3) \<Rightarrow> Some (fails (''grpc dial['' @ Itoa (int i) @ '']: '' @ e))
                | (None, w3) \<Rightarrow>
                    (case runEqualWorkers (be_now E) c n (\<lambda>i w. be_Check E w i) w3 sched2 of
                       None \<Rightarrow> None
                     | Some (Inl e, w4) \<Rightarrow> Some (fails (''grpc run: '' @ e))
                     | Some (Inr grpcDur, w4) \<Rightarrow> Some (prints (printThroughput ''Throughput'' n (int c) acpDur grpcDur))))))"

text \<open>One connection set up and closed; its time is kept beside the world.\<close>

definition connect_acp :: "'w BenchEnv \<Rightarrow> nat \<Rightarrow> 'w \<times> int list \<Rightarrow> string option \<times> 'w \<times> int list" where
  "connect_acp E i s =
     (case be_dialACP E (fst s) i of
        (Some e, w1) \<Rightarrow> (Some e, w1, snd s)
      | (None, w1) \<Rightarrow> (let (e, w2) = be_closeACP E w1 i in (e, w2, snd s @ [be_now E w1 - be_now E (fst s)])))"

definition connect_grpc :: "'w BenchEnv \<Rightarrow> nat \<Rightarrow> 'w \<times> int list \<Rightarrow> string option \<times> 'w \<times> int list" where
  "connect_grpc E i s =
     (case be_dialGRPC E (fst s) i of
        (Some e, w1) \<Rightarrow> (Some e, w1, snd s)
      | (None, w1) \<Rightarrow>
          (case be_Check E w1 i of
             (Some e, w2) \<Rightarrow> (Some e, snd (be_closeGRPC E w2 i), snd s)
           | (None, w2) \<Rightarrow> (let (e, w3) = be_closeGRPC E w2 i in (e, w3, snd s @ [be_now E w2 - be_now E (fst s)]))))"

definition bench_connect :: "'w BenchEnv \<Rightarrow> int \<Rightarrow> int \<Rightarrow> nat list \<Rightarrow> nat list \<Rightarrow> 'w \<Rightarrow> report option" where
  "bench_connect E n c0 sched1 sched2 w =
     (let c = (if c0 \<le> 0 then 1 else nat c0) in
      case runEqualWorkers (be_now E \<circ> fst) c n (connect_acp E) (w, []) sched1 of
        None \<Rightarrow> None
      | Some (Inl e, s1) \<Rightarrow> Some (fails (''acp connect: '' @ e))
      | Some (Inr acpDur, s1) \<Rightarrow>
          (case runEqualWorkers (be_now E \<circ> fst) c n (connect_grpc E) (fst s1, []) sched2 of
             None \<Rightarrow> None
           | Some (Inl e, s2) \<Rightarrow> Some (fails (''grpc connect: '' @ e))
           | Some (Inr grpcDur, s2) \<Rightarrow>
               Some (prints (printCompare ''Connect Setup'' n (int c) (snd s1) (snd s2) @
                 lines_of [''(total wallclock: ACP='' @ Duration_String acpDur @ '' gRPC='' @ Duration_String grpcDur @ '')'']))))"

section \<open>The load test of RunAgent\<close>

text \<open>One run, over what Recv will return; None while it waits.\<close>

fun once_loop :: "(string, RunEvent) result list \<Rightarrow> string option option" where
  "once_loop [] = None"
| "once_loop (Inl e # rs) = Some (if e = ''EOF'' then None else Some e)"
| "once_loop (Inr ev # rs) =
     (case ev_Payload ev of
        Some (Done n ts) \<Rightarrow> Some None
      | Some (Error c m b) \<Rightarrow> Some (Some (''run error: '' @ m))
      | _ \<Rightarrow> once_loop rs)"

definition runAgentOnce :: "'w CtlEnv \<Rightarrow> 'w \<Rightarrow> string \<Rightarrow> string \<Rightarrow> string \<Rightarrow> string option option" where
  "runAgentOnce E w userID prompt model =
     (case ct_RunAgent E w of
        (Some e, w1) \<Rightarrow> Some (Some e)
      | (None, w1) \<Rightarrow>
          (case ct_Send E w1 (cli_request userID model prompt) of
             (Some e, w2) \<Rightarrow> Some (Some e)
           | (None, w2) \<Rightarrow>
               (case ct_CloseSend E w2 of (Some e, w3) \<Rightarrow> Some (Some e) | (None, w3) \<Rightarrow> once_loop (ct_Recv E w3))))"

text \<open>Which worker has which job, and what is counted. A job is handed to a worker that waits for one; a worker that ends one has a duration
  and the error of runAgentOnce. The context may end while the next job waits to be taken.\<close>

record load_test =
  lt_next :: nat
  lt_busy :: "nat option list"
  lt_cancelled :: bool
  lt_ok :: nat
  lt_failed :: nat
  lt_samples :: "int list"
  lt_firstErr :: "string option"

datatype load_event = Take nat | Finish nat int "string option" | Cancel

definition load_start :: "nat \<Rightarrow> load_test" where
  "load_start c = \<lparr> lt_next = 0, lt_busy = replicate c None, lt_cancelled = False, lt_ok = 0, lt_failed = 0, lt_samples = [], lt_firstErr = None \<rparr>"

fun load_step :: "nat \<Rightarrow> load_test \<Rightarrow> load_event \<Rightarrow> load_test option" where
  "load_step n s (Take i) =
     (if lt_next s < n \<and> \<not> lt_cancelled s \<and> i < length (lt_busy s) \<and> lt_busy s ! i = None
      then Some (s\<lparr> lt_next := lt_next s + 1, lt_busy := (lt_busy s)[i := Some (lt_next s)] \<rparr>) else None)"
| "load_step n s (Finish i d r) =
     (if i < length (lt_busy s) \<and> lt_busy s ! i \<noteq> None
      then Some (let t = s\<lparr> lt_busy := (lt_busy s)[i := None], lt_samples := lt_samples s @ [d] \<rparr>
        in case r of
             None \<Rightarrow> t\<lparr> lt_ok := lt_ok s + 1 \<rparr>
           | Some e \<Rightarrow> t\<lparr> lt_failed := lt_failed s + 1, lt_firstErr := (if lt_firstErr s = None then Some e else lt_firstErr s) \<rparr>)
      else None)"
| "load_step n s Cancel = (if lt_next s < n \<and> \<not> lt_cancelled s then Some (s\<lparr> lt_cancelled := True \<rparr>) else None)"

fun load_run :: "nat \<Rightarrow> load_test \<Rightarrow> load_event list \<Rightarrow> load_test option" where
  "load_run n s [] = Some s"
| "load_run n s (e # es) = Option.bind (load_step n s e) (\<lambda>t. load_run n t es)"

definition load_over :: "nat \<Rightarrow> load_test \<Rightarrow> bool" where
  "load_over n s \<longleftrightarrow> (lt_next s = n \<or> lt_cancelled s) \<and> list_all ((=) None) (lt_busy s)"

definition runRunAgentWorkers :: "string \<Rightarrow> load_test \<Rightarrow> string option" where
  "runRunAgentWorkers ctx_err s = (if lt_cancelled s then Some ctx_err else lt_firstErr s)"

definition at_least_one :: "int \<Rightarrow> int" where "at_least_one n = (if n \<le> 0 then 1 else n)"

definition bench_run_agent :: "string \<Rightarrow> int \<Rightarrow> int \<Rightarrow> int \<Rightarrow> load_test \<Rightarrow> report" where
  "bench_run_agent ctx_err total0 c0 elapsed s =
     (case runRunAgentWorkers ctx_err s of
        Some e \<Rightarrow> fails e
      | None \<Rightarrow>
          (let n = at_least_one total0; c = at_least_one c0; sm = Summary (lt_samples s); (p50, p95, p99, avg, k) = sm
           in \<lparr> rp_out = lines_of [[], scenario_line ''RunAgent'' n c,
                  ''ok='' @ Itoa (int (lt_ok s)) @ '' failed='' @ Itoa (int (lt_failed s)) @ '' duration='' @ Duration_String elapsed @
                    '' throughput='' @ fmt_float 2 (float_div (Finite (f64 (of_int n))) (Finite (Seconds elapsed))) @ '' runs/sec'',
                  stats_header, stats_row ''RunAgent'' sm @ '' samples='' @ Itoa (int k)],
                rp_err = [],
                rp_end = RunE (if lt_failed s > 0 then Some (''run-agent benchmark had '' @ Itoa (int (lt_failed s)) @ '' failures'') else None) \<rparr>))"

section \<open>What is measured\<close>

lemma sum_list_update_less: "i < length xs \<Longrightarrow> xs ! i > (0 :: nat) \<Longrightarrow> sum_list (xs[i := xs ! i - 1]) + 1 = sum_list xs"
  by (induction xs arbitrary: i) (auto split: nat.splits simp: nth_Cons')

text \<open>Workers that meet no error make as many calls as they have left.\<close>

lemma equal_run_calls:
  assumes "\<And>i w. fst (op i w) = None \<and> calls (snd (op i w)) = calls w + (1 :: nat)"
  shows "equal_run op left err w sched = Some (e, w') \<Longrightarrow> e = err \<and> calls w' = calls w + sum_list left"
proof (induction sched arbitrary: left err w)
  case (Cons i sched)
  show ?case
  proof (cases "sum_list left \<noteq> 0 \<and> i < length left \<and> left ! i > 0")
    case True
    obtain w1 where o: "op i w = (None, w1)" "calls w1 = calls w + 1" using assms [of i w] by (cases "op i w") auto
    then have "equal_run op (left[i := left ! i - 1]) err w1 sched = Some (e, w')" using Cons.prems True by (simp del: sum_list_eq_0_iff)
    from Cons.IH [OF this] show ?thesis using o(2) sum_list_update_less [of i left] True by simp
  next
    case False
    then show ?thesis using Cons.prems Cons.IH by (auto simp del: sum_list_eq_0_iff split: if_splits)
  qed
qed (simp del: sum_list_eq_0_iff split: if_splits)

lemma quot_nat: "quot (int a) (int b) = int (a div b)"
  by (cases "a = 0"; cases "b = 0") (simp_all add: quot_def zdiv_int)

text \<open>The calls a throughput test makes, whatever the schedule: n only when c divides it.\<close>

lemma runEqualWorkers_calls:
  assumes "\<And>i w. fst (op i w) = None \<and> calls (snd (op i w)) = calls w + (1 :: nat)" "c > 0" "n \<ge> 0"
    and "runEqualWorkers now c n op w sched = Some (r, w')"
  shows "calls w' = calls w + c * max 1 (nat n div c) \<and> r = Inr (now w' - now w)"
proof -
  have "n = int (nat n)" using assms(3) by simp
  then have p: "per_worker c n = max 1 (nat n div c)"
    using quot_nat [of "nat n" c] unfolding per_worker_def Let_def by (metis max_def nat_int not_less_eq_eq of_nat_0_eq_iff One_nat_def le_zero_eq)
  obtain e w1 where e: "equal_run op (replicate c (per_worker c n)) None w sched = Some (e, w1)"
    using assms(4) by (auto simp: runEqualWorkers_def split: option.splits)
  then have "e = None" "calls w1 = calls w + c * per_worker c n"
    using equal_run_calls [OF assms(1) e] by (simp_all add: sum_list_replicate)
  then show ?thesis using assms(4) e p by (auto simp: runEqualWorkers_def)
qed

definition load_inv :: "load_test \<Rightarrow> bool" where
  "load_inv s \<longleftrightarrow> lt_ok s + lt_failed s = length (lt_samples s) \<and>
     length (lt_samples s) + length (filter (\<lambda>b. b \<noteq> None) (lt_busy s)) = lt_next s \<and> (lt_failed s = 0 \<longleftrightarrow> lt_firstErr s = None)"

lemma count_update:
  assumes "i < length xs"
  shows "length (filter P (xs[i := x])) + (if P (xs ! i) then 1 else 0) = length (filter P xs) + (if P x then 1 else 0)"
proof -
  have "xs = take i xs @ xs ! i # drop (Suc i) xs" using id_take_nth_drop [OF assms] .
  from arg_cong [OF this, of "\<lambda>l. length (filter P l)"] show ?thesis by (simp add: upd_conv_take_nth_drop [OF assms])
qed

lemma load_step_inv:
  assumes "load_inv s" "load_step n s e = Some t"
  shows "load_inv t"
proof (cases e)
  case (Take i)
  then show ?thesis using assms count_update [of i "lt_busy s" "\<lambda>b. b \<noteq> None" "Some (lt_next s)"]
    by (auto simp: load_inv_def split: if_splits)
next
  case (Finish i d r)
  then show ?thesis using assms count_update [of i "lt_busy s" "\<lambda>b. b \<noteq> None" None]
    by (auto simp: load_inv_def Let_def split: if_splits option.splits)
next
  case Cancel
  then show ?thesis using assms by (auto simp: load_inv_def split: if_splits)
qed

lemma load_run_inv: "load_inv s \<Longrightarrow> load_run n s es = Some t \<Longrightarrow> load_inv t"
  by (induction es arbitrary: s) (auto intro: load_step_inv split: Option.bind_splits)

text \<open>A load test that is over and was not cancelled has counted every run once; the command reports no numbers when one of them failed,
  and never the number of failures.\<close>

lemma load_test_counts:
  assumes "load_run n (load_start c) es = Some s" "load_over n s" "\<not> lt_cancelled s"
  shows "lt_ok s + lt_failed s = n" "length (lt_samples s) = n"
    "lt_failed s > 0 \<Longrightarrow> \<exists>e. lt_firstErr s = Some e \<and> bench_run_agent x k l m s = fails e"
proof -
  have "load_inv (load_start c)" by (simp add: load_inv_def load_start_def)
  then have i: "load_inv s" using load_run_inv assms(1) by blast
  moreover have "filter (\<lambda>b. b \<noteq> None) (lt_busy s) = []" using assms(2) by (auto simp: load_over_def filter_empty_conv list_all_iff)
  ultimately show "lt_ok s + lt_failed s = n" "length (lt_samples s) = n" using assms(2,3) by (auto simp: load_inv_def load_over_def)
  show "\<exists>e. lt_firstErr s = Some e \<and> bench_run_agent x k l m s = fails e" if "lt_failed s > 0"
    using that i assms(3) by (auto simp: load_inv_def bench_run_agent_def runRunAgentWorkers_def)
qed

end
